(* ===== verification/FB_Prelude.thy ===== *)
theory FB_Prelude
  imports Main "HOL-Library.Sublist" "HOL-Library.Word"
begin

text \<open>
  Shared vocabulary of the development: Rust strings as lists of Unicode scalar values
  with their UTF-8 width, the string functions of the standard library that the sources
  call (\<^verbatim>\<open>str::split\<close>, \<^verbatim>\<open>trim_end_matches\<close>, \<^verbatim>\<open>is_char_boundary\<close>,
  \<^verbatim>\<open>String::truncate\<close>, \<^verbatim>\<open>char::is_control\<close>, \<^verbatim>\<open>eq_ignore_ascii_case\<close>),
  \<^verbatim>\<open>Result\<close> as a sum with the error on the left and the \<open>?\<close> operator as
  \<open>and_then\<close>, and the generic lemmas the components share.
\<close>

section \<open>Lemma collections\<close>

named_theorems str_simps \<open>rewriting of the string primitives\<close>
named_theorems res_simps \<open>inversion of results and of the question mark operator\<close>

section \<open>Rust strings\<close>

text \<open>
  A \<^verbatim>\<open>char\<close> is its scalar value and a \<^verbatim>\<open>String\<close> the list of its
  \<^verbatim>\<open>chars()\<close>; \<^verbatim>\<open>str::len\<close> counts UTF-8 bytes and is \<open>str_len\<close>.
\<close>

type_synonym rchar = nat
type_synonym rstring = "rchar list"
type_synonym byte = "8 word"
type_synonym u8 = "8 word"
type_synonym u16 = "16 word"
type_synonym u32 = "32 word"
type_synonym u64 = "64 word"

definition lit :: "string \<Rightarrow> rstring" where
  "lit s = map of_char s"

definition utf8_width :: "rchar \<Rightarrow> nat" where
  "utf8_width c = (if c < 128 then 1 else if c < 2048 then 2 else if c < 65536 then 3 else 4)"

definition str_len :: "rstring \<Rightarrow> nat" where
  "str_len s = sum_list (map utf8_width s)"

text \<open>\<^verbatim>\<open>char::is_control\<close>: the general category Cc.\<close>

definition is_control :: "rchar \<Rightarrow> bool" where
  "is_control c \<longleftrightarrow> c < 32 \<or> (127 \<le> c \<and> c < 160)"

definition is_ascii_alphabetic :: "rchar \<Rightarrow> bool" where
  "is_ascii_alphabetic c \<longleftrightarrow> (65 \<le> c \<and> c \<le> 90) \<or> (97 \<le> c \<and> c \<le> 122)"

definition is_ascii_digit :: "rchar \<Rightarrow> bool" where
  "is_ascii_digit c \<longleftrightarrow> 48 \<le> c \<and> c \<le> 57"

definition is_ascii_alphanumeric :: "rchar \<Rightarrow> bool" where
  "is_ascii_alphanumeric c \<longleftrightarrow> is_ascii_alphabetic c \<or> is_ascii_digit c"

definition ascii_lower :: "rchar \<Rightarrow> rchar" where
  "ascii_lower c = (if 65 \<le> c \<and> c \<le> 90 then c + 32 else c)"

definition ascii_upper :: "rchar \<Rightarrow> rchar" where
  "ascii_upper c = (if 97 \<le> c \<and> c \<le> 122 then c - 32 else c)"

definition to_ascii_uppercase :: "rstring \<Rightarrow> rstring" where
  "to_ascii_uppercase s = map ascii_upper s"

definition eq_ignore_ascii_case :: "rstring \<Rightarrow> rstring \<Rightarrow> bool" where
  "eq_ignore_ascii_case s t \<longleftrightarrow> map ascii_lower s = map ascii_lower t"

text \<open>\<^verbatim>\<open>str::split\<close> with a predicate; never empty.\<close>

fun split_by :: "('a \<Rightarrow> bool) \<Rightarrow> 'a list \<Rightarrow> 'a list list" where
  "split_by P [] = [[]]"
| "split_by P (x # xs) =
     (if P x then [] # split_by P xs
      else (case split_by P xs of [] \<Rightarrow> [[x]] | p # ps \<Rightarrow> (x # p) # ps))"

abbreviation split_on :: "'a \<Rightarrow> 'a list \<Rightarrow> 'a list list" where
  "split_on c \<equiv> split_by (\<lambda>x. x = c)"

fun join_with :: "'a \<Rightarrow> 'a list list \<Rightarrow> 'a list" where
  "join_with c [] = []"
| "join_with c [p] = p"
| "join_with c (p # q # ps) = p @ c # join_with c (q # ps)"

definition trim_end_matches :: "('a \<Rightarrow> bool) \<Rightarrow> 'a list \<Rightarrow> 'a list" where
  "trim_end_matches P s = rev (dropWhile P (rev s))"

text \<open>\<^verbatim>\<open>str::split_once\<close>, \<^verbatim>\<open>strip_prefix\<close> and \<^verbatim>\<open>strip_suffix\<close>.\<close>

definition split_once :: "'a \<Rightarrow> 'a list \<Rightarrow> ('a list \<times> 'a list) option" where
  "split_once c s =
     (if c \<in> set s then Some (takeWhile (\<lambda>x. x \<noteq> c) s, tl (dropWhile (\<lambda>x. x \<noteq> c) s)) else None)"

fun strip_prefix :: "'a list \<Rightarrow> 'a list \<Rightarrow> 'a list option" where
  "strip_prefix [] s = Some s"
| "strip_prefix (p # ps) [] = None"
| "strip_prefix (p # ps) (c # s) = (if p = c then strip_prefix ps s else None)"

definition strip_suffix :: "'a list \<Rightarrow> 'a list \<Rightarrow> 'a list option" where
  "strip_suffix suf s = map_option rev (strip_prefix (rev suf) (rev s))"

text \<open>\<^verbatim>\<open>char::is_whitespace\<close>: the property White_Space; \<^verbatim>\<open>str::trim\<close> removes it at both ends.\<close>

definition is_whitespace :: "rchar \<Rightarrow> bool" where
  "is_whitespace c \<longleftrightarrow> (9 \<le> c \<and> c \<le> 13) \<or> c = 32 \<or> c = 133 \<or> c = 160 \<or> c = 5760 \<or>
     (8192 \<le> c \<and> c \<le> 8202) \<or> c = 8232 \<or> c = 8233 \<or> c = 8239 \<or> c = 8287 \<or> c = 12288"

definition str_trim :: "rstring \<Rightarrow> rstring" where
  "str_trim s = trim_end_matches is_whitespace (dropWhile is_whitespace s)"

text \<open>
  \<^verbatim>\<open>is_char_boundary n\<close>: some prefix of the string takes exactly \<open>n\<close> bytes;
  \<^verbatim>\<open>truncate n\<close> keeps that prefix (the sources only call it at a boundary).
\<close>

definition is_char_boundary :: "rstring \<Rightarrow> nat \<Rightarrow> bool" where
  "is_char_boundary s n \<longleftrightarrow> n \<in> set (map (\<lambda>k. str_len (take k s)) [0..<Suc (length s)])"

fun str_truncate :: "rstring \<Rightarrow> nat \<Rightarrow> rstring" where
  "str_truncate [] n = []"
| "str_truncate (c # s) n =
     (if utf8_width c \<le> n then c # str_truncate s (n - utf8_width c) else [])"

section \<open>Results\<close>

type_synonym ('a, 'e) result = "'e + 'a"

definition and_then :: "('a, 'e) result \<Rightarrow> ('a \<Rightarrow> ('b, 'e) result) \<Rightarrow> ('b, 'e) result" where
  "and_then r f = (case r of Inl e \<Rightarrow> Inl e | Inr a \<Rightarrow> f a)"

definition ensure :: "bool \<Rightarrow> 'e \<Rightarrow> (unit, 'e) result" where
  "ensure b e = (if b then Inr () else Inl e)"

definition ok_or :: "'a option \<Rightarrow> 'e \<Rightarrow> ('a, 'e) result" where
  "ok_or x e = (case x of Some a \<Rightarrow> Inr a | None \<Rightarrow> Inl e)"

definition map_err :: "('e \<Rightarrow> 'f) \<Rightarrow> ('a, 'e) result \<Rightarrow> ('a, 'f) result" where
  "map_err f r = (case r of Inl e \<Rightarrow> Inl (f e) | Inr a \<Rightarrow> Inr a)"

definition is_ok :: "('a, 'e) result \<Rightarrow> bool" where
  "is_ok r = (case r of Inl _ \<Rightarrow> False | Inr _ \<Rightarrow> True)"

text \<open>\<^verbatim>\<open>saturating_add\<close> on a \<open>u8\<close>.\<close>

definition saturating_add_u8 :: "u8 \<Rightarrow> u8 \<Rightarrow> u8" where
  "saturating_add_u8 a b = (if unat a + unat b < 256 then a + b else 255)"

section \<open>Lemmas on results\<close>

lemma and_then_simps [simp]:
  "and_then (Inl e) f = Inl e"
  "and_then (Inr a) f = f a"
  by (simp_all add: and_then_def)

lemma and_then_eq_Inr [res_simps]:
  "and_then r f = Inr b \<longleftrightarrow> (\<exists>a. r = Inr a \<and> f a = Inr b)"
  by (cases r) auto

lemma and_then_eq_Inl [res_simps]:
  "and_then r f = Inl e \<longleftrightarrow> r = Inl e \<or> (\<exists>a. r = Inr a \<and> f a = Inl e)"
  by (cases r) auto

lemma ensure_eq_Inr [res_simps]: "ensure b e = Inr u \<longleftrightarrow> b"
  by (simp add: ensure_def)

lemma ensure_eq_Inl [res_simps]: "ensure b e = Inl f \<longleftrightarrow> \<not> b \<and> f = e"
  by (auto simp: ensure_def)

lemma ok_or_eq_Inr [res_simps]: "ok_or x e = Inr a \<longleftrightarrow> x = Some a"
  by (cases x) (auto simp: ok_or_def)

lemma ok_or_eq_Inl [res_simps]: "ok_or x e = Inl f \<longleftrightarrow> x = None \<and> f = e"
  by (cases x) (auto simp: ok_or_def)

lemma map_err_eq_Inr [res_simps]: "map_err f r = Inr a \<longleftrightarrow> r = Inr a"
  by (cases r) (auto simp: map_err_def)

lemma map_err_eq_Inl [res_simps]: "map_err f r = Inl e' \<longleftrightarrow> (\<exists>e. r = Inl e \<and> e' = f e)"
  by (cases r) (auto simp: map_err_def)

section \<open>Lemmas on strings\<close>

lemma str_len_simps [simp]:
  "str_len [] = 0"
  "str_len (c # s) = utf8_width c + str_len s"
  "str_len (s @ t) = str_len s + str_len t"
  by (simp_all add: str_len_def)

lemma utf8_width_pos [simp]: "0 < utf8_width c"
  by (simp add: utf8_width_def)

lemma utf8_width_le: "utf8_width c \<le> 4"
  by (simp add: utf8_width_def)

lemma str_len_ge_length: "length s \<le> str_len s"
proof (induction s)
  case (Cons c s)
  then show ?case by (simp add: utf8_width_def)
qed simp

lemma str_len_eq_0 [simp]: "str_len s = 0 \<longleftrightarrow> s = []"
  by (cases s) simp_all

lemma str_len_prefix: "prefix s t \<Longrightarrow> str_len s \<le> str_len t"
  by (auto simp: prefix_def)

lemma prefix_str_len_eq: "prefix s t \<Longrightarrow> str_len s = str_len t \<longleftrightarrow> s = t"
  by (auto elim!: prefixE)

lemma strict_prefix_str_len: "strict_prefix s t \<Longrightarrow> str_len s < str_len t"
  by (auto elim!: strict_prefixE')

lemma is_char_boundary_iff: "is_char_boundary s n \<longleftrightarrow> (\<exists>p. prefix p s \<and> str_len p = n)"
proof
  assume "is_char_boundary s n"
  then show "\<exists>p. prefix p s \<and> str_len p = n"
    by (auto simp: is_char_boundary_def intro: take_is_prefix)
next
  assume "\<exists>p. prefix p s \<and> str_len p = n"
  then obtain p q where "s = p @ q" "str_len p = n"
    by (auto simp: prefix_def)
  then have "n = str_len (take (length p) s)" "length p \<in> {0..<Suc (length s)}" by auto
  then show "is_char_boundary s n"
    unfolding is_char_boundary_def set_map set_upt by (rule image_eqI)
qed

lemma is_char_boundary_0 [simp]: "is_char_boundary s 0"
  by (auto simp: is_char_boundary_iff)

lemma str_truncate_prefix: "prefix (str_truncate s n) s"
  by (induction s n rule: str_truncate.induct) auto

lemma str_truncate_len_le: "str_len (str_truncate s n) \<le> n"
  by (induction s n rule: str_truncate.induct) auto

lemma str_truncate_boundary: "is_char_boundary s n \<Longrightarrow> str_len (str_truncate s n) = n"
proof (induction s n rule: str_truncate.induct)
  case (1 n)
  then show ?case by (simp add: is_char_boundary_def)
next
  case (2 c s n)
  show ?case
  proof (cases "n = 0")
    case True
    then show ?thesis by (simp add: utf8_width_pos leD)
  next
    case False
    from "2.prems" obtain p where p: "prefix p (c # s)" "str_len p = n"
      by (auto simp: is_char_boundary_iff)
    with False obtain q where q: "p = c # q" "prefix q s"
      by (cases p) auto
    with p have w: "utf8_width c \<le> n" "str_len q = n - utf8_width c" by auto
    with q have "is_char_boundary s (n - utf8_width c)"
      by (auto simp: is_char_boundary_iff)
    with "2.IH" w show ?thesis by simp
  qed
qed

lemma eq_ignore_ascii_case_length: "eq_ignore_ascii_case s t \<Longrightarrow> length s = length t"
  unfolding eq_ignore_ascii_case_def by (drule arg_cong [of _ _ length]) simp

lemma eq_ignore_ascii_case_refl [simp]: "eq_ignore_ascii_case s s"
  by (simp add: eq_ignore_ascii_case_def)

lemma split_by_nonempty [simp]: "split_by P s \<noteq> []"
  by (induction s) (auto split: list.splits)

lemma hd_split_by: "hd (split_by P s) = takeWhile (\<lambda>x. \<not> P x) s"
  by (induction s) (auto split: list.splits)

lemma split_by_none [str_simps]: "(\<And>x. x \<in> set s \<Longrightarrow> \<not> P x) \<Longrightarrow> split_by P s = [s]"
  by (induction s) auto

lemma split_by_append_sep [str_simps]:
  "P c \<Longrightarrow> split_by P (s @ c # t) = split_by P s @ split_by P t"
  by (induction s) (auto split: list.splits simp: Cons_eq_append_conv)

lemma split_by_components: "\<forall>p \<in> set (split_by P s). set p \<subseteq> {x \<in> set s. \<not> P x}"
proof (induction s)
  case (Cons y s)
  obtain q qs where "split_by P s = q # qs"
    by (cases "split_by P s") auto
  with Cons show ?case by (cases "P y") auto
qed simp

lemma split_by_component: "p \<in> set (split_by P s) \<Longrightarrow> x \<in> set p \<Longrightarrow> x \<in> set s \<and> \<not> P x"
  using split_by_components [of P s] by blast

lemma join_with_cons: "ps \<noteq> [] \<Longrightarrow> join_with c (p # ps) = p @ c # join_with c ps"
  by (cases ps) simp_all

lemma join_with_Cons_first: "join_with c ((x # p) # ps) = x # join_with c (p # ps)"
  by (cases ps) simp_all

lemma join_split_on [simp]: "join_with c (split_on c s) = s"
proof (induction s)
  case (Cons x s)
  then show ?case
    by (cases "split_on c s") (auto simp: join_with_cons join_with_Cons_first)
qed simp

lemma join_with_append:
  "ps \<noteq> [] \<Longrightarrow> qs \<noteq> [] \<Longrightarrow> join_with c (ps @ qs) = join_with c ps @ c # join_with c qs"
proof (induction ps)
  case (Cons p ps)
  then show ?case by (cases "ps = []") (auto simp: join_with_cons)
qed simp

lemma split_on_join:
  "ps \<noteq> [] \<Longrightarrow> (\<And>p. p \<in> set ps \<Longrightarrow> c \<notin> set p) \<Longrightarrow> split_on c (join_with c ps) = ps"
proof (induction ps)
  case (Cons p ps)
  have p: "split_on c p = [p]"
    using Cons.prems(2) [of p] by (intro split_by_none) auto
  show ?case
  proof (cases "ps = []")
    case True
    with p show ?thesis by simp
  next
    case False
    with p Cons show ?thesis
      by (simp add: join_with_cons split_by_append_sep)
  qed
qed simp

lemma split_once_iff [str_simps]:
  "split_once c s = Some (a, b) \<longleftrightarrow> s = a @ c # b \<and> c \<notin> set a"
proof -
  have "s = takeWhile (\<lambda>x. x \<noteq> c) s @ c # tl (dropWhile (\<lambda>x. x \<noteq> c) s)" if "c \<in> set s"
  proof -
    have "dropWhile (\<lambda>x. x \<noteq> c) s \<noteq> []" using that by (simp add: dropWhile_eq_Nil_conv)
    then have "dropWhile (\<lambda>x. x \<noteq> c) s = c # tl (dropWhile (\<lambda>x. x \<noteq> c) s)"
      using hd_dropWhile [of "\<lambda>x. x \<noteq> c" s] by (cases "dropWhile (\<lambda>x. x \<noteq> c) s") auto
    then show ?thesis using takeWhile_dropWhile_id [of "\<lambda>x. x \<noteq> c" s] by metis
  qed
  moreover have "takeWhile (\<lambda>x. x \<noteq> c) (a @ c # b) = a" "dropWhile (\<lambda>x. x \<noteq> c) (a @ c # b) = c # b"
    if "c \<notin> set a" using that by (auto simp: takeWhile_append dropWhile_append)
  ultimately show ?thesis
    by (auto simp: split_once_def dest: set_takeWhileD)
qed

lemma split_once_None [str_simps]: "split_once c s = None \<longleftrightarrow> c \<notin> set s"
  by (simp add: split_once_def)

lemma strip_prefix_iff [str_simps]: "strip_prefix p s = Some r \<longleftrightarrow> s = p @ r"
  by (induction p s rule: strip_prefix.induct) auto

lemma strip_suffix_iff [str_simps]: "strip_suffix p s = Some r \<longleftrightarrow> s = r @ p"
  unfolding strip_suffix_def by (auto simp: strip_prefix_iff) (metis rev_append rev_rev_ident)

lemma trim_end_prefix: "prefix (trim_end_matches P s) s"
  unfolding trim_end_matches_def
  by (metis rev_rev_ident suffix_dropWhile suffix_to_prefix)

lemma trim_end_last: "trim_end_matches P s \<noteq> [] \<Longrightarrow> \<not> P (last (trim_end_matches P s))"
  unfolding trim_end_matches_def
  by (metis hd_dropWhile hd_rev rev_is_Nil_conv rev_rev_ident)

lemma trim_end_id: "s = [] \<or> \<not> P (last s) \<Longrightarrow> trim_end_matches P s = s"
  unfolding trim_end_matches_def
  by (metis dropWhile_eq_self_iff hd_rev rev_is_Nil_conv rev_rev_ident)

lemma trim_end_eq_iff: "trim_end_matches P s = s \<longleftrightarrow> s = [] \<or> \<not> P (last s)"
  using trim_end_id trim_end_last by metis

section \<open>Normalisers\<close>

text \<open>
  A component that rewrites untrusted values into acceptable ones promises that its
  results are acceptable and that acceptable values are not touched. Its clients rely on
  the consequences: rewriting twice is rewriting once, the acceptable values are the
  fixed points, and every acceptable value is reached.
\<close>

locale normaliser =
  fixes norm :: "'a \<Rightarrow> 'a"
    and acceptable :: "'a \<Rightarrow> bool"
  assumes norm_acceptable: "acceptable (norm x)"
    and acceptable_norm: "acceptable x \<Longrightarrow> norm x = x"
begin

lemma idempotent: "norm (norm x) = norm x"
  by (simp add: norm_acceptable acceptable_norm)

lemma fixed_point_iff: "norm x = x \<longleftrightarrow> acceptable x"
  using norm_acceptable [of x] acceptable_norm [of x] by auto

lemma range_norm: "range norm = Collect acceptable"
  using fixed_point_iff norm_acceptable by (auto simp: image_iff) metis

end

section \<open>Codecs\<close>

text \<open>
  A pair of printer and parser promises that what is printed parses to what was meant.
  Its clients rely on the printed form to identify the value.
\<close>

locale codec =
  fixes enc :: "'a \<Rightarrow> 'b"
    and dec :: "'b \<Rightarrow> 'a option"
  assumes dec_enc: "dec (enc x) = Some x"
begin

lemma enc_inj: "enc x = enc y \<longleftrightarrow> x = y"
  by (metis dec_enc option.inject)

lemma dec_total_on_range: "y \<in> range enc \<Longrightarrow> \<exists>x. dec y = Some x \<and> enc x = y"
  using dec_enc by auto

end

end
