(* ===== verification/FB_Filename.thy ===== *)
theory FB_Filename
  imports FB_Prelude
begin

text \<open>
  File name sanitisation for peer-supplied names
  (\<^verbatim>\<open>packages/core/src/util/filename.rs\<close>): the rule sets, \<^verbatim>\<open>sanitize_with\<close>,
  \<^verbatim>\<open>is_valid\<close> and \<^verbatim>\<open>sanitize_path\<close>, and the theorems that every sanitised name is
  valid, that valid names are exactly the fixed points of the sanitiser, and that a
  sanitised path is a single component.
\<close>

section \<open>Rules\<close>

text \<open>\<open><\<close>, \<open>>\<close>, colon, double quote, slash, backslash, bar, question mark, star.\<close>

definition ILLEGAL_WINDOWS_CHARS :: "rchar list" where
  "ILLEGAL_WINDOWS_CHARS = [60, 62, 58, 34, 47, 92, 124, 63, 42]"

definition ILLEGAL_HFS_CHARS :: "rchar list" where
  "ILLEGAL_HFS_CHARS = [47, 58]"

definition ILLEGAL_POSIX_CHARS :: "rchar list" where
  "ILLEGAL_POSIX_CHARS = [47]"

definition RESERVED_WINDOWS_NAMES :: "rstring list" where
  "RESERVED_WINDOWS_NAMES = map lit
     [''con'', ''prn'', ''aux'', ''nul'', ''com1'', ''com2'', ''com3'', ''com4'', ''com5'',
      ''com6'', ''com7'', ''com8'', ''com9'', ''lpt1'', ''lpt2'', ''lpt3'', ''lpt4'', ''lpt5'',
      ''lpt6'', ''lpt7'', ''lpt8'', ''lpt9'']"

definition MAX_LEN :: nat where
  "MAX_LEN = 255"

datatype rules = Windows | Hfs | Fat | Posix | Universal

text \<open>The compilation targets that \<^verbatim>\<open>Rules::current\<close> distinguishes.\<close>

datatype target_os = TargetWindows | TargetMacos | TargetIos | TargetAndroid | TargetOtherUnix
  | TargetOther

fun current :: "target_os \<Rightarrow> rules" where
  "current TargetWindows = Windows"
| "current TargetMacos = Hfs"
| "current TargetIos = Hfs"
| "current TargetAndroid = Fat"
| "current TargetOtherUnix = Posix"
| "current TargetOther = Universal"

fun illegal_chars :: "rules \<Rightarrow> rchar list" where
  "illegal_chars Windows = ILLEGAL_WINDOWS_CHARS"
| "illegal_chars Fat = ILLEGAL_WINDOWS_CHARS"
| "illegal_chars Hfs = ILLEGAL_HFS_CHARS"
| "illegal_chars Posix = ILLEGAL_POSIX_CHARS"
| "illegal_chars Universal = []"

definition is_illegal_char :: "rules \<Rightarrow> rchar \<Rightarrow> bool" where
  "is_illegal_char rules c =
     (if is_control c then True
      else case rules of
        Universal \<Rightarrow> c \<in> set ILLEGAL_WINDOWS_CHARS \<or> c \<in> set ILLEGAL_HFS_CHARS
      | _ \<Rightarrow> c \<in> set (illegal_chars rules))"

fun is_windows_like :: "rules \<Rightarrow> bool" where
  "is_windows_like Windows = True"
| "is_windows_like Universal = True"
| "is_windows_like _ = False"

record options =
  replacement :: rstring
  placeholder :: rstring

definition default_options :: options where
  "default_options = \<lparr>replacement = lit ''_'', placeholder = lit ''untitled''\<rparr>"

section \<open>Sanitising\<close>

definition is_relative :: "rstring \<Rightarrow> bool" where
  "is_relative name \<longleftrightarrow> name = lit ''.'' \<or> name = lit ''..''"

definition stem :: "rstring \<Rightarrow> rstring" where
  "stem name = hd (split_on 46 name)"

definition reserved_prefix :: "rstring \<Rightarrow> rstring option" where
  "reserved_prefix name =
     find (\<lambda>reserved. eq_ignore_ascii_case (stem name) reserved) RESERVED_WINDOWS_NAMES"

text \<open>The loop \<^verbatim>\<open>while !value.is_char_boundary(end) { end -= 1; }\<close>; offset 0 is a boundary.\<close>

fun back_to_boundary :: "rstring \<Rightarrow> nat \<Rightarrow> nat" where
  "back_to_boundary s 0 = 0"
| "back_to_boundary s (Suc n) = (if is_char_boundary s (Suc n) then Suc n else back_to_boundary s n)"

definition truncate_bytes :: "rstring \<Rightarrow> nat \<Rightarrow> rstring" where
  "truncate_bytes value limit =
     (if str_len value \<le> limit then value
      else str_truncate value (back_to_boundary value limit))"

definition is_trailing :: "rchar \<Rightarrow> bool" where
  "is_trailing c \<longleftrightarrow> c = 46 \<or> c = 32"

definition collapse_trailing_run :: "rstring \<Rightarrow> rstring \<Rightarrow> rstring" where
  "collapse_trailing_run result repl =
     (let trimmed = trim_end_matches is_trailing result
      in if str_len trimmed \<noteq> str_len result then trimmed @ repl else result)"

text \<open>
  The reserved stem consists of ASCII characters, so the byte slice
  \<^verbatim>\<open>&result[reserved.len()..]\<close> drops as many characters.
\<close>

definition replace_illegal :: "rstring \<Rightarrow> rules \<Rightarrow> rstring \<Rightarrow> rstring" where
  "replace_illegal name rules repl =
     concat (map (\<lambda>c. if is_illegal_char rules c then repl else [c]) name)"

definition replace_reserved :: "rstring \<Rightarrow> rstring \<Rightarrow> rstring" where
  "replace_reserved result repl =
     (case reserved_prefix result of
        Some reserved \<Rightarrow> repl @ drop (length reserved) result
      | None \<Rightarrow> result)"

definition sanitize_with :: "rstring \<Rightarrow> rules \<Rightarrow> options \<Rightarrow> rstring" where
  "sanitize_with name rules opts =
     (let repl = replacement opts;
          r0 = replace_illegal name rules repl;
          r1 = (if is_windows_like rules
                then replace_reserved (collapse_trailing_run r0 repl) repl else r0);
          r2 = truncate_bytes r1 MAX_LEN;
          r3 = (if is_windows_like rules
                then truncate_bytes (collapse_trailing_run r2 repl) MAX_LEN else r2)
      in if r3 = [] \<or> is_relative r3 then truncate_bytes (placeholder opts) MAX_LEN else r3)"

definition sanitize :: "rstring \<Rightarrow> rules \<Rightarrow> rstring" where
  "sanitize name rules = sanitize_with name rules default_options"

definition is_valid :: "rstring \<Rightarrow> rules \<Rightarrow> bool" where
  "is_valid name rules =
     (if name = [] \<or> MAX_LEN < str_len name \<or> is_relative name then False
      else if \<exists>c \<in> set name. is_illegal_char rules c then False
      else if is_windows_like rules \<and>
              (last name = 46 \<or> last name = 32 \<or> reserved_prefix name \<noteq> None) then False
      else True)"

definition sanitize_path :: "rstring \<Rightarrow> rules \<Rightarrow> rstring" where
  "sanitize_path path rules =
     (let last_segment = (case find (\<lambda>segment. segment \<noteq> [] \<and> \<not> is_relative segment)
                           (rev (split_by (\<lambda>c. c = 47 \<or> c = 92) path)) of
                    Some segment \<Rightarrow> segment | None \<Rightarrow> [])
      in sanitize last_segment rules)"

text \<open>Two parts of validity that the stages of the sanitiser establish.\<close>

definition all_legal :: "rules \<Rightarrow> rstring \<Rightarrow> bool" where
  "all_legal rules s \<longleftrightarrow> (\<forall>c \<in> set s. \<not> is_illegal_char rules c)"

definition tail_ok :: "rstring \<Rightarrow> bool" where
  "tail_ok s \<longleftrightarrow> s = [] \<or> \<not> is_trailing (last s)"

section \<open>Truncation\<close>

lemma back_to_boundary_is_boundary: "is_char_boundary s (back_to_boundary s n)"
  by (induction n) simp_all

lemma back_to_boundary_le: "back_to_boundary s n \<le> n"
  by (induction n) (simp_all add: le_SucI)

lemma back_to_boundary_greatest:
  "m \<le> n \<Longrightarrow> is_char_boundary s m \<Longrightarrow> m \<le> back_to_boundary s n"
  by (induction n) (auto simp: le_Suc_eq)

lemma truncate_bytes_prefix: "prefix (truncate_bytes s n) s"
  by (simp add: truncate_bytes_def str_truncate_prefix)

lemma truncate_bytes_id: "str_len s \<le> n \<Longrightarrow> truncate_bytes s n = s"
  by (simp add: truncate_bytes_def)

lemma truncate_bytes_len: "str_len (truncate_bytes s n) \<le> n"
  using str_truncate_len_le [of s "back_to_boundary s n"] back_to_boundary_le [of s n]
  by (auto simp: truncate_bytes_def)

text \<open>The longest prefix that fits: a longer one is over the limit.\<close>

lemma truncate_bytes_maximal:
  assumes "prefix p s" "str_len p \<le> n"
  shows "prefix p (truncate_bytes s n)"
proof (cases "str_len s \<le> n")
  case True
  with assms show ?thesis by (simp add: truncate_bytes_id)
next
  case False
  let ?t = "str_truncate s (back_to_boundary s n)"
  from assms have "is_char_boundary s (str_len p)"
    by (auto simp: is_char_boundary_iff)
  with assms(2) have "str_len p \<le> str_len ?t"
    using back_to_boundary_greatest str_truncate_boundary back_to_boundary_is_boundary by metis
  moreover have "prefix p ?t \<or> strict_prefix ?t p"
    using assms(1) str_truncate_prefix [of s "back_to_boundary s n"]
    by (metis prefix_same_cases prefix_order.le_less)
  moreover have "strict_prefix ?t p \<Longrightarrow> str_len ?t < str_len p"
    by (rule strict_prefix_str_len)
  ultimately show ?thesis using False by (auto simp: truncate_bytes_def)
qed

lemma truncate_bytes_long:
  assumes "n < str_len s"
  shows "n < str_len (truncate_bytes s n) + 4"
proof (rule ccontr)
  assume short: "\<not> ?thesis"
  obtain r where r: "s = truncate_bytes s n @ r"
    using truncate_bytes_prefix by (auto simp: prefix_def)
  then obtain c r' where c: "r = c # r'"
    using assms truncate_bytes_len [of s n] by (cases r) auto
  have "prefix (truncate_bytes s n @ [c]) s"
    using r c by (metis append.assoc append_Cons append_Nil prefixI)
  moreover have "str_len (truncate_bytes s n @ [c]) \<le> n"
    using short utf8_width_le [of c] by simp
  ultimately have "prefix (truncate_bytes s n @ [c]) (truncate_bytes s n)"
    by (rule truncate_bytes_maximal)
  then show False by (auto dest: prefix_length_le)
qed

section \<open>Reserved names and trailing runs\<close>

lemma stem_takeWhile: "stem s = takeWhile (\<lambda>c. c \<noteq> 46) s"
  by (simp add: stem_def hd_split_by)

lemma reserved_prefix_None:
  "reserved_prefix s = None \<longleftrightarrow>
     (\<forall>r \<in> set RESERVED_WINDOWS_NAMES. \<not> eq_ignore_ascii_case (stem s) r)"
  by (auto simp: reserved_prefix_def find_None_iff)

lemma reserved_prefix_Some:
  "reserved_prefix s = Some r \<Longrightarrow>
     r \<in> set RESERVED_WINDOWS_NAMES \<and> eq_ignore_ascii_case (stem s) r"
  by (auto simp: reserved_prefix_def find_Some_iff)

lemma reserved_chars:
  "r \<in> set RESERVED_WINDOWS_NAMES \<Longrightarrow> c \<in> set r \<Longrightarrow> is_ascii_alphanumeric c \<and> ascii_lower c = c"
  by (auto simp: RESERVED_WINDOWS_NAMES_def lit_def is_ascii_alphanumeric_def
      is_ascii_alphabetic_def is_ascii_digit_def ascii_lower_def)

lemma reserved_length: "r \<in> set RESERVED_WINDOWS_NAMES \<Longrightarrow> 0 < length r \<and> length r \<le> 4"
  by (auto simp: RESERVED_WINDOWS_NAMES_def lit_def)

lemma reserved_stem_chars:
  assumes "r \<in> set RESERVED_WINDOWS_NAMES" "eq_ignore_ascii_case s r" "c \<in> set s"
  shows "is_ascii_alphanumeric c"
proof -
  from assms(2,3) have "ascii_lower c \<in> ascii_lower ` set r"
    unfolding eq_ignore_ascii_case_def by (metis imageI image_set)
  then obtain d where "d \<in> set r" "ascii_lower c = ascii_lower d" by auto
  with reserved_chars [OF assms(1)] show ?thesis
    by (auto simp: is_ascii_alphanumeric_def is_ascii_alphabetic_def is_ascii_digit_def
        ascii_lower_def split: if_splits)
qed

lemma reserved_prefix_None_char:
  "c \<in> set (stem s) \<Longrightarrow> \<not> is_ascii_alphanumeric c \<Longrightarrow> reserved_prefix s = None"
  unfolding reserved_prefix_None using reserved_stem_chars by blast

lemma utf8_width_ascii: "is_ascii_alphanumeric c \<Longrightarrow> utf8_width c = 1"
  by (auto simp: is_ascii_alphanumeric_def is_ascii_alphabetic_def is_ascii_digit_def utf8_width_def)

lemma str_len_ascii: "(\<And>c. c \<in> set s \<Longrightarrow> is_ascii_alphanumeric c) \<Longrightarrow> str_len s = length s"
  by (induction s) (simp_all add: utf8_width_ascii)

lemma reserved_prefix_None_long: "4 < str_len (stem s) \<Longrightarrow> reserved_prefix s = None"
proof (rule ccontr)
  assume long: "4 < str_len (stem s)" and "reserved_prefix s \<noteq> None"
  then obtain r where r: "r \<in> set RESERVED_WINDOWS_NAMES" "eq_ignore_ascii_case (stem s) r"
    by (auto dest: reserved_prefix_Some)
  then have "str_len (stem s) = length (stem s)"
    using reserved_stem_chars str_len_ascii by blast
  with long r show False
    using reserved_length eq_ignore_ascii_case_length by fastforce
qed

lemma stem_prefix: "prefix p s \<Longrightarrow> 46 \<in> set p \<Longrightarrow> stem p = stem s"
  by (auto simp: stem_takeWhile prefix_def takeWhile_append)

lemma stem_no_dot: "46 \<notin> set s \<Longrightarrow> stem s = s"
  by (auto simp: stem_takeWhile takeWhile_eq_all_conv)

lemma reserved_prefix_cong: "stem s = stem t \<Longrightarrow> reserved_prefix s = reserved_prefix t"
  by (simp add: reserved_prefix_def)

lemma collapse_cases:
  obtains "collapse_trailing_run s r = s" "s = [] \<or> \<not> is_trailing (last s)"
  | w where "collapse_trailing_run s r = w @ r" "strict_prefix w s" "w = [] \<or> \<not> is_trailing (last w)"
proof -
  let ?w = "trim_end_matches is_trailing s"
  have "str_len ?w \<noteq> str_len s \<longleftrightarrow> ?w \<noteq> s"
    by (simp add: prefix_str_len_eq trim_end_prefix)
  then show thesis
    using that trim_end_eq_iff [of is_trailing s] trim_end_prefix [of is_trailing s]
      trim_end_last [of is_trailing s]
    by (cases "?w = s") (auto simp: collapse_trailing_run_def Let_def strict_prefix_def)
qed


section \<open>Every sanitised name is valid\<close>

lemma all_legal_prefix: "prefix p s \<Longrightarrow> all_legal rules s \<Longrightarrow> all_legal rules p"
  by (auto simp: all_legal_def prefix_def)

lemma all_legal_append [simp]:
  "all_legal rules (s @ t) \<longleftrightarrow> all_legal rules s \<and> all_legal rules t"
  by (auto simp: all_legal_def)

lemma underscore_legal [simp]: "all_legal rules (lit ''_'')"
  by (cases rules) (auto simp: all_legal_def is_illegal_char_def lit_def is_control_def
      ILLEGAL_WINDOWS_CHARS_def ILLEGAL_HFS_CHARS_def ILLEGAL_POSIX_CHARS_def)

lemma replace_illegal_legal: "all_legal rules repl \<Longrightarrow> all_legal rules (replace_illegal s rules repl)"
  by (auto simp: all_legal_def replace_illegal_def)

lemma collapse_legal:
  "all_legal rules repl \<Longrightarrow> all_legal rules s \<Longrightarrow> all_legal rules (collapse_trailing_run s repl)"
  by (rule collapse_cases [of s repl]) (auto dest: prefix_order.less_imp_le all_legal_prefix)

lemma replace_reserved_legal:
  "all_legal rules repl \<Longrightarrow> all_legal rules s \<Longrightarrow> all_legal rules (replace_reserved s repl)"
  by (auto simp: replace_reserved_def all_legal_def split: option.splits dest: in_set_dropD)

lemma collapse_tail_ok: "tail_ok (collapse_trailing_run s (lit ''_''))"
  by (rule collapse_cases [of s "lit ''_''"]) (auto simp: tail_ok_def lit_def is_trailing_def)

lemma replace_reserved_tail_ok: "tail_ok s \<Longrightarrow> tail_ok (replace_reserved s (lit ''_''))"
  by (auto simp: replace_reserved_def tail_ok_def last_append last_drop lit_def is_trailing_def
      split: option.splits)

lemma replace_reserved_not_reserved: "reserved_prefix (replace_reserved s (lit ''_'')) = None"
proof (cases "reserved_prefix s")
  case None
  then show ?thesis by (simp add: replace_reserved_def)
next
  case (Some r)
  then show ?thesis
    by (intro reserved_prefix_None_char [of 95])
      (auto simp: replace_reserved_def stem_takeWhile lit_def is_ascii_alphanumeric_def
        is_ascii_alphabetic_def is_ascii_digit_def)
qed

lemma truncate_not_reserved:
  assumes "reserved_prefix s = None"
  shows "reserved_prefix (truncate_bytes s MAX_LEN) = None"
proof (cases "46 \<in> set (truncate_bytes s MAX_LEN)")
  case True
  then have "stem (truncate_bytes s MAX_LEN) = stem s"
    by (intro stem_prefix truncate_bytes_prefix)
  with assms show ?thesis by (metis reserved_prefix_cong)
next
  case False
  show ?thesis
  proof (cases "str_len s \<le> MAX_LEN")
    case True
    with assms show ?thesis by (simp add: truncate_bytes_id)
  next
    case long: False
    then have "4 < str_len (truncate_bytes s MAX_LEN)"
      using truncate_bytes_long [of MAX_LEN s] by (simp add: MAX_LEN_def)
    with False show ?thesis by (simp add: reserved_prefix_None_long stem_no_dot)
  qed
qed

lemma collapse_not_reserved:
  assumes "reserved_prefix s = None"
  shows "reserved_prefix (collapse_trailing_run s (lit ''_'')) = None"
proof (rule collapse_cases [of s "lit ''_''"])
  assume "collapse_trailing_run s (lit ''_'') = s"
  with assms show ?thesis by simp
next
  fix w assume w: "collapse_trailing_run s (lit ''_'') = w @ lit ''_''" "strict_prefix w s"
  show ?thesis
  proof (cases "46 \<in> set w")
    case True
    then have "stem w = stem (w @ lit ''_'')" "stem w = stem s"
      using w(2) by (simp_all add: stem_prefix prefix_order.less_imp_le)
    with assms w(1) show ?thesis by (metis reserved_prefix_cong)
  next
    case False
    then have "95 \<in> set (stem (w @ lit ''_''))"
      by (auto simp: stem_takeWhile takeWhile_append lit_def)
    then show ?thesis
      unfolding w(1) by (rule reserved_prefix_None_char)
        (simp add: is_ascii_alphanumeric_def is_ascii_alphabetic_def is_ascii_digit_def)
  qed
qed

lemma collapse_len:
  assumes "str_len s \<le> n"
  shows "str_len (collapse_trailing_run s (lit ''_'')) \<le> n"
  using assms
  by (rule_tac collapse_cases [of s "lit ''_''"])
    (auto dest!: strict_prefix_str_len simp: lit_def utf8_width_def)

lemma is_valid_alt:
  "is_valid s rules \<longleftrightarrow> s \<noteq> [] \<and> str_len s \<le> MAX_LEN \<and> \<not> is_relative s \<and> all_legal rules s \<and>
     (is_windows_like rules \<longrightarrow> tail_ok s \<and> reserved_prefix s = None)"
  by (auto simp: is_valid_def all_legal_def tail_ok_def is_trailing_def)

lemma placeholder_valid: "is_valid (lit ''untitled'') rules"
  by (cases rules; hypsubst; code_simp)


lemma sanitize_stages:
  obtains r where "sanitize s rules = (if r = [] \<or> is_relative r then lit ''untitled'' else r)"
    "all_legal rules r" "str_len r \<le> MAX_LEN"
    "is_windows_like rules \<longrightarrow> tail_ok r \<and> reserved_prefix r = None"
proof -
  let ?u = "lit ''_''"
  let ?r0 = "replace_illegal s rules ?u"
  let ?r1 = "if is_windows_like rules then replace_reserved (collapse_trailing_run ?r0 ?u) ?u else ?r0"
  let ?r2 = "truncate_bytes ?r1 MAX_LEN"
  let ?r3 = "if is_windows_like rules then collapse_trailing_run ?r2 ?u else ?r2"
  have "truncate_bytes (lit ''untitled'') MAX_LEN = lit ''untitled''"
    by code_simp
  moreover have len: "str_len ?r3 \<le> MAX_LEN"
    by (simp add: truncate_bytes_len collapse_len)
  ultimately have "sanitize s rules = (if ?r3 = [] \<or> is_relative ?r3 then lit ''untitled'' else ?r3)"
    by (simp add: sanitize_def sanitize_with_def Let_def default_options_def truncate_bytes_id
        collapse_len truncate_bytes_len)
  moreover have "all_legal rules ?r3"
    by (auto intro!: collapse_legal replace_reserved_legal replace_illegal_legal
        all_legal_prefix [OF truncate_bytes_prefix])
  moreover have "is_windows_like rules \<longrightarrow> tail_ok ?r3 \<and> reserved_prefix ?r3 = None"
    by (simp add: collapse_tail_ok collapse_not_reserved truncate_not_reserved
        replace_reserved_not_reserved)
  ultimately show thesis using len that by blast
qed

lemma is_valid_sanitize: "is_valid (sanitize s rules) rules"
proof -
  obtain r where r: "sanitize s rules = (if r = [] \<or> is_relative r then lit ''untitled'' else r)"
    "all_legal rules r" "str_len r \<le> MAX_LEN"
    "is_windows_like rules \<longrightarrow> tail_ok r \<and> reserved_prefix r = None"
    using sanitize_stages [of s rules] by blast
  show ?thesis
  proof (cases "r = [] \<or> is_relative r")
    case True
    then show ?thesis using r(1) placeholder_valid by simp
  next
    case False
    with r show ?thesis by (simp add: is_valid_alt)
  qed
qed

lemma sanitize_valid_id: "is_valid s rules \<Longrightarrow> sanitize s rules = s"
proof -
  assume v: "is_valid s rules"
  have 0: "replace_illegal s rules u = s" for u
    using v by (induction s) (auto simp: is_valid_alt all_legal_def replace_illegal_def concat_map_singleton
      cong: map_cong)
  have 1: "collapse_trailing_run s u = s" if "is_windows_like rules" for u
    using v that trim_end_id [of s is_trailing]
    by (auto simp: is_valid_alt tail_ok_def collapse_trailing_run_def Let_def)
  have 2: "replace_reserved s u = s" if "is_windows_like rules" for u
    using v that by (simp add: is_valid_alt replace_reserved_def)
  show ?thesis
    using v by (simp add: sanitize_def sanitize_with_def Let_def 0 1 2 truncate_bytes_id is_valid_alt)
qed

lemma slash_illegal: "is_illegal_char rules 47"
  by (cases rules) (simp_all add: is_illegal_char_def ILLEGAL_WINDOWS_CHARS_def
      ILLEGAL_HFS_CHARS_def ILLEGAL_POSIX_CHARS_def)

lemma backslash_illegal: "rules \<noteq> Hfs \<Longrightarrow> rules \<noteq> Posix \<Longrightarrow> is_illegal_char rules 92"
  by (cases rules) (simp_all add: is_illegal_char_def ILLEGAL_WINDOWS_CHARS_def)

lemma sanitize_path_valid: "is_valid (sanitize_path p rules) rules"
  by (simp add: sanitize_path_def is_valid_sanitize)

lemma truncate_bytes_bound: "str_len (sanitize_with s rules opts) \<le> MAX_LEN"
  by (auto simp: sanitize_with_def Let_def truncate_bytes_len)

interpretation san: normaliser "\<lambda>name. sanitize name rules" "\<lambda>name. is_valid name rules" for rules
  by unfold_locales (simp_all add: is_valid_sanitize sanitize_valid_id)

text \<open>
  A name produced by the sanitiser is always valid under the rules it was produced
  for: not empty, at most 255 bytes, not a relative component, free of illegal and
  control characters and, under Windows-like rules, without a trailing dot or blank and
  not a reserved device name. Names that are already valid are left as they are, so the
  valid names are exactly the fixed points of \<^const>\<open>sanitize\<close>.
\<close>

theorem sanitize_sound_and_minimal:
  "is_valid (sanitize name rules) rules \<and> (sanitize name rules = name \<longleftrightarrow> is_valid name rules)"
  by (simp add: san.norm_acceptable san.fixed_point_iff)



text \<open>
  With any replacement and placeholder the result takes at most 255 bytes, and the
  cut is at a character boundary and as late as possible: every prefix of the value that
  fits survives the truncation.
\<close>

theorem truncation_bound_and_maximal:
  "str_len (sanitize_with name rules opts) \<le> 255 \<and>
   prefix (truncate_bytes value limit) value \<and>
   str_len (truncate_bytes value limit) \<le> limit \<and>
   (\<forall>p. str_len p \<le> limit \<and> prefix p value \<longrightarrow> prefix p (truncate_bytes value limit))"
  using truncate_bytes_bound [of name rules opts] truncate_bytes_prefix truncate_bytes_len
    truncate_bytes_maximal
  by (auto simp: MAX_LEN_def)

theorem truncation_bound_and_maximal_witness:
  "prefix (lit ''ab'') (truncate_bytes (lit ''ab'' @ [228, 228]) 3) \<and>
   truncate_bytes (lit ''ab'' @ [228, 228]) 3 = lit ''ab''"
proof -
  have "str_len (lit ''ab'') \<le> 3 \<and> prefix (lit ''ab'') (lit ''ab'' @ [228, 228])"
    by (simp add: lit_def utf8_width_def)
  moreover have "truncate_bytes (lit ''ab'' @ [228, 228]) 3 = lit ''ab''"
    by code_simp
  ultimately show ?thesis
    using truncation_bound_and_maximal [of _ _ _ "lit ''ab'' @ [228, 228]" 3] by blast
qed

end
