(* ===== verification/FB_Crypto.thy ===== *)
theory FB_Crypto
  imports FB_Prelude
begin

text \<open>
  Checksums and fingerprints (\<^verbatim>\<open>packages/core/src/crypto/hash.rs\<close>, the fingerprint
  and verification functions of \<^verbatim>\<open>crypto/cert.rs\<close>, \<^verbatim>\<open>crypto/nonce.rs\<close>). The
  digest itself belongs to the \<^verbatim>\<open>sha2\<close> crate and is the parameter \<open>sha\<close>; a hasher
  is the bytes fed to it so far. Certificates are parsed by \<^verbatim>\<open>x509_parser\<close>, whose
  verdicts are the fields of \<open>parsed_cert\<close>.
\<close>

section \<open>Hexadecimal\<close>

definition hex_lower :: "nat \<Rightarrow> rchar" where
  "hex_lower d = (if d < 10 then 48 + d else 87 + d)"

definition hex_upper :: "nat \<Rightarrow> rchar" where
  "hex_upper d = (if d < 10 then 48 + d else 55 + d)"

definition to_hex :: "byte list \<Rightarrow> rstring" where
  "to_hex bs = concat (map (\<lambda>b. [hex_lower (unat b div 16), hex_lower (unat b mod 16)]) bs)"

definition fingerprint_from_cert_der :: "(byte list \<Rightarrow> byte list) \<Rightarrow> byte list \<Rightarrow> rstring" where
  "fingerprint_from_cert_der sha cert =
     concat (map (\<lambda>b. [hex_upper (unat b div 16), hex_upper (unat b mod 16)]) (sha cert))"

definition sha256_hex :: "(byte list \<Rightarrow> byte list) \<Rightarrow> byte list \<Rightarrow> rstring" where
  "sha256_hex sha data = to_hex (sha data)"

section \<open>Hashing a file\<close>

datatype hash_error = HashIo | HashCancelled

text \<open>
  What one iteration of a hashing loop observes: a chunk, a read error, or the
  cancellation, which the biased \<^verbatim>\<open>select!\<close> prefers. The end of the list is the end of
  the stream.
\<close>

datatype read_event = ReadChunk "byte list" | ReadError | ReadCancelled

text \<open>The reported progress is the running total, kept at the width of the source.\<close>

fun hash_loop ::
  "byte list \<Rightarrow> u64 \<Rightarrow> u64 list \<Rightarrow> read_event list \<Rightarrow> (byte list \<times> u64 list, hash_error) result"
where
  "hash_loop hasher hashed progress [] = Inr (hasher, progress)"
| "hash_loop hasher hashed progress (ReadCancelled # evs) = Inl HashCancelled"
| "hash_loop hasher hashed progress (ReadError # evs) = Inl HashIo"
| "hash_loop hasher hashed progress (ReadChunk chunk # evs) =
     (let hashed' = hashed + of_nat (length chunk)
      in hash_loop (hasher @ chunk) hashed' (progress @ [hashed']) evs)"

text \<open>\<open>opened\<close> is the outcome of opening the path; an in-memory stream is always open.\<close>

definition sha256_file_content ::
  "(byte list \<Rightarrow> byte list) \<Rightarrow> bool \<Rightarrow> read_event list \<Rightarrow> (rstring \<times> u64 list, hash_error) result"
where
  "sha256_file_content sha opened evs =
     and_then (ensure opened HashIo) (\<lambda>_.
     and_then (hash_loop [] 0 [] evs) (\<lambda>(hasher, progress).
     Inr (to_hex (sha hasher), progress)))"

section \<open>Certificates and nonces\<close>

record parsed_cert =
  pc_time_valid :: bool
  pc_public_key :: "byte list option"
  pc_signature_ok :: bool

datatype cert_error = CertTimeValidity | CertPublicKeyMismatch | CertParse | CertSignature

text \<open>
  \<open>parse_key\<close> reads the expected key from its PEM form; the certificate's own key is
  \<open>None\<close> when it does not parse.
\<close>

definition verify_cert_from_cert ::
  "(rstring \<Rightarrow> byte list option) \<Rightarrow> parsed_cert \<Rightarrow> rstring option \<Rightarrow> (unit, cert_error) result"
where
  "verify_cert_from_cert parse_key cert public_key =
     and_then (ensure (pc_time_valid cert) CertTimeValidity) (\<lambda>_.
     and_then
       (case public_key of
          None \<Rightarrow> Inr ()
        | Some key \<Rightarrow>
            and_then (ok_or (pc_public_key cert) CertParse) (\<lambda>cert_key.
            and_then (ok_or (parse_key key) CertParse) (\<lambda>expected.
            ensure (cert_key = expected) CertPublicKeyMismatch))) (\<lambda>_.
     ensure (pc_signature_ok cert) CertSignature))"

definition verify_cert_from_der ::
  "(byte list \<Rightarrow> parsed_cert option) \<Rightarrow> (rstring \<Rightarrow> byte list option) \<Rightarrow> byte list \<Rightarrow>
     rstring option \<Rightarrow> (unit, cert_error) result"
where
  "verify_cert_from_der parse_der parse_key der public_key =
     and_then (ok_or (parse_der der) CertParse) (\<lambda>cert.
     verify_cert_from_cert parse_key cert public_key)"

definition validate_nonce :: "byte list \<Rightarrow> bool" where
  "validate_nonce nonce \<longleftrightarrow> 16 \<le> length nonce \<and> length nonce \<le> 128"

section \<open>Lemmas\<close>

lemma hex_upper_lower: "d < 16 \<Longrightarrow> ascii_upper (hex_lower d) = hex_upper d"
  by (auto simp: hex_upper_def hex_lower_def ascii_upper_def)

lemma unat_byte_bounds: "unat (b :: byte) div 16 < 16" "unat (b :: byte) mod 16 < 16"
  using unsigned_less [of b, where ?'a = nat] by auto

lemma fingerprint_upper:
  "fingerprint_from_cert_der sha cert = to_ascii_uppercase (to_hex (sha cert))"
  by (simp add: fingerprint_from_cert_der_def to_ascii_uppercase_def to_hex_def map_concat
      comp_def hex_upper_lower unat_byte_bounds)

lemma hex_lower_inj: "d < 16 \<Longrightarrow> e < 16 \<Longrightarrow> hex_lower d = hex_lower e \<Longrightarrow> d = e"
  by (auto simp: hex_lower_def split: if_splits)

lemma length_to_hex [simp]: "length (to_hex bs) = 2 * length bs"
  by (induction bs) (simp_all add: to_hex_def)

lemma byte_hex_inj:
  assumes "hex_lower (unat (a :: byte) div 16) = hex_lower (unat (b :: byte) div 16)"
    "hex_lower (unat a mod 16) = hex_lower (unat b mod 16)"
  shows "a = b"
proof -
  have "unat a div 16 = unat b div 16" "unat a mod 16 = unat b mod 16"
    using assms hex_lower_inj unat_byte_bounds by blast+
  then have "unat a = unat b" by (metis div_mult_mod_eq)
  then show ?thesis by (simp only: word_unat_eq_iff)
qed

lemma to_hex_inj: "to_hex as = to_hex bs \<Longrightarrow> as = bs"
proof (induction as arbitrary: bs)
  case Nil
  then show ?case by (cases bs) (simp_all add: to_hex_def)
next
  case (Cons a as)
  then show ?case
    by (cases bs) (auto simp: to_hex_def intro: byte_hex_inj)
qed

lemma hash_loop_chunks:
  "hash_loop hasher n ps (map ReadChunk chunks) =
     Inr (hasher @ concat chunks,
          ps @ map (\<lambda>k. n + of_nat (length (concat (take (Suc k) chunks)))) [0..<length chunks])"
proof (induction chunks arbitrary: hasher n ps)
  case (Cons c cs)
  have "[0..<length (c # cs)] = 0 # map Suc [0..<length cs]"
    by (simp add: map_Suc_upt upt_conv_Cons del: upt_Suc)
  then show ?case
    by (simp only: list.map hash_loop.simps Let_def Cons.IH) (simp add: ac_simps del: upt_Suc)
qed simp

lemma hash_loop_ok:
  "hash_loop hasher n ps evs = Inr r \<Longrightarrow> \<exists>chunks. evs = map ReadChunk chunks"
proof (induction hasher n ps evs rule: hash_loop.induct)
  case (4 hasher n ps chunk evs)
  then obtain chunks where "evs = map ReadChunk chunks" by (auto simp: Let_def)
  then have "ReadChunk chunk # evs = map ReadChunk (chunk # chunks)" by simp
  then show ?case ..
qed simp_all

text \<open>
  Hashing a file succeeds exactly when the file opens and every read yields a chunk
  (no I/O error, no cancellation); the result is then the lowercase hexadecimal digest of
  the concatenated chunks, and the progress reported after the k-th chunk is the number
  of bytes consumed so far.
\<close>

theorem sha256_file_content_correct:
  "sha256_file_content sha opened evs = Inr (digest, progress) \<longleftrightarrow>
     opened \<and> (\<exists>chunks. evs = map ReadChunk chunks \<and> digest = sha256_hex sha (concat chunks) \<and>
       progress = map (\<lambda>k. of_nat (length (concat (take (Suc k) chunks)))) [0..<length chunks])"
  (is "?lhs \<longleftrightarrow> ?rhs")
proof
  assume ?lhs
  then have op: "opened" and "\<exists>r. hash_loop [] 0 [] evs = Inr r"
    by (auto simp: sha256_file_content_def res_simps)
  then obtain chunks where "evs = map ReadChunk chunks" using hash_loop_ok by blast
  with \<open>?lhs\<close> op show ?rhs
    by (auto simp: sha256_file_content_def res_simps hash_loop_chunks sha256_hex_def)
next
  assume ?rhs
  then show ?lhs
    by (auto simp: sha256_file_content_def ensure_def hash_loop_chunks sha256_hex_def)
qed

text \<open>
  The certificate fingerprint is the digest in uppercase hexadecimal, two characters
  per byte, and determines the digest: two certificates with the same fingerprint have
  the same digest, and comparing a claimed fingerprint after
  \<^const>\<open>to_ascii_uppercase\<close> accepts either case.
\<close>

theorem fingerprint_faithful:
  "length (fingerprint_from_cert_der sha cert) = 2 * length (sha cert) \<and>
   to_ascii_uppercase (sha256_hex sha cert) = fingerprint_from_cert_der sha cert \<and>
   (fingerprint_from_cert_der sha cert = fingerprint_from_cert_der sha cert' \<longleftrightarrow> sha cert = sha cert')"
proof -
  have up: "x = y" if "to_ascii_uppercase (to_hex x) = to_ascii_uppercase (to_hex y)" for x y
    using that
  proof (induction x arbitrary: y)
    case Nil
    then show ?case by (cases y) (simp_all add: to_hex_def to_ascii_uppercase_def)
  next
    case (Cons a x)
    have inj: "d < 16 \<Longrightarrow> e < 16 \<Longrightarrow> hex_upper d = hex_upper e \<Longrightarrow> hex_lower d = hex_lower e" for d e
      by (auto simp: hex_lower_def hex_upper_def split: if_splits)
    from Cons show ?case
      by (cases y) (auto simp: to_hex_def to_ascii_uppercase_def hex_upper_lower unat_byte_bounds
          intro!: byte_hex_inj inj)
  qed
  show ?thesis
    by (auto simp: fingerprint_upper sha256_hex_def to_ascii_uppercase_def [of "to_hex _"]
        dest: up [unfolded to_ascii_uppercase_def])
qed

end
