(* ===== verification/FB_Net.thy ===== *)
theory FB_Net
  imports FB_Prelude
begin

text \<open>
  Addresses: the parts of \<^verbatim>\<open>std::net\<close> the sources print and compare, and the peer
  address with its IPv6 scope (\<^verbatim>\<open>packages/core/src/http/server/peer_ip.rs\<close>).
\<close>

section \<open>Numbers as text\<close>

fun show_nat :: "nat \<Rightarrow> rstring" where
  "show_nat n = (if n < 10 then [48 + n] else show_nat (n div 10) @ [48 + n mod 10])"

declare show_nat.simps [simp del]

fun show_hex :: "nat \<Rightarrow> rstring" where
  "show_hex n =
     (let digit = (\<lambda>d. if d < 10 then 48 + d else 87 + d)
      in if n < 16 then [digit n] else show_hex (n div 16) @ [digit (n mod 16)])"

declare show_hex.simps [simp del]

text \<open>\<^verbatim>\<open>str::parse\<close> at an unsigned type of \<open>w\<close> bits: an optional plus sign and digits.\<close>

definition digits_value :: "rstring \<Rightarrow> nat" where
  "digits_value s = foldl (\<lambda>n c. 10 * n + (c - 48)) 0 s"

definition parse_unsigned :: "nat \<Rightarrow> rstring \<Rightarrow> nat option" where
  "parse_unsigned w s =
     (let ds = (case s of [] \<Rightarrow> [] | c # cs \<Rightarrow> if c = 43 then cs else s)
      in if ds = [] \<or> \<not> (\<forall>c \<in> set ds. is_ascii_digit c) \<or> 2 ^ w \<le> digits_value ds then None
         else Some (digits_value ds))"

section \<open>IP addresses\<close>

datatype ip_addr = IpV4 "32 word" | IpV6 "128 word"

datatype socket_addr = SockV4 "32 word" u16 | SockV6 "128 word" u16 u32

fun socket_ip :: "socket_addr \<Rightarrow> ip_addr" where
  "socket_ip (SockV4 ip port) = IpV4 ip"
| "socket_ip (SockV6 ip port scope) = IpV6 ip"

definition ipv4_octets :: "32 word \<Rightarrow> nat list" where
  "ipv4_octets ip = map (\<lambda>k. (unat ip div 256 ^ k) mod 256) [3, 2, 1, 0]"

definition ipv6_segments :: "128 word \<Rightarrow> nat list" where
  "ipv6_segments ip = map (\<lambda>k. (unat ip div 65536 ^ k) mod 65536) [7, 6, 5, 4, 3, 2, 1, 0]"

definition show_ipv4 :: "32 word \<Rightarrow> rstring" where
  "show_ipv4 ip = join_with 46 (map show_nat (ipv4_octets ip))"

text \<open>The first longest run of zero segments: start and length.\<close>

fun longest_zero_run :: "nat list \<Rightarrow> nat \<Rightarrow> nat \<times> nat \<Rightarrow> nat \<times> nat \<Rightarrow> nat \<times> nat" where
  "longest_zero_run [] i cur best = best"
| "longest_zero_run (s # ss) i cur best =
     (if s = 0
      then let cur' = (if snd cur = 0 then (i, 1) else (fst cur, Suc (snd cur)))
           in longest_zero_run ss (Suc i) cur' (if snd best < snd cur' then cur' else best)
      else longest_zero_run ss (Suc i) (0, 0) best)"

definition show_ipv6 :: "128 word \<Rightarrow> rstring" where
  "show_ipv6 ip =
     (let segs = ipv6_segments ip;
          colons = (\<lambda>xs. join_with 58 (map show_hex xs));
          (start, len) = longest_zero_run segs 0 (0, 0) (0, 0)
      in if take 6 segs = [0, 0, 0, 0, 0, 65535]
         then lit ''::ffff:'' @ show_ipv4 (ucast ip)
         else if 1 < len
         then colons (take start segs) @ lit ''::'' @ colons (drop (start + len) segs)
         else colons segs)"

fun show_ip :: "ip_addr \<Rightarrow> rstring" where
  "show_ip (IpV4 ip) = show_ipv4 ip"
| "show_ip (IpV6 ip) = show_ipv6 ip"

section \<open>The address of a peer\<close>

record peer_ip =
  pip_ip :: ip_addr
  pip_scope :: "u32 option"

definition from_remote_addr :: "socket_addr \<Rightarrow> peer_ip" where
  "from_remote_addr addr =
     \<lparr>pip_ip = socket_ip addr,
      pip_scope = (case addr of
          SockV6 ip port scope \<Rightarrow> if scope \<noteq> 0 then Some scope else None
        | _ \<Rightarrow> None)\<rparr>"

definition peer_ip_to_string :: "peer_ip \<Rightarrow> rstring" where
  "peer_ip_to_string p =
     (case pip_scope p of
        Some scope \<Rightarrow> show_ip (pip_ip p) @ lit ''%'' @ show_nat (unat scope)
      | None \<Rightarrow> show_ip (pip_ip p))"

section \<open>Lemmas\<close>

lemma show_nat_digits: "c \<in> set (show_nat n) \<Longrightarrow> 48 \<le> c \<and> c \<le> 57"
proof (induction n rule: show_nat.induct)
  case (1 n)
  then show ?case by (auto simp: show_nat.simps [of n] split: if_splits)
qed

lemma show_hex_digits: "c \<in> set (show_hex n) \<Longrightarrow> (48 \<le> c \<and> c \<le> 57) \<or> (97 \<le> c \<and> c \<le> 102)"
proof (induction n rule: show_hex.induct)
  case (1 n)
  then show ?case by (auto simp: show_hex.simps [of n] Let_def split: if_splits)
qed

lemma set_join_with: "c \<in> set (join_with d ps) \<Longrightarrow> c = d \<or> (\<exists>p \<in> set ps. c \<in> set p)"
  by (induction d ps rule: join_with.induct) auto

lemma show_ipv4_chars: "c \<in> set (show_ipv4 ip) \<Longrightarrow> c = 46 \<or> (48 \<le> c \<and> c \<le> 57)"
  unfolding show_ipv4_def by (auto dest!: set_join_with show_nat_digits)

lemma show_ip_no_percent: "37 \<notin> set (show_ip ip)"
proof (cases ip)
  case (IpV4 a)
  then show ?thesis using show_ipv4_chars [of 37] by auto
next
  case (IpV6 a)
  have "37 \<notin> set (join_with 58 (map show_hex xs))" for xs
    by (auto dest!: set_join_with show_hex_digits)
  moreover have "37 \<notin> set (show_ipv4 x)" for x
    using show_ipv4_chars [of 37] by auto
  ultimately show ?thesis
    using IpV6 by (auto simp: show_ipv6_def Let_def lit_def split: prod.splits)
qed

lemma show_nat_inj: "show_nat m = show_nat n \<Longrightarrow> m = n"
proof (induction m arbitrary: n rule: show_nat.induct)
  case (1 m)
  have long: "\<not> k < 10 \<Longrightarrow> show_nat (k div 10) \<noteq> []" for k
    by (subst show_nat.simps) simp
  show ?case
  proof (cases "m < 10")
    case True
    then show ?thesis using "1.prems" long [of n]
      by (cases "n < 10") (auto simp: show_nat.simps [of m] show_nat.simps [of n])
  next
    case False
    with "1.prems" have n: "\<not> n < 10"
      using long [of m] by (auto simp: show_nat.simps [of m] show_nat.simps [of n])
    with False "1.prems" have "show_nat (m div 10) = show_nat (n div 10)" "m mod 10 = n mod 10"
      by (auto simp: show_nat.simps [of m] show_nat.simps [of n])
    with "1.IH" [OF False] show ?thesis by (metis div_mult_mod_eq)
  qed
qed

lemma scoped_split:
  assumes "37 \<notin> set a" "37 \<notin> set b" "a @ 37 # s = b @ 37 # t"
  shows "a = b \<and> s = t"
  using assms
proof (induction a arbitrary: b)
  case Nil
  then show ?case by (cases b) auto
next
  case (Cons x a)
  then show ?case by (cases b) auto
qed

lemma peer_ip_to_string_eq:
  "peer_ip_to_string p = peer_ip_to_string q \<longleftrightarrow>
     show_ip (pip_ip p) = show_ip (pip_ip q) \<and> pip_scope p = pip_scope q"
proof
  assume eq: "peer_ip_to_string p = peer_ip_to_string q"
  show "show_ip (pip_ip p) = show_ip (pip_ip q) \<and> pip_scope p = pip_scope q"
  proof (cases "pip_scope p")
    case None
    then show ?thesis
      using eq show_ip_no_percent [of "pip_ip p"]
      by (cases "pip_scope q") (auto simp: peer_ip_to_string_def lit_def)
  next
    case (Some s)
    then obtain t where q: "pip_scope q = Some t"
      using eq show_ip_no_percent [of "pip_ip q"]
      by (cases "pip_scope q") (auto simp: peer_ip_to_string_def lit_def dest: sym)
    have "show_ip (pip_ip p) = show_ip (pip_ip q) \<and> show_nat (unat s) = show_nat (unat t)"
      using eq Some q by (intro scoped_split show_ip_no_percent) (simp add: peer_ip_to_string_def lit_def)
    then show ?thesis using Some q by (auto dest!: show_nat_inj simp: word_unat_eq_iff)
  qed
qed (simp add: peer_ip_to_string_def split: option.split)

end
