(* ===== verification/FB_Model.thy ===== *)
theory FB_Model
  imports FB_Net
begin

text \<open>
  The data the endpoints exchange: device and protocol types with their protocol-v2 wire
  form (\<^verbatim>\<open>packages/core/src/model/discovery.rs\<close>), files and their content streams
  (\<^verbatim>\<open>model/transfer.rs\<close>), the request and response objects of both protocol versions
  with the conversions between them (\<^verbatim>\<open>http/dto_v2.rs\<close>, \<^verbatim>\<open>http/dto.rs\<close>,
  \<^verbatim>\<open>http/state.rs\<close>). A \<^verbatim>\<open>HashMap\<close> is an association list with distinct keys. JSON
  itself is \<^verbatim>\<open>serde_json\<close>'s and not modelled; the hand-written serialisers are.
\<close>

type_synonym ('k, 'v) hash_map = "('k \<times> 'v) list"
type_synonym system_time = int

definition hm_insert :: "'k \<Rightarrow> 'v \<Rightarrow> ('k, 'v) hash_map \<Rightarrow> ('k, 'v) hash_map" where
  "hm_insert k v m = (k, v) # filter (\<lambda>(j, w). j \<noteq> k) m"

definition hm_retain :: "('k \<Rightarrow> 'v \<Rightarrow> bool) \<Rightarrow> ('k, 'v) hash_map \<Rightarrow> ('k, 'v) hash_map" where
  "hm_retain P m = filter (\<lambda>(k, v). P k v) m"

definition hm_remove :: "'k \<Rightarrow> ('k, 'v) hash_map \<Rightarrow> ('k, 'v) hash_map" where
  "hm_remove k m = hm_retain (\<lambda>j v. j \<noteq> k) m"

lemma hm_insert_keys: "map fst (hm_insert k v m) = k # filter (\<lambda>j. j \<noteq> k) (map fst m)"
  by (simp add: hm_insert_def filter_map comp_def case_prod_unfold)

lemma hm_insert_retain: "hm_insert k v m = (k, v) # hm_remove k m"
  by (simp add: hm_insert_def hm_remove_def hm_retain_def)

lemma distinct_hm_retain: "distinct (map fst m) \<Longrightarrow> distinct (map fst (hm_retain P m))"
  by (simp add: hm_retain_def distinct_map_filter)

lemma distinct_hm_insert: "distinct (map fst m) \<Longrightarrow> distinct (map fst (hm_insert k v m))"
  by (simp add: hm_insert_keys)

lemma map_of_hm_insert: "map_of (hm_insert k v m) j = (if j = k then Some v else map_of m j)"
  by (induction m) (auto simp: hm_insert_def)

section \<open>Discovery types\<close>

definition PROTOCOL_VERSION_V2 :: rstring where
  "PROTOCOL_VERSION_V2 = lit ''2.2''"

datatype device_type = Mobile | Desktop | Web | Headless | Server

datatype protocol_type = Http | Https

fun protocol_as_str :: "protocol_type \<Rightarrow> rstring" where
  "protocol_as_str Http = lit ''http''"
| "protocol_as_str Https = lit ''https''"

definition protocol_type_v2_serialize :: "protocol_type \<Rightarrow> rstring" where
  "protocol_type_v2_serialize p = protocol_as_str p"

datatype serde_error = UnknownVariant rstring

definition protocol_type_v2_deserialize :: "rstring \<Rightarrow> (protocol_type, serde_error) result" where
  "protocol_type_v2_deserialize value =
     (if value = lit ''http'' then Inr Http
      else if value = lit ''https'' then Inr Https
      else Inl (UnknownVariant value))"

definition device_type_v2_serialize :: "device_type option \<Rightarrow> rstring option" where
  "device_type_v2_serialize value =
     (case value of
        Some d \<Rightarrow> Some (case d of
            Mobile \<Rightarrow> lit ''mobile'' | Desktop \<Rightarrow> lit ''desktop'' | Web \<Rightarrow> lit ''web''
          | Headless \<Rightarrow> lit ''headless'' | Server \<Rightarrow> lit ''server'')
      | None \<Rightarrow> None)"

text \<open>
  \<^verbatim>\<open>str::to_lowercase\<close>: ASCII letters are folded, other characters go through the
  Unicode table \<open>table\<close> of the standard library.
\<close>

definition to_lowercase :: "(rchar \<Rightarrow> rstring) \<Rightarrow> rstring \<Rightarrow> rstring" where
  "to_lowercase table s = concat (map (\<lambda>c. if c < 128 then [ascii_lower c] else table c) s)"

definition device_type_v2_deserialize ::
  "(rchar \<Rightarrow> rstring) \<Rightarrow> rstring option \<Rightarrow> device_type option"
where
  "device_type_v2_deserialize table value =
     map_option (\<lambda>v. let l = to_lowercase table v in
       if l = lit ''mobile'' then Mobile
       else if l = lit ''desktop'' then Desktop
       else if l = lit ''web'' then Web
       else if l = lit ''headless'' then Headless
       else if l = lit ''server'' then Server
       else Desktop) value"

record multicast_message =
  mm_alias :: rstring
  mm_version :: rstring
  mm_device_model :: "rstring option"
  mm_device_type :: "device_type option"
  mm_fingerprint :: rstring
  mm_port :: u16
  mm_protocol :: protocol_type
  mm_download :: bool

section \<open>Files\<close>

record file_metadata =
  fm_modified :: "rstring option"
  fm_accessed :: "rstring option"

record file_dto =
  fd_id :: rstring
  fd_file_name :: rstring
  fd_size :: u64
  fd_file_type :: rstring
  fd_sha256 :: "rstring option"
  fd_preview :: "rstring option"
  fd_metadata :: "file_metadata option"

text \<open>
  Timestamps are parsed and printed by the \<^verbatim>\<open>time\<close> crate: \<open>parse\<close> and \<open>fmt\<close>.
\<close>

definition modified_time :: "(rstring \<Rightarrow> system_time option) \<Rightarrow> file_metadata \<Rightarrow> system_time option" where
  "modified_time parse m = Option.bind (fm_modified m) parse"

definition accessed_time :: "(rstring \<Rightarrow> system_time option) \<Rightarrow> file_metadata \<Rightarrow> system_time option" where
  "accessed_time parse m = Option.bind (fm_accessed m) parse"

definition from_fs_metadata ::
  "(system_time \<Rightarrow> rstring option) \<Rightarrow> system_time option \<Rightarrow> system_time option \<Rightarrow> file_metadata option"
where
  "from_fs_metadata fmt modified accessed =
     (let m = Option.bind modified fmt; a = Option.bind accessed fmt
      in if m = None \<and> a = None then None else Some \<lparr>fm_modified = m, fm_accessed = a\<rparr>)"

text \<open>
  The reader behind a file-backed content: each read yields a non-empty chunk or an error,
  and the end of the list is the end of the file. \<open>receiver\<close> counts the sends the
  receiver still accepts (\<open>None\<close>: it never goes away).
\<close>

datatype file_read = ReadData "byte list" | ReadFailed

fun read_file_into_sender :: "nat option \<Rightarrow> file_read list \<Rightarrow> byte list list" where
  "read_file_into_sender receiver [] = []"
| "read_file_into_sender receiver (ReadFailed # rs) = []"
| "read_file_into_sender receiver (ReadData chunk # rs) =
     (case receiver of
        Some 0 \<Rightarrow> []
      | Some (Suc k) \<Rightarrow> chunk # read_file_into_sender (Some k) rs
      | None \<Rightarrow> chunk # read_file_into_sender None rs)"

datatype file_content =
    ContentStream "byte list list"
  | ContentPath bool "file_read list"

text \<open>What the receiver obtains: the path's reads, or nothing when it cannot be opened.\<close>

fun into_receiver :: "nat option \<Rightarrow> file_content \<Rightarrow> byte list list" where
  "into_receiver receiver (ContentStream chunks) = chunks"
| "into_receiver receiver (ContentPath opened reads) =
     (if opened then read_file_into_sender receiver reads else [])"

section \<open>Protocol v2 objects\<close>

record register_dto_v2 =
  r2_alias :: rstring
  r2_version :: rstring
  r2_device_model :: "rstring option"
  r2_device_type :: "device_type option"
  r2_fingerprint :: rstring
  r2_port :: u16
  r2_protocol :: protocol_type
  r2_download :: bool

record register_response_dto_v2 =
  rr2_alias :: rstring
  rr2_version :: rstring
  rr2_device_model :: "rstring option"
  rr2_device_type :: "device_type option"
  rr2_fingerprint :: rstring
  rr2_download :: bool

record info_response_dto_v2 =
  i2_alias :: rstring
  i2_version :: rstring
  i2_device_model :: "rstring option"
  i2_device_type :: "device_type option"
  i2_fingerprint :: rstring
  i2_download :: bool

record prepare_upload_request_dto_v2 =
  pu2_info :: register_dto_v2
  pu2_files :: "(rstring, file_dto) hash_map"

record prepare_upload_response_dto_v2 =
  pur2_session_id :: rstring
  pur2_files :: "(rstring, rstring) hash_map"

record prepare_upload_result_v2 =
  pux2_status_code :: u16
  pux2_response :: "prepare_upload_response_dto_v2 option"

record prepare_download_response_dto_v2 =
  pd2_info :: info_response_dto_v2
  pd2_session_id :: rstring
  pd2_files :: "(rstring, file_dto) hash_map"

section \<open>Protocol v3 objects and conversions\<close>

record register_dto =
  r3_alias :: rstring
  r3_version :: rstring
  r3_device_model :: "rstring option"
  r3_device_type :: "device_type option"
  r3_token :: rstring
  r3_port :: u16
  r3_protocol :: protocol_type
  r3_has_web_interface :: bool

record register_response_dto =
  rr3_alias :: rstring
  rr3_version :: rstring
  rr3_device_model :: "rstring option"
  rr3_device_type :: "device_type option"
  rr3_token :: rstring
  rr3_has_web_interface :: bool

record prepare_upload_request_dto =
  pu3_info :: register_dto
  pu3_files :: "(rstring, file_dto) hash_map"

record prepare_upload_response_dto =
  pur3_session_id :: rstring
  pur3_files :: "(rstring, rstring) hash_map"

record prepare_upload_result =
  pux3_status_code :: u16
  pux3_response :: "prepare_upload_response_dto option"

definition register_dto_into_v2 :: "register_dto \<Rightarrow> register_dto_v2" where
  "register_dto_into_v2 v3 =
     \<lparr>r2_alias = r3_alias v3, r2_version = r3_version v3, r2_device_model = r3_device_model v3,
      r2_device_type = r3_device_type v3, r2_fingerprint = r3_token v3, r2_port = r3_port v3,
      r2_protocol = r3_protocol v3, r2_download = r3_has_web_interface v3\<rparr>"

definition prepare_upload_request_into_v2 ::
  "prepare_upload_request_dto \<Rightarrow> prepare_upload_request_dto_v2"
where
  "prepare_upload_request_into_v2 v3 =
     \<lparr>pu2_info = register_dto_into_v2 (pu3_info v3), pu2_files = pu3_files v3\<rparr>"

definition prepare_upload_response_from_v2 ::
  "prepare_upload_response_dto_v2 \<Rightarrow> prepare_upload_response_dto"
where
  "prepare_upload_response_from_v2 v2 =
     \<lparr>pur3_session_id = pur2_session_id v2, pur3_files = pur2_files v2\<rparr>"

definition prepare_upload_result_from_v2 ::
  "prepare_upload_result_v2 \<Rightarrow> prepare_upload_result"
where
  "prepare_upload_result_from_v2 v2 =
     \<lparr>pux3_status_code = pux2_status_code v2,
      pux3_response = map_option prepare_upload_response_from_v2 (pux2_response v2)\<rparr>"

definition register_response_from_v2 :: "register_response_dto_v2 \<Rightarrow> register_response_dto" where
  "register_response_from_v2 v2 =
     \<lparr>rr3_alias = rr2_alias v2, rr3_version = rr2_version v2, rr3_device_model = rr2_device_model v2,
      rr3_device_type = rr2_device_type v2, rr3_token = rr2_fingerprint v2,
      rr3_has_web_interface = rr2_download v2\<rparr>"

record device_info =
  di_alias :: rstring
  di_version :: rstring
  di_device_model :: "rstring option"
  di_device_type :: "device_type option"
  di_token :: rstring

record web_i18n =
  i18n_waiting :: rstring
  i18n_enter_pin :: rstring
  i18n_invalid_pin :: rstring
  i18n_too_many_attempts :: rstring
  i18n_rejected :: rstring
  i18n_upload_rejected :: rstring
  i18n_busy :: rstring
  i18n_files :: rstring
  i18n_file_name :: rstring
  i18n_size :: rstring

section \<open>Lemmas\<close>

lemma UNIV_protocol_type: "UNIV = {Http, Https}"
  using protocol_type.exhaust by auto

text \<open>
  The wire form of the protocol and device types round-trips whatever the Unicode
  table; reading is case-insensitive on ASCII input for device types, an unknown device
  type is read as \<^const>\<open>Desktop\<close>, and a protocol other than the two known ones is refused.
\<close>

theorem wire_types_roundtrip:
  "protocol_type_v2_deserialize (protocol_type_v2_serialize p) = Inr p \<and>
   device_type_v2_deserialize table (device_type_v2_serialize d) = d \<and>
   (protocol_type_v2_deserialize v = Inl (UnknownVariant v) \<longleftrightarrow>
      v \<notin> range protocol_type_v2_serialize) \<and>
   device_type_v2_deserialize table (Some (lit ''fridge'')) = Some Desktop \<and>
   device_type_v2_deserialize table (Some (lit ''MoBiLe'')) = Some Mobile"
proof -
  have "protocol_type_v2_deserialize (protocol_type_v2_serialize p) = Inr p"
    by (cases p)
      (simp_all add: protocol_type_v2_serialize_def protocol_type_v2_deserialize_def lit_def)
  moreover have "device_type_v2_deserialize table (device_type_v2_serialize d) = d"
    by (auto simp: device_type_v2_serialize_def device_type_v2_deserialize_def Let_def lit_def
        to_lowercase_def ascii_lower_def split: option.splits device_type.splits)
  moreover have "protocol_type_v2_deserialize v = Inl (UnknownVariant v) \<longleftrightarrow>
      v \<notin> range protocol_type_v2_serialize"
  proof -
    have "range protocol_type_v2_serialize = {lit ''http'', lit ''https''}"
      by (simp add: UNIV_protocol_type protocol_type_v2_serialize_def)
    then show ?thesis by (simp add: protocol_type_v2_deserialize_def)
  qed
  moreover have "device_type_v2_deserialize table (Some (lit ''fridge'')) = Some Desktop"
      "device_type_v2_deserialize table (Some (lit ''MoBiLe'')) = Some Mobile"
    by (simp_all add: device_type_v2_deserialize_def Let_def lit_def to_lowercase_def
        ascii_lower_def)
  ultimately show ?thesis by blast
qed

lemma read_file_prefix:
  "prefix (concat (read_file_into_sender receiver reads))
     (concat (map (\<lambda>r. case r of ReadData c \<Rightarrow> c | ReadFailed \<Rightarrow> []) reads))"
  by (induction receiver reads rule: read_file_into_sender.induct) (auto split: option.splits nat.splits)

lemma read_file_complete:
  "ReadFailed \<notin> set reads \<Longrightarrow> read_file_into_sender None reads =
     map (\<lambda>r. case r of ReadData c \<Rightarrow> c | ReadFailed \<Rightarrow> []) reads"
proof (induction reads)
  case (Cons r rs)
  then show ?case by (cases r) auto
qed simp

text \<open>
  A path-backed content forwards a prefix of the file's bytes, and the whole file when
  no read fails and the receiver stays.
\<close>

theorem into_receiver_prefix_and_complete:
  "prefix (concat (into_receiver receiver (ContentPath opened reads)))
     (concat (map (\<lambda>r. case r of ReadData c \<Rightarrow> c | ReadFailed \<Rightarrow> []) reads)) \<and>
   (ReadFailed \<notin> set reads \<longrightarrow>
      concat (into_receiver None (ContentPath True reads)) =
      concat (map (\<lambda>r. case r of ReadData c \<Rightarrow> c | ReadFailed \<Rightarrow> []) reads))"
  by (simp add: read_file_prefix read_file_complete)

theorem into_receiver_prefix_and_complete_witness:
  "ReadFailed \<notin> set [ReadData [1, 2], ReadData [3]] \<and>
   concat (into_receiver None (ContentPath True [ReadData [1, 2], ReadData [3]])) = [1, 2, 3]"
  using into_receiver_prefix_and_complete [of None True "[ReadData [1, 2], ReadData [3]]"] by simp

end
