(* ===== verification/FB_RemotePath.thy ===== *)
theory FB_RemotePath
  imports FB_Model
begin

text \<open>
  The wire model of the remote file system API and its validation rules
  (\<^verbatim>\<open>packages/core/src/http/firebox.rs\<close>): locations are an opaque root id with a
  normalised relative path, and every name, path and entry that crosses the network is
  checked. \<open>walk\<close> is the reference: what a path means to a file system that honours dots
  and empty components.
\<close>

section \<open>Wire types\<close>

definition DEFAULT_LIST_LIMIT :: u16 where "DEFAULT_LIST_LIMIT = 200"
definition MAX_LIST_LIMIT :: u16 where "MAX_LIST_LIMIT = 1000"
definition MAX_ROOT_ID_BYTES :: nat where "MAX_ROOT_ID_BYTES = 128"
definition MAX_PATH_BYTES :: nat where "MAX_PATH_BYTES = 4096"
definition MAX_NAME_BYTES :: nat where "MAX_NAME_BYTES = 1024"
definition MAX_CURSOR_BYTES :: nat where "MAX_CURSOR_BYTES = 1024"

datatype remote_fs_capability =
  CapBrowse | CapRead | CapWrite | CapCreateDirectory | CapRename | CapMove | CapDelete

datatype remote_fs_entry_type = EntryFile | EntryDirectory | EntryOther

record remote_fs_root =
  fr_id :: rstring
  fr_display_name :: rstring
  fr_capabilities :: "remote_fs_capability list"
  fr_total_bytes :: "u64 option"
  fr_free_bytes :: "u64 option"

record remote_fs_location =
  fl_root_id :: rstring
  fl_path :: rstring

record remote_fs_entry =
  fe_name :: rstring
  fe_path :: rstring
  fe_entry_type :: remote_fs_entry_type
  fe_size :: "u64 option"
  fe_modified :: "rstring option"
  fe_mime_type :: "rstring option"
  fe_capabilities :: "remote_fs_capability list"

record remote_fs_list_request =
  flr_location :: remote_fs_location
  flr_cursor :: "rstring option"
  flr_limit :: u16

record remote_fs_list_response =
  fls_entries :: "remote_fs_entry list"
  fls_next_cursor :: "rstring option"

record remote_fs_create_directory_request =
  fcd_parent :: remote_fs_location
  fcd_name :: rstring

record remote_fs_rename_request =
  frn_source :: remote_fs_location
  frn_new_name :: rstring

record remote_fs_move_request =
  fmv_source :: remote_fs_location
  fmv_destination_parent :: remote_fs_location
  fmv_new_name :: "rstring option"
  fmv_overwrite :: bool

record remote_fs_delete_request =
  fdl_target :: remote_fs_location
  fdl_recursive :: bool

record remote_fs_write_request =
  fwr_target :: remote_fs_location
  fwr_size :: u64
  fwr_overwrite :: bool

datatype remote_fs_error_code =
    Unauthenticated | UntrustedDevice | PermissionDenied | InvalidRequest | InvalidPath
  | InvalidName | RootNotFound | NotFound | AlreadyExists | NotDirectory | IsDirectory
  | DirectoryNotEmpty | Conflict | ReadOnly | StorageFull | PayloadTooLarge | Unsupported
  | Busy | TransferFailed | Unavailable | Internal

fun safe_message :: "remote_fs_error_code \<Rightarrow> rstring" where
  "safe_message Unauthenticated = lit ''A verified client certificate is required.''"
| "safe_message UntrustedDevice = lit ''This device is not trusted.''"
| "safe_message PermissionDenied = lit ''This operation is not permitted.''"
| "safe_message InvalidRequest = lit ''The request is invalid.''"
| "safe_message InvalidPath = lit ''The relative path is invalid.''"
| "safe_message InvalidName = lit ''The file name is invalid.''"
| "safe_message RootNotFound = lit ''The authorized root is not available.''"
| "safe_message NotFound = lit ''The requested entry was not found.''"
| "safe_message AlreadyExists = lit ''An entry with that name already exists.''"
| "safe_message NotDirectory = lit ''The requested entry is not a directory.''"
| "safe_message IsDirectory = lit ''The requested entry is a directory.''"
| "safe_message DirectoryNotEmpty = lit ''The directory is not empty.''"
| "safe_message Conflict = lit ''The operation conflicts with the current state.''"
| "safe_message ReadOnly = lit ''The authorized root is read-only.''"
| "safe_message StorageFull = lit ''There is not enough free storage.''"
| "safe_message PayloadTooLarge = lit ''The content is larger than the configured limit.''"
| "safe_message Unsupported = lit ''This operation is not supported.''"
| "safe_message Busy = lit ''The filesystem is busy.''"
| "safe_message TransferFailed = lit ''The content transfer did not complete.''"
| "safe_message Unavailable = lit ''The filesystem provider is temporarily unavailable.''"
| "safe_message Internal = lit ''An internal error occurred.''"

record remote_fs_error_response =
  fer_code :: remote_fs_error_code
  fer_message :: rstring

definition error_response_from :: "remote_fs_error_code \<Rightarrow> remote_fs_error_response" where
  "error_response_from code = \<lparr>fer_code = code, fer_message = safe_message code\<rparr>"

type_synonym 'a fs_result = "('a, remote_fs_error_code) result"

section \<open>Validation\<close>

definition validate_file_name :: "rstring \<Rightarrow> unit fs_result" where
  "validate_file_name name =
     ensure (\<not> (name = [] \<or> name = lit ''.'' \<or> name = lit ''..'' \<or> MAX_NAME_BYTES < str_len name \<or>
       47 \<in> set name \<or> 92 \<in> set name \<or> (\<exists>c \<in> set name. is_control c))) InvalidName"

definition validate_root_id :: "rstring \<Rightarrow> unit fs_result" where
  "validate_root_id root_id =
     ensure (\<not> (root_id = [] \<or> MAX_ROOT_ID_BYTES < str_len root_id \<or>
       \<not> (\<forall>b \<in> set root_id. is_ascii_alphanumeric b \<or> b \<in> set (lit ''-_.~'')))) InvalidRequest"

definition is_windows_absolute :: "rstring \<Rightarrow> bool" where
  "is_windows_absolute path =
     (case path of a # b # _ \<Rightarrow> is_ascii_alphabetic a \<and> b = 58 | _ \<Rightarrow> False)"

definition validate_relative_path :: "rstring \<Rightarrow> unit fs_result" where
  "validate_relative_path path =
     (if path = [] then Inr ()
      else ensure (\<not> (MAX_PATH_BYTES < str_len path \<or> hd path = 47 \<or> last path = 47 \<or> 92 \<in> set path \<or>
        (\<exists>c \<in> set path. is_control c) \<or> is_windows_absolute path \<or>
        (\<exists>component \<in> set (split_on 47 path).
           component = [] \<or> component = lit ''.'' \<or> component = lit ''..''))) InvalidPath)"

definition location_validate :: "remote_fs_location \<Rightarrow> unit fs_result" where
  "location_validate l =
     and_then (validate_root_id (fl_root_id l)) (\<lambda>_. validate_relative_path (fl_path l))"

definition location_new :: "rstring \<Rightarrow> rstring \<Rightarrow> remote_fs_location fs_result" where
  "location_new root_id path =
     (let l = \<lparr>fl_root_id = root_id, fl_path = path\<rparr>
      in and_then (location_validate l) (\<lambda>_. Inr l))"

definition cursor_invalid :: "rstring \<Rightarrow> bool" where
  "cursor_invalid cursor \<longleftrightarrow>
     cursor = [] \<or> MAX_CURSOR_BYTES < str_len cursor \<or> (\<exists>c \<in> set cursor. is_control c)"

definition list_request_new :: "remote_fs_location \<Rightarrow> remote_fs_list_request" where
  "list_request_new l = \<lparr>flr_location = l, flr_cursor = None, flr_limit = DEFAULT_LIST_LIMIT\<rparr>"

definition list_request_validate :: "remote_fs_list_request \<Rightarrow> unit fs_result" where
  "list_request_validate r =
     and_then (location_validate (flr_location r)) (\<lambda>_.
     and_then (ensure (1 \<le> flr_limit r \<and> flr_limit r \<le> MAX_LIST_LIMIT) InvalidRequest) (\<lambda>_.
     case flr_cursor r of
       Some cursor \<Rightarrow> ensure (\<not> cursor_invalid cursor) InvalidRequest
     | None \<Rightarrow> Inr ()))"

definition validate_root :: "remote_fs_root \<Rightarrow> unit fs_result" where
  "validate_root r =
     and_then (validate_root_id (fr_id r)) (\<lambda>_.
     ensure (\<not> (fr_display_name r = [] \<or> 256 < str_len (fr_display_name r) \<or>
       (\<exists>c \<in> set (fr_display_name r). is_control c) \<or>
       (case (fr_free_bytes r, fr_total_bytes r) of (Some f, Some t) \<Rightarrow> t < f | _ \<Rightarrow> False)))
       Internal)"

definition text_field_invalid :: "nat \<Rightarrow> rstring option \<Rightarrow> bool" where
  "text_field_invalid limit v =
     (case v of None \<Rightarrow> False | Some s \<Rightarrow> limit < str_len s \<or> (\<exists>c \<in> set s. is_control c))"

definition child_path :: "rstring \<Rightarrow> rstring \<Rightarrow> rstring" where
  "child_path parent name = (if parent = [] then name else parent @ 47 # name)"

definition parent_path :: "rstring \<Rightarrow> rstring" where
  "parent_path path = join_with 47 (butlast (split_on 47 path))"

definition base_name :: "rstring \<Rightarrow> rstring" where
  "base_name path = last (split_on 47 path)"

definition validate_entry :: "remote_fs_entry \<Rightarrow> rstring option \<Rightarrow> unit fs_result" where
  "validate_entry entry expected_parent =
     and_then (map_err (\<lambda>_. Internal) (validate_file_name (fe_name entry))) (\<lambda>_.
     and_then (map_err (\<lambda>_. Internal) (validate_relative_path (fe_path entry))) (\<lambda>_.
     and_then (case expected_parent of
         Some parent \<Rightarrow> ensure (fe_path entry = child_path parent (fe_name entry)) Internal
       | None \<Rightarrow> ensure (base_name (fe_path entry) = fe_name entry) Internal) (\<lambda>_.
     ensure (\<not> (text_field_invalid 64 (fe_modified entry) \<or> text_field_invalid 255 (fe_mime_type entry)))
       Internal)))"

section \<open>The meaning of a path\<close>

definition valid_component :: "rstring \<Rightarrow> bool" where
  "valid_component c \<longleftrightarrow> c \<noteq> [] \<and> c \<noteq> lit ''.'' \<and> c \<noteq> lit ''..'' \<and>
     (\<forall>x \<in> set c. x \<noteq> 47 \<and> x \<noteq> 92 \<and> \<not> is_control x)"

text \<open>A file system that honours dot, dot-dot and empty components.\<close>

fun walk :: "rstring list \<Rightarrow> rstring list \<Rightarrow> rstring list" where
  "walk dir [] = dir"
| "walk dir (c # cs) =
     (if c = [] \<or> c = lit ''.'' then walk dir cs
      else if c = lit ''..'' then walk (butlast dir) cs
      else walk (dir @ [c]) cs)"

text \<open>The directory a request path leads to, starting from the granted root.\<close>

definition resolve :: "rstring list \<Rightarrow> rstring \<Rightarrow> rstring list" where
  "resolve root path = walk (if path \<noteq> [] \<and> hd path = 47 then [] else root) (split_on 47 path)"

section \<open>Lemmas\<close>

lemma split_on_free: "c \<notin> set s \<Longrightarrow> split_on c s = [s]"
  by (rule split_by_none) auto

lemma split_child:
  "parent \<noteq> [] \<Longrightarrow> 47 \<notin> set name \<Longrightarrow> split_on 47 (child_path parent name) = split_on 47 parent @ [name]"
  by (simp add: child_path_def split_by_append_sep split_on_free)

lemma base_name_child: "47 \<notin> set name \<Longrightarrow> base_name (child_path parent name) = name"
  by (cases "parent = []") (simp_all add: base_name_def split_child, simp add: child_path_def split_on_free)

lemma parent_path_child: "47 \<notin> set name \<Longrightarrow> parent_path (child_path parent name) = parent"
  by (cases "parent = []")
    (simp_all add: parent_path_def split_child, simp add: child_path_def split_on_free)

lemma split_on_hd_slash: "path \<noteq> [] \<Longrightarrow> hd path = c \<Longrightarrow> [] \<in> set (split_on c path)"
  by (cases path) auto

lemma split_on_last_slash: "path \<noteq> [] \<Longrightarrow> last path = c \<Longrightarrow> [] \<in> set (split_on c path)"
  using split_by_append_sep [of "\<lambda>x. x = c" c "butlast path" "[]"]
  by (metis append_butlast_last_id list.set_intros(1) set_append split_by.simps(1) UnI2)

lemma set_split_on: "(\<Union>p \<in> set (split_on c s). set p) = set s - {c}"
proof (induction s)
  case (Cons x s)
  obtain p ps where "split_on c s = p # ps" by (cases "split_on c s") auto
  with Cons show ?case by auto
qed simp

lemma valid_path_iff:
  "validate_relative_path path = Inr () \<longleftrightarrow>
     path = [] \<or> (str_len path \<le> MAX_PATH_BYTES \<and> \<not> is_windows_absolute path \<and>
       (\<forall>c \<in> set (split_on 47 path). valid_component c))"
proof (cases "path = []")
  case False
  have "(\<forall>c \<in> set (split_on 47 path). \<forall>x \<in> set c. x \<noteq> 47 \<and> x \<noteq> 92 \<and> \<not> is_control x) \<longleftrightarrow>
      92 \<notin> set path \<and> (\<forall>x \<in> set path. \<not> is_control x)"
    (is "?l \<longleftrightarrow> ?r")
  proof
    assume l: ?l
    have ok: "x \<noteq> 92 \<and> \<not> is_control x" if "x \<in> set path" for x
    proof (cases "x = 47")
      case False
      with that set_split_on [of 47 path] obtain c where "c \<in> set (split_on 47 path)" "x \<in> set c"
        by auto
      with l show ?thesis by blast
    qed (simp add: is_control_def)
    then show ?r by blast
  next
    assume ?r
    then show ?l using split_by_component [of _ "\<lambda>x. x = 47" path] by blast
  qed
  then have comps: "(\<forall>c \<in> set (split_on 47 path). valid_component c) \<longleftrightarrow>
      (\<forall>c \<in> set (split_on 47 path). c \<noteq> [] \<and> c \<noteq> lit ''.'' \<and> c \<noteq> lit ''..'') \<and>
      92 \<notin> set path \<and> (\<forall>x \<in> set path. \<not> is_control x)"
    unfolding valid_component_def by blast
  have ends: "\<forall>c \<in> set (split_on 47 path). c \<noteq> [] \<Longrightarrow> hd path \<noteq> 47 \<and> last path \<noteq> 47"
    using split_on_hd_slash [OF False] split_on_last_slash [OF False] by blast
  have "validate_relative_path path = Inr () \<longleftrightarrow> str_len path \<le> MAX_PATH_BYTES \<and>
      \<not> is_windows_absolute path \<and> hd path \<noteq> 47 \<and> last path \<noteq> 47 \<and> 92 \<notin> set path \<and>
      (\<forall>x \<in> set path. \<not> is_control x) \<and>
      (\<forall>c \<in> set (split_on 47 path). c \<noteq> [] \<and> c \<noteq> lit ''.'' \<and> c \<noteq> lit ''..'')"
    unfolding validate_relative_path_def using False
    by (simp only: if_False ensure_eq_Inr not_less [symmetric] de_Morgan_disj bex_simps ball_simps) blast
  with comps ends False show ?thesis by blast
qed (simp add: validate_relative_path_def)

lemma walk_valid: "(\<forall>c \<in> set cs. valid_component c) \<Longrightarrow> walk dir cs = dir @ cs"
  by (induction cs arbitrary: dir) (auto simp: valid_component_def)

lemma valid_name_iff:
  "validate_file_name name = Inr () \<longleftrightarrow> valid_component name \<and> str_len name \<le> MAX_NAME_BYTES"
  by (auto simp: validate_file_name_def res_simps valid_component_def)

lemma valid_componentD: "valid_component c \<Longrightarrow> 47 \<notin> set c \<and> c \<noteq> []"
  by (auto simp: valid_component_def)

lemma join_with_nonempty: "ps \<noteq> [] \<Longrightarrow> hd ps \<noteq> [] \<Longrightarrow> join_with c ps \<noteq> []"
  by (cases ps; cases "tl ps") auto

lemma windows_absolute_prefix: "is_windows_absolute p \<Longrightarrow> prefix p q \<Longrightarrow> is_windows_absolute q"
  by (auto simp: is_windows_absolute_def prefix_def split: list.splits)

lemma parent_path_cases:
  assumes "\<forall>c \<in> set (split_on 47 path). valid_component c"
  shows "parent_path path = [] \<and> split_on 47 path = [path] \<or>
    parent_path path \<noteq> [] \<and> path = parent_path path @ 47 # base_name path \<and>
    split_on 47 (parent_path path) = butlast (split_on 47 path)"
proof -
  let ?ps = "split_on 47 path"
  have ps: "?ps = butlast ?ps @ [last ?ps]" "join_with 47 ?ps = path" by simp_all
  show ?thesis
  proof (cases "butlast ?ps = []")
    case True
    with ps have "?ps = [last ?ps]" by simp
    then have "?ps = [path]" using ps(2) by (metis join_with.simps(2))
    with True show ?thesis by (simp add: parent_path_def)
  next
    case False
    then have "path = parent_path path @ 47 # base_name path"
      using ps join_with_append [of "butlast ?ps" "[last ?ps]" 47]
      by (simp add: parent_path_def base_name_def)
    moreover have comps: "\<forall>c \<in> set (butlast ?ps). valid_component c"
      using assms by (meson in_set_butlastD)
    then have "split_on 47 (parent_path path) = butlast ?ps"
      unfolding parent_path_def using False valid_componentD by (intro split_on_join) blast+
    moreover have "parent_path path \<noteq> []"
      unfolding parent_path_def using False comps valid_componentD
      by (intro join_with_nonempty) (auto simp: hd_in_set)
    ultimately show ?thesis by blast
  qed
qed

lemma valid_parent_path:
  assumes "validate_relative_path path = Inr ()"
  shows "validate_relative_path (parent_path path) = Inr ()"
proof (cases "path = [] \<or> parent_path path = []")
  case True
  then show ?thesis by (auto simp: valid_path_iff parent_path_def)
next
  case False
  with assms have comps: "\<forall>c \<in> set (split_on 47 path). valid_component c"
    and rest: "str_len path \<le> MAX_PATH_BYTES" "\<not> is_windows_absolute path"
    by (simp_all add: valid_path_iff)
  with False parent_path_cases [OF comps]
  have p: "path = parent_path path @ 47 # base_name path"
      "split_on 47 (parent_path path) = butlast (split_on 47 path)" by blast+
  then have "prefix (parent_path path) path" by (metis prefixI)
  with rest p(2) comps show ?thesis
    unfolding valid_path_iff
    by (auto dest: str_len_prefix windows_absolute_prefix in_set_butlastD intro: le_trans)
qed

lemma child_of_parent:
  assumes "validate_relative_path path = Inr ()" "path \<noteq> []"
  shows "child_path (parent_path path) (base_name path) = path"
proof -
  from assms have "\<forall>c \<in> set (split_on 47 path). valid_component c"
    by (simp add: valid_path_iff)
  from parent_path_cases [OF this] show ?thesis
    by (auto simp: child_path_def base_name_def)
qed

section \<open>Properties\<close>

text \<open>
  C4. Path containment: the validator accepts a path exactly when it is the root itself or
  a bounded list of ordinary components that is not a drive path, and an accepted path,
  even read by a file system that honours dot-dot and absolute paths, leads from the
  granted root to the directory its components spell, below that root.
\<close>

theorem validated_path_contained:
  assumes "validate_relative_path path = Inr ()"
  shows "resolve root path = root @ (if path = [] then [] else split_on 47 path) \<and>
    prefix root (resolve root path) \<and>
    (path \<noteq> [] \<longrightarrow> (\<forall>c \<in> set (split_on 47 path). validate_file_name c = Inr () \<or> MAX_NAME_BYTES < str_len c))"
proof (cases "path = []")
  case True
  then show ?thesis by (simp add: resolve_def)
next
  case False
  with assms have comps: "\<forall>c \<in> set (split_on 47 path). valid_component c"
    by (simp add: valid_path_iff)
  have "hd path \<noteq> 47"
    using split_on_hd_slash [OF False, of 47] comps valid_componentD by blast
  with False comps show ?thesis
    by (auto simp: resolve_def walk_valid valid_name_iff not_less)
qed

theorem validated_path_contained_witness:
  "resolve [lit ''home'', lit ''share''] (lit ''a/b.txt'') = [lit ''home'', lit ''share'', lit ''a'', lit ''b.txt'']"
proof -
  have "validate_relative_path (lit ''a/b.txt'') = Inr ()" by code_simp
  moreover have "split_on 47 (lit ''a/b.txt'') = [lit ''a'', lit ''b.txt'']" by code_simp
  ultimately show ?thesis
    using validated_path_contained [of "lit ''a/b.txt''"] by (simp add: lit_def)
qed

text \<open>
  Splitting a path into its parent and its last component and joining them again are
  inverse to each other, on every path and for every name without a separator.
\<close>

theorem child_parent_roundtrip:
  assumes "validate_relative_path path = Inr ()" "path \<noteq> []" "validate_file_name name = Inr ()"
  shows "child_path (parent_path path) (base_name path) = path \<and>
    parent_path (child_path parent name) = parent \<and> base_name (child_path parent name) = name \<and>
    validate_relative_path (parent_path path) = Inr ()"
  using assms valid_componentD [of name]
  by (auto simp: child_of_parent valid_parent_path valid_name_iff base_name_child parent_path_child)

theorem child_parent_roundtrip_witness:
  "child_path (parent_path (lit ''a/b'')) (base_name (lit ''a/b'')) = lit ''a/b''"
proof -
  have "validate_relative_path (lit ''a/b'') = Inr ()" "lit ''a/b'' \<noteq> []" "validate_file_name (lit ''c'') = Inr ()"
    by code_simp+
  from child_parent_roundtrip [OF this] show ?thesis by blast
qed

end
