(* ===== verification/FB_Http.thy ===== *)
theory FB_Http
  imports FB_RemotePath FB_Crypto
begin

text \<open>
  The HTTP vocabulary of the server: errors and their responses
  (\<^verbatim>\<open>packages/core/src/http/server/common/error.rs\<close>, \<^verbatim>\<open>response.rs\<close>), query strings
  (\<^verbatim>\<open>query.rs\<close>), JSON request bodies (\<^verbatim>\<open>collect_to_json.rs\<close>) and what a request knows
  of its client (\<^verbatim>\<open>RequestClientInfo\<close> in \<^verbatim>\<open>server/mod.rs\<close>). A response body is the
  value that is serialised, not its bytes.
\<close>

section \<open>External functions\<close>

text \<open>
  The functions of third-party crates the handlers call, gathered in one parameter:
  \<^verbatim>\<open>form_urlencoded::parse\<close>, the SHA-256 digest, RFC 3339 timestamps, the public key of
  a DER certificate, the display form of a status code, URL-safe base64, percent-encoding
  of the characters of a set, and the two conversions between text and header values.
\<close>

record ext =
  ext_form_parse :: "rstring \<Rightarrow> (rstring \<times> rstring) list"
  ext_sha256 :: "byte list \<Rightarrow> byte list"
  ext_rfc3339 :: "rstring \<Rightarrow> system_time option"
  ext_public_key :: "byte list \<Rightarrow> rstring option"
  ext_show_status :: "nat \<Rightarrow> rstring"
  ext_base64_decode :: "rstring \<Rightarrow> byte list option"
  ext_base64_encode :: "byte list \<Rightarrow> rstring"
  ext_percent_encode :: "(rchar \<Rightarrow> bool) \<Rightarrow> rstring \<Rightarrow> rstring"
  ext_header_value :: "rstring \<Rightarrow> bool"
  ext_header_text :: "rstring \<Rightarrow> rstring option"

section \<open>Errors and responses\<close>

type_synonym status = nat

datatype app_error = HyperError | StatusError status | BadRequest rstring | MessageError status rstring

datatype web_page = DOWNLOAD_HTML | UPLOAD_HTML | ERROR_403_HTML

datatype body =
    EmptyBody
  | PageBody web_page
  | ErrorBody rstring
  | RegisterBody register_response_dto_v2
  | RegisterV3Body register_response_dto
  | InfoBody info_response_dto_v2
  | PrepareUploadBody prepare_upload_response_dto_v2
  | PrepareDownloadBody prepare_download_response_dto_v2
  | I18nBody web_i18n
  | NonceBody rstring
  | StreamBody "byte list list"
  | FsRootsBody "remote_fs_root list"
  | FsListBody remote_fs_list_response
  | FsEntryBody remote_fs_entry
  | FsMutationBody remote_fs_entry
  | FsWriteBody u64
  | FsErrorBody remote_fs_error_response

record response =
  rs_status :: status
  rs_headers :: "(rstring \<times> rstring) list"
  rs_body :: body

definition plain_response :: "status \<Rightarrow> response" where
  "plain_response code = \<lparr>rs_status = code, rs_headers = [], rs_body = EmptyBody\<rparr>"

definition json_into_response :: "status \<Rightarrow> body \<Rightarrow> response" where
  "json_into_response code b =
     \<lparr>rs_status = code, rs_headers = [(lit ''content-type'', lit ''application/json'')], rs_body = b\<rparr>"

fun to_response :: "ext \<Rightarrow> app_error \<Rightarrow> response" where
  "to_response X HyperError = json_into_response 500 (ErrorBody (lit ''Internal server error''))"
| "to_response X (StatusError code) =
     json_into_response code (ErrorBody (lit ''Status code: '' @ ext_show_status X code))"
| "to_response X (BadRequest message) = json_into_response 400 (ErrorBody message)"
| "to_response X (MessageError code message) = json_into_response code (ErrorBody message)"

fun error_code :: "app_error \<Rightarrow> status" where
  "error_code HyperError = 500"
| "error_code (StatusError code) = code"
| "error_code (BadRequest message) = 400"
| "error_code (MessageError code message) = code"

section \<open>Requests\<close>

datatype frame = DataFrame "byte list" | OtherFrame | FrameError

record request =
  rq_method :: rstring
  rq_path :: rstring
  rq_query :: "rstring option"
  rq_headers :: "(rstring \<times> rstring) list"
  rq_body :: "frame list"

type_synonym query = "rstring \<rightharpoonup> rstring"

text \<open>Collecting pairs into a \<^verbatim>\<open>HashMap\<close>: the last value of a key wins.\<close>

definition parse_query :: "ext \<Rightarrow> rstring option \<Rightarrow> query" where
  "parse_query X q = (case q of None \<Rightarrow> Map.empty | Some s \<Rightarrow> map_of (rev (ext_form_parse X s)))"

fun collect_frames :: "frame list \<Rightarrow> (byte list, app_error) result" where
  "collect_frames [] = Inr []"
| "collect_frames (FrameError # fs) = Inl HyperError"
| "collect_frames (OtherFrame # fs) = collect_frames fs"
| "collect_frames (DataFrame d # fs) = and_then (collect_frames fs) (\<lambda>bs. Inr (d @ bs))"

text \<open>\<open>decode\<close> is \<^verbatim>\<open>serde_json::from_slice\<close> at the expected type.\<close>

definition collect_to_json ::
  "(byte list \<Rightarrow> 'a option) \<Rightarrow> frame list \<Rightarrow> ('a, app_error) result"
where
  "collect_to_json decode body =
     and_then (collect_frames body) (\<lambda>bytes.
     ok_or (decode bytes) (BadRequest (lit ''Invalid JSON body'')))"

definition header_get :: "(rstring \<times> rstring) list \<Rightarrow> rstring \<Rightarrow> rstring option" where
  "header_get headers name = map_of headers name"

section \<open>The client of a request\<close>

record request_client_info =
  ci_ip :: peer_ip
  ci_cert :: "byte list option"

definition cert_fingerprint :: "ext \<Rightarrow> request_client_info \<Rightarrow> rstring option" where
  "cert_fingerprint X ci = map_option (fingerprint_from_cert_der (ext_sha256 X)) (ci_cert ci)"

definition extract_public_key :: "ext \<Rightarrow> request_client_info \<Rightarrow> rstring option" where
  "extract_public_key X ci = Option.bind (ci_cert ci) (ext_public_key X)"

definition client_identifier :: "ext \<Rightarrow> request_client_info \<Rightarrow> rstring" where
  "client_identifier X ci =
     (case extract_public_key X ci of Some key \<Rightarrow> key | None \<Rightarrow> peer_ip_to_string (ci_ip ci))"

section \<open>Lemmas\<close>

lemma to_response_status [simp]: "rs_status (to_response X e) = error_code e"
  by (cases e) (simp_all add: json_into_response_def)

lemma collect_frames_error: "collect_frames fs = Inl e \<Longrightarrow> e = HyperError"
  by (induction fs rule: collect_frames.induct) (auto simp: res_simps)

text \<open>A concrete instance of the external functions, used by the witnesses.\<close>

definition demo_ext :: ext where
  "demo_ext = \<lparr>ext_form_parse = (\<lambda>s. map (\<lambda>kv. case split_on 61 kv of
       [k] \<Rightarrow> (k, []) | k # v # _ \<Rightarrow> (k, v) | [] \<Rightarrow> ([], [])) (split_on 38 s)),
     ext_sha256 = (\<lambda>bs. [of_nat (length bs)]), ext_rfc3339 = (\<lambda>_. None),
     ext_public_key = (\<lambda>_. None), ext_show_status = show_nat,
     ext_base64_decode = (\<lambda>s. Some (map of_nat s)), ext_base64_encode = map unat,
     ext_percent_encode = (\<lambda>P s. concat (map (\<lambda>c. if c < 128 \<and> \<not> P c then [c] else lit ''%00'') s)),
     ext_header_value = (\<lambda>s. \<forall>c \<in> set s. 32 \<le> c \<and> c < 127), ext_header_text = Some\<rparr>"

end
