(* ===== verification/FB_Pin.thy ===== *)
theory FB_Pin
  imports FB_Http
begin

text \<open>
  PIN checking with a bounded table of failed attempts
  (\<^verbatim>\<open>packages/core/src/http/server/common/pin.rs\<close>). The table is an \<^verbatim>\<open>lru::LruCache\<close>;
  its operations are a parameter, what the check relies on is the contract
  \<open>lru_cache\<close>, and the contract is interpreted by a list kept in order of use.
\<close>

section \<open>The cache operations\<close>

text \<open>A read returns the cache as well, because it marks the entry as recently used.\<close>

record ('k, 'v, 'c) lru_ops =
  lru_get :: "'c \<Rightarrow> 'k \<Rightarrow> 'v option \<times> 'c"
  lru_put :: "'c \<Rightarrow> 'k \<Rightarrow> 'v \<Rightarrow> 'c"
  lru_pop :: "'c \<Rightarrow> 'k \<Rightarrow> 'c"
  lru_new :: "nat \<Rightarrow> 'c"

definition lru_lookup :: "('k, 'v, 'c) lru_ops \<Rightarrow> 'c \<Rightarrow> 'k \<Rightarrow> 'v option" where
  "lru_lookup L c k = fst (lru_get L c k)"

text \<open>A cache as a capacity and a list of entries, most recently used first.\<close>

type_synonym ('k, 'v) list_lru = "nat \<times> ('k \<times> 'v) list"

definition list_lru_ops :: "('k, 'v, ('k, 'v) list_lru) lru_ops" where
  "list_lru_ops =
     \<lparr>lru_get = (\<lambda>(cap, xs) k. case map_of xs k of
          None \<Rightarrow> (None, (cap, xs))
        | Some v \<Rightarrow> (Some v, (cap, (k, v) # filter (\<lambda>e. fst e \<noteq> k) xs))),
      lru_put = (\<lambda>(cap, xs) k v. (cap, take cap ((k, v) # filter (\<lambda>e. fst e \<noteq> k) xs))),
      lru_pop = (\<lambda>(cap, xs) k. (cap, filter (\<lambda>e. fst e \<noteq> k) xs)),
      lru_new = (\<lambda>cap. (cap, []))\<rparr>"

definition list_lru_invar :: "nat \<Rightarrow> ('k, 'v) list_lru \<Rightarrow> bool" where
  "list_lru_invar cap c \<longleftrightarrow>
     0 < cap \<and> fst c = cap \<and> distinct (map fst (snd c)) \<and> length (snd c) \<le> cap"

section \<open>The check\<close>

definition MAX_PIN_ATTEMPTS :: u32 where
  "MAX_PIN_ATTEMPTS = 3"

definition check_pin ::
  "(ip_addr, u32, 'c) lru_ops \<Rightarrow> rstring option \<Rightarrow> 'c \<Rightarrow> query \<Rightarrow> ip_addr \<Rightarrow>
     (unit, app_error) result \<times> 'c"
where
  "check_pin L required attempts q ip =
     (case required of
        None \<Rightarrow> (Inr (), attempts)
      | Some required_pin \<Rightarrow>
          let (got, attempts) = lru_get L attempts ip;
              count = (case got of Some n \<Rightarrow> n | None \<Rightarrow> 0)
          in if MAX_PIN_ATTEMPTS \<le> count
             then (Inl (MessageError 429 (lit ''Too many requests'')), attempts)
             else case q (lit ''pin'') of
                 Some pin \<Rightarrow>
                   if pin = required_pin then (Inr (), lru_pop L attempts ip)
                   else (Inl (MessageError 401 (lit ''Invalid PIN'')), lru_put L attempts ip (count + 1))
               | None \<Rightarrow> (Inl (MessageError 401 (lit ''PIN required'')), attempts))"

text \<open>A sequence of checks, as the requests of several clients arrive.\<close>

fun pin_run ::
  "(ip_addr, u32, 'c) lru_ops \<Rightarrow> rstring option \<Rightarrow> 'c \<Rightarrow> (ip_addr \<times> query) list \<Rightarrow>
     (unit, app_error) result list \<times> 'c"
where
  "pin_run L required c [] = ([], c)"
| "pin_run L required c ((ip, q) # rs) =
     (let (r, c') = check_pin L required c q ip;
          (res, c'') = pin_run L required c' rs
      in (r # res, c''))"

abbreviation invalid_pin :: "(unit, app_error) result" where
  "invalid_pin \<equiv> Inl (MessageError 401 (lit ''Invalid PIN''))"

text \<open>How many requests of one address were answered as a wrong guess.\<close>

definition wrong_guesses ::
  "ip_addr \<Rightarrow> (ip_addr \<times> query) list \<Rightarrow> (unit, app_error) result list \<Rightarrow> nat"
where
  "wrong_guesses ip rs res =
     length (filter (\<lambda>(r, a). fst r = ip \<and> a = invalid_pin) (zip rs res))"

text \<open>The failures on record for an address.\<close>

definition recorded :: "(ip_addr, u32, 'c) lru_ops \<Rightarrow> 'c \<Rightarrow> ip_addr \<Rightarrow> u32" where
  "recorded L c ip = (case lru_lookup L c ip of Some n \<Rightarrow> n | None \<Rightarrow> 0)"

section \<open>The contract of the cache\<close>

locale lru_cache =
  fixes L :: "('k, 'v, 'c) lru_ops"
    and invar :: "'c \<Rightarrow> bool"
    and cap :: nat
  assumes new_lookup: "lru_lookup L (lru_new L cap) k = None"
    and new_invar: "invar (lru_new L cap)"
    and get_invar: "invar c \<Longrightarrow> invar (snd (lru_get L c k))"
    and put_invar: "invar c \<Longrightarrow> invar (lru_put L c k v)"
    and pop_invar: "invar c \<Longrightarrow> invar (lru_pop L c k)"
    and get_lookup: "invar c \<Longrightarrow> lru_lookup L (snd (lru_get L c k)) j = lru_lookup L c j"
    and put_lookup: "invar c \<Longrightarrow> lru_lookup L (lru_put L c k v) k = Some v"
    and put_evicts: "invar c \<Longrightarrow> j \<noteq> k \<Longrightarrow>
          lru_lookup L (lru_put L c k v) j = lru_lookup L c j \<or> lru_lookup L (lru_put L c k v) j = None"
    and put_keeps: "invar c \<Longrightarrow> j \<noteq> k \<Longrightarrow> card (insert k (dom (lru_lookup L c))) \<le> cap \<Longrightarrow>
          lru_lookup L (lru_put L c k v) j = lru_lookup L c j"
    and pop_lookup: "invar c \<Longrightarrow>
          lru_lookup L (lru_pop L c k) j = (if j = k then None else lru_lookup L c j)"
    and finite_dom: "invar c \<Longrightarrow> finite (dom (lru_lookup L c))"
begin

lemma dom_put: "invar c \<Longrightarrow> dom (lru_lookup L (lru_put L c k v)) \<subseteq> insert k (dom (lru_lookup L c))"
proof
  fix j assume "invar c" "j \<in> dom (lru_lookup L (lru_put L c k v))"
  then show "j \<in> insert k (dom (lru_lookup L c))"
    using put_evicts [of c j k v] by (cases "j = k") auto
qed

end

lemma list_lru_simps:
  "lru_get list_lru_ops (m, xs) k = (case map_of xs k of
      None \<Rightarrow> (None, (m, xs)) | Some v \<Rightarrow> (Some v, (m, (k, v) # filter (\<lambda>e. fst e \<noteq> k) xs)))"
  "lru_put list_lru_ops (m, xs) k v = (m, take m ((k, v) # filter (\<lambda>e. fst e \<noteq> k) xs))"
  "lru_pop list_lru_ops (m, xs) k = (m, filter (\<lambda>e. fst e \<noteq> k) xs)"
  "lru_new list_lru_ops m = (m, [])"
  by (simp_all add: list_lru_ops_def)

lemma list_lru_lookup: "lru_lookup list_lru_ops (cap, xs) = map_of xs"
  by (auto simp: lru_lookup_def list_lru_ops_def split: option.splits)

lemma map_of_filter_neq: "map_of (filter (\<lambda>e. fst e \<noteq> k) xs) j = (if j = k then None else map_of xs j)"
  by (induction xs) auto

lemma map_of_take_cases: "map_of (take n xs) j = map_of xs j \<or> map_of (take n xs) j = None"
  by (induction xs arbitrary: n) (auto simp: take_Cons split: nat.splits)

lemma length_filter_neq:
  assumes "distinct (map fst xs)"
  shows "Suc (length (filter (\<lambda>e. fst e \<noteq> k) xs)) = card (insert k (fst ` set xs))"
proof -
  let ?ys = "filter (\<lambda>e. fst e \<noteq> k) xs"
  have "length ?ys = card (fst ` set ?ys)"
    using assms by (metis distinct_card distinct_map_filter length_map list.set_map)
  also have "fst ` set ?ys = fst ` set xs - {k}" by auto
  finally show ?thesis by (simp add: card.insert_remove)
qed

lemma distinct_filter_neq:
  "distinct (map fst xs) \<Longrightarrow> distinct (map fst ((k, v) # filter (\<lambda>e. fst e \<noteq> k) xs))"
  by (auto simp: distinct_map_filter)

lemma distinct_map_take: "distinct (map f xs) \<Longrightarrow> distinct (map f (take n xs))"
  by (metis distinct_take take_map)

lemma length_filter_present:
  "map_of xs k = Some v \<Longrightarrow> length (filter (\<lambda>e. fst e \<noteq> k) xs) < length xs"
  by (rule length_filter_less [of "(k, v)"]) (auto dest: map_of_SomeD)

interpretation list_lru: lru_cache list_lru_ops "list_lru_invar (Suc n)" "Suc n" for n
proof unfold_locales
  fix c :: "('k, 'v) list_lru" and k j :: 'k and v :: 'v
  show "lru_lookup list_lru_ops (lru_new list_lru_ops (Suc n) :: ('k, 'v) list_lru) k = None"
    by (simp add: list_lru_ops_def lru_lookup_def)
  show "list_lru_invar (Suc n) (lru_new list_lru_ops (Suc n) :: ('k, 'v) list_lru)"
    by (simp add: list_lru_ops_def list_lru_invar_def)
  assume inv: "list_lru_invar (Suc n) c"
  then obtain xs where c: "c = (Suc n, xs)" "distinct (map fst xs)" "length xs \<le> (Suc n)"
    by (cases c) (auto simp: list_lru_invar_def)
  show "list_lru_invar (Suc n) (snd (lru_get list_lru_ops c k))"
    using c distinct_filter_neq [of xs k] length_filter_present [of xs k]
    by (fastforce simp: list_lru_ops_def list_lru_invar_def split: option.splits)
  show "list_lru_invar (Suc n) (lru_put list_lru_ops c k v)"
    using c distinct_map_take [OF distinct_filter_neq [of xs k v], of "Suc n"]
    by (simp add: list_lru_ops_def list_lru_invar_def)
  show "list_lru_invar (Suc n) (lru_pop list_lru_ops c k)"
    using c by (auto simp: list_lru_ops_def list_lru_invar_def distinct_map_filter
        intro: le_trans [OF length_filter_le])
  show "lru_lookup list_lru_ops (snd (lru_get list_lru_ops c k)) j = lru_lookup list_lru_ops c j"
    using c by (cases "map_of xs k") (simp_all add: list_lru_simps list_lru_lookup map_of_filter_neq)
  show "lru_lookup list_lru_ops (lru_put list_lru_ops c k v) k = Some v"
    using c by (simp add: list_lru_ops_def lru_lookup_def)
  show "lru_lookup list_lru_ops (lru_pop list_lru_ops c k) j =
      (if j = k then None else lru_lookup list_lru_ops c j)"
    using c by (simp add: list_lru_lookup map_of_filter_neq list_lru_simps)
  show "finite (dom (lru_lookup list_lru_ops c))"
    using c by (simp add: list_lru_lookup finite_dom_map_of)
next
  fix c :: "('k, 'v) list_lru" and k j :: 'k and v :: 'v
  assume inv: "list_lru_invar (Suc n) c" and jk: "j \<noteq> k"
  then obtain xs where c: "c = (Suc n, xs)" "distinct (map fst xs)"
    by (cases c) (auto simp: list_lru_invar_def)
  have put: "lru_lookup list_lru_ops (lru_put list_lru_ops c k v) j =
      map_of (take (Suc n) ((k, v) # filter (\<lambda>e. fst e \<noteq> k) xs)) j"
    using c by (simp add: list_lru_lookup list_lru_simps)
  show "lru_lookup list_lru_ops (lru_put list_lru_ops c k v) j = lru_lookup list_lru_ops c j \<or>
      lru_lookup list_lru_ops (lru_put list_lru_ops c k v) j = None"
    using map_of_take_cases [of "Suc n" "(k, v) # filter (\<lambda>e. fst e \<noteq> k) xs" j] jk
    unfolding put by (simp add: c(1) list_lru_lookup map_of_filter_neq)
  assume "card (insert k (dom (lru_lookup list_lru_ops c))) \<le> (Suc n)"
  then have "length ((k, v) # filter (\<lambda>e. fst e \<noteq> k) xs) \<le> (Suc n)"
    using c length_filter_neq [of xs k] by (simp add: list_lru_lookup dom_map_of_conv_image_fst)
  then show "lru_lookup list_lru_ops (lru_put list_lru_ops c k v) j = lru_lookup list_lru_ops c j"
    unfolding put using jk by (simp add: c(1) list_lru_lookup map_of_filter_neq)
qed

section \<open>Guessing is bounded\<close>

lemma check_pin_cases:
  assumes "check_pin L (Some pin) c q ip = (r, c')"
  defines "count \<equiv> recorded L c ip"
    and "c1 \<equiv> snd (lru_get L c ip)"
  obtains (blocked) "MAX_PIN_ATTEMPTS \<le> count" "r = Inl (MessageError 429 (lit ''Too many requests''))"
      "c' = c1"
  | (correct) "count < MAX_PIN_ATTEMPTS" "q (lit ''pin'') = Some pin" "r = Inr ()"
      "c' = lru_pop L c1 ip"
  | (wrong) guess where "count < MAX_PIN_ATTEMPTS" "q (lit ''pin'') = Some guess" "guess \<noteq> pin"
      "r = invalid_pin" "c' = lru_put L c1 ip (count + 1)"
  | (missing) "count < MAX_PIN_ATTEMPTS" "q (lit ''pin'') = None"
      "r = Inl (MessageError 401 (lit ''PIN required''))" "c' = c1"
proof -
  have lk: "lru_get L c ip = (lru_lookup L c ip, c1)"
    by (simp add: c1_def lru_lookup_def)
  show thesis
    using assms(1) blocked correct wrong missing
    by (cases "q (lit ''pin'')"; cases "MAX_PIN_ATTEMPTS \<le> count")
      (auto simp: check_pin_def lk Let_def count_def [unfolded recorded_def, symmetric] not_le split: if_splits)
qed

locale pin_table = lru_cache L invar cap
  for L :: "(ip_addr, u32, 'c) lru_ops" and invar :: "'c \<Rightarrow> bool" and cap :: nat
begin

lemma recorded_get: "invar c \<Longrightarrow> recorded L (snd (lru_get L c k)) ip = recorded L c ip"
  by (simp add: recorded_def get_lookup)

lemma dom_get: "invar c \<Longrightarrow> dom (lru_lookup L (snd (lru_get L c k))) = dom (lru_lookup L c)"
  by (auto simp: dom_def get_lookup)

lemma check_step:
  assumes inv: "invar c" and small: "card (insert ip' (dom (lru_lookup L c))) \<le> cap"
    and le: "recorded L c ip \<le> 3"
    and bad: "ip' = ip \<Longrightarrow> q (lit ''pin'') \<noteq> Some pin"
    and run: "check_pin L (Some pin) c q ip' = (r, c')"
  shows "invar c'" "dom (lru_lookup L c') \<subseteq> insert ip' (dom (lru_lookup L c))"
    "recorded L c' ip = recorded L c ip + (if ip' = ip \<and> r = invalid_pin then 1 else 0)"
    "recorded L c' ip \<le> 3"
proof -
  let ?c1 = "snd (lru_get L c ip')"
  have i1: "invar ?c1" and d1: "dom (lru_lookup L ?c1) = dom (lru_lookup L c)"
    using inv by (simp_all add: get_invar dom_get)
  have one: "w < 3 \<Longrightarrow> w + 1 \<le> 3" for w :: u32
    by unat_arith
  from run show "invar c'"
    by (cases rule: check_pin_cases) (simp_all add: i1 pop_invar put_invar)
  from run show "dom (lru_lookup L c') \<subseteq> insert ip' (dom (lru_lookup L c))"
    using dom_put [OF i1] d1
    by (cases rule: check_pin_cases) (auto simp: pop_lookup i1 split: if_splits)
  from run show rec: "recorded L c' ip = recorded L c ip + (if ip' = ip \<and> r = invalid_pin then 1 else 0)"
  proof (cases rule: check_pin_cases)
    case (wrong guess)
    then show ?thesis
      using put_lookup [OF i1] put_keeps [OF i1, of ip ip'] small d1 recorded_get [OF inv, of ip' ip]
      by (cases "ip' = ip") (auto simp: recorded_def)
  next
    case correct
    then show ?thesis
      using bad by (auto simp: recorded_def pop_lookup i1 get_lookup inv lit_def)
  qed (simp_all add: recorded_get inv lit_def)
  from run show "recorded L c' ip \<le> 3"
    using le one rec by (cases rule: check_pin_cases) (auto simp: MAX_PIN_ATTEMPTS_def)
qed

lemma run_bound:
  assumes "invar c" "card (dom (lru_lookup L c) \<union> fst ` set rs) \<le> cap" "recorded L c ip \<le> 3"
    and "\<forall>(a, q) \<in> set rs. a = ip \<longrightarrow> q (lit ''pin'') \<noteq> Some pin"
    and "pin_run L (Some pin) c rs = (res, c')"
  shows "invar c' \<and> recorded L c' ip \<le> 3 \<and>
    unat (recorded L c' ip) = unat (recorded L c ip) + wrong_guesses ip rs res"
  using assms
proof (induction rs arbitrary: c res)
  case (Cons x rs)
  obtain a q where x: "x = (a, q)" by (cases x)
  obtain r c1 where r: "check_pin L (Some pin) c q a = (r, c1)" by fastforce
  obtain res' where res: "pin_run L (Some pin) c1 rs = (res', c')" "res = r # res'"
    using Cons.prems(5) x r by (auto split: prod.splits)
  have fin: "finite (dom (lru_lookup L c) \<union> fst ` set (x # rs))"
    using Cons.prems(1) by (simp add: finite_dom)
  have "card (insert a (dom (lru_lookup L c))) \<le> cap"
    using Cons.prems(2) card_mono [OF fin, of "insert a (dom (lru_lookup L c))"] x by force
  then have step: "invar c1" "dom (lru_lookup L c1) \<subseteq> insert a (dom (lru_lookup L c))"
      "recorded L c1 ip = recorded L c ip + (if a = ip \<and> r = invalid_pin then 1 else 0)"
      "recorded L c1 ip \<le> 3"
    using check_step [OF Cons.prems(1) _ Cons.prems(3) _ r] Cons.prems(4) x by auto
  have "dom (lru_lookup L c1) \<union> fst ` set rs \<subseteq> dom (lru_lookup L c) \<union> fst ` set (x # rs)"
    using step(2) x by auto
  then have "card (dom (lru_lookup L c1) \<union> fst ` set rs) \<le> cap"
    using Cons.prems(2) card_mono [OF fin] le_trans by blast
  then have IH: "invar c' \<and> recorded L c' ip \<le> 3 \<and>
      unat (recorded L c' ip) = unat (recorded L c1 ip) + wrong_guesses ip rs res'"
    using Cons.IH [OF step(1) _ step(4) _ res(1)] Cons.prems(4) by simp
  have "unat (recorded L c1 ip) = unat (recorded L c ip) + (if a = ip \<and> r = invalid_pin then 1 else 0)"
    using step(3) Cons.prems(3) by (simp add: unat_plus_if' word_le_nat_alt)
  with IH show ?case
    by (simp add: x res(2) wrong_guesses_def)
qed (simp add: wrong_guesses_def)

end

interpretation list_pin: pin_table list_lru_ops "list_lru_invar (Suc n)" "Suc n" for n
  by unfold_locales

text \<open>
  A request passes the PIN check exactly when no PIN is configured, or fewer than three
  failures are on record for its address and it carries the configured PIN; a blocked
  address is refused with 429 whatever it sends, and a request without a PIN is refused
  with 401 and leaves the record of every address as it was.
\<close>

theorem check_pin_decision:
  "(fst (check_pin L required c q ip) = Inr () \<longleftrightarrow>
      (case required of None \<Rightarrow> True
       | Some pin \<Rightarrow> recorded L c ip < 3 \<and> q (lit ''pin'') = Some pin)) \<and>
   (fst (check_pin L (Some pin) c q ip) = Inl (MessageError 429 (lit ''Too many requests'')) \<longleftrightarrow>
      3 \<le> recorded L c ip) \<and>
   (q (lit ''pin'') = None \<longrightarrow> snd (check_pin L required c q ip) \<in> {c, snd (lru_get L c ip)})"
proof -
  have some: "fst (check_pin L (Some p) c q ip) = Inr () \<longleftrightarrow>
      recorded L c ip < 3 \<and> q (lit ''pin'') = Some p" for p
  proof -
    obtain r c' where run: "check_pin L (Some p) c q ip = (r, c')" by fastforce
    then have "r = Inr () \<longleftrightarrow> recorded L c ip < 3 \<and> q (lit ''pin'') = Some p"
      by (cases rule: check_pin_cases) (auto simp: MAX_PIN_ATTEMPTS_def)
    with run show ?thesis by simp
  qed
  obtain r c' where run: "check_pin L (Some pin) c q ip = (r, c')" by fastforce
  then have "r = Inl (MessageError 429 (lit ''Too many requests'')) \<longleftrightarrow> 3 \<le> recorded L c ip"
    by (cases rule: check_pin_cases) (auto simp: MAX_PIN_ATTEMPTS_def)
  with run have blocked: "fst (check_pin L (Some pin) c q ip) =
      Inl (MessageError 429 (lit ''Too many requests'')) \<longleftrightarrow> 3 \<le> recorded L c ip"
    by simp
  have "snd (check_pin L required c q ip) \<in> {c, snd (lru_get L c ip)}" if "q (lit ''pin'') = None"
    using that by (auto simp: check_pin_def Let_def split: option.splits prod.splits)
  with some blocked show ?thesis
    by (cases required) (simp_all add: check_pin_def)
qed

definition demo_ip :: "nat \<Rightarrow> ip_addr" where
  "demo_ip n = IpV4 (of_nat n)"

definition demo_guess :: "rstring \<Rightarrow> query" where
  "demo_guess pin = [lit ''pin'' \<mapsto> pin]"

theorem check_pin_decision_witness:
  "snd (check_pin list_lru_ops (Some (lit ''1'')) (1, []) Map.empty (demo_ip 7)) = (1, [])"
  using check_pin_decision [of list_lru_ops "Some (lit ''1'')" "(1, [])" Map.empty "demo_ip 7"]
  by (simp add: list_lru_simps)

text \<open>
  C29. As long as the requests come from no more addresses than the table holds (200 in
  the server), an address that never sends the right PIN gets at most three guesses
  answered, however its requests interleave with those of other clients.
\<close>

theorem pin_guessing_bounded:
  assumes "pin_table L invar cap" and "card (fst ` set rs) \<le> cap"
    and "\<forall>(a, q) \<in> set rs. a = ip \<longrightarrow> q (lit ''pin'') \<noteq> Some pin"
  shows "wrong_guesses ip rs (fst (pin_run L (Some pin) (lru_new L cap) rs)) \<le> 3"
proof -
  from assms(1) have cache: "lru_cache L invar cap" by (simp add: pin_table_def)
  have empty: "lru_lookup L (lru_new L cap) = Map.empty"
    using lru_cache.new_lookup [OF cache] by auto
  obtain res c' where run: "pin_run L (Some pin) (lru_new L cap) rs = (res, c')" by fastforce
  have "recorded L c' ip \<le> 3 \<and>
      unat (recorded L c' ip) = unat (recorded L (lru_new L cap) ip) + wrong_guesses ip rs res"
    using pin_table.run_bound [OF assms(1) lru_cache.new_invar [OF cache] _ _ assms(3) run] assms(2)
    by (simp add: recorded_def empty)
  then show ?thesis
    by (simp add: run recorded_def empty word_le_nat_alt)
qed

theorem pin_guessing_bounded_witness:
  "wrong_guesses (demo_ip 7) (replicate 5 (demo_ip 7, demo_guess (lit ''0000'')))
     (fst (pin_run list_lru_ops (Some (lit ''1234'')) (lru_new list_lru_ops 200)
        (replicate 5 (demo_ip 7, demo_guess (lit ''0000''))))) \<le> 3"
proof -
  have "pin_table list_lru_ops (list_lru_invar 200) 200"
    using list_pin.pin_table_axioms [of 199] by simp
  then show ?thesis
    by (rule pin_guessing_bounded) (auto simp: demo_guess_def lit_def)
qed

end
