(* ===== verification/FB_Save.thy ===== *)
theory FB_Save
  imports FB_Http
begin

text \<open>
  Receiving the body of an upload (\<^verbatim>\<open>packages/core/src/http/server/common/save.rs\<close>):
  forwarding the request body to the application or to a file writer, the size check, the
  checksum, and what the application is told. The operating system's answers are the
  fields of \<open>fs_env\<close>; the digest is the parameter \<open>sha\<close>. When a file operation fails
  the content left on disk is not described.
\<close>

section \<open>Targets and results\<close>

record file_timestamps =
  ft_modified :: "system_time option"
  ft_accessed :: "system_time option"

definition timestamps_is_empty :: "file_timestamps \<Rightarrow> bool" where
  "timestamps_is_empty ts \<longleftrightarrow> ft_modified ts = None \<and> ft_accessed ts = None"

definition default_timestamps :: file_timestamps where
  "default_timestamps = \<lparr>ft_modified = None, ft_accessed = None\<rparr>"

datatype save_result = SaveSuccess | SaveFailed | SaveHashMismatch

text \<open>
  The answers of the file system: the opened file's previous content or an error text
  (\<^verbatim>\<open>File::create\<close> yields an empty file, a descriptor may point at an old one), the
  error of the k-th write, of the flush, and whether the best-effort truncation and
  timestamps work.
\<close>

record fs_env =
  fs_open :: "(byte list, rstring) result"
  fs_write :: "nat \<Rightarrow> rstring option"
  fs_flush :: "rstring option"
  fs_set_len :: bool
  fs_set_times :: bool

record saved_file =
  sv_content :: "byte list"
  sv_times :: "file_timestamps option"
  sv_progress :: "u64 list"

text \<open>
  For a stream target the application reports its own result, or drops the channel.
\<close>

datatype file_upload_target =
    TargetStream "(unit, rstring) result option"
  | TargetPath fs_env
  | TargetFd fs_env

section \<open>The file writer\<close>

fun write_loop ::
  "fs_env \<Rightarrow> u64 \<Rightarrow> nat \<Rightarrow> u64 \<Rightarrow> byte list \<Rightarrow> u64 list \<Rightarrow> byte list list \<Rightarrow>
     (u64 \<times> byte list \<times> u64 list, rstring) result"
where
  "write_loop env expected k written data progress [] = Inr (written, data, progress)"
| "write_loop env expected k written data progress (chunk # chunks) =
     (let written' = written + of_nat (length chunk)
      in if expected < written'
         then Inl (lit ''Expected '' @ show_nat (unat expected) @ lit '' bytes, received at least '' @
                   show_nat (unat written'))
         else case fs_write env k of
             Some e \<Rightarrow> Inl (lit ''Failed to write file: '' @ e)
           | None \<Rightarrow> write_loop env expected (Suc k) written' (data @ chunk) (progress @ [written']) chunks)"

definition resize :: "nat \<Rightarrow> byte list \<Rightarrow> byte list" where
  "resize n xs = take n xs @ replicate (n - length xs) 0"

definition write_file_from_receiver ::
  "fs_env \<Rightarrow> u64 \<Rightarrow> byte list list \<Rightarrow> file_timestamps \<Rightarrow> (saved_file, rstring) result"
where
  "write_file_from_receiver env expected chunks ts =
     and_then (fs_open env) (\<lambda>old.
     and_then (write_loop env expected 0 0 [] [] chunks) (\<lambda>(written, data, progress).
     and_then (case fs_flush env of
                 None \<Rightarrow> Inr ()
               | Some e \<Rightarrow> Inl (lit ''Failed to flush file: '' @ e)) (\<lambda>_.
     and_then (ensure (written = expected)
                 (lit ''Expected '' @ show_nat (unat expected) @ lit '' bytes, received '' @
                  show_nat (unat written))) (\<lambda>_.
     let raw = data @ drop (length data) old
     in Inr \<lparr>sv_content = (if fs_set_len env then resize (unat written) raw else raw),
            sv_times = (if \<not> timestamps_is_empty ts \<and> fs_set_times env then Some ts else None),
            sv_progress = progress\<rparr>))))"

section \<open>Forwarding the body\<close>

text \<open>
  The forwarding loop: whether it ended in a stream error, the chunks handed to the
  receiver, and the bytes fed to the hasher. \<open>send_ok k\<close> is the outcome of the k-th send.
\<close>

fun forward_body ::
  "(nat \<Rightarrow> bool) \<Rightarrow> nat \<Rightarrow> byte list list \<Rightarrow> byte list \<Rightarrow> frame list \<Rightarrow>
     bool \<times> byte list list \<times> byte list"
where
  "forward_body send_ok k sent hashed [] = (False, sent, hashed)"
| "forward_body send_ok k sent hashed (FrameError # fs) = (True, sent, hashed)"
| "forward_body send_ok k sent hashed (OtherFrame # fs) = forward_body send_ok k sent hashed fs"
| "forward_body send_ok k sent hashed (DataFrame data # fs) =
     (if data = [] then forward_body send_ok k sent hashed fs
      else if send_ok k then forward_body send_ok (Suc k) (sent @ [data]) (hashed @ data) fs
      else (True, sent, hashed @ data))"

definition target_result ::
  "file_upload_target \<Rightarrow> u64 \<Rightarrow> byte list list \<Rightarrow> file_timestamps \<Rightarrow>
     (unit, rstring) result option \<times> saved_file option"
where
  "target_result target file_size chunks ts =
     (let writer = (\<lambda>env. case write_file_from_receiver env file_size chunks ts of
          Inl e \<Rightarrow> (Some (Inl e), None)
        | Inr f \<Rightarrow> (Some (Inr ()), Some f))
      in case target of
          TargetStream reported \<Rightarrow> (reported, None)
        | TargetPath env \<Rightarrow> writer env
        | TargetFd env \<Rightarrow> writer env)"

definition has_app_result :: "file_upload_target \<Rightarrow> bool" where
  "has_app_result target = (case target of TargetStream _ \<Rightarrow> False | _ \<Rightarrow> True)"

definition save_outcome ::
  "(byte list \<Rightarrow> byte list) \<Rightarrow> bool \<Rightarrow> bool \<Rightarrow> (unit, rstring) result option \<Rightarrow> byte list \<Rightarrow>
     rstring option \<Rightarrow> save_result \<times> rstring option"
where
  "save_outcome sha stream_error has_tx result_rx hashed expected_sha256 =
     (if stream_error
      then (SaveFailed, Some (case result_rx of
              Some (Inl e) \<Rightarrow> if has_tx then e else lit ''Upload aborted''
            | _ \<Rightarrow> lit ''Upload aborted''))
      else case result_rx of
          Some (Inr _) \<Rightarrow>
            (case expected_sha256 of
               Some expected \<Rightarrow>
                 if \<not> eq_ignore_ascii_case (to_hex (sha hashed)) expected
                 then (SaveHashMismatch, Some (lit ''Checksum mismatch''))
                 else (SaveSuccess, None)
             | None \<Rightarrow> (SaveSuccess, None))
        | Some (Inl e) \<Rightarrow> (SaveFailed, Some e)
        | None \<Rightarrow> (SaveFailed, Some (lit ''Upload aborted'')))"

text \<open>
  The result for the request, what the application is told (path and descriptor targets
  only), and the written file.
\<close>

definition save_req_to_target ::
  "(byte list \<Rightarrow> byte list) \<Rightarrow> (nat \<Rightarrow> bool) \<Rightarrow> frame list \<Rightarrow> file_upload_target \<Rightarrow> u64 \<Rightarrow>
     rstring option \<Rightarrow> file_timestamps \<Rightarrow>
     save_result \<times> (unit, rstring) result option \<times> saved_file option"
where
  "save_req_to_target sha send_ok body target file_size expected_sha256 ts =
     (let (stream_error, chunks, hashed) = forward_body send_ok 0 [] [] body;
          (result_rx, saved) = target_result target file_size chunks ts;
          (result, err) =
            save_outcome sha stream_error (has_app_result target) result_rx hashed expected_sha256
      in (result,
          (if has_app_result target
           then Some (case err of None \<Rightarrow> Inr () | Some e \<Rightarrow> Inl e) else None),
          saved))"

text \<open>The bytes of a body.\<close>

fun body_data :: "frame list \<Rightarrow> byte list" where
  "body_data [] = []"
| "body_data (DataFrame d # fs) = d @ body_data fs"
| "body_data (_ # fs) = body_data fs"

definition fs_works :: "fs_env \<Rightarrow> bool" where
  "fs_works env \<longleftrightarrow> is_ok (fs_open env) \<and> (\<forall>k. fs_write env k = None) \<and> fs_flush env = None"

section \<open>Lemmas\<close>

lemma forward_body_ok:
  "forward_body send_ok k sent hashed body = (False, chunks, hashed') \<Longrightarrow>
     FrameError \<notin> set body \<and> concat chunks = concat sent @ body_data body \<and>
     hashed' = hashed @ body_data body"
  by (induction send_ok k sent hashed body rule: forward_body.induct) (auto split: if_splits)

lemma forward_body_no_error:
  "FrameError \<notin> set body \<Longrightarrow> \<forall>k. send_ok k \<Longrightarrow>
     \<exists>chunks. forward_body send_ok k sent hashed body =
       (False, sent @ chunks, hashed @ body_data body) \<and> concat chunks = body_data body"
proof (induction send_ok k sent hashed body rule: forward_body.induct)
  case (4 send_ok k sent hashed data fs)
  show ?case
  proof (cases "data = []")
    case True
    with 4 show ?thesis by simp
  next
    case False
    obtain chunks where "forward_body send_ok (Suc k) (sent @ [data]) (hashed @ data) fs =
        (False, (sent @ [data]) @ chunks, (hashed @ data) @ body_data fs)" "concat chunks = body_data fs"
      using "4.IH"(2) [OF False _ _ "4.prems"(2)] "4.prems" by (metis list.set_intros(2))
    moreover have "send_ok k" using "4.prems"(2) by blast
    ultimately show ?thesis using False by (intro exI [of _ "data # chunks"]) simp
  qed
qed auto

lemma write_loop_data:
  "write_loop env expected k written data progress chunks = Inr (w, d, p) \<Longrightarrow>
     d = data @ concat chunks \<and> w = written + of_nat (length (concat chunks))"
  by (induction env expected k written data progress chunks rule: write_loop.induct)
    (auto simp: Let_def split: if_splits option.splits)

lemma write_loop_succeeds:
  assumes "\<forall>k. fs_write env k = None" "unat written + length (concat chunks) \<le> unat expected"
  shows "\<exists>p. write_loop env expected k written data progress chunks =
    Inr (written + of_nat (length (concat chunks)), data @ concat chunks, p)"
  using assms(2)
proof (induction chunks arbitrary: k written data progress)
  case (Cons c cs)
  let ?w = "written + of_nat (length c)"
  have small: "unat written + length c < 2 ^ 64"
    using Cons.prems unsigned_less [of expected, where ?'a = nat] by simp
  then have w: "unat ?w = unat written + length c"
    by (simp add: unat_word_ariths unat_of_nat)
  with Cons.prems have "\<not> expected < ?w" "unat ?w + length (concat cs) \<le> unat expected"
    by (simp_all add: word_less_nat_alt)
  then show ?case
    using Cons.IH [of ?w "Suc k" "data @ c" "progress @ [?w]"] assms(1)
    by (simp add: Let_def ac_simps)
qed simp

lemma unat_of_nat_u64: "n < 2 ^ 64 \<Longrightarrow> unat (of_nat n :: u64) = n"
  by (simp add: unat_of_nat)

lemma resize_exact: "resize (length data) (data @ rest) = data"
  by (simp add: resize_def)

lemma write_file_ok:
  assumes "write_file_from_receiver env expected chunks ts = Inr f" "length (concat chunks) < 2 ^ 64"
  shows "\<exists>old. fs_open env = Inr old \<and> length (concat chunks) = unat expected \<and>
    sv_content f = (if fs_set_len env then concat chunks
                    else concat chunks @ drop (length (concat chunks)) old)"
proof -
  from assms(1) obtain old w d p where o: "fs_open env = Inr old"
      "write_loop env expected 0 0 [] [] chunks = Inr (w, d, p)" "w = expected"
      "sv_content f = (if fs_set_len env then resize (unat w) (d @ drop (length d) old)
                       else d @ drop (length d) old)"
    by (auto simp: write_file_from_receiver_def res_simps Let_def split: prod.splits option.splits)
  then have d: "d = concat chunks" "w = of_nat (length (concat chunks))"
    using write_loop_data by fastforce+
  with assms(2) have "unat w = length (concat chunks)" by (simp only: unat_of_nat_u64)
  with o d(1) show ?thesis by (auto simp: resize_exact)
qed

lemma write_file_succeeds:
  assumes "fs_works env" "length (concat chunks) = unat expected"
  shows "\<exists>f. write_file_from_receiver env expected chunks ts = Inr f"
proof -
  obtain p where "write_loop env expected 0 0 [] [] chunks =
      Inr (of_nat (length (concat chunks)), concat chunks, p)"
    using write_loop_succeeds [of env 0 chunks expected 0 "[]" "[]"] assms
    by (auto simp: fs_works_def)
  moreover have "of_nat (length (concat chunks)) = expected"
    using assms(2) by simp
  ultimately show ?thesis
    using assms(1)
    by (auto simp: fs_works_def write_file_from_receiver_def is_ok_def ensure_def Let_def split: sum.splits)
qed

lemma save_success:
  assumes "save_req_to_target sha send_ok body target file_size expected ts = (SaveSuccess, app, saved)"
  obtains chunks where "forward_body send_ok 0 [] [] body = (False, chunks, body_data body)"
    "concat chunks = body_data body" "FrameError \<notin> set body"
    "target_result target file_size chunks ts = (Some (Inr ()), saved)"
    "app = (if has_app_result target then Some (Inr ()) else None)"
    "\<And>e. expected = Some e \<Longrightarrow> eq_ignore_ascii_case (to_hex (sha (body_data body))) e"
proof -
  obtain err chunks hashed where fwd: "forward_body send_ok 0 [] [] body = (err, chunks, hashed)"
    by (cases "forward_body send_ok 0 [] [] body")
  obtain rx sv where rx: "target_result target file_size chunks ts = (rx, sv)" by fastforce
  obtain res er where so: "save_outcome sha err (has_app_result target) rx hashed expected = (res, er)" by fastforce
  from assms have out: "res = SaveSuccess" "saved = sv"
      "app = (if has_app_result target then Some (case er of None \<Rightarrow> Inr () | Some e \<Rightarrow> Inl e) else None)"
    by (simp_all add: save_req_to_target_def fwd rx so)
  from so out(1) have ok: "\<not> err" "rx = Some (Inr ())" "er = None"
      "\<And>e. expected = Some e \<Longrightarrow> eq_ignore_ascii_case (to_hex (sha hashed)) e"
    by (auto simp: save_outcome_def split: if_splits option.splits sum.splits)
  from fwd ok(1) have "FrameError \<notin> set body \<and> concat chunks = body_data body \<and> hashed = body_data body"
    using forward_body_ok [of send_ok 0 "[]" "[]" body chunks hashed] by simp
  with fwd rx ok out show thesis using that [of chunks] by simp
qed

text \<open>
  What a file writer leaves on disk: the bytes, followed by the end of a longer old file if it
  could not be truncated.
\<close>

definition written_to :: "fs_env \<Rightarrow> byte list \<Rightarrow> saved_file option \<Rightarrow> bool" where
  "written_to env data saved \<longleftrightarrow>
     (\<exists>old f. fs_open env = Inr old \<and> saved = Some f \<and>
        sv_content f = data @ (if fs_set_len env then [] else drop (length data) old))"

lemma writer_success:
  assumes "target_result target file_size chunks ts = (Some (Inr ()), saved)" "target = TargetPath env \<or> target = TargetFd env"
    and "length (concat chunks) < 2 ^ 64"
  shows "written_to env (concat chunks) saved \<and> length (concat chunks) = unat file_size"
proof -
  obtain f where f: "write_file_from_receiver env file_size chunks ts = Inr f" "saved = Some f"
    using assms(1,2) by (auto simp: target_result_def Let_def split: sum.splits)
  with write_file_ok [OF f(1) assms(3)] show ?thesis by (auto simp: written_to_def)
qed

text \<open>
  C17. When a save succeeds, the body ended without a read error and a requested checksum matches
  its bytes. A path or descriptor target then holds exactly these bytes, as many as the sender
  announced, with the end of a longer old file behind them only if it could not be truncated,
  and the application was told of the success. A stream target was handed exactly these
  bytes in order and the application reported success; how many there are is not compared
  with the announced size. The counter of the writer is 64 bits wide.
\<close>

theorem saved_file_is_the_body:
  assumes "save_req_to_target sha send_ok body target file_size expected ts = (SaveSuccess, app, saved)"
    and "length (body_data body) < 2 ^ 64"
  shows "FrameError \<notin> set body \<and>
    (case expected of None \<Rightarrow> True | Some e \<Rightarrow> eq_ignore_ascii_case (sha256_hex sha (body_data body)) e) \<and>
    (case target of
       TargetStream reported \<Rightarrow> reported = Some (Inr ()) \<and> app = None \<and> saved = None \<and>
         (\<exists>chunks hashed. forward_body send_ok 0 [] [] body = (False, chunks, hashed) \<and> concat chunks = body_data body)
     | TargetPath env \<Rightarrow> written_to env (body_data body) saved \<and> length (body_data body) = unat file_size \<and> app = Some (Inr ())
     | TargetFd env \<Rightarrow> written_to env (body_data body) saved \<and> length (body_data body) = unat file_size \<and> app = Some (Inr ()))"
proof -
  obtain chunks where s: "forward_body send_ok 0 [] [] body = (False, chunks, body_data body)"
      "concat chunks = body_data body" "FrameError \<notin> set body"
      "target_result target file_size chunks ts = (Some (Inr ()), saved)"
      "app = (if has_app_result target then Some (Inr ()) else None)"
      "\<And>e. expected = Some e \<Longrightarrow> eq_ignore_ascii_case (to_hex (sha (body_data body))) e"
    using assms(1) by (rule save_success) blast
  have "reported = Some (Inr ()) \<and> saved = None" if "target = TargetStream reported" for reported
    using s(4) that by (simp add: target_result_def Let_def)
  with s writer_success [OF s(4)] assms(2) show ?thesis
    by (auto simp: sha256_hex_def has_app_result_def split: file_upload_target.split option.split)
qed

definition demo_fs :: fs_env where
  "demo_fs = \<lparr>fs_open = Inr [], fs_write = (\<lambda>_. None), fs_flush = None, fs_set_len = True,
     fs_set_times = True\<rparr>"

definition demo_old_fs :: fs_env where
  "demo_old_fs = \<lparr>fs_open = Inr [1, 2, 3], fs_write = (\<lambda>_. None), fs_flush = None, fs_set_len = False,
     fs_set_times = True\<rparr>"

theorem saved_file_is_the_body_witness:
  "\<exists>app saved. save_req_to_target (\<lambda>bs. bs) (\<lambda>_. True) [DataFrame [171], OtherFrame, DataFrame [205]]
     (TargetFd demo_old_fs) 2 (Some (lit ''ABcd'')) default_timestamps = (SaveSuccess, app, saved) \<and>
     map_option sv_content saved = Some [171, 205, 3]"
proof -
  obtain app saved where run: "save_req_to_target (\<lambda>bs. bs) (\<lambda>_. True)
      [DataFrame [171], OtherFrame, DataFrame [205]]
      (TargetFd demo_old_fs) 2 (Some (lit ''ABcd'')) default_timestamps = (SaveSuccess, app, saved)"
    by (simp add: save_req_to_target_def target_result_def write_file_from_receiver_def demo_old_fs_def
        Let_def ensure_def has_app_result_def save_outcome_def to_hex_def hex_lower_def lit_def
        eq_ignore_ascii_case_def ascii_lower_def)
  from saved_file_is_the_body [OF run] have "map_option sv_content saved = Some [171, 205, 3]"
    by (auto simp: demo_old_fs_def written_to_def)
  with run show ?thesis by blast
qed

lemma save_verdict:
  assumes "fs_works env" "\<forall>k. send_ok k" "FrameError \<notin> set body" "length (body_data body) < 2 ^ 64"
  shows "fst (save_req_to_target sha send_ok body (TargetPath env) file_size expected ts) =
    (if length (body_data body) \<noteq> unat file_size then SaveFailed
     else case expected of
         Some e \<Rightarrow> if eq_ignore_ascii_case (sha256_hex sha (body_data body)) e then SaveSuccess
                   else SaveHashMismatch
       | None \<Rightarrow> SaveSuccess)"
proof -
  obtain chunks where fwd: "forward_body send_ok 0 [] [] body = (False, chunks, body_data body)"
      "concat chunks = body_data body"
    using forward_body_no_error [OF assms(3,2), of 0 "[]" "[]"] by auto
  show ?thesis
  proof (cases "length (body_data body) = unat file_size")
    case True
    with write_file_succeeds [OF assms(1), of chunks file_size ts] fwd(2)
    obtain f where "write_file_from_receiver env file_size chunks ts = Inr f" by auto
    with True fwd(1) show ?thesis
      by (simp add: save_req_to_target_def target_result_def save_outcome_def sha256_hex_def
          split: option.splits)
  next
    case False
    with write_file_ok [of env file_size chunks ts] assms(4) fwd(2)
    obtain e where "write_file_from_receiver env file_size chunks ts = Inl e"
      by (cases "write_file_from_receiver env file_size chunks ts") auto
    with False fwd(1) show ?thesis
      by (simp add: save_req_to_target_def target_result_def save_outcome_def)
  qed
qed

text \<open>
  With a working file system, a body that is read to its end is saved successfully
  exactly when it has the announced size and, if a checksum is requested, the right
  digest; a wrong digest is reported as such, so that the sender may retry, and every
  other size is a failure.
\<close>

theorem save_complete:
  assumes "fs_works env" "\<forall>k. send_ok k" "FrameError \<notin> set body" "length (body_data body) < 2 ^ 64"
  shows "fst (save_req_to_target sha send_ok body (TargetPath env) file_size expected ts) =
    (if length (body_data body) \<noteq> unat file_size then SaveFailed
     else case expected of
         Some e \<Rightarrow> if eq_ignore_ascii_case (sha256_hex sha (body_data body)) e then SaveSuccess
                   else SaveHashMismatch
       | None \<Rightarrow> SaveSuccess)"
  using assms by (rule save_verdict)

theorem save_complete_witness:
  "fst (save_req_to_target (\<lambda>bs. bs) (\<lambda>_. True) [DataFrame [1, 2]] (TargetPath demo_fs) 3 None
     default_timestamps) = SaveFailed"
  using save_complete [of demo_fs "\<lambda>_. True" "[DataFrame [1, 2]]" "\<lambda>bs. bs" 3 None default_timestamps]
  by (simp add: demo_fs_def fs_works_def is_ok_def)

end
