(* ===== verification/FB_Upload.thy ===== *)
theory FB_Upload
  imports FB_Pin FB_Save
begin

text \<open>
  The protocol-v2 upload endpoints (\<^verbatim>\<open>packages/core/src/http/server/v2.rs\<close>, the session
  slot of \<^verbatim>\<open>common/session.rs\<close> and \<^verbatim>\<open>ServerHandle::cancel_v2_session\<close> of
  \<^verbatim>\<open>server/mod.rs\<close>). A handler is split where it awaits the application: the part before
  (\<open>\<dots>_begin\<close>) validates the request and takes the lock once, the part after
  (\<open>\<dots>_resume\<close>) acts on the outcome, including the drop of the request future, whose guard
  spawns a cleanup task. \<open>prepare_upload\<close> and \<open>upload\<close> compose the two parts for a request
  that runs alone; interleavings are the subject of \<open>FB_Upload_Steps\<close>.
\<close>

section \<open>Session slot\<close>

datatype file_status_v2 = Pending | InProgress | Finished | Failed

record session_file_v2 =
  sf_dto :: file_dto
  sf_token :: rstring
  sf_status :: file_status_v2
  sf_attempts :: u8

record pending_session_v2 =
  ps_session_id :: rstring
  ps_sender_ip :: peer_ip
  ps_cancelled :: bool

record upload_session_v2 =
  us_session_id :: rstring
  us_sender_ip :: peer_ip
  us_files :: "(rstring, session_file_v2) hash_map"

datatype session_state_v2 = PendingSession pending_session_v2 | ActiveSession upload_session_v2

definition is_final :: "file_status_v2 \<Rightarrow> bool" where
  "is_final s \<longleftrightarrow> s = Finished \<or> s = Failed"

definition is_complete :: "upload_session_v2 \<Rightarrow> bool" where
  "is_complete s \<longleftrightarrow> (\<forall>(fid, file) \<in> set (us_files s). is_final (sf_status file))"

text \<open>Mutating the value of a key through \<^verbatim>\<open>get_mut\<close>.\<close>

definition modify_entry :: "'k \<Rightarrow> ('v \<Rightarrow> 'v) \<Rightarrow> ('k, 'v) hash_map \<Rightarrow> ('k, 'v) hash_map" where
  "modify_entry k f m = map (\<lambda>(j, v). if j = k then (j, f v) else (j, v)) m"

record 'c v2_state =
  v2_pin :: "rstring option"
  v2_verify_checksums :: bool
  v2_session :: "session_state_v2 option"
  v2_pin_attempts :: 'c

section \<open>Events\<close>

datatype session_end_reason_v2 = EndFinished | EndCancelled

datatype server_event_v2 =
    EvRegister peer_ip register_dto_v2
  | EvPrepareUpload rstring peer_ip register_dto_v2 "rstring option" "(rstring, file_dto) hash_map"
  | EvFileUpload rstring rstring file_dto
  | EvSessionEnd rstring session_end_reason_v2
  | EvPrepareUploadAborted rstring
  | EvCancelReceived peer_ip rstring

datatype prepare_upload_decision_v2 = Accept "rstring list" | Decline

section \<open>Register and info\<close>

definition own_register_response :: "device_info \<Rightarrow> bool \<Rightarrow> register_response_dto_v2" where
  "own_register_response info download =
     \<lparr>rr2_alias = di_alias info, rr2_version = PROTOCOL_VERSION_V2,
      rr2_device_model = di_device_model info, rr2_device_type = di_device_type info,
      rr2_fingerprint = di_token info, rr2_download = download\<rparr>"

text \<open>\<open>queue_has_room\<close> is the outcome of \<^verbatim>\<open>try_send\<close>; a full queue drops the event.\<close>

definition register ::
  "ext \<Rightarrow> (byte list \<Rightarrow> register_dto_v2 option) \<Rightarrow> bool \<Rightarrow> bool \<Rightarrow> device_info \<Rightarrow> bool \<Rightarrow> frame list \<Rightarrow>
     request_client_info \<Rightarrow> (response, app_error) result \<times> server_event_v2 list"
where
  "register X decode queue_has_room v2_enabled info web_enabled body ci =
     (case collect_to_json decode body of
        Inl e \<Rightarrow> (Inl e, [])
      | Inr payload \<Rightarrow>
          let fingerprint_valid = (case cert_fingerprint X ci of
                  Some cert_fp \<Rightarrow> to_ascii_uppercase (r2_fingerprint payload) = cert_fp
                | None \<Rightarrow> True)
          in (Inr (json_into_response 200 (RegisterBody (own_register_response info web_enabled))),
              if v2_enabled \<and> fingerprint_valid \<and> queue_has_room
              then [EvRegister (ci_ip ci) payload] else []))"

definition info_v2 :: "device_info \<Rightarrow> bool \<Rightarrow> (response, app_error) result" where
  "info_v2 info web_enabled =
     Inr (json_into_response 200 (InfoBody
       \<lparr>i2_alias = di_alias info, i2_version = PROTOCOL_VERSION_V2,
        i2_device_model = di_device_model info, i2_device_type = di_device_type info,
        i2_fingerprint = di_token info, i2_download = web_enabled\<rparr>))"

section \<open>Preparing an upload\<close>

definition clear_pending_session :: "'c v2_state \<Rightarrow> 'c v2_state" where
  "clear_pending_session st =
     (case v2_session st of
        Some (PendingSession p) \<Rightarrow> st\<lparr>v2_session := None\<rparr>
      | _ \<Rightarrow> st)"

record prepare_ctx =
  pc_session_id :: rstring
  pc_ip :: peer_ip
  pc_files :: "(rstring, file_dto) hash_map"

definition prepare_upload_payload ::
  "(byte list \<Rightarrow> prepare_upload_request_dto_v2 option) \<Rightarrow> frame list \<Rightarrow>
     (prepare_upload_request_dto_v2, app_error) result"
where
  "prepare_upload_payload decode body =
     and_then (collect_to_json decode body) (\<lambda>payload.
     and_then (ensure (pu2_files payload \<noteq> []) (BadRequest (lit ''No files provided''))) (\<lambda>_.
     Inr payload))"

text \<open>Claiming the single session slot, under its lock.\<close>

definition claim_slot :: "rstring \<Rightarrow> peer_ip \<Rightarrow> 'c v2_state \<Rightarrow> ('c v2_state, app_error) result" where
  "claim_slot session_id ip st =
     (if v2_session st \<noteq> None
      then Inl (MessageError 409 (lit ''Blocked by another session''))
      else Inr (st\<lparr>v2_session := Some (PendingSession
              \<lparr>ps_session_id = session_id, ps_sender_ip = ip, ps_cancelled = False\<rparr>)\<rparr>))"

definition prepare_upload_begin ::
  "ext \<Rightarrow> (ip_addr, u32, 'c) lru_ops \<Rightarrow> (byte list \<Rightarrow> prepare_upload_request_dto_v2 option) \<Rightarrow>
     'c v2_state \<Rightarrow> request \<Rightarrow> request_client_info \<Rightarrow> rstring \<Rightarrow>
     (prepare_ctx, app_error) result \<times> 'c v2_state \<times> server_event_v2 list"
where
  "prepare_upload_begin X L decode st req ci session_id =
     (let (pin, attempts) = check_pin L (v2_pin st) (v2_pin_attempts st)
              (parse_query X (rq_query req)) (pip_ip (ci_ip ci));
          st = st\<lparr>v2_pin_attempts := attempts\<rparr>
      in case and_then pin (\<lambda>_. prepare_upload_payload decode (rq_body req)) of
          Inl e \<Rightarrow> (Inl e, st, [])
        | Inr payload \<Rightarrow>
            (case claim_slot session_id (ci_ip ci) st of
               Inl e \<Rightarrow> (Inl e, st, [])
             | Inr st' \<Rightarrow>
                 (Inr \<lparr>pc_session_id = session_id, pc_ip = ci_ip ci, pc_files = pu2_files payload\<rparr>,
                  st',
                  [EvPrepareUpload session_id (ci_ip ci) (pu2_info payload) (cert_fingerprint X ci)
                     (pu2_files payload)])))"

text \<open>
  How the wait ends: the event channel is closed, the application drops the decision
  channel or decides, the sender cancels, or the request future is dropped. The guard
  disarms itself before it waits for the slot's lock in \<^verbatim>\<open>clear\<close>, so a future
  that is dropped during that wait (\<open>ClearAborted\<close>) leaves no cleanup behind.
\<close>

datatype prepare_outcome =
    EventChannelClosed
  | DecisionDropped
  | SenderCancelled
  | RequestAborted
  | ClearAborted
  | Decided prepare_upload_decision_v2

text \<open>The tasks that an armed guard spawns when it is dropped.\<close>

datatype cleanup = ClearPending rstring | FailFile rstring rstring

definition accepted_files ::
  "(rstring \<Rightarrow> rstring) \<Rightarrow> (rstring, file_dto) hash_map \<Rightarrow> rstring list \<Rightarrow>
     (rstring, session_file_v2) hash_map"
where
  "accepted_files token files ids =
     map (\<lambda>(fid, dto). (fid, \<lparr>sf_dto = dto, sf_token = token fid, sf_status = Pending, sf_attempts = 0\<rparr>))
       (filter (\<lambda>(fid, dto). fid \<in> set ids) files)"

text \<open>\<open>token\<close> gives the fresh UUID of each accepted file.\<close>

definition prepare_upload_resume ::
  "prepare_ctx \<Rightarrow> (rstring \<Rightarrow> rstring) \<Rightarrow> prepare_outcome \<Rightarrow> 'c v2_state \<Rightarrow>
     (response, app_error) result option \<times> 'c v2_state \<times> cleanup list"
where
  "prepare_upload_resume ctx token outcome st =
     (let armed = [ClearPending (pc_session_id ctx)] in
      case outcome of
        EventChannelClosed \<Rightarrow> (Some (Inl (StatusError 500)), st, armed)
      | DecisionDropped \<Rightarrow> (Some (Inl (StatusError 500)), st, armed)
      | SenderCancelled \<Rightarrow> (Some (Inl (MessageError 403 (lit ''Cancelled by sender''))), st, armed)
      | RequestAborted \<Rightarrow> (None, st, armed)
      | ClearAborted \<Rightarrow> (None, st, [])
      | Decided Decline \<Rightarrow>
          (Some (Inl (MessageError 403 (lit ''Rejected''))), clear_pending_session st, [])
      | Decided (Accept ids) \<Rightarrow>
          let files = accepted_files token (pc_files ctx) ids
          in if files = [] then (Some (Inr (plain_response 204)), clear_pending_session st, [])
             else
               (Some (Inr (json_into_response 200 (PrepareUploadBody
                  \<lparr>pur2_session_id = pc_session_id ctx,
                   pur2_files = map (\<lambda>(fid, f). (fid, sf_token f)) files\<rparr>))),
                st\<lparr>v2_session := Some (ActiveSession
                   \<lparr>us_session_id = pc_session_id ctx, us_sender_ip = pc_ip ctx, us_files = files\<rparr>)\<rparr>,
                []))"

section \<open>Uploading a file\<close>

definition MAX_UPLOAD_ATTEMPTS :: u8 where
  "MAX_UPLOAD_ATTEMPTS = 3"

definition final_status :: "session_file_v2 \<Rightarrow> save_result \<Rightarrow> file_status_v2" where
  "final_status file result =
     (case result of
        SaveSuccess \<Rightarrow> Finished
      | SaveHashMismatch \<Rightarrow> if sf_attempts file < MAX_UPLOAD_ATTEMPTS then Pending else Failed
      | SaveFailed \<Rightarrow> Failed)"

definition settle_file :: "save_result \<Rightarrow> session_file_v2 \<Rightarrow> session_file_v2" where
  "settle_file result file =
     (if sf_status file = InProgress then file\<lparr>sf_status := final_status file result\<rparr> else file)"

definition finalize_file ::
  "'c v2_state \<Rightarrow> rstring \<Rightarrow> rstring \<Rightarrow> save_result \<Rightarrow> 'c v2_state \<times> server_event_v2 list"
where
  "finalize_file st session_id file_id result =
     (case v2_session st of
        Some (ActiveSession session) \<Rightarrow>
          if us_session_id session \<noteq> session_id then (st, [])
          else
            let session' = session\<lparr>us_files := modify_entry file_id (settle_file result) (us_files session)\<rparr>
            in if is_complete session'
               then (st\<lparr>v2_session := None\<rparr>, [EvSessionEnd session_id EndFinished])
               else (st\<lparr>v2_session := Some (ActiveSession session')\<rparr>, [])
      | _ \<Rightarrow> (st, []))"

definition invalid_token_error :: app_error where
  "invalid_token_error = MessageError 403 (lit ''Invalid token or IP address'')"

record upload_ctx =
  uc_session_id :: rstring
  uc_file_id :: rstring
  uc_dto :: file_dto

definition start_file :: "session_file_v2 \<Rightarrow> session_file_v2" where
  "start_file file =
     file\<lparr>sf_status := InProgress, sf_attempts := saturating_add_u8 (sf_attempts file) 1\<rparr>"

definition upload_begin ::
  "ext \<Rightarrow> 'c v2_state \<Rightarrow> request \<Rightarrow> request_client_info \<Rightarrow>
     (upload_ctx, app_error) result \<times> 'c v2_state \<times> server_event_v2 list"
where
  "upload_begin X st req ci =
     (let q = parse_query X (rq_query req) in
      case (q (lit ''sessionId''), q (lit ''fileId''), q (lit ''token'')) of
        (Some session_id, Some file_id, Some token) \<Rightarrow>
          (case v2_session st of
             Some (ActiveSession session) \<Rightarrow>
               if us_session_id session \<noteq> session_id \<or> us_sender_ip session \<noteq> ci_ip ci
               then (Inl invalid_token_error, st, [])
               else (case map_of (us_files session) file_id of
                   None \<Rightarrow> (Inl invalid_token_error, st, [])
                 | Some file \<Rightarrow>
                     if sf_token file \<noteq> token \<or> sf_status file \<noteq> Pending
                     then (Inl invalid_token_error, st, [])
                     else
                       (Inr \<lparr>uc_session_id = session_id, uc_file_id = file_id, uc_dto = sf_dto file\<rparr>,
                        st\<lparr>v2_session := Some (ActiveSession
                           (session\<lparr>us_files := modify_entry file_id start_file (us_files session)\<rparr>))\<rparr>,
                        [EvFileUpload session_id file_id (sf_dto file)]))
           | _ \<Rightarrow> (Inl invalid_token_error, st, []))
      | _ \<Rightarrow> (Inl (MessageError 400 (lit ''Missing parameters'')), st, []))"

text \<open>
  How an upload ends: the event channel is closed, the application drops the target
  channel, the request future is dropped, or the body is saved to the given target.
  \<open>FinishAborted\<close> is the drop of the future while \<^verbatim>\<open>finish\<close>, which disarms the guard
  first, waits for the slot's lock.
\<close>

datatype upload_outcome =
    UploadChannelClosed
  | TargetDropped
  | UploadAborted
  | FinishAborted
  | TargetGiven file_upload_target "nat \<Rightarrow> bool"

definition upload_timestamps :: "ext \<Rightarrow> file_dto \<Rightarrow> file_timestamps" where
  "upload_timestamps X dto =
     (case fd_metadata dto of
        Some m \<Rightarrow> \<lparr>ft_modified = modified_time (ext_rfc3339 X) m,
                   ft_accessed = accessed_time (ext_rfc3339 X) m\<rparr>
      | None \<Rightarrow> default_timestamps)"

definition upload_response :: "save_result \<Rightarrow> (response, app_error) result" where
  "upload_response result =
     (case result of
        SaveSuccess \<Rightarrow> Inr (plain_response 200)
      | SaveFailed \<Rightarrow> Inl (StatusError 500)
      | SaveHashMismatch \<Rightarrow> Inl (MessageError 422 (lit ''Checksum mismatch'')))"

definition upload_resume ::
  "ext \<Rightarrow> frame list \<Rightarrow> upload_ctx \<Rightarrow> upload_outcome \<Rightarrow> 'c v2_state \<Rightarrow>
     (response, app_error) result option \<times> 'c v2_state \<times> server_event_v2 list \<times> cleanup list"
where
  "upload_resume X body ctx outcome st =
     (let finish = finalize_file st (uc_session_id ctx) (uc_file_id ctx) in
      case outcome of
        UploadChannelClosed \<Rightarrow>
          let (st', evs) = finish SaveFailed in (Some (Inl (StatusError 500)), st', evs, [])
      | TargetDropped \<Rightarrow>
          let (st', evs) = finish SaveFailed in (Some (Inl (StatusError 500)), st', evs, [])
      | UploadAborted \<Rightarrow> (None, st, [], [FailFile (uc_session_id ctx) (uc_file_id ctx)])
      | FinishAborted \<Rightarrow> (None, st, [], [])
      | TargetGiven target send_ok \<Rightarrow>
          let expected_sha256 = (if v2_verify_checksums st then fd_sha256 (uc_dto ctx) else None);
              (result, app, saved) = save_req_to_target (ext_sha256 X) send_ok body target
                 (fd_size (uc_dto ctx)) expected_sha256 (upload_timestamps X (uc_dto ctx));
              (st', evs) = finish result
          in (Some (upload_response result), st', evs, []))"

section \<open>Cancelling\<close>

definition cancel_pending :: "'c v2_state \<Rightarrow> peer_ip \<Rightarrow> rstring option \<Rightarrow> 'c v2_state option" where
  "cancel_pending st ip session_id =
     (case v2_session st of
        Some (PendingSession p) \<Rightarrow>
          if ps_sender_ip p = ip \<and> (case session_id of None \<Rightarrow> True | Some i \<Rightarrow> i = ps_session_id p)
          then Some (st\<lparr>v2_session := Some (PendingSession (p\<lparr>ps_cancelled := True\<rparr>))\<rparr>)
          else None
      | _ \<Rightarrow> None)"

definition cancel_active ::
  "'c v2_state \<Rightarrow> peer_ip \<Rightarrow> rstring \<Rightarrow> 'c v2_state \<times> server_event_v2 list"
where
  "cancel_active st ip sid =
     (case v2_session st of
        Some (ActiveSession session) \<Rightarrow>
          if us_session_id session = sid \<and> us_sender_ip session = ip
          then (st\<lparr>v2_session := None\<rparr>, [EvSessionEnd sid EndCancelled])
          else (st, [EvCancelReceived ip sid])
      | _ \<Rightarrow> (st, [EvCancelReceived ip sid]))"

definition cancel ::
  "ext \<Rightarrow> 'c v2_state \<Rightarrow> request \<Rightarrow> request_client_info \<Rightarrow>
     (response, app_error) result \<times> 'c v2_state \<times> server_event_v2 list"
where
  "cancel X st req ci =
     (let session_id = parse_query X (rq_query req) (lit ''sessionId'') in
      case cancel_pending st (ci_ip ci) session_id of
        Some st' \<Rightarrow> (Inr (plain_response 200), st', [])
      | None \<Rightarrow>
          (case session_id of
             None \<Rightarrow> (Inr (plain_response 200), st, [])
           | Some sid \<Rightarrow>
               let (st', evs) = cancel_active st (ci_ip ci) sid
               in (Inr (plain_response 200), st', evs)))"

definition cancel_v2_session :: "'c v2_state \<Rightarrow> rstring \<Rightarrow> bool \<times> 'c v2_state" where
  "cancel_v2_session st session_id =
     (case v2_session st of
        Some (ActiveSession session) \<Rightarrow>
          if us_session_id session = session_id then (True, st\<lparr>v2_session := None\<rparr>) else (False, st)
      | _ \<Rightarrow> (False, st))"

section \<open>Cleanup tasks and whole handlers\<close>

fun run_cleanup :: "cleanup \<Rightarrow> 'c v2_state \<Rightarrow> 'c v2_state \<times> server_event_v2 list" where
  "run_cleanup (ClearPending sid) st = (clear_pending_session st, [EvPrepareUploadAborted sid])"
| "run_cleanup (FailFile sid fid) st = finalize_file st sid fid SaveFailed"

fun run_cleanups :: "cleanup list \<Rightarrow> 'c v2_state \<Rightarrow> 'c v2_state \<times> server_event_v2 list" where
  "run_cleanups [] st = (st, [])"
| "run_cleanups (c # cs) st =
     (let (st', evs) = run_cleanup c st; (st'', evs') = run_cleanups cs st' in (st'', evs @ evs'))"

definition prepare_upload ::
  "ext \<Rightarrow> (ip_addr, u32, 'c) lru_ops \<Rightarrow> (byte list \<Rightarrow> prepare_upload_request_dto_v2 option) \<Rightarrow>
     'c v2_state \<Rightarrow> request \<Rightarrow> request_client_info \<Rightarrow> rstring \<Rightarrow> (rstring \<Rightarrow> rstring) \<Rightarrow>
     prepare_outcome \<Rightarrow>
     (response, app_error) result option \<times> 'c v2_state \<times> server_event_v2 list"
where
  "prepare_upload X L decode st req ci session_id token outcome =
     (case prepare_upload_begin X L decode st req ci session_id of
        (Inl e, st', evs) \<Rightarrow> (Some (Inl e), st', evs)
      | (Inr ctx, st', evs) \<Rightarrow>
          let (res, st'', cleanups) = prepare_upload_resume ctx token outcome st';
              (st3, evs') = run_cleanups cleanups st''
          in (res, st3, evs @ evs'))"

definition upload ::
  "ext \<Rightarrow> 'c v2_state \<Rightarrow> request \<Rightarrow> request_client_info \<Rightarrow> upload_outcome \<Rightarrow>
     (response, app_error) result option \<times> 'c v2_state \<times> server_event_v2 list"
where
  "upload X st req ci outcome =
     (case upload_begin X st req ci of
        (Inl e, st', evs) \<Rightarrow> (Some (Inl e), st', evs)
      | (Inr ctx, st', evs) \<Rightarrow>
          let (res, st'', evs', cleanups) = upload_resume X (rq_body req) ctx outcome st';
              (st3, evs'') = run_cleanups cleanups st''
          in (res, st3, evs @ evs' @ evs''))"

text \<open>The address that holds the slot.\<close>

definition slot_holder :: "'c v2_state \<Rightarrow> peer_ip option" where
  "slot_holder st = map_option (\<lambda>s. case s of
     PendingSession p \<Rightarrow> ps_sender_ip p | ActiveSession s \<Rightarrow> us_sender_ip s) (v2_session st)"

section \<open>Lemmas\<close>

lemma map_of_modify_entry:
  "map_of (modify_entry k f m) j = (if j = k then map_option f (map_of m j) else map_of m j)"
  by (induction m) (auto simp: modify_entry_def)

lemma keys_modify_entry [simp]: "map fst (modify_entry k f m) = map fst m"
  by (auto simp: modify_entry_def)

lemma distinct_keys_modify_entry [simp]:
  "distinct (map fst (modify_entry k f m)) = distinct (map fst m)"
  by simp

lemma map_of_accepted_files:
  "distinct (map fst files) \<Longrightarrow> map_of (accepted_files token files ids) fid =
     (if fid \<in> set ids
      then map_option (\<lambda>dto. \<lparr>sf_dto = dto, sf_token = token fid, sf_status = Pending, sf_attempts = 0\<rparr>)
             (map_of files fid)
      else None)"
  by (induction files) (auto simp: accepted_files_def)

lemma is_complete_map_of:
  "distinct (map fst (us_files s)) \<Longrightarrow>
     is_complete s \<longleftrightarrow> (\<forall>fid file. map_of (us_files s) fid = Some file \<longrightarrow> is_final (sf_status file))"
  by (fastforce simp: is_complete_def)

lemma upload_begin_ok:
  assumes "upload_begin X st req ci = (Inr ctx, st', evs)"
  obtains session sfile where
    "v2_session st = Some (ActiveSession session)"
    "parse_query X (rq_query req) (lit ''sessionId'') = Some (us_session_id session)"
    "us_sender_ip session = ci_ip ci"
    "parse_query X (rq_query req) (lit ''fileId'') = Some (uc_file_id ctx)"
    "map_of (us_files session) (uc_file_id ctx) = Some sfile"
    "parse_query X (rq_query req) (lit ''token'') = Some (sf_token sfile)"
    "sf_status sfile = Pending"
    "uc_session_id ctx = us_session_id session" "uc_dto ctx = sf_dto sfile"
    "st' = st\<lparr>v2_session := Some (ActiveSession
       (session\<lparr>us_files := modify_entry (uc_file_id ctx) start_file (us_files session)\<rparr>))\<rparr>"
    "evs = [EvFileUpload (us_session_id session) (uc_file_id ctx) (sf_dto sfile)]"
  using assms
  by (auto simp: upload_begin_def Let_def split: option.splits session_state_v2.splits if_splits)

lemma upload_begin_refused:
  "upload_begin X st req ci = (Inl e, st', evs) \<Longrightarrow> st' = st \<and> evs = [] \<and> error_code e \<in> {400, 403}"
  by (auto simp: upload_begin_def Let_def invalid_token_error_def
      split: option.splits session_state_v2.splits if_splits)

lemma upload_begin_active:
  assumes "v2_session st = Some (ActiveSession session)"
  shows "is_ok (fst (upload_begin X st req ci)) \<longleftrightarrow>
     us_sender_ip session = ci_ip ci \<and>
     parse_query X (rq_query req) (lit ''sessionId'') = Some (us_session_id session) \<and>
     (\<exists>fid sfile. parse_query X (rq_query req) (lit ''fileId'') = Some fid \<and>
        map_of (us_files session) fid = Some sfile \<and> sf_status sfile = Pending \<and>
        parse_query X (rq_query req) (lit ''token'') = Some (sf_token sfile))"
  using assms by (auto simp: upload_begin_def Let_def is_ok_def split: option.splits if_splits)

section \<open>Properties\<close>

text \<open>
  C2. An upload request is let through exactly when an accepted session is active, the
  request names that session, comes from the address that opened it, and carries the
  token of a file of that session that is still pending; the file is then in progress
  with one more attempt on its counter and the application is asked for a target. Every
  other request is refused with 400 or 403 and changes nothing.
\<close>

theorem upload_authorised:
  "(upload_begin X st req ci = (Inr ctx, st', evs) \<longleftrightarrow>
     (\<exists>session sfile.
        v2_session st = Some (ActiveSession session) \<and> us_sender_ip session = ci_ip ci \<and>
        parse_query X (rq_query req) (lit ''sessionId'') = Some (us_session_id session) \<and>
        parse_query X (rq_query req) (lit ''fileId'') = Some (uc_file_id ctx) \<and>
        map_of (us_files session) (uc_file_id ctx) = Some sfile \<and> sf_status sfile = Pending \<and>
        parse_query X (rq_query req) (lit ''token'') = Some (sf_token sfile) \<and>
        uc_session_id ctx = us_session_id session \<and> uc_dto ctx = sf_dto sfile \<and>
        st' = st\<lparr>v2_session := Some (ActiveSession
          (session\<lparr>us_files := modify_entry (uc_file_id ctx) start_file (us_files session)\<rparr>))\<rparr> \<and>
        evs = [EvFileUpload (us_session_id session) (uc_file_id ctx) (sf_dto sfile)])) \<and>
   (fst (upload_begin X st req ci) = Inl e \<longleftrightarrow>
     upload_begin X st req ci = (Inl e, st, []) \<and> error_code e \<in> {400, 403})"
  (is "(?lhs \<longleftrightarrow> ?rhs) \<and> ?refused")
proof
  show "?lhs \<longleftrightarrow> ?rhs"
  proof
    assume ?lhs
    then show ?rhs by (rule upload_begin_ok) blast
  next
    assume ?rhs
    then show ?lhs by (elim exE conjE) (simp add: upload_begin_def)
  qed
  show ?refused
    using upload_begin_refused [of X st req ci e]
    by (cases "upload_begin X st req ci") auto
qed

lemma prepare_upload_begin_ok:
  assumes "prepare_upload_begin X L decode st req ci sid = (Inr ctx, st', evs)"
  obtains payload where
    "fst (check_pin L (v2_pin st) (v2_pin_attempts st) (parse_query X (rq_query req))
       (pip_ip (ci_ip ci))) = Inr ()"
    "prepare_upload_payload decode (rq_body req) = Inr payload"
    "v2_session st = None" "pc_session_id ctx = sid" "pc_ip ctx = ci_ip ci"
    "pc_files ctx = pu2_files payload"
    "v2_session st' = Some (PendingSession \<lparr>ps_session_id = sid, ps_sender_ip = ci_ip ci,
       ps_cancelled = False\<rparr>)"
    "evs = [EvPrepareUpload sid (ci_ip ci) (pu2_info payload) (cert_fingerprint X ci)
       (pu2_files payload)]"
  using assms
  by (auto simp: prepare_upload_begin_def claim_slot_def Let_def res_simps
      split: prod.splits sum.splits if_splits)

lemma prepare_upload_begin_refused:
  assumes "prepare_upload_begin X L decode st req ci sid = (Inl e, st', evs)"
  shows "v2_session st' = v2_session st" "v2_pin st' = v2_pin st"
    "v2_verify_checksums st' = v2_verify_checksums st" "evs = []"
  using assms
  by (auto simp: prepare_upload_begin_def claim_slot_def Let_def res_simps
      split: prod.splits sum.splits if_splits)
text \<open>
  While the slot is taken, by a request that is still being decided or by an active
  session, a second prepare-upload request cannot change it: whatever it carries, the
  session survives, the application hears nothing, and the request is answered with an
  error, which is 409 if its PIN and its body are acceptable.
\<close>

theorem prepare_upload_blocked:
  assumes "v2_session st = Some s"
    and "prepare_upload X L decode st req ci sid token outcome = (res, st', evs)"
  shows "v2_session st' = Some s \<and> evs = [] \<and>
    (\<exists>e. res = Some (Inl e) \<and>
       (fst (check_pin L (v2_pin st) (v2_pin_attempts st) (parse_query X (rq_query req))
          (pip_ip (ci_ip ci))) = Inr () \<and> is_ok (prepare_upload_payload decode (rq_body req)) \<longrightarrow>
        e = MessageError 409 (lit ''Blocked by another session'')))"
proof -
  obtain r st1 evs1 where b0: "prepare_upload_begin X L decode st req ci sid = (r, st1, evs1)"
    by (cases "prepare_upload_begin X L decode st req ci sid")
  with assms(1) obtain e where e: "r = Inl e"
    by (cases r) (auto elim: prepare_upload_begin_ok)
  note b = b0 [unfolded e]
  have "is_ok (prepare_upload_payload decode (rq_body req)) \<Longrightarrow>
      fst (check_pin L (v2_pin st) (v2_pin_attempts st) (parse_query X (rq_query req))
        (pip_ip (ci_ip ci))) = Inr () \<Longrightarrow> e = MessageError 409 (lit ''Blocked by another session'')"
    using b assms(1)
    by (auto simp: prepare_upload_begin_def claim_slot_def Let_def is_ok_def
        split: prod.splits sum.splits)
  then show ?thesis
    using assms b prepare_upload_begin_refused [OF b] by (auto simp: prepare_upload_def)
qed

text \<open>
  C3. Tokens are capabilities: after the application has accepted a selection of the
  offered files, an upload request is let through exactly when it comes from the address
  of the offer, names the session of the response and pairs a file with the token the
  response gives it, and the response lists exactly the offered files that were accepted.
\<close>

theorem accepted_tokens_open_uploads:
  assumes "prepare_upload X L decode st req ci sid token (Decided (Accept ids))
      = (Some (Inr resp), st', evs)"
    and "rs_body resp = PrepareUploadBody dto"
    and "prepare_upload_payload decode (rq_body req) = Inr payload"
    and "distinct (map fst (pu2_files payload))"
  shows "set (map fst (pur2_files dto)) = set (map fst (pu2_files payload)) \<inter> set ids \<and>
    (is_ok (fst (upload_begin X st' req' ci')) \<longleftrightarrow>
       ci_ip ci' = ci_ip ci \<and>
       parse_query X (rq_query req') (lit ''sessionId'') = Some (pur2_session_id dto) \<and>
       (\<exists>fid tok. parse_query X (rq_query req') (lit ''fileId'') = Some fid \<and>
          parse_query X (rq_query req') (lit ''token'') = Some tok \<and>
          map_of (pur2_files dto) fid = Some tok))"
proof -
  obtain ctx st1 evs1 where b: "prepare_upload_begin X L decode st req ci sid = (Inr ctx, st1, evs1)"
    using assms(1) by (auto simp: prepare_upload_def split: prod.splits sum.splits)
  have ctx: "pc_session_id ctx = sid" "pc_ip ctx = ci_ip ci" "pc_files ctx = pu2_files payload"
    using b assms(3) by (auto elim: prepare_upload_begin_ok)
  let ?files = "accepted_files token (pu2_files payload) ids"
  have ne: "?files \<noteq> []"
    using assms(1,2) b ctx
    by (auto simp: prepare_upload_def prepare_upload_resume_def Let_def plain_response_def)
  have dto: "dto = \<lparr>pur2_session_id = sid, pur2_files = map (\<lambda>(fid, f). (fid, sf_token f)) ?files\<rparr>"
    and st': "v2_session st' = Some (ActiveSession
      \<lparr>us_session_id = sid, us_sender_ip = ci_ip ci, us_files = ?files\<rparr>)"
    using assms(1,2) b ctx ne
    by (auto simp: prepare_upload_def prepare_upload_resume_def Let_def json_into_response_def)
  have tok: "map_of (pur2_files dto) fid = map_option sf_token (map_of ?files fid)" for fid
    unfolding dto by (simp add: map_of_map)
  have pending: "sf_status f = Pending" if "map_of ?files fid = Some f" for fid f
    using that map_of_accepted_files [OF assms(4)] by (auto split: if_splits)
  have "set (map fst (pur2_files dto)) = set (map fst (pu2_files payload)) \<inter> set ids"
    unfolding dto by (force simp: accepted_files_def)
  then show ?thesis
    unfolding upload_begin_active [OF st'] using pending by (auto simp: tok) (simp_all add: dto)
qed
section \<open>A concrete exchange\<close>

definition demo_client :: "nat \<Rightarrow> request_client_info" where
  "demo_client n = \<lparr>ci_ip = \<lparr>pip_ip = demo_ip n, pip_scope = None\<rparr>, ci_cert = None\<rparr>"

definition demo_request :: "rstring \<Rightarrow> request" where
  "demo_request q = \<lparr>rq_method = lit ''POST'', rq_path = lit ''/'', rq_query = Some q,
     rq_headers = [], rq_body = []\<rparr>"

definition demo_register :: register_dto_v2 where
  "demo_register = \<lparr>r2_alias = lit ''A'', r2_version = lit ''2.1'', r2_device_model = None,
     r2_device_type = None, r2_fingerprint = lit ''F'', r2_port = 53317, r2_protocol = Https,
     r2_download = False\<rparr>"

definition demo_file :: "rstring \<Rightarrow> file_dto" where
  "demo_file fid = \<lparr>fd_id = fid, fd_file_name = fid, fd_size = 2, fd_file_type = lit ''text/plain'',
     fd_sha256 = None, fd_preview = None, fd_metadata = None\<rparr>"

definition demo_offer :: prepare_upload_request_dto_v2 where
  "demo_offer = \<lparr>pu2_info = demo_register,
     pu2_files = [(lit ''a'', demo_file (lit ''a'')), (lit ''b'', demo_file (lit ''b''))]\<rparr>"

definition demo_v2 :: "(ip_addr, u32) list_lru v2_state" where
  "demo_v2 = \<lparr>v2_pin = None, v2_verify_checksums = True, v2_session = None,
     v2_pin_attempts = (200, [])\<rparr>"

definition demo_busy :: "(ip_addr, u32) list_lru v2_state" where
  "demo_busy = demo_v2\<lparr>v2_session := Some (PendingSession
     \<lparr>ps_session_id = lit ''s'', ps_sender_ip = ci_ip (demo_client 7), ps_cancelled = False\<rparr>)\<rparr>"

definition demo_prepare ::
  "(ip_addr, u32) list_lru v2_state \<Rightarrow> rstring list \<Rightarrow>
     (response, app_error) result option \<times> (ip_addr, u32) list_lru v2_state \<times> server_event_v2 list"
where
  "demo_prepare st ids = prepare_upload demo_ext list_lru_ops (\<lambda>_. Some demo_offer) st
     (demo_request []) (demo_client 7) (lit ''s'') (\<lambda>fid. lit ''t-'' @ fid) (Decided (Accept ids))"

lemma demo_prepare_accepts:
  "fst (demo_prepare demo_v2 [lit ''a'']) = Some (Inr (json_into_response 200 (PrepareUploadBody
      \<lparr>pur2_session_id = lit ''s'', pur2_files = [(lit ''a'', lit ''t-a'')]\<rparr>)))"
  by code_simp

theorem prepare_upload_blocked_witness:
  "v2_session (fst (snd (demo_prepare demo_busy [lit ''a'']))) = v2_session demo_busy"
  using prepare_upload_blocked [of demo_busy _ demo_ext list_lru_ops "\<lambda>_. Some demo_offer"
      "demo_request []" "demo_client 7" "lit ''s''" "\<lambda>fid. lit ''t-'' @ fid" "Decided (Accept [lit ''a''])"]
  unfolding demo_prepare_def
  by (cases "prepare_upload demo_ext list_lru_ops (\<lambda>_. Some demo_offer) demo_busy (demo_request [])
        (demo_client 7) (lit ''s'') (\<lambda>fid. lit ''t-'' @ fid) (Decided (Accept [lit ''a'']))")
    (simp add: demo_busy_def)

theorem accepted_tokens_open_uploads_witness:
  "is_ok (fst (upload_begin demo_ext (fst (snd (demo_prepare demo_v2 [lit ''a''])))
     (demo_request (lit ''sessionId=s&fileId=a&token=t-a'')) (demo_client 7))) \<and>
   \<not> is_ok (fst (upload_begin demo_ext (fst (snd (demo_prepare demo_v2 [lit ''a''])))
     (demo_request (lit ''sessionId=s&fileId=a&token=t-a'')) (demo_client 8)))"
proof -
  obtain st' evs where run: "demo_prepare demo_v2 [lit ''a''] = (Some (Inr (json_into_response 200
      (PrepareUploadBody \<lparr>pur2_session_id = lit ''s'', pur2_files = [(lit ''a'', lit ''t-a'')]\<rparr>))), st', evs)"
    using demo_prepare_accepts by (metis prod.collapse)
  have payload: "prepare_upload_payload (\<lambda>_. Some demo_offer) (rq_body (demo_request [])) = Inr demo_offer"
    "distinct (map fst (pu2_files demo_offer))"
    by code_simp+
  let ?req = "demo_request (lit ''sessionId=s&fileId=a&token=t-a'')"
  have q: "parse_query demo_ext (rq_query ?req) (lit ''sessionId'') = Some (lit ''s'')"
    "parse_query demo_ext (rq_query ?req) (lit ''fileId'') = Some (lit ''a'')"
    "parse_query demo_ext (rq_query ?req) (lit ''token'') = Some (lit ''t-a'')"
    "ci_ip (demo_client 8) \<noteq> ci_ip (demo_client 7)"
    by code_simp+
  show ?thesis
    using accepted_tokens_open_uploads [OF run [unfolded demo_prepare_def] _ payload, of _ ?req] q
    by (simp add: run json_into_response_def)
qed

text \<open>
  A cancel request is always answered with 200, but it touches the slot only when it
  comes from the address that holds it: a waiting request is then marked as cancelled, an
  active session of the given id is ended and reported as cancelled. Anybody else leaves
  the server as it was, and is at most reported to the application.
\<close>

theorem cancel_only_by_holder:
  assumes "cancel X st req ci = (res, st', evs)"
  shows "res = Inr (plain_response 200) \<and>
    (slot_holder st \<noteq> Some (ci_ip ci) \<longrightarrow> st' = st \<and> set evs \<subseteq> {EvCancelReceived (ci_ip ci) sid | sid.
       parse_query X (rq_query req) (lit ''sessionId'') = Some sid}) \<and>
    (st' \<noteq> st \<and> slot_holder st' = None \<longrightarrow> (\<exists>session.
       v2_session st = Some (ActiveSession session) \<and>
       parse_query X (rq_query req) (lit ''sessionId'') = Some (us_session_id session) \<and>
       evs = [EvSessionEnd (us_session_id session) EndCancelled]))"
  using assms
  by (auto simp: cancel_def cancel_pending_def cancel_active_def slot_holder_def Let_def
      split: option.splits session_state_v2.splits if_splits)

theorem cancel_only_by_holder_witness:
  "fst (snd (cancel demo_ext demo_busy (demo_request (lit ''sessionId=s'')) (demo_client 8))) = demo_busy"
proof -
  obtain res st' evs where
    run: "cancel demo_ext demo_busy (demo_request (lit ''sessionId=s'')) (demo_client 8) = (res, st', evs)"
    by (metis prod.exhaust)
  have "slot_holder demo_busy \<noteq> Some (ci_ip (demo_client 8))" by code_simp
  with cancel_only_by_holder [OF run] run show ?thesis by simp
qed

text \<open>
  A registration is announced to the application only under an identity the TLS
  handshake proves: if the client presented a certificate, the announced fingerprint is,
  up to letter case, the fingerprint of that certificate. The caller gets the same answer
  either way, and a body that is not a registration is refused without an event.
\<close>

theorem register_authenticated:
  assumes "register X decode room v2_enabled info web body ci = (res, evs)"
  shows "(evs = [] \<or> (\<exists>payload. evs = [EvRegister (ci_ip ci) payload] \<and>
      collect_to_json decode body = Inr payload \<and> v2_enabled \<and>
      (\<forall>cert. ci_cert ci = Some cert \<longrightarrow>
         to_ascii_uppercase (r2_fingerprint payload) = fingerprint_from_cert_der (ext_sha256 X) cert))) \<and>
    (is_ok res \<longleftrightarrow> is_ok (collect_to_json decode body)) \<and>
    (\<forall>payload. collect_to_json decode body = Inr payload \<and> v2_enabled \<and> room \<and>
      map_option (fingerprint_from_cert_der (ext_sha256 X)) (ci_cert ci)
        \<in> {None, Some (to_ascii_uppercase (r2_fingerprint payload))} \<longrightarrow>
      evs = [EvRegister (ci_ip ci) payload])"
  using assms
  by (auto simp: register_def Let_def cert_fingerprint_def is_ok_def
      split: sum.splits option.splits if_splits)

theorem register_authenticated_witness:
  "snd (register demo_ext (\<lambda>_. Some demo_register) True True
     \<lparr>di_alias = [], di_version = [], di_device_model = None, di_device_type = None, di_token = []\<rparr>
     False [] \<lparr>ci_ip = ci_ip (demo_client 7), ci_cert = Some [1]\<rparr>) = []"
proof -
  let ?ci = "\<lparr>ci_ip = ci_ip (demo_client 7), ci_cert = Some [1]\<rparr>"
  let ?info = "\<lparr>di_alias = [], di_version = [], di_device_model = None, di_device_type = None, di_token = []\<rparr>"
  obtain res evs where
    run: "register demo_ext (\<lambda>_. Some demo_register) True True ?info False [] ?ci = (res, evs)"
    by (metis prod.exhaust)
  have "to_ascii_uppercase (r2_fingerprint demo_register)
      \<noteq> fingerprint_from_cert_der (ext_sha256 demo_ext) [1]" by code_simp
  moreover have "collect_to_json (\<lambda>_. Some demo_register) [] = Inr demo_register" by code_simp
  ultimately show ?thesis using register_authenticated [OF run] run by auto
qed

end
