(* ===== verification/FB_Upload_Steps.thy ===== *)
theory FB_Upload_Steps
  imports FB_Upload "HOL-Library.Multiset"
begin

text \<open>
  The upload endpoints under concurrency. A state is the session slot with the requests in
  flight: those waiting for a decision, those transferring a file, and the cleanup tasks
  that dropped guards have spawned. Every transition is one critical section of
  \<^verbatim>\<open>v2.rs\<close> (the code between two acquisitions of the slot's lock), so a run of the relation
  is an arbitrary interleaving of requests. \<open>sys_lost_slots\<close> and \<open>sys_lost_files\<close> record
  the futures that were dropped while a disarmed guard waited for the lock, \<open>sys_used\<close> the
  session ids drawn so far (a UUID is fresh), \<open>sys_events\<close> what was sent to the application.
\<close>

section \<open>The transition system\<close>

record 'c v2_system =
  sys_v2 :: "'c v2_state"
  sys_preparing :: "prepare_ctx multiset"
  sys_uploading :: "upload_ctx multiset"
  sys_cleanups :: "cleanup multiset"
  sys_lost_slots :: "rstring multiset"
  sys_lost_files :: "(rstring \<times> rstring) multiset"
  sys_used :: "rstring set"
  sys_events :: "server_event_v2 list"

definition initial_system :: "'c v2_state \<Rightarrow> 'c v2_system" where
  "initial_system st =
     \<lparr>sys_v2 = st, sys_preparing = {#}, sys_uploading = {#}, sys_cleanups = {#},
      sys_lost_slots = {#}, sys_lost_files = {#}, sys_used = {}, sys_events = []\<rparr>"

text \<open>The sender can only cancel a wait whose token it has cancelled.\<close>

definition sender_cancelled :: "'c v2_state \<Rightarrow> bool" where
  "sender_cancelled st =
     (case v2_session st of Some (PendingSession p) \<Rightarrow> ps_cancelled p | _ \<Rightarrow> False)"

definition resume_system ::
  "prepare_ctx \<Rightarrow> prepare_outcome \<Rightarrow> 'c v2_state \<Rightarrow> cleanup list \<Rightarrow> 'c v2_system \<Rightarrow> 'c v2_system"
where
  "resume_system ctx outcome st' cs s =
     s\<lparr>sys_v2 := st', sys_preparing := sys_preparing s - {#ctx#},
       sys_cleanups := sys_cleanups s + mset cs,
       sys_lost_slots := sys_lost_slots s +
         (if outcome = ClearAborted then {#pc_session_id ctx#} else {#})\<rparr>"

definition finish_system ::
  "upload_ctx \<Rightarrow> upload_outcome \<Rightarrow> 'c v2_state \<Rightarrow> server_event_v2 list \<Rightarrow> cleanup list \<Rightarrow>
     'c v2_system \<Rightarrow> 'c v2_system"
where
  "finish_system ctx outcome st' evs cs s =
     s\<lparr>sys_v2 := st', sys_uploading := sys_uploading s - {#ctx#},
       sys_cleanups := sys_cleanups s + mset cs,
       sys_lost_files := sys_lost_files s +
         (case outcome of FinishAborted \<Rightarrow> {#(uc_session_id ctx, uc_file_id ctx)#} | _ \<Rightarrow> {#}),
       sys_events := sys_events s @ evs\<rparr>"

inductive v2_step ::
  "ext \<Rightarrow> (ip_addr, u32, 'c) lru_ops \<Rightarrow> 'c v2_system \<Rightarrow> 'c v2_system \<Rightarrow> bool"
  for X :: ext and L :: "(ip_addr, u32, 'c) lru_ops"
where
  pin: "check_pin L (v2_pin (sys_v2 s)) (v2_pin_attempts (sys_v2 s)) q ip = (r, attempts) \<Longrightarrow>
    v2_step X L s (s\<lparr>sys_v2 := (sys_v2 s)\<lparr>v2_pin_attempts := attempts\<rparr>\<rparr>)"
| claim: "sid \<notin> sys_used s \<Longrightarrow> claim_slot sid ip (sys_v2 s) = Inr st' \<Longrightarrow>
    distinct (map fst files) \<Longrightarrow>
    v2_step X L s (s\<lparr>sys_v2 := st',
      sys_preparing := add_mset \<lparr>pc_session_id = sid, pc_ip = ip, pc_files = files\<rparr> (sys_preparing s),
      sys_used := insert sid (sys_used s),
      sys_events := sys_events s @ [EvPrepareUpload sid ip info fp files]\<rparr>)"
| resume: "ctx \<in># sys_preparing s \<Longrightarrow> (outcome = SenderCancelled \<Longrightarrow> sender_cancelled (sys_v2 s)) \<Longrightarrow>
    prepare_upload_resume ctx token outcome (sys_v2 s) = (res, st', cs) \<Longrightarrow>
    v2_step X L s (resume_system ctx outcome st' cs s)"
| upload_start: "upload_begin X (sys_v2 s) req ci = (Inr ctx, st', evs) \<Longrightarrow>
    v2_step X L s (s\<lparr>sys_v2 := st', sys_uploading := add_mset ctx (sys_uploading s),
      sys_events := sys_events s @ evs\<rparr>)"
| upload_end: "ctx \<in># sys_uploading s \<Longrightarrow>
    upload_resume X body ctx outcome (sys_v2 s) = (res, st', evs, cs) \<Longrightarrow>
    v2_step X L s (finish_system ctx outcome st' evs cs s)"
| cancel_wait: "cancel_pending (sys_v2 s) ip sid = Some st' \<Longrightarrow>
    v2_step X L s (s\<lparr>sys_v2 := st'\<rparr>)"
| cancel_session: "cancel_active (sys_v2 s) ip sid = (st', evs) \<Longrightarrow>
    v2_step X L s (s\<lparr>sys_v2 := st', sys_events := sys_events s @ evs\<rparr>)"
| app_cancel: "cancel_v2_session (sys_v2 s) sid = (found, st') \<Longrightarrow>
    v2_step X L s (s\<lparr>sys_v2 := st'\<rparr>)"
| cleanup_task: "c \<in># sys_cleanups s \<Longrightarrow> run_cleanup c (sys_v2 s) = (st', evs) \<Longrightarrow>
    v2_step X L s (s\<lparr>sys_v2 := st', sys_cleanups := sys_cleanups s - {#c#},
      sys_events := sys_events s @ evs\<rparr>)"

inductive v2_reach ::
  "ext \<Rightarrow> (ip_addr, u32, 'c) lru_ops \<Rightarrow> 'c v2_system \<Rightarrow> 'c v2_system \<Rightarrow> bool"
  for X :: ext and L :: "(ip_addr, u32, 'c) lru_ops" and s0 :: "'c v2_system"
where
  start: "v2_reach X L s0 s0"
| more: "v2_reach X L s0 s \<Longrightarrow> v2_step X L s t \<Longrightarrow> v2_reach X L s0 t"

inductive_cases v2_stepE: "v2_step X L s t"

section \<open>Who is responsible for the slot and for a file\<close>

definition slot_task :: "cleanup \<Rightarrow> rstring multiset" where
  "slot_task c = (case c of ClearPending sid \<Rightarrow> {#sid#} | FailFile sid fid \<Rightarrow> {#})"

definition file_task :: "cleanup \<Rightarrow> (rstring \<times> rstring) multiset" where
  "file_task c = (case c of ClearPending sid \<Rightarrow> {#} | FailFile sid fid \<Rightarrow> {#(sid, fid)#})"

definition slot_owners :: "'c v2_system \<Rightarrow> rstring multiset" where
  "slot_owners s = image_mset pc_session_id (sys_preparing s) +
     \<Sum>\<^sub># (image_mset slot_task (sys_cleanups s)) + sys_lost_slots s"

definition file_owners :: "'c v2_system \<Rightarrow> (rstring \<times> rstring) multiset" where
  "file_owners s = image_mset (\<lambda>u. (uc_session_id u, uc_file_id u)) (sys_uploading s) +
     \<Sum>\<^sub># (image_mset file_task (sys_cleanups s)) + sys_lost_files s"

definition ended :: "server_event_v2 list \<Rightarrow> rstring list" where
  "ended evs = concat (map (\<lambda>e. case e of EvSessionEnd sid r \<Rightarrow> [sid] | _ \<Rightarrow> []) evs)"

definition slot_sid :: "session_state_v2 \<Rightarrow> rstring" where
  "slot_sid x = (case x of PendingSession p \<Rightarrow> ps_session_id p | ActiveSession a \<Rightarrow> us_session_id a)"

text \<open>A file of an active session, against the number of transfers responsible for it.\<close>

definition file_ok :: "nat \<Rightarrow> session_file_v2 \<Rightarrow> bool" where
  "file_ok owners f \<longleftrightarrow>
     sf_attempts f \<le> 3 \<and> (sf_status f = Pending \<longrightarrow> sf_attempts f < 3) \<and>
     owners = (if sf_status f = InProgress then 1 else 0)"

definition session_ok :: "(rstring \<times> rstring) multiset \<Rightarrow> upload_session_v2 \<Rightarrow> bool" where
  "session_ok owners a \<longleftrightarrow>
     distinct (map fst (us_files a)) \<and> \<not> is_complete a \<and>
     (\<forall>fid f. map_of (us_files a) fid = Some f \<longrightarrow> file_ok (count owners (us_session_id a, fid)) f) \<and>
     (\<forall>fid. map_of (us_files a) fid = None \<longrightarrow> count owners (us_session_id a, fid) = 0)"

definition slot_ok ::
  "rstring multiset \<Rightarrow> (rstring \<times> rstring) multiset \<Rightarrow> session_state_v2 option \<Rightarrow> bool"
where
  "slot_ok owners fowners slot =
     (case slot of
        None \<Rightarrow> owners = {#}
      | Some (PendingSession p) \<Rightarrow> owners = {#ps_session_id p#} \<and>
          (\<forall>fid. count fowners (ps_session_id p, fid) = 0)
      | Some (ActiveSession a) \<Rightarrow> owners = {#} \<and> session_ok fowners a)"

definition ids_ok ::
  "rstring set \<Rightarrow> rstring list \<Rightarrow> (rstring \<times> rstring) multiset \<Rightarrow> session_state_v2 option \<Rightarrow> bool"
where
  "ids_ok used ends fowners slot \<longleftrightarrow>
     fst ` set_mset fowners \<subseteq> used \<and> set ends \<subseteq> used \<and> distinct ends \<and>
     (case slot of None \<Rightarrow> True | Some x \<Rightarrow> slot_sid x \<in> used \<and> slot_sid x \<notin> set ends)"

definition core_inv ::
  "rstring multiset \<Rightarrow> (rstring \<times> rstring) multiset \<Rightarrow> rstring set \<Rightarrow> rstring list \<Rightarrow>
     session_state_v2 option \<Rightarrow> bool"
where
  "core_inv owners fowners used ends slot \<longleftrightarrow>
     slot_ok owners fowners slot \<and> ids_ok used ends fowners slot"

definition system_inv :: "'c v2_system \<Rightarrow> bool" where
  "system_inv s \<longleftrightarrow>
     core_inv (slot_owners s) (file_owners s) (sys_used s) (ended (sys_events s))
       (v2_session (sys_v2 s)) \<and>
     (\<forall>ctx. ctx \<in># sys_preparing s \<longrightarrow> distinct (map fst (pc_files ctx)))"

section \<open>Every critical section keeps the invariant\<close>

lemmas core_defs = core_inv_def slot_ok_def ids_ok_def slot_sid_def

lemma ended_simps [simp]:
  "ended [] = []"
  "ended (e # es) = (case e of EvSessionEnd sid r \<Rightarrow> [sid] | _ \<Rightarrow> []) @ ended es"
  "ended (es @ fs) = ended es @ ended fs"
  by (simp_all add: ended_def)

lemma task_simps [simp]:
  "slot_task (ClearPending sid) = {#sid#}" "slot_task (FailFile sid fid) = {#}"
  "file_task (ClearPending sid) = {#}" "file_task (FailFile sid fid) = {#(sid, fid)#}"
  by (simp_all add: slot_task_def file_task_def)

lemma core_claim:
  assumes "core_inv os fs used ends (v2_session st)" "sid \<notin> used" "claim_slot sid ip st = Inr st'"
  shows "core_inv (add_mset sid os) fs (insert sid used) ends (v2_session st')"
proof -
  have "count fs (sid, fid) = 0" for fid
    using assms(1,2) by (force simp: core_defs count_eq_zero_iff)
  moreover have "sid \<notin> set ends"
    using assms(1,2) by (auto simp: core_defs)
  ultimately show ?thesis
    using assms(1,3) by (auto simp: core_defs claim_slot_def split: if_splits)
qed

lemma core_clear:
  assumes "core_inv (add_mset sid os) fs used ends (v2_session st)"
  shows "core_inv os fs used ends (v2_session (clear_pending_session st))"
  using assms
  by (auto simp: core_defs clear_pending_session_def split: option.splits session_state_v2.splits)

lemma core_pending:
  assumes "core_inv (add_mset sid os) fs used ends (v2_session st)"
  obtains p where "v2_session st = Some (PendingSession p)" "ps_session_id p = sid" "os = {#}"
  using assms by (auto simp: core_defs split: option.splits session_state_v2.splits)

lemma accepted_files_ok:
  assumes "distinct (map fst files)" "accepted_files token files ids \<noteq> []"
    and "\<And>fid. count fs (sid, fid) = 0"
  shows "session_ok fs \<lparr>us_session_id = sid, us_sender_ip = ip, us_files = accepted_files token files ids\<rparr>"
proof -
  let ?a = "\<lparr>us_session_id = sid, us_sender_ip = ip, us_files = accepted_files token files ids\<rparr>"
  have d: "distinct (map fst (accepted_files token files ids))"
    using assms(1) by (auto simp: accepted_files_def distinct_map_filter comp_def split_beta)
  have "sf_status f = Pending \<and> sf_attempts f = 0"
    if "map_of (accepted_files token files ids) fid = Some f" for fid f
    using that map_of_accepted_files [OF assms(1)] by (auto split: if_splits)
  moreover have "\<not> is_complete ?a"
    using assms(2) by (cases "accepted_files token files ids")
      (auto simp: is_complete_def is_final_def accepted_files_def)
  ultimately show ?thesis
    using d assms(3) by (auto simp: session_ok_def file_ok_def)
qed

lemma core_resume:
  assumes "core_inv (add_mset (pc_session_id ctx) os) fs used ends (v2_session st)"
    and "distinct (map fst (pc_files ctx))"
    and "prepare_upload_resume ctx token outcome st = (res, st', cs)"
  shows "core_inv (os + \<Sum>\<^sub># (image_mset slot_task (mset cs)) +
      (if outcome = ClearAborted then {#pc_session_id ctx#} else {#}))
    (fs + \<Sum>\<^sub># (image_mset file_task (mset cs))) used ends (v2_session st')"
proof (cases "\<exists>ids. outcome = Decided (Accept ids) \<and> accepted_files token (pc_files ctx) ids \<noteq> []")
  case True
  then obtain ids where ids: "outcome = Decided (Accept ids)"
      "accepted_files token (pc_files ctx) ids \<noteq> []" by blast
  from assms(1) obtain p where "v2_session st = Some (PendingSession p)"
      "ps_session_id p = pc_session_id ctx" "os = {#}" by (rule core_pending)
  with assms ids accepted_files_ok [OF assms(2) ids(2)] show ?thesis
    by (auto simp: prepare_upload_resume_def Let_def core_defs)
next
  case False
  then show ?thesis
    using assms core_clear [OF assms(1)]
    by (auto simp: prepare_upload_resume_def Let_def split: prepare_outcome.splits
        prepare_upload_decision_v2.splits if_splits)
qed

lemma attempts_less: "a < 3 \<Longrightarrow> saturating_add_u8 a 1 \<le> (3 :: u8)"
  by (auto simp: saturating_add_u8_def word_le_nat_alt word_less_nat_alt unat_plus_if')

lemma session_start:
  assumes "session_ok fs a" "map_of (us_files a) fid = Some f" "sf_status f = Pending"
  shows "session_ok (add_mset (us_session_id a, fid) fs)
    (a\<lparr>us_files := modify_entry fid start_file (us_files a)\<rparr>)"
proof -
  let ?a = "a\<lparr>us_files := modify_entry fid start_file (us_files a)\<rparr>"
  have d: "distinct (map fst (us_files ?a))"
    using assms(1) by (simp add: session_ok_def)
  have f: "map_of (us_files ?a) fid = Some (start_file f)"
    by (simp add: map_of_modify_entry assms(2))
  have "\<not> is_final (sf_status (start_file f))"
    by (simp add: start_file_def is_final_def)
  with f have "\<not> is_complete ?a"
    unfolding is_complete_map_of [OF d] by blast
  then show ?thesis
    using assms d
    by (auto simp: session_ok_def map_of_modify_entry file_ok_def start_file_def attempts_less)
qed

lemma core_start:
  assumes "core_inv os fs used ends (v2_session st)"
    and "upload_begin X st req ci = (Inr ctx, st', evs)"
  shows "core_inv os (add_mset (uc_session_id ctx, uc_file_id ctx) fs) used (ends @ ended evs)
    (v2_session st')"
  using assms(2)
proof (cases rule: upload_begin_ok)
  case (1 session sfile)
  with assms(1) session_start [of fs session "uc_file_id ctx" sfile] show ?thesis
    by (simp add: core_defs)
qed

lemma final_status_ok:
  assumes "file_ok (Suc n) f"
  shows "file_ok n (settle_file r f)"
proof -
  have st: "sf_status f = InProgress" "n = 0" "sf_attempts f \<le> 3"
    using assms by (auto simp: file_ok_def split: if_splits)
  then show ?thesis
    by (auto simp: file_ok_def settle_file_def final_status_def MAX_UPLOAD_ATTEMPTS_def
        split: save_result.splits)
qed

lemma settle_idle: "file_ok 0 f \<Longrightarrow> settle_file r f = f"
  by (auto simp: file_ok_def settle_file_def split: if_splits)

lemma session_ok_absent:
  "session_ok fs a \<Longrightarrow> map_of (us_files a) fid = None \<Longrightarrow> count fs (us_session_id a, fid) = 0"
  by (simp add: session_ok_def)

lemma count_add_zero: "count (add_mset x M) y = 0 \<Longrightarrow> count M y = 0"
  by (simp split: if_splits)

lemma core_finalize:
  assumes "core_inv os (add_mset (sid, fid) fs) used ends (v2_session st)"
    and "finalize_file st sid fid r = (st', evs)"
  shows "core_inv os fs used (ends @ ended evs) (v2_session st')"
proof (cases "\<exists>a. v2_session st = Some (ActiveSession a) \<and> us_session_id a = sid")
  case True
  then obtain a where a: "v2_session st = Some (ActiveSession a)" "us_session_id a = sid" by blast
  have ok: "session_ok (add_mset (sid, fid) fs) a"
    using assms(1) a by (simp add: core_defs)
  then have "map_of (us_files a) fid \<noteq> None"
    using a(2) by (force simp: session_ok_def)
  then obtain f where f: "map_of (us_files a) fid = Some f" by blast
  let ?a = "a\<lparr>us_files := modify_entry fid (settle_file r) (us_files a)\<rparr>"
  have "file_ok (count fs (sid, g)) h" if "map_of (us_files ?a) g = Some h" for g h
    using ok that f a(2) final_status_ok [of "count fs (sid, fid)" f r]
    by (auto simp: session_ok_def map_of_modify_entry split: if_splits)
  moreover have "count fs (sid, g) = 0" if "map_of (us_files ?a) g = None" for g
    using session_ok_absent [OF ok, of g] that f a(2)
    by (auto simp: map_of_modify_entry split: if_splits)
  ultimately have "\<not> is_complete ?a \<Longrightarrow> session_ok fs ?a"
    using ok a(2) by (auto simp: session_ok_def)
  with assms a show ?thesis
    by (auto simp: core_defs finalize_file_def Let_def split: if_splits)
next
  case False
  then have same: "st' = st" "evs = []"
    using assms(2) by (auto simp: finalize_file_def split: option.splits session_state_v2.splits)
  have "session_ok fs a" if "v2_session st = Some (ActiveSession a)" for a
    using that False assms(1) by (auto simp: core_defs session_ok_def)
  moreover have "count fs (ps_session_id p, g) = 0" if "v2_session st = Some (PendingSession p)" for p g
    by (rule count_add_zero [of "(sid, fid)"])
      (use that assms(1) in \<open>simp add: core_defs del: count_add_mset\<close>)
  ultimately have "slot_ok os fs (v2_session st)"
    using assms(1)
    by (simp add: core_inv_def slot_ok_def split: option.splits session_state_v2.splits)
  moreover have "ids_ok used ends fs (v2_session st)"
    using assms(1) by (simp add: core_inv_def ids_ok_def)
  ultimately show ?thesis by (simp add: core_inv_def same)
qed

lemma core_cancel_wait:
  assumes "core_inv os fs used ends (v2_session st)" "cancel_pending st ip sid = Some st'"
  shows "core_inv os fs used ends (v2_session st')"
  using assms
  by (auto simp: core_defs cancel_pending_def split: option.splits session_state_v2.splits if_splits)

lemma core_cancel_active:
  assumes "core_inv os fs used ends (v2_session st)" "cancel_active st ip sid = (st', evs)"
  shows "core_inv os fs used (ends @ ended evs) (v2_session st')"
  using assms
  by (auto simp: core_defs cancel_active_def split: option.splits session_state_v2.splits if_splits)

lemma core_app_cancel:
  assumes "core_inv os fs used ends (v2_session st)" "cancel_v2_session st sid = (b, st')"
  shows "core_inv os fs used ends (v2_session st')"
  using assms
  by (auto simp: core_defs cancel_v2_session_def split: option.splits session_state_v2.splits if_splits)

section \<open>Invariant of the system\<close>

lemma owners_resume:
  assumes "ctx \<in># sys_preparing s"
  defines "os \<equiv> slot_owners (s\<lparr>sys_preparing := sys_preparing s - {#ctx#}\<rparr>)"
  shows "slot_owners s = add_mset (pc_session_id ctx) os"
    "slot_owners (resume_system ctx outcome st' cs s) = os + \<Sum>\<^sub># (image_mset slot_task (mset cs)) +
       (if outcome = ClearAborted then {#pc_session_id ctx#} else {#})"
    "file_owners (resume_system ctx outcome st' cs s) =
       file_owners s + \<Sum>\<^sub># (image_mset file_task (mset cs))"
  using multi_member_split [OF assms(1)]
  by (auto simp: slot_owners_def file_owners_def resume_system_def os_def)

lemma owners_finish:
  assumes "ctx \<in># sys_uploading s"
  defines "fs \<equiv> file_owners (s\<lparr>sys_uploading := sys_uploading s - {#ctx#}\<rparr>)"
  shows "file_owners s = add_mset (uc_session_id ctx, uc_file_id ctx) fs"
    "file_owners (finish_system ctx outcome st' evs cs s) = fs + \<Sum>\<^sub># (image_mset file_task (mset cs)) +
       (case outcome of FinishAborted \<Rightarrow> {#(uc_session_id ctx, uc_file_id ctx)#} | _ \<Rightarrow> {#})"
    "slot_owners (finish_system ctx outcome st' evs cs s) =
       slot_owners s + \<Sum>\<^sub># (image_mset slot_task (mset cs))"
  using multi_member_split [OF assms(1)]
  by (auto simp: slot_owners_def file_owners_def finish_system_def fs_def split: upload_outcome.splits)

lemma core_finish:
  assumes "core_inv os (add_mset (uc_session_id ctx, uc_file_id ctx) fs) used ends (v2_session st)"
    and "upload_resume X body ctx outcome st = (res, st', evs, cs)"
  shows "core_inv (os + \<Sum>\<^sub># (image_mset slot_task (mset cs)))
    (fs + \<Sum>\<^sub># (image_mset file_task (mset cs)) +
      (case outcome of FinishAborted \<Rightarrow> {#(uc_session_id ctx, uc_file_id ctx)#} | _ \<Rightarrow> {#}))
    used (ends @ ended evs) (v2_session st')"
  using assms core_finalize [OF assms(1)]
  by (auto simp: upload_resume_def Let_def split: upload_outcome.splits prod.splits)

lemma core_cleanup:
  assumes "core_inv (os + slot_task c) (fs + file_task c) used ends (v2_session st)"
    and "run_cleanup c st = (st', evs)"
  shows "core_inv os fs used (ends @ ended evs) (v2_session st')"
  using assms by (cases c) (auto intro: core_clear core_finalize)

lemma owners_cleanup:
  assumes "c \<in># sys_cleanups s"
  shows "slot_owners s = slot_owners (s\<lparr>sys_cleanups := sys_cleanups s - {#c#}\<rparr>) + slot_task c"
    "file_owners s = file_owners (s\<lparr>sys_cleanups := sys_cleanups s - {#c#}\<rparr>) + file_task c"
  using multi_member_split [OF assms] by (auto simp: slot_owners_def file_owners_def)

lemma step_inv:
  assumes "v2_step X L s t" "system_inv s"
  shows "system_inv t"
  using assms
proof (cases rule: v2_step.cases)
  case (claim sid ip st' files info fp)
  then show ?thesis
    using assms(2) core_claim [of "slot_owners s" "file_owners s" "sys_used s" _ "sys_v2 s" sid ip st']
    by (auto simp: system_inv_def slot_owners_def file_owners_def)
next
  case (resume ctx outcome token res st' cs)
  note own = owners_resume [OF resume(2)]
  have "distinct (map fst (pc_files ctx))"
    using resume(2) assms(2) by (simp add: system_inv_def)
  from core_resume [OF _ this resume(4)] assms(2) resume(1) show ?thesis
    unfolding system_inv_def resume(1) own by (auto simp: resume_system_def dest: in_diffD)
next
  case (upload_start req ci ctx st' evs)
  then show ?thesis
    using assms(2) core_start [of _ "file_owners s" _ _ "sys_v2 s"]
    by (auto simp: system_inv_def slot_owners_def file_owners_def)
next
  case (upload_end ctx body outcome res st' evs cs)
  note own = owners_finish [OF upload_end(2)]
  from core_finish [OF _ upload_end(3)] assms(2) show ?thesis
    unfolding system_inv_def upload_end(1) own by (auto simp: finish_system_def)
next
  case (cleanup_task c st' evs)
  note own = owners_cleanup [OF cleanup_task(2)]
  from core_cleanup [OF _ cleanup_task(3)] assms(2) show ?thesis
    unfolding system_inv_def own by (auto simp: cleanup_task(1) slot_owners_def file_owners_def)
qed (auto simp: system_inv_def slot_owners_def file_owners_def
    intro: core_cancel_wait core_cancel_active core_app_cancel)

lemma initial_inv: "v2_session st = None \<Longrightarrow> system_inv (initial_system st)"
  by (simp add: system_inv_def initial_system_def core_defs slot_owners_def file_owners_def)

lemma reach_inv: "v2_reach X L s t \<Longrightarrow> system_inv s \<Longrightarrow> system_inv t"
  by (induction rule: v2_reach.induct) (auto intro: step_inv)

lemma reach_initial_inv:
  "v2_reach X L (initial_system st) t \<Longrightarrow> v2_session st = None \<Longrightarrow> system_inv t"
  using reach_inv initial_inv by blast

lemma v2_reach_trans: "v2_reach X L s t \<Longrightarrow> v2_reach X L t u \<Longrightarrow> v2_reach X L s u"
  by (rotate_tac, induction rule: v2_reach.induct) (auto intro: v2_reach.more)

lemma owner_holds_slot:
  assumes "system_inv s" "sid \<in># slot_owners s"
  obtains p where "v2_session (sys_v2 s) = Some (PendingSession p)" "ps_session_id p = sid"
    "slot_owners s = {#sid#}"
  using assms
  by (auto simp: system_inv_def core_defs split: option.splits session_state_v2.splits)

lemma lost_slots_step: "v2_step X L s t \<Longrightarrow> sys_lost_slots s \<subseteq># sys_lost_slots t"
  by (auto elim!: v2_stepE simp: resume_system_def finish_system_def)

lemma lost_slots_mono: "v2_reach X L s t \<Longrightarrow> sys_lost_slots s \<subseteq># sys_lost_slots t"
  by (induction rule: v2_reach.induct) (auto dest: lost_slots_step intro: subset_mset.order_trans)

lemma handler_begin_run:
  assumes "prepare_upload_begin X L decode st req ci sid = (Inr ctx, st', evs)"
    and "sid \<notin> sys_used s" "sys_v2 s = st" "distinct (map fst (pc_files ctx))"
  shows "\<exists>t. v2_reach X L s t \<and> sys_v2 t = st' \<and> ctx \<in># sys_preparing t"
proof -
  let ?pin = "check_pin L (v2_pin st) (v2_pin_attempts st) (parse_query X (rq_query req)) (pip_ip (ci_ip ci))"
  let ?st1 = "st\<lparr>v2_pin_attempts := snd ?pin\<rparr>"
  obtain payload where c: "claim_slot sid (ci_ip ci) ?st1 = Inr st'"
      "ctx = \<lparr>pc_session_id = sid, pc_ip = ci_ip ci, pc_files = pu2_files payload\<rparr>"
      "prepare_upload_payload decode (rq_body req) = Inr payload"
    using assms(1)
    by (auto simp: prepare_upload_begin_def Let_def res_simps split: prod.splits sum.splits)
  have "v2_reach X L s (s\<lparr>sys_v2 := ?st1\<rparr>)" (is "v2_reach X L s ?s1")
    using v2_step.pin [of L s _ "pip_ip (ci_ip ci)" "fst ?pin" "snd ?pin"] assms(3)
    by (auto intro: v2_reach.intros)
  moreover have "v2_step X L ?s1 (?s1\<lparr>sys_v2 := st',
      sys_preparing := add_mset ctx (sys_preparing ?s1), sys_used := insert sid (sys_used ?s1),
      sys_events := sys_events ?s1 @ [EvPrepareUpload sid (ci_ip ci) (pu2_info payload) None (pu2_files payload)]\<rparr>)"
    unfolding c(2) using assms(2,4) c by (intro v2_step.claim) auto
  ultimately show ?thesis by (auto dest: v2_reach.more)
qed

section \<open>Properties\<close>

text \<open>
  C1. In every interleaving, at most one request is responsible for the waiting slot, and
  it is the request that claimed it: if a request still waits for its decision, or its
  cleanup task has not run yet, then the slot holds exactly that request's entry. So the
  unconditional clearing of \<^verbatim>\<open>clear_pending_session\<close> never frees the slot of another
  request, and an accepted request never overwrites a session.
\<close>

theorem slot_has_one_owner:
  assumes "v2_reach X L (initial_system st) s" "v2_session st = None"
  shows "size (slot_owners s) \<le> 1 \<and>
    (\<forall>ctx. ctx \<in># sys_preparing s \<longrightarrow> (\<exists>p.
       v2_session (sys_v2 s) = Some (PendingSession p) \<and> ps_session_id p = pc_session_id ctx)) \<and>
    (\<forall>sid. ClearPending sid \<in># sys_cleanups s \<longrightarrow> (\<exists>p.
       v2_session (sys_v2 s) = Some (PendingSession p) \<and> ps_session_id p = sid))"
proof -
  note inv = reach_initial_inv [OF assms]
  have "size (slot_owners s) \<le> 1"
    using inv by (auto simp: system_inv_def core_defs split: option.splits session_state_v2.splits)
  moreover have "pc_session_id ctx \<in># slot_owners s" if "ctx \<in># sys_preparing s" for ctx
    using that by (simp add: slot_owners_def)
  moreover have "sid \<in># slot_owners s" if "ClearPending sid \<in># sys_cleanups s" for sid
    using multi_member_split [OF that] by (auto simp: slot_owners_def)
  ultimately show ?thesis
    using owner_holds_slot [OF inv] by metis
qed

text \<open>
  C15. The slot is not leaked: when no request waits, no cleanup is outstanding and no
  future was dropped inside \<^verbatim>\<open>clear\<close> or \<^verbatim>\<open>finish\<close>, the slot is free, or it holds an active
  session with a file that can be uploaded, that is pending with attempts left, unless a
  transfer is running.
\<close>

theorem slot_not_leaked:
  assumes "v2_reach X L (initial_system st) s" "v2_session st = None"
    and "sys_preparing s = {#}" "sys_cleanups s = {#}" "sys_lost_slots s = {#}" "sys_lost_files s = {#}"
  shows "v2_session (sys_v2 s) = None \<or>
    (\<exists>a. v2_session (sys_v2 s) = Some (ActiveSession a) \<and>
       (sys_uploading s \<noteq> {#} \<or>
        (\<exists>fid f. map_of (us_files a) fid = Some f \<and> sf_status f = Pending \<and>
           sf_attempts f < MAX_UPLOAD_ATTEMPTS)))"
proof -
  note inv = reach_initial_inv [OF assms(1,2)]
  have own: "slot_owners s = {#}"
    using assms(3-5) by (simp add: slot_owners_def)
  have fown: "file_owners s = {#}" if "sys_uploading s = {#}"
    using assms(4,6) that by (simp add: file_owners_def)
  show ?thesis
  proof (cases "v2_session (sys_v2 s)")
    case (Some x)
    with inv own obtain a where a: "x = ActiveSession a" "session_ok (file_owners s) a"
      by (auto simp: system_inv_def core_defs split: session_state_v2.splits)
    then obtain fid f where f: "map_of (us_files a) fid = Some f" "\<not> is_final (sf_status f)"
      using is_complete_map_of [of a] by (auto simp: session_ok_def)
    then have "file_ok (count (file_owners s) (us_session_id a, fid)) f"
      using a(2) by (auto simp: session_ok_def)
    with f(2) fown have "sys_uploading s = {#} \<Longrightarrow> sf_status f = Pending \<and> sf_attempts f < 3"
      by (cases "sf_status f") (auto simp: file_ok_def is_final_def)
    with Some a f show ?thesis unfolding MAX_UPLOAD_ATTEMPTS_def by blast
  qed simp
qed

text \<open>
  A file of an active session is transferred by at most one request at a time, a
  transfer is running or being cleaned up exactly while its status is in progress, and it
  is started at most three times.
\<close>

theorem file_uploads_bounded:
  assumes "v2_reach X L (initial_system st) s" "v2_session st = None"
    and "v2_session (sys_v2 s) = Some (ActiveSession a)" "map_of (us_files a) fid = Some f"
  shows "sf_attempts f \<le> MAX_UPLOAD_ATTEMPTS \<and>
    count (file_owners s) (us_session_id a, fid) = (if sf_status f = InProgress then 1 else 0)"
  using reach_initial_inv [OF assms(1,2)] assms(3,4)
  by (auto simp: system_inv_def core_defs session_ok_def file_ok_def MAX_UPLOAD_ATTEMPTS_def)

text \<open>
  The end of a session is reported to the application at most once, and never for the
  session that holds the slot.
\<close>

theorem session_end_once:
  assumes "v2_reach X L (initial_system st) s" "v2_session st = None"
  shows "distinct (ended (sys_events s)) \<and>
    (\<forall>a. v2_session (sys_v2 s) = Some (ActiveSession a) \<longrightarrow>
       us_session_id a \<notin> set (ended (sys_events s)))"
  using reach_initial_inv [OF assms] by (auto simp: system_inv_def core_defs)

text \<open>
  C32. The guard disarms itself before it waits for the lock: if the connection is dropped
  during that wait, the slot stays taken for good. Whatever happens afterwards, every
  later prepare-upload request is refused with 409.
\<close>

theorem dropped_clear_blocks_forever:
  assumes "v2_reach X L (initial_system st) s" "v2_session st = None"
    and "sid \<in># sys_lost_slots s" "v2_reach X L s t"
  shows "claim_slot sid' ip (sys_v2 t) = Inl (MessageError 409 (lit ''Blocked by another session''))"
proof -
  have "system_inv t"
    using reach_inv assms(4) reach_initial_inv [OF assms(1,2)] by blast
  moreover have "sid \<in># slot_owners t"
    using lost_slots_mono [OF assms(4)] assms(3) by (auto simp: slot_owners_def dest: mset_subset_eqD)
  ultimately obtain p where "v2_session (sys_v2 t) = Some (PendingSession p)"
    by (rule owner_holds_slot)
  then show ?thesis by (simp add: claim_slot_def)
qed

section \<open>A concrete run\<close>

text \<open>A sender offers files and disconnects while the declined request waits for the lock.\<close>

definition demo_ctx :: prepare_ctx where
  "demo_ctx = \<lparr>pc_session_id = lit ''s'', pc_ip = ci_ip (demo_client 7), pc_files = pu2_files demo_offer\<rparr>"

definition demo_waiting :: "(ip_addr, u32) list_lru v2_system" where
  "demo_waiting = (initial_system demo_v2)\<lparr>sys_v2 := demo_busy, sys_preparing := {#demo_ctx#},
     sys_used := {lit ''s''},
     sys_events := [EvPrepareUpload (lit ''s'') (ci_ip (demo_client 7)) demo_register None
       (pu2_files demo_offer)]\<rparr>"

definition demo_accepted :: "(ip_addr, u32) list_lru v2_system" where
  "demo_accepted = resume_system demo_ctx (Decided (Accept [lit ''a'']))
     (fst (snd (prepare_upload_resume demo_ctx (\<lambda>fid. lit ''t'') (Decided (Accept [lit ''a''])) demo_busy)))
     [] demo_waiting"

definition demo_leaked :: "(ip_addr, u32) list_lru v2_system" where
  "demo_leaked = resume_system demo_ctx ClearAborted demo_busy [] demo_waiting"

lemma demo_v2_free: "v2_session demo_v2 = None"
  by (simp add: demo_v2_def)

lemma demo_waiting_reach: "v2_reach demo_ext list_lru_ops (initial_system demo_v2) demo_waiting"
proof -
  have "v2_step demo_ext list_lru_ops (initial_system demo_v2)
     ((initial_system demo_v2)\<lparr>sys_v2 := demo_busy,
      sys_preparing := add_mset demo_ctx (sys_preparing (initial_system demo_v2)),
      sys_used := insert (lit ''s'') (sys_used (initial_system demo_v2)),
      sys_events := sys_events (initial_system demo_v2) @ [EvPrepareUpload (lit ''s'')
        (ci_ip (demo_client 7)) demo_register None (pu2_files demo_offer)]\<rparr>)"
    unfolding demo_ctx_def
    by (rule v2_step.claim)
      (simp_all add: initial_system_def claim_slot_def demo_v2_def demo_busy_def demo_offer_def lit_def)
  then show ?thesis
    unfolding demo_waiting_def by (auto intro: v2_reach.intros simp: initial_system_def)
qed

lemma demo_leaked_reach: "v2_reach demo_ext list_lru_ops (initial_system demo_v2) demo_leaked"
  unfolding demo_leaked_def
  by (rule v2_reach.more [OF demo_waiting_reach], rule v2_step.resume [where token = "\<lambda>_. []"])
    (simp_all add: demo_waiting_def prepare_upload_resume_def)

lemma demo_accepted_reach: "v2_reach demo_ext list_lru_ops (initial_system demo_v2) demo_accepted"
proof -
  obtain res st' cs where run: "prepare_upload_resume demo_ctx (\<lambda>_. lit ''t'')
      (Decided (Accept [lit ''a''])) demo_busy = (res, st', cs)" by (metis prod.exhaust)
  then have "cs = []"
    by (auto simp: prepare_upload_resume_def Let_def split: if_splits)
  with run have acc: "demo_accepted =
      resume_system demo_ctx (Decided (Accept [lit ''a''])) st' cs demo_waiting"
    by (simp add: demo_accepted_def)
  show ?thesis
    unfolding acc
    by (rule v2_reach.more [OF demo_waiting_reach], rule v2_step.resume)
      (use run in \<open>simp_all add: demo_waiting_def\<close>)
qed

theorem slot_has_one_owner_witness:
  "\<exists>p. v2_session (sys_v2 demo_waiting) = Some (PendingSession p) \<and> ps_session_id p = lit ''s''"
  using slot_has_one_owner [OF demo_waiting_reach demo_v2_free]
  by (auto simp: demo_waiting_def demo_ctx_def)

lemma demo_accepted_session:
  "v2_session (sys_v2 demo_accepted) = Some (ActiveSession
     \<lparr>us_session_id = lit ''s'', us_sender_ip = ci_ip (demo_client 7),
      us_files = [(lit ''a'', \<lparr>sf_dto = demo_file (lit ''a''), sf_token = lit ''t'',
        sf_status = Pending, sf_attempts = 0\<rparr>)]\<rparr>)"
  by (simp add: demo_accepted_def resume_system_def prepare_upload_resume_def Let_def
      accepted_files_def demo_ctx_def demo_offer_def lit_def)

theorem slot_not_leaked_witness:
  "\<exists>a fid f. v2_session (sys_v2 demo_accepted) = Some (ActiveSession a) \<and>
     map_of (us_files a) fid = Some f \<and> sf_status f = Pending"
proof -
  have "sys_preparing demo_accepted = {#}" "sys_cleanups demo_accepted = {#}"
    "sys_lost_slots demo_accepted = {#}" "sys_lost_files demo_accepted = {#}"
    "sys_uploading demo_accepted = {#}"
    by (simp_all add: demo_accepted_def resume_system_def demo_waiting_def initial_system_def)
  then show ?thesis
    using slot_not_leaked [OF demo_accepted_reach demo_v2_free] demo_accepted_session by auto
qed

theorem file_uploads_bounded_witness:
  "count (file_owners demo_accepted) (lit ''s'', lit ''a'') = 0"
  using file_uploads_bounded [OF demo_accepted_reach demo_v2_free demo_accepted_session, of "lit ''a''"]
  by simp

theorem session_end_once_witness:
  "lit ''s'' \<notin> set (ended (sys_events demo_accepted))"
  using session_end_once [OF demo_accepted_reach demo_v2_free] demo_accepted_session by simp

theorem dropped_clear_blocks_forever_witness:
  "claim_slot (lit ''n'') (ci_ip (demo_client 9)) (sys_v2 demo_leaked) =
     Inl (MessageError 409 (lit ''Blocked by another session''))"
  by (rule dropped_clear_blocks_forever [OF demo_leaked_reach demo_v2_free _ v2_reach.start, of "lit ''s''"])
    (simp add: demo_leaked_def resume_system_def demo_ctx_def)

end
