(* ===== verification/FB_Web.thy ===== *)
theory FB_Web
  imports FB_Upload "HOL-Library.Multiset"
begin

text \<open>
  Web send: the download page and the download API for browsers
  (\<^verbatim>\<open>packages/core/src/http/server/web.rs\<close>). As for the upload endpoints, a handler is
  split where it awaits the application, and a transition system interleaves the parts.
\<close>

section \<open>State and events\<close>

record web_send_session =
  wss_ip :: peer_ip
  wss_accepted :: bool

record 'c web_page_state =
  wp_files :: "(rstring, file_dto) hash_map"
  wp_pin :: "rstring option"
  wp_sessions :: "rstring \<rightharpoonup> web_send_session"
  wp_pin_attempts :: 'c

record web_send_config =
  wc_files :: "(rstring, file_dto) hash_map"
  wc_pin :: "rstring option"

definition web_page_state_new ::
  "(ip_addr, u32, 'c) lru_ops \<Rightarrow> web_send_config \<Rightarrow> 'c web_page_state"
where
  "web_page_state_new L config =
     \<lparr>wp_files = wc_files config, wp_pin = wc_pin config, wp_sessions = Map.empty,
      wp_pin_attempts = lru_new L 200\<rparr>"

datatype web_send_event =
    WePrepareDownload peer_ip rstring "rstring option"
  | WeFileDownload rstring rstring file_dto

definition default_web_i18n :: web_i18n where
  "default_web_i18n =
     \<lparr>i18n_waiting = lit ''Waiting for response'' @ [8230], i18n_enter_pin = lit ''Enter PIN'',
      i18n_invalid_pin = lit ''Invalid PIN'', i18n_too_many_attempts = lit ''Too many attempts'',
      i18n_rejected = lit ''Rejected'',
      i18n_upload_rejected = lit ''The recipient has rejected the request.'',
      i18n_busy = lit ''The recipient is busy with another request.'',
      i18n_files = lit ''Files'', i18n_file_name = lit ''File name'', i18n_size = lit ''Size''\<rparr>"

section \<open>Pages\<close>

definition html_response :: "status \<Rightarrow> web_page \<Rightarrow> rstring \<Rightarrow> response" where
  "html_response code page content_type =
     \<lparr>rs_status = code, rs_headers = [(lit ''content-type'', content_type)], rs_body = PageBody page\<rparr>"

definition error_403_page :: response where
  "error_403_page = html_response 403 ERROR_403_HTML (lit ''text/html; charset=utf-8'')"

definition index :: "bool \<Rightarrow> bool \<Rightarrow> response" where
  "index web web_upload =
     (if web then html_response 200 DOWNLOAD_HTML (lit ''text/html; charset=utf-8'')
      else if web_upload then html_response 200 UPLOAD_HTML (lit ''text/html; charset=utf-8'')
      else error_403_page)"

definition i18n :: "web_i18n option \<Rightarrow> (response, app_error) result" where
  "i18n translations =
     and_then (ok_or translations (MessageError 403 (lit ''Web pages not initialized.''))) (\<lambda>t.
     Inr (json_into_response 200 (I18nBody t)))"

definition require_web :: "'w option \<Rightarrow> ('w, app_error) result" where
  "require_web web = ok_or web (MessageError 403 (lit ''Web send not initialized.''))"

definition file_list_response :: "device_info \<Rightarrow> 'c web_page_state \<Rightarrow> rstring \<Rightarrow> response" where
  "file_list_response info web session_id =
     json_into_response 200 (PrepareDownloadBody
       \<lparr>pd2_info = \<lparr>i2_alias = di_alias info, i2_version = PROTOCOL_VERSION_V2,
          i2_device_model = di_device_model info, i2_device_type = di_device_type info,
          i2_fingerprint = di_token info, i2_download = True\<rparr>,
        pd2_session_id = session_id, pd2_files = wp_files web\<rparr>)"

section \<open>Preparing a download\<close>

text \<open>The check shared by the reload of the page and by a download.\<close>

definition session_valid :: "'c web_page_state \<Rightarrow> rstring \<Rightarrow> peer_ip \<Rightarrow> bool" where
  "session_valid web session_id ip =
     (case wp_sessions web session_id of
        Some session \<Rightarrow> wss_accepted session \<and> wss_ip session = ip
      | None \<Rightarrow> False)"

datatype download_start = ListNow response | AwaitDecision rstring

definition prepare_download_begin ::
  "ext \<Rightarrow> (ip_addr, u32, 'c) lru_ops \<Rightarrow> device_info \<Rightarrow> 'c web_page_state \<Rightarrow> request \<Rightarrow>
     request_client_info \<Rightarrow>
     (download_start, app_error) result \<times> 'c web_page_state \<times> web_send_event list"
where
  "prepare_download_begin X L info web req ci =
     (let q = parse_query X (rq_query req);
          reload = (case q (lit ''sessionId'') of
              Some session_id \<Rightarrow> if session_valid web session_id (ci_ip ci) then Some session_id else None
            | None \<Rightarrow> None)
      in case reload of
          Some session_id \<Rightarrow> (Inr (ListNow (file_list_response info web session_id)), web, [])
        | None \<Rightarrow>
            let (pin, attempts) = check_pin L (wp_pin web) (wp_pin_attempts web) q (pip_ip (ci_ip ci));
                web = web\<lparr>wp_pin_attempts := attempts\<rparr>
            in case pin of
                Inl e \<Rightarrow> (Inl e, web, [])
              | Inr _ \<Rightarrow>
                  let user_agent = Option.bind (header_get (rq_headers req) (lit ''user-agent''))
                                     (ext_header_text X);
                      session_id = peer_ip_to_string (ci_ip ci)
                  in (Inr (AwaitDecision session_id),
                      web\<lparr>wp_sessions := (wp_sessions web)(session_id \<mapsto>
                        \<lparr>wss_ip = ci_ip ci, wss_accepted = False\<rparr>)\<rparr>,
                      [WePrepareDownload (ci_ip ci) session_id user_agent]))"

definition clear_pending_web :: "rstring \<Rightarrow> 'c web_page_state \<Rightarrow> 'c web_page_state" where
  "clear_pending_web session_id web =
     (case wp_sessions web session_id of
        Some session \<Rightarrow>
          if \<not> wss_accepted session
          then web\<lparr>wp_sessions := (wp_sessions web)(session_id := None)\<rparr> else web
      | None \<Rightarrow> web)"

definition accept_web :: "rstring \<Rightarrow> 'c web_page_state \<Rightarrow> 'c web_page_state" where
  "accept_web session_id web =
     (case wp_sessions web session_id of
        Some session \<Rightarrow>
          web\<lparr>wp_sessions := (wp_sessions web)(session_id \<mapsto> session\<lparr>wss_accepted := True\<rparr>)\<rparr>
      | None \<Rightarrow> web)"

datatype web_outcome =
    WebChannelClosed
  | WebDecisionDropped
  | WebAborted
  | WebClearAborted
  | WebDecided bool

text \<open>The last component lists the sessions whose armed guard spawns a cleanup task.\<close>

definition prepare_download_resume ::
  "device_info \<Rightarrow> rstring \<Rightarrow> web_outcome \<Rightarrow> 'c web_page_state \<Rightarrow>
     (response, app_error) result option \<times> 'c web_page_state \<times> rstring list"
where
  "prepare_download_resume info session_id outcome web =
     (case outcome of
        WebChannelClosed \<Rightarrow> (Some (Inl (StatusError 500)), web, [session_id])
      | WebDecisionDropped \<Rightarrow> (Some (Inl (StatusError 500)), web, [session_id])
      | WebAborted \<Rightarrow> (None, web, [session_id])
      | WebClearAborted \<Rightarrow> (None, web, [])
      | WebDecided False \<Rightarrow>
          (Some (Inl (MessageError 403 (lit ''File transfer rejected.''))),
           clear_pending_web session_id web, [])
      | WebDecided True \<Rightarrow>
          let web = accept_web session_id web
          in (Some (Inr (file_list_response info web session_id)), web, []))"

definition prepare_download ::
  "ext \<Rightarrow> (ip_addr, u32, 'c) lru_ops \<Rightarrow> device_info \<Rightarrow> 'c web_page_state \<Rightarrow> request \<Rightarrow>
     request_client_info \<Rightarrow> web_outcome \<Rightarrow>
     (response, app_error) result option \<times> 'c web_page_state \<times> web_send_event list"
where
  "prepare_download X L info web req ci outcome =
     (case prepare_download_begin X L info web req ci of
        (Inl e, web', evs) \<Rightarrow> (Some (Inl e), web', evs)
      | (Inr (ListNow res), web', evs) \<Rightarrow> (Some (Inr res), web', evs)
      | (Inr (AwaitDecision session_id), web', evs) \<Rightarrow>
          let (res, web'', cleanups) = prepare_download_resume info session_id outcome web'
          in (res, fold clear_pending_web cleanups web'', evs))"

section \<open>Downloading a file\<close>

text \<open>The characters of a file name that are percent-encoded.\<close>

definition FILE_NAME_ENCODE_SET :: "rchar \<Rightarrow> bool" where
  "FILE_NAME_ENCODE_SET c \<longleftrightarrow> \<not> is_ascii_alphanumeric c \<and> c \<notin> set (lit ''-_.!~*'') \<and> c \<notin> {39, 40, 41}"

definition attachment_header :: "ext \<Rightarrow> rstring \<Rightarrow> rstring" where
  "attachment_header X file_name =
     lit ''attachment; filename='' @ [34] @
     ext_percent_encode X FILE_NAME_ENCODE_SET (map (\<lambda>c. if c = 47 then 45 else c) file_name) @ [34]"

definition download_begin ::
  "ext \<Rightarrow> 'c web_page_state \<Rightarrow> request \<Rightarrow> request_client_info \<Rightarrow>
     (rstring \<times> rstring \<times> file_dto, app_error) result"
where
  "download_begin X web req ci =
     (let q = parse_query X (rq_query req) in
      and_then (ok_or (q (lit ''sessionId'')) (BadRequest (lit ''Missing sessionId.''))) (\<lambda>session_id.
      and_then (ensure (session_valid web session_id (ci_ip ci))
                  (MessageError 403 (lit ''Invalid sessionId.''))) (\<lambda>_.
      and_then (ok_or (q (lit ''fileId'')) (BadRequest (lit ''Missing fileId.''))) (\<lambda>file_id.
      and_then (ok_or (map_of (wp_files web) file_id) (MessageError 403 (lit ''Invalid fileId.''))) (\<lambda>dto.
      Inr (session_id, file_id, dto))))))"

text \<open>
  \<open>content\<close> is the answer of the application: \<open>None\<close> when the event channel is closed or
  the content channel is dropped. \<open>taken\<close> is how many chunks the client accepts.
\<close>

definition download ::
  "ext \<Rightarrow> 'c web_page_state \<Rightarrow> request \<Rightarrow> request_client_info \<Rightarrow> file_content option \<Rightarrow> nat option \<Rightarrow>
     (response, app_error) result \<times> web_send_event list"
where
  "download X web req ci content taken =
     (case download_begin X web req ci of
        Inl e \<Rightarrow> (Inl e, [])
      | Inr (session_id, file_id, dto) \<Rightarrow>
          (case content of
             None \<Rightarrow> Inl (StatusError 500)
           | Some c \<Rightarrow>
               and_then (ensure (ext_header_value X (attachment_header X (fd_file_name dto)))
                           (StatusError 500)) (\<lambda>_.
               Inr \<lparr>rs_status = 200,
                 rs_headers = [(lit ''content-type'', lit ''application/octet-stream''),
                   (lit ''content-disposition'', attachment_header X (fd_file_name dto)),
                   (lit ''content-length'', show_nat (unat (fd_size dto)))],
                 rs_body = StreamBody (into_receiver taken c)\<rparr>),
           [WeFileDownload session_id file_id dto]))"

section \<open>Interleavings\<close>

text \<open>
  The requests waiting for a decision and the cleanup tasks, by session id. \<open>wsys_granted\<close>
  records the session ids whose request the application has accepted.
\<close>

record 'c web_system =
  wsys_web :: "'c web_page_state"
  wsys_waiting :: "rstring multiset"
  wsys_cleanups :: "rstring multiset"
  wsys_granted :: "rstring set"

definition initial_web :: "'c web_page_state \<Rightarrow> 'c web_system" where
  "initial_web web = \<lparr>wsys_web = web, wsys_waiting = {#}, wsys_cleanups = {#}, wsys_granted = {}\<rparr>"

inductive web_step ::
  "ext \<Rightarrow> (ip_addr, u32, 'c) lru_ops \<Rightarrow> device_info \<Rightarrow> 'c web_system \<Rightarrow> 'c web_system \<Rightarrow> bool"
  for X :: ext and L :: "(ip_addr, u32, 'c) lru_ops" and info :: device_info
where
  refused: "prepare_download_begin X L info (wsys_web s) req ci = (Inl e, web', evs) \<Longrightarrow>
    web_step X L info s (s\<lparr>wsys_web := web'\<rparr>)"
| reload: "prepare_download_begin X L info (wsys_web s) req ci = (Inr (ListNow res), web', evs) \<Longrightarrow>
    web_step X L info s (s\<lparr>wsys_web := web'\<rparr>)"
| await: "prepare_download_begin X L info (wsys_web s) req ci = (Inr (AwaitDecision sid), web', evs) \<Longrightarrow>
    web_step X L info s (s\<lparr>wsys_web := web', wsys_waiting := add_mset sid (wsys_waiting s)\<rparr>)"
| decide: "sid \<in># wsys_waiting s \<Longrightarrow>
    prepare_download_resume info sid outcome (wsys_web s) = (res, web', cs) \<Longrightarrow>
    web_step X L info s (s\<lparr>wsys_web := web', wsys_waiting := wsys_waiting s - {#sid#},
      wsys_cleanups := wsys_cleanups s + mset cs,
      wsys_granted := (if outcome = WebDecided True then {sid} else {}) \<union> wsys_granted s\<rparr>)"
| web_cleanup: "sid \<in># wsys_cleanups s \<Longrightarrow>
    web_step X L info s (s\<lparr>wsys_web := clear_pending_web sid (wsys_web s),
      wsys_cleanups := wsys_cleanups s - {#sid#}\<rparr>)"

inductive web_reach ::
  "ext \<Rightarrow> (ip_addr, u32, 'c) lru_ops \<Rightarrow> device_info \<Rightarrow> 'c web_system \<Rightarrow> 'c web_system \<Rightarrow> bool"
  for X :: ext and L :: "(ip_addr, u32, 'c) lru_ops" and info :: device_info and s0 :: "'c web_system"
where
  web_start: "web_reach X L info s0 s0"
| web_more: "web_reach X L info s0 s \<Longrightarrow> web_step X L info s t \<Longrightarrow> web_reach X L info s0 t"

text \<open>Entries are keyed by their address, and an accepted one was granted.\<close>

definition sessions_ok :: "rstring set \<Rightarrow> (rstring \<rightharpoonup> web_send_session) \<Rightarrow> bool" where
  "sessions_ok granted m \<longleftrightarrow>
     (\<forall>sid s. m sid = Some s \<longrightarrow> sid = peer_ip_to_string (wss_ip s) \<and> (wss_accepted s \<longrightarrow> sid \<in> granted))"

lemma begin_sessions:
  assumes "prepare_download_begin X L info web req ci = (r, web', evs)"
  shows "wp_sessions web' = wp_sessions web \<and> (\<nexists>sid. r = Inr (AwaitDecision sid)) \<or>
    r = Inr (AwaitDecision (peer_ip_to_string (ci_ip ci))) \<and>
    wp_sessions web' = (wp_sessions web)(peer_ip_to_string (ci_ip ci) \<mapsto>
      \<lparr>wss_ip = ci_ip ci, wss_accepted = False\<rparr>)"
  using assms
  by (auto simp: prepare_download_begin_def Let_def split: option.splits prod.splits sum.splits if_splits)

lemma clear_pending_web_lookup:
  "wp_sessions (clear_pending_web sid web) k =
     (if k = sid then (case wp_sessions web k of Some s \<Rightarrow> if wss_accepted s then Some s else None | None \<Rightarrow> None)
      else wp_sessions web k)"
  by (auto simp: clear_pending_web_def split: option.splits)

lemma clear_pending_web_ok:
  "sessions_ok G (wp_sessions web) \<Longrightarrow> sessions_ok G (wp_sessions (clear_pending_web sid web))"
  by (auto simp: sessions_ok_def clear_pending_web_lookup split: option.splits if_splits)

lemma accept_web_ok:
  "sessions_ok G (wp_sessions web) \<Longrightarrow> sessions_ok (insert sid G) (wp_sessions (accept_web sid web))"
  by (auto simp: sessions_ok_def accept_web_def split: option.splits if_splits)

lemma sessions_ok_mono: "sessions_ok G m \<Longrightarrow> G \<subseteq> H \<Longrightarrow> sessions_ok H m"
  by (auto simp: sessions_ok_def)

lemma resume_ok:
  assumes "sessions_ok G (wp_sessions web)"
    and "prepare_download_resume info sid outcome web = (res, web', cs)"
  shows "sessions_ok ((if outcome = WebDecided True then {sid} else {}) \<union> G) (wp_sessions web')"
  using assms
  by (auto simp: prepare_download_resume_def Let_def clear_pending_web_ok accept_web_ok
      split: web_outcome.splits bool.splits)

lemma web_step_ok:
  assumes "web_step X L info s t" "sessions_ok (wsys_granted s) (wp_sessions (wsys_web s))"
  shows "sessions_ok (wsys_granted t) (wp_sessions (wsys_web t))"
  using assms
proof (cases rule: web_step.cases)
  case (refused req ci e web' evs)
  with assms(2) begin_sessions [OF refused(2)] show ?thesis by simp
next
  case (reload req ci res web' evs)
  with assms(2) begin_sessions [OF reload(2)] show ?thesis by simp
next
  case (await req ci sid web' evs)
  with assms(2) begin_sessions [OF await(2)] show ?thesis by (auto simp: sessions_ok_def)
next
  case (decide sid outcome res web' cs)
  with resume_ok [OF assms(2) decide(3)] show ?thesis by simp
next
  case (web_cleanup sid)
  with assms(2) show ?thesis by (simp add: clear_pending_web_ok)
qed

lemma web_reach_ok:
  "web_reach X L info s t \<Longrightarrow> sessions_ok (wsys_granted s) (wp_sessions (wsys_web s)) \<Longrightarrow>
     sessions_ok (wsys_granted t) (wp_sessions (wsys_web t))"
  by (induction rule: web_reach.induct) (auto intro: web_step_ok)

lemma download_begin_ok:
  "download_begin X web req ci = Inr (sid, fid, dto) \<longleftrightarrow>
     parse_query X (rq_query req) (lit ''sessionId'') = Some sid \<and>
     session_valid web sid (ci_ip ci) \<and>
     parse_query X (rq_query req) (lit ''fileId'') = Some fid \<and>
     map_of (wp_files web) fid = Some dto"
  by (auto simp: download_begin_def Let_def res_simps)

text \<open>What is documented of percent-encoding and of header values.\<close>

definition percent_encoder_ok :: "ext \<Rightarrow> bool" where
  "percent_encoder_ok X \<longleftrightarrow>
     (\<forall>P s. set (ext_percent_encode X P s) \<subseteq> {c. c < 128 \<and> \<not> P c} \<union> set (lit ''%0123456789ABCDEF'')) \<and>
     (\<forall>s. (\<forall>c \<in> set s. 32 \<le> c \<and> c < 127) \<longrightarrow> ext_header_value X s)"

lemma encode_set_chars: "c < 128 \<Longrightarrow> \<not> FILE_NAME_ENCODE_SET c \<Longrightarrow> 32 < c \<and> c < 127 \<and> c \<notin> {34, 47, 92}"
  by (auto simp: FILE_NAME_ENCODE_SET_def is_ascii_alphanumeric_def is_ascii_alphabetic_def
      is_ascii_digit_def lit_def)

lemma encoded_name_chars:
  assumes "percent_encoder_ok X"
  shows "\<forall>c \<in> set (ext_percent_encode X FILE_NAME_ENCODE_SET s). 32 < c \<and> c < 127 \<and> c \<notin> {34, 47, 92}"
proof
  fix c assume "c \<in> set (ext_percent_encode X FILE_NAME_ENCODE_SET s)"
  with assms have "c < 128 \<and> \<not> FILE_NAME_ENCODE_SET c \<or> c \<in> set (lit ''%0123456789ABCDEF'')"
    unfolding percent_encoder_ok_def by blast
  then show "32 < c \<and> c < 127 \<and> c \<notin> {34, 47, 92}"
    using encode_set_chars [of c] by (auto simp: lit_def)
qed

section \<open>Properties\<close>

text \<open>
  C6. Consent: in every interleaving of web requests, file content is requested from the
  application only for a client whose own session was accepted, that is for an address
  whose prepare-download request the application has granted, and only for a file that is
  offered.
\<close>

theorem download_needs_consent:
  assumes "web_reach X L info (initial_web (web_page_state_new L config)) s"
    and "download X (wsys_web s) req ci content taken = (res, [WeFileDownload sid fid dto])"
  shows "sid = peer_ip_to_string (ci_ip ci) \<and> sid \<in> wsys_granted s \<and>
    map_of (wp_files (wsys_web s)) fid = Some dto"
proof -
  have "sessions_ok (wsys_granted s) (wp_sessions (wsys_web s))"
    by (rule web_reach_ok [OF assms(1)])
      (simp add: initial_web_def web_page_state_new_def sessions_ok_def)
  moreover have "download_begin X (wsys_web s) req ci = Inr (sid, fid, dto)"
    using assms(2) by (auto simp: download_def split: sum.splits prod.splits)
  then have "session_valid (wsys_web s) sid (ci_ip ci)" "map_of (wp_files (wsys_web s)) fid = Some dto"
    by (simp_all add: download_begin_ok)
  ultimately show ?thesis
    by (auto simp: sessions_ok_def session_valid_def split: option.splits) metis
qed

text \<open>
  A download that is let through is answered with the file's content under the size
  the offer announces, and the file name cannot break out of the header: with an encoder
  that keeps to its set, the quoted name has no quote, separator or control character, so
  the header is always valid and the only possible failure is a silent application.
\<close>

theorem download_answer:
  assumes "percent_encoder_ok X" "download_begin X web req ci = Inr (sid, fid, dto)"
  shows "fst (download X web req ci content taken) =
      (case content of None \<Rightarrow> Inl (StatusError 500)
       | Some c \<Rightarrow> Inr \<lparr>rs_status = 200,
           rs_headers = [(lit ''content-type'', lit ''application/octet-stream''),
             (lit ''content-disposition'', attachment_header X (fd_file_name dto)),
             (lit ''content-length'', show_nat (unat (fd_size dto)))],
           rs_body = StreamBody (into_receiver taken c)\<rparr>) \<and>
    (\<exists>name. attachment_header X (fd_file_name dto) = lit ''attachment; filename='' @ [34] @ name @ [34] \<and>
       set name \<inter> ({c. c \<le> 32} \<union> {34, 47, 92}) = {})"
proof -
  let ?name = "ext_percent_encode X FILE_NAME_ENCODE_SET (map (\<lambda>c. if c = 47 then 45 else c) (fd_file_name dto))"
  have chars: "\<forall>c \<in> set ?name. 32 < c \<and> c < 127 \<and> c \<notin> {34, 47, 92}"
    by (rule encoded_name_chars [OF assms(1)])
  then have all: "\<forall>c \<in> set (attachment_header X (fd_file_name dto)). 32 \<le> c \<and> c < 127"
    by (auto simp: attachment_header_def lit_def)
  have "ext_header_value X (attachment_header X (fd_file_name dto))"
    using assms(1) all by (simp add: percent_encoder_ok_def)
  moreover have "set ?name \<inter> ({c. c \<le> 32} \<union> {34, 47, 92}) = {}"
    using chars by fastforce
  ultimately show ?thesis
    using assms(2) by (auto simp: download_def attachment_header_def ensure_def split: option.splits)
qed

text \<open>
  C33. Sessions are keyed by the address and a guard does not know which request it
  belongs to: when a client reloads the page while its first request still waits, and the
  first request is then declined and the second accepted, the second is answered with
  the list of files, but its session is gone and its downloads are refused with 403.
\<close>

theorem superseded_request_loses_session:
  assumes "prepare_download_begin X L info web req ci = (Inr (AwaitDecision sid), web1, evs1)"
    and "prepare_download_begin X L info web1 req' ci = (Inr (AwaitDecision sid'), web2, evs2)"
    and "prepare_download_resume info sid (WebDecided False) web2 = (res1, web3, cs1)"
    and "prepare_download_resume info sid' (WebDecided True) web3 = (res2, web4, cs2)"
  shows "sid' = sid \<and> res2 = Some (Inr (file_list_response info web4 sid)) \<and>
    wp_sessions web4 sid = None \<and> \<not> session_valid web4 sid (ci_ip ci)"
proof -
  have sid: "sid = peer_ip_to_string (ci_ip ci)" "sid' = sid"
    and web2: "wp_sessions web2 sid = Some \<lparr>wss_ip = ci_ip ci, wss_accepted = False\<rparr>"
    using begin_sessions [OF assms(1)] begin_sessions [OF assms(2)] by auto
  have "wp_sessions web3 sid = None"
    using assms(3) web2 by (auto simp: prepare_download_resume_def clear_pending_web_lookup)
  then show ?thesis
    using assms(4) sid
    by (auto simp: prepare_download_resume_def Let_def accept_web_def session_valid_def)
qed

section \<open>A concrete exchange\<close>

definition demo_info :: device_info where
  "demo_info = \<lparr>di_alias = lit ''B'', di_version = lit ''2.2'', di_device_model = None,
     di_device_type = None, di_token = lit ''T''\<rparr>"

definition demo_web :: "(ip_addr, u32) list_lru web_page_state" where
  "demo_web = web_page_state_new list_lru_ops
     \<lparr>wc_files = [(lit ''a'', demo_file (lit ''a''))], wc_pin = None\<rparr>"

definition demo_web_waiting :: "(ip_addr, u32) list_lru web_page_state" where
  "demo_web_waiting = demo_web\<lparr>wp_sessions := (wp_sessions demo_web)(lit ''0.0.0.7'' \<mapsto>
     \<lparr>wss_ip = ci_ip (demo_client 7), wss_accepted = False\<rparr>)\<rparr>"

definition demo_web_open :: "(ip_addr, u32) list_lru web_page_state" where
  "demo_web_open = accept_web (lit ''0.0.0.7'') demo_web_waiting"

definition demo_download :: request where
  "demo_download = demo_request (lit ''sessionId=0.0.0.7&fileId=a'')"

lemma demo_key: "peer_ip_to_string (ci_ip (demo_client 7)) = lit ''0.0.0.7''"
  by (simp add: peer_ip_to_string_def demo_client_def demo_ip_def show_ipv4_def ipv4_octets_def
      lit_def show_nat.simps)

lemma demo_await:
  "prepare_download_begin demo_ext list_lru_ops demo_info web (demo_request []) (demo_client 7) =
     (Inr (AwaitDecision (lit ''0.0.0.7'')), web\<lparr>wp_sessions := (wp_sessions web)(lit ''0.0.0.7'' \<mapsto>
        \<lparr>wss_ip = ci_ip (demo_client 7), wss_accepted = False\<rparr>)\<rparr>,
      [WePrepareDownload (ci_ip (demo_client 7)) (lit ''0.0.0.7'') None])"
  if "wp_pin web = None" for web
proof -
  have "parse_query demo_ext (rq_query (demo_request [])) (lit ''sessionId'') = None" by code_simp
  then show ?thesis
    using that by (simp add: prepare_download_begin_def check_pin_def demo_key header_get_def demo_request_def
        Let_def)
qed

lemma demo_download_begin:
  "download_begin demo_ext demo_web_open demo_download (demo_client 7) =
     Inr (lit ''0.0.0.7'', lit ''a'', demo_file (lit ''a''))"
proof -
  have "parse_query demo_ext (rq_query demo_download) (lit ''sessionId'') = Some (lit ''0.0.0.7'')"
    "parse_query demo_ext (rq_query demo_download) (lit ''fileId'') = Some (lit ''a'')"
    by code_simp+
  then show ?thesis
    by (simp add: download_begin_ok session_valid_def demo_web_open_def accept_web_def
        demo_web_waiting_def demo_web_def web_page_state_new_def)
qed

lemma demo_web_reach:
  "web_reach demo_ext list_lru_ops demo_info (initial_web demo_web)
     \<lparr>wsys_web = demo_web_open, wsys_waiting = {#}, wsys_cleanups = {#}, wsys_granted = {lit ''0.0.0.7''}\<rparr>"
proof -
  let ?s1 = "\<lparr>wsys_web = demo_web_waiting, wsys_waiting = {#lit ''0.0.0.7''#}, wsys_cleanups = {#},
    wsys_granted = {}\<rparr>"
  have "prepare_download_begin demo_ext list_lru_ops demo_info (wsys_web (initial_web demo_web))
      (demo_request []) (demo_client 7) = (Inr (AwaitDecision (lit ''0.0.0.7'')), demo_web_waiting,
      [WePrepareDownload (ci_ip (demo_client 7)) (lit ''0.0.0.7'') None])"
    using demo_await [of demo_web]
    by (simp add: initial_web_def demo_web_waiting_def demo_web_def web_page_state_new_def)
  from web_step.await [OF this]
  have "web_step demo_ext list_lru_ops demo_info (initial_web demo_web) ?s1"
    by (simp add: initial_web_def)
  moreover have "web_step demo_ext list_lru_ops demo_info ?s1
      \<lparr>wsys_web = demo_web_open, wsys_waiting = {#}, wsys_cleanups = {#}, wsys_granted = {lit ''0.0.0.7''}\<rparr>"
    using web_step.decide [of "lit ''0.0.0.7''" ?s1 demo_info "WebDecided True"]
    by (simp add: prepare_download_resume_def Let_def demo_web_open_def)
  ultimately show ?thesis
    by (rule web_reach.web_more [OF web_reach.web_more [OF web_reach.web_start]])
qed

theorem download_needs_consent_witness:
  "map_of (wp_files demo_web_open) (lit ''a'') = Some (demo_file (lit ''a''))"
  using download_needs_consent [OF demo_web_reach [unfolded demo_web_def], of demo_download "demo_client 7" None None
      "Inl (StatusError 500)" "lit ''0.0.0.7''" "lit ''a''" "demo_file (lit ''a'')"]
  by (simp add: download_def demo_download_begin)

theorem download_answer_witness:
  "is_ok (fst (download demo_ext demo_web_open demo_download (demo_client 7)
     (Some (ContentStream [[1], [2]])) None))"
proof -
  have "percent_encoder_ok demo_ext"
    by (auto simp: percent_encoder_ok_def demo_ext_def lit_def split: if_splits)
  from download_answer [OF this demo_download_begin] show ?thesis by (simp add: is_ok_def)
qed

theorem superseded_request_loses_session_witness:
  "\<exists>web1 web2 web3 web4 evs1 evs2 res1 res2 cs1 cs2.
     prepare_download_begin demo_ext list_lru_ops demo_info demo_web (demo_request []) (demo_client 7)
       = (Inr (AwaitDecision (lit ''0.0.0.7'')), web1, evs1) \<and>
     prepare_download_begin demo_ext list_lru_ops demo_info web1 (demo_request []) (demo_client 7)
       = (Inr (AwaitDecision (lit ''0.0.0.7'')), web2, evs2) \<and>
     prepare_download_resume demo_info (lit ''0.0.0.7'') (WebDecided False) web2 = (res1, web3, cs1) \<and>
     prepare_download_resume demo_info (lit ''0.0.0.7'') (WebDecided True) web3 = (res2, web4, cs2) \<and>
     \<not> session_valid web4 (lit ''0.0.0.7'') (ci_ip (demo_client 7))"
proof -
  have "wp_pin demo_web = None" by (simp add: demo_web_def web_page_state_new_def)
  then obtain web1 evs1 where b1: "prepare_download_begin demo_ext list_lru_ops demo_info demo_web
      (demo_request []) (demo_client 7) = (Inr (AwaitDecision (lit ''0.0.0.7'')), web1, evs1)"
      "wp_pin web1 = None"
    using demo_await by simp
  obtain web2 evs2 where b2: "prepare_download_begin demo_ext list_lru_ops demo_info web1
      (demo_request []) (demo_client 7) = (Inr (AwaitDecision (lit ''0.0.0.7'')), web2, evs2)"
    using demo_await [OF b1(2)] by blast
  obtain res1 web3 cs1 where
    r1: "prepare_download_resume demo_info (lit ''0.0.0.7'') (WebDecided False) web2 = (res1, web3, cs1)"
    by (metis prod.exhaust)
  obtain res2 web4 cs2 where
    r2: "prepare_download_resume demo_info (lit ''0.0.0.7'') (WebDecided True) web3 = (res2, web4, cs2)"
    by (metis prod.exhaust)
  show ?thesis
    using superseded_request_loses_session [OF b1(1) b2 r1 r2] b1 b2 r1 r2 by blast
qed

end
