(* ===== verification/FB_RemoteFs.thy ===== *)
theory FB_RemoteFs
  imports FB_Upload
begin

text \<open>
  The remote file system endpoints (\<^verbatim>\<open>packages/core/src/http/server/firebox.rs\<close>). The
  application owns the trust store and the file system and answers one event per request;
  its answers are the functions of \<open>fs_app\<close>, where \<open>None\<close> stands for a closed or dropped
  channel and for the 30 second timeout. Every handler returns its result with the events
  it has sent.
\<close>

section \<open>State, events and answers\<close>

definition MAX_JSON_BODY_SIZE :: nat where "MAX_JSON_BODY_SIZE = 64 * 1024"
definition DEFAULT_MAX_WRITE_SIZE :: u64 where "DEFAULT_MAX_WRITE_SIZE = push_bit 40 1"
definition DEFAULT_MAX_CONCURRENT_REQUESTS :: nat where "DEFAULT_MAX_CONCURRENT_REQUESTS = 64"

record remote_fs_peer =
  rp_ip :: peer_ip
  rp_fingerprint :: rstring

record remote_fs_read_source =
  frs_entry :: remote_fs_entry
  frs_content :: file_content

datatype remote_fs_event =
    FsRoots remote_fs_peer
  | FsList remote_fs_peer remote_fs_list_request
  | FsMetadata remote_fs_peer remote_fs_location
  | FsCreateDirectory remote_fs_peer remote_fs_create_directory_request
  | FsRename remote_fs_peer remote_fs_rename_request
  | FsMove remote_fs_peer remote_fs_move_request
  | FsDelete remote_fs_peer remote_fs_delete_request
  | FsRead remote_fs_peer remote_fs_location
  | FsWrite remote_fs_peer remote_fs_write_request

record fs_app =
  fa_roots :: "remote_fs_peer \<Rightarrow> remote_fs_root list fs_result option"
  fa_list :: "remote_fs_peer \<Rightarrow> remote_fs_list_request \<Rightarrow> remote_fs_list_response fs_result option"
  fa_metadata :: "remote_fs_peer \<Rightarrow> remote_fs_location \<Rightarrow> remote_fs_entry fs_result option"
  fa_create :: "remote_fs_peer \<Rightarrow> remote_fs_create_directory_request \<Rightarrow> remote_fs_entry fs_result option"
  fa_rename :: "remote_fs_peer \<Rightarrow> remote_fs_rename_request \<Rightarrow> remote_fs_entry fs_result option"
  fa_move :: "remote_fs_peer \<Rightarrow> remote_fs_move_request \<Rightarrow> remote_fs_entry fs_result option"
  fa_delete :: "remote_fs_peer \<Rightarrow> remote_fs_delete_request \<Rightarrow> unit fs_result option"
  fa_read :: "remote_fs_peer \<Rightarrow> remote_fs_location \<Rightarrow> remote_fs_read_source fs_result option"
  fa_write :: "remote_fs_peer \<Rightarrow> remote_fs_write_request \<Rightarrow> file_upload_target fs_result option"

text \<open>\<^verbatim>\<open>serde_json::from_slice\<close> at the three request types.\<close>

record fs_decoders =
  fdec_create :: "byte list \<Rightarrow> remote_fs_create_directory_request option"
  fdec_rename :: "byte list \<Rightarrow> remote_fs_rename_request option"
  fdec_move :: "byte list \<Rightarrow> remote_fs_move_request option"

record remote_fs_config =
  fc_max_write_size :: u64
  fc_max_concurrent_requests :: nat

definition remote_fs_config_new :: remote_fs_config where
  "remote_fs_config_new = \<lparr>fc_max_write_size = DEFAULT_MAX_WRITE_SIZE,
     fc_max_concurrent_requests = DEFAULT_MAX_CONCURRENT_REQUESTS\<rparr>"

text \<open>The semaphore is the number of its free permits.\<close>

record remote_fs_state =
  rf_max_write_size :: u64
  rf_request_slots :: nat

definition remote_fs_state_new :: "remote_fs_config \<Rightarrow> remote_fs_state" where
  "remote_fs_state_new config =
     \<lparr>rf_max_write_size = fc_max_write_size config,
      rf_request_slots = fc_max_concurrent_requests config\<rparr>"

definition try_acquire_request :: "remote_fs_state \<Rightarrow> remote_fs_state fs_result" where
  "try_acquire_request st =
     (if rf_request_slots st = 0 then Inl Busy
      else Inr (st\<lparr>rf_request_slots := rf_request_slots st - 1\<rparr>))"

section \<open>Helpers\<close>

definition dispatch :: "'a fs_result option \<Rightarrow> 'a fs_result" where
  "dispatch answer = (case answer of None \<Rightarrow> Inl Unavailable | Some r \<Rightarrow> r)"

fun collect_limited :: "byte list \<Rightarrow> frame list \<Rightarrow> byte list fs_result" where
  "collect_limited bytes [] = Inr bytes"
| "collect_limited bytes (FrameError # fs) = Inl InvalidRequest"
| "collect_limited bytes (OtherFrame # fs) = collect_limited bytes fs"
| "collect_limited bytes (DataFrame d # fs) =
     (if MAX_JSON_BODY_SIZE < length bytes + length d then Inl PayloadTooLarge
      else collect_limited (bytes @ d) fs)"

definition collect_json :: "(byte list \<Rightarrow> 'a option) \<Rightarrow> frame list \<Rightarrow> 'a fs_result" where
  "collect_json decode body =
     and_then (collect_limited [] body) (\<lambda>bytes. ok_or (decode bytes) InvalidRequest)"

definition location_from_query :: "query \<Rightarrow> remote_fs_location fs_result" where
  "location_from_query q =
     and_then (ok_or (q (lit ''rootId'')) InvalidRequest) (\<lambda>root_id.
     location_new root_id (case q (lit ''path'') of Some p \<Rightarrow> p | None \<Rightarrow> []))"

definition require_entry_path :: "remote_fs_location \<Rightarrow> unit fs_result" where
  "require_entry_path l = ensure (fl_path l \<noteq> []) InvalidPath"

definition validate_exact_entry :: "remote_fs_entry \<Rightarrow> rstring \<Rightarrow> unit fs_result" where
  "validate_exact_entry entry expected_path =
     and_then (validate_entry entry None) (\<lambda>_. ensure (fe_path entry = expected_path) Internal)"

definition validate_cursor :: "rstring option \<Rightarrow> unit fs_result" where
  "validate_cursor cursor =
     ensure (case cursor of Some c \<Rightarrow> \<not> cursor_invalid c | None \<Rightarrow> True) Internal"

definition parse_bool :: "rstring option \<Rightarrow> bool \<Rightarrow> bool fs_result" where
  "parse_bool v dflt =
     (case v of
        None \<Rightarrow> Inr dflt
      | Some s \<Rightarrow> if s = lit ''true'' then Inr True else if s = lit ''false'' then Inr False
                  else Inl InvalidRequest)"

fun error_status :: "remote_fs_error_code \<Rightarrow> status" where
  "error_status Unauthenticated = 401"
| "error_status UntrustedDevice = 403"
| "error_status PermissionDenied = 403"
| "error_status ReadOnly = 403"
| "error_status InvalidRequest = 400"
| "error_status InvalidPath = 400"
| "error_status InvalidName = 400"
| "error_status RootNotFound = 404"
| "error_status NotFound = 404"
| "error_status AlreadyExists = 409"
| "error_status NotDirectory = 409"
| "error_status IsDirectory = 409"
| "error_status DirectoryNotEmpty = 409"
| "error_status Conflict = 409"
| "error_status PayloadTooLarge = 413"
| "error_status StorageFull = 507"
| "error_status Unsupported = 501"
| "error_status Busy = 429"
| "error_status TransferFailed = 422"
| "error_status Unavailable = 503"
| "error_status Internal = 500"

definition fs_error_response :: "remote_fs_error_code \<Rightarrow> response" where
  "fs_error_response code =
     json_into_response (error_status code) (FsErrorBody (error_response_from code))"

definition authenticated_peer :: "ext \<Rightarrow> request_client_info \<Rightarrow> remote_fs_peer fs_result" where
  "authenticated_peer X ci =
     and_then (ok_or (cert_fingerprint X ci) Unauthenticated) (\<lambda>fp.
     Inr \<lparr>rp_ip = ci_ip ci, rp_fingerprint = fp\<rparr>)"

section \<open>Handlers\<close>

type_synonym fs_reply = "response fs_result \<times> remote_fs_event list"

text \<open>A handler validates its request, sends one event and checks the answer.\<close>

definition exchange :: "'r fs_result \<Rightarrow> ('r \<Rightarrow> remote_fs_event) \<Rightarrow> ('r \<Rightarrow> response fs_result) \<Rightarrow> fs_reply" where
  "exchange request event finish =
     (case request of
        Inl e \<Rightarrow> (Inl e, [])
      | Inr r \<Rightarrow> (finish r, [event r]))"

fun check_roots :: "rstring list \<Rightarrow> remote_fs_root list \<Rightarrow> unit fs_result" where
  "check_roots seen [] = Inr ()"
| "check_roots seen (r # rs) =
     and_then (validate_root r) (\<lambda>_.
     and_then (ensure (fr_id r \<notin> set seen) Internal) (\<lambda>_. check_roots (fr_id r # seen) rs))"

definition roots :: "fs_app \<Rightarrow> remote_fs_peer \<Rightarrow> fs_reply" where
  "roots app peer =
     exchange (Inr ()) (\<lambda>_. FsRoots peer) (\<lambda>_.
       and_then (dispatch (fa_roots app peer)) (\<lambda>rs.
       and_then (ensure (length rs \<le> 256) Internal) (\<lambda>_.
       and_then (check_roots [] rs) (\<lambda>_.
       Inr (json_into_response 200 (FsRootsBody rs))))))"

definition list_limit :: "rstring option \<Rightarrow> u16 fs_result" where
  "list_limit v =
     (case v of
        None \<Rightarrow> Inr DEFAULT_LIST_LIMIT
      | Some s \<Rightarrow>
          (case parse_unsigned 16 s of
             None \<Rightarrow> Inl InvalidRequest
           | Some n \<Rightarrow> and_then (ensure (1 \<le> n \<and> n \<le> unat MAX_LIST_LIMIT) InvalidRequest) (\<lambda>_. Inr (of_nat n))))"

definition list_request :: "query \<Rightarrow> remote_fs_list_request fs_result" where
  "list_request q =
     and_then (location_from_query q) (\<lambda>location.
     and_then (list_limit (q (lit ''limit''))) (\<lambda>limit.
     let request = \<lparr>flr_location = location, flr_cursor = q (lit ''cursor''), flr_limit = limit\<rparr>
     in and_then (list_request_validate request) (\<lambda>_. Inr request)))"

fun check_entries :: "rstring \<Rightarrow> rstring list \<Rightarrow> remote_fs_entry list \<Rightarrow> unit fs_result" where
  "check_entries parent seen [] = Inr ()"
| "check_entries parent seen (e # es) =
     and_then (validate_entry e (Some parent)) (\<lambda>_.
     and_then (ensure (fe_path e \<notin> set seen) Internal) (\<lambda>_.
     check_entries parent (fe_path e # seen) es))"

definition list_files :: "ext \<Rightarrow> fs_app \<Rightarrow> request \<Rightarrow> remote_fs_peer \<Rightarrow> fs_reply" where
  "list_files X app req peer =
     exchange (list_request (parse_query X (rq_query req))) (FsList peer) (\<lambda>request.
       and_then (dispatch (fa_list app peer request)) (\<lambda>res.
       and_then (ensure (length (fls_entries res) \<le> unat (flr_limit request)) Internal) (\<lambda>_.
       and_then (check_entries (fl_path (flr_location request)) [] (fls_entries res)) (\<lambda>_.
       and_then (validate_cursor (fls_next_cursor res)) (\<lambda>_.
       Inr (json_into_response 200 (FsListBody res)))))))"

definition entry_target :: "query \<Rightarrow> remote_fs_location fs_result" where
  "entry_target q =
     and_then (location_from_query q) (\<lambda>target.
     and_then (require_entry_path target) (\<lambda>_. Inr target))"

definition metadata :: "ext \<Rightarrow> fs_app \<Rightarrow> request \<Rightarrow> remote_fs_peer \<Rightarrow> fs_reply" where
  "metadata X app req peer =
     exchange (entry_target (parse_query X (rq_query req))) (FsMetadata peer) (\<lambda>target.
       and_then (dispatch (fa_metadata app peer target)) (\<lambda>entry.
       and_then (validate_exact_entry entry (fl_path target)) (\<lambda>_.
       Inr (json_into_response 200 (FsEntryBody entry)))))"

definition create_request :: "fs_decoders \<Rightarrow> frame list \<Rightarrow> remote_fs_create_directory_request fs_result" where
  "create_request D body =
     and_then (collect_json (fdec_create D) body) (\<lambda>request.
     and_then (location_validate (fcd_parent request)) (\<lambda>_.
     and_then (validate_file_name (fcd_name request)) (\<lambda>_. Inr request)))"

definition create_directory :: "fs_decoders \<Rightarrow> fs_app \<Rightarrow> request \<Rightarrow> remote_fs_peer \<Rightarrow> fs_reply" where
  "create_directory D app req peer =
     exchange (create_request D (rq_body req)) (FsCreateDirectory peer) (\<lambda>request.
       and_then (dispatch (fa_create app peer request)) (\<lambda>entry.
       and_then (validate_exact_entry entry
                   (child_path (fl_path (fcd_parent request)) (fcd_name request))) (\<lambda>_.
       and_then (ensure (fe_entry_type entry = EntryDirectory) Internal) (\<lambda>_.
       Inr (json_into_response 201 (FsMutationBody entry))))))"

definition rename_request :: "fs_decoders \<Rightarrow> frame list \<Rightarrow> remote_fs_rename_request fs_result" where
  "rename_request D body =
     and_then (collect_json (fdec_rename D) body) (\<lambda>request.
     and_then (location_validate (frn_source request)) (\<lambda>_.
     and_then (require_entry_path (frn_source request)) (\<lambda>_.
     and_then (validate_file_name (frn_new_name request)) (\<lambda>_. Inr request))))"

definition rename :: "fs_decoders \<Rightarrow> fs_app \<Rightarrow> request \<Rightarrow> remote_fs_peer \<Rightarrow> fs_reply" where
  "rename D app req peer =
     exchange (rename_request D (rq_body req)) (FsRename peer) (\<lambda>request.
       and_then (dispatch (fa_rename app peer request)) (\<lambda>entry.
       and_then (validate_exact_entry entry
                   (child_path (parent_path (fl_path (frn_source request))) (frn_new_name request))) (\<lambda>_.
       Inr (json_into_response 200 (FsMutationBody entry)))))"

definition move_request :: "fs_decoders \<Rightarrow> frame list \<Rightarrow> remote_fs_move_request fs_result" where
  "move_request D body =
     and_then (collect_json (fdec_move D) body) (\<lambda>request.
     and_then (location_validate (fmv_source request)) (\<lambda>_.
     and_then (require_entry_path (fmv_source request)) (\<lambda>_.
     and_then (location_validate (fmv_destination_parent request)) (\<lambda>_.
     and_then (case fmv_new_name request of Some name \<Rightarrow> validate_file_name name | None \<Rightarrow> Inr ()) (\<lambda>_.
     Inr request)))))"

definition move_entry :: "fs_decoders \<Rightarrow> fs_app \<Rightarrow> request \<Rightarrow> remote_fs_peer \<Rightarrow> fs_reply" where
  "move_entry D app req peer =
     exchange (move_request D (rq_body req)) (FsMove peer) (\<lambda>request.
       let expected = child_path (fl_path (fmv_destination_parent request))
             (case fmv_new_name request of
                Some name \<Rightarrow> name | None \<Rightarrow> base_name (fl_path (fmv_source request)))
       in and_then (dispatch (fa_move app peer request)) (\<lambda>entry.
          and_then (validate_exact_entry entry expected) (\<lambda>_.
          Inr (json_into_response 200 (FsMutationBody entry)))))"

definition delete_request :: "query \<Rightarrow> remote_fs_delete_request fs_result" where
  "delete_request q =
     and_then (entry_target q) (\<lambda>target.
     and_then (parse_bool (q (lit ''recursive'')) False) (\<lambda>recursive.
     Inr \<lparr>fdl_target = target, fdl_recursive = recursive\<rparr>))"

definition delete :: "ext \<Rightarrow> fs_app \<Rightarrow> request \<Rightarrow> remote_fs_peer \<Rightarrow> fs_reply" where
  "delete X app req peer =
     exchange (delete_request (parse_query X (rq_query req))) (FsDelete peer) (\<lambda>request.
       and_then (dispatch (fa_delete app peer request)) (\<lambda>_. Inr (plain_response 204)))"

definition read_response :: "ext \<Rightarrow> nat option \<Rightarrow> remote_fs_location \<Rightarrow> remote_fs_read_source \<Rightarrow> response fs_result" where
  "read_response X taken target source =
     and_then (validate_exact_entry (frs_entry source) (fl_path target)) (\<lambda>_.
     and_then (ensure (fe_entry_type (frs_entry source) = EntryFile) IsDirectory) (\<lambda>_.
     and_then (ok_or (fe_size (frs_entry source)) Internal) (\<lambda>n.
     let content_type = (case fe_mime_type (frs_entry source) of
           Some mime \<Rightarrow> if ext_header_value X mime then mime else lit ''application/octet-stream''
         | None \<Rightarrow> lit ''application/octet-stream'')
     in Inr \<lparr>rs_status = 200,
          rs_headers = [(lit ''content-length'', show_nat (unat n)), (lit ''content-type'', content_type)],
          rs_body = StreamBody (into_receiver taken (frs_content source))\<rparr>)))"

definition fs_read :: "ext \<Rightarrow> nat option \<Rightarrow> fs_app \<Rightarrow> request \<Rightarrow> remote_fs_peer \<Rightarrow> fs_reply" where
  "fs_read X taken app req peer =
     exchange (entry_target (parse_query X (rq_query req))) (FsRead peer) (\<lambda>target.
       and_then (dispatch (fa_read app peer target)) (read_response X taken target))"

definition content_length :: "ext \<Rightarrow> request \<Rightarrow> u64 option" where
  "content_length X req =
     Option.bind (header_get (rq_headers req) (lit ''content-length'')) (\<lambda>v.
     Option.bind (ext_header_text X v) (\<lambda>s. map_option of_nat (parse_unsigned 64 s)))"

definition write_request :: "ext \<Rightarrow> u64 \<Rightarrow> request \<Rightarrow> remote_fs_write_request fs_result" where
  "write_request X max_write_size req =
     (let q = parse_query X (rq_query req) in
      and_then (entry_target q) (\<lambda>target.
      and_then (parse_bool (q (lit ''overwrite'')) False) (\<lambda>overwrite.
      and_then (ok_or (content_length X req) InvalidRequest) (\<lambda>n.
      and_then (ensure (n \<le> max_write_size) PayloadTooLarge) (\<lambda>_.
      Inr \<lparr>fwr_target = target, fwr_size = n, fwr_overwrite = overwrite\<rparr>)))))"

definition fs_write ::
  "ext \<Rightarrow> (nat \<Rightarrow> bool) \<Rightarrow> u64 \<Rightarrow> fs_app \<Rightarrow> request \<Rightarrow> remote_fs_peer \<Rightarrow> fs_reply"
where
  "fs_write X send_ok max_write_size app req peer =
     exchange (write_request X max_write_size req) (FsWrite peer) (\<lambda>request.
       and_then (dispatch (fa_write app peer request)) (\<lambda>target.
       case fst (save_req_to_target (ext_sha256 X) send_ok (rq_body req) target (fwr_size request)
              None default_timestamps) of
         SaveSuccess \<Rightarrow> Inr (json_into_response 200 (FsWriteBody (fwr_size request)))
       | _ \<Rightarrow> Inl TransferFailed))"

section \<open>Routing\<close>

definition fs_path :: "string \<Rightarrow> rstring" where
  "fs_path p = lit ''/api/fireboxtransfer/v1'' @ lit p"

record fs_env_params =
  fp_ext :: ext
  fp_decoders :: fs_decoders
  fp_app :: fs_app
  fp_send_ok :: "nat \<Rightarrow> bool"
  fp_taken :: "nat option"

definition fs_route :: "fs_env_params \<Rightarrow> remote_fs_state \<Rightarrow> request \<Rightarrow> remote_fs_peer \<Rightarrow> fs_reply" where
  "fs_route P st req peer =
     (let X = fp_ext P; D = fp_decoders P; app = fp_app P; m = rq_method req; p = rq_path req in
      if m = lit ''GET'' \<and> p = fs_path ''/roots'' then roots app peer
      else if m = lit ''GET'' \<and> p = fs_path ''/files'' then list_files X app req peer
      else if m = lit ''GET'' \<and> p = fs_path ''/files/metadata'' then metadata X app req peer
      else if m = lit ''POST'' \<and> p = fs_path ''/files/directory'' then create_directory D app req peer
      else if m = lit ''POST'' \<and> p = fs_path ''/files/rename'' then rename D app req peer
      else if m = lit ''POST'' \<and> p = fs_path ''/files/move'' then move_entry D app req peer
      else if m = lit ''DELETE'' \<and> p = fs_path ''/files'' then delete X app req peer
      else if m = lit ''GET'' \<and> p = fs_path ''/files/content'' then fs_read X (fp_taken P) app req peer
      else if m = lit ''PUT'' \<and> p = fs_path ''/files/content''
      then fs_write X (fp_send_ok P) (rf_max_write_size st) app req peer
      else (Inl NotFound, []))"

text \<open>The permit is given back when the request ends, for a read when its body ends.\<close>

definition handle_inner ::
  "fs_env_params \<Rightarrow> remote_fs_state option \<Rightarrow> request \<Rightarrow> request_client_info \<Rightarrow> fs_reply"
where
  "handle_inner P remote_fs req ci =
     (case and_then (ok_or remote_fs NotFound) (\<lambda>st.
           and_then (authenticated_peer (fp_ext P) ci) (\<lambda>peer.
           and_then (try_acquire_request st) (\<lambda>st'. Inr (st', peer)))) of
        Inl e \<Rightarrow> (Inl e, [])
      | Inr (st, peer) \<Rightarrow> fs_route P st req peer)"

definition handle ::
  "fs_env_params \<Rightarrow> remote_fs_state option \<Rightarrow> request \<Rightarrow> request_client_info \<Rightarrow>
     response \<times> remote_fs_event list"
where
  "handle P remote_fs req ci =
     (let (res, evs) = handle_inner P remote_fs req ci
      in (case res of Inr response \<Rightarrow> response | Inl code \<Rightarrow> fs_error_response code, evs))"

section \<open>What an event may carry\<close>

definition target_ok :: "remote_fs_location \<Rightarrow> bool" where
  "target_ok l \<longleftrightarrow> location_validate l = Inr () \<and> fl_path l \<noteq> []"

fun event_ok :: "u64 \<Rightarrow> remote_fs_peer \<Rightarrow> remote_fs_event \<Rightarrow> bool" where
  "event_ok m peer (FsRoots p) \<longleftrightarrow> p = peer"
| "event_ok m peer (FsList p r) \<longleftrightarrow> p = peer \<and> list_request_validate r = Inr ()"
| "event_ok m peer (FsMetadata p l) \<longleftrightarrow> p = peer \<and> target_ok l"
| "event_ok m peer (FsCreateDirectory p r) \<longleftrightarrow> p = peer \<and> location_validate (fcd_parent r) = Inr () \<and>
     validate_file_name (fcd_name r) = Inr ()"
| "event_ok m peer (FsRename p r) \<longleftrightarrow> p = peer \<and> target_ok (frn_source r) \<and>
     validate_file_name (frn_new_name r) = Inr ()"
| "event_ok m peer (FsMove p r) \<longleftrightarrow> p = peer \<and> target_ok (fmv_source r) \<and>
     location_validate (fmv_destination_parent r) = Inr () \<and>
     (\<forall>name. fmv_new_name r = Some name \<longrightarrow> validate_file_name name = Inr ())"
| "event_ok m peer (FsDelete p r) \<longleftrightarrow> p = peer \<and> target_ok (fdl_target r)"
| "event_ok m peer (FsRead p l) \<longleftrightarrow> p = peer \<and> target_ok l"
| "event_ok m peer (FsWrite p r) \<longleftrightarrow> p = peer \<and> target_ok (fwr_target r) \<and> fwr_size r \<le> m"

definition reply_ok :: "u64 \<Rightarrow> remote_fs_peer \<Rightarrow> fs_reply \<Rightarrow> bool" where
  "reply_ok m peer r \<longleftrightarrow> snd r = [] \<or> (\<exists>e. snd r = [e] \<and> event_ok m peer e)"

section \<open>Lemmas\<close>

lemma exchange_simps [simp]:
  "exchange (Inl e) ev f = (Inl e, [])" "exchange (Inr r) ev f = (f r, [ev r])"
  by (simp_all add: exchange_def)

lemma location_new_eq: "location_new a b = Inr l \<longleftrightarrow> location_validate l = Inr () \<and> l = \<lparr>fl_root_id = a, fl_path = b\<rparr>"
  by (auto simp: location_new_def Let_def res_simps)

lemma entry_target_ok: "entry_target q = Inr l \<Longrightarrow> target_ok l"
  by (auto simp: entry_target_def target_ok_def location_from_query_def require_entry_path_def
      location_new_eq res_simps)

lemma list_request_ok: "list_request q = Inr r \<Longrightarrow> list_request_validate r = Inr ()"
  by (auto simp: list_request_def Let_def res_simps)

lemma create_request_ok: "create_request D body = Inr r \<Longrightarrow> event_ok m peer (FsCreateDirectory peer r)"
  by (auto simp: create_request_def res_simps)

lemma rename_request_ok: "rename_request D body = Inr r \<Longrightarrow> event_ok m peer (FsRename peer r)"
  by (auto simp: rename_request_def target_ok_def require_entry_path_def res_simps)

lemma move_request_ok: "move_request D body = Inr r \<Longrightarrow> event_ok m peer (FsMove peer r)"
  by (auto simp: move_request_def target_ok_def require_entry_path_def res_simps split: option.splits)

lemma delete_request_ok: "delete_request q = Inr r \<Longrightarrow> event_ok m peer (FsDelete peer r)"
  by (auto simp: delete_request_def res_simps dest: entry_target_ok)

lemma write_request_ok: "write_request X m req = Inr r \<Longrightarrow> event_ok m peer (FsWrite peer r)"
  by (auto simp: write_request_def Let_def res_simps dest: entry_target_ok)

lemmas request_ok = entry_target_ok list_request_ok create_request_ok rename_request_ok
  move_request_ok delete_request_ok write_request_ok

lemmas handler_defs = roots_def list_files_def metadata_def create_directory_def rename_def
  move_entry_def delete_def fs_read_def fs_write_def

lemma reply_ok_exchange:
  "(\<And>r. request = Inr r \<Longrightarrow> event_ok m peer (ev r)) \<Longrightarrow> reply_ok m peer (exchange request ev f)"
  by (cases request) (simp_all add: reply_ok_def)

lemma handlers_reply_ok:
  "reply_ok m peer (roots app peer)" "reply_ok m peer (list_files X app req peer)"
  "reply_ok m peer (metadata X app req peer)" "reply_ok m peer (create_directory D app req peer)"
  "reply_ok m peer (rename D app req peer)" "reply_ok m peer (move_entry D app req peer)"
  "reply_ok m peer (delete X app req peer)" "reply_ok m peer (fs_read X taken app req peer)"
  "reply_ok m peer (fs_write X send_ok m app req peer)"
  unfolding handler_defs
  by (rule reply_ok_exchange; simp del: event_ok.simps(4-7,9) add: request_ok)+

lemma route_reply_ok: "reply_ok (rf_max_write_size st) peer (fs_route P st req peer)"
  unfolding fs_route_def Let_def
  by (simp add: handlers_reply_ok) (simp add: reply_ok_def)

lemma validate_entry_ok:
  "validate_entry e par = Inr () \<longleftrightarrow> validate_file_name (fe_name e) = Inr () \<and>
     validate_relative_path (fe_path e) = Inr () \<and>
     (case par of Some p \<Rightarrow> fe_path e = child_path p (fe_name e) | None \<Rightarrow> base_name (fe_path e) = fe_name e) \<and>
     \<not> text_field_invalid 64 (fe_modified e) \<and> \<not> text_field_invalid 255 (fe_mime_type e)"
  by (cases par) (auto simp: validate_entry_def res_simps)

lemma check_entries_ok:
  "check_entries par seen es = Inr () \<longleftrightarrow>
     (\<forall>e \<in> set es. validate_entry e (Some par) = Inr ()) \<and> distinct (map fe_path es) \<and>
     set (map fe_path es) \<inter> set seen = {}"
  by (induction par seen es rule: check_entries.induct) (auto simp: res_simps)

lemma check_roots_ok:
  "check_roots seen rs = Inr () \<longleftrightarrow>
     (\<forall>r \<in> set rs. validate_root r = Inr ()) \<and> distinct (map fr_id rs) \<and>
     set (map fr_id rs) \<inter> set seen = {}"
  by (induction seen rs rule: check_roots.induct) (auto simp: res_simps)

lemma resolve_child:
  assumes "validate_relative_path p = Inr ()" "validate_relative_path (child_path p name) = Inr ()"
    and "validate_file_name name = Inr ()"
  shows "resolve root (child_path p name) = resolve root p @ [name]"
proof -
  have name: "47 \<notin> set name" "name \<noteq> []"
    using assms(3) valid_componentD [of name] by (auto simp: valid_name_iff)
  have "resolve root q = root @ (if q = [] then [] else split_on 47 q)"
    if "validate_relative_path q = Inr ()" for q
  proof (cases "q = []")
    case False
    with that have comps: "\<forall>c \<in> set (split_on 47 q). valid_component c" by (simp add: valid_path_iff)
    then have "hd q \<noteq> 47" using split_on_hd_slash [OF False, of 47] valid_componentD by blast
    with False comps show ?thesis by (simp add: resolve_def walk_valid)
  qed (simp add: resolve_def)
  with assms name show ?thesis
    by (cases "p = []") (simp_all add: split_child, simp_all add: child_path_def split_on_free)
qed

lemma exact_entry_ok:
  "validate_exact_entry e p = Inr () \<longleftrightarrow> validate_entry e None = Inr () \<and> fe_path e = p"
  by (auto simp: validate_exact_entry_def res_simps)

lemma base_name_no_slash: "47 \<notin> set (base_name p)"
  using split_by_component [of "base_name p" "\<lambda>x. x = 47" p] last_in_set [OF split_by_nonempty]
  by (auto simp: base_name_def)

lemma exact_child:
  "validate_exact_entry e (child_path p n) = Inr () \<Longrightarrow> 47 \<notin> set n \<Longrightarrow>
     fe_name e = n \<and> parent_path (fe_path e) = p"
  by (auto simp: exact_entry_ok validate_entry_ok base_name_child parent_path_child)

lemma valid_name_no_slash: "validate_file_name n = Inr () \<Longrightarrow> 47 \<notin> set n"
  using valid_componentD by (auto simp: valid_name_iff)

lemma create_confirms:
  assumes "fst (create_directory D app req peer) = Inr res"
  shows "\<exists>r e. create_request D (rq_body req) = Inr r \<and> res = json_into_response 201 (FsMutationBody e) \<and>
      fe_entry_type e = EntryDirectory \<and> fe_name e = fcd_name r \<and>
      parent_path (fe_path e) = fl_path (fcd_parent r)"
proof (cases "create_request D (rq_body req)")
  case (Inr r)
  then have "47 \<notin> set (fcd_name r)"
    using create_request_ok valid_name_no_slash by fastforce
  with Inr assms exact_child [of _ "fl_path (fcd_parent r)" "fcd_name r"] show ?thesis
    by (auto simp: create_directory_def res_simps)
qed (use assms in \<open>simp add: create_directory_def\<close>)

lemma rename_confirms:
  assumes "fst (rename D app req peer) = Inr res"
  shows "\<exists>r e. rename_request D (rq_body req) = Inr r \<and> res = json_into_response 200 (FsMutationBody e) \<and>
      fe_name e = frn_new_name r \<and> parent_path (fe_path e) = parent_path (fl_path (frn_source r))"
proof (cases "rename_request D (rq_body req)")
  case (Inr r)
  then have "47 \<notin> set (frn_new_name r)"
    using rename_request_ok valid_name_no_slash by fastforce
  with Inr assms exact_child [of _ "parent_path (fl_path (frn_source r))" "frn_new_name r"] show ?thesis
    by (auto simp: rename_def res_simps)
qed (use assms in \<open>simp add: rename_def\<close>)

lemma move_confirms:
  assumes "fst (move_entry D app req peer) = Inr res"
  shows "\<exists>r e. move_request D (rq_body req) = Inr r \<and> res = json_into_response 200 (FsMutationBody e) \<and>
      fe_name e = (case fmv_new_name r of Some n \<Rightarrow> n | None \<Rightarrow> base_name (fl_path (fmv_source r))) \<and>
      parent_path (fe_path e) = fl_path (fmv_destination_parent r)"
proof (cases "move_request D (rq_body req)")
  case (Inr r)
  let ?n = "case fmv_new_name r of Some n \<Rightarrow> n | None \<Rightarrow> base_name (fl_path (fmv_source r))"
  have "47 \<notin> set ?n"
    using move_request_ok [OF Inr] valid_name_no_slash base_name_no_slash
    by (fastforce split: option.splits)
  with Inr assms exact_child [of _ "fl_path (fmv_destination_parent r)" ?n] show ?thesis
    by (auto simp: move_entry_def res_simps)
qed (use assms in \<open>simp add: move_entry_def\<close>)

section \<open>Permits\<close>

text \<open>Requests in progress and read bodies still being sent, each holding one permit.\<close>

record fs_load =
  ld_state :: remote_fs_state
  ld_requests :: nat
  ld_bodies :: nat

inductive permit_step :: "fs_load \<Rightarrow> fs_load \<Rightarrow> bool" where
  acquire: "try_acquire_request (ld_state s) = Inr st' \<Longrightarrow>
    permit_step s (s\<lparr>ld_state := st', ld_requests := Suc (ld_requests s)\<rparr>)"
| hand_over: "ld_requests s = Suc n \<Longrightarrow>
    permit_step s (s\<lparr>ld_requests := n, ld_bodies := Suc (ld_bodies s)\<rparr>)"
| release: "ld_requests s = Suc n \<Longrightarrow>
    permit_step s (s\<lparr>ld_requests := n,
      ld_state := (ld_state s)\<lparr>rf_request_slots := Suc (rf_request_slots (ld_state s))\<rparr>\<rparr>)"
| body_dropped: "ld_bodies s = Suc n \<Longrightarrow>
    permit_step s (s\<lparr>ld_bodies := n,
      ld_state := (ld_state s)\<lparr>rf_request_slots := Suc (rf_request_slots (ld_state s))\<rparr>\<rparr>)"

definition permits :: "fs_load \<Rightarrow> nat" where
  "permits s = rf_request_slots (ld_state s) + ld_requests s + ld_bodies s"

lemma permit_step_conserves: "permit_step s t \<Longrightarrow> permits t = permits s"
  by (induction rule: permit_step.induct)
    (auto simp: permits_def try_acquire_request_def split: if_splits)

lemma permits_conserved: "permit_step\<^sup>*\<^sup>* s t \<Longrightarrow> permits t = permits s"
  by (induction rule: rtranclp_induct) (simp_all add: permit_step_conserves)

section \<open>Properties\<close>

text \<open>
  C5. Nothing reaches the application unauthenticated or unvalidated: a request sends at
  most one event, and only when the API is enabled, a permit was free and the client
  presented a certificate; the event names the peer by the fingerprint of that very
  certificate, every location in it is valid, operations on an entry never name the root
  itself, new names are single components, and a write announces at most the configured
  size.
\<close>

theorem fs_event_authenticated_and_valid:
  "snd (handle P remote_fs req ci) = [] \<or>
     (\<exists>st cert e. remote_fs = Some st \<and> 0 < rf_request_slots st \<and> ci_cert ci = Some cert \<and>
        snd (handle P remote_fs req ci) = [e] \<and>
        event_ok (rf_max_write_size st)
          \<lparr>rp_ip = ci_ip ci, rp_fingerprint = fingerprint_from_cert_der (ext_sha256 (fp_ext P)) cert\<rparr> e)"
proof -
  have "snd (handle P remote_fs req ci) = snd (handle_inner P remote_fs req ci)"
    by (simp add: handle_def split: prod.splits)
  moreover {
    fix st peer
    assume "and_then (ok_or remote_fs NotFound) (\<lambda>st.
        and_then (authenticated_peer (fp_ext P) ci) (\<lambda>peer.
        and_then (try_acquire_request st) (\<lambda>st'. Inr (st', peer)))) = Inr (st, peer)"
    then have "\<exists>st0 cert. remote_fs = Some st0 \<and> 0 < rf_request_slots st0 \<and> ci_cert ci = Some cert \<and>
        rf_max_write_size st = rf_max_write_size st0 \<and>
        peer = \<lparr>rp_ip = ci_ip ci, rp_fingerprint = fingerprint_from_cert_der (ext_sha256 (fp_ext P)) cert\<rparr>"
      by (auto simp: res_simps authenticated_peer_def cert_fingerprint_def try_acquire_request_def
          split: if_splits)
  }
  ultimately show ?thesis
    using route_reply_ok [of _ _ P req]
    unfolding handle_inner_def reply_ok_def
    by (auto split: sum.splits prod.splits) metis
qed

text \<open>
  C30. A listing that is returned to the client is sound whatever the provider answers: it
  has at most the requested number of entries (never more than 1000), no entry twice, and
  every entry is a direct child of the requested directory, below the granted root.
\<close>

theorem listing_sound:
  assumes "fst (list_files X app req peer) = Inr res"
  shows "\<exists>request r. list_request (parse_query X (rq_query req)) = Inr request \<and>
    res = json_into_response 200 (FsListBody r) \<and>
    length (fls_entries r) \<le> unat (flr_limit request) \<and> flr_limit request \<le> 1000 \<and>
    distinct (map fe_path (fls_entries r)) \<and>
    (\<forall>e \<in> set (fls_entries r). fe_path e = child_path (fl_path (flr_location request)) (fe_name e) \<and>
       resolve root (fe_path e) = resolve root (fl_path (flr_location request)) @ [fe_name e])"
proof -
  obtain request where req: "list_request (parse_query X (rq_query req)) = Inr request"
    using assms by (cases "list_request (parse_query X (rq_query req))") (auto simp: list_files_def)
  with assms obtain r where r: "res = json_into_response 200 (FsListBody r)"
      "length (fls_entries r) \<le> unat (flr_limit request)"
      "check_entries (fl_path (flr_location request)) [] (fls_entries r) = Inr ()"
    by (auto simp: list_files_def res_simps)
  have v: "flr_limit request \<le> 1000" "validate_relative_path (fl_path (flr_location request)) = Inr ()"
    using list_request_ok [OF req]
    by (auto simp: list_request_validate_def location_validate_def MAX_LIST_LIMIT_def res_simps)
  have "resolve root (fe_path e) = resolve root (fl_path (flr_location request)) @ [fe_name e]"
    if "e \<in> set (fls_entries r)" for e
    using that r(3) v(2) resolve_child [of "fl_path (flr_location request)" "fe_name e" root]
    by (auto simp: check_entries_ok validate_entry_ok)
  with req r v(1) show ?thesis
    by (auto simp: check_entries_ok validate_entry_ok)
qed

text \<open>
  A mutation is confirmed only with the entry it asked for: creating a directory
  returns a directory of the requested name in the requested parent, renaming keeps the
  entry in its parent directory under the new name, and moving puts it into the requested
  directory under the new or the old name.
\<close>

theorem mutation_confirms_request:
  "(fst (create_directory D app req peer) = Inr res \<longrightarrow> (\<exists>r e.
      create_request D (rq_body req) = Inr r \<and> res = json_into_response 201 (FsMutationBody e) \<and>
      fe_entry_type e = EntryDirectory \<and> fe_name e = fcd_name r \<and>
      parent_path (fe_path e) = fl_path (fcd_parent r))) \<and>
   (fst (rename D app req peer) = Inr res \<longrightarrow> (\<exists>r e.
      rename_request D (rq_body req) = Inr r \<and> res = json_into_response 200 (FsMutationBody e) \<and>
      fe_name e = frn_new_name r \<and> parent_path (fe_path e) = parent_path (fl_path (frn_source r)))) \<and>
   (fst (move_entry D app req peer) = Inr res \<longrightarrow> (\<exists>r e.
      move_request D (rq_body req) = Inr r \<and> res = json_into_response 200 (FsMutationBody e) \<and>
      fe_name e = (case fmv_new_name r of Some n \<Rightarrow> n | None \<Rightarrow> base_name (fl_path (fmv_source r))) \<and>
      parent_path (fe_path e) = fl_path (fmv_destination_parent r)))"
  using create_confirms rename_confirms move_confirms by blast

text \<open>
  A name with a drive prefix passes the validation of names, but below the root it is
  a path the validator rejects: creating such a directory in a root is passed on to the
  application, and however the application answers, the client never gets a success; a
  directory that was created is reported as an internal error.
\<close>

theorem drive_name_created_but_refused:
  assumes "create_request D (rq_body req) = Inr r" "fl_path (fcd_parent r) = []"
    and "is_windows_absolute (fcd_name r)" "fa_create app peer r = Some (Inr e)"
  shows "create_directory D app req peer = (Inl Internal, [FsCreateDirectory peer r])"
proof -
  have bad: "validate_relative_path (fcd_name r) \<noteq> Inr ()"
    using assms(3) by (auto simp: valid_path_iff is_windows_absolute_def)
  have "validate_exact_entry e (fcd_name r) = Inl Internal"
  proof (cases "validate_exact_entry e (fcd_name r)")
    case (Inl x)
    then show ?thesis
      by (auto simp: validate_exact_entry_def validate_entry_def res_simps split: option.splits)
  next
    case (Inr u)
    with bad show ?thesis by (auto simp: exact_entry_ok validate_entry_ok)
  qed
  with assms show ?thesis
    by (simp add: create_directory_def dispatch_def child_path_def)
qed

text \<open>
  The number of requests and read bodies in progress never exceeds the configured
  number: a permit is neither lost nor duplicated, and a request is refused as busy
  exactly when all permits are taken.
\<close>

theorem concurrent_requests_bounded:
  assumes "permit_step\<^sup>*\<^sup>* \<lparr>ld_state = remote_fs_state_new config, ld_requests = 0, ld_bodies = 0\<rparr> s"
  shows "ld_requests s + ld_bodies s \<le> fc_max_concurrent_requests config \<and>
    (try_acquire_request (ld_state s) = Inl Busy \<longleftrightarrow>
       ld_requests s + ld_bodies s = fc_max_concurrent_requests config)"
  using permits_conserved [OF assms]
  by (auto simp: permits_def remote_fs_state_new_def try_acquire_request_def)

text \<open>
  A write whose body arrives completely, to a working target, is confirmed exactly
  when the body has the announced length, and is confirmed with that length.
\<close>

theorem write_confirms_exact_size:
  assumes "write_request X m req = Inr r" "fa_write app peer r = Some (Inr (TargetPath env))"
    and "fs_works env" "\<forall>k. send_ok k" "FrameError \<notin> set (rq_body req)"
    and "length (body_data (rq_body req)) < 2 ^ 64"
  shows "fst (fs_write X send_ok m app req peer) =
    (if length (body_data (rq_body req)) = unat (fwr_size r)
     then Inr (json_into_response 200 (FsWriteBody (fwr_size r))) else Inl TransferFailed)"
  unfolding fs_write_def
  by (simp add: assms(1,2) dispatch_def)
    (simp add: save_verdict [OF assms(3-6), of "ext_sha256 X" "fwr_size r" None default_timestamps])

section \<open>A concrete provider\<close>

definition demo_entry :: "rstring \<Rightarrow> rstring \<Rightarrow> remote_fs_entry_type \<Rightarrow> remote_fs_entry" where
  "demo_entry path name t = \<lparr>fe_name = name, fe_path = path, fe_entry_type = t, fe_size = Some 2,
     fe_modified = None, fe_mime_type = None, fe_capabilities = []\<rparr>"

definition demo_app :: fs_app where
  "demo_app = \<lparr>fa_roots = (\<lambda>p. Some (Inr [])),
     fa_list = (\<lambda>p r. Some (Inr \<lparr>fls_entries = [demo_entry (lit ''d/f'') (lit ''f'') EntryFile],
       fls_next_cursor = None\<rparr>)),
     fa_metadata = (\<lambda>p l. None),
     fa_create = (\<lambda>p r. Some (Inr (demo_entry (child_path (fl_path (fcd_parent r)) (fcd_name r)) (fcd_name r)
       EntryDirectory))),
     fa_rename = (\<lambda>p r. None), fa_move = (\<lambda>p r. None), fa_delete = (\<lambda>p r. None), fa_read = (\<lambda>p l. None),
     fa_write = (\<lambda>p r. Some (Inr (TargetPath demo_fs)))\<rparr>"

definition demo_peer :: remote_fs_peer where
  "demo_peer = \<lparr>rp_ip = ci_ip (demo_client 7), rp_fingerprint = lit ''F''\<rparr>"

definition demo_decoders :: "rstring \<Rightarrow> fs_decoders" where
  "demo_decoders name = \<lparr>fdec_create = (\<lambda>_. Some \<lparr>fcd_parent = \<lparr>fl_root_id = lit ''r'', fl_path = []\<rparr>,
       fcd_name = name\<rparr>), fdec_rename = (\<lambda>_. None), fdec_move = (\<lambda>_. None)\<rparr>"

definition demo_put :: request where
  "demo_put = (demo_request (lit ''rootId=r&path=d/f''))\<lparr>rq_headers := [(lit ''content-length'', lit ''2'')],
     rq_body := [DataFrame [1, 2]]\<rparr>"

theorem listing_sound_witness:
  "\<exists>res. fst (list_files demo_ext demo_app (demo_request (lit ''rootId=r&path=d'')) demo_peer) = Inr res \<and>
     (\<exists>r. res = json_into_response 200 (FsListBody r) \<and> distinct (map fe_path (fls_entries r)))"
proof -
  have "is_ok (fst (list_files demo_ext demo_app (demo_request (lit ''rootId=r&path=d'')) demo_peer))"
    by code_simp
  then obtain res where
    run: "fst (list_files demo_ext demo_app (demo_request (lit ''rootId=r&path=d'')) demo_peer) = Inr res"
    by (auto simp: is_ok_def split: sum.splits)
  from listing_sound [OF run] run show ?thesis by blast
qed

theorem mutation_confirms_request_witness:
  "\<exists>res e. fst (create_directory (demo_decoders (lit ''d'')) demo_app (demo_request []) demo_peer) = Inr res \<and>
     res = json_into_response 201 (FsMutationBody e) \<and> fe_entry_type e = EntryDirectory"
proof -
  have "is_ok (fst (create_directory (demo_decoders (lit ''d'')) demo_app (demo_request []) demo_peer))"
    by code_simp
  then obtain res where
    run: "fst (create_directory (demo_decoders (lit ''d'')) demo_app (demo_request []) demo_peer) = Inr res"
    by (auto simp: is_ok_def split: sum.splits)
  with mutation_confirms_request [of "demo_decoders (lit ''d'')" demo_app "demo_request []" demo_peer res]
  show ?thesis by blast
qed

theorem drive_name_created_but_refused_witness:
  "fst (create_directory (demo_decoders (lit ''C:x'')) demo_app (demo_request []) demo_peer) = Inl Internal"
proof -
  let ?r = "\<lparr>fcd_parent = \<lparr>fl_root_id = lit ''r'', fl_path = []\<rparr>, fcd_name = lit ''C:x''\<rparr>"
  have "create_request (demo_decoders (lit ''C:x'')) (rq_body (demo_request [])) = Inr ?r"
    "is_windows_absolute (fcd_name ?r)"
    by code_simp+
  moreover have "fa_create demo_app demo_peer ?r = Some (Inr (demo_entry (lit ''C:x'') (lit ''C:x'') EntryDirectory))"
    by (simp add: demo_app_def child_path_def)
  ultimately show ?thesis
    using drive_name_created_but_refused [of "demo_decoders (lit ''C:x'')" "demo_request []" ?r] by simp
qed

theorem concurrent_requests_bounded_witness:
  "try_acquire_request (remote_fs_state_new remote_fs_config_new) \<noteq> Inl Busy"
  using concurrent_requests_bounded [of remote_fs_config_new, OF rtranclp.rtrancl_refl]
  by (simp add: remote_fs_config_new_def DEFAULT_MAX_CONCURRENT_REQUESTS_def)

theorem write_confirms_exact_size_witness:
  "fst (fs_write demo_ext (\<lambda>_. True) 10 demo_app demo_put demo_peer) =
     Inr (json_into_response 200 (FsWriteBody 2))"
proof -
  let ?r = "\<lparr>fwr_target = \<lparr>fl_root_id = lit ''r'', fl_path = lit ''d/f''\<rparr>, fwr_size = 2, fwr_overwrite = False\<rparr>"
  have "entry_target (parse_query demo_ext (rq_query demo_put)) = Inr (fwr_target ?r)"
    "parse_bool (parse_query demo_ext (rq_query demo_put) (lit ''overwrite'')) False = Inr False"
    by code_simp+
  moreover have "content_length demo_ext demo_put = Some 2"
    by (simp add: content_length_def demo_put_def header_get_def demo_ext_def parse_unsigned_def
        digits_value_def is_ascii_digit_def lit_def)
  ultimately have "write_request demo_ext 10 demo_put = Inr ?r"
    by (simp add: write_request_def Let_def ok_or_def ensure_def)
  moreover have "fa_write demo_app demo_peer ?r = Some (Inr (TargetPath demo_fs))"
    by (simp add: demo_app_def)
  ultimately show ?thesis
    using write_confirms_exact_size [of demo_ext 10 demo_put ?r demo_app demo_peer demo_fs "\<lambda>_. True"]
    by (simp add: demo_put_def demo_fs_def fs_works_def is_ok_def)
qed

end
