(* ===== verification/FB_Server.thy ===== *)
theory FB_Server
  imports FB_Upload FB_Web FB_RemoteFs
begin

text \<open>
  The server around the endpoints (\<^verbatim>\<open>packages/core/src/http/server/mod.rs\<close>): its state, the
  routing of requests, the client identity a connection hands to its requests, the accept
  loop's back-off and the addresses it announces; the internal show endpoint
  (\<^verbatim>\<open>internal.rs\<close>), the v3 nonce and register endpoints (\<^verbatim>\<open>v3.rs\<close>) and the client
  certificate verifier (\<^verbatim>\<open>common/client_cert_verifier.rs\<close>). A request runs alone here; what
  its environment decides is the record \<open>inputs\<close>.
\<close>

section \<open>State\<close>

record ('c, 'n) app_state =
  as_info :: device_info
  as_web :: "'c web_page_state option"
  as_web_upload :: bool
  as_web_i18n :: "web_i18n option"
  as_internal :: "rstring option"
  as_received_nonces :: 'n
  as_generated_nonces :: 'n
  as_v2 :: "'c v2_state option"
  as_remote_fs :: "remote_fs_state option"

record server_config_v2 =
  sc_pin :: "rstring option"
  sc_verify_checksums :: bool

record web_config =
  wcf_send :: "web_send_config option"
  wcf_upload :: bool
  wcf_i18n :: web_i18n

definition app_state_new ::
  "(ip_addr, u32, 'c) lru_ops \<Rightarrow> (rstring, byte list, 'n) lru_ops \<Rightarrow> device_info \<Rightarrow> rstring option \<Rightarrow>
     server_config_v2 option \<Rightarrow> web_config option \<Rightarrow> remote_fs_config option \<Rightarrow> ('c, 'n) app_state"
where
  "app_state_new L N info internal v2 web remote_fs =
     \<lparr>as_info = info,
      as_web = (case web of Some c \<Rightarrow> map_option (web_page_state_new L) (wcf_send c) | None \<Rightarrow> None),
      as_web_upload = (case web of Some c \<Rightarrow> wcf_upload c | None \<Rightarrow> False),
      as_web_i18n = map_option wcf_i18n web,
      as_internal = internal,
      as_received_nonces = lru_new N 200, as_generated_nonces = lru_new N 200,
      as_v2 = map_option (\<lambda>c. \<lparr>v2_pin = sc_pin c, v2_verify_checksums = sc_verify_checksums c,
        v2_session = None, v2_pin_attempts = lru_new L 200\<rparr>) v2,
      as_remote_fs = map_option remote_fs_state_new remote_fs\<rparr>"

datatype server_event =
    EvV2 server_event_v2
  | EvWeb web_send_event
  | EvFs remote_fs_event
  | EvShow "rstring list"

section \<open>Client identity\<close>

text \<open>Whether a client has to present a certificate: browsers have none.\<close>

definition mandatory_client_auth :: "('c, 'n) app_state \<Rightarrow> bool" where
  "mandatory_client_auth st \<longleftrightarrow> as_web st = None \<and> \<not> as_web_upload st"

text \<open>
  The certificate verifier accepts every certificate that is valid in itself;
  \<open>parse_der\<close> and \<open>parse_key\<close> are the X.509 library.
\<close>

definition client_cert_accepted ::
  "(byte list \<Rightarrow> parsed_cert option) \<Rightarrow> (rstring \<Rightarrow> byte list option) \<Rightarrow> byte list \<Rightarrow> bool"
where
  "client_cert_accepted parse_der parse_key der = is_ok (verify_cert_from_der parse_der parse_key der None)"

text \<open>What the requests of a connection know of their client.\<close>

definition connection_client_info :: "bool \<Rightarrow> socket_addr \<Rightarrow> byte list list \<Rightarrow> request_client_info" where
  "connection_client_info tls remote_addr peer_certificates =
     \<lparr>ci_ip = from_remote_addr remote_addr,
      ci_cert = (if tls then (case peer_certificates of c # _ \<Rightarrow> Some c | [] \<Rightarrow> None) else None)\<rparr>"

section \<open>The accept loop\<close>

definition ACCEPT_BACKOFF_MIN :: nat where "ACCEPT_BACKOFF_MIN = 50"
definition ACCEPT_BACKOFF_MAX :: nat where "ACCEPT_BACKOFF_MAX = 1000"

datatype accept_result = Accepted | ConnectionAborted | ConnectionReset | Interrupted | OtherAcceptError

definition is_transient_accept_error :: "accept_result \<Rightarrow> bool" where
  "is_transient_accept_error e \<longleftrightarrow> e \<in> {ConnectionAborted, ConnectionReset, Interrupted}"

text \<open>The waits, in milliseconds, of a run of the loop; it never gives up.\<close>

fun accept_loop :: "nat \<Rightarrow> accept_result list \<Rightarrow> nat list" where
  "accept_loop backoff [] = []"
| "accept_loop backoff (Accepted # rs) = accept_loop ACCEPT_BACKOFF_MIN rs"
| "accept_loop backoff (e # rs) =
     (if is_transient_accept_error e then accept_loop backoff rs
      else backoff # accept_loop (min (backoff * 2) ACCEPT_BACKOFF_MAX) rs)"

section \<open>Announced addresses\<close>

text \<open>The order of \<^verbatim>\<open>SocketAddr\<close>: IPv4 before IPv6, then by address, port and scope.\<close>

definition sock_key :: "socket_addr \<Rightarrow> nat list" where
  "sock_key a = (case a of
      SockV4 ip port \<Rightarrow> [0, unat ip, unat port, 0]
    | SockV6 ip port scope \<Rightarrow> [1, unat ip, unat port, unat scope])"

fun key_le :: "nat list \<Rightarrow> nat list \<Rightarrow> bool" where
  "key_le [] ys = True"
| "key_le (x # xs) [] = False"
| "key_le (x # xs) (y # ys) = (x < y \<or> x = y \<and> key_le xs ys)"

lemma sock_key_inj: "sock_key a = sock_key b \<Longrightarrow> a = b"
  by (auto simp: sock_key_def word_unat_eq_iff split: socket_addr.splits)

lemma key_le_refl: "key_le xs xs"
  by (induction xs) auto

lemma key_le_trans: "key_le xs ys \<Longrightarrow> key_le ys zs \<Longrightarrow> key_le xs zs"
proof (induction xs ys arbitrary: zs rule: key_le.induct)
  case (3 x xs y ys)
  then show ?case by (cases zs) auto
qed auto

lemma key_le_antisym: "key_le xs ys \<Longrightarrow> key_le ys xs \<Longrightarrow> xs = ys"
  by (induction xs ys rule: key_le.induct) (auto elim: key_le.elims)

lemma key_le_linear: "key_le xs ys \<or> key_le ys xs"
  by (induction xs ys rule: key_le.induct) auto

instantiation socket_addr :: linorder
begin

definition less_eq_socket_addr :: "socket_addr \<Rightarrow> socket_addr \<Rightarrow> bool" where
  "less_eq_socket_addr a b = key_le (sock_key a) (sock_key b)"

definition less_socket_addr :: "socket_addr \<Rightarrow> socket_addr \<Rightarrow> bool" where
  "less_socket_addr a b \<longleftrightarrow> a \<le> b \<and> a \<noteq> (b :: socket_addr)"

instance
proof
  fix a b c :: socket_addr
  show "a \<le> a" by (simp add: less_eq_socket_addr_def key_le_refl)
  show "a \<le> b \<Longrightarrow> b \<le> c \<Longrightarrow> a \<le> c" unfolding less_eq_socket_addr_def by (rule key_le_trans)
  show "a \<le> b \<Longrightarrow> b \<le> a \<Longrightarrow> a = b"
    unfolding less_eq_socket_addr_def by (metis key_le_antisym sock_key_inj)
  then show "a < b \<longleftrightarrow> a \<le> b \<and> \<not> b \<le> a" by (auto simp: less_socket_addr_def)
  show "a \<le> b \<or> b \<le> a" unfolding less_eq_socket_addr_def by (rule key_le_linear)
qed

end

record interface =
  if_loopback :: bool
  if_ip :: ip_addr

definition is_unicast_link_local :: "128 word \<Rightarrow> bool" where
  "is_unicast_link_local ip \<longleftrightarrow> ipv6_segments ip ! 0 div 64 = 1018"

definition interface_addr :: "u16 \<Rightarrow> bool \<Rightarrow> interface \<Rightarrow> socket_addr option" where
  "interface_addr port ipv6_bound i =
     (case if_ip i of
        IpV4 a \<Rightarrow> Some (SockV4 a port)
      | IpV6 a \<Rightarrow> if ipv6_bound \<and> \<not> is_unicast_link_local a then Some (SockV6 a port 0) else None)"

definition local_addresses :: "u16 \<Rightarrow> bool \<Rightarrow> interface list option \<Rightarrow> socket_addr list" where
  "local_addresses port ipv6_bound interfaces =
     (case interfaces of
        None \<Rightarrow> []
      | Some ifs \<Rightarrow>
          remdups_adj (sort (List.map_filter (interface_addr port ipv6_bound)
            (filter (\<lambda>i. \<not> if_loopback i) ifs))))"

section \<open>Internal and v3 endpoints\<close>

definition show_endpoint :: "ext \<Rightarrow> (byte list \<Rightarrow> rstring list option) \<Rightarrow> rstring option \<Rightarrow> request \<Rightarrow>
    (response, app_error) result \<times> server_event list" where
  "show_endpoint X decode internal req =
     (case internal of
        None \<Rightarrow> (Inl (StatusError 404), [])
      | Some show_token \<Rightarrow>
          if parse_query X (rq_query req) (lit ''token'') \<noteq> Some show_token
          then (Inl (MessageError 403 (lit ''Invalid token'')), [])
          else
            (case and_then (collect_frames (rq_body req)) (\<lambda>body.
                    if body = [] then Inr []
                    else ok_or (decode body) (BadRequest (lit ''Invalid JSON body''))) of
               Inl e \<Rightarrow> (Inl e, [])
             | Inr args \<Rightarrow> (Inr (plain_response 200), [EvShow args])))"

definition nonce_exchange ::
  "ext \<Rightarrow> (rstring, byte list, 'n) lru_ops \<Rightarrow> (byte list \<Rightarrow> rstring option) \<Rightarrow> byte list \<Rightarrow>
     ('c, 'n) app_state \<Rightarrow> frame list \<Rightarrow> request_client_info \<Rightarrow>
     (response, app_error) result \<times> ('c, 'n) app_state"
where
  "nonce_exchange X N decode new_nonce st body ci =
     (case and_then (collect_to_json decode body) (\<lambda>payload.
           and_then (ok_or (ext_base64_decode X payload) (BadRequest (lit ''Invalid nonce format''))) (\<lambda>nonce.
           and_then (ensure (validate_nonce nonce) (BadRequest (lit ''Invalid nonce''))) (\<lambda>_.
           Inr nonce))) of
        Inl e \<Rightarrow> (Inl e, st)
      | Inr nonce \<Rightarrow>
          let remote_key = client_identifier X ci
          in (Inr (json_into_response 200 (NonceBody (ext_base64_encode X new_nonce))),
              st\<lparr>as_received_nonces := lru_put N (as_received_nonces st) remote_key nonce,
                 as_generated_nonces := lru_put N (as_generated_nonces st) remote_key new_nonce\<rparr>))"

definition register_v3 ::
  "(byte list \<Rightarrow> register_dto option) \<Rightarrow> device_info \<Rightarrow> bool \<Rightarrow> frame list \<Rightarrow> (response, app_error) result"
where
  "register_v3 decode info has_web_interface body =
     and_then (collect_to_json decode body) (\<lambda>payload.
     Inr (json_into_response 200 (RegisterV3Body
       \<lparr>rr3_alias = di_alias info, rr3_version = di_version info, rr3_device_model = di_device_model info,
        rr3_device_type = di_device_type info, rr3_token = di_token info,
        rr3_has_web_interface = has_web_interface\<rparr>)))"

section \<open>Routing\<close>

record ('c, 'n) inputs =
  in_ext :: ext
  in_pin_ops :: "(ip_addr, u32, 'c) lru_ops"
  in_nonce_ops :: "(rstring, byte list, 'n) lru_ops"
  in_decode_register :: "byte list \<Rightarrow> register_dto_v2 option"
  in_decode_offer :: "byte list \<Rightarrow> prepare_upload_request_dto_v2 option"
  in_decode_show :: "byte list \<Rightarrow> rstring list option"
  in_decode_nonce :: "byte list \<Rightarrow> rstring option"
  in_decode_register_v3 :: "byte list \<Rightarrow> register_dto option"
  in_queue_has_room :: bool
  in_session_id :: rstring
  in_token :: "rstring \<Rightarrow> rstring"
  in_prepare_outcome :: prepare_outcome
  in_upload_outcome :: upload_outcome
  in_web_outcome :: web_outcome
  in_content :: "file_content option"
  in_taken :: "nat option"
  in_new_nonce :: "byte list"
  in_fs :: fs_env_params

definition FIREBOX_API_BASE :: rstring where
  "FIREBOX_API_BASE = lit ''/api/fireboxtransfer/v1''"

definition require_v2 :: "'v option \<Rightarrow> ('v, app_error) result" where
  "require_v2 v2 = ok_or v2 (StatusError 404)"

type_synonym ('c, 'n) reply =
  "(response, app_error) result option \<times> ('c, 'n) app_state \<times> server_event list"

definition on_v2 ::
  "('c, 'n) app_state \<Rightarrow> ('c v2_state \<Rightarrow> (response, app_error) result option \<times> 'c v2_state \<times> server_event_v2 list) \<Rightarrow>
     ('c, 'n) reply"
where
  "on_v2 st f =
     (case require_v2 (as_v2 st) of
        Inl e \<Rightarrow> (Some (Inl e), st, [])
      | Inr v2 \<Rightarrow> let (res, v2', evs) = f v2 in (res, st\<lparr>as_v2 := Some v2'\<rparr>, map EvV2 evs))"

definition on_web ::
  "('c, 'n) app_state \<Rightarrow> ('c web_page_state \<Rightarrow> (response, app_error) result option \<times> 'c web_page_state \<times> web_send_event list) \<Rightarrow>
     ('c, 'n) reply"
where
  "on_web st f =
     (case require_web (as_web st) of
        Inl e \<Rightarrow> (Some (Inl e), st, [])
      | Inr web \<Rightarrow> let (res, web', evs) = f web in (res, st\<lparr>as_web := Some web'\<rparr>, map EvWeb evs))"

definition api :: "string \<Rightarrow> rstring" where
  "api p = lit ''/api/localsend'' @ lit p"

definition route ::
  "('c, 'n) inputs \<Rightarrow> ('c, 'n) app_state \<Rightarrow> request \<Rightarrow> request_client_info \<Rightarrow> ('c, 'n) reply"
where
  "route I st req ci =
     (let X = in_ext I; m = rq_method req; p = rq_path req; web = (as_web st \<noteq> None) in
      if m = lit ''GET'' \<and> p = lit ''/'' then (Some (Inr (index web (as_web_upload st))), st, [])
      else if m = lit ''GET'' \<and> p = lit ''/i18n.json'' then (Some (i18n (as_web_i18n st)), st, [])
      else if m = lit ''POST'' \<and> p = api ''/v2/prepare-download''
      then on_web st (\<lambda>w. prepare_download X (in_pin_ops I) (as_info st) w req ci (in_web_outcome I))
      else if m = lit ''GET'' \<and> p = api ''/v2/download''
      then on_web st (\<lambda>w. let (res, evs) = download X w req ci (in_content I) (in_taken I)
                          in (Some res, w, evs))
      else if m = lit ''POST'' \<and> p = api ''/v2/register''
      then on_v2 st (\<lambda>v. let (res, evs) = register X (in_decode_register I) (in_queue_has_room I) True
                               (as_info st) web (rq_body req) ci
                         in (Some res, v, evs))
      else if m = lit ''GET'' \<and> p = api ''/v2/info''
      then on_v2 st (\<lambda>v. (Some (info_v2 (as_info st) web), v, []))
      else if m = lit ''POST'' \<and> p = api ''/v2/prepare-upload''
      then on_v2 st (\<lambda>v. prepare_upload X (in_pin_ops I) (in_decode_offer I) v req ci (in_session_id I)
                           (in_token I) (in_prepare_outcome I))
      else if m = lit ''POST'' \<and> p = api ''/v2/upload''
      then on_v2 st (\<lambda>v. upload X v req ci (in_upload_outcome I))
      else if m = lit ''POST'' \<and> p = api ''/v2/cancel''
      then on_v2 st (\<lambda>v. let (res, v', evs) = cancel X v req ci in (Some res, v', evs))
      else if m = lit ''POST'' \<and> p = api ''/v2/show''
      then let (res, evs) = show_endpoint X (in_decode_show I) (as_internal st) req in (Some res, st, evs)
      else if m = lit ''POST'' \<and> p = api ''/v3/nonce''
      then let (res, st') = nonce_exchange X (in_nonce_ops I) (in_decode_nonce I) (in_new_nonce I) st
                              (rq_body req) ci
           in (Some res, st', [])
      else if m = lit ''POST'' \<and> p = api ''/v3/register''
      then (Some (register_v3 (in_decode_register_v3 I) (as_info st) web (rq_body req)), st, [])
      else (Some (Inr (plain_response 404)), st, []))"

definition handle_request_inner ::
  "('c, 'n) inputs \<Rightarrow> ('c, 'n) app_state \<Rightarrow> request \<Rightarrow> request_client_info \<Rightarrow> ('c, 'n) reply"
where
  "handle_request_inner I st req ci =
     (if prefix FIREBOX_API_BASE (rq_path req)
      then let (res, evs) = handle (in_fs I) (as_remote_fs st) req ci
           in (Some (Inr res), st, map EvFs evs)
      else route I st req ci)"

text \<open>\<open>None\<close>: the client disconnected and nothing is answered.\<close>

definition handle_request ::
  "('c, 'n) inputs \<Rightarrow> ('c, 'n) app_state \<Rightarrow> request \<Rightarrow> request_client_info \<Rightarrow>
     response option \<times> ('c, 'n) app_state \<times> server_event list"
where
  "handle_request I st req ci =
     (let (res, st', evs) = handle_request_inner I st req ci
      in (map_option (\<lambda>r. case r of Inr response \<Rightarrow> response | Inl e \<Rightarrow> to_response (in_ext I) e) res, st', evs))"

section \<open>What a request may touch\<close>

fun event_enabled :: "('c, 'n) app_state \<Rightarrow> server_event \<Rightarrow> bool" where
  "event_enabled st (EvV2 e) \<longleftrightarrow> as_v2 st \<noteq> None"
| "event_enabled st (EvWeb e) \<longleftrightarrow> as_web st \<noteq> None"
| "event_enabled st (EvFs e) \<longleftrightarrow> as_remote_fs st \<noteq> None"
| "event_enabled st (EvShow args) \<longleftrightarrow> as_internal st \<noteq> None"

text \<open>The configuration of a server: what is fixed when it is started.\<close>

definition same_config :: "('c, 'n) app_state \<Rightarrow> ('c, 'n) app_state \<Rightarrow> bool" where
  "same_config st st' \<longleftrightarrow>
     as_info st' = as_info st \<and> as_web_upload st' = as_web_upload st \<and> as_web_i18n st' = as_web_i18n st \<and>
     as_internal st' = as_internal st \<and> as_remote_fs st' = as_remote_fs st \<and>
     (as_v2 st' = None \<longleftrightarrow> as_v2 st = None) \<and> (as_web st' = None \<longleftrightarrow> as_web st = None)"

definition contained :: "('c, 'n) app_state \<Rightarrow> ('c, 'n) reply \<Rightarrow> bool" where
  "contained st r \<longleftrightarrow> same_config st (fst (snd r)) \<and> list_all (event_enabled st) (snd (snd r))"

section \<open>Lemmas\<close>

lemma same_config_refl [simp]: "same_config st st"
  by (simp add: same_config_def)

lemma contained_still [simp]: "contained st (r, st, [])"
  by (simp add: contained_def)

lemma contained_v2: "contained st (on_v2 st f)"
  by (auto simp: contained_def on_v2_def require_v2_def ok_or_def same_config_def list_all_iff
      split: option.splits prod.splits)

lemma contained_web: "contained st (on_web st f)"
  by (auto simp: contained_def on_web_def require_web_def ok_or_def same_config_def list_all_iff
      split: option.splits prod.splits)

lemma contained_show: "contained st (let (res, evs) = show_endpoint X d (as_internal st) req in (Some res, st, evs))"
  by (auto simp: contained_def show_endpoint_def split: option.splits prod.splits sum.splits if_splits)

lemma contained_nonce:
  "contained st (let (res, st') = nonce_exchange X N d n st body ci in (Some res, st', []))"
  by (auto simp: contained_def nonce_exchange_def same_config_def Let_def split: prod.splits sum.splits)

lemma contained_route: "contained st (route I st req ci)"
  unfolding route_def Let_def
  by (simp add: contained_v2 contained_web contained_show [unfolded Let_def] contained_nonce [unfolded Let_def])

lemma handle_needs_remote_fs: "snd (handle P None req ci) = []"
  by (simp add: handle_def handle_inner_def ok_or_def)

lemma contained_inner: "contained st (handle_request_inner I st req ci)"
  using handle_needs_remote_fs [of "in_fs I" req ci] contained_route [of st I req ci]
  by (cases "as_remote_fs st")
    (auto simp: handle_request_inner_def contained_def list_all_iff split: prod.splits)

lemma accept_loop_bounds:
  "50 \<le> b \<Longrightarrow> b \<le> 1000 \<Longrightarrow> list_all (\<lambda>w. 50 \<le> w \<and> w \<le> 1000) (accept_loop b rs)"
  by (induction b rs rule: accept_loop.induct) (auto simp: ACCEPT_BACKOFF_MIN_def ACCEPT_BACKOFF_MAX_def)

lemma accept_loop_length:
  "length (accept_loop b rs) = length (filter (\<lambda>r. r = OtherAcceptError) rs)"
  by (induction b rs rule: accept_loop.induct) (auto simp: is_transient_accept_error_def)

lemma sorted_remdups_adj_distinct:
  "sorted xs \<Longrightarrow> distinct (remdups_adj (xs :: 'a :: linorder list))"
  by (induction xs rule: remdups_adj.induct) (auto simp: remdups_adj_set)

lemma set_map_filter: "y \<in> set (List.map_filter f xs) \<longleftrightarrow> (\<exists>x \<in> set xs. f x = Some y)"
  by (force simp: map_filter_def)

lemma interface_addr_v4: "interface_addr port ipv6 i = Some (SockV4 a p) \<longleftrightarrow> if_ip i = IpV4 a \<and> p = port"
  by (auto simp: interface_addr_def split: ip_addr.splits)

lemma interface_addr_v6:
  "interface_addr port ipv6 i = Some (SockV6 b p sc) \<longleftrightarrow>
     if_ip i = IpV6 b \<and> p = port \<and> sc = 0 \<and> ipv6 \<and> \<not> is_unicast_link_local b"
  by (auto simp: interface_addr_def split: ip_addr.splits)

lemma local_addresses_mem:
  "x \<in> set (local_addresses port ipv6 (Some ifs)) \<longleftrightarrow>
     (\<exists>i \<in> set ifs. \<not> if_loopback i \<and> interface_addr port ipv6 i = Some x)"
  by (auto simp: local_addresses_def set_map_filter)

lemma interface_eq: "\<lparr>if_loopback = False, if_ip = x\<rparr> \<in> set ifs \<longleftrightarrow> (\<exists>i \<in> set ifs. \<not> if_loopback i \<and> if_ip i = x)"
proof
  assume "\<exists>i \<in> set ifs. \<not> if_loopback i \<and> if_ip i = x"
  then obtain i where "i \<in> set ifs" "\<not> if_loopback i" "if_ip i = x" by blast
  moreover from this have "i = \<lparr>if_loopback = False, if_ip = x\<rparr>" by simp
  ultimately show "\<lparr>if_loopback = False, if_ip = x\<rparr> \<in> set ifs" by simp
qed force

section \<open>Properties\<close>

text \<open>
  Endpoints that are not configured stay silent: whatever request arrives, only
  enabled parts of the server send events to the application, and no request switches a
  part on or off or changes the device's own information.
\<close>

theorem disabled_endpoints_silent:
  "list_all (event_enabled st) (snd (snd (handle_request I st req ci))) \<and>
   same_config st (fst (snd (handle_request I st req ci)))"
  using contained_inner [of st I req ci] by (auto simp: handle_request_def contained_def split: prod.splits)

text \<open>
  The accept loop never spins and never waits long: every wait is between 50
  milliseconds and one second, and it waits exactly once for every failure that is not
  confined to a single connection.
\<close>

lemma accept_backoff_bounded:
  "list_all (\<lambda>w. 50 \<le> w \<and> w \<le> 1000) (accept_loop ACCEPT_BACKOFF_MIN rs) \<and>
   length (accept_loop ACCEPT_BACKOFF_MIN rs) = length (filter (\<lambda>r. r = OtherAcceptError) rs)"
  using accept_loop_bounds [of ACCEPT_BACKOFF_MIN rs] accept_loop_length
  by (simp add: ACCEPT_BACKOFF_MIN_def)

text \<open>
  The announced addresses are strictly sorted, so without duplicates, and are exactly
  those a peer can use: the addresses of the interfaces that are not loopback, IPv6 only
  when it is bound and never link-local, each with the bound port.
\<close>

theorem local_addresses_exact:
  "sorted_wrt (<) (local_addresses port ipv6 (Some ifs)) \<and>
   (SockV4 a p \<in> set (local_addresses port ipv6 (Some ifs)) \<longleftrightarrow>
      p = port \<and> \<lparr>if_loopback = False, if_ip = IpV4 a\<rparr> \<in> set ifs) \<and>
   (SockV6 b p sc \<in> set (local_addresses port ipv6 (Some ifs)) \<longleftrightarrow>
      p = port \<and> sc = 0 \<and> ipv6 \<and> \<not> is_unicast_link_local b \<and> \<lparr>if_loopback = False, if_ip = IpV6 b\<rparr> \<in> set ifs)"
proof -
  have "sorted (local_addresses port ipv6 (Some ifs)) \<and> distinct (local_addresses port ipv6 (Some ifs))"
    by (simp add: local_addresses_def sorted_remdups_adj sorted_remdups_adj_distinct)
  then show ?thesis
    by (auto simp: strict_sorted_iff local_addresses_mem interface_addr_v4 interface_addr_v6 interface_eq)
qed

text \<open>
  Only the holder of the token can raise the application's window: the internal show
  endpoint forwards the arguments exactly when the endpoint is configured, the request
  carries the configured token and its body is empty or a readable request.
\<close>

theorem show_requires_token:
  "snd (show_endpoint X decode internal req) = [EvShow args] \<longleftrightarrow>
     internal \<noteq> None \<and> parse_query X (rq_query req) (lit ''token'') = internal \<and>
     (\<exists>body. collect_frames (rq_body req) = Inr body \<and>
        (if body = [] then args = [] else decode body = Some args))"
  by (cases internal; cases "collect_frames (rq_body req)")
    (auto simp: show_endpoint_def ok_or_def split: option.splits sum.splits if_splits)

text \<open>
  A nonce exchange that succeeds leaves, for the identity the client has proved or
  for its address, the client's nonce and the server's nonce on record, and answers with
  the server's nonce; any other exchange changes nothing and is refused with 400, or with
  500 when the body cannot be read.
\<close>

theorem nonce_exchange_records:
  assumes "lru_cache N invar cap" "invar (as_received_nonces st)" "invar (as_generated_nonces st)"
    and "nonce_exchange X N decode new_nonce st body ci = (res, st')"
  shows "(case res of
      Inr response \<Rightarrow> (\<exists>text nonce. collect_to_json decode body = Inr text \<and>
        ext_base64_decode X text = Some nonce \<and> validate_nonce nonce \<and>
        lru_lookup N (as_received_nonces st') (client_identifier X ci) = Some nonce \<and>
        lru_lookup N (as_generated_nonces st') (client_identifier X ci) = Some new_nonce \<and>
        rs_body response = NonceBody (ext_base64_encode X new_nonce))
    | Inl e \<Rightarrow> st' = st \<and> error_code e \<in> {400, 500})"
  using assms(4) lru_cache.put_lookup [OF assms(1)] assms(2,3)
  by (auto simp: nonce_exchange_def Let_def res_simps json_into_response_def collect_to_json_def
      split: sum.splits dest: collect_frames_error)

text \<open>
  While the web pages are served, client certificates are optional, and a client that
  completes the TLS handshake without one can register under any fingerprint: the
  application is told of the device although nothing was proved.
\<close>

theorem unproved_registration_announced:
  fixes handshake :: "bool \<Rightarrow> (byte list \<Rightarrow> bool) \<Rightarrow> byte list option \<Rightarrow> bool"
  assumes optional: "\<And>accepts. handshake False accepts None"
    and "as_web st \<noteq> None \<or> as_web_upload st"
    and "as_v2 st = Some v2" "in_queue_has_room I"
    and "rq_method req = lit ''POST''" "rq_path req = api ''/v2/register''"
    and "collect_to_json (in_decode_register I) (rq_body req) = Inr payload"
  shows "handshake (mandatory_client_auth st) accepts None \<and>
    snd (snd (handle_request I st req (connection_client_info True addr []))) =
      [EvV2 (EvRegister (from_remote_addr addr) payload)]"
proof -
  have "\<not> prefix FIREBOX_API_BASE (rq_path req)"
    by (simp add: assms FIREBOX_API_BASE_def api_def lit_def)
  moreover have "route I st req ci = on_v2 st (\<lambda>v. let (res, evs) = register (in_ext I)
      (in_decode_register I) (in_queue_has_room I) True (as_info st) (as_web st \<noteq> None) (rq_body req) ci
      in (Some res, v, evs))" for ci
    unfolding route_def Let_def assms(5,6) by (simp add: api_def lit_def)
  ultimately show ?thesis
    using assms
    by (auto simp: mandatory_client_auth_def handle_request_def handle_request_inner_def on_v2_def
        require_v2_def ok_or_def register_def cert_fingerprint_def connection_client_info_def)
qed

section \<open>A concrete server\<close>

definition demo_inputs :: "((ip_addr, u32) list_lru, (rstring, byte list) list_lru) inputs" where
  "demo_inputs = \<lparr>in_ext = demo_ext, in_pin_ops = list_lru_ops, in_nonce_ops = list_lru_ops,
     in_decode_register = (\<lambda>_. Some demo_register), in_decode_offer = (\<lambda>_. Some demo_offer),
     in_decode_show = (\<lambda>_. None), in_decode_nonce = (\<lambda>_. Some (replicate 32 1)),
     in_decode_register_v3 = (\<lambda>_. None), in_queue_has_room = True, in_session_id = lit ''s'',
     in_token = (\<lambda>f. f), in_prepare_outcome = RequestAborted, in_upload_outcome = UploadAborted,
     in_web_outcome = WebAborted, in_content = None, in_taken = None, in_new_nonce = [1, 2],
     in_fs = \<lparr>fp_ext = demo_ext, fp_decoders = demo_decoders (lit ''d''), fp_app = demo_app,
       fp_send_ok = (\<lambda>_. True), fp_taken = None\<rparr>\<rparr>"

definition demo_server :: "((ip_addr, u32) list_lru, (rstring, byte list) list_lru) app_state" where
  "demo_server = app_state_new list_lru_ops list_lru_ops demo_info None
     (Some \<lparr>sc_pin = None, sc_verify_checksums = True\<rparr>)
     (Some \<lparr>wcf_send = None, wcf_upload = True, wcf_i18n = default_web_i18n\<rparr>) None"

theorem unproved_registration_announced_witness:
  "snd (snd (handle_request demo_inputs demo_server
      ((demo_request [])\<lparr>rq_path := api ''/v2/register''\<rparr>)
      (connection_client_info True (SockV4 7 1) []))) =
    [EvV2 (EvRegister (from_remote_addr (SockV4 7 1)) demo_register)]"
  using unproved_registration_announced [of "\<lambda>m v c. \<not> m \<or> c \<noteq> None" demo_server _ demo_inputs
      "(demo_request [])\<lparr>rq_path := api ''/v2/register''\<rparr>" demo_register "\<lambda>_. True" "SockV4 7 1"]
  by (simp add: demo_server_def app_state_new_def demo_inputs_def demo_request_def collect_to_json_def ok_or_def)

theorem nonce_exchange_records_witness:
  "lru_lookup list_lru_ops (as_generated_nonces (snd (nonce_exchange demo_ext list_lru_ops
      (\<lambda>_. Some (replicate 32 1)) [1, 2] demo_server [] (demo_client 7))))
      (client_identifier demo_ext (demo_client 7)) = Some [1, 2]"
proof -
  have cache: "lru_cache list_lru_ops (list_lru_invar 200) (200 :: nat)"
    using list_lru.lru_cache_axioms [of 199] by simp
  have inv: "list_lru_invar 200 (as_received_nonces demo_server)"
    "list_lru_invar 200 (as_generated_nonces demo_server)"
    by (simp_all add: demo_server_def app_state_new_def list_lru_simps list_lru_invar_def)
  obtain res st' where run: "nonce_exchange demo_ext list_lru_ops (\<lambda>_. Some (replicate 32 1)) [1, 2]
      demo_server [] (demo_client 7) = (res, st')" by (metis prod.exhaust)
  have "validate_nonce (replicate 32 1)" by code_simp
  then have "is_ok res"
    using run by (auto simp: nonce_exchange_def collect_to_json_def ok_or_def ensure_def demo_ext_def
        is_ok_def Let_def split: if_splits)
  with nonce_exchange_records [OF cache inv run] run show ?thesis
    by (auto simp: is_ok_def split: sum.splits)
qed

end
