(* ===== verification/FB_IpText.thy ===== *)
theory FB_IpText
  imports FB_Net
begin

text \<open>
  The parser of \<^verbatim>\<open>std::net\<close> for IP addresses (\<^verbatim>\<open>IpAddr::from_str\<close>), which the device store,
  the signaling server and the HTTP client call, and its round trip with the printer of
  \<open>FB_Net\<close>: every address parses back from its text, so the text identifies it. The pair
  interprets the contract \<open>codec\<close>.
\<close>

section \<open>Parsing addresses\<close>

definition digit_value :: "nat \<Rightarrow> rchar \<Rightarrow> nat option" where
  "digit_value radix c =
     (let v = (if 48 \<le> c \<and> c \<le> 57 then Some (c - 48)
               else if 97 \<le> c \<and> c \<le> 122 then Some (c - 87)
               else if 65 \<le> c \<and> c \<le> 90 then Some (c - 55) else None)
      in case v of Some d \<Rightarrow> if d < radix then Some d else None | None \<Rightarrow> None)"

definition read_number ::
  "nat \<Rightarrow> nat \<Rightarrow> bool \<Rightarrow> nat \<Rightarrow> rstring \<Rightarrow> (nat \<times> rstring) option"
where
  "read_number radix max_digits allow_zero_prefix bound s =
     (let ds = takeWhile (\<lambda>c. digit_value radix c \<noteq> None) s;
          n = foldl (\<lambda>n c. radix * n + the (digit_value radix c)) 0 ds
      in if ds = [] \<or> max_digits < length ds \<or> (\<not> allow_zero_prefix \<and> hd ds = 48 \<and> 1 < length ds) \<or> bound \<le> n
         then None else Some (n, drop (length ds) s))"

text \<open>A separator is read before every part but the first.\<close>

definition read_separator ::
  "rchar \<Rightarrow> nat \<Rightarrow> (rstring \<Rightarrow> ('a \<times> rstring) option) \<Rightarrow> rstring \<Rightarrow> ('a \<times> rstring) option"
where
  "read_separator sep i inner s =
     (if i = 0 then inner s
      else case s of c # cs \<Rightarrow> if c = sep then inner cs else None | [] \<Rightarrow> None)"

fun read_octets :: "nat \<Rightarrow> nat \<Rightarrow> rstring \<Rightarrow> (nat list \<times> rstring) option" where
  "read_octets 0 i s = Some ([], s)"
| "read_octets (Suc k) i s =
     (case read_separator 46 i (read_number 10 3 False 256) s of
        None \<Rightarrow> None
      | Some (n, rest) \<Rightarrow> map_option (\<lambda>(ns, r). (n # ns, r)) (read_octets k (Suc i) rest))"

definition read_ipv4_addr :: "rstring \<Rightarrow> (nat list \<times> rstring) option" where
  "read_ipv4_addr s = read_octets 4 0 s"

fun read_groups :: "nat \<Rightarrow> nat \<Rightarrow> rstring \<Rightarrow> nat list \<times> bool \<times> rstring" where
  "read_groups 0 i s = ([], False, s)"
| "read_groups (Suc k) i s =
     (case (if 0 < k then read_separator 58 i read_ipv4_addr s else None) of
        Some (os, rest) \<Rightarrow> ([os ! 0 * 256 + os ! 1, os ! 2 * 256 + os ! 3], True, rest)
      | None \<Rightarrow>
          (case read_separator 58 i (read_number 16 4 True 65536) s of
             None \<Rightarrow> ([], False, s)
           | Some (g, rest) \<Rightarrow> let (gs, v4, r) = read_groups k (Suc i) rest in (g # gs, v4, r)))"

definition read_ipv6_addr :: "rstring \<Rightarrow> (nat list \<times> rstring) option" where
  "read_ipv6_addr s =
     (let (head, head_ipv4, rest) = read_groups 8 0 s
      in if length head = 8 then Some (head, rest)
         else if head_ipv4 then None
         else case rest of
             a # b # rest' \<Rightarrow>
               if a = 58 \<and> b = 58
               then let (tl, _, r) = read_groups (8 - (length head + 1)) 0 rest'
                    in Some (head @ replicate (8 - length head - length tl) 0 @ tl, r)
               else None
           | _ \<Rightarrow> None)"

definition of_octets :: "nat list \<Rightarrow> 32 word" where
  "of_octets os = of_nat (foldl (\<lambda>n d. 256 * n + d) 0 os)"

definition of_segments :: "nat list \<Rightarrow> 128 word" where
  "of_segments ss = of_nat (foldl (\<lambda>n d. 65536 * n + d) 0 ss)"

text \<open>\<^verbatim>\<open>IpAddr::from_str\<close>: IPv4 is tried first and all of the text has to be read.\<close>

definition parse_ip :: "rstring \<Rightarrow> ip_addr option" where
  "parse_ip s =
     (case read_ipv4_addr s of
        Some (os, rest) \<Rightarrow> if rest = [] then Some (IpV4 (of_octets os)) else None
      | None \<Rightarrow>
          (case read_ipv6_addr s of
             Some (ss, rest) \<Rightarrow> if rest = [] then Some (IpV6 (of_segments ss)) else None
           | None \<Rightarrow> None))"

definition parses_as_ipv6 :: "rstring \<Rightarrow> bool" where
  "parses_as_ipv6 s = (case parse_ip s of Some (IpV6 ip) \<Rightarrow> True | _ \<Rightarrow> False)"

text \<open>What may follow the groups: the end, or the gap.\<close>

definition groups_end :: "rstring \<Rightarrow> bool" where
  "groups_end rest \<longleftrightarrow> rest = [] \<or> (\<exists>r. rest = 58 # 58 # r)"

section \<open>Round trip of numbers\<close>

lemma digit_value_show:
  "d < 10 \<Longrightarrow> digit_value 10 (48 + d) = Some d"
  "d < 10 \<Longrightarrow> digit_value 16 (48 + d) = Some d"
  "d < 16 \<Longrightarrow> \<not> d < 10 \<Longrightarrow> digit_value 16 (87 + d) = Some d"
  by (auto simp: digit_value_def)

lemma read_number_append:
  assumes "ds \<noteq> []" "length ds \<le> m" "\<And>c. c \<in> set ds \<Longrightarrow> digit_value r c \<noteq> None"
    "allow \<or> hd ds \<noteq> 48 \<or> length ds = 1"
    "foldl (\<lambda>n c. r * n + the (digit_value r c)) 0 ds = n" "n < b"
    "rest = [] \<or> digit_value r (hd rest) = None"
  shows "read_number r m allow b (ds @ rest) = Some (n, rest)"
proof -
  have "takeWhile (\<lambda>c. digit_value r c \<noteq> None) (ds @ rest) = ds"
    using assms(3,7) by (cases rest) (auto simp: takeWhile_append)
  then show ?thesis using assms(1,2,4,5,6) by (cases ds) (auto simp: read_number_def)
qed

lemma show_nat_value: "foldl (\<lambda>n c. 10 * n + the (digit_value 10 c)) 0 (show_nat n) = n"
proof (induction n rule: show_nat.induct)
  case (1 n)
  then show ?case by (auto simp: show_nat.simps [of n] digit_value_show)
qed

lemma show_hex_value: "foldl (\<lambda>n c. 16 * n + the (digit_value 16 c)) 0 (show_hex n) = n"
proof (induction n rule: show_hex.induct)
  case (1 n)
  then show ?case by (auto simp: show_hex.simps [of n] Let_def digit_value_show)
qed

lemma show_nonempty [simp]: "show_nat n \<noteq> []" "show_hex n \<noteq> []"
  by (simp_all add: show_nat.simps [of n] show_hex.simps [of n] Let_def)

lemma show_nat_length: "n < 10 ^ Suc k \<Longrightarrow> length (show_nat n) \<le> Suc k"
proof (induction k arbitrary: n)
  case 0
  then show ?case by (simp add: show_nat.simps [of n])
next
  case (Suc k)
  then have "n div 10 < 10 ^ Suc k" by (simp add: less_mult_imp_div_less)
  from Suc.IH [OF this] show ?case by (simp add: show_nat.simps [of n])
qed

lemma show_hex_length: "n < 16 ^ Suc k \<Longrightarrow> length (show_hex n) \<le> Suc k"
proof (induction k arbitrary: n)
  case 0
  then show ?case by (simp add: show_hex.simps [of n])
next
  case (Suc k)
  then have "n div 16 < 16 ^ Suc k" by (simp add: less_mult_imp_div_less)
  from Suc.IH [OF this] show ?case by (simp add: show_hex.simps [of n] Let_def)
qed

lemma show_nat_hd: "0 < n \<Longrightarrow> hd (show_nat n) \<noteq> 48"
proof (induction n rule: show_nat.induct)
  case (1 n)
  then show ?case by (cases "n < 10") (auto simp: show_nat.simps [of n])
qed

lemma read_show_octet:
  assumes "n < 256" "rest = [] \<or> digit_value 10 (hd rest) = None"
  shows "read_number 10 3 False 256 (show_nat n @ rest) = Some (n, rest)"
proof (rule read_number_append)
  show "length (show_nat n) \<le> 3" using show_nat_length [of n 2] assms(1) by simp
  show "digit_value 10 c \<noteq> None" if "c \<in> set (show_nat n)" for c
    using show_nat_digits [OF that] by (auto simp: digit_value_def)
  show "False \<or> hd (show_nat n) \<noteq> 48 \<or> length (show_nat n) = 1"
    using show_nat_hd [of n] by (cases n) (auto simp: show_nat.simps [of 0])
qed (use assms show_nat_value in auto)

lemma read_show_group:
  assumes "n < 65536" "rest = [] \<or> digit_value 16 (hd rest) = None"
  shows "read_number 16 4 True 65536 (show_hex n @ rest) = Some (n, rest)"
proof (rule read_number_append)
  show "length (show_hex n) \<le> 4" using show_hex_length [of n 3] assms(1) by simp
  show "digit_value 16 c \<noteq> None" if "c \<in> set (show_hex n)" for c
    using show_hex_digits [OF that] by (auto simp: digit_value_def)
qed (use assms show_hex_value in auto)

section \<open>Round trip of IPv4 addresses\<close>

lemma digit_value_sep [simp]: "digit_value r 46 = None" "digit_value r 58 = None"
  by (simp_all add: digit_value_def)

lemma read_octets_show:
  assumes "\<And>n. n \<in> set ns \<Longrightarrow> n < 256" "rest = [] \<or> digit_value 10 (hd rest) = None"
  shows "read_octets (length ns) i ((if i = 0 \<or> ns = [] then [] else [46]) @ join_with 46 (map show_nat ns) @ rest)
    = Some (ns, rest)"
  using assms(1)
proof (induction ns arbitrary: i)
  case (Cons n ns)
  have IH: "read_octets (length ns) (Suc i) ((if ns = [] then [] else [46]) @ join_with 46 (map show_nat ns) @ rest)
    = Some (ns, rest)"
    using Cons.IH [of "Suc i"] Cons.prems by simp
  have n: "n < 256" using Cons.prems by simp
  show ?case
  proof (cases "ns = []")
    case True
    then show ?thesis
      using read_show_octet [OF n assms(2)] by (simp add: read_separator_def)
  next
    case False
    then show ?thesis
      using IH read_show_octet [OF n, of "46 # join_with 46 (map show_nat ns) @ rest"]
      by (cases "i = 0") (simp_all add: read_separator_def join_with_cons)
  qed
qed simp

lemma ipv4_octets_bound: "n \<in> set (ipv4_octets ip) \<Longrightarrow> n < 256"
  by (auto simp: ipv4_octets_def)

lemma ipv6_segments_bound: "n \<in> set (ipv6_segments ip) \<Longrightarrow> n < 65536"
  by (auto simp: ipv6_segments_def)

lemma length_ip_parts [simp]: "length (ipv4_octets ip) = 4" "length (ipv6_segments ip') = 8"
  by (simp_all add: ipv4_octets_def ipv6_segments_def)

lemma read_show_ipv4:
  "rest = [] \<or> digit_value 10 (hd rest) = None \<Longrightarrow>
   read_ipv4_addr (show_ipv4 ip @ rest) = Some (ipv4_octets ip, rest)"
  using read_octets_show [of "ipv4_octets ip" rest 0] ipv4_octets_bound [of _ ip]
  by (simp add: read_ipv4_addr_def show_ipv4_def)

lemma digits_foldl:
  "foldl (\<lambda>n d. b * n + d) a (map (\<lambda>k. (x div b ^ k) mod b) (rev [0..<m])) = a * b ^ m + x mod b ^ m"
  for x b :: nat
proof (induction m arbitrary: a)
  case (Suc m)
  have "x mod b ^ Suc m = b ^ m * (x div b ^ m mod b) + x mod b ^ m"
    by (simp only: power_Suc2 mod_mult2_eq)
  with Suc show ?case by (simp add: algebra_simps)
qed simp

lemma of_octets_ipv4 [simp]: "of_octets (ipv4_octets ip) = ip"
proof -
  have "rev [0..<4] = [3, 2, 1, 0::nat]" by (simp add: upt_rec)
  then have "foldl (\<lambda>n d. 256 * n + d) 0 (ipv4_octets ip) = unat ip mod 256 ^ 4"
    using digits_foldl [of 256 0 "unat ip" 4] by (simp only: ipv4_octets_def)
  then show ?thesis
    using unsigned_less [of ip, where ?'a = nat] by (simp add: of_octets_def)
qed

lemma of_segments_ipv6 [simp]: "of_segments (ipv6_segments ip) = ip"
proof -
  have "rev [0..<8] = [7, 6, 5, 4, 3, 2, 1, 0::nat]" by (simp add: upt_rec)
  then have "foldl (\<lambda>n d. 65536 * n + d) 0 (ipv6_segments ip) = unat ip mod 65536 ^ 8"
    using digits_foldl [of 65536 0 "unat ip" 8] by (simp only: ipv6_segments_def)
  then show ?thesis
    using unsigned_less [of ip, where ?'a = nat] by (simp add: of_segments_def)
qed

section \<open>Round trip of IPv6 addresses\<close>

lemma read_number_suffix:
  "read_number r m allow b s = Some (n, rest) \<Longrightarrow> c \<in> set rest \<Longrightarrow> c \<in> set s"
  unfolding read_number_def Let_def by (auto split: if_splits dest: in_set_dropD)

lemma read_octets_dots:
  "read_octets (Suc k) i s = Some (ns, rest) \<Longrightarrow> 46 \<in> set s \<or> k = 0"
proof (induction k arbitrary: i s ns rest)
  case (Suc k)
  then obtain n r p where
    "read_separator 46 i (read_number 10 3 False 256) s = Some (n, r)"
    "read_octets (Suc k) (Suc i) r = Some p"
    by (auto split: option.splits)
  moreover from this(2) have "46 \<in> set r"
    by (auto simp: read_separator_def split: option.splits list.splits if_splits)
  ultimately show ?case
    using read_number_suffix [of 10 3 False 256 _ n r 46]
    by (cases "i = 0") (force simp: read_separator_def split: list.splits if_splits)+
qed simp

lemma read_ipv4_no_dot: "46 \<notin> set s \<Longrightarrow> read_ipv4_addr s = None"
  using read_octets_dots [of 3 0 s] by (cases "read_octets 4 0 s") (auto simp: read_ipv4_addr_def numeral_eq_Suc)

lemma read_number_stop:
  "s = [] \<or> digit_value r (hd s) = None \<Longrightarrow> read_number r m allow b s = None"
  by (cases s) (auto simp: read_number_def)

lemma read_ipv4_stop: "s = [] \<or> digit_value 10 (hd s) = None \<Longrightarrow> read_ipv4_addr s = None"
  by (auto simp: read_ipv4_addr_def numeral_eq_Suc read_separator_def read_number_stop)

lemma read_groups_end:
  assumes "groups_end rest" "46 \<notin> set rest"
  shows "read_groups k i rest = ([], False, rest)"
  using assms read_ipv4_no_dot [of rest] read_ipv4_no_dot [of "tl rest"]
  by (cases k) (auto simp: groups_end_def read_separator_def read_number_stop)

lemma show_hex_no_dot: "46 \<notin> set (show_hex n)" "58 \<notin> set (show_hex n)"
  using show_hex_digits [of 46 n] show_hex_digits [of 58 n] by auto

lemma join_hex_no_dot: "46 \<notin> set (join_with 58 (map show_hex gs))"
  using show_hex_no_dot by (auto dest!: set_join_with)

lemma read_groups_show:
  assumes "\<And>g. g \<in> set gs \<Longrightarrow> g < 65536" "length gs \<le> k" "groups_end rest" "46 \<notin> set rest"
  shows "read_groups k i ((if i = 0 \<or> gs = [] then [] else [58]) @ join_with 58 (map show_hex gs) @ rest)
    = (gs, False, rest)"
  using assms(1,2)
proof (induction gs arbitrary: i k)
  case Nil
  then show ?case using read_groups_end assms(3,4) by simp
next
  case (Cons g gs)
  then obtain j where k: "k = Suc j" by (cases k) auto
  define more where "more = (if gs = [] then [] else [58]) @ join_with 58 (map show_hex gs) @ rest"
  have IH: "read_groups j (Suc i) more = (gs, False, rest)"
    using Cons.IH [of j "Suc i"] Cons.prems k by (simp add: more_def)
  have shape: "join_with 58 (map show_hex (g # gs)) @ rest = show_hex g @ more"
    by (simp add: join_with_cons more_def)
  have dots: "46 \<notin> set (show_hex g @ more)"
    using show_hex_no_dot join_hex_no_dot assms(4) by (auto simp: more_def)
  have "more = [] \<or> digit_value 16 (hd more) = None"
    using assms(3) by (auto simp: groups_end_def more_def)
  then have "read_number 16 4 True 65536 (show_hex g @ more) = Some (g, more)"
    using Cons.prems by (intro read_show_group) auto
  then show ?case
    using IH read_ipv4_no_dot [OF dots] unfolding shape k
    by (cases "i = 0"; cases j) (simp_all add: read_separator_def)
qed

lemma take_Suc_replicate:
  assumes "take n l = replicate n x" "drop n l = x # r"
  shows "take (Suc n) l = replicate (Suc n) x"
proof -
  have "l = replicate n x @ x # r" using assms append_take_drop_id [of n l] by simp
  then show ?thesis by (simp add: replicate_app_Cons_same)
qed

text \<open>The zero run chosen by the printer is a run of zeros.\<close>

lemma longest_zero_run_zeros:
  assumes "take (snd cur) (drop (fst cur) all) = replicate (snd cur) 0"
    "snd cur = 0 \<or> fst cur + snd cur = i"
    "take (snd best) (drop (fst best) all) = replicate (snd best) 0"
    "fst best + snd best \<le> i" "all = pre @ ss" "length pre = i"
    "longest_zero_run ss i cur best = (start, len)"
  shows "take len (drop start all) = replicate len 0 \<and> start + len \<le> length all"
  using assms
proof (induction ss arbitrary: i cur best pre)
  case Nil
  then show ?case by auto
next
  case (Cons s ss)
  show ?case
  proof (cases "s = 0")
    case False
    with Cons.prems show ?thesis
      by (intro Cons.IH [of "(0, 0)" "Suc i" best "pre @ [s]"]) auto
  next
    case True
    define cur' where "cur' = (if snd cur = 0 then (i, 1) else (fst cur, Suc (snd cur)))"
    have at_i: "drop i all = 0 # ss" using Cons.prems True by simp
    have cur': "take (snd cur') (drop (fst cur') all) = replicate (snd cur') 0" "fst cur' + snd cur' = Suc i"
    proof -
      show "fst cur' + snd cur' = Suc i" using Cons.prems(2) by (auto simp: cur'_def)
      show "take (snd cur') (drop (fst cur') all) = replicate (snd cur') 0"
      proof (cases "snd cur = 0")
        case True
        then show ?thesis using at_i by (simp add: cur'_def)
      next
        case False
        then have "drop (snd cur) (drop (fst cur) all) = 0 # ss"
          using at_i Cons.prems(2) by (simp add: add.commute)
        with False Cons.prems(1) show ?thesis
          by (simp add: cur'_def take_Suc_replicate del: replicate_Suc drop_drop)
      qed
    qed
    show ?thesis
    proof (rule Cons.IH)
      show "longest_zero_run ss (Suc i) cur' (if snd best < snd cur' then cur' else best) = (start, len)"
        using Cons.prems(7) True by (simp add: cur'_def Let_def split: if_splits)
      show "all = (pre @ [s]) @ ss" using Cons.prems(5) by simp
    qed (use Cons.prems cur' in auto)
  qed
qed

lemma zero_run_split:
  assumes "longest_zero_run ss 0 (0, 0) (0, 0) = (start, len)"
  shows "ss = take start ss @ replicate len 0 @ drop (start + len) ss" "start + len \<le> length ss"
proof -
  have run: "take len (drop start ss) = replicate len 0 \<and> start + len \<le> length ss"
    by (rule longest_zero_run_zeros [of "(0, 0)" ss 0 "(0, 0)" "[]"]) (use assms in auto)
  then show "start + len \<le> length ss" by simp
  have "ss = take start ss @ take len (drop start ss) @ drop len (drop start ss)"
    by (simp only: append_take_drop_id)
  with run show "ss = take start ss @ replicate len 0 @ drop (start + len) ss"
    by (simp add: add.commute)
qed

lemma read_gap:
  assumes "\<And>g. g \<in> set ss \<Longrightarrow> g < 65536" "length ss = 8"
    "ss = take start ss @ replicate len 0 @ drop (start + len) ss" "start + len \<le> 8" "1 < len"
  shows "read_ipv6_addr (join_with 58 (map show_hex (take start ss)) @ 58 # 58 #
    join_with 58 (map show_hex (drop (start + len) ss))) = Some (ss, [])"
proof -
  let ?tail = "join_with 58 (map show_hex (drop (start + len) ss))"
  have head: "read_groups 8 0 (join_with 58 (map show_hex (take start ss)) @ 58 # 58 # ?tail) =
      (take start ss, False, 58 # 58 # ?tail)"
    using read_groups_show [of "take start ss" 8 "58 # 58 # ?tail" 0] assms(1,2) join_hex_no_dot
    by (auto simp: groups_end_def dest: in_set_takeD)
  have tail: "read_groups (8 - (start + 1)) 0 ?tail = (drop (start + len) ss, False, [])"
  proof -
    have "g < 65536" if "g \<in> set (drop (start + len) ss)" for g
      using that assms(1) by (auto dest: in_set_dropD)
    moreover have "length (drop (start + len) ss) \<le> 8 - (start + 1)" using assms(2,4,5) by simp
    ultimately show ?thesis
      using read_groups_show [of "drop (start + len) ss" "8 - (start + 1)" "[]" 0]
      by (simp add: groups_end_def)
  qed
  have "8 - start - (8 - (start + len)) = len" using assms(4) by simp
  then show ?thesis using head tail assms(2,3,4,5) unfolding read_ipv6_addr_def
    by (auto simp: Let_def)
qed

lemma read_full:
  assumes "\<And>g. g \<in> set ss \<Longrightarrow> g < 65536" "length ss = 8"
  shows "read_ipv6_addr (join_with 58 (map show_hex ss)) = Some (ss, [])"
  using read_groups_show [of ss 8 "[]" 0] assms by (simp add: read_ipv6_addr_def groups_end_def)

lemma half_bytes:
  fixes m :: nat
  assumes "m < 65536"
  shows "(m div 256) mod 256 * 256 + m mod 256 = m"
proof -
  have "m div 256 < 256" using assms by (simp add: less_mult_imp_div_less)
  then show ?thesis by simp
qed

lemma low_segments:
  "drop 6 (ipv6_segments ip) =
     (let os = ipv4_octets (ucast ip) in [os ! 0 * 256 + os ! 1, os ! 2 * 256 + os ! 3])"
proof -
  define n where "n = unat (ucast ip :: 32 word)"
  have n: "n = unat ip mod (65536 * 65536)"
    by (simp add: n_def unsigned_ucast_eq take_bit_eq_mod)
  have hi: "unat ip div 65536 mod 65536 = n div 65536"
    unfolding n by (simp only: mod_mult2_eq)
  have lo: "unat ip mod 65536 = n mod 65536"
    unfolding n by (simp only: mod_mult2_eq) simp
  have "n div 65536 < 65536" unfolding n by (simp add: less_mult_imp_div_less)
  from half_bytes [OF this] half_bytes [of "n mod 65536"]
  have "n div 16777216 mod 256 * 256 + n div 65536 mod 256 = n div 65536"
    "n div 256 mod 256 * 256 + n mod 256 = n mod 65536"
    using mod_mult2_eq [of n 256 256] by (simp_all add: div_mult2_eq [symmetric])
  then show ?thesis
    by (simp add: ipv6_segments_def ipv4_octets_def hi lo flip: n_def)
qed

lemma read_groups_stop:
  "digit_value 10 (hd s) = None \<Longrightarrow> digit_value 16 (hd s) = None \<Longrightarrow> read_groups k 0 s = ([], False, s)"
  by (cases k) (simp_all add: read_separator_def read_ipv4_stop read_number_stop)

lemma read_groups_mapped:
  "read_groups (Suc (Suc (Suc k))) 0 (lit ''ffff:'' @ show_ipv4 (ucast ip)) =
     (65535 # drop 6 (ipv6_segments ip), True, [])"
proof -
  have "read_number 16 4 True 65536 (show_hex 65535 @ 58 # show_ipv4 (ucast ip)) =
      Some (65535, 58 # show_ipv4 (ucast ip))"
    by (rule read_show_group) simp_all
  moreover have "show_hex 65535 = lit ''ffff''"
    by (simp add: show_hex.simps [of 65535] show_hex.simps [of 4095] show_hex.simps [of 255]
        show_hex.simps [of 15] lit_def)
  moreover have "read_ipv4_addr (lit ''ffff:'' @ show_ipv4 (ucast ip)) = None"
    by (rule read_ipv4_stop) (simp add: lit_def digit_value_def)
  ultimately show ?thesis
    using read_show_ipv4 [of "[]" "ucast ip"] low_segments [of ip]
    by (simp add: read_separator_def lit_def Let_def)
qed

lemma read_mapped:
  assumes "take 6 (ipv6_segments ip) = [0, 0, 0, 0, 0, 65535]"
  shows "read_ipv6_addr (lit ''::ffff:'' @ show_ipv4 (ucast ip)) = Some (ipv6_segments ip, [])"
proof -
  let ?s = "lit ''ffff:'' @ show_ipv4 (ucast ip)"
  have "read_groups 8 0 (58 # 58 # ?s) = ([], False, 58 # 58 # ?s)"
    by (rule read_groups_stop) simp_all
  moreover have "lit ''::ffff:'' @ show_ipv4 (ucast ip) = 58 # 58 # ?s" by (simp add: lit_def)
  moreover have "replicate 5 0 @ 65535 # drop 6 (ipv6_segments ip) = ipv6_segments ip"
  proof -
    have "replicate 5 (0::nat) = [0, 0, 0, 0, 0]" by (simp add: numeral_eq_Suc)
    then show ?thesis
      using append_take_drop_id [of 6 "ipv6_segments ip"] unfolding assms by simp
  qed
  ultimately show ?thesis
    using read_groups_mapped [of 4 ip] by (simp add: read_ipv6_addr_def)
qed

lemma read_show_ipv6: "read_ipv6_addr (show_ipv6 a) = Some (ipv6_segments a, [])"
proof -
  obtain start len where run: "longest_zero_run (ipv6_segments a) 0 (0, 0) (0, 0) = (start, len)"
    by (cases "longest_zero_run (ipv6_segments a) 0 (0, 0) (0, 0)")
  note split = zero_run_split [OF run]
  note bound = ipv6_segments_bound [of _ a]
  show ?thesis
    unfolding show_ipv6_def Let_def run
    using read_mapped [of a] read_full [OF bound] read_gap [OF bound _ split(1)] split(2)
    by (simp add: lit_def)
qed

lemma show_ipv6_no_dot: "take 6 (ipv6_segments a) \<noteq> [0, 0, 0, 0, 0, 65535] \<Longrightarrow> 46 \<notin> set (show_ipv6 a)"
  using join_hex_no_dot
  by (cases "longest_zero_run (ipv6_segments a) 0 (0, 0) (0, 0)") (simp add: show_ipv6_def Let_def lit_def)

lemma parse_show_ip: "parse_ip (show_ip ip) = Some ip"
proof (cases ip)
  case (IpV4 a)
  then show ?thesis using read_show_ipv4 [of "[]" a] by (simp add: parse_ip_def)
next
  case (IpV6 a)
  have "read_ipv4_addr (show_ipv6 a) = None"
  proof (cases "take 6 (ipv6_segments a) = [0, 0, 0, 0, 0, 65535]")
    case True
    then show ?thesis by (simp add: show_ipv6_def Let_def lit_def read_ipv4_stop split: prod.split)
  next
    case False
    then show ?thesis by (intro read_ipv4_no_dot show_ipv6_no_dot)
  qed
  then show ?thesis using IpV6 read_show_ipv6 [of a] by (simp add: parse_ip_def)
qed

lemma show_ip_chars: "c \<in> set (show_ip ip) \<Longrightarrow> 46 \<le> c \<and> c \<le> 58 \<or> 97 \<le> c \<and> c \<le> 102"
  using show_ipv4_chars show_hex_digits
  by (cases ip) (fastforce simp: show_ipv6_def Let_def lit_def split: prod.splits if_splits dest!: set_join_with)+

interpretation ip_text: codec show_ip parse_ip
  by unfold_locales (rule parse_show_ip)

text \<open>
  The text of a peer address, which keys the web download sessions and reaches the
  application as the identity of a peer, identifies the peer: two peers have the same
  text exactly when their addresses and their scopes agree, so link-local peers on
  different interfaces never share a session. In particular the printed form of an
  address, compressed IPv6 included, reads back as that address.
\<close>

theorem peer_ip_text_identifies:
  "(peer_ip_to_string p = peer_ip_to_string q \<longleftrightarrow> p = q) \<and>
   parse_ip (peer_ip_to_string \<lparr>pip_ip = ip, pip_scope = None\<rparr>) = Some ip"
proof
  show "peer_ip_to_string p = peer_ip_to_string q \<longleftrightarrow> p = q"
    unfolding peer_ip_to_string_eq ip_text.enc_inj by (cases p; cases q) simp
  show "parse_ip (peer_ip_to_string \<lparr>pip_ip = ip, pip_scope = None\<rparr>) = Some ip"
    by (simp add: peer_ip_to_string_def ip_text.dec_enc del: show_ip.simps)
qed

end
