(* ===== verification/FB_Store.thy ===== *)
theory FB_Store
  imports FB_IpText FB_Model "HOL-Library.Option_ord" "HOL-Library.Product_Lexorder" "HOL-Library.Multiset"
begin

text \<open>
  The store of discovered devices (\<^verbatim>\<open>packages/core/src/discovery/store.rs\<close>): devices are
  merged by fingerprint, their channels by endpoint, confirmations are logged up to a
  cap, and channels are ranked. A \<^verbatim>\<open>HashMap\<close> of channels is an association list in its
  iteration order. What clients rely on is the contract \<open>keyed_store\<close>.
\<close>

section \<open>Devices\<close>

definition MAX_LOGS :: nat where "MAX_LOGS = 100"

record http_channel =
  hc_host :: rstring
  hc_port :: u16
  hc_protocol :: protocol_type

datatype device_channel = ChannelHttp http_channel

datatype channel_status = Available | NotReachable

record discovered_device =
  dd_alias :: rstring
  dd_version :: rstring
  dd_device_model :: "rstring option"
  dd_device_type :: "device_type option"
  dd_fingerprint :: rstring
  dd_channel :: device_channel
  dd_download :: bool

datatype device_log_kind = LogDiscovered | LogUpdated

record device_log =
  dl_timestamp :: system_time
  dl_kind :: device_log_kind
  dl_channel :: device_channel

record stateful_device =
  sd_device :: discovered_device
  sd_channels :: "(device_channel, channel_status) hash_map"
  sd_logs :: "device_log list"

datatype discovery_event = Discovered discovered_device | Updated discovered_device

fun channel_http :: "device_channel \<Rightarrow> http_channel option" where
  "channel_http (ChannelHttp h) = Some h"

fun same_endpoint :: "device_channel \<Rightarrow> device_channel \<Rightarrow> bool" where
  "same_endpoint (ChannelHttp own) (ChannelHttp other) \<longleftrightarrow> hc_host own = hc_host other"

text \<open>The scope of a link-local address is stripped first.\<close>

fun is_ipv6 :: "device_channel \<Rightarrow> bool" where
  "is_ipv6 (ChannelHttp h) = parses_as_ipv6 (hd (split_on 37 (hc_host h)))"

text \<open>\<^verbatim>\<open>rposition\<close>: the last index of a log of the channel.\<close>

definition last_confirmed :: "stateful_device \<Rightarrow> device_channel \<Rightarrow> nat option" where
  "last_confirmed d c =
     (case filter (\<lambda>i. dl_channel (sd_logs d ! i) = c) [0..<length (sd_logs d)] of
        [] \<Rightarrow> None | is \<Rightarrow> Some (last is))"

definition rank :: "stateful_device \<Rightarrow> device_channel \<times> channel_status \<Rightarrow> bool \<times> bool \<times> nat option" where
  "rank d e = (snd e = Available, is_ipv6 (fst e), last_confirmed d (fst e))"

text \<open>A stable sort by the reversed key.\<close>

definition get_ranked_channels :: "stateful_device \<Rightarrow> device_channel list" where
  "get_ranked_channels d = map fst (rev (sort_key (rank d) (rev (sd_channels d))))"

definition get_best_channel :: "stateful_device \<Rightarrow> device_channel option" where
  "get_best_channel d = (case get_ranked_channels d of [] \<Rightarrow> None | c # _ \<Rightarrow> Some c)"

section \<open>The store\<close>

type_synonym device_store = "stateful_device list"

definition push_log :: "device_log \<Rightarrow> device_log list \<Rightarrow> device_log list" where
  "push_log l logs =
     (let logs = logs @ [l]
      in if MAX_LOGS < length logs then drop (length logs - MAX_LOGS) logs else logs)"

definition merge_channel ::
  "device_channel \<Rightarrow> (device_channel, channel_status) hash_map \<Rightarrow> (device_channel, channel_status) hash_map"
where
  "merge_channel c m = (c, Available) # filter (\<lambda>(k, s). \<not> same_endpoint k c) m"

definition confirm_known :: "stateful_device \<Rightarrow> discovered_device \<Rightarrow> system_time \<Rightarrow> stateful_device" where
  "confirm_known known d timestamp =
     \<lparr>sd_device = d, sd_channels = merge_channel (dd_channel d) (sd_channels known),
      sd_logs = push_log \<lparr>dl_timestamp = timestamp, dl_kind = LogUpdated, dl_channel = dd_channel d\<rparr>
        (sd_logs known)\<rparr>"

definition confirm_new :: "discovered_device \<Rightarrow> system_time \<Rightarrow> stateful_device" where
  "confirm_new d timestamp =
     \<lparr>sd_device = d, sd_channels = [(dd_channel d, Available)],
      sd_logs = [\<lparr>dl_timestamp = timestamp, dl_kind = LogDiscovered, dl_channel = dd_channel d\<rparr>]\<rparr>"

fun upsert ::
  "device_store \<Rightarrow> discovered_device \<Rightarrow> system_time \<Rightarrow> (discovery_event \<times> stateful_device) \<times> device_store"
where
  "upsert [] d t = ((Discovered d, confirm_new d t), [confirm_new d t])"
| "upsert (known # rest) d t =
     (if dd_fingerprint (sd_device known) = dd_fingerprint d
      then ((Updated d, confirm_known known d t), confirm_known known d t # rest)
      else let (r, rest') = upsert rest d t in (r, known # rest'))"

definition by_fingerprint :: "device_store \<Rightarrow> rstring \<Rightarrow> stateful_device option" where
  "by_fingerprint s fp = find (\<lambda>known. dd_fingerprint (sd_device known) = fp) s"

definition confirm :: "stateful_device option \<Rightarrow> discovered_device \<Rightarrow> system_time \<Rightarrow> stateful_device" where
  "confirm known d t = (case known of None \<Rightarrow> confirm_new d t | Some k \<Rightarrow> confirm_known k d t)"

text \<open>A run of confirmations, from the empty store.\<close>

definition store_run :: "(discovered_device \<times> system_time) list \<Rightarrow> device_store" where
  "store_run ds = foldl (\<lambda>s (d, t). snd (upsert s d t)) [] ds"

section \<open>Invariant\<close>

definition device_ok :: "stateful_device \<Rightarrow> bool" where
  "device_ok k \<longleftrightarrow>
     map_of (sd_channels k) (dd_channel (sd_device k)) = Some Available \<and>
     distinct (map (\<lambda>(c, s). map_option hc_host (channel_http c)) (sd_channels k)) \<and>
     sd_logs k \<noteq> [] \<and> length (sd_logs k) \<le> MAX_LOGS \<and>
     dl_channel (last (sd_logs k)) = dd_channel (sd_device k)"

definition store_ok :: "device_store \<Rightarrow> bool" where
  "store_ok s \<longleftrightarrow> distinct (map (\<lambda>k. dd_fingerprint (sd_device k)) s) \<and> list_all device_ok s"

section \<open>The contract of a keyed store\<close>

text \<open>
  A store that merges what it is given by key: an entry is what the previous entry of its
  key becomes, and other keys are not touched. Then an entry depends only on what was put
  under its key.
\<close>

locale keyed_store =
  fixes put :: "'s \<Rightarrow> 'a \<Rightarrow> 's"
    and get :: "'s \<Rightarrow> 'k \<Rightarrow> 'v option"
    and key :: "'a \<Rightarrow> 'k"
    and merge :: "'v option \<Rightarrow> 'a \<Rightarrow> 'v"
  assumes get_put: "get (put s a) k = (if k = key a then Some (merge (get s k) a) else get s k)"
begin

lemma get_run: "get (foldl put s as) k = foldl (\<lambda>v a. Some (merge v a)) (get s k) (filter (\<lambda>a. key a = k) as)"
  by (induction as arbitrary: s) (auto simp: get_put)

lemma get_run_other: "k \<notin> key ` set as \<Longrightarrow> get (foldl put s as) k = get s k"
  by (induction as arbitrary: s) (auto simp: get_put)

lemma get_run_some: "get (foldl put s as) k \<noteq> None \<longleftrightarrow> get s k \<noteq> None \<or> k \<in> key ` set as"
  by (induction as arbitrary: s) (auto simp: get_put)

end

text \<open>A device at a given host, for the witnesses.\<close>

definition demo_device :: "rstring \<Rightarrow> discovered_device" where
  "demo_device host = \<lparr>dd_alias = [], dd_version = [], dd_device_model = None, dd_device_type = None,
     dd_fingerprint = lit ''F'', dd_channel = ChannelHttp \<lparr>hc_host = host, hc_port = 1, hc_protocol = Https\<rparr>,
     dd_download = False\<rparr>"

section \<open>Lemmas\<close>

lemma by_fingerprint_simps [simp]:
  "by_fingerprint [] fp = None"
  "by_fingerprint (k # s) fp = (if dd_fingerprint (sd_device k) = fp then Some k else by_fingerprint s fp)"
  by (simp_all add: by_fingerprint_def)

lemma confirm_fingerprint [simp]:
  "dd_fingerprint (sd_device (confirm_known k d t)) = dd_fingerprint d"
  "dd_fingerprint (sd_device (confirm_new d t)) = dd_fingerprint d"
  by (simp_all add: confirm_known_def confirm_new_def)

lemma upsert_get:
  "by_fingerprint (snd (upsert s d t)) fp =
     (if fp = dd_fingerprint d then Some (confirm (by_fingerprint s fp) d t) else by_fingerprint s fp)"
  by (induction s d t rule: upsert.induct) (auto simp: confirm_def split: prod.splits)

interpretation devices: keyed_store "\<lambda>s (d, t). snd (upsert s d t)" by_fingerprint
  "\<lambda>(d, t). dd_fingerprint d" "\<lambda>known (d, t). confirm known d t"
  by unfold_locales (auto simp: upsert_get)

lemma upsert_result:
  "fst (upsert s d t) =
     (if by_fingerprint s (dd_fingerprint d) = None then Discovered d else Updated d,
      confirm (by_fingerprint s (dd_fingerprint d)) d t)"
  by (induction s d t rule: upsert.induct) (auto simp: confirm_def split: prod.splits)

lemma upsert_order:
  "map (\<lambda>k. dd_fingerprint (sd_device k)) (snd (upsert s d t)) =
     (let fps = map (\<lambda>k. dd_fingerprint (sd_device k)) s
      in if dd_fingerprint d \<in> set fps then fps else fps @ [dd_fingerprint d])"
  by (induction s d t rule: upsert.induct) (auto simp: Let_def split: prod.splits)

lemma same_endpoint_host: "same_endpoint a b \<longleftrightarrow> map_option hc_host (channel_http a) = map_option hc_host (channel_http b)"
  by (cases a; cases b) simp

lemma push_log_facts:
  "push_log l logs \<noteq> [] \<and> last (push_log l logs) = l \<and> length (push_log l logs) \<le> MAX_LOGS"
  by (auto simp: push_log_def Let_def MAX_LOGS_def)

lemma confirm_new_ok: "device_ok (confirm_new d t)"
  by (simp add: device_ok_def confirm_new_def MAX_LOGS_def)

lemma confirm_known_ok: "device_ok k \<Longrightarrow> device_ok (confirm_known k d t)"
  using push_log_facts
  by (auto simp: device_ok_def confirm_known_def merge_channel_def same_endpoint_host
      distinct_map_filter split_beta image_iff)

lemma upsert_devices_ok: "list_all device_ok s \<Longrightarrow> list_all device_ok (snd (upsert s d t))"
  by (induction s d t rule: upsert.induct) (auto simp: confirm_new_ok confirm_known_ok split: prod.splits)

lemma upsert_ok: "store_ok s \<Longrightarrow> store_ok (snd (upsert s d t))"
  unfolding store_ok_def upsert_order by (auto simp: upsert_devices_ok Let_def)

lemma store_run_snoc: "store_run (ds @ [(d, t)]) = snd (upsert (store_run ds) d t)"
  by (simp add: store_run_def)

lemma store_run_ok: "store_ok (store_run ds)"
  by (induction ds rule: rev_induct)
    (auto simp: store_run_snoc upsert_ok, simp add: store_run_def store_ok_def)

lemma ranked_sorted:
  "sorted_wrt (\<lambda>a b. rank d b \<le> rank d a) (rev (sort_key (rank d) (rev (sd_channels d))))"
proof -
  have "sorted (map (rank d) (sort_key (rank d) (rev (sd_channels d))))" by simp
  then show ?thesis by (simp add: sorted_map sorted_wrt_rev)
qed

lemma best_channel_rank:
  assumes "(c, s) \<in> set (sd_channels d)"
  obtains c' s' where "get_best_channel d = Some c'" "(c', s') \<in> set (sd_channels d)"
    "rank d (c, s) \<le> rank d (c', s')"
proof -
  let ?r = "rev (sort_key (rank d) (rev (sd_channels d)))"
  have set: "set ?r = set (sd_channels d)" by simp
  with assms obtain e es where r: "?r = e # es"
    by (metis list.set_cases)
  have "rank d (c, s) \<le> rank d e"
    using ranked_sorted [of d] assms set unfolding r by auto
  moreover have "e \<in> set (sd_channels d)" using set r by (metis list.set_intros(1))
  moreover have "get_best_channel d = Some (fst e)"
    by (simp add: get_best_channel_def get_ranked_channels_def r)
  ultimately show thesis using that by (metis prod.collapse)
qed

lemma last_confirmed_last:
  "last_confirmed d c =
     (let is = filter (\<lambda>i. dl_channel (sd_logs d ! i) = c) [0..<length (sd_logs d)]
      in if is = [] then None else Some (last is))"
  by (simp add: last_confirmed_def Let_def split: list.split)

lemma last_confirmed_index:
  assumes "last_confirmed d c = Some i"
  shows "i < length (sd_logs d)" "dl_channel (sd_logs d ! i) = c"
proof -
  have "i \<in> set (filter (\<lambda>i. dl_channel (sd_logs d ! i) = c) [0..<length (sd_logs d)])"
    using assms unfolding last_confirmed_last Let_def by (metis last_in_set option.distinct(1) option.inject)
  then show "i < length (sd_logs d)" "dl_channel (sd_logs d ! i) = c" by auto
qed

lemma last_confirmed_latest:
  assumes "sd_logs d \<noteq> []" "dl_channel (last (sd_logs d)) = c"
  shows "last_confirmed d c = Some (length (sd_logs d) - 1)"
proof -
  let ?n = "length (sd_logs d)"
  have "[0..<?n] = [0..<?n - 1] @ [?n - 1]" using assms(1) by (cases ?n) auto
  with assms show ?thesis by (simp add: last_confirmed_last last_conv_nth)
qed

lemma distinct_channels:
  "distinct (map (\<lambda>(c, s). map_option hc_host (channel_http c)) cs) \<Longrightarrow> distinct (map fst cs)"
  by (induction cs) force+

text \<open>
  The channel that has just been confirmed is the best unless it is over IPv4 and another
  available one is over IPv6.
\<close>

lemma latest_best_iff:
  assumes "map_of (sd_channels d) c = Some Available" "distinct (map fst (sd_channels d))"
    and "sd_logs d \<noteq> []" "dl_channel (last (sd_logs d)) = c"
  shows "get_best_channel d = Some c \<longleftrightarrow>
    is_ipv6 c \<or> (\<forall>c'. map_of (sd_channels d) c' = Some Available \<longrightarrow> \<not> is_ipv6 c')"
proof
  assume best: "get_best_channel d = Some c"
  have "\<not> is_ipv6 c'" if c': "map_of (sd_channels d) c' = Some Available" and c: "\<not> is_ipv6 c" for c'
  proof -
    obtain s where "rank d (c', Available) \<le> rank d (c, s)" "(c, s) \<in> set (sd_channels d)"
      using best_channel_rank [OF map_of_SomeD [OF c']] best by auto
    then show ?thesis using c by (auto simp: rank_def less_eq_prod_def)
  qed
  then show "is_ipv6 c \<or> (\<forall>c'. map_of (sd_channels d) c' = Some Available \<longrightarrow> \<not> is_ipv6 c')" by blast
next
  assume only: "is_ipv6 c \<or> (\<forall>c'. map_of (sd_channels d) c' = Some Available \<longrightarrow> \<not> is_ipv6 c')"
  obtain c' s' where best: "get_best_channel d = Some c'" "(c', s') \<in> set (sd_channels d)"
      "rank d (c, Available) \<le> rank d (c', s')"
    using map_of_SomeD [OF assms(1)] by (rule best_channel_rank)
  then have available: "s' = Available" by (auto simp: rank_def less_eq_prod_def)
  with best(2) assms(2) have "map_of (sd_channels d) c' = Some Available" by simp
  then have "is_ipv6 c' \<Longrightarrow> is_ipv6 c" using only by blast
  with best(3) available have "Some (length (sd_logs d) - 1) \<le> last_confirmed d c'"
    using last_confirmed_latest [OF assms(3,4)] by (auto simp: rank_def less_eq_prod_def)
  then obtain i where i: "last_confirmed d c' = Some i" "length (sd_logs d) - 1 \<le> i"
    by (cases "last_confirmed d c'") auto
  then have "i = length (sd_logs d) - 1" "dl_channel (sd_logs d ! i) = c'"
    using last_confirmed_index [OF i(1)] i(2) by simp_all
  then have "c' = c" using assms(3,4) by (simp add: last_conv_nth)
  with best(1) show "get_best_channel d = Some c" by simp
qed


section \<open>Properties\<close>

text \<open>
  C31. Whatever is confirmed in whatever order, the store keeps one entry per fingerprint,
  each with one channel per host, at most 100 log entries, its latest channel available;
  an entry is determined by the confirmations of its own fingerprint alone, and a
  confirmation is announced as a discovery exactly the first time its fingerprint occurs.
\<close>

theorem store_reflects_confirmations:
  "store_ok (store_run ds) \<and>
   by_fingerprint (store_run ds) fp =
     foldl (\<lambda>v (d, t). Some (confirm v d t)) None (filter (\<lambda>(d, t). dd_fingerprint d = fp) ds) \<and>
   (fst (fst (upsert (store_run ds) d t)) = Discovered d \<longleftrightarrow>
      dd_fingerprint d \<notin> (\<lambda>(d', t). dd_fingerprint d') ` set ds)"
  using store_run_ok [of ds, unfolded store_run_def split_def]
    devices.get_run [of "[]" ds fp] devices.get_run_some [of "[]" ds "dd_fingerprint d"]
  by (auto simp: store_run_def upsert_result split_def split: if_splits)

text \<open>
  The channel a transfer is tried on first is the best by the ranking: if any channel
  of the device is available, it is available, and among the available channels it is an
  IPv6 channel if there is one, confirmed last among those.
\<close>

theorem best_channel_is_best:
  assumes "map_of (sd_channels d) c = Some Available" "distinct (map fst (sd_channels d))"
  shows "\<exists>best. get_best_channel d = Some best \<and> map_of (sd_channels d) best = Some Available \<and>
    (is_ipv6 c, last_confirmed d c) \<le> (is_ipv6 best, last_confirmed d best)"
proof -
  have "(c, Available) \<in> set (sd_channels d)" using assms(1) by (rule map_of_SomeD)
  then obtain c' s' where b: "get_best_channel d = Some c'" "(c', s') \<in> set (sd_channels d)"
      "rank d (c, Available) \<le> rank d (c', s')"
    by (rule best_channel_rank)
  then have "s' = Available" "(is_ipv6 c, last_confirmed d c) \<le> (is_ipv6 c', last_confirmed d c')"
    by (auto simp: rank_def less_eq_prod_def)
  with b assms(2) show ?thesis by auto
qed

theorem best_channel_is_best_witness:
  "\<exists>best. get_best_channel (confirm_known (confirm_new (demo_device (lit ''::1'')) 0) (demo_device (lit ''1.2.3.4'')) 1)
     = Some best"
proof -
  let ?d = "confirm_known (confirm_new (demo_device (lit ''::1'')) 0) (demo_device (lit ''1.2.3.4'')) 1"
  let ?c = "dd_channel (demo_device (lit ''::1''))"
  have "map_of (sd_channels ?d) ?c = Some Available" "distinct (map fst (sd_channels ?d))"
    by code_simp+
  then show ?thesis
    using best_channel_is_best [of ?d ?c] by auto
qed

end
