(* ===== verification/FB_Utf8.thy ===== *)
theory FB_Utf8
  imports FB_Prelude
begin

text \<open>
  UTF-8 as the standard library reads and writes it: \<^verbatim>\<open>String::as_bytes\<close> and
  \<^verbatim>\<open>String::from_utf8\<close>, with the ranges that exclude overlong forms, surrogates and values
  beyond the last code point. Text made of scalar values survives the round trip.
\<close>

section \<open>Encoding\<close>

definition is_scalar :: "rchar \<Rightarrow> bool" where
  "is_scalar c \<longleftrightarrow> c < 55296 \<or> (57344 \<le> c \<and> c < 1114112)"

definition utf8_char :: "rchar \<Rightarrow> nat list" where
  "utf8_char c =
     (if c < 128 then [c]
      else if c < 2048 then [192 + c div 64, 128 + c mod 64]
      else if c < 65536 then [224 + c div 4096, 128 + c div 64 mod 64, 128 + c mod 64]
      else [240 + c div 262144, 128 + c div 4096 mod 64, 128 + c div 64 mod 64, 128 + c mod 64])"

definition utf8_bytes :: "rstring \<Rightarrow> byte list" where
  "utf8_bytes s = map of_nat (concat (map utf8_char s))"

section \<open>Decoding\<close>

definition is_cont :: "nat \<Rightarrow> bool" where
  "is_cont b \<longleftrightarrow> 128 \<le> b \<and> b < 192"

fun decode_utf8 :: "nat list \<Rightarrow> rstring option" where
  "decode_utf8 [] = Some []"
| "decode_utf8 (b # bs) =
     (if b < 128 then map_option (\<lambda>s. b # s) (decode_utf8 bs)
      else if 194 \<le> b \<and> b < 224 then
        (case bs of
           c # cs \<Rightarrow>
             if is_cont c then map_option (\<lambda>s. ((b - 192) * 64 + (c - 128)) # s) (decode_utf8 cs)
             else None
         | _ \<Rightarrow> None)
      else if 224 \<le> b \<and> b < 240 then
        (case bs of
           c # d # ds \<Rightarrow>
             if is_cont c \<and> is_cont d \<and> (b \<noteq> 224 \<or> 160 \<le> c) \<and> (b \<noteq> 237 \<or> c < 160)
             then map_option (\<lambda>s. ((b - 224) * 4096 + (c - 128) * 64 + (d - 128)) # s) (decode_utf8 ds)
             else None
         | _ \<Rightarrow> None)
      else if 240 \<le> b \<and> b < 245 then
        (case bs of
           c # d # e # es \<Rightarrow>
             if is_cont c \<and> is_cont d \<and> is_cont e \<and> (b \<noteq> 240 \<or> 144 \<le> c) \<and> (b \<noteq> 244 \<or> c < 144)
             then map_option (\<lambda>s. ((b - 240) * 262144 + (c - 128) * 4096 + (d - 128) * 64 + (e - 128)) # s)
               (decode_utf8 es)
             else None
         | _ \<Rightarrow> None)
      else None)"

definition from_utf8 :: "byte list \<Rightarrow> rstring option" where
  "from_utf8 bs = decode_utf8 (map unat bs)"

section \<open>Round trip\<close>

lemma utf8_char_bytes: "is_scalar c \<Longrightarrow> b \<in> set (utf8_char c) \<Longrightarrow> b < 256"
  by (auto simp: utf8_char_def is_scalar_def less_mult_imp_div_less split: if_splits)

lemma length_utf8_char: "length (utf8_char c) = utf8_width c"
  by (simp add: utf8_char_def utf8_width_def)

lemma three_digits: "c div 4096 * 4096 + c div 64 mod 64 * 64 + c mod 64 = c" for c :: nat
proof -
  have "c = c div 64 * 64 + c mod 64" "c div 64 = c div 4096 * 64 + c div 64 mod 64"
    using div_mult2_eq [of c 64 64] by simp_all
  then show ?thesis by linarith
qed

lemma four_digits:
  "c div 262144 * 262144 + c div 4096 mod 64 * 4096 + c div 64 mod 64 * 64 + c mod 64 = c" for c :: nat
proof -
  have "c div 4096 = c div 262144 * 64 + c div 4096 mod 64"
    using div_mult2_eq [of c 4096 64] by simp
  with three_digits [of c] show ?thesis by simp
qed

lemma decode_utf8_char:
  assumes "is_scalar c"
  shows "decode_utf8 (utf8_char c @ bs) = map_option (\<lambda>s. c # s) (decode_utf8 bs)"
proof -
  consider (one) "c < 128" | (two) "128 \<le> c" "c < 2048" | (three) "2048 \<le> c" "c < 65536"
    | (four) "65536 \<le> c" by linarith
  then show ?thesis
  proof cases
    case one
    then show ?thesis by (simp add: utf8_char_def)
  next
    case two
    then have "2 \<le> c div 64" "c div 64 < 32" by (auto simp: less_mult_imp_div_less)
    with two show ?thesis by (simp add: utf8_char_def is_cont_def)
  next
    case three
    then have lead: "c div 4096 < 16" by (simp add: less_mult_imp_div_less)
    have low: "32 \<le> c div 64 mod 64" if "c div 4096 = 0"
    proof -
      have "c div 64 < 64" using that div_mult2_eq [of c 64 64] by simp
      then show ?thesis using three by simp
    qed
    have sur: "c div 64 mod 64 < 32" if "c div 4096 = 13"
    proof -
      have "c div 64 div 64 = 13" using that div_mult2_eq [of c 64 64] by simp
      then have "c div 64 = 13 * 64 + c div 64 mod 64" using div_mult_mod_eq [of "c div 64" 64] by linarith
      moreover have "c < 57344" using that by simp
      ultimately show ?thesis using assms by (auto simp: is_scalar_def)
    qed
    show ?thesis using three lead low sur three_digits [of c]
      by (auto simp: utf8_char_def is_cont_def)
  next
    case four
    then have lead: "c div 262144 \<le> 4" using assms by (auto simp: is_scalar_def)
    have low: "16 \<le> c div 4096 mod 64" if "c div 262144 = 0"
    proof -
      have "c div 4096 < 64" using that div_mult2_eq [of c 4096 64] by simp
      then show ?thesis using four by simp
    qed
    have high: "c div 4096 mod 64 < 16" if "c div 262144 = 4"
    proof -
      have "c div 4096 div 64 = 4" using that div_mult2_eq [of c 4096 64] by simp
      then have "c div 4096 = 4 * 64 + c div 4096 mod 64" using div_mult_mod_eq [of "c div 4096" 64] by linarith
      moreover have "c div 4096 < 272" using assms by (auto simp: is_scalar_def)
      ultimately show ?thesis by simp
    qed
    show ?thesis using four lead low high four_digits [of c]
      by (auto simp: utf8_char_def is_cont_def)
  qed
qed

lemma decode_utf8_concat: "list_all is_scalar s \<Longrightarrow> decode_utf8 (concat (map utf8_char s)) = Some s"
  by (induction s) (auto simp: decode_utf8_char)

lemma from_utf8_bytes: "list_all is_scalar s \<Longrightarrow> from_utf8 (utf8_bytes s) = Some s"
proof -
  assume s: "list_all is_scalar s"
  then have "map (unat \<circ> (of_nat :: nat \<Rightarrow> byte)) (concat (map utf8_char s)) = concat (map utf8_char s)"
    by (intro map_idI) (use utf8_char_bytes in \<open>force simp: list_all_iff unat_of_nat\<close>)
  with s show ?thesis by (simp add: from_utf8_def utf8_bytes_def decode_utf8_concat)
qed

end
