(* ===== verification/FB_Signaling.thy ===== *)
theory FB_Signaling
  imports FB_Http FB_IpText FB_Utf8 "HOL-Library.AList"
begin

text \<open>
  The signaling server (\<^verbatim>\<open>server/src\<close>) and the messages it shares with its clients
  (\<^verbatim>\<open>packages/core/src/webrtc/signaling.rs\<close>). A connection joins the room of its IP group,
  is told who is there, and may update its description or send an SDP offer or answer to
  a member of its room. The critical sections under the two locks are functions on the
  application state; what happens between them is in \<open>FB_Signaling_Steps\<close>. A \<^verbatim>\<open>HashMap\<close> of a
  room is an association list in its iteration order.
\<close>

section \<open>Messages\<close>

type_synonym uuid = "128 word"

record client_info_without_id =
  cw_alias :: rstring
  cw_version :: rstring
  cw_device_model :: "rstring option"
  cw_device_type :: "device_type option"
  cw_token :: rstring

record client_info =
  cl_id :: uuid
  cl_alias :: rstring
  cl_version :: rstring
  cl_device_model :: "rstring option"
  cl_device_type :: "device_type option"
  cl_token :: rstring

definition client_info_from :: "client_info_without_id \<Rightarrow> uuid \<Rightarrow> client_info" where
  "client_info_from info i =
     \<lparr>cl_id = i, cl_alias = cw_alias info, cl_version = cw_version info,
      cl_device_model = cw_device_model info, cl_device_type = cw_device_type info,
      cl_token = cw_token info\<rparr>"

definition client_info_strip :: "client_info \<Rightarrow> client_info_without_id" where
  "client_info_strip info =
     \<lparr>cw_alias = cl_alias info, cw_version = cl_version info,
      cw_device_model = cl_device_model info, cw_device_type = cl_device_type info,
      cw_token = cl_token info\<rparr>"

record ws_server_sdp_message =
  ss_peer :: client_info
  ss_session_id :: rstring
  ss_sdp :: rstring

datatype ws_server_message =
    Hello client_info "client_info list"
  | Join client_info
  | Update client_info
  | Left uuid
  | Offer ws_server_sdp_message
  | Answer ws_server_sdp_message
  | WsError u16

record ws_client_sdp_message =
  sc_session_id :: rstring
  sc_target :: uuid
  sc_sdp :: rstring

datatype ws_client_message =
    ClientUpdate client_info_without_id
  | ClientOffer ws_client_sdp_message
  | ClientAnswer ws_client_sdp_message

section \<open>Configuration and state\<close>

text \<open>
  The limits come from the environment; \<open>None\<close> is the panic of \<^verbatim>\<open>unwrap\<close> on a value that
  does not parse.
\<close>

definition MAX_CONNECTIONS :: "rstring option \<Rightarrow> nat option" where
  "MAX_CONNECTIONS var = parse_unsigned 64 (case var of Some s \<Rightarrow> s | None \<Rightarrow> lit ''10'')"

definition MAX_REQUESTS :: "rstring option \<Rightarrow> u32 option" where
  "MAX_REQUESTS var =
     map_option of_nat (parse_unsigned 32 (case var of Some s \<Rightarrow> s | None \<Rightarrow> lit ''1000''))"

record limits =
  max_connections :: nat
  max_requests :: u32

text \<open>A sender is named by the connection that owns the receiving end of its channel.\<close>

record client_state =
  cs_client :: client_info_without_id
  cs_tx :: uuid

type_synonym room = "(uuid, client_state) hash_map"

record sig_app =
  tx_map :: "rstring \<rightharpoonup> room"
  request_count_map :: "rstring \<rightharpoonup> u32"

definition sig_app_new :: sig_app where
  "sig_app_new = \<lparr>tx_map = Map.empty, request_count_map = Map.empty\<rparr>"

record sig_error =
  se_status :: status
  se_message :: "rstring option"

definition sig_error_status :: "status \<Rightarrow> rstring option \<Rightarrow> sig_error" where
  "sig_error_status code message = \<lparr>se_status = code, se_message = message\<rparr>"

definition sig_error_response :: "sig_error \<Rightarrow> status \<times> rstring" where
  "sig_error_response e =
     (case se_message e of Some message \<Rightarrow> (se_status e, message) | None \<Rightarrow> (se_status e, []))"

section \<open>Accepting a connection\<close>

definition get_ip_group :: "ip_addr \<Rightarrow> rstring" where
  "get_ip_group ip =
     (case ip of
        IpV4 a \<Rightarrow> show_ipv4 a
      | IpV6 a \<Rightarrow> join_with 58 (map show_hex (take 4 (ipv6_segments a))))"

definition forwarded_ip :: "ext \<Rightarrow> (rstring \<times> rstring) list \<Rightarrow> ip_addr option" where
  "forwarded_ip X headers =
     Option.bind (header_get headers (lit ''x-forwarded-for'')) (\<lambda>v.
     Option.bind (ext_header_text X v) (\<lambda>s.
     parse_ip (str_trim (last (split_on 44 s)))))"

text \<open>
  \<open>decode\<close> is \<^verbatim>\<open>serde_json::from_str\<close> at \<^verbatim>\<open>ClientInfoWithoutId\<close>, \<open>new_id\<close> the value of
  \<^verbatim>\<open>Uuid::new_v4\<close>. The result is what \<^verbatim>\<open>handle_socket\<close> is started with.
\<close>

definition ws_handler ::
  "ext \<Rightarrow> (rstring \<Rightarrow> client_info_without_id option) \<Rightarrow> uuid \<Rightarrow> rstring \<Rightarrow> socket_addr \<Rightarrow>
   (rstring \<times> rstring) list \<Rightarrow> (rstring \<times> client_info, sig_error) result"
where
  "ws_handler X decode new_id d addr headers =
     and_then (ok_or (ext_base64_decode X d) (sig_error_status 400 None)) (\<lambda>bytes.
     and_then (ok_or (from_utf8 bytes) (sig_error_status 400 None)) (\<lambda>json.
     and_then (ok_or (decode json) (sig_error_status 400 None)) (\<lambda>dto.
     let ip = (case forwarded_ip X headers of Some ip \<Rightarrow> ip | None \<Rightarrow> socket_ip addr)
     in Inr (get_ip_group ip, client_info_from dto new_id))))"

definition protect_ddos_request_count ::
  "u32 \<Rightarrow> (rstring \<rightharpoonup> u32) \<Rightarrow> rstring \<Rightarrow> (unit, sig_error) result \<times> (rstring \<rightharpoonup> u32)"
where
  "protect_ddos_request_count max_req counts g =
     (let count = (case counts g of Some c \<Rightarrow> c | None \<Rightarrow> 0)
      in if max_req \<le> count then (Inl (sig_error_status 429 None), counts(g \<mapsto> count))
         else (Inr (), counts(g \<mapsto> count + 1)))"

definition LIMIT_REACHED :: rstring where
  "LIMIT_REACHED = lit ''Limit reached''"

text \<open>
  The locked block of \<^verbatim>\<open>handle_socket\<close>: the channels to notify and the peers to report,
  or the text that is sent before the socket is closed.
\<close>

definition enter_room ::
  "limits \<Rightarrow> rstring \<Rightarrow> client_info \<Rightarrow> sig_app \<Rightarrow> (uuid list \<times> client_info list, rstring) result \<times> sig_app"
where
  "enter_room lim g peer app =
     (let members = (case tx_map app g of Some r \<Rightarrow> r | None \<Rightarrow> []);
          app1 = app\<lparr>tx_map := (tx_map app)(g \<mapsto> members)\<rparr>
      in if max_connections lim \<le> length members then (Inl LIMIT_REACHED, app1)
         else let (verdict, counts) =
                protect_ddos_request_count (max_requests lim) (request_count_map app) g;
                app2 = app1\<lparr>request_count_map := counts\<rparr>
              in case verdict of
                   Inl e \<Rightarrow> (Inl LIMIT_REACHED, app2)
                 | Inr u \<Rightarrow>
                     (Inr (map (cs_tx \<circ> snd) members, map (\<lambda>(k, v). client_info_from (cs_client v) k) members),
                      app2\<lparr>tx_map := (tx_map app2)(g \<mapsto>
                        AList.update (cl_id peer) \<lparr>cs_client = client_info_strip peer, cs_tx = cl_id peer\<rparr> members)\<rparr>))"

section \<open>Handling the frames of a connection\<close>

type_synonym outbox = "(uuid \<times> ws_server_message) list"

definition send_update_to_other_peers ::
  "rstring \<Rightarrow> uuid \<Rightarrow> client_info_without_id \<Rightarrow> sig_app \<Rightarrow> outbox \<times> sig_app"
where
  "send_update_to_other_peers g peer_id info app =
     (case tx_map app g of
        None \<Rightarrow> ([], app)
      | Some members \<Rightarrow>
          (case map_of members peer_id of
             None \<Rightarrow> ([], app)
           | Some cs \<Rightarrow>
               (map (\<lambda>(k, v). (cs_tx v, Update (client_info_from info peer_id)))
                  (filter (\<lambda>(k, v). k \<noteq> peer_id) members),
                app\<lparr>tx_map := (tx_map app)(g \<mapsto> AList.update peer_id (cs\<lparr>cs_client := info\<rparr>) members)\<rparr>)))"

definition send_to_peer ::
  "rstring \<Rightarrow> uuid \<Rightarrow> ws_server_message \<Rightarrow> sig_app \<Rightarrow> outbox"
where
  "send_to_peer g target message app =
     (case tx_map app g of
        None \<Rightarrow> []
      | Some members \<Rightarrow>
          (case map_of members target of None \<Rightarrow> [] | Some cs \<Rightarrow> [(cs_tx cs, message)]))"

definition sdp_message :: "client_info \<Rightarrow> ws_client_sdp_message \<Rightarrow> ws_server_sdp_message" where
  "sdp_message origin_peer inner =
     \<lparr>ss_peer = origin_peer, ss_session_id = sc_session_id inner, ss_sdp = sc_sdp inner\<rparr>"

datatype ws_frame = WsText rstring | WsOther

text \<open>
  One turn of the receive task: the messages it sends afterwards, whether it then
  returns, and the new state. \<open>decode\<close> is \<^verbatim>\<open>serde_json::from_str\<close> at \<^verbatim>\<open>WsClientMessage\<close>.
\<close>

definition recv_turn ::
  "limits \<Rightarrow> (rstring \<Rightarrow> ws_client_message option) \<Rightarrow> rstring \<Rightarrow> client_info \<Rightarrow> ws_frame \<Rightarrow> sig_app \<Rightarrow>
   (outbox \<times> bool) \<times> sig_app"
where
  "recv_turn lim decode g peer frm app =
     (case (case frm of WsText text \<Rightarrow> decode text | WsOther \<Rightarrow> None) of
        None \<Rightarrow> (([], False), app)
      | Some msg \<Rightarrow>
          (let (verdict, counts) = protect_ddos_request_count (max_requests lim) (request_count_map app) g;
               app1 = app\<lparr>request_count_map := counts\<rparr>
           in case verdict of
                Inl e \<Rightarrow> (([(cl_id peer, WsError 429)], True), app1)
              | Inr u \<Rightarrow>
                  (case msg of
                     ClientUpdate info \<Rightarrow>
                       (let (out, app2) = send_update_to_other_peers g (cl_id peer) info app1
                        in ((out, False), app2))
                   | ClientOffer sdp \<Rightarrow>
                       ((send_to_peer g (sc_target sdp) (Offer (sdp_message peer sdp)) app1, False), app1)
                   | ClientAnswer sdp \<Rightarrow>
                       ((send_to_peer g (sc_target sdp) (Answer (sdp_message peer sdp)) app1, False), app1))))"

definition leave_room :: "rstring \<Rightarrow> uuid \<Rightarrow> sig_app \<Rightarrow> uuid list \<times> sig_app" where
  "leave_room g peer_id app =
     (case tx_map app g of
        None \<Rightarrow> ([], app)
      | Some members \<Rightarrow>
          (let rest = AList.delete peer_id members
           in if rest = [] then ([], app\<lparr>tx_map := (tx_map app)(g := None)\<rparr>)
              else (map (cs_tx \<circ> snd) rest, app\<lparr>tx_map := (tx_map app)(g \<mapsto> rest)\<rparr>)))"

text \<open>The job that runs every hour.\<close>

definition clear_request_counts :: "sig_app \<Rightarrow> sig_app" where
  "clear_request_counts app = app\<lparr>request_count_map := Map.empty\<rparr>"

section \<open>Rooms\<close>

definition room_of :: "sig_app \<Rightarrow> rstring \<Rightarrow> room" where
  "room_of app g = (case tx_map app g of None \<Rightarrow> [] | Some r \<Rightarrow> r)"

definition members :: "sig_app \<Rightarrow> rstring \<Rightarrow> uuid set" where
  "members app g = fst ` set (room_of app g)"

definition room_ok :: "nat \<Rightarrow> room \<Rightarrow> bool" where
  "room_ok n r \<longleftrightarrow> distinct (map fst r) \<and> list_all (\<lambda>(i, cs). cs_tx cs = i) r \<and> length r \<le> n"

definition counts_ok :: "limits \<Rightarrow> sig_app \<Rightarrow> bool" where
  "counts_ok lim app \<longleftrightarrow> (\<forall>g c. request_count_map app g = Some c \<longrightarrow> c \<le> max_requests lim)"

text \<open>The peers a message names.\<close>

fun named_peers :: "ws_server_message \<Rightarrow> uuid set" where
  "named_peers (Hello client peers) = insert (cl_id client) (cl_id ` set peers)"
| "named_peers (Join peer) = {cl_id peer}"
| "named_peers (Update peer) = {cl_id peer}"
| "named_peers (Left i) = {i}"
| "named_peers (Offer sdp) = {cl_id (ss_peer sdp)}"
| "named_peers (Answer sdp) = {cl_id (ss_peer sdp)}"
| "named_peers (WsError code) = {}"

text \<open>The networks a room stands for.\<close>

definition same_network :: "ip_addr \<Rightarrow> ip_addr \<Rightarrow> bool" where
  "same_network a b =
     (case (a, b) of
        (IpV4 x, IpV4 y) \<Rightarrow> x = y
      | (IpV6 x, IpV6 y) \<Rightarrow> drop_bit 64 x = drop_bit 64 y
      | _ \<Rightarrow> False)"

text \<open>Concrete values for the witnesses.\<close>

definition demo_peer_info :: client_info_without_id where
  "demo_peer_info = \<lparr>cw_alias = lit ''a'', cw_version = lit ''2.3'', cw_device_model = None,
     cw_device_type = None, cw_token = lit ''t''\<rparr>"

definition demo_room :: sig_app where
  "demo_room = \<lparr>tx_map = [lit ''g'' \<mapsto> [(2, \<lparr>cs_client = demo_peer_info, cs_tx = 2\<rparr>)]],
     request_count_map = Map.empty\<rparr>"

definition demo_sdp :: ws_client_sdp_message where
  "demo_sdp = \<lparr>sc_session_id = lit ''s'', sc_target = 2, sc_sdp = lit ''x''\<rparr>"

section \<open>Lemmas on the critical sections\<close>

lemma room_of_upd [simp]:
  "room_of (app\<lparr>tx_map := (tx_map app)(g \<mapsto> r)\<rparr>) = (room_of app)(g := r)"
  "room_of (app\<lparr>tx_map := (tx_map app)(g := None)\<rparr>) = (room_of app)(g := [])"
  "room_of (app\<lparr>request_count_map := m\<rparr>) = room_of app"
  by (auto simp: room_of_def fun_eq_iff)

lemma room_ok_update:
  assumes "room_ok n r" "j \<in> fst ` set r \<or> length r < n" "cs_tx cs = j"
  shows "room_ok n (AList.update j cs r)"
proof -
  have "length (AList.update j cs r) = (if j \<in> fst ` set r then length r else Suc (length r))"
    by (induction r) auto
  moreover have "list_all (\<lambda>(i, cs). cs_tx cs = i) r \<Longrightarrow> list_all (\<lambda>(i, cs). cs_tx cs = i) (AList.update j cs r)"
    using assms(3) by (induction r) auto
  ultimately show ?thesis
    using assms distinct_update [of r j cs] by (auto simp: room_ok_def)
qed

lemma room_ok_delete: "room_ok n r \<Longrightarrow> room_ok n (AList.delete j r)"
  by (auto simp: room_ok_def list_all_iff AList.delete_eq distinct_map_filter
      intro: le_trans [OF length_filter_le])

lemma room_ok_Nil: "room_ok n []"
  by (simp add: room_ok_def)

lemma fst_update [simp]: "fst ` set (AList.update j v r) = insert j (fst ` set r)"
  by (metis dom_map_of_conv_image_fst dom_update insert_dom update_conv' domI dom_fun_upd option.simps(3))

lemma fst_delete [simp]: "fst ` set (AList.delete j r) = fst ` set r - {j}"
  by (auto simp: AList.delete_eq image_iff)

lemma txs_members: "room_ok n r \<Longrightarrow> map (cs_tx \<circ> snd) r = map fst r"
  by (auto simp: room_ok_def list_all_iff)

lemma protect_counts:
  "protect_ddos_request_count n m g = (v, m') \<Longrightarrow> (\<And>h c. m h = Some c \<Longrightarrow> c \<le> n) \<Longrightarrow>
   m' h = Some c \<Longrightarrow> c \<le> n"
  using inc_le [of 0 n]
  by (auto simp: protect_ddos_request_count_def Let_def not_le inc_le split: if_splits option.splits)

lemma enter_room_props:
  assumes "enter_room lim g peer app = (res, app')"
    "\<And>h. room_ok (max_connections lim) (room_of app h)" "counts_ok lim app"
  shows "room_ok (max_connections lim) (room_of app' h)" "counts_ok lim app'"
    "members app' h = (if is_ok res \<and> h = g then insert (cl_id peer) (members app h) else members app h)"
    "res = Inr (txs, peers) \<Longrightarrow> txs = map fst (room_of app g) \<and> map cl_id peers = map fst (room_of app g)"
proof -
  have room: "(case tx_map app g of None \<Rightarrow> [] | Some r \<Rightarrow> r) = room_of app g" by (simp add: room_of_def)
  obtain v m where vm: "protect_ddos_request_count (max_requests lim) (request_count_map app) g = (v, m)"
    by fastforce
  have counts: "c \<le> max_requests lim" if "m h = Some c" for h c
    using protect_counts [OF vm _ that] assms(3) by (auto simp: counts_ok_def)
  have upd: "(\<lambda>g. room_of app g)(g := room_of app g) = room_of app" by simp
  consider (full) "max_connections lim \<le> length (room_of app g)"
    "res = Inl LIMIT_REACHED" "app' = app\<lparr>tx_map := (tx_map app)(g \<mapsto> room_of app g)\<rparr>"
  | (limited) "res = Inl LIMIT_REACHED"
    "app' = app\<lparr>tx_map := (tx_map app)(g \<mapsto> room_of app g), request_count_map := m\<rparr>"
  | (entered) "length (room_of app g) < max_connections lim"
    "res = Inr (map (cs_tx \<circ> snd) (room_of app g),
       map (\<lambda>(k, v). client_info_from (cs_client v) k) (room_of app g))"
    "app' = app\<lparr>tx_map := (tx_map app)(g \<mapsto> AList.update (cl_id peer)
       \<lparr>cs_client = client_info_strip peer, cs_tx = cl_id peer\<rparr> (room_of app g)), request_count_map := m\<rparr>"
    using assms(1) by (cases v) (auto simp: enter_room_def room Let_def vm not_le split: if_splits)
  note cases = this
  show "room_ok (max_connections lim) (room_of app' h)"
    using assms(2) by (cases rule: cases) (auto intro: room_ok_update)
  show "counts_ok lim app'"
    using assms(3) counts by (cases rule: cases) (auto simp: counts_ok_def)
  show "members app' h = (if is_ok res \<and> h = g then insert (cl_id peer) (members app h) else members app h)"
    by (cases rule: cases) (auto simp: members_def is_ok_def)
  show "txs = map fst (room_of app g) \<and> map cl_id peers = map fst (room_of app g)"
    if "res = Inr (txs, peers)"
  proof -
    have "map cl_id (map (\<lambda>(k, v). client_info_from (cs_client v) k) r) = map fst r" for r
      by (simp add: client_info_from_def case_prod_beta comp_def)
    note ids = this txs_members [OF assms(2)]
    show ?thesis
    proof (cases rule: cases)
      case entered
      with that have "txs = map (cs_tx \<circ> snd) (room_of app g)"
        "peers = map (\<lambda>(k, v). client_info_from (cs_client v) k) (room_of app g)" by simp_all
      then show ?thesis by (simp only: ids simp_thms)
    qed (use that in simp_all)
  qed
qed

lemma leave_room_props:
  assumes "leave_room g i app = (rest, app')"
    "\<And>h. room_ok (max_connections lim) (room_of app h)" "counts_ok lim app"
  shows "room_ok (max_connections lim) (room_of app' h)" "counts_ok lim app'"
    "members app' h = (if h = g then members app h - {i} else members app h)"
    "set rest \<subseteq> members app g"
proof -
  consider (none) "tx_map app g = None" "rest = []" "app' = app"
  | (last) r where "tx_map app g = Some r" "AList.delete i r = []" "rest = []"
      "app' = app\<lparr>tx_map := (tx_map app)(g := None)\<rparr>"
  | (more) r where "tx_map app g = Some r" "rest = map (cs_tx \<circ> snd) (AList.delete i r)"
      "app' = app\<lparr>tx_map := (tx_map app)(g \<mapsto> AList.delete i r)\<rparr>"
    using assms(1) by (cases "tx_map app g") (auto simp: leave_room_def Let_def split: if_splits)
  note cases = this
  have room: "room_of app g = r" if "tx_map app g = Some r" for r using that by (simp add: room_of_def)
  show "room_ok (max_connections lim) (room_of app' h)"
    using assms(2) [of h] room_ok_delete [of "max_connections lim" "room_of app g" i] assms(2) [of g]
    by (cases rule: cases) (auto simp: room room_ok_Nil)
  show "counts_ok lim app'"
    using assms(3) by (cases rule: cases) (auto simp: counts_ok_def)
  show "members app' h = (if h = g then members app h - {i} else members app h)"
  proof (cases rule: cases)
    case none
    then show ?thesis by (simp add: members_def room_of_def)
  next
    case (last r)
    then show ?thesis using fst_delete [of i r] by (auto simp: members_def room)
  next
    case (more r)
    then show ?thesis by (auto simp: members_def room)
  qed
  show "set rest \<subseteq> members app g"
  proof (cases rule: cases)
    case (more r)
    then have "map (cs_tx \<circ> snd) (AList.delete i r) = map fst (AList.delete i r)"
      using assms(2) [of g] room_ok_delete by (intro txs_members) (auto simp: room)
    with more show ?thesis using fst_delete [of i r] by (auto simp: members_def room)
  qed auto
qed

lemma send_update_props:
  assumes "send_update_to_other_peers g i info app = (out, app')"
    "\<And>h. room_ok n (room_of app h)"
  shows "room_ok n (room_of app' h)" "members app' h = members app h"
    "request_count_map app' = request_count_map app"
    "\<forall>(c, m) \<in> set out. c \<in> members app g \<and> named_peers m = {i}"
proof -
  consider (none) "out = []" "app' = app"
  | (some) cs where "map_of (room_of app g) i = Some cs"
    "out = map (\<lambda>(k, v). (cs_tx v, Update (client_info_from info i)))
       (filter (\<lambda>(k, v). k \<noteq> i) (room_of app g))"
    "app' = app\<lparr>tx_map := (tx_map app)(g \<mapsto> AList.update i (cs\<lparr>cs_client := info\<rparr>) (room_of app g))\<rparr>"
    using assms(1) by (auto simp: send_update_to_other_peers_def room_of_def split: option.splits)
  note cases = this
  have tx: "cs_tx cs = i" "i \<in> members app g" if "map_of (room_of app g) i = Some cs" for cs
    using map_of_SomeD [OF that] assms(2) [of g] by (force simp: room_ok_def list_all_iff members_def)+
  show "room_ok n (room_of app' h)"
    using assms(2) tx by (cases rule: cases) (auto simp: members_def intro: room_ok_update)
  show "members app' h = members app h"
    using tx by (cases rule: cases) (auto simp: members_def)
  show "request_count_map app' = request_count_map app"
    by (cases rule: cases) auto
  show "\<forall>(c, m) \<in> set out. c \<in> members app g \<and> named_peers m = {i}"
    using assms(2) [of g]
    by (cases rule: cases) (force simp: members_def room_ok_def list_all_iff client_info_from_def)+
qed

lemma send_to_peer_room:
  "send_to_peer g target msg app =
     (case map_of (room_of app g) target of None \<Rightarrow> [] | Some cs \<Rightarrow> [(cs_tx cs, msg)])"
  by (simp add: send_to_peer_def room_of_def split: option.split)

lemma send_to_peer_props:
  assumes "room_ok n (room_of app g)" "(c, m) \<in> set (send_to_peer g target msg app)"
  shows "c = target" "m = msg" "target \<in> members app g"
proof -
  obtain cs where "map_of (room_of app g) target = Some cs" "c = cs_tx cs" "m = msg"
    using assms(2) by (cases "map_of (room_of app g) target") (auto simp: send_to_peer_room)
  with map_of_SomeD [OF this(1)] assms(1) show "c = target" "m = msg" "target \<in> members app g"
    by (force simp: room_ok_def list_all_iff members_def)+
qed

lemma recv_turn_props:
  assumes "recv_turn lim decode g peer frm app = ((out, fin), app')"
    "\<And>h. room_ok (max_connections lim) (room_of app h)" "counts_ok lim app"
  shows "room_ok (max_connections lim) (room_of app' h)" "counts_ok lim app'"
    "members app' h = members app h"
    "\<forall>(c, m) \<in> set out. (c \<in> members app g \<or> c = cl_id peer) \<and> named_peers m \<subseteq> {cl_id peer}"
proof -
  obtain v m where vm: "protect_ddos_request_count (max_requests lim) (request_count_map app) g = (v, m)"
    by fastforce
  let ?app = "app\<lparr>request_count_map := m\<rparr>"
  have rooms: "room_ok (max_connections lim) (room_of ?app h)" for h using assms(2) by simp
  have same: "members ?app h = members app h" for h by (simp add: members_def)
  have counts: "counts_ok lim ?app"
    using protect_counts [OF vm] assms(3) by (auto simp: counts_ok_def)
  consider (quiet) "out = []" "app' = app"
  | (limited) "out = [(cl_id peer, WsError 429)]" "app' = ?app"
  | (update) info where "send_update_to_other_peers g (cl_id peer) info ?app = (out, app')"
  | (offer) sdp where "out = send_to_peer g (sc_target sdp) (Offer (sdp_message peer sdp)) ?app" "app' = ?app"
  | (answer) sdp where "out = send_to_peer g (sc_target sdp) (Answer (sdp_message peer sdp)) ?app" "app' = ?app"
  proof -
    define d where "d = (case frm of WsText text \<Rightarrow> decode text | WsOther \<Rightarrow> None)"
    have "recv_turn lim decode g peer frm app =
      (case d of None \<Rightarrow> (([], False), app)
       | Some msg \<Rightarrow> (case v of Inl e \<Rightarrow> (([(cl_id peer, WsError 429)], True), ?app)
         | Inr u \<Rightarrow> (case msg of
             ClientUpdate info \<Rightarrow> (case send_update_to_other_peers g (cl_id peer) info ?app of
                 (out, app2) \<Rightarrow> ((out, False), app2))
           | ClientOffer sdp \<Rightarrow> ((send_to_peer g (sc_target sdp) (Offer (sdp_message peer sdp)) ?app, False), ?app)
           | ClientAnswer sdp \<Rightarrow> ((send_to_peer g (sc_target sdp) (Answer (sdp_message peer sdp)) ?app, False), ?app))))"
      unfolding recv_turn_def d_def [symmetric] Let_def by (cases d) (simp_all add: vm)
    note eq = this [unfolded assms(1)]
    show thesis
    proof (cases d)
      case None
      then show thesis using eq by (intro quiet) simp_all
    next
      case d: (Some msg)
      show thesis
      proof (cases v)
        case (Inl e)
        then show thesis using eq d by (intro limited) simp_all
      next
        case v: (Inr u)
        show thesis
        proof (cases msg)
          case (ClientUpdate info)
          then show thesis using eq d v by (intro update) (simp split: prod.splits)
        next
          case (ClientOffer sdp)
          then show thesis using eq d v by (intro offer) simp_all
        next
          case (ClientAnswer sdp)
          then show thesis using eq d v by (intro answer) simp_all
        qed
      qed
    qed
  qed
  note cases = this
  show "room_ok (max_connections lim) (room_of app' h)"
    using assms(2) rooms send_update_props(1) [OF _ rooms] by (cases rule: cases) auto
  show "counts_ok lim app'"
    using assms(3) counts send_update_props(3) [OF _ rooms]
    by (cases rule: cases) (auto simp: counts_ok_def)
  show "members app' h = members app h"
    using same send_update_props(2) [OF _ rooms] by (cases rule: cases) auto
  show "\<forall>(c, m) \<in> set out. (c \<in> members app g \<or> c = cl_id peer) \<and> named_peers m \<subseteq> {cl_id peer}"
    using same send_update_props(4) [OF _ rooms] send_to_peer_props [OF rooms]
    by (cases rule: cases) (fastforce simp: sdp_message_def)+
qed

section \<open>Groups\<close>

lemma show_hex_inj: "show_hex m = show_hex n \<Longrightarrow> m = n"
  using show_hex_value by metis

lemma top_segments: "unat (drop_bit 64 (x :: 128 word)) = foldl (\<lambda>n d. 65536 * n + d) 0 (take 4 (ipv6_segments x))"
proof -
  define n where "n = unat x"
  have "n < 65536 ^ 8" using unsigned_less [of x, where ?'a = nat] by (simp add: n_def)
  then have b: "n div 65536 ^ 4 < 65536 ^ 4"
    by (simp add: less_mult_imp_div_less)
  have "take 4 (ipv6_segments x) = map (\<lambda>k. (n div 65536 ^ 4 div 65536 ^ k) mod 65536) (rev [0..<4])"
    by (simp add: ipv6_segments_def n_def [symmetric] upt_rec div_mult2_eq [symmetric])
  then have "foldl (\<lambda>n d. 65536 * n + d) 0 (take 4 (ipv6_segments x)) = (n div 65536 ^ 4) mod 65536 ^ 4"
    using digits_foldl [of 65536 0 "n div 65536 ^ 4" 4] by (simp only:)
  also have "\<dots> = n div 65536 ^ 4" using b by simp
  also have "\<dots> = unat (drop_bit 64 x)" unfolding n_def unat_drop_bit_eq by (simp add: drop_bit_eq_div)
  finally show ?thesis by simp
qed

lemma segments_inj:
  fixes xs ys :: "nat list"
  assumes "foldl (\<lambda>n d. b * n + d) 0 xs = foldl (\<lambda>n d. b * n + d) 0 ys" "length xs = length ys"
    "\<And>n. n \<in> set xs \<union> set ys \<Longrightarrow> n < b"
  shows "xs = ys"
  using assms
proof (induction xs arbitrary: ys rule: rev_induct)
  case (snoc x xs)
  then obtain y zs where ys: "ys = zs @ [y]" by (cases ys rule: rev_cases) auto
  let ?f = "foldl (\<lambda>n d. b * n + d) 0"
  have eq: "b * ?f xs + x = b * ?f zs + y" and lt: "x < b" "y < b" using snoc.prems ys by auto
  have "x = y" using arg_cong [OF eq, of "\<lambda>n. n mod b"] lt by simp
  moreover have "?f xs = ?f zs" using arg_cong [OF eq, of "\<lambda>n. n div b"] lt by simp
  ultimately show ?case using snoc.IH [of zs] snoc.prems ys by auto
qed simp

lemma group_text_v6:
  "split_on 58 (join_with 58 (map show_hex (take 4 (ipv6_segments x)))) = map show_hex (take 4 (ipv6_segments x))"
  by (rule split_on_join) (use show_hex_no_dot in \<open>auto simp: ipv6_segments_def\<close>)

lemma get_ip_group_v6:
  "get_ip_group (IpV6 x) = get_ip_group (IpV6 y) \<longleftrightarrow> drop_bit 64 x = drop_bit 64 y"
proof
  assume "get_ip_group (IpV6 x) = get_ip_group (IpV6 y)"
  then have "map show_hex (take 4 (ipv6_segments x)) = map show_hex (take 4 (ipv6_segments y))"
    unfolding get_ip_group_def ip_addr.case by (metis group_text_v6)
  then have "take 4 (ipv6_segments x) = take 4 (ipv6_segments y)"
    by (rule map_injective) (auto intro: injI show_hex_inj)
  then show "drop_bit 64 x = drop_bit 64 y"
    by (simp only: word_unat_eq_iff top_segments)
next
  assume "drop_bit 64 x = drop_bit 64 y"
  then have "foldl (\<lambda>n d. 65536 * n + d) 0 (take 4 (ipv6_segments x)) =
      foldl (\<lambda>n d. 65536 * n + d) 0 (take 4 (ipv6_segments y))"
    by (simp only: top_segments [symmetric])
  then have "take 4 (ipv6_segments x) = take 4 (ipv6_segments y)"
    by (rule segments_inj) (auto dest!: in_set_takeD ipv6_segments_bound)
  then show "get_ip_group (IpV6 x) = get_ip_group (IpV6 y)" by (simp add: get_ip_group_def)
qed

lemma get_ip_group_mixed: "get_ip_group (IpV4 x) \<noteq> get_ip_group (IpV6 y)"
proof -
  have "58 \<in> set (get_ip_group (IpV6 y))" by (simp add: get_ip_group_def ipv6_segments_def)
  moreover have "58 \<notin> set (get_ip_group (IpV4 x))"
    using show_ipv4_chars [of 58 x] by (auto simp: get_ip_group_def)
  ultimately show ?thesis by metis
qed

text \<open>
  Two clients share a room exactly when they share a network: the group of an IPv4
  address is that address, the group of an IPv6 address its /64 prefix, and no IPv4
  address falls into the group of an IPv6 address.
\<close>

theorem ip_group_is_network: "get_ip_group a = get_ip_group b \<longleftrightarrow> same_network a b"
proof (cases a; cases b)
  fix x y
  assume "a = IpV4 x" "b = IpV4 y"
  then show ?thesis using ip_text.enc_inj [of a b] by (simp add: get_ip_group_def same_network_def)
next
  fix x y
  assume "a = IpV6 x" "b = IpV6 y"
  then show ?thesis by (simp add: get_ip_group_v6 same_network_def)
qed (use get_ip_group_mixed get_ip_group_mixed [symmetric] in \<open>auto simp: same_network_def\<close>)

lemma str_trim_leading_space:
  "(\<And>c. c \<in> set s \<Longrightarrow> \<not> is_whitespace c) \<Longrightarrow> str_trim (32 # s) = s"
  unfolding str_trim_def
  by (cases s rule: rev_cases) (auto simp: is_whitespace_def [of 32] trim_end_id trim_end_matches_def
      dropWhile_eq_self_iff [THEN iffD2] hd_append)

lemma forwarded_ip_last:
  assumes "header_get headers (lit ''x-forwarded-for'') = Some v"
    "ext_header_text X v = Some (client @ lit '', '' @ show_ip ip)"
  shows "forwarded_ip X headers = Some ip"
proof -
  have "split_on 44 (32 # show_ip ip) = [32 # show_ip ip]"
    using show_ip_chars [of 44 ip] by (intro split_by_none) auto
  then have "last (split_on 44 (client @ lit '', '' @ show_ip ip)) = 32 # show_ip ip"
    by (simp add: lit_def split_by_append_sep)
  moreover have "str_trim (32 # show_ip ip) = show_ip ip"
  proof (rule str_trim_leading_space)
    show "\<not> is_whitespace c" if "c \<in> set (show_ip ip)" for c
      using show_ip_chars [OF that] by (auto simp: is_whitespace_def)
  qed
  ultimately show ?thesis using assms by (simp add: forwarded_ip_def ip_text.dec_enc)
qed

text \<open>
  A client behind a proxy cannot choose its room: whatever it put into the header the
  proxy appended its address to, the group is that of the address the proxy saw.
\<close>

theorem forwarded_group_trusted:
  assumes "header_get headers (lit ''x-forwarded-for'') = Some v"
    "ext_header_text X v = Some (client @ lit '', '' @ show_ip ip)"
    "ws_handler X decode new_id d addr headers = Inr (g, peer)"
  shows "g = get_ip_group ip \<and> cl_id peer = new_id"
  using assms(3) forwarded_ip_last [OF assms(1,2)]
  by (auto simp: ws_handler_def res_simps client_info_from_def Let_def)

theorem forwarded_group_trusted_witness:
  "ws_handler demo_ext (\<lambda>_. Some \<lparr>cw_alias = [], cw_version = [], cw_device_model = None,
       cw_device_type = None, cw_token = []\<rparr>) 7 (lit ''abc'') (SockV4 1 80)
     [(lit ''x-forwarded-for'', lit ''6.6.6.6, '' @ show_ip (IpV4 16909060))] =
   Inr (get_ip_group (IpV4 16909060), client_info_from \<lparr>cw_alias = [], cw_version = [],
     cw_device_model = None, cw_device_type = None, cw_token = []\<rparr> 7)"
  (is "ws_handler ?X ?dec 7 ?d ?addr ?hs = Inr (?g, ?p)")
proof -
  have d: "from_utf8 (map of_nat (lit ''abc'')) = Some (lit ''abc'')" by code_simp
  then obtain g peer where w: "ws_handler ?X ?dec 7 ?d ?addr ?hs = Inr (g, peer)" "peer = ?p"
    by (simp add: ws_handler_def demo_ext_def ok_or_def Let_def lit_def)
  have "lit ''6.6.6.6, '' @ show_ip (IpV4 16909060) = lit ''6.6.6.6'' @ lit '', '' @ show_ip (IpV4 16909060)"
    by (simp add: lit_def)
  then have "ext_header_text ?X (lit ''6.6.6.6, '' @ show_ip (IpV4 16909060)) =
      Some (lit ''6.6.6.6'' @ lit '', '' @ show_ip (IpV4 16909060))"
    by (simp add: demo_ext_def)
  from forwarded_group_trusted [OF _ this w(1)] w show ?thesis by (simp add: header_get_def)
qed

text \<open>
  Offers and answers are relayed with the sender's own identity: within the request
  limit, an offer or answer of a connection reaches exactly its target, if the target is
  in the sender's room, with the session id and SDP unchanged and with the description
  the sender had when it connected; it changes no room. Beyond the limit nothing is
  relayed and the sender is told 429 and disconnected.
\<close>

theorem relay_to_member:
  assumes "room_ok n (room_of app g)" "decode text = Some msg"
    "msg = ClientOffer sdp \<and> relayed = Offer (sdp_message peer sdp) \<or>
     msg = ClientAnswer sdp \<and> relayed = Answer (sdp_message peer sdp)"
  shows "fst (recv_turn lim decode g peer (WsText text) app) =
    (if (case request_count_map app g of None \<Rightarrow> 0 | Some c \<Rightarrow> c) < max_requests lim then
       (if sc_target sdp \<in> members app g then [(sc_target sdp, relayed)] else [], False)
     else ([(cl_id peer, WsError 429)], True))"
proof -
  have relay: "send_to_peer g (sc_target sdp) relayed (app\<lparr>request_count_map := m\<rparr>) =
      (if sc_target sdp \<in> members app g then [(sc_target sdp, relayed)] else [])" for m
  proof (cases "map_of (room_of app g) (sc_target sdp)")
    case None
    then have "sc_target sdp \<notin> members app g" by (simp add: members_def map_of_eq_None_iff)
    with None show ?thesis by (simp add: send_to_peer_room)
  next
    case (Some cs)
    with map_of_SomeD [OF Some] assms(1) show ?thesis
      by (force simp: send_to_peer_room members_def room_ok_def list_all_iff)
  qed
  then show ?thesis
    using assms(2,3)
    by (auto simp: recv_turn_def protect_ddos_request_count_def Let_def not_le simp flip: not_less)
qed

theorem relay_to_member_witness:
  "fst (recv_turn \<lparr>max_connections = 10, max_requests = 1000\<rparr> (\<lambda>_. Some (ClientOffer demo_sdp)) (lit ''g'')
     (client_info_from demo_peer_info 1) (WsText []) demo_room) =
   ([(2, Offer (sdp_message (client_info_from demo_peer_info 1) demo_sdp))], False)"
proof -
  have "room_ok 10 (room_of demo_room (lit ''g''))"
    by (simp add: room_ok_def room_of_def demo_room_def)
  from relay_to_member [OF this, of "\<lambda>_. Some (ClientOffer demo_sdp)" "[]" "ClientOffer demo_sdp" demo_sdp
      "Offer (sdp_message (client_info_from demo_peer_info 1) demo_sdp)" "client_info_from demo_peer_info 1"
      "\<lparr>max_connections = 10, max_requests = 1000\<rparr>"]
  show ?thesis by (simp add: demo_room_def demo_sdp_def members_def room_of_def)
qed

end
