(* ===== verification/FB_Signaling_Steps.thy ===== *)
theory FB_Signaling_Steps
  imports FB_Signaling
begin

text \<open>
  The signaling server between its critical sections (\<^verbatim>\<open>handle_socket\<close> in
  \<^verbatim>\<open>server/src/controller/ws_controller.rs\<close>): every connection has the messages its current
  task has still to send (a send into a full channel waits), the messages in its own
  channel and the messages written to its socket. \<open>sig_step\<close> is one atomic step of one
  task; the invariant says that the rooms are exactly the connections that still receive,
  and that messages never name a peer of another group.
\<close>

section \<open>The tasks of the connections\<close>

text \<open>
  \<open>Greeting\<close>: before the two tasks are spawned, the connection tells the others and then
  itself. \<open>Serving\<close>: the tasks run; the receive task has messages to send and may return
  afterwards. \<open>Leaving\<close>: the receiving end of the channel is dropped and the others are
  told.
\<close>

datatype task = Greeting outbox | Serving outbox bool | Leaving outbox | Gone

record conn =
  cn_group :: rstring
  cn_peer :: client_info
  cn_task :: task
  cn_rx :: "ws_server_message list"
  cn_sent :: "ws_server_message list"

record sig_system =
  sy_app :: sig_app
  sy_conns :: "uuid \<rightharpoonup> conn"

definition sig_init :: sig_system where
  "sig_init = \<lparr>sy_app = sig_app_new, sy_conns = Map.empty\<rparr>"

definition CHANNEL_SIZE :: nat where
  "CHANNEL_SIZE = 4"

fun receiving :: "task \<Rightarrow> bool" where
  "receiving (Greeting out) = True"
| "receiving (Serving out fin) = True"
| "receiving (Leaving out) = False"
| "receiving Gone = False"

fun pending_sends :: "task \<Rightarrow> outbox" where
  "pending_sends (Greeting out) = out"
| "pending_sends (Serving out fin) = out"
| "pending_sends (Leaving out) = out"
| "pending_sends Gone = []"

fun advance :: "task \<Rightarrow> task" where
  "advance (Greeting out) = Greeting (tl out)"
| "advance (Serving out fin) = Serving (tl out) fin"
| "advance (Leaving out) = Leaving (tl out)"
| "advance Gone = Gone"

text \<open>\<^verbatim>\<open>Sender::send\<close>: \<open>None\<close> while it waits for room; a dropped receiver loses the message.\<close>

definition channel_send ::
  "uuid \<Rightarrow> ws_server_message \<Rightarrow> (uuid \<rightharpoonup> conn) \<Rightarrow> (uuid \<rightharpoonup> conn) option"
where
  "channel_send c m conns =
     (case conns c of
        None \<Rightarrow> Some conns
      | Some k \<Rightarrow>
          if \<not> receiving (cn_task k) then Some conns
          else if length (cn_rx k) < CHANNEL_SIZE then Some (conns(c \<mapsto> k\<lparr>cn_rx := cn_rx k @ [m]\<rparr>))
          else None)"

definition set_task :: "uuid \<Rightarrow> task \<Rightarrow> (uuid \<rightharpoonup> conn) \<Rightarrow> (uuid \<rightharpoonup> conn)" where
  "set_task i t conns = (case conns i of None \<Rightarrow> conns | Some k \<Rightarrow> conns(i \<mapsto> k\<lparr>cn_task := t\<rparr>))"

text \<open>
  What can happen next: a new socket (with the id \<^verbatim>\<open>Uuid::new_v4\<close> gave it, never given
  before), a send of the running task, the end of the greeting, a frame from the client,
  a write to the socket, the end of the receive task (closed socket or return), a failed
  write, the end of the notifications, and the full hour.
\<close>

datatype sig_event =
    EvConnect uuid rstring client_info_without_id
  | EvSend uuid
  | EvSpawn uuid
  | EvFrame uuid ws_frame
  | EvWrite uuid
  | EvRecvEnd uuid
  | EvWriteFail uuid
  | EvDone uuid
  | EvHour

definition leave :: "uuid \<Rightarrow> conn \<Rightarrow> sig_system \<Rightarrow> sig_system" where
  "leave i k s =
     (let (remaining, app) = leave_room (cn_group k) i (sy_app s)
      in \<lparr>sy_app = app,
          sy_conns = (sy_conns s)(i \<mapsto> k\<lparr>cn_task := Leaving (map (\<lambda>c. (c, Left i)) remaining), cn_rx := []\<rparr>)\<rparr>)"

fun on_conn :: "uuid \<Rightarrow> (conn \<Rightarrow> sig_system option) \<Rightarrow> sig_system \<Rightarrow> sig_system option" where
  "on_conn i f s = (case sy_conns s i of None \<Rightarrow> None | Some k \<Rightarrow> f k)"

fun sig_step ::
  "limits \<Rightarrow> (rstring \<Rightarrow> ws_client_message option) \<Rightarrow> sig_event \<Rightarrow> sig_system \<Rightarrow> sig_system option"
where
  "sig_step lim decode (EvConnect i g info) s =
     (if sy_conns s i \<noteq> None then None
      else let peer = client_info_from info i
           in case enter_room lim g peer (sy_app s) of
                (Inl text, app) \<Rightarrow> Some (s\<lparr>sy_app := app\<rparr>)
              | (Inr (txs, peers), app) \<Rightarrow>
                  Some \<lparr>sy_app = app,
                    sy_conns = (sy_conns s)(i \<mapsto>
                      \<lparr>cn_group = g, cn_peer = peer,
                       cn_task = Greeting (map (\<lambda>c. (c, Join peer)) txs @ [(i, Hello peer peers)]),
                       cn_rx = [], cn_sent = []\<rparr>)\<rparr>)"
| "sig_step lim decode (EvSend i) s =
     on_conn i (\<lambda>k. case pending_sends (cn_task k) of
         [] \<Rightarrow> None
       | (c, m) # rest \<Rightarrow>
           map_option (\<lambda>conns. s\<lparr>sy_conns := set_task i (advance (cn_task k)) conns\<rparr>)
             (channel_send c m (sy_conns s))) s"
| "sig_step lim decode (EvSpawn i) s =
     on_conn i (\<lambda>k. case cn_task k of
         Greeting [] \<Rightarrow> Some (s\<lparr>sy_conns := (sy_conns s)(i \<mapsto> k\<lparr>cn_task := Serving [] False\<rparr>)\<rparr>)
       | _ \<Rightarrow> None) s"
| "sig_step lim decode (EvFrame i frm) s =
     on_conn i (\<lambda>k. case cn_task k of
         Serving [] False \<Rightarrow>
           (let ((out, fin), app) = recv_turn lim decode (cn_group k) (cn_peer k) frm (sy_app s)
            in Some \<lparr>sy_app = app, sy_conns = (sy_conns s)(i \<mapsto> k\<lparr>cn_task := Serving out fin\<rparr>)\<rparr>)
       | _ \<Rightarrow> None) s"
| "sig_step lim decode (EvWrite i) s =
     on_conn i (\<lambda>k. case (cn_task k, cn_rx k) of
         (Serving out fin, m # ms) \<Rightarrow>
           Some (s\<lparr>sy_conns := (sy_conns s)(i \<mapsto> k\<lparr>cn_rx := ms, cn_sent := cn_sent k @ [m]\<rparr>)\<rparr>)
       | _ \<Rightarrow> None) s"
| "sig_step lim decode (EvRecvEnd i) s =
     on_conn i (\<lambda>k. case cn_task k of Serving [] fin \<Rightarrow> Some (leave i k s) | _ \<Rightarrow> None) s"
| "sig_step lim decode (EvWriteFail i) s =
     on_conn i (\<lambda>k. case (cn_task k, cn_rx k) of
         (Serving out fin, m # ms) \<Rightarrow> Some (leave i k s) | _ \<Rightarrow> None) s"
| "sig_step lim decode (EvDone i) s =
     on_conn i (\<lambda>k. case cn_task k of
         Leaving [] \<Rightarrow> Some (s\<lparr>sy_conns := (sy_conns s)(i \<mapsto> k\<lparr>cn_task := Gone\<rparr>)\<rparr>)
       | _ \<Rightarrow> None) s"
| "sig_step lim decode EvHour s = Some (s\<lparr>sy_app := clear_request_counts (sy_app s)\<rparr>)"

fun sig_run ::
  "limits \<Rightarrow> (rstring \<Rightarrow> ws_client_message option) \<Rightarrow> sig_event list \<Rightarrow> sig_system \<Rightarrow> sig_system option"
where
  "sig_run lim decode [] s = Some s"
| "sig_run lim decode (e # es) s = Option.bind (sig_step lim decode e s) (sig_run lim decode es)"

inductive sig_reach ::
  "limits \<Rightarrow> (rstring \<Rightarrow> ws_client_message option) \<Rightarrow> sig_system \<Rightarrow> sig_system \<Rightarrow> bool"
  for lim decode s
where
  sig_start: "sig_reach lim decode s s"
| sig_next: "sig_reach lim decode s t \<Longrightarrow> sig_step lim decode e t = Some u \<Longrightarrow> sig_reach lim decode s u"

section \<open>Invariant\<close>

definition receivers :: "(uuid \<rightharpoonup> conn) \<Rightarrow> rstring \<Rightarrow> uuid set" where
  "receivers conns g = {i. \<exists>k. conns i = Some k \<and> cn_group k = g \<and> receiving (cn_task k)}"

definition group_of :: "(uuid \<rightharpoonup> conn) \<Rightarrow> uuid \<rightharpoonup> rstring" where
  "group_of conns i = map_option cn_group (conns i)"

definition within :: "(uuid \<rightharpoonup> rstring) \<Rightarrow> rstring \<Rightarrow> ws_server_message \<Rightarrow> bool" where
  "within G g m \<longleftrightarrow> (\<forall>i \<in> named_peers m. G i = Some g)"

definition conn_ok :: "(uuid \<rightharpoonup> rstring) \<Rightarrow> uuid \<Rightarrow> conn \<Rightarrow> bool" where
  "conn_ok G i k \<longleftrightarrow> cl_id (cn_peer k) = i \<and> length (cn_rx k) \<le> CHANNEL_SIZE \<and>
     list_all (within G (cn_group k)) (cn_rx k @ cn_sent k) \<and>
     list_all (\<lambda>(c, m). G c = Some (cn_group k) \<and> within G (cn_group k) m) (pending_sends (cn_task k))"

definition sig_inv :: "limits \<Rightarrow> sig_system \<Rightarrow> bool" where
  "sig_inv lim s \<longleftrightarrow>
     (\<forall>g. room_ok (max_connections lim) (room_of (sy_app s) g) \<and>
          members (sy_app s) g = receivers (sy_conns s) g) \<and>
     counts_ok lim (sy_app s) \<and>
     (\<forall>i k. sy_conns s i = Some k \<longrightarrow> conn_ok (group_of (sy_conns s)) i k)"

text \<open>
  A connection that waits to put its own greeting into its own full channel, whose
  receiving end is only read after the greeting.
\<close>

definition blocked_greeting :: "uuid \<Rightarrow> sig_system \<Rightarrow> bool" where
  "blocked_greeting i s \<longleftrightarrow> (\<exists>k m. sy_conns s i = Some k \<and> cn_task k = Greeting [(i, m)] \<and>
     length (cn_rx k) = CHANNEL_SIZE \<and> cn_sent k = [])"

text \<open>What a client that applies the messages in order believes the room to be.\<close>

fun view_step :: "uuid list \<Rightarrow> ws_server_message \<Rightarrow> uuid list" where
  "view_step v (Hello client peers) = map cl_id peers"
| "view_step v (Join peer) = cl_id peer # v"
| "view_step v (Left i) = removeAll i v"
| "view_step v m = v"

definition client_view :: "ws_server_message list \<Rightarrow> uuid list" where
  "client_view ms = foldl view_step [] ms"

text \<open>Concrete runs for the witnesses.\<close>

definition demo_limits :: limits where
  "demo_limits = \<lparr>max_connections = 10, max_requests = 1000\<rparr>"

definition demo_group :: rstring where "demo_group = lit ''1.2.3.4''"

definition demo_joins :: "sig_event list" where
  "demo_joins = EvConnect 1 demo_group demo_peer_info #
     concat (map (\<lambda>i. [EvConnect i demo_group demo_peer_info, EvSend i]) [2, 3, 4, 5])"

definition demo_race :: "sig_event list" where
  "demo_race =
     [EvConnect 1 demo_group demo_peer_info, EvSend 1, EvSpawn 1,
      EvConnect 2 demo_group demo_peer_info, EvSend 2, EvSend 2, EvSpawn 2,
      EvConnect 3 demo_group demo_peer_info, EvRecvEnd 2, EvSend 2, EvSend 2, EvDone 2,
      EvSend 3, EvSend 3, EvSend 3, EvSpawn 3, EvWrite 3, EvWrite 3] @ replicate 4 (EvWrite 1)"

section \<open>Preservation\<close>

lemma map_leD: "m \<subseteq>\<^sub>m m' \<Longrightarrow> m x = Some y \<Longrightarrow> m' x = Some y"
  by (metis map_le_def domI)

lemma within_mono: "G \<subseteq>\<^sub>m G' \<Longrightarrow> within G g m \<Longrightarrow> within G' g m"
  by (simp add: within_def map_leD)

lemma conn_ok_mono: "G \<subseteq>\<^sub>m G' \<Longrightarrow> conn_ok G i k \<Longrightarrow> conn_ok G' i k"
  using within_mono [of G G' "cn_group k"]
  by (auto simp: conn_ok_def list_all_iff map_leD split: prod.splits)

lemma group_of_same: "conns i = Some k \<Longrightarrow> cn_group k' = cn_group k \<Longrightarrow> group_of (conns(i \<mapsto> k')) = group_of conns"
  by (auto simp: group_of_def fun_eq_iff)

lemma group_of_fresh: "conns i = None \<Longrightarrow> group_of conns \<subseteq>\<^sub>m group_of (conns(i \<mapsto> k))"
  by (auto simp: group_of_def map_le_def)

lemma receivers_group: "i \<in> receivers conns g \<Longrightarrow> group_of conns i = Some g"
  by (auto simp: receivers_def group_of_def)

lemma receivers_same:
  "conns i = Some k \<Longrightarrow> cn_group k' = cn_group k \<Longrightarrow> receiving (cn_task k') = receiving (cn_task k) \<Longrightarrow>
   receivers (conns(i \<mapsto> k')) = receivers conns"
  by (auto simp: receivers_def fun_eq_iff)

lemma sig_inv_init: "sig_inv lim sig_init"
  by (auto simp: sig_inv_def sig_init_def sig_app_new_def room_of_def room_ok_Nil members_def
      receivers_def counts_ok_def)

lemma members_counts: "members (app\<lparr>request_count_map := m\<rparr>) = members app"
  by (simp add: members_def fun_eq_iff)

lemma sig_inv_update:
  assumes "sig_inv lim s" "sy_conns s i = Some k" "cn_group k' = cn_group k"
    "conn_ok (group_of (sy_conns s)) i k'"
    "\<And>g. room_ok (max_connections lim) (room_of app g)" "counts_ok lim app"
    "\<And>g. members app g = receivers ((sy_conns s)(i \<mapsto> k')) g"
  shows "sig_inv lim \<lparr>sy_app = app, sy_conns = (sy_conns s)(i \<mapsto> k')\<rparr>"
  using assms group_of_same [of "sy_conns s" i k k'] by (auto simp: sig_inv_def)

lemma sig_system_conns: "s\<lparr>sy_conns := c\<rparr> = \<lparr>sy_app = sy_app s, sy_conns = c\<rparr>"
  by (cases s) simp

lemma sig_inv_task:
  assumes "sig_inv lim s" "sy_conns s i = Some k" "cn_group k' = cn_group k"
    "conn_ok (group_of (sy_conns s)) i k'" "receiving (cn_task k') = receiving (cn_task k)"
  shows "sig_inv lim (s\<lparr>sy_conns := (sy_conns s)(i \<mapsto> k')\<rparr>)"
proof -
  have "sig_inv lim \<lparr>sy_app = sy_app s, sy_conns = (sy_conns s)(i \<mapsto> k')\<rparr>"
    using assms receivers_same [of "sy_conns s" i k k']
    by (intro sig_inv_update [OF assms(1-4)]) (auto simp: sig_inv_def)
  then show ?thesis by (simp add: sig_system_conns)
qed

lemma sig_invD:
  assumes "sig_inv lim s"
  shows "room_ok (max_connections lim) (room_of (sy_app s) g)" "counts_ok lim (sy_app s)"
    "members (sy_app s) g = receivers (sy_conns s) g"
    "sy_conns s i = Some k \<Longrightarrow> conn_ok (group_of (sy_conns s)) i k"
  using assms by (auto simp: sig_inv_def)

lemma channel_send_inv:
  assumes "sig_inv lim s" "channel_send c m (sy_conns s) = Some conns"
    "\<And>k. sy_conns s c = Some k \<Longrightarrow> within (group_of (sy_conns s)) (cn_group k) m"
  shows "sig_inv lim (s\<lparr>sy_conns := conns\<rparr>)"
proof (cases "conns = sy_conns s")
  case True
  then show ?thesis using assms(1) by simp
next
  case False
  with assms(2) obtain k where k: "sy_conns s c = Some k" "receiving (cn_task k)"
    "length (cn_rx k) < CHANNEL_SIZE" "conns = (sy_conns s)(c \<mapsto> k\<lparr>cn_rx := cn_rx k @ [m]\<rparr>)"
    by (auto simp: channel_send_def split: option.splits if_splits)
  show ?thesis unfolding k(4)
    using sig_invD(4) [OF assms(1) k(1)] assms(3) [OF k(1)] k(3)
    by (intro sig_inv_task [OF assms(1) k(1)]) (auto simp: conn_ok_def)
qed

lemma channel_send_conn:
  "channel_send c m conns = Some conns' \<Longrightarrow> conns i = Some k \<Longrightarrow>
   \<exists>rx. conns' i = Some (k\<lparr>cn_rx := rx\<rparr>)"
proof -
  assume sent: "channel_send c m conns = Some conns'" and k: "conns i = Some k"
  have "k = k\<lparr>cn_rx := cn_rx k\<rparr>" by (cases k) simp
  then have same: "\<exists>rx. k = k\<lparr>cn_rx := rx\<rparr>" by blast
  have "conns' i = Some k \<or> conns' i = Some (k\<lparr>cn_rx := cn_rx k @ [m]\<rparr>)"
    using sent k by (auto simp: channel_send_def split: option.splits if_splits)
  with same show ?thesis by auto
qed

lemma pending_advance: "pending_sends (advance t) = tl (pending_sends t)"
  by (cases t) auto

lemma receiving_advance [simp]: "receiving (advance t) = receiving t"
  by (cases t) auto

lemma sig_inv_send:
  assumes inv: "sig_inv lim s" and k: "sy_conns s i = Some k"
    and p: "pending_sends (cn_task k) = (c, m) # rest"
    and sent: "channel_send c m (sy_conns s) = Some conns"
  shows "sig_inv lim (s\<lparr>sy_conns := set_task i (advance (cn_task k)) conns\<rparr>)"
proof -
  note ok = sig_invD(4) [OF inv k]
  have m: "within (group_of (sy_conns s)) (cn_group k') m" if "sy_conns s c = Some k'" for k'
    using ok p that by (auto simp: conn_ok_def group_of_def)
  define s1 where "s1 = s\<lparr>sy_conns := conns\<rparr>"
  have inv1: "sig_inv lim s1"
    unfolding s1_def by (rule channel_send_inv [OF inv sent m])
  obtain rx where k1: "sy_conns s1 i = Some (k\<lparr>cn_rx := rx\<rparr>)"
    using channel_send_conn [OF sent k] by (auto simp: s1_def)
  have "sig_inv lim (s1\<lparr>sy_conns := (sy_conns s1)(i \<mapsto> k\<lparr>cn_rx := rx, cn_task := advance (cn_task k)\<rparr>)\<rparr>)"
    using sig_invD(4) [OF inv1 k1] p
    by (intro sig_inv_task [OF inv1 k1]) (auto simp: conn_ok_def pending_advance)
  then show ?thesis using k1 by (simp add: s1_def set_task_def)
qed

lemma sig_inv_leave:
  assumes inv: "sig_inv lim s" and k: "sy_conns s i = Some k" and r: "receiving (cn_task k)"
  shows "sig_inv lim (leave i k s)"
proof -
  obtain rest app where l: "leave_room (cn_group k) i (sy_app s) = (rest, app)" by fastforce
  note props = leave_room_props [OF l sig_invD(1,2) [OF inv]]
  let ?k = "k\<lparr>cn_task := Leaving (map (\<lambda>c. (c, Left i)) rest), cn_rx := []\<rparr>"
  have grp: "group_of (sy_conns s) c = Some (cn_group k)" if "c \<in> insert i (set rest)" for c
    using that props(4) receivers_group [of c "sy_conns s" "cn_group k"] sig_invD(3) [OF inv, of "cn_group k"] k
    by (auto simp: group_of_def)
  have "sig_inv lim \<lparr>sy_app = app, sy_conns = (sy_conns s)(i \<mapsto> ?k)\<rparr>"
  proof (rule sig_inv_update [OF inv k])
    show "conn_ok (group_of (sy_conns s)) i ?k"
      using sig_invD(4) [OF inv k] grp by (auto simp: conn_ok_def list_all_iff within_def)
    show "members app g = receivers ((sy_conns s)(i \<mapsto> ?k)) g" for g
      using props(3) [of g] sig_invD(3) [OF inv, of g] k by (auto simp: receivers_def)
  qed (use props in auto)
  then show ?thesis by (simp add: leave_def l)
qed

lemma cl_id_from: "cl_id (client_info_from info i) = i"
  by (simp add: client_info_from_def)

lemma sig_inv_connect:
  assumes inv: "sig_inv lim s" and fresh: "sy_conns s i = None"
    and e: "enter_room lim g (client_info_from info i) (sy_app s) = (Inr (txs, peers), app)"
  shows "sig_inv lim \<lparr>sy_app = app, sy_conns = (sy_conns s)(i \<mapsto>
    \<lparr>cn_group = g, cn_peer = client_info_from info i,
     cn_task = Greeting (map (\<lambda>c. (c, Join (client_info_from info i))) txs @
       [(i, Hello (client_info_from info i) peers)]), cn_rx = [], cn_sent = []\<rparr>)\<rparr>"
    (is "sig_inv lim \<lparr>sy_app = app, sy_conns = (sy_conns s)(i \<mapsto> ?k)\<rparr>")
proof -
  note props = enter_room_props [OF e sig_invD(1,2) [OF inv]]
  let ?G = "group_of ((sy_conns s)(i \<mapsto> ?k))"
  have G: "group_of (sy_conns s) \<subseteq>\<^sub>m ?G" using fresh by (rule group_of_fresh)
  have i: "?G i = Some g" by (simp add: group_of_def)
  have mem: "?G c = Some g" if "c \<in> members (sy_app s) g" for c
    using that sig_invD(3) [OF inv, of g] receivers_group [of c] map_leD [OF G] by auto
  have txs: "txs = map fst (room_of (sy_app s) g)" and peers: "map cl_id peers = map fst (room_of (sy_app s) g)"
    using props(4) [OF refl] by simp_all
  have "set txs = members (sy_app s) g" by (simp add: members_def txs)
  moreover have "cl_id ` set peers = members (sy_app s) g"
    using arg_cong [OF peers, of set] by (simp add: members_def)
  ultimately have k: "conn_ok ?G i ?k" using i mem
    by (auto simp: conn_ok_def within_def list_all_iff client_info_from_def CHANNEL_SIZE_def)
  have recv: "receivers ((sy_conns s)(i \<mapsto> ?k)) h = (if h = g then insert i (receivers (sy_conns s) h)
      else receivers (sy_conns s) h)" for h
    using fresh by (auto simp: receivers_def)
  have mem': "members app h = receivers ((sy_conns s)(i \<mapsto> ?k)) h" for h
    using props(3) [of h] recv [of h] sig_invD(3) [OF inv, of h]
    by (cases "h = g") (simp_all add: is_ok_def cl_id_from)
  have conns: "conn_ok ?G j k'" if "((sy_conns s)(i \<mapsto> ?k)) j = Some k'" for j k'
    using that k conn_ok_mono [OF G] sig_invD(4) [OF inv] by (cases "j = i") auto
  show ?thesis
    unfolding sig_inv_def using props(1,2) mem' conns by simp
qed

lemma sig_inv_frame:
  assumes inv: "sig_inv lim s" and k: "sy_conns s i = Some k" and r: "receiving (cn_task k)"
    and f: "recv_turn lim decode (cn_group k) (cn_peer k) frm (sy_app s) = ((out, fin), app)"
  shows "sig_inv lim \<lparr>sy_app = app, sy_conns = (sy_conns s)(i \<mapsto> k\<lparr>cn_task := Serving out fin\<rparr>)\<rparr>"
proof (rule sig_inv_update [OF inv k])
  note props = recv_turn_props [OF f sig_invD(1,2) [OF inv]]
  note ok = sig_invD(4) [OF inv k]
  have i: "group_of (sy_conns s) i = Some (cn_group k)" using k by (simp add: group_of_def)
  have "list_all (\<lambda>(c, m). group_of (sy_conns s) c = Some (cn_group k) \<and>
      within (group_of (sy_conns s)) (cn_group k) m) out"
    using props(4) i ok receivers_group [of _ "sy_conns s" "cn_group k"] sig_invD(3) [OF inv, of "cn_group k"]
    by (fastforce simp: list_all_iff within_def conn_ok_def)
  with ok show "conn_ok (group_of (sy_conns s)) i (k\<lparr>cn_task := Serving out fin\<rparr>)"
    by (auto simp: conn_ok_def)
  show "members app g = receivers ((sy_conns s)(i \<mapsto> k\<lparr>cn_task := Serving out fin\<rparr>)) g" for g
    using props(3) [of g] sig_invD(3) [OF inv, of g] receivers_same [of "sy_conns s" i k "k\<lparr>cn_task := Serving out fin\<rparr>"] k r
    by simp
qed (use recv_turn_props [OF f sig_invD(1,2) [OF inv]] in auto)

lemma sig_inv_step: "sig_inv lim s \<Longrightarrow> sig_step lim decode e s = Some t \<Longrightarrow> sig_inv lim t"
proof (cases e)
  case (EvConnect i g info)
  assume inv: "sig_inv lim s" and step: "sig_step lim decode e s = Some t"
  obtain res app where e: "enter_room lim g (client_info_from info i) (sy_app s) = (res, app)" by fastforce
  from step EvConnect have fresh: "sy_conns s i = None" by (simp split: if_splits)
  show ?thesis
  proof (cases res)
    case (Inl txt_sent)
    then have t: "t = \<lparr>sy_app = app, sy_conns = sy_conns s\<rparr>"
      using step EvConnect e fresh by (cases s) simp
    show ?thesis
      using enter_room_props(1-3) [OF e sig_invD(1,2) [OF inv]] sig_invD(3,4) [OF inv] Inl
      by (simp add: t sig_inv_def is_ok_def)
  next
    case (Inr r)
    then show ?thesis
      using step EvConnect e fresh sig_inv_connect [OF inv fresh] by (cases r) (auto simp: Let_def)
  qed
next
  case (EvSend i)
  assume "sig_inv lim s" "sig_step lim decode e s = Some t"
  then show ?thesis using EvSend sig_inv_send [of lim s i]
    by (auto split: option.splits list.splits)
next
  case (EvSpawn i)
  assume inv: "sig_inv lim s" and "sig_step lim decode e s = Some t"
  then obtain k where k: "sy_conns s i = Some k" "cn_task k = Greeting []"
    "t = s\<lparr>sy_conns := (sy_conns s)(i \<mapsto> k\<lparr>cn_task := Serving [] False\<rparr>)\<rparr>"
    using EvSpawn by (auto split: option.splits task.splits list.splits)
  show ?thesis unfolding k(3) using sig_invD(4) [OF inv k(1)] k
    by (intro sig_inv_task [OF inv k(1)]) (auto simp: conn_ok_def)
next
  case (EvFrame i frm)
  assume "sig_inv lim s" "sig_step lim decode e s = Some t"
  then show ?thesis using EvFrame sig_inv_frame [of lim s i]
    by (auto split: option.splits task.splits list.splits bool.splits prod.splits)
next
  case (EvWrite i)
  assume inv: "sig_inv lim s" and "sig_step lim decode e s = Some t"
  then obtain k out fin m ms where k: "sy_conns s i = Some k" "cn_task k = Serving out fin" "cn_rx k = m # ms"
    "t = s\<lparr>sy_conns := (sy_conns s)(i \<mapsto> k\<lparr>cn_rx := ms, cn_sent := cn_sent k @ [m]\<rparr>)\<rparr>"
    using EvWrite by (auto split: option.splits task.splits list.splits)
  show ?thesis unfolding k(4) using sig_invD(4) [OF inv k(1)] k
    by (intro sig_inv_task [OF inv k(1)]) (auto simp: conn_ok_def)
next
  case (EvRecvEnd i)
  assume "sig_inv lim s" "sig_step lim decode e s = Some t"
  then show ?thesis using EvRecvEnd sig_inv_leave [of lim s i]
    by (auto split: option.splits task.splits list.splits)
next
  case (EvWriteFail i)
  assume "sig_inv lim s" "sig_step lim decode e s = Some t"
  then show ?thesis using EvWriteFail sig_inv_leave [of lim s i]
    by (auto split: option.splits task.splits list.splits)
next
  case (EvDone i)
  assume inv: "sig_inv lim s" and "sig_step lim decode e s = Some t"
  then obtain k where k: "sy_conns s i = Some k" "cn_task k = Leaving []"
    "t = s\<lparr>sy_conns := (sy_conns s)(i \<mapsto> k\<lparr>cn_task := Gone\<rparr>)\<rparr>"
    using EvDone by (auto split: option.splits task.splits list.splits)
  show ?thesis unfolding k(3) using sig_invD(4) [OF inv k(1)] k
    by (intro sig_inv_task [OF inv k(1)]) (auto simp: conn_ok_def)
next
  case EvHour
  assume "sig_inv lim s" "sig_step lim decode e s = Some t"
  then show ?thesis using EvHour
    by (auto simp: sig_inv_def clear_request_counts_def counts_ok_def members_counts)
qed

lemma sig_inv_reach: "sig_reach lim decode s t \<Longrightarrow> sig_inv lim s \<Longrightarrow> sig_inv lim t"
  by (induction rule: sig_reach.induct) (auto dest: sig_inv_step)

lemma sig_reach_trans: "sig_reach lim decode t u \<Longrightarrow> sig_reach lim decode s t \<Longrightarrow> sig_reach lim decode s u"
  by (induction rule: sig_reach.induct) (auto intro: sig_next)

lemma sig_run_reach: "sig_run lim decode es s = Some t \<Longrightarrow> sig_reach lim decode s t"
proof (induction es arbitrary: s)
  case (Cons e es)
  then obtain u where "sig_step lim decode e s = Some u" "sig_run lim decode es u = Some t"
    by (auto simp: bind_eq_Some_conv)
  with sig_reach_trans [OF Cons.IH sig_next [OF sig_start]] show ?case by blast
qed (auto intro: sig_start)

section \<open>Properties\<close>

text \<open>
  C18. Rooms are isolated: in every interleaving, every message that is written to a socket
  or waits in a channel names only peers of the group of its receiver.
\<close>

theorem signaling_group_isolation:
  assumes "sig_reach lim decode sig_init s" "sy_conns s i = Some k"
    "m \<in> set (cn_rx k @ cn_sent k)" "p \<in> named_peers m"
  shows "\<exists>k'. sy_conns s p = Some k' \<and> cn_group k' = cn_group k"
  using sig_invD(4) [OF sig_inv_reach [OF assms(1) sig_inv_init] assms(2)] assms(3,4)
  by (auto simp: conn_ok_def list_all_iff within_def group_of_def)

text \<open>
  In every interleaving the rooms are exactly the connections that still receive, no
  group has more connections than allowed, no counter passes the number of requests per
  hour, and no channel holds more than four messages.
\<close>

theorem rooms_reflect_connections:
  assumes "sig_reach lim decode sig_init s"
  shows "members (sy_app s) g = receivers (sy_conns s) g \<and>
    card (receivers (sy_conns s) g) \<le> max_connections lim \<and>
    (case request_count_map (sy_app s) g of None \<Rightarrow> True | Some c \<Rightarrow> c \<le> max_requests lim) \<and>
    (case sy_conns s i of None \<Rightarrow> True | Some k \<Rightarrow> length (cn_rx k) \<le> CHANNEL_SIZE)"
proof -
  note inv = sig_inv_reach [OF assms sig_inv_init]
  have "card (members (sy_app s) g) \<le> length (room_of (sy_app s) g)"
    unfolding members_def by (metis card_length list.set_map length_map)
  then have "card (receivers (sy_conns s) g) \<le> max_connections lim"
    using sig_invD(1,3) [OF inv, of g] by (simp add: room_ok_def)
  then show ?thesis
    using sig_invD(2) [OF inv] sig_invD(3) [OF inv, of g] sig_invD(4) [OF inv, of i]
    by (auto simp: counts_ok_def conn_ok_def split: option.splits)
qed

lemma channel_send_blocked:
  "conns i = Some k \<Longrightarrow> receiving (cn_task k) \<Longrightarrow> length (cn_rx k) = CHANNEL_SIZE \<Longrightarrow>
   channel_send c m conns = Some conns' \<Longrightarrow> conns' i = Some k"
  by (auto simp: channel_send_def split: option.splits if_splits)

lemma blocked_step: "blocked_greeting i s \<Longrightarrow> sig_step lim decode e s = Some t \<Longrightarrow> blocked_greeting i t"
proof -
  assume "blocked_greeting i s" and step: "sig_step lim decode e s = Some t"
  then obtain k m where k: "sy_conns s i = Some k" "cn_task k = Greeting [(i, m)]"
    "length (cn_rx k) = CHANNEL_SIZE" "cn_sent k = []" by (auto simp: blocked_greeting_def)
  have "sy_conns t i = Some k"
  proof (cases e)
    case (EvConnect j g info)
    then show ?thesis using step k
      by (cases "enter_room lim g (client_info_from info j) (sy_app s)") (auto simp: Let_def split: if_splits sum.splits prod.splits)
  next
    case (EvSend j)
    show ?thesis
    proof (cases "j = i")
      case True
      then show ?thesis using step k EvSend by (simp add: channel_send_def)
    next
      case False
      then show ?thesis using step k EvSend channel_send_blocked [of "sy_conns s" i k]
        by (auto simp: set_task_def split: option.splits list.splits)
    qed
  qed (use step k in \<open>auto simp: leave_def Let_def split: option.splits task.splits list.splits bool.splits prod.splits if_splits\<close>)
  then show "blocked_greeting i t" using k by (auto simp: blocked_greeting_def)
qed

lemma blocked_reach: "sig_reach lim decode s t \<Longrightarrow> blocked_greeting i s \<Longrightarrow> blocked_greeting i t"
  by (induction rule: sig_reach.induct) (auto intro: blocked_step)

text \<open>
  A connection whose channel is filled by the joins of others before it has put its own
  greeting into it is stuck for good: the greeting waits for room in a channel that is
  only read afterwards, so in every continuation the client receives nothing at all, not
  even its greeting, and its slot in the room is never freed.
\<close>

theorem greeting_blocked_forever:
  assumes "blocked_greeting i s" "sig_inv lim s" "sig_reach lim decode s t"
  shows "\<exists>k. sy_conns t i = Some k \<and> cn_sent k = [] \<and> i \<in> members (sy_app t) (cn_group k)"
proof -
  obtain k m where k: "sy_conns t i = Some k" "cn_task k = Greeting [(i, m)]" "cn_sent k = []"
    using blocked_reach [OF assms(3,1)] by (auto simp: blocked_greeting_def)
  then have "i \<in> receivers (sy_conns t) (cn_group k)" by (simp add: receivers_def)
  then show ?thesis
    using k sig_invD(3) [OF sig_inv_reach [OF assms(3,2)]] by simp
qed

lemma demo_joins_run:
  "map_option (\<lambda>s. map_option (\<lambda>k. (cn_task k, length (cn_rx k), cn_sent k, cn_group k)) (sy_conns s 1))
     (sig_run demo_limits (\<lambda>_. None) demo_joins sig_init) =
   Some (Some (Greeting [(1, Hello (client_info_from demo_peer_info 1) [])], 4, [], demo_group))"
  by code_simp

lemma demo_joins_blocked:
  obtains s where "sig_run demo_limits (\<lambda>_. None) demo_joins sig_init = Some s" "blocked_greeting 1 s"
proof -
  obtain s where s: "sig_run demo_limits (\<lambda>_. None) demo_joins sig_init = Some s"
    "map_option (\<lambda>k. (cn_task k, length (cn_rx k), cn_sent k, cn_group k)) (sy_conns s 1) =
      Some (Greeting [(1, Hello (client_info_from demo_peer_info 1) [])], 4, [], demo_group)"
    using demo_joins_run by auto
  then have "blocked_greeting 1 s" by (auto simp: blocked_greeting_def CHANNEL_SIZE_def)
  with s(1) show thesis by (rule that)
qed

theorem greeting_blocked_forever_witness:
  "\<exists>s t k. sig_run demo_limits (\<lambda>_. None) demo_joins sig_init = Some s \<and>
     sig_step demo_limits (\<lambda>_. None) EvHour s = Some t \<and>
     sy_conns t 1 = Some k \<and> cn_sent k = [] \<and> 1 \<in> members (sy_app t) (cn_group k)"
proof -
  obtain s where s: "sig_run demo_limits (\<lambda>_. None) demo_joins sig_init = Some s" "blocked_greeting 1 s"
    by (rule demo_joins_blocked)
  define t where "t = s\<lparr>sy_app := clear_request_counts (sy_app s)\<rparr>"
  have step: "sig_step demo_limits (\<lambda>_. None) EvHour s = Some t" by (simp add: t_def)
  have "sig_inv demo_limits s" using sig_inv_reach [OF sig_run_reach [OF s(1)] sig_inv_init] .
  from greeting_blocked_forever [OF s(2) this sig_next [OF sig_start step]] s(1) step
  show ?thesis by blast
qed

lemma demo_race_run:
  "map_option (\<lambda>s. (map (\<lambda>i. map_option (\<lambda>k. (cn_task k, cn_rx k, client_view (cn_sent k), cn_group k)) (sy_conns s i)) [1, 2, 3],
       map fst (room_of (sy_app s) demo_group)))
     (sig_run demo_limits (\<lambda>_. None) demo_race sig_init) =
   Some ([Some (Serving [] False, [], [3], demo_group), Some (Gone, [], [], demo_group),
          Some (Serving [] False, [], [1, 2], demo_group)], [1, 3])"
  by code_simp

text \<open>
  The greeting can resurrect a peer that has left: its list is taken when the
  connection enters the room but sent after the notifications, so a peer that leaves in
  between is reported as gone first and as present afterwards. In the reachable state
  below peer 2 is gone, all messages are delivered, and client 3 still lists peer 2.
\<close>

theorem departed_peer_in_view:
  "\<exists>s k. sig_reach demo_limits (\<lambda>_. None) sig_init s \<and> sy_conns s 3 = Some k \<and>
     cn_task k = Serving [] False \<and> cn_rx k = [] \<and> map_option cn_task (sy_conns s 2) = Some Gone \<and>
     2 \<notin> members (sy_app s) (cn_group k) \<and> 2 \<in> set (client_view (cn_sent k))"
proof -
  obtain s where s: "sig_run demo_limits (\<lambda>_. None) demo_race sig_init = Some s"
    "map (\<lambda>i. map_option (\<lambda>k. (cn_task k, cn_rx k, client_view (cn_sent k), cn_group k)) (sy_conns s i)) [1, 2, 3] =
     [Some (Serving [] False, [], [3], demo_group), Some (Gone, [], [], demo_group),
      Some (Serving [] False, [], [1, 2], demo_group)]"
    "map fst (room_of (sy_app s) demo_group) = [1, 3]"
    using demo_race_run by auto
  have "members (sy_app s) demo_group = {1, 3}"
    using arg_cong [OF s(3), of set] by (simp add: members_def)
  then show ?thesis using sig_run_reach [OF s(1)] s(2) by auto
qed

theorem signaling_group_isolation_witness:
  "\<exists>s k m k'. sig_run demo_limits (\<lambda>_. None) demo_joins sig_init = Some s \<and> sy_conns s 1 = Some k \<and>
     m \<in> set (cn_rx k @ cn_sent k) \<and> 2 \<in> named_peers m \<and> sy_conns s 2 = Some k' \<and> cn_group k' = cn_group k"
proof -
  have "map_option (\<lambda>s. map_option (\<lambda>k. hd (cn_rx k @ cn_sent k) = Join (client_info_from demo_peer_info 2) \<and>
      cn_rx k @ cn_sent k \<noteq> []) (sy_conns s 1))
     (sig_run demo_limits (\<lambda>_. None) demo_joins sig_init) = Some (Some True)"
    by code_simp
  then obtain s k where s: "sig_run demo_limits (\<lambda>_. None) demo_joins sig_init = Some s" "sy_conns s 1 = Some k"
    "hd (cn_rx k @ cn_sent k) = Join (client_info_from demo_peer_info 2)" "cn_rx k @ cn_sent k \<noteq> []"
    by auto
  have m: "Join (client_info_from demo_peer_info 2) \<in> set (cn_rx k @ cn_sent k)"
    using hd_in_set [OF s(4)] unfolding s(3) .
  have "2 \<in> named_peers (Join (client_info_from demo_peer_info 2))" by (simp add: client_info_from_def)
  from signaling_group_isolation [OF sig_run_reach [OF s(1)] s(2) m this] s(1,2) m this show ?thesis by blast
qed

theorem rooms_reflect_connections_witness:
  "\<exists>s. sig_run demo_limits (\<lambda>_. None) demo_joins sig_init = Some s \<and>
     members (sy_app s) demo_group = receivers (sy_conns s) demo_group \<and>
     card (receivers (sy_conns s) demo_group) \<le> 10"
proof -
  obtain s where s: "sig_run demo_limits (\<lambda>_. None) demo_joins sig_init = Some s"
    by (rule demo_joins_blocked)
  from rooms_reflect_connections [OF sig_run_reach [OF s], of demo_group] s show ?thesis
    by (auto simp: demo_limits_def)
qed

end
