(* ===== verification/FB_SignalClient.thy ===== *)
theory FB_SignalClient
  imports FB_Signaling_Steps
begin

text \<open>
  The client side of signaling (\<^verbatim>\<open>packages/core/src/webrtc/signaling.rs\<close>): connecting and
  waiting for the greeting, sending, and the listener that dispatches answers to the
  callbacks waiting for them. The reader of the socket forwards every message into a
  channel of one place that nobody reads before \<^verbatim>\<open>connect\<close> has returned. The theory ends
  with what the client makes of the server of \<open>FB_Signaling_Steps\<close>.
\<close>

section \<open>Connecting\<close>

text \<open>\<open>encode\<close> is \<^verbatim>\<open>serde_json::to_string\<close>; base64 is a parameter of the model.\<close>

definition connect_uri ::
  "ext \<Rightarrow> (client_info_without_id \<Rightarrow> rstring) \<Rightarrow> rstring \<Rightarrow> client_info_without_id \<Rightarrow> rstring"
where
  "connect_uri X encode uri info =
     uri @ lit ''?d='' @ ext_base64_encode X (utf8_bytes (encode info))"

text \<open>A frame as the reader sees it: \<open>None\<close> is not text or does not decode.\<close>

definition read_frame :: "(rstring \<Rightarrow> ws_server_message option) \<Rightarrow> ws_frame \<Rightarrow> ws_server_message option" where
  "read_frame decode frm = (case frm of WsText text \<Rightarrow> decode text | WsOther \<Rightarrow> None)"

definition RECEIVE_CHANNEL_SIZE :: nat where
  "RECEIVE_CHANNEL_SIZE = 1"

text \<open>
  The state of \<^verbatim>\<open>connect\<close> after the frames read so far: returned with the client and the
  messages waiting for it, panicked (the socket closed and \<^verbatim>\<open>client_rx.recv()\<close> gave nothing to
  unwrap), still waiting, or stuck behind a full channel.
\<close>

datatype connect_state =
    Connected client_info "ws_server_message list"
  | ConnectPanic
  | ConnectWaiting
  | ConnectStuck

fun connect_wait :: "bool \<Rightarrow> ws_server_message option list \<Rightarrow> ws_server_message list \<Rightarrow> connect_state" where
  "connect_wait closed [] buffered = (if closed then ConnectPanic else ConnectWaiting)"
| "connect_wait closed (None # frames) buffered = connect_wait closed frames buffered"
| "connect_wait closed (Some m # frames) buffered =
     (case m of
        Hello client peers \<Rightarrow> Connected client (buffered @ [m])
      | _ \<Rightarrow> if length buffered < RECEIVE_CHANNEL_SIZE then connect_wait closed frames (buffered @ [m])
             else ConnectStuck)"

section \<open>Sending\<close>

definition send_update :: "client_info_without_id \<Rightarrow> ws_client_message" where
  "send_update info = ClientUpdate info"

definition send_offer :: "rstring \<Rightarrow> uuid \<Rightarrow> rstring \<Rightarrow> ws_client_message" where
  "send_offer session_id target sdp =
     ClientOffer \<lparr>sc_session_id = session_id, sc_target = target, sc_sdp = sdp\<rparr>"

definition send_answer :: "rstring \<Rightarrow> uuid \<Rightarrow> rstring \<Rightarrow> ws_client_message" where
  "send_answer session_id target sdp =
     ClientAnswer \<lparr>sc_session_id = session_id, sc_target = target, sc_sdp = sdp\<rparr>"

section \<open>The listener\<close>

text \<open>
  The state shared with the listener task: the callbacks by session id, the calls made and
  the messages forwarded so far, whether the application still receives, and whether the
  task is alive (\<^verbatim>\<open>unwrap\<close> panics on the first forward to a dropped receiver).
\<close>

record 'cb listener =
  ls_callbacks :: "rstring \<rightharpoonup> 'cb"
  ls_calls :: "('cb \<times> ws_server_sdp_message) list"
  ls_forwarded :: "ws_server_message list"
  ls_receiving :: bool
  ls_alive :: bool

definition start_listener :: "'cb listener" where
  "start_listener = \<lparr>ls_callbacks = Map.empty, ls_calls = [], ls_forwarded = [], ls_receiving = True,
     ls_alive = True\<rparr>"

definition on_answer :: "rstring \<Rightarrow> 'cb \<Rightarrow> 'cb listener \<Rightarrow> 'cb listener" where
  "on_answer session_id callback s = s\<lparr>ls_callbacks := (ls_callbacks s)(session_id \<mapsto> callback)\<rparr>"

definition call_back :: "ws_server_sdp_message \<Rightarrow> 'cb listener \<Rightarrow> 'cb listener" where
  "call_back sdp s =
     (case ls_callbacks s (ss_session_id sdp) of
        None \<Rightarrow> s
      | Some callback \<Rightarrow>
          s\<lparr>ls_callbacks := (ls_callbacks s)(ss_session_id sdp := None),
            ls_calls := ls_calls s @ [(callback, sdp)]\<rparr>)"

definition listener_turn :: "ws_server_message \<Rightarrow> 'cb listener \<Rightarrow> 'cb listener" where
  "listener_turn m s =
     (if \<not> ls_alive s then s
      else let s1 = (case m of Answer sdp \<Rightarrow> call_back sdp s | _ \<Rightarrow> s)
           in if ls_receiving s then s1\<lparr>ls_forwarded := ls_forwarded s1 @ [m]\<rparr> else s1\<lparr>ls_alive := False\<rparr>)"

datatype 'cb listener_event = Register rstring 'cb | Incoming ws_server_message | DropReceiver

fun listener_step :: "'cb listener_event \<Rightarrow> 'cb listener \<Rightarrow> 'cb listener" where
  "listener_step (Register session_id callback) s = on_answer session_id callback s"
| "listener_step (Incoming m) s = listener_turn m s"
| "listener_step DropReceiver s = s\<lparr>ls_receiving := False\<rparr>"

definition listener_run :: "'cb listener_event list \<Rightarrow> 'cb listener" where
  "listener_run es = foldl (\<lambda>s e. listener_step e s) start_listener es"

section \<open>Reference descriptions\<close>

fun is_hello :: "ws_server_message \<Rightarrow> bool" where
  "is_hello (Hello client peers) = True"
| "is_hello m = False"

definition messages_read :: "ws_server_message option list \<Rightarrow> ws_server_message list" where
  "messages_read frames = map the (filter (\<lambda>f. f \<noteq> None) frames)"

fun registered :: "rstring \<Rightarrow> 'cb listener_event \<Rightarrow> bool" where
  "registered session_id (Register sid callback) = (sid = session_id)"
| "registered session_id e = False"

fun incoming :: "'cb listener_event \<Rightarrow> ws_server_message list" where
  "incoming (Incoming m) = [m]"
| "incoming e = []"

definition calls_for :: "rstring \<Rightarrow> 'cb listener \<Rightarrow> nat" where
  "calls_for session_id s = length (filter (\<lambda>(callback, sdp). ss_session_id sdp = session_id) (ls_calls s))"

definition waiting_for :: "rstring \<Rightarrow> 'cb listener \<Rightarrow> nat" where
  "waiting_for session_id s = (if ls_callbacks s session_id = None then 0 else 1)"

definition listener_inv :: "'cb listener_event list \<Rightarrow> 'cb listener \<Rightarrow> bool" where
  "listener_inv es s \<longleftrightarrow>
     (\<forall>sid. calls_for sid s + waiting_for sid s \<le> length (filter (registered sid) es)) \<and>
     (\<forall>sid callback. ls_callbacks s sid = Some callback \<longrightarrow> Register sid callback \<in> set es) \<and>
     (\<forall>(callback, sdp) \<in> set (ls_calls s).
        Register (ss_session_id sdp) callback \<in> set es \<and> Incoming (Answer sdp) \<in> set es)"

definition demo_early_joins :: "sig_event list" where
  "demo_early_joins =
     [EvConnect 1 demo_group demo_peer_info, EvConnect 2 demo_group demo_peer_info, EvSend 2,
      EvConnect 3 demo_group demo_peer_info, EvSend 3, EvSend 1, EvSpawn 1, EvWrite 1, EvWrite 1, EvWrite 1]"

section \<open>Lemmas\<close>

lemma messages_read_simps [simp]:
  "messages_read [] = []"
  "messages_read (None # fs) = messages_read fs"
  "messages_read (Some m # fs) = m # messages_read fs"
  by (simp_all add: messages_read_def)

lemma connect_wait_verdict:
  "length buffered \<le> 1 \<Longrightarrow>
   connect_wait closed frames buffered =
     (let before = buffered @ takeWhile (Not \<circ> is_hello) (messages_read frames)
      in if 1 < length before then ConnectStuck
         else case dropWhile (Not \<circ> is_hello) (messages_read frames) of
             Hello client peers # _ \<Rightarrow> Connected client (before @ [Hello client peers])
           | _ \<Rightarrow> if closed then ConnectPanic else ConnectWaiting)"
proof (induction frames arbitrary: buffered)
  case (Cons f frames)
  show ?case
  proof (cases "\<exists>m. f = Some m \<and> \<not> is_hello m")
    case True
    then obtain m where m: "f = Some m" "\<not> is_hello m" by blast
    then have "connect_wait closed (f # frames) buffered =
        (if buffered = [] then connect_wait closed frames [m] else ConnectStuck)"
      using Cons.prems by (cases m) (auto simp: RECEIVE_CHANNEL_SIZE_def)
    then show ?thesis using Cons.IH [of "[m]"] m Cons.prems
      by (cases buffered) (simp_all del: connect_wait.simps)
  next
    case False
    then consider "f = None" | client peers where "f = Some (Hello client peers)"
      by (cases f) (metis is_hello.elims(2) not_None_eq option.inject)+
    then show ?thesis using Cons by cases (simp_all add: Let_def)
  qed
qed simp

lemma listener_inv_start: "listener_inv [] start_listener"
  by (simp add: listener_inv_def start_listener_def calls_for_def waiting_for_def)

lemma listener_inv_bound:
  "listener_inv es s \<Longrightarrow> calls_for sid s + waiting_for sid s \<le> length (filter (registered sid) es)"
  by (simp add: listener_inv_def)

lemma listener_inv_grow: "listener_inv es s \<Longrightarrow> listener_inv (es @ [e]) s"
  unfolding listener_inv_def by (auto simp: trans_le_add1)

lemma listener_inv_fields:
  "listener_inv es (s\<lparr>ls_forwarded := f\<rparr>) = listener_inv es s"
  "listener_inv es (s\<lparr>ls_alive := a\<rparr>) = listener_inv es s"
  "listener_inv es (s\<lparr>ls_receiving := r\<rparr>) = listener_inv es s"
  by (simp_all add: listener_inv_def calls_for_def waiting_for_def)

lemma call_back_inv:
  "listener_inv es s \<Longrightarrow> listener_inv (es @ [Incoming (Answer sdp)]) (call_back sdp s)"
proof (cases "ls_callbacks s (ss_session_id sdp)")
  case None
  assume "listener_inv es s"
  with None show ?thesis by (auto simp: listener_inv_def call_back_def)
next
  case (Some callback)
  assume inv: "listener_inv es s"
  have "calls_for sid (call_back sdp s) + waiting_for sid (call_back sdp s) = calls_for sid s + waiting_for sid s" for sid
    using Some by (auto simp: call_back_def calls_for_def waiting_for_def)
  with inv Some show ?thesis
    by (auto simp: listener_inv_def) (auto simp: call_back_def split: if_splits)
qed

lemma listener_inv_step: "listener_inv es s \<Longrightarrow> listener_inv (es @ [e]) (listener_step e s)"
proof (cases e)
  case (Register sid callback)
  assume inv: "listener_inv es s"
  have step: "calls_for sid' (listener_step e s) + waiting_for sid' (listener_step e s) \<le>
      calls_for sid' s + waiting_for sid' s + (if sid' = sid then 1 else 0)" for sid'
    using Register by (simp add: on_answer_def calls_for_def waiting_for_def)
  have len: "length (filter (registered sid') (es @ [e])) =
      length (filter (registered sid') es) + (if sid' = sid then 1 else 0)" for sid'
    using Register by simp
  have "calls_for sid' (listener_step e s) + waiting_for sid' (listener_step e s) \<le>
      length (filter (registered sid') (es @ [e]))" for sid'
    using listener_inv_bound [OF inv, of sid'] step [of sid'] unfolding len by linarith
  then show ?thesis using inv Register
    by (auto simp: listener_inv_def simp del: filter_append) (auto simp: on_answer_def split: if_splits)
next
  case (Incoming m)
  assume inv: "listener_inv es s"
  have "listener_inv (es @ [Incoming m]) (case m of Answer sdp \<Rightarrow> call_back sdp s | _ \<Rightarrow> s)"
    using call_back_inv [OF inv] listener_inv_grow [OF inv] by (cases m) simp_all
  with Incoming listener_inv_grow [OF inv] show ?thesis
    by (simp add: listener_turn_def Let_def listener_inv_fields)
next
  case DropReceiver
  assume inv: "listener_inv es s"
  then show ?thesis using DropReceiver listener_inv_grow [OF inv] by (simp add: listener_inv_fields)
qed

lemma listener_run_inv: "listener_inv es (listener_run es)"
  unfolding listener_run_def
  by (induction es rule: rev_induct) (simp_all add: listener_inv_start listener_inv_step)

lemma listener_run_forwards:
  "DropReceiver \<notin> set es \<Longrightarrow>
   ls_forwarded (listener_run es) = concat (map incoming es) \<and> ls_alive (listener_run es) \<and> ls_receiving (listener_run es)"
  unfolding listener_run_def
proof (induction es rule: rev_induct)
  case (snoc e es)
  then show ?case
    by (cases e) (auto simp: on_answer_def listener_turn_def Let_def call_back_def
        split: ws_server_message.split option.split)
qed (simp add: start_listener_def)

section \<open>Properties\<close>

text \<open>
  What \<^verbatim>\<open>connect\<close> makes of the frames it reads: it returns exactly when at most one
  message precedes the greeting; with two it hangs for good, because the reader waits for
  the application to take a message before it reads on to the greeting, and the
  application waits for the greeting; and a socket that closes before the greeting makes
  it panic instead of returning an error.
\<close>

theorem connect_outcome:
  "connect_wait closed frames [] =
     (let before = takeWhile (Not \<circ> is_hello) (messages_read frames)
      in if 1 < length before then ConnectStuck
         else case dropWhile (Not \<circ> is_hello) (messages_read frames) of
             Hello client peers # _ \<Rightarrow> Connected client (before @ [Hello client peers])
           | _ \<Rightarrow> if closed then ConnectPanic else ConnectWaiting)"
  using connect_wait_verdict [of "[]" closed frames] by simp

text \<open>
  The listener calls a callback only with an answer to its own session, at most once
  per registration, and only for answers that arrived; and while the application
  receives, every message reaches it in order.
\<close>

theorem answers_dispatched_once:
  "calls_for sid (listener_run es) \<le> length (filter (registered sid) es) \<and>
   list_all (\<lambda>(callback, sdp). Register (ss_session_id sdp) callback \<in> set es \<and> Incoming (Answer sdp) \<in> set es)
     (ls_calls (listener_run es)) \<and>
   (if DropReceiver \<in> set es then True else ls_forwarded (listener_run es) = concat (map incoming es))"
proof -
  have "calls_for sid (listener_run es) \<le> length (filter (registered sid) es)"
    using listener_inv_bound [OF listener_run_inv [of es], of sid] by linarith
  with listener_run_inv [of es] listener_run_forwards [of es] show ?thesis
    by (auto simp: listener_inv_def list_all_iff)
qed

lemma demo_early_joins_run:
  "map_option (\<lambda>s. map_option cn_sent (sy_conns s 1))
     (sig_run demo_limits (\<lambda>_. None) demo_early_joins sig_init) =
   Some (Some [Join (client_info_from demo_peer_info 2), Join (client_info_from demo_peer_info 3),
     Hello (client_info_from demo_peer_info 1) []])"
  by code_simp

text \<open>
  Server and client together: the server can write two joins to a socket before the
  greeting, and its own client hangs in \<^verbatim>\<open>connect\<close> on exactly that; and the text the server
  sends when a limit is reached, before it closes the socket, makes its own client panic.
\<close>

theorem client_fails_on_server_output:
  "(\<exists>s k. sig_reach demo_limits (\<lambda>_. None) sig_init s \<and> sy_conns s 1 = Some k \<and>
      connect_wait closed (map Some (cn_sent k)) [] = ConnectStuck) \<and>
   connect_wait True (map (read_frame (\<lambda>t. if t = LIMIT_REACHED then None else decode t)) [WsText LIMIT_REACHED]) [] =
     ConnectPanic"
proof
  obtain s k where "sig_run demo_limits (\<lambda>_. None) demo_early_joins sig_init = Some s" "sy_conns s 1 = Some k"
    "cn_sent k = [Join (client_info_from demo_peer_info 2), Join (client_info_from demo_peer_info 3),
     Hello (client_info_from demo_peer_info 1) []]"
    using demo_early_joins_run by auto
  then show "\<exists>s k. sig_reach demo_limits (\<lambda>_. None) sig_init s \<and> sy_conns s 1 = Some k \<and>
      connect_wait closed (map Some (cn_sent k)) [] = ConnectStuck"
    by (intro exI [of _ s] exI [of _ k]) (simp add: sig_run_reach RECEIVE_CHANNEL_SIZE_def)
  show "connect_wait True (map (read_frame (\<lambda>t. if t = LIMIT_REACHED then None else decode t)) [WsText LIMIT_REACHED]) [] =
     ConnectPanic"
    by (simp add: read_frame_def)
qed

end
