(* ===== verification/FB_Token.thy ===== *)
theory FB_Token
  imports FB_Http
begin

text \<open>
  Tokens (\<^verbatim>\<open>packages/core/src/crypto/token.rs\<close>): five fields separated by dots, of which the
  second is the digest of the public key and a salt and the last a signature of that
  digest. The salt is a time or the nonces of the peers. Keys, signatures, base64 and
  SHA-256 come from other crates and are parameters; what is used of them is the
  hypothesis \<open>token_suite\<close>. Indexing past the end and, in a checked build, subtracting below
  zero panic.
\<close>

section \<open>Keys\<close>

record verifying_token_key =
  vk_verify :: "byte list \<Rightarrow> byte list \<Rightarrow> bool"
  vk_to_der :: "byte list option"
  vk_signature_method :: rstring

record signing_token_key =
  sk_public_der :: "byte list option"
  sk_public_verify :: "byte list \<Rightarrow> byte list \<Rightarrow> bool"
  sk_sign :: "byte list \<Rightarrow> byte list"

definition to_verifying_key :: "signing_token_key \<Rightarrow> verifying_token_key" where
  "to_verifying_key key =
     \<lparr>vk_verify = sk_public_verify key, vk_to_der = sk_public_der key, vk_signature_method = lit ''ed25519''\<rparr>"

text \<open>
  \<open>ed\<close> and \<open>rsa\<close> read a PEM public key of their kind: the check of signatures and the DER form.
\<close>

definition parse_public_key ::
  "(rstring \<Rightarrow> ((byte list \<Rightarrow> byte list \<Rightarrow> bool) \<times> byte list option) option) \<Rightarrow>
   (rstring \<Rightarrow> ((byte list \<Rightarrow> byte list \<Rightarrow> bool) \<times> byte list option) option) \<Rightarrow>
   rstring \<Rightarrow> rstring \<Rightarrow> verifying_token_key option"
where
  "parse_public_key ed rsa public_key ident =
     (if ident = lit ''ed25519'' then
        map_option (\<lambda>(verify, der). \<lparr>vk_verify = verify, vk_to_der = der, vk_signature_method = lit ''ed25519''\<rparr>)
          (ed public_key)
      else if ident = lit ''rsa-pss'' then
        map_option (\<lambda>(verify, der). \<lparr>vk_verify = verify, vk_to_der = der, vk_signature_method = lit ''rsa-pss''\<rparr>)
          (rsa public_key)
      else None)"

section \<open>Numbers as bytes\<close>

definition to_le_bytes :: "u64 \<Rightarrow> byte list" where
  "to_le_bytes x = map (\<lambda>k. of_nat (unat x div 256 ^ k)) [0..<8]"

definition from_le_bytes :: "byte list \<Rightarrow> u64" where
  "from_le_bytes bs = of_nat (foldr (\<lambda>b n. unat b + 256 * n) bs 0)"

section \<open>Making tokens\<close>

definition token_text :: "rstring list \<Rightarrow> rstring" where
  "token_text fs = join_with 46 fs"

definition generate_token_nonce :: "ext \<Rightarrow> signing_token_key \<Rightarrow> byte list \<Rightarrow> rstring option" where
  "generate_token_nonce X key salt =
     map_option (\<lambda>der.
       let digest = ext_sha256 X (der @ salt)
       in token_text [lit ''sha256'', ext_base64_encode X digest, ext_base64_encode X salt,
            lit ''ed25519'', ext_base64_encode X (sk_sign key digest)]) (sk_public_der key)"

text \<open>\<open>now\<close> is \<^verbatim>\<open>unix_timestamp_u64\<close>, which fails for a clock before the epoch.\<close>

definition generate_token_timestamp :: "ext \<Rightarrow> signing_token_key \<Rightarrow> u64 option \<Rightarrow> rstring option" where
  "generate_token_timestamp X key now =
     Option.bind now (\<lambda>t. generate_token_nonce X key (to_le_bytes t))"

definition extract_signature_identifier :: "rstring \<Rightarrow> rstring option" where
  "extract_signature_identifier token =
     (let parts = split_on 46 token in if 3 < length parts then Some (parts ! 3) else None)"

section \<open>Checking tokens\<close>

datatype verdict = Valid | Invalid rstring | Panic

definition verify_token_with_result ::
  "ext \<Rightarrow> verifying_token_key \<Rightarrow> rstring \<Rightarrow> (byte list \<Rightarrow> verdict) \<Rightarrow> verdict"
where
  "verify_token_with_result X key token verify_salt =
     (case take 5 (split_on 46 token) of
        [hash_method, hash_base64, salt_base64, sign_method, signature_base64] \<Rightarrow>
          if hash_method \<noteq> lit ''sha256'' then Invalid (lit ''Invalid hash method'')
          else if sign_method \<noteq> vk_signature_method key then Invalid (lit ''Invalid sign method'')
          else (case ext_base64_decode X salt_base64 of
              None \<Rightarrow> Invalid (lit ''salt'')
            | Some salt \<Rightarrow>
                (case verify_salt salt of
                   Valid \<Rightarrow>
                     (case vk_to_der key of
                        None \<Rightarrow> Invalid (lit ''der'')
                      | Some der \<Rightarrow>
                          let digest = ext_sha256 X (der @ salt)
                          in if ext_base64_encode X digest \<noteq> hash_base64 then Invalid (lit ''Hash mismatch'')
                             else (case ext_base64_decode X signature_base64 of
                                 None \<Rightarrow> Invalid (lit ''Invalid signature base64 encoding'')
                               | Some signature \<Rightarrow>
                                   if vk_verify key digest signature then Valid
                                   else Invalid (lit ''Invalid signature'')))
                 | bad \<Rightarrow> bad))
      | _ \<Rightarrow> Panic)"

text \<open>\<open>checked\<close> says whether the build checks for arithmetic overflow. \<open>None\<close> is a panic.\<close>

definition is_valid_token :: "verdict \<Rightarrow> bool option" where
  "is_valid_token v = (case v of Valid \<Rightarrow> Some True | Invalid e \<Rightarrow> Some False | Panic \<Rightarrow> None)"

definition check_timestamp :: "bool \<Rightarrow> u64 option \<Rightarrow> byte list \<Rightarrow> verdict" where
  "check_timestamp checked now salt =
     (if length salt \<noteq> 8 then Invalid (lit ''Invalid salt length'')
      else case now of
          None \<Rightarrow> Invalid (lit ''time'')
        | Some now_seconds \<Rightarrow>
            let t = from_le_bytes salt
            in if checked \<and> now_seconds < t then Panic
               else if 3600 < now_seconds - t then Invalid (lit ''Fingerprint timestamp expired'')
               else Valid)"

definition verify_token_timestamp ::
  "ext \<Rightarrow> bool \<Rightarrow> u64 option \<Rightarrow> verifying_token_key \<Rightarrow> rstring \<Rightarrow> bool option"
where
  "verify_token_timestamp X checked now key token =
     is_valid_token (verify_token_with_result X key token (check_timestamp checked now))"

definition verify_token_nonce :: "ext \<Rightarrow> verifying_token_key \<Rightarrow> rstring \<Rightarrow> byte list \<Rightarrow> bool option" where
  "verify_token_nonce X key token nonce =
     is_valid_token (verify_token_with_result X key token
       (\<lambda>salt. if salt \<noteq> nonce then Invalid (lit ''Invalid nonce'') else Valid))"

section \<open>What tokens rely on\<close>

text \<open>
  URL-safe base64 decodes what it encodes and uses no dot, and a key verifies what it
  signed.
\<close>

definition token_suite :: "ext \<Rightarrow> signing_token_key \<Rightarrow> byte list \<Rightarrow> bool" where
  "token_suite X key der \<longleftrightarrow>
     (\<forall>bs. ext_base64_decode X (ext_base64_encode X bs) = Some bs) \<and>
     (\<forall>bs. 46 \<notin> set (ext_base64_encode X bs)) \<and>
     sk_public_der key = Some der \<and>
     (\<forall>d. sk_public_verify key d (sk_sign key d))"

text \<open>A concrete suite: signatures are the message itself, base64 is a shift of the bytes.\<close>

definition demo_key :: signing_token_key where
  "demo_key = \<lparr>sk_public_der = Some [7], sk_public_verify = (\<lambda>d s. d = s), sk_sign = (\<lambda>d. d)\<rparr>"

definition demo_token_ext :: ext where
  "demo_token_ext = demo_ext\<lparr>ext_base64_encode := map (\<lambda>b. 100 + unat b),
     ext_base64_decode := (\<lambda>s. Some (map (\<lambda>c. of_nat (c - 100)) s))\<rparr>"

section \<open>Tokens that were made\<close>

lemma split_token:
  assumes "token_suite X key der" "generate_token_nonce X key salt = Some token"
  shows "split_on 46 token = [lit ''sha256'', ext_base64_encode X (ext_sha256 X (der @ salt)),
    ext_base64_encode X salt, lit ''ed25519'',
    ext_base64_encode X (sk_sign key (ext_sha256 X (der @ salt)))]"
proof -
  let ?fields = "[lit ''sha256'', ext_base64_encode X (ext_sha256 X (der @ salt)),
    ext_base64_encode X salt, lit ''ed25519'',
    ext_base64_encode X (sk_sign key (ext_sha256 X (der @ salt)))]"
  have "split_on 46 (join_with 46 ?fields) = ?fields"
    using assms(1) by (intro split_on_join) (auto simp: lit_def token_suite_def)
  then show ?thesis
    using assms by (simp add: generate_token_nonce_def token_suite_def token_text_def Let_def)
qed

lemma generated_verdict:
  assumes "token_suite X key der" "generate_token_nonce X key salt = Some token"
  shows "verify_token_with_result X (to_verifying_key key) token verify_salt = verify_salt salt"
  using assms(1)
  by (simp add: verify_token_with_result_def split_token [OF assms] to_verifying_key_def token_suite_def
      split: verdict.split)

lemma token_generates: "token_suite X key der \<Longrightarrow> \<exists>token. generate_token_nonce X key salt = Some token"
  by (simp add: generate_token_nonce_def token_suite_def)

lemma demo_suite: "token_suite demo_token_ext demo_key [7]"
  by (auto simp: token_suite_def demo_token_ext_def demo_key_def comp_def)

section \<open>Lemmas\<close>

lemma le_value: "foldr (\<lambda>b n. b + 256 * n) (map (\<lambda>k. x div 256 ^ k mod 256) [a..<a + m]) 0 =
    x div 256 ^ a mod 256 ^ m" for x :: nat
proof (induction m arbitrary: a)
  case (Suc m)
  have "[a..<a + Suc m] = a # [Suc a..<Suc a + m]" by (simp add: upt_conv_Cons)
  then have "foldr (\<lambda>b n. b + 256 * n) (map (\<lambda>k. x div 256 ^ k mod 256) [a..<a + Suc m]) 0 =
      x div 256 ^ a mod 256 + 256 * (x div 256 ^ Suc a mod 256 ^ m)"
    using Suc.IH [of "Suc a"] by simp
  also have "x div 256 ^ Suc a = x div 256 ^ a div 256"
    by (simp only: power_Suc2 div_mult2_eq)
  also have "x div 256 ^ a mod 256 + 256 * (x div 256 ^ a div 256 mod 256 ^ m) = x div 256 ^ a mod 256 ^ Suc m"
    by (simp add: mod_mult2_eq)
  finally show ?case .
qed simp

lemma from_to_le_bytes [simp]: "from_le_bytes (to_le_bytes x) = x"
proof -
  have "foldr (\<lambda>b n. unat b + 256 * n) (to_le_bytes x) 0 =
      foldr (\<lambda>b n. b + 256 * n) (map (\<lambda>k. unat x div 256 ^ k mod 256) [0..<0 + 8]) 0"
    by (simp add: to_le_bytes_def foldr_map comp_def unat_of_nat)
  also have "\<dots> = unat x mod 256 ^ 8" by (simp only: le_value) simp
  also have "\<dots> = unat x" using unsigned_less [of x, where ?'a = nat] by simp
  finally show ?thesis by (simp add: from_le_bytes_def)
qed

lemma length_to_le_bytes [simp]: "length (to_le_bytes x) = 8"
  by (simp add: to_le_bytes_def)

lemma five_parts:
  assumes "5 \<le> length xs"
  obtains a b c d e ys where "xs = a # b # c # d # e # ys"
  using assms by (auto simp: numeral_eq_Suc Suc_le_length_iff)

lemma take_five: "take 5 (a # b # c # d # e # ys) = [a, b, c, d, e]"
  by (simp add: numeral_eq_Suc)

lemma verify_short: "length (split_on 46 token) < 5 \<Longrightarrow> verify_token_with_result X key token f = Panic"
  by (auto simp: verify_token_with_result_def split: list.split)

lemma verify_long:
  assumes "5 \<le> length (split_on 46 token)" "\<And>salt. f salt \<noteq> Panic"
  shows "verify_token_with_result X key token f \<noteq> Panic"
proof -
  obtain a b c d e ys where "split_on 46 token = a # b # c # d # e # ys"
    using five_parts [OF assms(1)] .
  then show ?thesis
    using assms(2) by (simp add: verify_token_with_result_def take_five Let_def
        split: option.split verdict.split)
qed

lemma verify_valid:
  assumes "verify_token_with_result X key token f = Valid"
  obtains h s g rest salt der signature where
    "split_on 46 token = lit ''sha256'' # h # s # vk_signature_method key # g # rest"
    "ext_base64_decode X s = Some salt" "f salt = Valid" "vk_to_der key = Some der"
    "h = ext_base64_encode X (ext_sha256 X (der @ salt))" "ext_base64_decode X g = Some signature"
    "vk_verify key (ext_sha256 X (der @ salt)) signature"
proof -
  have "5 \<le> length (split_on 46 token)"
    using verify_short [of token X key f] assms by (metis not_le verdict.distinct(3))
  then obtain a b c d e ys where "split_on 46 token = a # b # c # d # e # ys"
    by (rule five_parts)
  then show thesis
    using assms that
    by (auto simp: verify_token_with_result_def take_five Let_def
        split: if_splits option.splits verdict.splits)
qed

lemma age_window:
  fixes now t :: u64
  assumes "now < 2 ^ 63" "t < 2 ^ 63"
  shows "now - t \<le> 3600 \<longleftrightarrow> unat t \<le> unat now \<and> unat now \<le> unat t + 3600"
proof (cases "t \<le> now")
  case True
  then show ?thesis
    using unat_sub [OF True] by (auto simp: word_le_nat_alt)
next
  case False
  then have "unat (now - t) = unat now + 2 ^ 64 - unat t"
    by (simp add: unat_sub_if' word_le_nat_alt)
  moreover have "unat t < 2 ^ 63" using assms(2) by (simp add: word_less_nat_alt)
  ultimately show ?thesis using False by (simp add: word_le_nat_alt)
qed

section \<open>Properties\<close>

text \<open>
  C23. A token made for a nonce is accepted for that nonce and for no other, by the key that
  made it; a token made at a time is accepted from then until an hour later. A token from
  a clock that is ahead, however little, is rejected as expired, and in a build that
  checks arithmetic the check panics on it.
\<close>

theorem token_roundtrip:
  assumes "token_suite X key der" "now < 2 ^ 63" "t < 2 ^ 63"
    "generate_token_nonce X key salt = Some token" "generate_token_timestamp X key (Some t) = Some token'"
  shows "verify_token_nonce X (to_verifying_key key) token nonce = Some (nonce = salt) \<and>
    verify_token_timestamp X False (Some now) (to_verifying_key key) token' =
      Some (unat t \<le> unat now \<and> unat now \<le> unat t + 3600) \<and>
    verify_token_timestamp X True (Some now) (to_verifying_key key) token' =
      (if now < t then None else Some (unat now \<le> unat t + 3600))"
proof -
  have "generate_token_nonce X key (to_le_bytes t) = Some token'"
    using assms(5) by (simp add: generate_token_timestamp_def)
  note verdicts = generated_verdict [OF assms(1,4)] generated_verdict [OF assms(1) this]
  show ?thesis
    using age_window [OF assms(2,3)]
    by (auto simp: verify_token_nonce_def verify_token_timestamp_def verdicts is_valid_token_def
        check_timestamp_def Let_def not_less word_le_nat_alt word_less_nat_alt)
qed

theorem token_roundtrip_witness:
  "\<exists>token token'. generate_token_nonce demo_token_ext demo_key [1, 2] = Some token \<and>
     verify_token_nonce demo_token_ext (to_verifying_key demo_key) token [1, 2] = Some True \<and>
     generate_token_timestamp demo_token_ext demo_key (Some 1000) = Some token' \<and>
     verify_token_timestamp demo_token_ext False (Some 999) (to_verifying_key demo_key) token' = Some False \<and>
     verify_token_timestamp demo_token_ext True (Some 999) (to_verifying_key demo_key) token' = None"
proof -
  obtain token where n: "generate_token_nonce demo_token_ext demo_key [1, 2] = Some token"
    using token_generates [OF demo_suite] by blast
  obtain token' where t: "generate_token_timestamp demo_token_ext demo_key (Some 1000) = Some token'"
    using token_generates [OF demo_suite, of "to_le_bytes 1000"] by (auto simp: generate_token_timestamp_def)
  from token_roundtrip [OF demo_suite, of 999 1000, OF _ _ n t] n t show ?thesis
    by simp
qed

text \<open>
  C22. An accepted token proves possession of the key for the nonce: its digest field is the
  digest of the key and exactly that nonce, and its signature verifies over that digest.
\<close>

theorem token_sound:
  assumes "verify_token_nonce X key token nonce = Some True"
  shows "\<exists>h s g rest der signature.
    split_on 46 token = lit ''sha256'' # h # s # vk_signature_method key # g # rest \<and>
    ext_base64_decode X s = Some nonce \<and> vk_to_der key = Some der \<and>
    h = ext_base64_encode X (ext_sha256 X (der @ nonce)) \<and>
    ext_base64_decode X g = Some signature \<and> vk_verify key (ext_sha256 X (der @ nonce)) signature"
proof -
  let ?f = "\<lambda>salt. if salt \<noteq> nonce then Invalid (lit ''Invalid nonce'') else Valid"
  have "verify_token_with_result X key token ?f = Valid"
    using assms by (auto simp: verify_token_nonce_def is_valid_token_def split: verdict.splits)
  then obtain h s g rest salt der signature where
    "split_on 46 token = lit ''sha256'' # h # s # vk_signature_method key # g # rest"
    "ext_base64_decode X s = Some salt" "?f salt = Valid" "vk_to_der key = Some der"
    "h = ext_base64_encode X (ext_sha256 X (der @ salt))" "ext_base64_decode X g = Some signature"
    "vk_verify key (ext_sha256 X (der @ salt)) signature"
    by (rule verify_valid)
  then show ?thesis by (auto split: if_splits)
qed

theorem token_sound_witness:
  "verify_token_nonce demo_token_ext (to_verifying_key demo_key)
     (token_text [lit ''sha256'', [102], [101], lit ''ed25519'', [102]]) [1] = Some True \<and>
   (\<exists>h s g rest. split_on 46 (token_text [lit ''sha256'', [102], [101], lit ''ed25519'', [102]]) =
      lit ''sha256'' # h # s # lit ''ed25519'' # g # rest)"
proof
  show v: "verify_token_nonce demo_token_ext (to_verifying_key demo_key)
     (token_text [lit ''sha256'', [102], [101], lit ''ed25519'', [102]]) [1] = Some True"
    by code_simp
  show "\<exists>h s g rest. split_on 46 (token_text [lit ''sha256'', [102], [101], lit ''ed25519'', [102]]) =
      lit ''sha256'' # h # s # lit ''ed25519'' # g # rest"
    using token_sound [OF v] by (auto simp: to_verifying_key_def)
qed

lemma extra_fields_ignored:
  "5 \<le> length (split_on 46 token) \<Longrightarrow>
   verify_token_with_result X key (token @ 46 # junk) f = verify_token_with_result X key token f"
  by (simp add: verify_token_with_result_def split_by_append_sep)

text \<open>
  The check panics on exactly the texts with fewer than five fields, which a peer can
  send: the slice is taken before the number of fields is looked at, so the error for an
  invalid structure is never returned.
\<close>

theorem short_token_panics:
  "verify_token_nonce X key token nonce = None \<longleftrightarrow> length (split_on 46 token) < 5"
proof -
  let ?f = "\<lambda>salt. if salt \<noteq> nonce then Invalid (lit ''Invalid nonce'') else Valid"
  have f: "?f salt \<noteq> Panic" for salt by simp
  have "verify_token_with_result X key token ?f = Panic \<longleftrightarrow> length (split_on 46 token) < 5"
  proof (cases "length (split_on 46 token) < 5")
    case True
    then show ?thesis using verify_short [OF True] by simp
  next
    case False
    then have "5 \<le> length (split_on 46 token)" by simp
    from verify_long [OF this f] False show ?thesis by simp
  qed
  then show ?thesis
    by (auto simp: verify_token_nonce_def is_valid_token_def split: verdict.splits)
qed

end
