(* ===== verification/FB_Interface.thy ===== *)
theory FB_Interface
  imports FB_Net
begin

text \<open>
  Network interfaces and their filters (\<^verbatim>\<open>packages/core/src/util/interface.rs\<close>): patterns in
  which a star stands for one or more characters other than a dot, white and black
  lists, and the grouping of addresses by interface before a filter is applied. The
  addresses themselves come from \<^verbatim>\<open>if_addrs\<close>. The matcher is shown equal to the meaning of
  its patterns.
\<close>

section \<open>Patterns\<close>

text \<open>
  A star consumes at least one character and stops before a dot; the choices are tried
  from the shortest. Addresses are ASCII, so positions are characters.
\<close>

function matches_ip_filter :: "rstring \<Rightarrow> rstring \<Rightarrow> bool" where
  "matches_ip_filter pat address =
     (case split_once 42 pat of
        None \<Rightarrow> pat = address
      | Some (pre, rest) \<Rightarrow>
          (case strip_prefix pre address of
             None \<Rightarrow> False
           | Some remainder \<Rightarrow>
               list_ex (\<lambda>len. matches_ip_filter rest (drop len remainder))
                 [1..<Suc (length (takeWhile (\<lambda>c. c \<noteq> 46) remainder))]))"
  by pat_completeness auto

termination
  by (relation "measure (\<lambda>(pat, address). length pat)") (auto simp: split_once_iff)

declare matches_ip_filter.simps [simp del]

definition any_address_matches :: "ip_addr list \<Rightarrow> rstring list \<Rightarrow> bool" where
  "any_address_matches addresses patterns =
     list_ex (\<lambda>address. list_ex (\<lambda>pat. matches_ip_filter pat (show_ip address)) patterns) addresses"

record interface_filter =
  if_whitelist :: "rstring list option"
  if_blacklist :: "rstring list option"

definition is_ignored :: "interface_filter \<Rightarrow> ip_addr list \<Rightarrow> bool" where
  "is_ignored f addresses =
     (if (case if_whitelist f of Some w \<Rightarrow> \<not> any_address_matches addresses w | None \<Rightarrow> False) then True
      else case if_blacklist f of Some b \<Rightarrow> any_address_matches addresses b | None \<Rightarrow> False)"

section \<open>Interfaces\<close>

record if_addr =
  ia_name :: rstring
  ia_ip :: ip_addr
  ia_index :: "u32 option"
  ia_loopback :: bool

record if_entry =
  en_name :: rstring
  en_index :: "u32 option"
  en_addresses :: "ip_addr list"

record local_interface_v4 =
  l4_name :: rstring
  l4_address :: "32 word"

record local_interface_v6 =
  l6_name :: rstring
  l6_index :: u32

record local_interface_set =
  li_v4 :: "local_interface_v4 list"
  li_v6 :: "local_interface_v6 list"

fun add_interface :: "if_addr \<Rightarrow> if_entry list \<Rightarrow> if_entry list" where
  "add_interface i [] = [\<lparr>en_name = ia_name i, en_index = ia_index i, en_addresses = [ia_ip i]\<rparr>]"
| "add_interface i (e # es) =
     (if en_name e = ia_name i
      then e\<lparr>en_index := (case en_index e of None \<Rightarrow> ia_index i | Some x \<Rightarrow> Some x),
             en_addresses := en_addresses e @ [ia_ip i]\<rparr> # es
      else e # add_interface i es)"

definition by_name :: "if_addr list \<Rightarrow> if_entry list" where
  "by_name ifs = foldl (\<lambda>es i. if ia_loopback i then es else add_interface i es) [] ifs"

definition is_v6 :: "ip_addr \<Rightarrow> bool" where
  "is_v6 a = (case a of IpV4 x \<Rightarrow> False | IpV6 x \<Rightarrow> True)"

definition v4_of :: "if_entry \<Rightarrow> local_interface_v4 list" where
  "v4_of e = concat (map (\<lambda>a. case a of
       IpV4 x \<Rightarrow> [\<lparr>l4_name = en_name e, l4_address = x\<rparr>] | IpV6 x \<Rightarrow> []) (en_addresses e))"

definition v6_of :: "if_entry \<Rightarrow> local_interface_v6 list" where
  "v6_of e =
     (if list_ex is_v6 (en_addresses e)
      then case en_index e of Some index \<Rightarrow> [\<lparr>l6_name = en_name e, l6_index = index\<rparr>] | None \<Rightarrow> []
      else [])"

text \<open>\<open>ifs\<close> is the result of \<^verbatim>\<open>if_addrs::get_if_addrs\<close>, \<open>None\<close> its error.\<close>

definition local_interfaces :: "if_addr list option \<Rightarrow> interface_filter \<Rightarrow> local_interface_set option" where
  "local_interfaces ifs f =
     map_option (\<lambda>is.
       let kept = filter (\<lambda>e. \<not> is_ignored f (en_addresses e)) (by_name is)
       in \<lparr>li_v4 = concat (map v4_of kept), li_v6 = concat (map v6_of kept)\<rparr>) ifs"

definition local_interface_addresses :: "if_addr list option \<Rightarrow> interface_filter \<Rightarrow> 32 word list option" where
  "local_interface_addresses ifs f = map_option (\<lambda>l. map l4_address (li_v4 l)) (local_interfaces ifs f)"

section \<open>Reference descriptions\<close>

text \<open>The meaning of a pattern.\<close>

inductive glob :: "rstring \<Rightarrow> rstring \<Rightarrow> bool" where
  glob_end: "glob [] []"
| glob_char: "c \<noteq> 42 \<Longrightarrow> glob p s \<Longrightarrow> glob (c # p) (c # s)"
| glob_star: "w \<noteq> [] \<Longrightarrow> 46 \<notin> set w \<Longrightarrow> glob p s \<Longrightarrow> glob (42 # p) (w @ s)"

inductive_cases glob_NilE: "glob [] s"
inductive_cases glob_ConsE: "glob (c # p) s"

definition addresses_of :: "rstring \<Rightarrow> if_addr list \<Rightarrow> ip_addr list" where
  "addresses_of n ifs = map ia_ip (filter (\<lambda>i. \<not> ia_loopback i \<and> ia_name i = n) ifs)"

definition grouped :: "if_addr list \<Rightarrow> if_entry list \<Rightarrow> bool" where
  "grouped ifs es \<longleftrightarrow> distinct (map en_name es) \<and>
     set (map en_name es) = {n. addresses_of n ifs \<noteq> []} \<and>
     (\<forall>e \<in> set es. en_addresses e = addresses_of (en_name e) ifs)"

section \<open>The matcher is the meaning\<close>

lemma glob_literal: "42 \<notin> set q \<Longrightarrow> glob (q @ p) s \<longleftrightarrow> (\<exists>r. s = q @ r \<and> glob p r)"
proof (induction q arbitrary: s)
  case (Cons c q)
  then show ?case by (auto elim: glob_ConsE intro: glob_char)
qed simp

lemma glob_Nil [simp]: "glob [] s \<longleftrightarrow> s = []"
  by (auto elim: glob_NilE intro: glob_end)

lemma glob_star_iff: "glob (42 # p) s \<longleftrightarrow> (\<exists>w r. s = w @ r \<and> w \<noteq> [] \<and> 46 \<notin> set w \<and> glob p r)"
  by (rule iffI, erule glob_ConsE) (auto intro: glob_star)

lemma star_lengths:
  "(\<exists>w r. s = w @ r \<and> w \<noteq> [] \<and> 46 \<notin> set w \<and> P r) \<longleftrightarrow>
   list_ex (\<lambda>len. P (drop len s)) [1..<Suc (length (takeWhile (\<lambda>c. c \<noteq> 46) s))]"
proof
  assume "\<exists>w r. s = w @ r \<and> w \<noteq> [] \<and> 46 \<notin> set w \<and> P r"
  then obtain w r where w: "s = w @ r" "w \<noteq> []" "46 \<notin> set w" "P r" by blast
  then have "takeWhile (\<lambda>c. c \<noteq> 46) s = w @ takeWhile (\<lambda>c. c \<noteq> 46) r"
    by (auto simp: takeWhile_append)
  with w show "list_ex (\<lambda>len. P (drop len s)) [1..<Suc (length (takeWhile (\<lambda>c. c \<noteq> 46) s))]"
    by (auto simp: list_ex_iff Suc_le_eq intro!: bexI [of _ "length w"])
next
  assume "list_ex (\<lambda>len. P (drop len s)) [1..<Suc (length (takeWhile (\<lambda>c. c \<noteq> 46) s))]"
  then obtain n where n: "1 \<le> n" "n \<le> length (takeWhile (\<lambda>c. c \<noteq> 46) s)" "P (drop n s)"
    by (auto simp: list_ex_iff)
  have "take n s = take n (takeWhile (\<lambda>c. c \<noteq> 46) s)"
    using n(2) by (metis le_trans take_all_iff takeWhile_eq_take take_take min.absorb1)
  then have "46 \<notin> set (take n s)" by (auto dest!: in_set_takeD set_takeWhileD)
  moreover have "take n s \<noteq> []" using n(1,2) by (cases s) auto
  ultimately show "\<exists>w r. s = w @ r \<and> w \<noteq> [] \<and> 46 \<notin> set w \<and> P r"
    using n(3) by (intro exI [of _ "take n s"] exI [of _ "drop n s"]) simp
qed

lemma matches_glob: "matches_ip_filter pat address \<longleftrightarrow> glob pat address"
proof (induction pat address rule: matches_ip_filter.induct)
  case (1 pat address)
  show ?case
  proof (cases "split_once 42 pat")
    case None
    then have "42 \<notin> set pat" by (simp add: split_once_None)
    with None show ?thesis
      using glob_literal [of pat "[]" address] by (auto simp: matches_ip_filter.simps [of pat])
  next
    case (Some ab)
    then obtain pre rest where s: "split_once 42 pat = Some (pre, rest)" by (cases ab) auto
    then have pat: "pat = pre @ 42 # rest" "42 \<notin> set pre" by (simp_all add: split_once_iff)
    show ?thesis
    proof (cases "strip_prefix pre address")
      case None
      then have "\<nexists>r. address = pre @ r" using strip_prefix_iff [of pre address] by auto
      then have "\<not> glob pat address" using pat by (simp add: glob_literal)
      moreover have "\<not> matches_ip_filter pat address"
        using s None by (simp add: matches_ip_filter.simps [of pat address])
      ultimately show ?thesis by simp
    next
      case (Some remainder)
      then have address: "address = pre @ remainder" by (simp add: strip_prefix_iff)
      have "matches_ip_filter rest (drop len remainder) \<longleftrightarrow> glob rest (drop len remainder)"
        if "len \<in> set [1..<Suc (length (takeWhile (\<lambda>c. c \<noteq> 46) remainder))]" for len
        using "1.IH" [OF s refl Some that] .
      then have "matches_ip_filter pat address \<longleftrightarrow>
          list_ex (\<lambda>len. glob rest (drop len remainder)) [1..<Suc (length (takeWhile (\<lambda>c. c \<noteq> 46) remainder))]"
        using s Some by (subst matches_ip_filter.simps) (auto simp: list_ex_iff)
      also have "\<dots> \<longleftrightarrow> glob pat address"
        using pat address by (simp add: glob_literal glob_star_iff star_lengths)
      finally show ?thesis .
    qed
  qed
qed


section \<open>Grouping\<close>

lemma addresses_of_snoc:
  "addresses_of n (ifs @ [i]) = addresses_of n ifs @ (if \<not> ia_loopback i \<and> ia_name i = n then [ia_ip i] else [])"
  by (simp add: addresses_of_def)

lemma add_interface_names:
  "map en_name (add_interface i es) =
     map en_name es @ (if ia_name i \<in> set (map en_name es) then [] else [ia_name i])"
  by (induction es) auto

lemma add_interface_entries:
  "distinct (map en_name es) \<Longrightarrow> e \<in> set (add_interface i es) \<Longrightarrow>
   (if en_name e = ia_name i
    then (\<exists>e' \<in> set es. en_name e' = ia_name i \<and> en_addresses e = en_addresses e' @ [ia_ip i]) \<or>
         ia_name i \<notin> set (map en_name es) \<and> en_addresses e = [ia_ip i]
    else e \<in> set es)"
  by (induction es) (auto simp: image_iff split: if_splits)

lemma grouped_snoc:
  assumes "grouped ifs es"
  shows "grouped (ifs @ [i]) (if ia_loopback i then es else add_interface i es)"
proof (cases "ia_loopback i")
  case True
  then show ?thesis using assms by (simp add: grouped_def addresses_of_snoc)
next
  case False
  have new: "addresses_of (ia_name i) ifs = []" if "ia_name i \<notin> set (map en_name es)"
    using assms that by (auto simp: grouped_def)
  have "en_addresses e = addresses_of (en_name e) (ifs @ [i])" if "e \<in> set (add_interface i es)" for e
    using add_interface_entries [OF _ that] assms False new
    by (auto simp: grouped_def addresses_of_snoc split: if_splits)
  moreover have "set (map en_name (add_interface i es)) = {n. addresses_of n (ifs @ [i]) \<noteq> []}"
    using assms False unfolding add_interface_names grouped_def addresses_of_snoc by auto
  moreover have "distinct (map en_name (add_interface i es))"
    using assms unfolding add_interface_names grouped_def by auto
  ultimately show ?thesis using False by (simp add: grouped_def)
qed

lemma by_name_grouped: "grouped ifs (by_name ifs)"
proof (induction ifs rule: rev_induct)
  case Nil
  then show ?case by (simp add: grouped_def by_name_def addresses_of_def)
next
  case (snoc i ifs)
  from grouped_snoc [OF this, of i] show ?case by (simp add: by_name_def split: if_splits)
qed

lemma kept_entries:
  "(\<exists>e \<in> set (by_name ifs). \<not> is_ignored f (en_addresses e) \<and> x \<in> set (en_addresses e)) \<longleftrightarrow>
   (\<exists>i. i \<in> set ifs \<and> \<not> ia_loopback i \<and> ia_ip i = x \<and> \<not> is_ignored f (addresses_of (ia_name i) ifs))"
    (is "?entry \<longleftrightarrow> ?interface")
proof
  assume ?entry
  then obtain n where n: "\<not> is_ignored f (addresses_of n ifs)" "x \<in> set (addresses_of n ifs)"
    using by_name_grouped [of ifs] by (auto simp: grouped_def)
  from n(2) obtain i where "i \<in> set ifs" "\<not> ia_loopback i" "ia_name i = n" "ia_ip i = x"
    unfolding addresses_of_def by auto
  with n(1) show ?interface by blast
next
  assume ?interface
  then obtain i where i: "i \<in> set ifs" "\<not> ia_loopback i" "ia_ip i = x"
    "\<not> is_ignored f (addresses_of (ia_name i) ifs)" by blast
  then have x: "x \<in> set (addresses_of (ia_name i) ifs)" by (force simp: addresses_of_def)
  then have "ia_name i \<in> en_name ` set (by_name ifs)"
    using by_name_grouped [of ifs] by (auto simp: grouped_def)
  then obtain e where "e \<in> set (by_name ifs)" "en_name e = ia_name i" by (auto simp: image_iff)
  moreover from this have "en_addresses e = addresses_of (ia_name i) ifs"
    using by_name_grouped [of ifs] by (auto simp: grouped_def)
  ultimately show ?entry using i(4) x by (intro bexI [of _ e]) simp_all
qed

section \<open>Properties\<close>

text \<open>
  The recursive matcher decides the meaning of its patterns: every character stands for
  itself and every star for a nonempty run without a dot.
\<close>

theorem filter_matches_meaning: "matches_ip_filter pat address \<longleftrightarrow> glob pat address"
  by (rule matches_glob)

text \<open>
  The addresses used for discovery are exactly the IPv4 addresses of the interfaces
  other than loopback that the filter keeps, and a filter is applied to all addresses of
  an interface at once: an interface is dropped when no address of it is on the white
  list or any address of it is on the black list.
\<close>

theorem interface_addresses_exact:
  "map_option set (local_interface_addresses (Some ifs) f) =
     Some {a. \<exists>i. i \<in> set ifs \<and> \<not> ia_loopback i \<and> ia_ip i = IpV4 a \<and>
            \<not> is_ignored f (addresses_of (ia_name i) ifs)}"
proof -
  have "a \<in> l4_address ` set (v4_of e) \<longleftrightarrow> IpV4 a \<in> set (en_addresses e)" for a e
    by (force simp: v4_of_def split: ip_addr.splits)
  then have "l4_address ` set (concat (map v4_of (filter (\<lambda>e. \<not> is_ignored f (en_addresses e)) (by_name ifs)))) =
      {a. \<exists>e \<in> set (by_name ifs). \<not> is_ignored f (en_addresses e) \<and> IpV4 a \<in> set (en_addresses e)}"
    by (auto simp: image_UN)
  then show ?thesis
    by (simp add: local_interface_addresses_def local_interfaces_def Let_def kept_entries)
qed

end
