(* ===== verification/FB_Multicast.thy ===== *)
theory FB_Multicast
  imports FB_Interface FB_Model
begin

text \<open>
  Multicast announcements (\<^verbatim>\<open>packages/core/src/multicast\<close>): one socket per usable interface,
  the announcement burst, and the loop that reads the datagrams of a socket. The sockets
  of the system are inputs: which interfaces can be bound, which sends fail, what is
  received and when the discovery is stopped.
\<close>

section \<open>Devices and messages\<close>

definition DEFAULT_MULTICAST_GROUP :: "32 word" where "DEFAULT_MULTICAST_GROUP = 3758096551"
definition DEFAULT_MULTICAST_GROUP_V6 :: "128 word" where
  "DEFAULT_MULTICAST_GROUP_V6 = 0xff1200000000000000000000fd3ae420"
definition DEFAULT_PORT :: u16 where "DEFAULT_PORT = 53317"
definition ANNOUNCE_DELAYS :: "nat list" where "ANNOUNCE_DELAYS = [100, 500, 2000]"
definition RECEIVE_BUFFER_SIZE :: nat where "RECEIVE_BUFFER_SIZE = 65536"
definition MAX_CONSECUTIVE_RECEIVE_ERRORS :: nat where "MAX_CONSECUTIVE_RECEIVE_ERRORS = 10"

record multicast_device =
  md_alias :: rstring
  md_version :: rstring
  md_device_model :: "rstring option"
  md_device_type :: "device_type option"
  md_fingerprint :: rstring
  md_port :: u16
  md_protocol :: protocol_type
  md_download :: bool

definition to_message :: "multicast_device \<Rightarrow> multicast_message" where
  "to_message d =
     \<lparr>mm_alias = md_alias d, mm_version = md_version d, mm_device_model = md_device_model d,
      mm_device_type = md_device_type d, mm_fingerprint = md_fingerprint d, mm_port = md_port d,
      mm_protocol = md_protocol d, mm_download = md_download d\<rparr>"

text \<open>The message on the wire carries the legacy \<^verbatim>\<open>announce\<close> flag of protocol v2.\<close>

record announced_message =
  am_message :: multicast_message
  am_announce :: bool

datatype multicast_event = MulticastDiscovered ip_addr "u32 option" multicast_message

section \<open>Sockets\<close>

datatype socket_interface = OnAddress "32 word" | OnIndex u32

record multicast_socket =
  ms_interface :: socket_interface
  ms_target :: socket_addr

text \<open>\<open>binds\<close> says which interfaces can be bound and joined; the others are skipped.\<close>

definition bind_multicast_sockets ::
  "(socket_interface \<Rightarrow> bool) \<Rightarrow> 32 word \<Rightarrow> 128 word option \<Rightarrow> u16 \<Rightarrow> if_addr list option \<Rightarrow>
   interface_filter \<Rightarrow> multicast_socket list option"
where
  "bind_multicast_sockets binds grp grp_v6 port ifs f =
     map_option (\<lambda>l.
       map (\<lambda>i. \<lparr>ms_interface = OnAddress (l4_address i), ms_target = SockV4 grp port\<rparr>)
         (filter (\<lambda>i. binds (OnAddress (l4_address i))) (li_v4 l)) @
       (case grp_v6 of
          None \<Rightarrow> []
        | Some g6 \<Rightarrow>
            map (\<lambda>i. \<lparr>ms_interface = OnIndex (l6_index i), ms_target = SockV6 g6 port (l6_index i)\<rparr>)
              (filter (\<lambda>i. binds (OnIndex (l6_index i))) (li_v6 l)))) (local_interfaces ifs f)"

text \<open>\<^verbatim>\<open>multicast::start\<close> fails without a socket.\<close>

definition multicast_start :: "multicast_socket list option \<Rightarrow> multicast_socket list option" where
  "multicast_start socks = (case socks of Some (s # ss) \<Rightarrow> Some (s # ss) | _ \<Rightarrow> None)"

section \<open>Announcing\<close>

text \<open>
  One announcement: every socket is tried, whatever happens on the others. The result is
  what went out; \<open>sends\<close> says on which sockets sending works.
\<close>

definition multicast_send ::
  "(multicast_socket \<Rightarrow> bool) \<Rightarrow> multicast_device \<Rightarrow> multicast_socket list \<Rightarrow> (socket_addr \<times> announced_message) list"
where
  "multicast_send sends device socks =
     map (\<lambda>s. (ms_target s, \<lparr>am_message = to_message device, am_announce = True\<rparr>)) (filter sends socks)"

text \<open>
  The burst: before every delay ends the discovery may be stopped; \<open>stops\<close> says when.
\<close>

fun announce_burst :: "bool list \<Rightarrow> nat list \<Rightarrow> 'a list \<Rightarrow> 'a list list" where
  "announce_burst stops [] out = []"
| "announce_burst (True # stops) (d # ds) out = []"
| "announce_burst (False # stops) (d # ds) out = out # announce_burst stops ds out"
| "announce_burst [] (d # ds) out = out # announce_burst [] ds out"

section \<open>Receiving\<close>

datatype recv_event = Datagram "byte list" socket_addr | RecvFailed | StopRequested

datatype loop_end = Stopped | GaveUp | ReceiverGone | StillRunning

definition scope_of :: "socket_addr \<Rightarrow> u32 option" where
  "scope_of source =
     (case source of SockV6 ip port scope \<Rightarrow> if scope \<noteq> 0 then Some scope else None | _ \<Rightarrow> None)"

definition received_event ::
  "(byte list \<Rightarrow> multicast_message option) \<Rightarrow> rstring \<Rightarrow> byte list \<Rightarrow> socket_addr \<Rightarrow> multicast_event option"
where
  "received_event decode own bytes source =
     (case decode (take RECEIVE_BUFFER_SIZE bytes) of
        None \<Rightarrow> None
      | Some message \<Rightarrow>
          if mm_fingerprint message = own then None
          else Some (MulticastDiscovered (socket_ip source) (scope_of source) message))"

text \<open>
  \<open>room\<close> is how many events the receiver takes before it is dropped, if it is. The result
  is what was emitted and how the loop ended.
\<close>

fun receive_loop ::
  "(byte list \<Rightarrow> multicast_message option) \<Rightarrow> rstring \<Rightarrow> nat option \<Rightarrow> nat \<Rightarrow> recv_event list \<Rightarrow>
   multicast_event list \<times> loop_end"
where
  "receive_loop decode own room errors [] = ([], StillRunning)"
| "receive_loop decode own room errors (StopRequested # evs) = ([], Stopped)"
| "receive_loop decode own room errors (RecvFailed # evs) =
     (if MAX_CONSECUTIVE_RECEIVE_ERRORS \<le> Suc errors then ([], GaveUp)
      else receive_loop decode own room (Suc errors) evs)"
| "receive_loop decode own room errors (Datagram bytes source # evs) =
     (case received_event decode own bytes source of
        None \<Rightarrow> receive_loop decode own room 0 evs
      | Some event \<Rightarrow>
          if room = Some 0 then ([], ReceiverGone)
          else let (out, fin) = receive_loop decode own (map_option (\<lambda>n. n - 1) room) 0 evs
               in (event # out, fin))"

section \<open>Reference descriptions\<close>

fun datagram_event :: "(byte list \<Rightarrow> multicast_message option) \<Rightarrow> rstring \<Rightarrow> recv_event \<Rightarrow> multicast_event list" where
  "datagram_event decode own (Datagram bytes source) =
     (case received_event decode own bytes source of None \<Rightarrow> [] | Some e \<Rightarrow> [e])"
| "datagram_event decode own e = []"

text \<open>No stop and no run of ten failures, counted from \<open>errors\<close>.\<close>

fun healthy :: "nat \<Rightarrow> recv_event list \<Rightarrow> bool" where
  "healthy errors [] = True"
| "healthy errors (StopRequested # evs) = False"
| "healthy errors (RecvFailed # evs) = (Suc errors < MAX_CONSECUTIVE_RECEIVE_ERRORS \<and> healthy (Suc errors) evs)"
| "healthy errors (Datagram bytes source # evs) = healthy 0 evs"

section \<open>Lemmas\<close>

lemma receive_loop_healthy:
  "healthy errors evs \<Longrightarrow>
   receive_loop decode own None errors evs = (concat (map (datagram_event decode own) evs), StillRunning)"
  by (induction errors evs rule: healthy.induct) (auto split: option.split)

lemma receive_loop_sound:
  "e \<in> set (fst (receive_loop decode own room errors evs)) \<Longrightarrow>
   \<exists>bytes source m. Datagram bytes source \<in> set evs \<and> decode (take RECEIVE_BUFFER_SIZE bytes) = Some m \<and>
     mm_fingerprint m \<noteq> own \<and> e = MulticastDiscovered (socket_ip source) (scope_of source) m"
proof (induction decode own room errors evs rule: receive_loop.induct)
  case (4 decode own room errors bytes source evs)
  then show ?case
    by (auto simp: received_event_def split: option.splits if_splits prod.splits)
qed (auto split: if_splits)

lemma receive_loop_unhealthy:
  "\<not> healthy errors evs \<Longrightarrow> StopRequested \<notin> set evs \<Longrightarrow>
   snd (receive_loop decode own None errors evs) = GaveUp"
  by (induction errors evs rule: healthy.induct) (auto split: option.split prod.split)

lemma prefix_replicate_le: "prefix (replicate m x) ys \<Longrightarrow> n \<le> m \<Longrightarrow> prefix (replicate n x) ys"
  by (metis le_Suc_ex prefixI prefix_order.trans replicate_add)

lemma healthy_iff:
  "errors < 10 \<Longrightarrow>
   healthy errors evs \<longleftrightarrow> StopRequested \<notin> set evs \<and> \<not> prefix (replicate (10 - errors) RecvFailed) evs \<and>
     \<not> sublist (replicate 10 RecvFailed) evs"
proof (induction errors evs rule: healthy.induct)
  case (3 errors evs)
  have split: "10 - errors = Suc (9 - errors)" using "3.prems" by simp
  have ten: "replicate 10 RecvFailed = RecvFailed # replicate 9 RecvFailed" by (simp add: numeral_eq_Suc)
  show ?case
  proof (cases "Suc errors < 10")
    case True
    then show ?thesis
      using "3.IH" [OF True] prefix_replicate_le [of 9 RecvFailed evs "9 - errors"]
      by (auto simp: sublist_Cons_right split ten MAX_CONSECUTIVE_RECEIVE_ERRORS_def)
  next
    case False
    then have "errors = 9" using "3.prems" by simp
    then show ?thesis by (simp add: MAX_CONSECUTIVE_RECEIVE_ERRORS_def)
  qed
next
  case (4 errors bytes source evs)
  have "10 - errors = Suc (9 - errors)" using "4.prems" by simp
  then show ?case
    using "4.IH" prefix_replicate_le [of 10] by (auto simp: sublist_Cons_right numeral_eq_Suc)
qed (auto simp: Suc_diff_le)

section \<open>Properties\<close>

text \<open>
  While discovery is not stopped and its receiver lives, the loop emits exactly the
  announcements of other devices that parse, in order and with the scope they came with,
  and never its own; it goes on through failures until ten follow each other without a
  datagram in between, and gives up exactly then.
\<close>

theorem receive_loop_faithful:
  assumes "StopRequested \<notin> set evs"
  shows "if sublist (replicate 10 RecvFailed) evs
    then snd (receive_loop decode own None 0 evs) = GaveUp
    else receive_loop decode own None 0 evs = (concat (map (datagram_event decode own) evs), StillRunning)"
proof -
  have "prefix (replicate 10 RecvFailed) evs \<Longrightarrow> sublist (replicate 10 RecvFailed) evs"
    by (rule prefix_imp_sublist)
  then have "healthy 0 evs \<longleftrightarrow> \<not> sublist (replicate 10 RecvFailed) evs"
    using healthy_iff [of 0 evs] assms by auto
  then show ?thesis
    using assms receive_loop_healthy [of 0 evs decode own] receive_loop_unhealthy [of 0 evs decode own]
    by simp
qed

theorem receive_loop_faithful_witness:
  "snd (receive_loop (\<lambda>_. None) [] None 0 (Datagram [] (SockV4 1 1) # replicate 10 RecvFailed)) = GaveUp"
  using receive_loop_faithful [of "Datagram [] (SockV4 1 1) # replicate 10 RecvFailed" "\<lambda>_. None" "[]"]
  by (simp add: sublist_Cons_right)

text \<open>
  Whatever the sockets do, an event that reaches discovery stands for a datagram that
  was received and parsed, with the address it came from, and never carries the
  fingerprint of this device.
\<close>

theorem own_announcements_ignored:
  "list_all (\<lambda>e. case e of MulticastDiscovered ip scope m \<Rightarrow>
     mm_fingerprint m \<noteq> own \<and>
     (\<exists>bytes source. Datagram bytes source \<in> set evs \<and> decode (take RECEIVE_BUFFER_SIZE bytes) = Some m \<and>
        ip = socket_ip source \<and> scope = scope_of source))
   (fst (receive_loop decode own room errors evs))"
  unfolding list_all_iff by (auto dest!: receive_loop_sound split: multicast_event.split)

end
