(* ===== verification/FB_Url.thy ===== *)
theory FB_Url
  imports FB_IpText FB_Model
begin

text \<open>
  Addresses in URLs (\<^verbatim>\<open>packages/core/src/http/client/scoped_host.rs\<close> and \<^verbatim>\<open>url.rs\<close>). A URL cannot
  carry the scope of a link-local address, so such a host is encoded as a synthetic name
  which the resolver of the client decodes again.
\<close>

section \<open>Scoped hosts\<close>

definition SUFFIX :: rstring where
  "SUFFIX = lit ''.scoped.localsend.internal''"

text \<open>\<^verbatim>\<open>Ipv6Addr::from_str\<close>, and \<^verbatim>\<open>str::replace\<close> for single characters.\<close>

definition parse_ipv6 :: "rstring \<Rightarrow> 128 word option" where
  "parse_ipv6 s =
     (case read_ipv6_addr s of
        Some (segs, rest) \<Rightarrow> if rest = [] then Some (of_segments segs) else None
      | None \<Rightarrow> None)"

definition replace_char :: "rchar \<Rightarrow> rchar \<Rightarrow> rstring \<Rightarrow> rstring" where
  "replace_char a b s = map (\<lambda>c. if c = a then b else c) s"

definition scoped_encode :: "rstring \<Rightarrow> rstring option" where
  "scoped_encode host =
     Option.bind (split_once 37 host) (\<lambda>(address, scope).
     Option.bind (parse_ipv6 address) (\<lambda>a.
     Option.bind (parse_unsigned 32 scope) (\<lambda>s.
     if 46 \<in> set (show_ipv6 a) then None
     else Some (replace_char 58 45 (show_ipv6 a) @ lit ''s'' @ show_nat s @ SUFFIX))))"

definition scoped_decode :: "rstring \<Rightarrow> socket_addr option" where
  "scoped_decode name =
     Option.bind (strip_suffix SUFFIX name) (\<lambda>encoded.
     Option.bind (split_once 115 encoded) (\<lambda>(address, scope).
     Option.bind (parse_ipv6 (replace_char 45 58 address)) (\<lambda>a.
     Option.bind (parse_unsigned 32 scope) (\<lambda>s.
     Some (SockV6 a 0 (of_nat s))))))"

section \<open>Target URLs\<close>

datatype api_version = ApiV2 | ApiV3

record target_url =
  tu_version :: api_version
  tu_protocol :: rstring
  tu_host :: rstring
  tu_port :: u16
  tu_path :: rstring
  tu_params :: "(rstring \<times> rstring) list"

definition url_host :: "rstring \<Rightarrow> rstring" where
  "url_host host =
     (case scoped_encode host of
        Some encoded \<Rightarrow> encoded
      | None \<Rightarrow> if 58 \<in> set host then lit ''['' @ host @ lit '']'' else host)"

definition query_string :: "(rstring \<times> rstring) list \<Rightarrow> rstring" where
  "query_string params = join_with 38 (map (\<lambda>(k, v). k @ lit ''='' @ v) params)"

definition target_url_to_string :: "target_url \<Rightarrow> rstring" where
  "target_url_to_string u =
     (let base = tu_protocol u @ lit ''://'' @ url_host (tu_host u) @ lit '':'' @ show_nat (unat (tu_port u)) @
            lit ''/api/localsend/'' @ (case tu_version u of ApiV2 \<Rightarrow> lit ''v2'' | ApiV3 \<Rightarrow> lit ''v3'') @ tu_path u
      in if tu_params u = [] then base else base @ lit ''?'' @ query_string (tu_params u))"

section \<open>Lemmas\<close>

lemma digits_value_show: "digits_value (show_nat n) = n"
proof -
  have "foldl (\<lambda>n c. 10 * n + (c - 48)) 0 (show_nat n) = n"
  proof (induction n rule: show_nat.induct)
    case (1 n)
    then show ?case by (auto simp: show_nat.simps [of n])
  qed
  then show ?thesis by (simp add: digits_value_def)
qed

lemma parse_show_nat: "n < 2 ^ w \<Longrightarrow> parse_unsigned w (show_nat n) = Some n"
proof -
  assume "n < 2 ^ w"
  moreover have "hd (show_nat n) \<noteq> 43"
    using show_nat_digits [of "hd (show_nat n)" n] by auto
  moreover have "\<forall>c \<in> set (show_nat n). is_ascii_digit c"
    using show_nat_digits [of _ n] by (auto simp: is_ascii_digit_def)
  moreover have "(case show_nat n of [] \<Rightarrow> [] | c # cs \<Rightarrow> if c = 43 then cs else show_nat n) = show_nat n"
    using \<open>hd (show_nat n) \<noteq> 43\<close> by (cases "show_nat n") simp_all
  ultimately show ?thesis
    by (simp add: parse_unsigned_def digits_value_show not_le)
qed

lemma show_ipv6_chars: "c \<in> set (show_ipv6 a) \<Longrightarrow> 46 \<le> c \<and> c \<le> 58 \<or> 97 \<le> c \<and> c \<le> 102"
  using show_ip_chars [of c "IpV6 a"] by simp

lemma parse_show_ipv6: "parse_ipv6 (show_ipv6 a) = Some a"
  by (simp add: parse_ipv6_def read_show_ipv6)

lemma replace_char_back: "b \<notin> set s \<Longrightarrow> replace_char b a (replace_char a b s) = s"
  by (induction s) (auto simp: replace_char_def)


lemma scoped_decode_name:
  assumes "46 \<notin> set (show_ipv6 a)" "s < 2 ^ 32"
  shows "scoped_decode (replace_char 58 45 (show_ipv6 a) @ lit ''s'' @ show_nat s @ SUFFIX) = Some (SockV6 a 0 (of_nat s))"
proof -
  let ?addr = "replace_char 58 45 (show_ipv6 a)"
  have "strip_suffix SUFFIX (?addr @ lit ''s'' @ show_nat s @ SUFFIX) = Some (?addr @ lit ''s'' @ show_nat s)"
    by (simp add: strip_suffix_iff)
  moreover have "split_once 115 (?addr @ lit ''s'' @ show_nat s) = Some (?addr, show_nat s)"
    using show_ipv6_chars [of _ a] by (force simp: split_once_iff lit_def replace_char_def)
  moreover have "replace_char 45 58 ?addr = show_ipv6 a"
    using show_ipv6_chars [of 45 a] by (intro replace_char_back) auto
  ultimately show ?thesis
    using parse_show_nat [OF assms(2)] by (simp add: scoped_decode_def parse_show_ipv6)
qed

section \<open>Properties\<close>

text \<open>
  Link-local peers stay reachable: the text under which a peer with an IPv6 address and
  a scope is known is encoded into a host name that the resolver turns back into exactly
  that address and scope, for every address other than the IPv4-mapped ones; and every
  name the encoder produces is decodable.
\<close>

theorem scoped_host_roundtrip:
  "(if take 6 (ipv6_segments a) = [0, 0, 0, 0, 0, 65535]
    then scoped_encode (peer_ip_to_string \<lparr>pip_ip = IpV6 a, pip_scope = Some s\<rparr>) = None
    else Option.bind (scoped_encode (peer_ip_to_string \<lparr>pip_ip = IpV6 a, pip_scope = Some s\<rparr>)) scoped_decode =
      Some (SockV6 a 0 s)) \<and>
   (case scoped_encode host of None \<Rightarrow> True | Some name \<Rightarrow> scoped_decode name \<noteq> None)"
proof
  let ?host = "peer_ip_to_string \<lparr>pip_ip = IpV6 a, pip_scope = Some s\<rparr>"
  have s: "unat s < 2 ^ 32" using unsigned_less [of s, where ?'a = nat] by simp
  have "split_once 37 ?host = Some (show_ipv6 a, show_nat (unat s))"
    using show_ipv6_chars [of 37 a] by (auto simp: split_once_iff peer_ip_to_string_def lit_def)
  then have enc: "scoped_encode ?host = (if 46 \<in> set (show_ipv6 a) then None
      else Some (replace_char 58 45 (show_ipv6 a) @ lit ''s'' @ show_nat (unat s) @ SUFFIX))"
    using parse_show_nat [OF s] by (simp add: scoped_encode_def parse_show_ipv6)
  show "if take 6 (ipv6_segments a) = [0, 0, 0, 0, 0, 65535] then scoped_encode ?host = None
    else Option.bind (scoped_encode ?host) scoped_decode = Some (SockV6 a 0 s)"
  proof (cases "take 6 (ipv6_segments a) = [0, 0, 0, 0, 0, 65535]")
    case True
    then have "46 \<in> set (show_ipv6 a)"
      by (simp add: show_ipv6_def Let_def show_ipv4_def ipv4_octets_def split: prod.split)
    then show ?thesis using True enc by simp
  next
    case False
    then have "46 \<notin> set (show_ipv6 a)" by (rule show_ipv6_no_dot)
    then show ?thesis using False enc scoped_decode_name [OF _ s] by simp
  qed
  show "case scoped_encode host of None \<Rightarrow> True | Some name \<Rightarrow> scoped_decode name \<noteq> None"
  proof (cases "scoped_encode host")
    case (Some name)
    then obtain b n where "46 \<notin> set (show_ipv6 b)" "n < 2 ^ 32"
      "name = replace_char 58 45 (show_ipv6 b) @ lit ''s'' @ show_nat n @ SUFFIX"
      by (auto simp: scoped_encode_def bind_eq_Some_conv parse_unsigned_def Let_def not_le split: if_splits)
    then show ?thesis using Some scoped_decode_name by simp
  qed simp
qed

end
