(* ===== verification/FB_Client.thy ===== *)
theory FB_Client
  imports FB_Url FB_Pin
begin

text \<open>
  The HTTP client (\<^verbatim>\<open>packages/core/src/http/client\<close>: \<^verbatim>\<open>mod.rs\<close>, \<^verbatim>\<open>server_cert_verifier.rs\<close>, \<^verbatim>\<open>v2.rs\<close>
  and \<^verbatim>\<open>v3.rs\<close>). The request goes out through \<^verbatim>\<open>reqwest\<close>, which is the parameter \<open>net\<close>: it maps a
  request to the response, or to nothing when sending fails. What is relied on of its TLS layer
  is the hypothesis \<open>tls_checked\<close>. Parsers of PEM, X.509 and JSON are the record \<open>client_ext\<close>.
\<close>

section \<open>External functions\<close>

record client_ext =
  cx_cert_pem :: "rstring \<Rightarrow> byte list option"
  cx_key_pem :: "rstring \<Rightarrow> byte list option"
  cx_root_ok :: "byte list \<Rightarrow> bool"
  cx_pair_ok :: "byte list \<Rightarrow> byte list \<Rightarrow> bool"
  cx_build_ok :: bool
  cx_parse_der :: "byte list \<Rightarrow> parsed_cert option"
  cx_parse_key :: "rstring \<Rightarrow> byte list option"
  cx_text :: "byte list \<Rightarrow> rstring"
  cx_error_message :: "rstring \<Rightarrow> rstring option"
  cx_register :: "byte list \<Rightarrow> register_response_dto_v2 option"
  cx_prepare_upload :: "byte list \<Rightarrow> prepare_upload_response_dto_v2 option"
  cx_info :: "byte list \<Rightarrow> info_response_dto_v2 option"
  cx_prepare_download :: "byte list \<Rightarrow> prepare_download_response_dto_v2 option"
  cx_register_v3 :: "byte list \<Rightarrow> register_response_dto option"
  cx_prepare_upload_v3 :: "byte list \<Rightarrow> prepare_upload_response_dto option"
  cx_nonce :: "byte list \<Rightarrow> rstring option"

section \<open>Certificates\<close>

text \<open>The verifier that \<^verbatim>\<open>rustls\<close> calls during the handshake.\<close>

record pinned_verifier =
  pv_expected_fingerprint :: "rstring option"

datatype client_error =
    StatusCode u16 "rstring option"
  | Reqwest
  | JsonError
  | IoError
  | OtherError
  | Cancelled

definition pinned_verifier_new ::
  "client_ext \<Rightarrow> rstring \<Rightarrow> rstring option \<Rightarrow> (pinned_verifier, client_error) result"
where
  "pinned_verifier_new K cert expected =
     and_then (ok_or (cx_cert_pem K cert) OtherError) (\<lambda>der.
     and_then (ensure (cx_root_ok K der) OtherError) (\<lambda>_.
     Inr \<lparr>pv_expected_fingerprint = map_option to_ascii_uppercase expected\<rparr>))"

datatype rejected = NotValid cert_error | FingerprintMismatch rstring rstring

definition verify_server_cert ::
  "ext \<Rightarrow> client_ext \<Rightarrow> pinned_verifier \<Rightarrow> byte list \<Rightarrow> (unit, rejected) result"
where
  "verify_server_cert X K v der =
     and_then (map_err NotValid (verify_cert_from_der (cx_parse_der K) (cx_parse_key K) der None)) (\<lambda>_.
     case pv_expected_fingerprint v of
       None \<Rightarrow> Inr ()
     | Some expected \<Rightarrow>
         let actual = fingerprint_from_cert_der (ext_sha256 X) der
         in ensure (actual = expected) (FingerprintMismatch expected actual))"

text \<open>A client, with the verifier and the certificate it presents itself.\<close>

record http_client =
  cl_verifier :: "pinned_verifier option"
  cl_identity :: "byte list option"
  cl_timeout :: "nat option"

definition create_reqwest_client ::
  "client_ext \<Rightarrow> rstring \<Rightarrow> rstring \<Rightarrow> rstring option \<Rightarrow> nat option \<Rightarrow> (http_client, client_error) result"
where
  "create_reqwest_client K private_key cert expected timeout =
     and_then (ok_or (cx_cert_pem K cert) OtherError) (\<lambda>der.
     and_then (ok_or (cx_key_pem K private_key) OtherError) (\<lambda>key.
     and_then (pinned_verifier_new K cert expected) (\<lambda>v.
     and_then (ensure (cx_pair_ok K der key) OtherError) (\<lambda>_.
     and_then (ensure (cx_build_ok K) Reqwest) (\<lambda>_.
     Inr \<lparr>cl_verifier = Some v, cl_identity = Some der, cl_timeout = timeout\<rparr>)))))"

definition try_new_without_cert :: "client_ext \<Rightarrow> (http_client, client_error) result" where
  "try_new_without_cert K =
     and_then (ensure (cx_build_ok K) Reqwest) (\<lambda>_.
     Inr \<lparr>cl_verifier = None, cl_identity = None, cl_timeout = None\<rparr>)"

text \<open>\<open>lookup\<close> is the resolver of the system.\<close>

definition resolve_host :: "(rstring \<Rightarrow> socket_addr list option) \<Rightarrow> rstring \<Rightarrow> socket_addr list option" where
  "resolve_host lookup name = (case scoped_decode name of Some addr \<Rightarrow> Some [addr] | None \<Rightarrow> lookup name)"

section \<open>Requests and responses\<close>

datatype payload =
    NoPayload
  | RegisterPayload register_dto_v2
  | PrepareUploadPayload prepare_upload_request_dto_v2
  | RegisterV3Payload register_dto
  | PrepareUploadV3Payload prepare_upload_request_dto
  | NoncePayload rstring
  | ContentPayload "byte list list"

record client_request =
  cq_method :: rstring
  cq_target :: target_url
  cq_headers :: "(rstring \<times> rstring) list"
  cq_payload :: payload

text \<open>
  \<open>cp_tls\<close> is the TLS information of the connection with the certificate of the peer, \<open>cp_chunks\<close>
  what the body delivers, and \<open>cp_complete\<close> whether it ends without an error.
\<close>

record client_response =
  cp_status :: u16
  cp_tls :: "byte list option option"
  cp_remote :: "socket_addr option"
  cp_chunks :: "byte list list"
  cp_complete :: bool

type_synonym network = "client_request \<Rightarrow> client_response option"

definition response_bytes :: "client_response \<Rightarrow> byte list option" where
  "response_bytes res = (if cp_complete res then Some (concat (cp_chunks res)) else None)"

definition response_json :: "(byte list \<Rightarrow> 'a option) \<Rightarrow> client_response \<Rightarrow> ('a, client_error) result" where
  "response_json decode res = ok_or (Option.bind (response_bytes res) decode) Reqwest"

definition into_error :: "client_ext \<Rightarrow> client_response \<Rightarrow> client_error" where
  "into_error K res =
     (let body = (case response_bytes res of Some bs \<Rightarrow> cx_text K bs | None \<Rightarrow> []);
          message = (case cx_error_message K body of Some m \<Rightarrow> m | None \<Rightarrow> body)
      in StatusCode (cp_status res) (if message = [] then None else Some message))"

definition peer_certificate :: "client_response \<Rightarrow> (byte list, client_error) result" where
  "peer_certificate res =
     and_then (ok_or (cp_tls res) OtherError) (\<lambda>tls. ok_or tls OtherError)"

definition verify_cert_from_res ::
  "ext \<Rightarrow> client_ext \<Rightarrow> client_response \<Rightarrow> rstring option \<Rightarrow> (rstring, client_error) result"
where
  "verify_cert_from_res X K res public_key =
     and_then (peer_certificate res) (\<lambda>cert.
     and_then (map_err (\<lambda>_. OtherError) (verify_cert_from_der (cx_parse_der K) (cx_parse_key K) cert public_key)) (\<lambda>_.
     case public_key of Some key \<Rightarrow> Inr key | None \<Rightarrow> ok_or (ext_public_key X cert) OtherError))"

definition cert_fingerprint_from_res :: "ext \<Rightarrow> client_response \<Rightarrow> (rstring, client_error) result" where
  "cert_fingerprint_from_res X res =
     and_then (peer_certificate res) (\<lambda>cert. Inr (fingerprint_from_cert_der (ext_sha256 X) cert))"

record 'b result_with_public_key =
  rk_public_key :: "rstring option"
  rk_cert_fingerprint :: "rstring option"
  rk_body :: 'b

fun with_progress :: "u64 \<Rightarrow> byte list list \<Rightarrow> (byte list \<times> u64) list" where
  "with_progress sent [] = []"
| "with_progress sent (chunk # chunks) =
     (let sent' = sent + of_nat (length chunk) in (chunk, sent') # with_progress sent' chunks)"

definition upload_body :: "nat option \<Rightarrow> file_content \<Rightarrow> (byte list \<times> u64) list" where
  "upload_body receiver content = with_progress 0 (into_receiver receiver content)"

definition request_url ::
  "api_version \<Rightarrow> protocol_type \<Rightarrow> rstring \<Rightarrow> u16 \<Rightarrow> string \<Rightarrow> (rstring \<times> rstring) list \<Rightarrow> target_url"
where
  "request_url version protocol host port path params =
     \<lparr>tu_version = version, tu_protocol = protocol_as_str protocol, tu_host = host, tu_port = port,
      tu_path = lit path, tu_params = params\<rparr>"

definition post_request :: "target_url \<Rightarrow> (rstring \<times> rstring) list \<Rightarrow> payload \<Rightarrow> client_request" where
  "post_request url headers body = \<lparr>cq_method = lit ''POST'', cq_target = url, cq_headers = headers, cq_payload = body\<rparr>"

definition get_request :: "target_url \<Rightarrow> client_request" where
  "get_request url = \<lparr>cq_method = lit ''GET'', cq_target = url, cq_headers = [], cq_payload = NoPayload\<rparr>"

definition json_content :: "(rstring \<times> rstring) list" where
  "json_content = [(lit ''Content-Type'', lit ''application/json'')]"

text \<open>The identity of the peer that answered: nothing without encryption.\<close>

definition peer_identity ::
  "ext \<Rightarrow> client_ext \<Rightarrow> protocol_type \<Rightarrow> client_response \<Rightarrow> (rstring option \<times> rstring option, client_error) result"
where
  "peer_identity X K protocol res =
     (case protocol of
        Https \<Rightarrow>
          and_then (verify_cert_from_res X K res None) (\<lambda>key.
          and_then (cert_fingerprint_from_res X res) (\<lambda>fp.
          Inr (Some key, Some fp)))
      | Http \<Rightarrow> Inr (None, None))"

definition verify_peer ::
  "ext \<Rightarrow> client_ext \<Rightarrow> protocol_type \<Rightarrow> client_response \<Rightarrow> rstring option \<Rightarrow> (unit, client_error) result"
where
  "verify_peer X K protocol res public_key =
     (if protocol = Https then and_then (verify_cert_from_res X K res public_key) (\<lambda>_. Inr ()) else Inr ())"

section \<open>Protocol v2\<close>

definition register_call ::
  "ext \<Rightarrow> client_ext \<Rightarrow> network \<Rightarrow> protocol_type \<Rightarrow> rstring \<Rightarrow> u16 \<Rightarrow> register_dto_v2 \<Rightarrow>
   (register_response_dto_v2 result_with_public_key, client_error) result"
where
  "register_call X K net protocol ip port dto =
     and_then (ok_or (net (post_request (request_url ApiV2 protocol ip port ''/register'' []) json_content
       (RegisterPayload dto))) Reqwest) (\<lambda>res.
     if cp_status res \<noteq> 200 then Inl (into_error K res)
     else
       and_then (peer_identity X K protocol res) (\<lambda>(key, fp).
       and_then (response_json (cx_register K) res) (\<lambda>body.
       Inr \<lparr>rk_public_key = key, rk_cert_fingerprint = fp, rk_body = body\<rparr>)))"

text \<open>\<open>cancelled\<close>: the cancellation wins against the response.\<close>

definition prepare_upload_call ::
  "ext \<Rightarrow> client_ext \<Rightarrow> network \<Rightarrow> bool \<Rightarrow> protocol_type \<Rightarrow> rstring \<Rightarrow> u16 \<Rightarrow> rstring option \<Rightarrow>
   prepare_upload_request_dto_v2 \<Rightarrow> rstring option \<Rightarrow> (prepare_upload_result_v2, client_error) result"
where
  "prepare_upload_call X K net cancelled protocol ip port public_key dto pin =
     (let params = (case pin of Some p \<Rightarrow> [(lit ''pin'', p)] | None \<Rightarrow> [])
      in if cancelled then Inl Cancelled
         else
           and_then (ok_or (net (post_request (request_url ApiV2 protocol ip port ''/prepare-upload'' params)
             json_content (PrepareUploadPayload dto))) Reqwest) (\<lambda>res.
           and_then (verify_peer X K protocol res public_key) (\<lambda>_.
           if 400 \<le> cp_status res then Inl (into_error K res)
           else if cp_status res = 204
           then Inr \<lparr>pux2_status_code = cp_status res, pux2_response = None\<rparr>
           else
             and_then (response_json (cx_prepare_upload K) res) (\<lambda>body.
             Inr \<lparr>pux2_status_code = cp_status res, pux2_response = Some body\<rparr>))))"

definition upload_call ::
  "ext \<Rightarrow> client_ext \<Rightarrow> network \<Rightarrow> bool \<Rightarrow> protocol_type \<Rightarrow> rstring \<Rightarrow> u16 \<Rightarrow> rstring option \<Rightarrow>
   rstring \<Rightarrow> rstring \<Rightarrow> rstring \<Rightarrow> byte list list \<Rightarrow> (unit, client_error) result"
where
  "upload_call X K net cancelled protocol ip port public_key session_id file_id token chunks =
     (if cancelled then Inl Cancelled
      else
        and_then (ok_or (net (post_request (request_url ApiV2 protocol ip port ''/upload''
          [(lit ''sessionId'', session_id), (lit ''fileId'', file_id), (lit ''token'', token)]) []
          (ContentPayload chunks))) Reqwest) (\<lambda>res.
        and_then (verify_peer X K protocol res public_key) (\<lambda>_.
        if cp_status res \<noteq> 200 then Inl (into_error K res) else Inr ())))"

definition cancel_call ::
  "network \<Rightarrow> protocol_type \<Rightarrow> rstring \<Rightarrow> u16 \<Rightarrow> rstring \<Rightarrow> (unit, client_error) result"
where
  "cancel_call net protocol ip port session_id =
     and_then (ok_or (net (post_request (request_url ApiV2 protocol ip port ''/cancel''
       [(lit ''sessionId'', session_id)]) [] NoPayload)) Reqwest) (\<lambda>_. Inr ())"

definition info_call ::
  "client_ext \<Rightarrow> network \<Rightarrow> protocol_type \<Rightarrow> rstring \<Rightarrow> u16 \<Rightarrow> (info_response_dto_v2, client_error) result"
where
  "info_call K net protocol ip port =
     and_then (ok_or (net (get_request (request_url ApiV2 protocol ip port ''/info'' []))) Reqwest) (\<lambda>res.
     if cp_status res \<noteq> 200 then Inl (into_error K res) else response_json (cx_info K) res)"

definition prepare_download_call ::
  "client_ext \<Rightarrow> network \<Rightarrow> protocol_type \<Rightarrow> rstring \<Rightarrow> u16 \<Rightarrow> rstring option \<Rightarrow> rstring option \<Rightarrow>
   (prepare_download_response_dto_v2, client_error) result"
where
  "prepare_download_call K net protocol ip port session_id pin =
     (let params = (case session_id of Some s \<Rightarrow> [(lit ''sessionId'', s)] | None \<Rightarrow> []) @
                   (case pin of Some p \<Rightarrow> [(lit ''pin'', p)] | None \<Rightarrow> [])
      in and_then (ok_or (net (post_request (request_url ApiV2 protocol ip port ''/prepare-download'' params)
           [] NoPayload)) Reqwest) (\<lambda>res.
         if cp_status res \<noteq> 200 then Inl (into_error K res) else response_json (cx_prepare_download K) res))"

definition download_call ::
  "client_ext \<Rightarrow> network \<Rightarrow> protocol_type \<Rightarrow> rstring \<Rightarrow> u16 \<Rightarrow> rstring \<Rightarrow> rstring \<Rightarrow>
   (client_response, client_error) result"
where
  "download_call K net protocol ip port session_id file_id =
     and_then (ok_or (net (get_request (request_url ApiV2 protocol ip port ''/download''
       [(lit ''sessionId'', session_id), (lit ''fileId'', file_id)]))) Reqwest) (\<lambda>res.
     if cp_status res \<noteq> 200 then Inl (into_error K res) else Inr res)"

text \<open>
  \<open>room\<close> is how many chunks the writer takes before it fails, if it does. The result is what has
  been written and the outcome.
\<close>

fun write_chunks :: "nat option \<Rightarrow> bool \<Rightarrow> u64 \<Rightarrow> byte list list \<Rightarrow> byte list \<times> (u64, client_error) result" where
  "write_chunks room complete total_bytes [] = ([], if complete then Inr total_bytes else Inl Reqwest)"
| "write_chunks room complete total_bytes (chunk # chunks) =
     (if room = Some 0 then ([], Inl IoError)
      else let (written, res) =
                 write_chunks (map_option (\<lambda>n. n - 1) room) complete (total_bytes + of_nat (length chunk)) chunks
           in (chunk @ written, res))"

definition download_to_writer ::
  "client_ext \<Rightarrow> network \<Rightarrow> protocol_type \<Rightarrow> rstring \<Rightarrow> u16 \<Rightarrow> rstring \<Rightarrow> rstring \<Rightarrow> nat option \<Rightarrow> bool \<Rightarrow>
   byte list \<times> (u64, client_error) result"
where
  "download_to_writer K net protocol ip port session_id file_id room flushed =
     (case download_call K net protocol ip port session_id file_id of
        Inl e \<Rightarrow> ([], Inl e)
      | Inr res \<Rightarrow>
          let (written, r) = write_chunks room (cp_complete res) 0 (cp_chunks res)
          in (written, and_then r (\<lambda>n. if flushed then Inr n else Inl IoError)))"

section \<open>Protocol v3\<close>

record 'n http_client_v3 =
  c3_received_nonces :: 'n
  c3_generated_nonces :: 'n

definition http_client_v3_new :: "(rstring, byte list, 'n) lru_ops \<Rightarrow> 'n http_client_v3" where
  "http_client_v3_new N = \<lparr>c3_received_nonces = lru_new N 200, c3_generated_nonces = lru_new N 200\<rparr>"

definition to_identifier ::
  "ext \<Rightarrow> client_ext \<Rightarrow> client_response \<Rightarrow> bool \<Rightarrow> rstring option \<Rightarrow> (rstring, client_error) result"
where
  "to_identifier X K res require_cert public_key =
     (if require_cert then verify_cert_from_res X K res public_key
      else ok_or (map_option (\<lambda>addr. show_ip (socket_ip addr)) (cp_remote res)) OtherError)"

definition nonce_call ::
  "ext \<Rightarrow> client_ext \<Rightarrow> (rstring, byte list, 'n) lru_ops \<Rightarrow> network \<Rightarrow> byte list \<Rightarrow> protocol_type \<Rightarrow> rstring \<Rightarrow> u16 \<Rightarrow>
   'n http_client_v3 \<Rightarrow> (rstring, client_error) result \<times> 'n http_client_v3"
where
  "nonce_call X K N net new_nonce protocol ip port c =
     (case and_then (ok_or (net (post_request (request_url ApiV3 protocol ip port ''/nonce'' []) []
             (NoncePayload (ext_base64_encode X new_nonce)))) Reqwest) (\<lambda>res.
           if cp_status res \<noteq> 200 then Inl (into_error K res)
           else
             and_then (to_identifier X K res (protocol = Https) None) (\<lambda>remote_key.
             and_then (response_json (cx_nonce K) res) (\<lambda>body.
             and_then (ok_or (ext_base64_decode X body) OtherError) (\<lambda>response_nonce.
             Inr (remote_key, body, response_nonce))))) of
        Inl e \<Rightarrow> (Inl e, c)
      | Inr (remote_key, body, response_nonce) \<Rightarrow>
          (Inr body,
           \<lparr>c3_received_nonces = lru_put N (c3_received_nonces c) remote_key response_nonce,
            c3_generated_nonces = lru_put N (c3_generated_nonces c) remote_key new_nonce\<rparr>))"

definition register_v3_call ::
  "ext \<Rightarrow> client_ext \<Rightarrow> network \<Rightarrow> protocol_type \<Rightarrow> rstring \<Rightarrow> u16 \<Rightarrow> register_dto \<Rightarrow>
   (register_response_dto result_with_public_key, client_error) result"
where
  "register_v3_call X K net protocol ip port dto =
     and_then (ok_or (net (post_request (request_url ApiV3 protocol ip port ''/register'' []) []
       (RegisterV3Payload dto))) Reqwest) (\<lambda>res.
     and_then (peer_identity X K protocol res) (\<lambda>(key, fp).
     and_then (response_json (cx_register_v3 K) res) (\<lambda>body.
     Inr \<lparr>rk_public_key = key, rk_cert_fingerprint = fp, rk_body = body\<rparr>)))"

definition prepare_upload_v3_call ::
  "ext \<Rightarrow> client_ext \<Rightarrow> network \<Rightarrow> bool \<Rightarrow> protocol_type \<Rightarrow> rstring \<Rightarrow> u16 \<Rightarrow> rstring option \<Rightarrow>
   prepare_upload_request_dto \<Rightarrow> (prepare_upload_result, client_error) result"
where
  "prepare_upload_v3_call X K net cancelled protocol ip port public_key dto =
     (if cancelled then Inl Cancelled
      else
        and_then (ok_or (net (post_request (request_url ApiV3 protocol ip port ''/prepare-upload'' []) []
          (PrepareUploadV3Payload dto))) Reqwest) (\<lambda>res.
        and_then (verify_peer X K protocol res public_key) (\<lambda>_.
        if 400 \<le> cp_status res then Inl (into_error K res)
        else if cp_status res = 204
        then Inr \<lparr>pux3_status_code = cp_status res, pux3_response = None\<rparr>
        else
          and_then (response_json (cx_prepare_upload_v3 K) res) (\<lambda>body.
          Inr \<lparr>pux3_status_code = cp_status res, pux3_response = Some body\<rparr>))))"

definition upload_v3_call ::
  "ext \<Rightarrow> client_ext \<Rightarrow> network \<Rightarrow> bool \<Rightarrow> protocol_type \<Rightarrow> rstring \<Rightarrow> u16 \<Rightarrow> rstring option \<Rightarrow>
   rstring \<Rightarrow> rstring \<Rightarrow> rstring \<Rightarrow> byte list list \<Rightarrow> (unit, client_error) result"
where
  "upload_v3_call X K net cancelled protocol ip port public_key session_id file_id token chunks =
     (if cancelled then Inl Cancelled
      else
        and_then (ok_or (net (post_request (request_url ApiV3 protocol ip port ''/upload''
          [(lit ''sessionId'', session_id), (lit ''fileId'', file_id), (lit ''token'', token)]) []
          (ContentPayload chunks))) Reqwest) (\<lambda>res.
        and_then (verify_peer X K protocol res public_key) (\<lambda>_.
        if cp_status res \<noteq> 200 then Inl (into_error K res) else Inr ())))"

definition cancel_v3_call ::
  "network \<Rightarrow> protocol_type \<Rightarrow> rstring \<Rightarrow> u16 \<Rightarrow> rstring \<Rightarrow> (unit, client_error) result"
where
  "cancel_v3_call net protocol ip port session_id =
     and_then (ok_or (net (post_request (request_url ApiV3 protocol ip port ''/cancel''
       [(lit ''sessionId'', session_id)]) [] NoPayload)) Reqwest) (\<lambda>_. Inr ())"

section \<open>Either version\<close>

datatype client_version = ClientV2 | ClientV3

definition ls_register ::
  "ext \<Rightarrow> client_ext \<Rightarrow> network \<Rightarrow> client_version \<Rightarrow> protocol_type \<Rightarrow> rstring \<Rightarrow> u16 \<Rightarrow> register_dto \<Rightarrow>
   (register_response_dto result_with_public_key, client_error) result"
where
  "ls_register X K net version protocol ip port dto =
     (case version of
        ClientV2 \<Rightarrow>
          and_then (register_call X K net protocol ip port (register_dto_into_v2 dto)) (\<lambda>r.
          Inr \<lparr>rk_public_key = rk_public_key r, rk_cert_fingerprint = rk_cert_fingerprint r,
               rk_body = register_response_from_v2 (rk_body r)\<rparr>)
      | ClientV3 \<Rightarrow> register_v3_call X K net protocol ip port dto)"

definition ls_prepare_upload ::
  "ext \<Rightarrow> client_ext \<Rightarrow> network \<Rightarrow> client_version \<Rightarrow> bool \<Rightarrow> protocol_type \<Rightarrow> rstring \<Rightarrow> u16 \<Rightarrow> rstring option \<Rightarrow>
   prepare_upload_request_dto \<Rightarrow> rstring option \<Rightarrow> (prepare_upload_result, client_error) result"
where
  "ls_prepare_upload X K net version cancelled protocol ip port public_key dto pin =
     (case version of
        ClientV2 \<Rightarrow>
          and_then (prepare_upload_call X K net cancelled protocol ip port public_key
            (prepare_upload_request_into_v2 dto) pin) (\<lambda>r. Inr (prepare_upload_result_from_v2 r))
      | ClientV3 \<Rightarrow> prepare_upload_v3_call X K net cancelled protocol ip port public_key dto)"

definition ls_upload ::
  "ext \<Rightarrow> client_ext \<Rightarrow> network \<Rightarrow> client_version \<Rightarrow> bool \<Rightarrow> protocol_type \<Rightarrow> rstring \<Rightarrow> u16 \<Rightarrow> rstring option \<Rightarrow>
   rstring \<Rightarrow> rstring \<Rightarrow> rstring \<Rightarrow> nat option \<Rightarrow> file_content \<Rightarrow> (unit, client_error) result \<times> u64 list"
where
  "ls_upload X K net version cancelled protocol ip port public_key session_id file_id token receiver content =
     (let body = upload_body receiver content;
          call = (case version of ClientV2 \<Rightarrow> upload_call | ClientV3 \<Rightarrow> upload_v3_call)
      in (call X K net cancelled protocol ip port public_key session_id file_id token (map fst body), map snd body))"

definition ls_cancel ::
  "network \<Rightarrow> client_version \<Rightarrow> protocol_type \<Rightarrow> rstring \<Rightarrow> u16 \<Rightarrow> rstring \<Rightarrow> (unit, client_error) result"
where
  "ls_cancel net version protocol ip port session_id =
     (case version of
        ClientV2 \<Rightarrow> cancel_call net protocol ip port session_id
      | ClientV3 \<Rightarrow> cancel_v3_call net protocol ip port session_id)"

section \<open>What is relied on of the TLS layer\<close>

text \<open>
  A response over HTTPS comes from a connection whose handshake the configured verifier has
  accepted, and carries the certificate that was presented in it.
\<close>

definition tls_checked :: "ext \<Rightarrow> client_ext \<Rightarrow> http_client \<Rightarrow> network \<Rightarrow> bool" where
  "tls_checked X K c net \<longleftrightarrow>
     (\<forall>req res v. net req = Some res \<and> tu_protocol (cq_target req) = lit ''https'' \<and> cl_verifier c = Some v \<longrightarrow>
        (\<exists>der. cp_tls res = Some (Some der) \<and> is_ok (verify_server_cert X K v der)))"

text \<open>Concrete parsers for the witnesses: certificates are valid and their own key.\<close>

definition demo_client_ext :: client_ext where
  "demo_client_ext =
     \<lparr>cx_cert_pem = (\<lambda>s. Some (map of_nat s)), cx_key_pem = (\<lambda>s. Some (map of_nat s)),
      cx_root_ok = (\<lambda>_. True), cx_pair_ok = (\<lambda>_ _. True), cx_build_ok = True,
      cx_parse_der = (\<lambda>bs. Some \<lparr>pc_time_valid = True, pc_public_key = Some bs, pc_signature_ok = True\<rparr>),
      cx_parse_key = (\<lambda>s. Some (map of_nat s)), cx_text = map unat, cx_error_message = Some,
      cx_register = (\<lambda>bs. Some \<lparr>rr2_alias = map unat bs, rr2_version = [], rr2_device_model = None,
        rr2_device_type = None, rr2_fingerprint = [], rr2_download = False\<rparr>),
      cx_prepare_upload = (\<lambda>_. None), cx_info = (\<lambda>_. None), cx_prepare_download = (\<lambda>_. None),
      cx_register_v3 = (\<lambda>_. None), cx_prepare_upload_v3 = (\<lambda>_. None), cx_nonce = (\<lambda>bs. Some (map unat bs))\<rparr>"

definition demo_keyed_ext :: ext where
  "demo_keyed_ext = demo_ext\<lparr>ext_public_key := (\<lambda>bs. Some (map unat bs))\<rparr>"

definition demo_net :: network where
  "demo_net req = Some \<lparr>cp_status = 200, cp_tls = Some (Some [1, 2, 3]), cp_remote = None, cp_chunks = [], cp_complete = True\<rparr>"

definition demo_register :: register_dto_v2 where
  "demo_register =
     \<lparr>r2_alias = lit ''me'', r2_version = lit ''2.2'', r2_device_model = None, r2_device_type = None,
      r2_fingerprint = lit ''AA'', r2_port = 53317, r2_protocol = Https, r2_download = False\<rparr>"

section \<open>Lemmas\<close>

lemma target_https [simp]: "tu_protocol (request_url version protocol ip port path params) = lit ''https'' \<longleftrightarrow> protocol = Https"
  by (cases protocol) (simp_all add: request_url_def lit_def)

lemma request_target [simp]: "cq_target (post_request url hs p) = url" "cq_target (get_request url) = url"
  by (simp_all add: post_request_def get_request_def)

lemma verified_fingerprint:
  "verify_server_cert X K v der = Inr u \<Longrightarrow> pv_expected_fingerprint v = Some f \<Longrightarrow>
   fingerprint_from_cert_der (ext_sha256 X) der = f"
  by (auto simp: verify_server_cert_def Let_def res_simps)

lemma created_verifier:
  "create_reqwest_client K key cert expected timeout = Inr c \<Longrightarrow>
   cl_verifier c = Some \<lparr>pv_expected_fingerprint = map_option to_ascii_uppercase expected\<rparr>"
  by (auto simp: create_reqwest_client_def pinned_verifier_new_def res_simps)

text \<open>Over HTTPS the certificate of every response has the pinned fingerprint.\<close>

lemma pinned_response:
  assumes "create_reqwest_client K key cert (Some f) timeout = Inr c" "tls_checked X K c net"
    and "net req = Some res" "tu_protocol (cq_target req) = lit ''https''"
  obtains der where "cp_tls res = Some (Some der)" "fingerprint_from_cert_der (ext_sha256 X) der = to_ascii_uppercase f"
proof -
  have v: "cl_verifier c = Some \<lparr>pv_expected_fingerprint = Some (to_ascii_uppercase f)\<rparr>"
    using created_verifier [OF assms(1)] by simp
  obtain der u where "cp_tls res = Some (Some der)"
    "verify_server_cert X K \<lparr>pv_expected_fingerprint = Some (to_ascii_uppercase f)\<rparr> der = Inr u"
    using assms(2-4) v unfolding tls_checked_def is_ok_def by (fastforce split: sum.splits)
  then show ?thesis using that verified_fingerprint by fastforce
qed

lemma peer_certificate_eq: "peer_certificate res = Inr der \<longleftrightarrow> cp_tls res = Some (Some der)"
  by (auto simp: peer_certificate_def res_simps)

lemma peer_identity_https:
  "peer_identity X K Https res = Inr (key, fp) \<Longrightarrow>
   \<exists>der. cp_tls res = Some (Some der) \<and> key = ext_public_key X der \<and>
     fp = Some (fingerprint_from_cert_der (ext_sha256 X) der) \<and>
     verify_cert_from_der (cx_parse_der K) (cx_parse_key K) der None = Inr ()"
  by (auto simp: peer_identity_def verify_cert_from_res_def cert_fingerprint_from_res_def res_simps peer_certificate_eq)

lemma verified_cert:
  assumes "verify_cert_from_der parse_der parse_key der public_key = Inr u"
  obtains cert where "parse_der der = Some cert" "pc_time_valid cert" "pc_signature_ok cert"
    "\<And>key. public_key = Some key \<Longrightarrow> pc_public_key cert \<noteq> None \<and> pc_public_key cert = parse_key key"
proof (cases public_key)
  case None
  with assms that show ?thesis
    by (auto simp: verify_cert_from_der_def verify_cert_from_cert_def res_simps)
next
  case (Some key)
  with assms that show ?thesis
    by (auto simp: verify_cert_from_der_def verify_cert_from_cert_def res_simps)
qed

lemma map_fst_with_progress: "map fst (with_progress n chunks) = chunks"
  by (induction chunks arbitrary: n) (simp_all add: Let_def)

lemma map_snd_with_progress:
  "map snd (with_progress n chunks) =
   map (\<lambda>k. n + of_nat (length (concat (take (Suc k) chunks)))) [0..<length chunks]"
proof (induction chunks arbitrary: n)
  case (Cons c cs)
  have "[0..<length (c # cs)] = 0 # map Suc [0..<length cs]"
    by (simp add: map_Suc_upt upt_conv_Cons del: upt_Suc)
  then show ?case
    by (simp only: with_progress.simps Let_def list.map Cons.IH) (simp add: ac_simps del: upt_Suc)
qed simp

lemma write_chunks_result:
  "write_chunks room complete n chunks = (written, Inr m) \<Longrightarrow>
   complete \<and> written = concat chunks \<and> m = n + of_nat (length (concat chunks))"
  by (induction room complete n chunks arbitrary: written rule: write_chunks.induct)
    (auto split: if_splits prod.splits)

lemma write_chunks_prefix: "prefix (fst (write_chunks room complete n chunks)) (concat chunks)"
  by (induction room complete n chunks rule: write_chunks.induct) (auto split: prod.splits)

section \<open>Properties\<close>

text \<open>
  C19. A registration through a client that pins a fingerprint returns over HTTPS only with
  the certificate of that fingerprint, compared without regard to case: the reported fingerprint
  is the pinned one in uppercase, and the reported key is the key of a certificate that is
  within its validity and correctly signed.
\<close>

theorem pinned_register_identity:
  assumes "create_reqwest_client K private_key cert (Some pin) timeout = Inr c"
    and "tls_checked X K c net"
    and "register_call X K net Https ip port dto = Inr r"
  shows "rk_cert_fingerprint r = Some (to_ascii_uppercase pin) \<and>
    (\<exists>der parsed. fingerprint_from_cert_der (ext_sha256 X) der = to_ascii_uppercase pin \<and>
       rk_public_key r = ext_public_key X der \<and> cx_parse_der K der = Some parsed \<and>
       pc_time_valid parsed \<and> pc_signature_ok parsed)"
proof -
  obtain res where res: "net (post_request (request_url ApiV2 Https ip port ''/register'' []) json_content (RegisterPayload dto)) = Some res"
    and ident: "peer_identity X K Https res = Inr (rk_public_key r, rk_cert_fingerprint r)"
    using assms(3) by (auto simp: register_call_def res_simps split: if_splits)
  obtain der where der: "cp_tls res = Some (Some der)" "fingerprint_from_cert_der (ext_sha256 X) der = to_ascii_uppercase pin"
    using pinned_response [OF assms(1,2) res] by auto
  with peer_identity_https [OF ident] show ?thesis by (auto elim!: verified_cert)
qed

theorem pinned_register_identity_witness:
  "rk_cert_fingerprint (projr (register_call demo_keyed_ext demo_client_ext demo_net Https (lit ''1.2.3.4'') 53317 demo_register)) =
     Some (lit ''03'') \<and>
   is_ok (register_call demo_keyed_ext demo_client_ext demo_net Https (lit ''1.2.3.4'') 53317 demo_register)"
proof -
  obtain c where c: "create_reqwest_client demo_client_ext [] [] (Some (lit ''03'')) None = Inr c"
    and v: "cl_verifier c = Some \<lparr>pv_expected_fingerprint = Some (lit ''03'')\<rparr>"
    by (simp add: create_reqwest_client_def pinned_verifier_new_def demo_client_ext_def ok_or_def ensure_def
        to_ascii_uppercase_def lit_def ascii_upper_def)
  have ver: "verify_server_cert demo_keyed_ext demo_client_ext \<lparr>pv_expected_fingerprint = Some (lit ''03'')\<rparr> [1, 2, 3] = Inr ()"
    by code_simp
  have tls: "tls_checked demo_keyed_ext demo_client_ext c demo_net"
    by (auto simp: tls_checked_def demo_net_def v ver is_ok_def)
  obtain r where r: "register_call demo_keyed_ext demo_client_ext demo_net Https (lit ''1.2.3.4'') 53317 demo_register = Inr r"
    by (simp add: register_call_def demo_net_def peer_identity_def verify_cert_from_res_def peer_certificate_def
        cert_fingerprint_from_res_def response_json_def response_bytes_def demo_client_ext_def demo_keyed_ext_def
        verify_cert_from_der_def verify_cert_from_cert_def ok_or_def ensure_def map_err_def)
  have "to_ascii_uppercase (lit ''03'') = lit ''03''" by code_simp
  with pinned_register_identity [OF c tls r] r show ?thesis by (simp add: is_ok_def)
qed

end
