(* ===== verification/FB_Discovery.thy ===== *)
theory FB_Discovery
  imports FB_Client FB_Multicast FB_Store
begin

text \<open>
  Discovery (\<^verbatim>\<open>packages/core/src/discovery/mod.rs\<close>): devices enter the store when they answer a
  register request, sent to an announcing device, to a known address or to every host of a
  subnet. \<open>net\<close> gives the network as each client sees it. Probes run concurrently and each
  touches the state once, when its answer has arrived; a list of probes is therefore run in
  the order of the answers, which the parameter \<open>arrange\<close> decides.
\<close>

section \<open>State\<close>

record device_identity =
  id_cert_pem :: rstring
  id_private_key_pem :: rstring

text \<open>
  \<open>ds_event_room\<close>: no channel, or the free slots of the channel; \<open>ds_events\<close> is what was put into
  it.
\<close>

record discovery_state =
  ds_device :: multicast_device
  ds_identity :: device_identity
  ds_timeout :: nat
  ds_store :: device_store
  ds_event_room :: "nat option"
  ds_events :: "discovery_event list"
  ds_answering :: bool
  ds_scanning :: "32 word list"
  ds_confirmations :: u64

definition discovery_start :: "multicast_device \<Rightarrow> device_identity \<Rightarrow> nat \<Rightarrow> nat option \<Rightarrow> discovery_state" where
  "discovery_start device identity timeout room =
     \<lparr>ds_device = device, ds_identity = identity, ds_timeout = timeout, ds_store = [],
      ds_event_room = room, ds_events = [], ds_answering = True, ds_scanning = [], ds_confirmations = 0\<rparr>"

definition discovery_register_dto :: "discovery_state \<Rightarrow> register_dto_v2" where
  "discovery_register_dto st =
     (let d = ds_device st
      in \<lparr>r2_alias = md_alias d, r2_version = md_version d, r2_device_model = md_device_model d,
          r2_device_type = md_device_type d, r2_fingerprint = md_fingerprint d, r2_port = md_port d,
          r2_protocol = md_protocol d, r2_download = md_download d\<rparr>)"

definition discovery_client ::
  "client_ext \<Rightarrow> rstring option \<Rightarrow> discovery_state \<Rightarrow> (http_client, client_error) result"
where
  "discovery_client K expected st =
     create_reqwest_client K (id_private_key_pem (ds_identity st)) (id_cert_pem (ds_identity st)) expected
       (Some (ds_timeout st))"

definition unpinned_client :: "client_ext \<Rightarrow> discovery_state \<Rightarrow> (http_client, client_error) result" where
  "unpinned_client K st = discovery_client K None st"

section \<open>Confirming a device\<close>

definition confirmed_device ::
  "register_response_dto_v2 \<Rightarrow> rstring \<Rightarrow> u16 \<Rightarrow> protocol_type \<Rightarrow> rstring \<Rightarrow> discovered_device"
where
  "confirmed_device response host port protocol fingerprint =
     \<lparr>dd_alias = rr2_alias response, dd_version = rr2_version response,
      dd_device_model = rr2_device_model response, dd_device_type = rr2_device_type response,
      dd_fingerprint = fingerprint,
      dd_channel = ChannelHttp \<lparr>hc_host = host, hc_port = port, hc_protocol = protocol\<rparr>,
      dd_download = rr2_download response\<rparr>"

text \<open>An event that does not fit into the channel is dropped.\<close>

definition found ::
  "discovered_device \<Rightarrow> system_time \<Rightarrow> discovery_state \<Rightarrow> (bool \<times> stateful_device) \<times> discovery_state"
where
  "found device now st =
     (let ((event, merged), store) = upsert (ds_store st) device now;
          st = st\<lparr>ds_confirmations := ds_confirmations st + 1, ds_store := store\<rparr>;
          st = (case ds_event_room st of
                  Some (Suc n) \<Rightarrow> st\<lparr>ds_event_room := Some n, ds_events := ds_events st @ [event]\<rparr>
                | _ \<Rightarrow> st)
      in ((case event of Discovered _ \<Rightarrow> True | Updated _ \<Rightarrow> False, merged), st))"

definition probe ::
  "ext \<Rightarrow> client_ext \<Rightarrow> (http_client \<Rightarrow> network) \<Rightarrow> http_client \<Rightarrow> rstring \<Rightarrow> u16 \<Rightarrow> protocol_type \<Rightarrow>
   system_time \<Rightarrow> discovery_state \<Rightarrow> (stateful_device option, client_error) result \<times> discovery_state"
where
  "probe X K net client host port protocol now st =
     (case and_then (register_call X K (net client) protocol host port (discovery_register_dto st)) (\<lambda>response.
           and_then
             (case protocol of
                Https \<Rightarrow> ok_or (rk_cert_fingerprint response) OtherError
              | Http \<Rightarrow> Inr (rr2_fingerprint (rk_body response))) (\<lambda>fingerprint.
           Inr (response, fingerprint))) of
        Inl e \<Rightarrow> (Inl e, st)
      | Inr (response, fingerprint) \<Rightarrow>
          if fingerprint = md_fingerprint (ds_device st) then (Inr None, st)
          else let ((_, merged), st) = found (confirmed_device (rk_body response) host port protocol fingerprint) now st
               in (Inr (Some merged), st))"

section \<open>Operations\<close>

definition discover ::
  "ext \<Rightarrow> client_ext \<Rightarrow> (http_client \<Rightarrow> network) \<Rightarrow> rstring \<Rightarrow> u16 \<Rightarrow> protocol_type \<Rightarrow> system_time \<Rightarrow>
   discovery_state \<Rightarrow> (stateful_device option, client_error) result \<times> discovery_state"
where
  "discover X K net host port protocol now st =
     (case unpinned_client K st of
        Inl e \<Rightarrow> (Inl e, st)
      | Inr client \<Rightarrow> probe X K net client host port protocol now st)"

text \<open>Probing a list of channels: those that fail or are this device itself are left out.\<close>

fun probe_all ::
  "ext \<Rightarrow> client_ext \<Rightarrow> (http_client \<Rightarrow> network) \<Rightarrow> http_client \<Rightarrow> system_time \<Rightarrow> http_channel list \<Rightarrow>
   discovery_state \<Rightarrow> stateful_device list \<times> discovery_state"
where
  "probe_all X K net client now [] st = ([], st)"
| "probe_all X K net client now (h # hs) st =
     (let (r, st) = probe X K net client (hc_host h) (hc_port h) (hc_protocol h) now st;
          (ds, st) = probe_all X K net client now hs st
      in ((case r of Inr (Some d) \<Rightarrow> d # ds | _ \<Rightarrow> ds), st))"

definition discover_known_http_channels ::
  "ext \<Rightarrow> client_ext \<Rightarrow> (http_client \<Rightarrow> network) \<Rightarrow> (http_channel list \<Rightarrow> http_channel list) \<Rightarrow> system_time \<Rightarrow>
   http_channel list \<Rightarrow> discovery_state \<Rightarrow> (stateful_device list, client_error) result \<times> discovery_state"
where
  "discover_known_http_channels X K net arrange now channels st =
     (case unpinned_client K st of
        Inl e \<Rightarrow> (Inl e, st)
      | Inr client \<Rightarrow> let (ds, st) = probe_all X K net client now (arrange channels) st in (Inr ds, st))"

definition scan_targets :: "32 word \<Rightarrow> 32 word list" where
  "scan_targets interface_ip =
     (let base = ipv4_octets interface_ip
      in filter (\<lambda>ip. ip \<noteq> interface_ip)
           (map (\<lambda>host. of_octets [base ! 0, base ! 1, base ! 2, host]) [0..<256]))"

definition scan_channels :: "u16 \<Rightarrow> protocol_type \<Rightarrow> 32 word \<Rightarrow> http_channel list" where
  "scan_channels port protocol interface_ip =
     map (\<lambda>ip. \<lparr>hc_host = show_ipv4 ip, hc_port = port, hc_protocol = protocol\<rparr>) (scan_targets interface_ip)"

text \<open>Claiming an interface, and the guard that releases it.\<close>

definition scan_claim :: "32 word \<Rightarrow> discovery_state \<Rightarrow> discovery_state option" where
  "scan_claim ip st = (if ip \<in> set (ds_scanning st) then None else Some (st\<lparr>ds_scanning := ip # ds_scanning st\<rparr>))"

definition scan_release :: "32 word \<Rightarrow> discovery_state \<Rightarrow> discovery_state" where
  "scan_release ip st = st\<lparr>ds_scanning := removeAll ip (ds_scanning st)\<rparr>"

definition scan_subnet ::
  "ext \<Rightarrow> client_ext \<Rightarrow> (http_client \<Rightarrow> network) \<Rightarrow> (http_channel list \<Rightarrow> http_channel list) \<Rightarrow> system_time \<Rightarrow>
   u16 \<Rightarrow> protocol_type \<Rightarrow> 32 word \<Rightarrow> discovery_state \<Rightarrow>
   (stateful_device list, client_error) result \<times> discovery_state"
where
  "scan_subnet X K net arrange now port protocol interface_ip st =
     (case scan_claim interface_ip st of
        None \<Rightarrow> (Inr [], st)
      | Some st \<Rightarrow>
          case unpinned_client K st of
            Inl e \<Rightarrow> (Inl e, scan_release interface_ip st)
          | Inr client \<Rightarrow>
              let (ds, st) = probe_all X K net client now (arrange (scan_channels port protocol interface_ip)) st
              in (Inr ds, scan_release interface_ip st))"

text \<open>
  Several scans at once: every interface is claimed before any answer arrives, so that one that
  occurs twice, or is being scanned, is skipped.
\<close>

definition scan_subnets ::
  "ext \<Rightarrow> client_ext \<Rightarrow> (http_client \<Rightarrow> network) \<Rightarrow> (http_channel list \<Rightarrow> http_channel list) \<Rightarrow> system_time \<Rightarrow>
   u16 \<Rightarrow> protocol_type \<Rightarrow> 32 word list \<Rightarrow> discovery_state \<Rightarrow> (unit, client_error) result \<times> discovery_state"
where
  "scan_subnets X K net arrange now port protocol ips st =
     (let fresh = filter (\<lambda>ip. ip \<notin> set (ds_scanning st)) (remdups ips);
          claimed = st\<lparr>ds_scanning := fresh @ ds_scanning st\<rparr>
      in if fresh = [] then (Inr (), st)
         else case unpinned_client K claimed of
             Inl e \<Rightarrow> (Inl e, fold scan_release fresh claimed)
           | Inr client \<Rightarrow>
               let (ds, st') = probe_all X K net client now
                     (arrange (concat (map (scan_channels port protocol) fresh))) claimed
               in (Inr (), fold scan_release fresh st'))"

section \<open>Announcements\<close>

definition set_answer_announcements :: "bool \<Rightarrow> discovery_state \<Rightarrow> discovery_state" where
  "set_answer_announcements answer st = st\<lparr>ds_answering := answer\<rparr>"

definition add_device :: "discovered_device \<Rightarrow> system_time \<Rightarrow> discovery_state \<Rightarrow> bool \<times> discovery_state" where
  "add_device device now st = (let ((is_new, _), st) = found device now st in (is_new, st))"

definition announced_host :: "ip_addr \<Rightarrow> u32 option \<Rightarrow> rstring" where
  "announced_host ip scope =
     (case scope of Some s \<Rightarrow> show_ip ip @ lit ''%'' @ show_nat (unat s) | None \<Rightarrow> show_ip ip)"

definition answer_announcement ::
  "ext \<Rightarrow> client_ext \<Rightarrow> (http_client \<Rightarrow> network) \<Rightarrow> system_time \<Rightarrow> ip_addr \<Rightarrow> u32 option \<Rightarrow> multicast_message \<Rightarrow>
   discovery_state \<Rightarrow> discovery_state"
where
  "answer_announcement X K net now ip scope message st =
     (let host = announced_host ip scope;
          expected = (case mm_protocol message of Https \<Rightarrow> Some (mm_fingerprint message) | Http \<Rightarrow> None)
      in case and_then (discovery_client K expected st) (\<lambda>client.
              register_call X K (net client) (mm_protocol message) host (mm_port message) (discovery_register_dto st)) of
           Inl e \<Rightarrow> st
         | Inr response \<Rightarrow>
             snd (found (confirmed_device (rk_body response) host (mm_port message) (mm_protocol message)
               (mm_fingerprint message)) now st))"

definition on_multicast_event ::
  "ext \<Rightarrow> client_ext \<Rightarrow> (http_client \<Rightarrow> network) \<Rightarrow> system_time \<Rightarrow> multicast_event \<Rightarrow> discovery_state \<Rightarrow> discovery_state"
where
  "on_multicast_event X K net now event st =
     (case event of MulticastDiscovered ip scope message \<Rightarrow>
        if ds_answering st then answer_announcement X K net now ip scope message st else st)"

text \<open>
  Staged discovery: \<open>meanwhile\<close> are the confirmations that come from elsewhere, from answered
  announcements and registrations, until the grace period is over.
\<close>

definition discover_staged ::
  "ext \<Rightarrow> client_ext \<Rightarrow> (http_client \<Rightarrow> network) \<Rightarrow> (http_channel list \<Rightarrow> http_channel list) \<Rightarrow>
   system_time \<Rightarrow> (discovered_device \<times> system_time) list \<Rightarrow> http_channel list \<Rightarrow> 32 word list \<Rightarrow> u16 \<Rightarrow> protocol_type \<Rightarrow>
   discovery_state \<Rightarrow> (unit, client_error) result \<times> discovery_state"
where
  "discover_staged X K net arrange now meanwhile known interface_ips port protocol st =
     (let confirmations = ds_confirmations st
      in case discover_known_http_channels X K net arrange now known st of
           (Inl e, st) \<Rightarrow> (Inl e, st)
         | (Inr _, st) \<Rightarrow>
             let st = fold (\<lambda>(d, t) st. snd (found d t st)) meanwhile st
             in if ds_confirmations st = confirmations
                then scan_subnets X K net arrange now port protocol interface_ips st
                else (Inr (), st))"

section \<open>Runs\<close>

text \<open>
  What happens to the state, one operation after the other, each with the network of its
  moment. A datagram passes through the receive loop of the multicast sockets first.
\<close>

datatype disc_op =
    OpDiscover rstring u16 protocol_type
  | OpKnown "http_channel list"
  | OpScan "32 word" u16 protocol_type
  | OpScans "32 word list" u16 protocol_type
  | OpDatagram "byte list" socket_addr
  | OpAnswering bool
  | OpDrain nat

record disc_env =
  de_net :: "http_client \<Rightarrow> network"
  de_arrange :: "http_channel list \<Rightarrow> http_channel list"
  de_decode :: "byte list \<Rightarrow> multicast_message option"
  de_now :: system_time

fun disc_step :: "ext \<Rightarrow> client_ext \<Rightarrow> disc_env \<Rightarrow> disc_op \<Rightarrow> discovery_state \<Rightarrow> discovery_state" where
  "disc_step X K e (OpDiscover host port protocol) st = snd (discover X K (de_net e) host port protocol (de_now e) st)"
| "disc_step X K e (OpKnown channels) st =
     snd (discover_known_http_channels X K (de_net e) (de_arrange e) (de_now e) channels st)"
| "disc_step X K e (OpScan ip port protocol) st =
     snd (scan_subnet X K (de_net e) (de_arrange e) (de_now e) port protocol ip st)"
| "disc_step X K e (OpScans ips port protocol) st =
     snd (scan_subnets X K (de_net e) (de_arrange e) (de_now e) port protocol ips st)"
| "disc_step X K e (OpDatagram bytes source) st =
     (case received_event (de_decode e) (md_fingerprint (ds_device st)) bytes source of
        None \<Rightarrow> st
      | Some event \<Rightarrow> on_multicast_event X K (de_net e) (de_now e) event st)"
| "disc_step X K e (OpAnswering answer) st = set_answer_announcements answer st"
| "disc_step X K e (OpDrain n) st = st\<lparr>ds_event_room := map_option (\<lambda>r. r + n) (ds_event_room st)\<rparr>"

definition disc_run :: "ext \<Rightarrow> client_ext \<Rightarrow> (disc_env \<times> disc_op) list \<Rightarrow> discovery_state \<Rightarrow> discovery_state" where
  "disc_run X K ops st = foldl (\<lambda>st (e, op). disc_step X K e op st) st ops"

section \<open>Reference descriptions\<close>

text \<open>A certificate with the fingerprint was presented by the host and port of the channel.\<close>

definition proven :: "ext \<Rightarrow> network set \<Rightarrow> rstring \<Rightarrow> http_channel \<Rightarrow> bool" where
  "proven X nets fp h \<longleftrightarrow>
     (\<exists>net req res der. net \<in> nets \<and> net req = Some res \<and> tu_host (cq_target req) = hc_host h \<and>
        tu_port (cq_target req) = hc_port h \<and> cp_tls res = Some (Some der) \<and>
        fingerprint_from_cert_der (ext_sha256 X) der = to_ascii_uppercase fp)"

definition channel_proven :: "ext \<Rightarrow> network set \<Rightarrow> rstring \<Rightarrow> device_channel \<Rightarrow> bool" where
  "channel_proven X nets fp c =
     (case channel_http c of None \<Rightarrow> True | Some h \<Rightarrow> if hc_protocol h = Https then proven X nets fp h else True)"

definition entry_proven :: "ext \<Rightarrow> network set \<Rightarrow> rstring \<Rightarrow> stateful_device \<Rightarrow> bool" where
  "entry_proven X nets own k \<longleftrightarrow>
     dd_fingerprint (sd_device k) \<noteq> own \<and>
     list_all (\<lambda>(c, s). channel_proven X nets (dd_fingerprint (sd_device k)) c) (sd_channels k)"

definition disc_inv :: "ext \<Rightarrow> network set \<Rightarrow> discovery_state \<Rightarrow> bool" where
  "disc_inv X nets st \<longleftrightarrow>
     store_ok (ds_store st) \<and> list_all (entry_proven X nets (md_fingerprint (ds_device st))) (ds_store st)"

definition env_checked :: "ext \<Rightarrow> client_ext \<Rightarrow> network set \<Rightarrow> disc_env \<Rightarrow> bool" where
  "env_checked X K nets e \<longleftrightarrow> (\<forall>c. tls_checked X K c (de_net e c)) \<and> range (de_net e) \<subseteq> nets"

text \<open>No other device answers at the channel.\<close>

definition silent ::
  "ext \<Rightarrow> client_ext \<Rightarrow> (http_client \<Rightarrow> network) \<Rightarrow> http_client \<Rightarrow> discovery_state \<Rightarrow> http_channel \<Rightarrow> bool"
where
  "silent X K net client st h =
     (case fst (probe X K net client (hc_host h) (hc_port h) (hc_protocol h) 0 st) of
        Inr (Some d) \<Rightarrow> False | _ \<Rightarrow> True)"

text \<open>
  For the witnesses: every host presents the certificate \<open>der\<close>, and announcements differ in
  their first byte by protocol.
\<close>

definition demo_tls_net :: "byte list \<Rightarrow> http_client \<Rightarrow> network" where
  "demo_tls_net der c req =
     (if tu_protocol (cq_target req) = lit ''https'' \<and>
         (case cl_verifier c of
            None \<Rightarrow> False | Some v \<Rightarrow> \<not> is_ok (verify_server_cert demo_keyed_ext demo_client_ext v der))
      then None
      else Some \<lparr>cp_status = 200, cp_tls = Some (Some der), cp_remote = None, cp_chunks = [[65]], cp_complete = True\<rparr>)"

definition demo_announcement :: "rstring \<Rightarrow> byte list \<Rightarrow> multicast_message option" where
  "demo_announcement fp bytes = Some
     \<lparr>mm_alias = [], mm_version = [], mm_device_model = None, mm_device_type = None, mm_fingerprint = fp,
      mm_port = 53317, mm_protocol = (if bytes = [0] then Http else Https), mm_download = False\<rparr>"

definition demo_env :: "rstring \<Rightarrow> byte list \<Rightarrow> disc_env" where
  "demo_env fp der = \<lparr>de_net = demo_tls_net der, de_arrange = rev, de_decode = demo_announcement fp, de_now = 0\<rparr>"

definition demo_start :: discovery_state where
  "demo_start = discovery_start
     \<lparr>md_alias = [], md_version = [], md_device_model = None, md_device_type = None,
      md_fingerprint = lit ''FF'', md_port = 53317, md_protocol = Https, md_download = False\<rparr>
     \<lparr>id_cert_pem = [], id_private_key_pem = []\<rparr> 500 (Some 1)"

definition demo_entries :: "(disc_env \<times> disc_op) list \<Rightarrow> (rstring \<times> device_channel list) list" where
  "demo_entries ops =
     map (\<lambda>k. (dd_fingerprint (sd_device k), map fst (sd_channels k)))
       (ds_store (disc_run demo_keyed_ext demo_client_ext ops demo_start))"

definition demo_known :: discovery_state where
  "demo_known = disc_run demo_keyed_ext demo_client_ext
     [(demo_env (lit ''03'') [1, 2, 3], OpDiscover (lit ''10.0.0.1'') 1 Https)] demo_start"

section \<open>Lemmas\<close>

lemma found_simps:
  "snd (found d now st) =
     st\<lparr>ds_store := snd (upsert (ds_store st) d now), ds_confirmations := ds_confirmations st + 1,
        ds_event_room := ds_event_room (snd (found d now st)), ds_events := ds_events (snd (found d now st))\<rparr>"
  by (auto simp: found_def Let_def split: prod.splits option.splits nat.splits)

lemma found_fields [simp]:
  "ds_device (snd (found d now st)) = ds_device st"
  "ds_identity (snd (found d now st)) = ds_identity st"
  "ds_timeout (snd (found d now st)) = ds_timeout st"
  "ds_answering (snd (found d now st)) = ds_answering st"
  "ds_scanning (snd (found d now st)) = ds_scanning st"
  "ds_store (snd (found d now st)) = snd (upsert (ds_store st) d now)"
  "ds_confirmations (snd (found d now st)) = ds_confirmations st + 1"
  by (subst found_simps, simp)+

lemma confirmed_device_fields [simp]:
  "dd_fingerprint (confirmed_device r host port protocol fp) = fp"
  "dd_channel (confirmed_device r host port protocol fp) =
     ChannelHttp \<lparr>hc_host = host, hc_port = port, hc_protocol = protocol\<rparr>"
  by (simp_all add: confirmed_device_def)

text \<open>A probe leaves the state alone or confirms a device other than this one.\<close>

lemma probe_cases:
  obtains (quiet) r where "probe X K net client host port protocol now st = (r, st)" "\<And>d. r \<noteq> Inr (Some d)"
  | (answered) response fp merged where
      "register_call X K (net client) protocol host port (discovery_register_dto st) = Inr response"
      "protocol = Https \<Longrightarrow> rk_cert_fingerprint response = Some fp"
      "fp \<noteq> md_fingerprint (ds_device st)"
      "probe X K net client host port protocol now st =
         (Inr (Some merged), snd (found (confirmed_device (rk_body response) host port protocol fp) now st))"
proof (cases "register_call X K (net client) protocol host port (discovery_register_dto st)")
  case (Inl e)
  then show ?thesis using quiet by (simp add: probe_def)
next
  case (Inr response)
  note reg = this
  let ?fp = "case protocol of Https \<Rightarrow> ok_or (rk_cert_fingerprint response) OtherError
    | Http \<Rightarrow> Inr (rr2_fingerprint (rk_body response))"
  show ?thesis
  proof (cases ?fp)
    case (Inl e)
    with reg show ?thesis using quiet by (simp add: probe_def)
  next
    case (Inr fp)
    show ?thesis
    proof (cases "fp = md_fingerprint (ds_device st)")
      case True
      with reg Inr show ?thesis using quiet by (simp add: probe_def)
    next
      case False
      moreover have "protocol = Https \<Longrightarrow> rk_cert_fingerprint response = Some fp" using Inr by (auto simp: res_simps)
      moreover obtain n merged where "fst (found (confirmed_device (rk_body response) host port protocol fp) now st) = (n, merged)"
        by fastforce
      ultimately show ?thesis
        using reg Inr answered [of response fp merged] by (simp add: probe_def split_def)
    qed
  qed
qed

lemma probe_frame:
  "ds_device (snd (probe X K net client host port protocol now st)) = ds_device st"
  "ds_identity (snd (probe X K net client host port protocol now st)) = ds_identity st"
  "ds_timeout (snd (probe X K net client host port protocol now st)) = ds_timeout st"
  "ds_scanning (snd (probe X K net client host port protocol now st)) = ds_scanning st"
  by (cases rule: probe_cases [of X K net client host port protocol now st]; simp)+

lemma probe_all_frame:
  "ds_device (snd (probe_all X K net client now hs st)) = ds_device st \<and>
   ds_identity (snd (probe_all X K net client now hs st)) = ds_identity st \<and>
   ds_timeout (snd (probe_all X K net client now hs st)) = ds_timeout st \<and>
   ds_scanning (snd (probe_all X K net client now hs st)) = ds_scanning st"
  by (induction hs arbitrary: st) (auto simp: Let_def split_def probe_frame)

lemma to_ascii_uppercase_fingerprint [simp]:
  "to_ascii_uppercase (fingerprint_from_cert_der sha der) = fingerprint_from_cert_der sha der"
proof -
  have "ascii_upper (ascii_upper c) = ascii_upper c" for c by (auto simp: ascii_upper_def)
  then show ?thesis by (simp add: fingerprint_upper to_ascii_uppercase_def)
qed

lemma upsert_entry_proven:
  assumes "list_all (entry_proven X nets own) s" "dd_fingerprint d \<noteq> own"
    "channel_proven X nets (dd_fingerprint d) (dd_channel d)"
  shows "list_all (entry_proven X nets own) (snd (upsert s d t))"
  using assms
  by (induction s d t rule: upsert.induct)
    (auto simp: entry_proven_def confirm_known_def confirm_new_def merge_channel_def list_all_iff split: prod.splits)

lemma found_inv:
  assumes "disc_inv X nets st" "dd_fingerprint d \<noteq> md_fingerprint (ds_device st)"
    "channel_proven X nets (dd_fingerprint d) (dd_channel d)"
  shows "disc_inv X nets (snd (found d now st))"
  using assms upsert_entry_proven upsert_ok by (simp add: disc_inv_def)

text \<open>What a successful registration over HTTPS proves.\<close>

lemma register_proves:
  assumes "register_call X K net Https host port dto = Inr r" "net \<in> nets"
    and "\<And>res der. cp_tls res = Some (Some der) \<Longrightarrow>
      net (post_request (request_url ApiV2 Https host port ''/register'' []) json_content (RegisterPayload dto)) = Some res \<Longrightarrow>
      rk_cert_fingerprint r = Some (fingerprint_from_cert_der (ext_sha256 X) der) \<Longrightarrow>
      fingerprint_from_cert_der (ext_sha256 X) der = to_ascii_uppercase fp"
  shows "proven X nets fp \<lparr>hc_host = host, hc_port = port, hc_protocol = Https\<rparr>"
proof -
  let ?req = "post_request (request_url ApiV2 Https host port ''/register'' []) json_content (RegisterPayload dto)"
  obtain res where res: "net ?req = Some res"
    and ident: "peer_identity X K Https res = Inr (rk_public_key r, rk_cert_fingerprint r)"
    using assms(1) by (auto simp: register_call_def res_simps split: if_splits)
  from peer_identity_https [OF ident] obtain der where
    "cp_tls res = Some (Some der)" "rk_cert_fingerprint r = Some (fingerprint_from_cert_der (ext_sha256 X) der)"
    by blast
  with assms(2,3) res show ?thesis
    unfolding proven_def by (intro exI [of _ net] exI [of _ ?req] exI [of _ res] exI [of _ der]) (simp add: request_url_def)
qed

lemma probe_inv:
  assumes "disc_inv X nets st" "net client \<in> nets"
  shows "disc_inv X nets (snd (probe X K net client host port protocol now st))"
proof (cases rule: probe_cases [of X K net client host port protocol now st])
  case (quiet r)
  with assms show ?thesis by simp
next
  case (answered response fp merged)
  have "proven X nets fp \<lparr>hc_host = host, hc_port = port, hc_protocol = Https\<rparr>" if "protocol = Https"
    using register_proves [of X K "net client" host port "discovery_register_dto st" response nets fp]
      answered that assms(2) by auto
  then have "channel_proven X nets fp (ChannelHttp \<lparr>hc_host = host, hc_port = port, hc_protocol = protocol\<rparr>)"
    by (simp add: channel_proven_def)
  with answered assms(1) show ?thesis by (simp add: found_inv)
qed

lemma probe_all_inv:
  "disc_inv X nets st \<Longrightarrow> net client \<in> nets \<Longrightarrow> disc_inv X nets (snd (probe_all X K net client now hs st))"
  by (induction hs arbitrary: st) (simp_all add: Let_def split_def probe_inv)

lemma disc_inv_frame:
  "ds_store st' = ds_store st \<Longrightarrow> ds_device st' = ds_device st \<Longrightarrow> disc_inv X nets st' = disc_inv X nets st"
  by (simp add: disc_inv_def)

lemma scan_release_fields [simp]:
  "ds_store (scan_release ip st) = ds_store st" "ds_device (scan_release ip st) = ds_device st"
  "ds_confirmations (scan_release ip st) = ds_confirmations st"
  by (simp_all add: scan_release_def)

lemma fold_scan_release [simp]:
  "ds_store (fold scan_release ips st) = ds_store st" "ds_device (fold scan_release ips st) = ds_device st"
  "ds_confirmations (fold scan_release ips st) = ds_confirmations st"
  by (induction ips arbitrary: st) simp_all

lemma scan_subnet_inv:
  assumes "disc_inv X nets st" "range net \<subseteq> nets"
  shows "disc_inv X nets (snd (scan_subnet X K net arrange now port protocol ip st))"
proof -
  have "net c \<in> nets" for c using assms(2) by auto
  then have "disc_inv X nets (snd (probe_all X K net c now hs (st\<lparr>ds_scanning := ips\<rparr>)))" for c hs ips
    using assms(1) by (intro probe_all_inv) (simp_all add: disc_inv_def)
  then show ?thesis
    using assms(1) by (auto simp: scan_subnet_def scan_claim_def Let_def split_def disc_inv_def split: sum.splits)
qed

lemma scan_subnets_inv:
  assumes "disc_inv X nets st" "range net \<subseteq> nets"
  shows "disc_inv X nets (snd (scan_subnets X K net arrange now port protocol ips st))"
proof -
  have "net c \<in> nets" for c using assms(2) by auto
  then have "disc_inv X nets (snd (probe_all X K net c now hs (st\<lparr>ds_scanning := ips\<rparr>)))" for c hs ips
    using assms(1) by (intro probe_all_inv) (simp_all add: disc_inv_def)
  then show ?thesis
    using assms(1) by (auto simp: scan_subnets_def Let_def split_def disc_inv_def split: sum.splits)
qed

lemma answer_announcement_inv:
  assumes "disc_inv X nets st" "range net \<subseteq> nets" "\<And>c. tls_checked X K c (net c)"
    and "mm_fingerprint message \<noteq> md_fingerprint (ds_device st)"
  shows "disc_inv X nets (answer_announcement X K net now ip scope message st)"
proof (cases "and_then (discovery_client K (case mm_protocol message of Https \<Rightarrow> Some (mm_fingerprint message) | Http \<Rightarrow> None) st)
    (\<lambda>client. register_call X K (net client) (mm_protocol message) (announced_host ip scope) (mm_port message) (discovery_register_dto st))")
  case (Inl e)
  with assms(1) show ?thesis by (simp add: answer_announcement_def Let_def)
next
  case (Inr response)
  then obtain client where client: "discovery_client K (case mm_protocol message of Https \<Rightarrow> Some (mm_fingerprint message) | Http \<Rightarrow> None) st = Inr client"
    and reg: "register_call X K (net client) (mm_protocol message) (announced_host ip scope) (mm_port message) (discovery_register_dto st) = Inr response"
    by (auto simp: res_simps)
  have "proven X nets (mm_fingerprint message) \<lparr>hc_host = announced_host ip scope, hc_port = mm_port message, hc_protocol = Https\<rparr>"
    if https: "mm_protocol message = Https"
  proof (rule register_proves [OF reg [unfolded https]])
    show "net client \<in> nets" using assms(2) by auto
    fix res der
    assume "cp_tls res = Some (Some der)"
      "net client (post_request (request_url ApiV2 Https (announced_host ip scope) (mm_port message) ''/register'' [])
         json_content (RegisterPayload (discovery_register_dto st))) = Some res"
    then show "fingerprint_from_cert_der (ext_sha256 X) der = to_ascii_uppercase (mm_fingerprint message)"
      using pinned_response [OF client [unfolded discovery_client_def https protocol_type.case] assms(3)] by force
  qed
  then have "channel_proven X nets (mm_fingerprint message)
      (ChannelHttp \<lparr>hc_host = announced_host ip scope, hc_port = mm_port message, hc_protocol = mm_protocol message\<rparr>)"
    by (simp add: channel_proven_def)
  with Inr assms(1,4) show ?thesis by (simp add: answer_announcement_def Let_def found_inv)
qed

lemma received_event_foreign:
  "received_event decode own bytes source = Some (MulticastDiscovered ip scope message) \<Longrightarrow> mm_fingerprint message \<noteq> own"
  by (auto simp: received_event_def split: option.splits if_splits)

lemma disc_step_inv:
  assumes "disc_inv X nets st" "env_checked X K nets e"
  shows "disc_inv X nets (disc_step X K e op st)"
proof -
  have range: "range (de_net e) \<subseteq> nets" and tls: "\<And>c. tls_checked X K c (de_net e c)"
    using assms(2) by (auto simp: env_checked_def)
  then have in_nets: "de_net e c \<in> nets" for c by auto
  show ?thesis
  proof (cases op)
    case (OpDatagram bytes source)
    with assms(1) received_event_foreign [of "de_decode e" "md_fingerprint (ds_device st)" bytes source]
    show ?thesis
      by (auto simp: on_multicast_event_def intro!: answer_announcement_inv range tls split: option.split multicast_event.split)
  next
    case (OpDiscover host port protocol)
    with assms(1) in_nets show ?thesis by (simp add: discover_def probe_inv split: sum.split)
  next
    case (OpKnown channels)
    with assms(1) in_nets show ?thesis
      by (simp add: discover_known_http_channels_def Let_def split_def probe_all_inv split: sum.split)
  next
    case (OpScan ip port protocol)
    with assms(1) range show ?thesis by (simp add: scan_subnet_inv)
  next
    case (OpScans ips port protocol)
    with assms(1) range show ?thesis by (simp add: scan_subnets_inv)
  qed (use assms(1) in \<open>simp_all add: set_answer_announcements_def disc_inv_def\<close>)
qed

lemma disc_run_inv:
  "disc_inv X nets st \<Longrightarrow> list_all (\<lambda>(e, op). env_checked X K nets e) ops \<Longrightarrow> disc_inv X nets (disc_run X K ops st)"
  by (induction ops arbitrary: st) (auto simp: disc_run_def disc_step_inv)

lemma scan_subnet_frame:
  "ds_device (snd (scan_subnet X K net arrange now port protocol ip st)) = ds_device st"
  "ds_device (snd (scan_subnets X K net arrange now port protocol ips st)) = ds_device st"
  using probe_all_frame [of X K net _ now]
  by (auto simp: scan_subnet_def scan_subnets_def scan_claim_def Let_def split_def split: sum.split)

lemma disc_step_device: "ds_device (disc_step X K e op st) = ds_device st"
  by (cases op)
    (auto simp: discover_def discover_known_http_channels_def on_multicast_event_def answer_announcement_def
      set_answer_announcements_def Let_def split_def probe_frame probe_all_frame scan_subnet_frame
      split: sum.split option.split multicast_event.split)

lemma disc_run_device [simp]: "ds_device (disc_run X K ops st) = ds_device st"
  by (induction ops arbitrary: st) (auto simp: disc_run_def disc_step_device)

lemma scan_target_value:
  "of_octets [ipv4_octets ip ! 0, ipv4_octets ip ! 1, ipv4_octets ip ! 2, host] =
   of_nat (256 * (unat ip div 256) + host)"
proof -
  let ?n = "unat ip"
  have "?n < 2 ^ 32" using unsigned_less [of ip, where ?'a = nat] by simp
  then have top: "?n div 16777216 mod 256 = ?n div 16777216" by simp
  have "256 * (?n div 16777216) + ?n div 65536 mod 256 = ?n div 65536"
    using mult_div_mod_eq [of 256 "?n div 65536"] by (simp add: div_mult2_eq [symmetric])
  moreover have "256 * (?n div 65536) + ?n div 256 mod 256 = ?n div 256"
    using mult_div_mod_eq [of 256 "?n div 256"] by (simp add: div_mult2_eq [symmetric])
  ultimately have "256 * (256 * (256 * (?n div 16777216) + ?n div 65536 mod 256) + ?n div 256 mod 256) + host =
      256 * (?n div 256) + host" by presburger
  then have "foldl (\<lambda>n d. 256 * n + d) 0 [ipv4_octets ip ! 0, ipv4_octets ip ! 1, ipv4_octets ip ! 2, host] =
      256 * (?n div 256) + host" by (simp add: ipv4_octets_def top)
  then show ?thesis unfolding of_octets_def by (rule arg_cong)
qed

lemma unat_host_number:
  fixes ip :: "32 word"
  assumes "host < 256"
  shows "unat (of_nat (256 * (unat ip div 256) + host) :: 32 word) = 256 * (unat ip div 256) + host"
proof -
  have "unat ip < 16777216 * 256" using unsigned_less [of ip, where ?'a = nat] by simp
  then have "unat ip div 256 < 16777216" by (rule less_mult_imp_div_less)
  then have "256 * (unat ip div 256) + host < 2 ^ 32" using assms by simp
  then show ?thesis by (simp add: unat_of_nat take_bit_nat_eq_self del: of_nat_add of_nat_mult)
qed

lemma scan_set:
  "of_octets ` (\<lambda>host. [ipv4_octets ip ! 0, ipv4_octets ip ! 1, ipv4_octets ip ! 2, host]) ` {0..<256} =
   {ip'. drop_bit 8 ip' = drop_bit 8 ip}"
proof -
  have same: "drop_bit 8 ip' = drop_bit 8 ip \<longleftrightarrow> unat ip' div 256 = unat ip div 256" for ip' :: "32 word"
    by (simp add: word_unat_eq_iff unat_drop_bit_eq drop_bit_eq_div unat_div)
  have "ip' \<in> (\<lambda>host. of_nat (256 * (unat ip div 256) + host)) ` {0..<256} \<longleftrightarrow> unat ip' div 256 = unat ip div 256" for ip' :: "32 word"
  proof
    assume "ip' \<in> (\<lambda>host. of_nat (256 * (unat ip div 256) + host)) ` {0..<256}"
    then obtain host where "host < 256" "ip' = of_nat (256 * (unat ip div 256) + host)" by auto
    then have "unat ip' = 256 * (unat ip div 256) + host" using unat_host_number [of host ip] by simp
    with \<open>host < 256\<close> show "unat ip' div 256 = unat ip div 256" by simp
  next
    assume "unat ip' div 256 = unat ip div 256"
    then have "unat ip' = 256 * (unat ip div 256) + unat ip' mod 256"
      using mult_div_mod_eq [of 256 "unat ip'"] by simp
    moreover have "ip' = of_nat (unat ip')" by simp
    ultimately have "ip' = of_nat (256 * (unat ip div 256) + unat ip' mod 256)" by (simp only:)
    then show "ip' \<in> (\<lambda>host. of_nat (256 * (unat ip div 256) + host)) ` {0..<256}" by (intro image_eqI) auto
  qed
  then show ?thesis by (simp only: image_image scan_target_value same set_eq_iff mem_Collect_eq simp_thms)
qed

lemma scan_targets_facts:
  "distinct (scan_targets ip) \<and> set (scan_targets ip) = {ip'. ip' \<noteq> ip \<and> drop_bit 8 ip' = drop_bit 8 ip} \<and>
   length (scan_targets ip) = 255"
proof -
  let ?all = "map (\<lambda>host. of_octets [ipv4_octets ip ! 0, ipv4_octets ip ! 1, ipv4_octets ip ! 2, host]) [0..<256]"
  have targets: "scan_targets ip = filter (\<lambda>ip'. ip' \<noteq> ip) ?all" by (simp only: scan_targets_def Let_def)
  have "inj_on (\<lambda>host. of_nat (256 * (unat ip div 256) + host) :: 32 word) {0..<256}"
  proof (rule inj_onI)
    fix a b :: nat
    assume bounds: "a \<in> {0..<256}" "b \<in> {0..<256}"
    assume "(of_nat (256 * (unat ip div 256) + a) :: 32 word) = of_nat (256 * (unat ip div 256) + b)"
    then have "unat (of_nat (256 * (unat ip div 256) + a) :: 32 word) = unat (of_nat (256 * (unat ip div 256) + b) :: 32 word)"
      by (rule arg_cong)
    then show "a = b" using bounds unat_host_number [of a ip] unat_host_number [of b ip] by simp
  qed
  then have distinct: "distinct ?all" by (simp only: distinct_map distinct_upt set_upt scan_target_value simp_thms)
  have set: "set ?all = {ip'. drop_bit 8 ip' = drop_bit 8 ip}"
    using scan_set [of ip] by (simp only: list.set_map set_upt image_image)
  have targets_set: "set (scan_targets ip) = set ?all - {ip}" by (auto simp only: targets set_filter)
  have "distinct (scan_targets ip)" using distinct targets by simp
  then have "length (scan_targets ip) = card (set ?all - {ip})" using targets_set distinct_card by metis
  also have "\<dots> = length ?all - 1"
    using set distinct distinct_card [of ?all] by (simp only: card_Diff_singleton mem_Collect_eq)
  finally show ?thesis using \<open>distinct (scan_targets ip)\<close> targets_set set by auto
qed

lemma length_scan_channels [simp]: "length (scan_channels port protocol ip) = 255"
  by (simp add: scan_channels_def scan_targets_facts)

lemma silent_device: "ds_device st = ds_device st' \<Longrightarrow> silent X K net client st h = silent X K net client st' h"
  unfolding silent_def probe_def discovery_register_dto_def
  by (simp add: split_def Let_def split: sum.split)

lemma probe_count:
  "ds_confirmations (snd (probe X K net client (hc_host h) (hc_port h) (hc_protocol h) now st)) =
   ds_confirmations st + (if silent X K net client st h then 0 else 1)"
proof -
  have "silent X K net client st h \<longleftrightarrow>
    (case fst (probe X K net client (hc_host h) (hc_port h) (hc_protocol h) now st) of Inr (Some d) \<Rightarrow> False | _ \<Rightarrow> True)"
    unfolding silent_def probe_def by (simp add: split_def Let_def split: sum.split)
  then show ?thesis
    by (cases rule: probe_cases [of X K net client "hc_host h" "hc_port h" "hc_protocol h" now st])
      (auto split: sum.splits option.splits)
qed

lemma probe_all_count:
  "ds_confirmations (snd (probe_all X K net client now hs st)) =
   ds_confirmations st + of_nat (length (filter (\<lambda>h. \<not> silent X K net client st h) hs))"
proof (induction hs arbitrary: st)
  case (Cons h hs)
  let ?st = "snd (probe X K net client (hc_host h) (hc_port h) (hc_protocol h) now st)"
  have "silent X K net client ?st = silent X K net client st"
    using silent_device [of ?st st] by (auto simp: probe_frame)
  with Cons [of ?st] show ?case by (simp add: Let_def split_def probe_count)
qed simp

lemma meanwhile_frame:
  "ds_device (fold (\<lambda>(d, t) st. snd (found d t st)) ms st) = ds_device st \<and>
   ds_identity (fold (\<lambda>(d, t) st. snd (found d t st)) ms st) = ds_identity st \<and>
   ds_timeout (fold (\<lambda>(d, t) st. snd (found d t st)) ms st) = ds_timeout st \<and>
   ds_scanning (fold (\<lambda>(d, t) st. snd (found d t st)) ms st) = ds_scanning st \<and>
   ds_confirmations (fold (\<lambda>(d, t) st. snd (found d t st)) ms st) = ds_confirmations st + of_nat (length ms)"
  by (induction ms arbitrary: st) (auto simp: algebra_simps)

lemma unpinned_client_frame:
  "ds_identity st' = ds_identity st \<Longrightarrow> ds_timeout st' = ds_timeout st \<Longrightarrow> unpinned_client K st' = unpinned_client K st"
  by (simp add: unpinned_client_def discovery_client_def)

lemma filter_arrange:
  assumes "\<And>xs. mset (arrange xs) = mset xs"
  shows "length (filter P (arrange xs)) = length (filter P xs)"
  by (metis assms mset_filter size_mset)

lemma filter_silent_remdups:
  "filter P (concat (map f (remdups ips))) = [] \<longleftrightarrow> filter P (concat (map f ips)) = []"
  by (auto simp: filter_empty_conv)

lemma of_nat_u64_eq_0: "n < 2 ^ 64 \<Longrightarrow> (of_nat n :: u64) = 0 \<longleftrightarrow> n = 0"
  using nat_dvd_not_less [of n "2 ^ 64"] by (auto simp: word_of_nat_eq_0_iff)

lemma announced_host_ip:
  "is_ipv6 (ChannelHttp \<lparr>hc_host = announced_host ip scope, hc_port = port, hc_protocol = p\<rparr>) \<longleftrightarrow> (\<exists>a. ip = IpV6 a)"
proof -
  have "37 \<notin> set (show_ip ip)" using show_ip_chars [of 37 ip] by (auto simp del: show_ip.simps)
  then have "hd (split_on 37 (announced_host ip scope)) = show_ip ip"
    by (cases scope) (auto simp: announced_host_def lit_def hd_split_by takeWhile_append simp del: show_ip.simps)
  then show ?thesis
    by (cases ip) (simp_all add: parses_as_ipv6_def parse_show_ip del: show_ip.simps)
qed

lemma demo_env_checked: "env_checked demo_keyed_ext demo_client_ext (range (demo_tls_net der)) (demo_env fp der)"
  by (auto simp: env_checked_def tls_checked_def demo_env_def demo_tls_net_def split: if_splits)

section \<open>Properties\<close>

text \<open>
  C7. Whatever is announced and probed, with whatever network: the store keeps one entry per
  fingerprint, never one of this device itself, and for every channel of an entry that uses HTTPS
  the host and port of the channel have presented a certificate with the fingerprint of the
  entry (compared without regard to case).
\<close>

theorem discovered_identities:
  assumes "list_all (\<lambda>(e, op). env_checked X K nets e) ops"
  shows "store_ok (ds_store (disc_run X K ops (discovery_start device identity timeout room))) \<and>
    list_all (entry_proven X nets (md_fingerprint device))
      (ds_store (disc_run X K ops (discovery_start device identity timeout room)))"
proof -
  have "disc_inv X nets (discovery_start device identity timeout room)"
    by (simp add: disc_inv_def discovery_start_def store_ok_def)
  from disc_run_inv [OF this assms] show ?thesis by (simp add: disc_inv_def discovery_start_def)
qed

theorem discovered_identities_witness:
  "list_all (entry_proven demo_keyed_ext (range (demo_tls_net [1, 2, 3])) (lit ''FF''))
     (ds_store (disc_run demo_keyed_ext demo_client_ext
       [(demo_env (lit ''03'') [1, 2, 3], OpDiscover (lit ''10.0.0.1'') 1 Https)] demo_start)) \<and>
   demo_entries [(demo_env (lit ''03'') [1, 2, 3], OpDiscover (lit ''10.0.0.1'') 1 Https)] =
     [(lit ''03'', [ChannelHttp \<lparr>hc_host = lit ''10.0.0.1'', hc_port = 1, hc_protocol = Https\<rparr>])]"
proof
  show "demo_entries [(demo_env (lit ''03'') [1, 2, 3], OpDiscover (lit ''10.0.0.1'') 1 Https)] =
     [(lit ''03'', [ChannelHttp \<lparr>hc_host = lit ''10.0.0.1'', hc_port = 1, hc_protocol = Https\<rparr>])]"
    by code_simp
  show "list_all (entry_proven demo_keyed_ext (range (demo_tls_net [1, 2, 3])) (lit ''FF''))
     (ds_store (disc_run demo_keyed_ext demo_client_ext
       [(demo_env (lit ''03'') [1, 2, 3], OpDiscover (lit ''10.0.0.1'') 1 Https)] demo_start))"
    using discovered_identities [where ops = "[(demo_env (lit ''03'') [1, 2, 3], OpDiscover (lit ''10.0.0.1'') 1 Https)]"
        and X = demo_keyed_ext and K = demo_client_ext and nets = "range (demo_tls_net [1, 2, 3])"
        and device = "ds_device demo_start" and identity = "ds_identity demo_start" and timeout = 500 and room = "Some 1"]
    by (simp add: demo_env_checked demo_start_def discovery_start_def)
qed

text \<open>
  C36. The fingerprint of an unencrypted announcement is only claimed, but once the announcing host
  answers the registration, its channel, on which no certificate is checked, is merged into the
  entry of the device of this fingerprint, also of one that has proved it. It becomes the
  best channel of this device exactly when the host has announced itself over IPv6 or the
  device has no available channel over IPv6.
\<close>

theorem claimed_fingerprint_hijacks:
  assumes "mm_protocol message = Http"
    and "discovery_client K None st = Inr client"
    and "register_call X K (net client) Http (announced_host ip scope) (mm_port message)
      (discovery_register_dto st) = Inr response"
    and "store_ok (ds_store st)"
  shows "case ChannelHttp \<lparr>hc_host = announced_host ip scope, hc_port = mm_port message, hc_protocol = Http\<rparr> of c \<Rightarrow>
    \<exists>k. by_fingerprint (ds_store (answer_announcement X K net now ip scope message st)) (mm_fingerprint message) = Some k \<and>
      k = confirm (by_fingerprint (ds_store st) (mm_fingerprint message))
        (confirmed_device (rk_body response) (announced_host ip scope) (mm_port message) Http (mm_fingerprint message)) now \<and>
      map_of (sd_channels k) c = Some Available \<and>
      (get_best_channel k = Some c \<longleftrightarrow>
         (\<exists>a. ip = IpV6 a) \<or> (\<forall>c'. map_of (sd_channels k) c' = Some Available \<longrightarrow> \<not> is_ipv6 c'))"
proof -
  let ?d = "confirmed_device (rk_body response) (announced_host ip scope) (mm_port message) Http (mm_fingerprint message)"
  let ?k = "confirm (by_fingerprint (ds_store st) (mm_fingerprint message)) ?d now"
  let ?c = "ChannelHttp \<lparr>hc_host = announced_host ip scope, hc_port = mm_port message, hc_protocol = Http\<rparr>"
  have store: "ds_store (answer_announcement X K net now ip scope message st) = snd (upsert (ds_store st) ?d now)"
    using assms(1-3) by (simp add: answer_announcement_def Let_def)
  have ok: "device_ok ?k"
    using assms(4) confirm_known_ok confirm_new_ok
    by (auto simp: confirm_def store_ok_def by_fingerprint_def list_all_iff find_Some_iff split: option.split)
  have "dd_channel (sd_device ?k) = ?c"
    by (simp add: confirm_def confirm_known_def confirm_new_def split: option.split)
  with ok have chan: "map_of (sd_channels ?k) ?c = Some Available" "sd_logs ?k \<noteq> []" "dl_channel (last (sd_logs ?k)) = ?c"
    "distinct (map fst (sd_channels ?k))"
    by (auto simp: device_ok_def intro: distinct_channels)
  then have "get_best_channel ?k = Some ?c \<longleftrightarrow>
       is_ipv6 ?c \<or> (\<forall>c'. map_of (sd_channels ?k) c' = Some Available \<longrightarrow> \<not> is_ipv6 c')"
    by (intro latest_best_iff)
  with chan(1) show ?thesis by (simp add: store upsert_get announced_host_ip del: is_ipv6.simps)
qed
theorem claimed_fingerprint_hijacks_witness:
  "by_fingerprint (ds_store demo_known) (lit ''03'') \<noteq> None \<and>
   Option.bind (by_fingerprint (ds_store (answer_announcement demo_keyed_ext demo_client_ext (demo_tls_net [1, 2, 3]) 1
       (IpV6 7) None (the (demo_announcement (lit ''03'') [0])) demo_known)) (lit ''03'')) get_best_channel =
     Some (ChannelHttp \<lparr>hc_host = announced_host (IpV6 7) None, hc_port = 53317, hc_protocol = Http\<rparr>)"
proof -
  let ?m = "the (demo_announcement (lit ''03'') [0])"
  have m: "mm_protocol ?m = Http" "mm_fingerprint ?m = lit ''03''" "mm_port ?m = 53317"
    by (simp_all add: demo_announcement_def)
  obtain client where client: "discovery_client demo_client_ext None demo_known = Inr client"
    by (simp add: discovery_client_def create_reqwest_client_def pinned_verifier_new_def
        demo_client_ext_def ok_or_def ensure_def)
  obtain response where "register_call demo_keyed_ext demo_client_ext (demo_tls_net [1, 2, 3] client) Http
      (announced_host (IpV6 7) None) (mm_port ?m) (discovery_register_dto demo_known) = Inr response"
    by (simp add: register_call_def demo_tls_net_def peer_identity_def response_json_def response_bytes_def
        demo_client_ext_def ok_or_def)
  moreover have "disc_inv demo_keyed_ext (range (demo_tls_net [1, 2, 3])) demo_known"
    unfolding demo_known_def
    by (intro disc_run_inv) (simp_all add: demo_env_checked disc_inv_def demo_start_def discovery_start_def store_ok_def)
  then have "store_ok (ds_store demo_known)" by (simp add: disc_inv_def)
  moreover have "by_fingerprint (ds_store demo_known) (lit ''03'') \<noteq> None" by code_simp
  ultimately show ?thesis
    using claimed_fingerprint_hijacks [of ?m demo_client_ext demo_known client demo_keyed_ext
        "demo_tls_net [1, 2, 3]" "IpV6 7" None response 1] m client by auto
qed

text \<open>
  A scan asks exactly the other 255 addresses of the /24 subnet of the interface, each once.
\<close>

theorem scan_targets_exact:
  "distinct (scan_targets ip) \<and> set (scan_targets ip) = {ip'. ip' \<noteq> ip \<and> drop_bit 8 ip' = drop_bit 8 ip} \<and>
   length (scan_targets ip) = 255"
  by (rule scan_targets_facts)

text \<open>
  Staged discovery finds nothing exactly when there is nothing to find: the number of
  confirmations is unchanged exactly when nothing was confirmed meanwhile and neither a known
  channel nor any host of the subnets of the interfaces answers as another device.
\<close>

theorem staged_discovery_exhaustive:
  assumes "\<And>xs. mset (arrange xs) = mset xs" "ds_scanning st = []"
    and "length known + length meanwhile + 255 * length ips < 2 ^ 64"
    and "unpinned_client K st = Inr client"
    and "discover_staged X K net arrange now meanwhile known ips port protocol st = (r, st')"
  shows "ds_confirmations st' = ds_confirmations st \<longleftrightarrow>
    meanwhile = [] \<and> list_all (silent X K net client st) (known @ concat (map (scan_channels port protocol) ips))"
proof -
  let ?P = "\<lambda>h. \<not> silent X K net client st h"
  let ?k = "length (filter ?P known) + length meanwhile"
  define st1 where "st1 = snd (probe_all X K net client now (arrange known) st)"
  define st2 where "st2 = fold (\<lambda>(d, t) st. snd (found d t st)) meanwhile st1"
  have frame: "ds_device st2 = ds_device st" "ds_identity st2 = ds_identity st" "ds_timeout st2 = ds_timeout st"
    "ds_scanning st2 = []"
    using probe_all_frame [of X K net client now "arrange known" st] meanwhile_frame [of meanwhile st1] assms(2)
    by (simp_all add: st1_def st2_def)
  have count: "ds_confirmations st2 = ds_confirmations st + of_nat ?k"
    using meanwhile_frame [of meanwhile st1]
    by (simp add: st1_def st2_def probe_all_count filter_arrange [OF assms(1)])
  have "discover_known_http_channels X K net arrange now known st =
      (Inr (fst (probe_all X K net client now (arrange known) st)), st1)"
    using assms(4) by (simp add: discover_known_http_channels_def Let_def split_def st1_def)
  then have run: "(r, st') = (if ds_confirmations st2 = ds_confirmations st
      then scan_subnets X K net arrange now port protocol ips st2 else (Inr (), st2))"
    unfolding assms(5) [symmetric] by (simp add: discover_staged_def Let_def st2_def)
  have "?k < 2 ^ 64" using assms(3) length_filter_le [of ?P known] by linarith
  then have unchanged: "ds_confirmations st2 = ds_confirmations st \<longleftrightarrow> ?k = 0"
    using of_nat_u64_eq_0 [of ?k] by (simp add: count)
  have all_known: "?k = 0 \<longleftrightarrow> meanwhile = [] \<and> list_all (silent X K net client st) known"
    by (auto simp: list_all_iff filter_empty_conv)
  show ?thesis
  proof (cases "?k = 0")
    case False
    with run unchanged all_known show ?thesis by auto
  next
    case True
    let ?hosts = "concat (map (scan_channels port protocol) (remdups ips))"
    have "unpinned_client K (st2\<lparr>ds_scanning := remdups ips @ ds_scanning st2\<rparr>) = Inr client"
      using unpinned_client_frame [of "st2\<lparr>ds_scanning := remdups ips @ ds_scanning st2\<rparr>" st K] frame assms(4) by simp
    then have "ds_confirmations st' = ds_confirmations st2 + of_nat (length (filter ?P ?hosts))"
      using run unchanged True frame silent_device [of "st2\<lparr>ds_scanning := remdups ips\<rparr>" st]
      by (auto simp: scan_subnets_def Let_def split_def probe_all_count filter_arrange [OF assms(1)] split: if_splits)
    moreover have "length (filter ?P ?hosts) < 2 ^ 64"
    proof -
      have "length ?hosts = 255 * length (remdups ips)"
        by (simp add: length_concat comp_def sum_list_triv)
      then show ?thesis using assms(3) length_filter_le [of ?P ?hosts] length_remdups_leq [of ips] by linarith
    qed
    ultimately have "ds_confirmations st' = ds_confirmations st \<longleftrightarrow> filter ?P ?hosts = []"
      using of_nat_u64_eq_0 [of "length (filter ?P ?hosts)"] unchanged True by auto
    with True all_known show ?thesis
      by (simp only: filter_silent_remdups) (auto simp: list_all_iff filter_empty_conv)
  qed
qed

theorem staged_discovery_exhaustive_witness:
  "ds_confirmations (snd (discover_staged demo_keyed_ext demo_client_ext (\<lambda>_ _. None) rev 0 []
     [\<lparr>hc_host = lit ''10.0.0.1'', hc_port = 53317, hc_protocol = Https\<rparr>] [] 53317 Https demo_start)) =
   ds_confirmations demo_start"
proof -
  let ?known = "[\<lparr>hc_host = lit ''10.0.0.1'', hc_port = 53317, hc_protocol = Https\<rparr>]"
  obtain r st' where run: "discover_staged demo_keyed_ext demo_client_ext (\<lambda>_ _. None) rev 0 [] ?known [] 53317 Https demo_start = (r, st')"
    by fastforce
  obtain client where client: "unpinned_client demo_client_ext demo_start = Inr client"
    by (simp add: unpinned_client_def discovery_client_def create_reqwest_client_def pinned_verifier_new_def
        demo_client_ext_def ok_or_def ensure_def)
  have "list_all (silent demo_keyed_ext demo_client_ext (\<lambda>_ _. None) client demo_start) ?known"
    by (simp add: silent_def probe_def register_call_def ok_or_def)
  then show ?thesis
    using staged_discovery_exhaustive [of rev demo_start ?known "[]" "[]" demo_client_ext client demo_keyed_ext
        "\<lambda>_ _. None" 0 53317 Https r st'] run client
    by (simp add: demo_start_def discovery_start_def)
qed

end
