(* ===== verification/FB_FsClient.thy ===== *)
theory FB_FsClient
  imports FB_Client FB_RemoteFs FB_Server
begin

text \<open>
  The client of the remote file system (\<^verbatim>\<open>packages/core/src/http/client/firebox.rs\<close>): requests are
  validated before they are sent and answers before they are believed. As in \<open>FB_Client\<close> the
  network is a parameter; \<open>fs_ext\<close> holds the encoder of query strings and the JSON decoders.
\<close>

section \<open>Parameters\<close>

record fs_ext =
  fx_encode_pairs :: "(rstring \<times> rstring) list \<Rightarrow> rstring"
  fx_roots :: "byte list \<Rightarrow> remote_fs_root list option"
  fx_list :: "byte list \<Rightarrow> remote_fs_list_response option"
  fx_entry :: "byte list \<Rightarrow> remote_fs_entry option"
  fx_mutation :: "byte list \<Rightarrow> remote_fs_entry option"
  fx_write :: "byte list \<Rightarrow> u64 option"
  fx_error :: "byte list \<Rightarrow> remote_fs_error_response option"

datatype fs_payload =
    NoFsPayload
  | CreateDirectoryPayload remote_fs_create_directory_request
  | RenamePayload remote_fs_rename_request
  | MovePayload remote_fs_move_request
  | FsContentPayload u64 "byte list list"

record fs_client_request =
  fq_method :: rstring
  fq_url :: rstring
  fq_payload :: fs_payload

record fs_response =
  fo_status :: u16
  fo_content_length :: "u64 option"
  fo_chunks :: "byte list list"
  fo_complete :: bool

type_synonym fs_network = "fs_client_request \<Rightarrow> fs_response option"

datatype fs_client_error =
    FsSetup client_error
  | FsRemote u16 remote_fs_error_response
  | FsReqwest
  | FsJson
  | FsIo
  | FsInvalidRequest remote_fs_error_code
  | FsInvalidResponse
  | FsCancelled

definition MAX_JSON_RESPONSE_SIZE :: nat where "MAX_JSON_RESPONSE_SIZE = 8 * 1024 * 1024"
definition MAX_ERROR_RESPONSE_SIZE :: nat where "MAX_ERROR_RESPONSE_SIZE = 64 * 1024"

section \<open>The client\<close>

definition is_certificate_fingerprint :: "rstring \<Rightarrow> bool" where
  "is_certificate_fingerprint v \<longleftrightarrow>
     str_len v = 64 \<and> (\<forall>b \<in> set v. is_ascii_digit b \<or> 65 \<le> b \<and> b \<le> 70 \<or> 97 \<le> b \<and> b \<le> 102)"

definition firebox_client_new ::
  "client_ext \<Rightarrow> rstring \<Rightarrow> rstring \<Rightarrow> rstring \<Rightarrow> nat option \<Rightarrow> (http_client, fs_client_error) result"
where
  "firebox_client_new K private_key cert expected timeout =
     and_then (ensure (is_certificate_fingerprint expected) (FsInvalidRequest InvalidRequest)) (\<lambda>_.
     map_err FsSetup (create_reqwest_client K private_key cert (Some expected) timeout))"

definition endpoint_url :: "fs_ext \<Rightarrow> rstring \<Rightarrow> u16 \<Rightarrow> string \<Rightarrow> (rstring \<times> rstring) list \<Rightarrow> rstring" where
  "endpoint_url E host port path params =
     lit ''https://'' @ url_host host @ lit '':'' @ show_nat (unat port) @ FIREBOX_API_BASE @ lit path @
     (if params = [] then [] else lit ''?'' @ fx_encode_pairs E params)"

definition fs_request :: "string \<Rightarrow> rstring \<Rightarrow> fs_payload \<Rightarrow> fs_client_request" where
  "fs_request m url p = \<lparr>fq_method = lit m, fq_url = url, fq_payload = p\<rparr>"

section \<open>Bodies\<close>

text \<open>The body collected so far grows only while it stays within the limit.\<close>

definition append_bounded :: "byte list \<Rightarrow> byte list \<Rightarrow> nat \<Rightarrow> (byte list, fs_client_error) result" where
  "append_bounded body chunk max_size =
     (if max_size < length body + length chunk then Inl FsInvalidResponse else Inr (body @ chunk))"

fun collect_chunks :: "nat \<Rightarrow> bool \<Rightarrow> byte list \<Rightarrow> byte list list \<Rightarrow> (byte list, fs_client_error) result" where
  "collect_chunks max_size complete body [] = (if complete then Inr body else Inl FsReqwest)"
| "collect_chunks max_size complete body (chunk # chunks) =
     and_then (append_bounded body chunk max_size) (\<lambda>body. collect_chunks max_size complete body chunks)"

definition collect_bounded_body :: "fs_response \<Rightarrow> nat \<Rightarrow> (byte list, fs_client_error) result" where
  "collect_bounded_body res max_size =
     (if (case fo_content_length res of Some n \<Rightarrow> max_size < unat n | None \<Rightarrow> False) then Inl FsInvalidResponse
      else collect_chunks max_size (fo_complete res) [] (fo_chunks res))"

definition is_success :: "u16 \<Rightarrow> bool" where
  "is_success code \<longleftrightarrow> 200 \<le> code \<and> code < 300"

definition ensure_success :: "fs_ext \<Rightarrow> fs_response \<Rightarrow> (fs_response, fs_client_error) result" where
  "ensure_success E res =
     (if is_success (fo_status res) then Inr res
      else Inl (FsRemote (fo_status res)
        (case collect_bounded_body res MAX_ERROR_RESPONSE_SIZE of
           Inr body \<Rightarrow> (case fx_error E body of Some e \<Rightarrow> e | None \<Rightarrow> error_response_from Internal)
         | Inl _ \<Rightarrow> error_response_from Internal)))"

definition parse_json_response ::
  "fs_ext \<Rightarrow> (byte list \<Rightarrow> 'a option) \<Rightarrow> fs_response \<Rightarrow> ('a, fs_client_error) result"
where
  "parse_json_response E decode res =
     and_then (ensure_success E res) (\<lambda>res.
     and_then (collect_bounded_body res MAX_JSON_RESPONSE_SIZE) (\<lambda>body.
     ok_or (decode body) FsJson))"

definition parse_empty_response :: "fs_ext \<Rightarrow> fs_response \<Rightarrow> u16 \<Rightarrow> (unit, fs_client_error) result" where
  "parse_empty_response E res expected =
     (if fo_status res = expected then Inr ()
      else and_then (ensure_success E res) (\<lambda>res.
           if fo_status res \<noteq> expected then Inl FsInvalidResponse else Inr ()))"

section \<open>Validation\<close>

definition invalid_request :: "'a fs_result \<Rightarrow> ('a, fs_client_error) result" where
  "invalid_request r = map_err FsInvalidRequest r"

definition invalid_response :: "'a fs_result \<Rightarrow> ('a, fs_client_error) result" where
  "invalid_response r = map_err (\<lambda>_. FsInvalidResponse) r"

definition validate_entry_location :: "remote_fs_location \<Rightarrow> (unit, fs_client_error) result" where
  "validate_entry_location l =
     and_then (invalid_request (location_validate l)) (\<lambda>_.
     ensure (fl_path l \<noteq> []) (FsInvalidRequest InvalidPath))"

definition validate_exact_response_entry :: "remote_fs_entry \<Rightarrow> rstring \<Rightarrow> (unit, fs_client_error) result" where
  "validate_exact_response_entry entry expected_path =
     and_then (invalid_response (validate_entry entry None)) (\<lambda>_.
     ensure (fe_path entry = expected_path) FsInvalidResponse)"

definition parse_mutation_response :: "fs_ext \<Rightarrow> fs_response \<Rightarrow> rstring \<Rightarrow> (remote_fs_entry, fs_client_error) result" where
  "parse_mutation_response E res expected_path =
     and_then (parse_json_response E (fx_mutation E) res) (\<lambda>entry.
     and_then (validate_exact_response_entry entry expected_path) (\<lambda>_. Inr entry))"

definition location_params :: "remote_fs_location \<Rightarrow> (rstring \<times> rstring) list" where
  "location_params l = [(lit ''rootId'', fl_root_id l), (lit ''path'', fl_path l)]"

definition bool_text :: "bool \<Rightarrow> rstring" where
  "bool_text b = (if b then lit ''true'' else lit ''false'')"

section \<open>Operations\<close>

definition fsc_roots :: "fs_ext \<Rightarrow> fs_network \<Rightarrow> rstring \<Rightarrow> u16 \<Rightarrow> (remote_fs_root list, fs_client_error) result" where
  "fsc_roots E net host port =
     and_then (ok_or (net (fs_request ''GET'' (endpoint_url E host port ''/roots'' []) NoFsPayload)) FsReqwest) (\<lambda>res.
     and_then (parse_json_response E (fx_roots E) res) (\<lambda>rs.
     and_then (ensure (length rs \<le> 256) FsInvalidResponse) (\<lambda>_.
     and_then (invalid_response (check_roots [] rs)) (\<lambda>_. Inr rs))))"

definition list_params :: "remote_fs_list_request \<Rightarrow> (rstring \<times> rstring) list" where
  "list_params request =
     location_params (flr_location request) @ [(lit ''limit'', show_nat (unat (flr_limit request)))] @
     (case flr_cursor request of Some cursor \<Rightarrow> [(lit ''cursor'', cursor)] | None \<Rightarrow> [])"

definition fsc_list ::
  "fs_ext \<Rightarrow> fs_network \<Rightarrow> rstring \<Rightarrow> u16 \<Rightarrow> remote_fs_list_request \<Rightarrow> (remote_fs_list_response, fs_client_error) result"
where
  "fsc_list E net host port request =
     and_then (invalid_request (list_request_validate request)) (\<lambda>_.
     and_then (ok_or (net (fs_request ''GET'' (endpoint_url E host port ''/files'' (list_params request)) NoFsPayload))
       FsReqwest) (\<lambda>res.
     and_then (parse_json_response E (fx_list E) res) (\<lambda>r.
     and_then (ensure (length (fls_entries r) \<le> unat (flr_limit request) \<and>
       (case fls_next_cursor r of Some cursor \<Rightarrow> \<not> cursor_invalid cursor | None \<Rightarrow> True)) FsInvalidResponse) (\<lambda>_.
     and_then (invalid_response (check_entries (fl_path (flr_location request)) [] (fls_entries r))) (\<lambda>_.
     Inr r)))))"

definition fsc_metadata ::
  "fs_ext \<Rightarrow> fs_network \<Rightarrow> rstring \<Rightarrow> u16 \<Rightarrow> remote_fs_location \<Rightarrow> (remote_fs_entry, fs_client_error) result"
where
  "fsc_metadata E net host port target =
     and_then (validate_entry_location target) (\<lambda>_.
     and_then (ok_or (net (fs_request ''GET''
       (endpoint_url E host port ''/files/metadata'' (location_params target)) NoFsPayload)) FsReqwest) (\<lambda>res.
     and_then (parse_json_response E (fx_entry E) res) (\<lambda>entry.
     and_then (validate_exact_response_entry entry (fl_path target)) (\<lambda>_. Inr entry))))"

definition fsc_create_directory ::
  "fs_ext \<Rightarrow> fs_network \<Rightarrow> rstring \<Rightarrow> u16 \<Rightarrow> remote_fs_create_directory_request \<Rightarrow>
   (remote_fs_entry, fs_client_error) result"
where
  "fsc_create_directory E net host port request =
     and_then (invalid_request (location_validate (fcd_parent request))) (\<lambda>_.
     and_then (invalid_request (validate_file_name (fcd_name request))) (\<lambda>_.
     and_then (ok_or (net (fs_request ''POST'' (endpoint_url E host port ''/files/directory'' [])
       (CreateDirectoryPayload request))) FsReqwest) (\<lambda>res.
     parse_mutation_response E res (child_path (fl_path (fcd_parent request)) (fcd_name request)))))"

definition fsc_rename ::
  "fs_ext \<Rightarrow> fs_network \<Rightarrow> rstring \<Rightarrow> u16 \<Rightarrow> remote_fs_rename_request \<Rightarrow> (remote_fs_entry, fs_client_error) result"
where
  "fsc_rename E net host port request =
     and_then (validate_entry_location (frn_source request)) (\<lambda>_.
     and_then (invalid_request (validate_file_name (frn_new_name request))) (\<lambda>_.
     and_then (ok_or (net (fs_request ''POST'' (endpoint_url E host port ''/files/rename'' [])
       (RenamePayload request))) FsReqwest) (\<lambda>res.
     parse_mutation_response E res
       (child_path (parent_path (fl_path (frn_source request))) (frn_new_name request)))))"

definition fsc_move ::
  "fs_ext \<Rightarrow> fs_network \<Rightarrow> rstring \<Rightarrow> u16 \<Rightarrow> remote_fs_move_request \<Rightarrow> (remote_fs_entry, fs_client_error) result"
where
  "fsc_move E net host port request =
     and_then (validate_entry_location (fmv_source request)) (\<lambda>_.
     and_then (invalid_request (location_validate (fmv_destination_parent request))) (\<lambda>_.
     and_then (case fmv_new_name request of
         Some name \<Rightarrow> invalid_request (validate_file_name name) | None \<Rightarrow> Inr ()) (\<lambda>_.
     and_then (ok_or (net (fs_request ''POST'' (endpoint_url E host port ''/files/move'' [])
       (MovePayload request))) FsReqwest) (\<lambda>res.
     parse_mutation_response E res
       (child_path (fl_path (fmv_destination_parent request))
         (case fmv_new_name request of Some name \<Rightarrow> name | None \<Rightarrow> base_name (fl_path (fmv_source request))))))))"

definition delete_params :: "remote_fs_delete_request \<Rightarrow> (rstring \<times> rstring) list" where
  "delete_params request =
     location_params (fdl_target request) @ [(lit ''recursive'', bool_text (fdl_recursive request))]"

definition fsc_delete ::
  "fs_ext \<Rightarrow> fs_network \<Rightarrow> rstring \<Rightarrow> u16 \<Rightarrow> remote_fs_delete_request \<Rightarrow> (unit, fs_client_error) result"
where
  "fsc_delete E net host port request =
     and_then (validate_entry_location (fdl_target request)) (\<lambda>_.
     and_then (ok_or (net (fs_request ''DELETE'' (endpoint_url E host port ''/files'' (delete_params request))
       NoFsPayload)) FsReqwest) (\<lambda>res.
     parse_empty_response E res 204))"

definition fsc_read ::
  "fs_ext \<Rightarrow> fs_network \<Rightarrow> rstring \<Rightarrow> u16 \<Rightarrow> remote_fs_location \<Rightarrow> (fs_response, fs_client_error) result"
where
  "fsc_read E net host port target =
     and_then (validate_entry_location target) (\<lambda>_.
     and_then (ok_or (net (fs_request ''GET''
       (endpoint_url E host port ''/files/content'' (location_params target)) NoFsPayload)) FsReqwest) (\<lambda>res.
     ensure_success E res))"

definition saturating_add_u64 :: "u64 \<Rightarrow> nat \<Rightarrow> u64" where
  "saturating_add_u64 a n = (if unat a + n < 2 ^ 64 then a + of_nat n else - 1)"

text \<open>
  What the loop observes is a list of chunks, errors and cancellations; \<open>room\<close> is how many
  chunks the writer takes. The result is what was written, the progress and the outcome.
\<close>

fun read_loop ::
  "nat option \<Rightarrow> u64 \<Rightarrow> read_event list \<Rightarrow> byte list \<times> u64 list \<times> (u64, fs_client_error) result"
where
  "read_loop room written [] = ([], [], Inr written)"
| "read_loop room written (ReadCancelled # evs) = ([], [], Inl FsCancelled)"
| "read_loop room written (ReadError # evs) = ([], [], Inl FsReqwest)"
| "read_loop room written (ReadChunk chunk # evs) =
     (if room = Some 0 then ([], [], Inl FsIo)
      else let written = saturating_add_u64 written (length chunk);
               (out, progress, res) = read_loop (map_option (\<lambda>n. n - 1) room) written evs
           in (chunk @ out, written # progress, res))"

definition read_to_writer ::
  "fs_ext \<Rightarrow> fs_network \<Rightarrow> rstring \<Rightarrow> u16 \<Rightarrow> remote_fs_location \<Rightarrow> nat option \<Rightarrow> bool \<Rightarrow> read_event list \<Rightarrow>
   byte list \<times> u64 list \<times> (u64, fs_client_error) result"
where
  "read_to_writer E net host port target room flushed evs =
     (case fsc_read E net host port target of
        Inl e \<Rightarrow> ([], [], Inl e)
      | Inr res \<Rightarrow>
          let (out, progress, r) = read_loop room 0 evs
          in (out, progress,
              and_then r (\<lambda>written.
              if \<not> flushed then Inl FsIo
              else if (case fo_content_length res of Some n \<Rightarrow> n \<noteq> written | None \<Rightarrow> False)
              then Inl FsInvalidResponse else Inr written)))"

definition write_params :: "remote_fs_location \<Rightarrow> bool \<Rightarrow> (rstring \<times> rstring) list" where
  "write_params target overwrite = location_params target @ [(lit ''overwrite'', bool_text overwrite)]"

definition fsc_write ::
  "fs_ext \<Rightarrow> fs_network \<Rightarrow> bool \<Rightarrow> rstring \<Rightarrow> u16 \<Rightarrow> remote_fs_location \<Rightarrow> u64 \<Rightarrow> bool \<Rightarrow> nat option \<Rightarrow> file_content \<Rightarrow>
   (u64, fs_client_error) result \<times> u64 list"
where
  "fsc_write E net cancelled host port target n overwrite receiver content =
     (let body = upload_body receiver content in
      case validate_entry_location target of
        Inl e \<Rightarrow> (Inl e, [])
      | Inr _ \<Rightarrow>
          (if cancelled then Inl FsCancelled
           else
             and_then (ok_or (net (fs_request ''PUT''
               (endpoint_url E host port ''/files/content'' (write_params target overwrite))
               (FsContentPayload n (map fst body)))) FsReqwest) (\<lambda>res.
             and_then (parse_json_response E (fx_write E) res) (\<lambda>bytes_written.
             if bytes_written \<noteq> n then Inl FsInvalidResponse else Inr bytes_written)),
           map snd body))"

text \<open>
  What is relied on of \<^verbatim>\<open>form_urlencoded\<close>: parsing reverses the serializer.
\<close>

definition form_codec :: "ext \<Rightarrow> fs_ext \<Rightarrow> bool" where
  "form_codec X E \<longleftrightarrow> (\<forall>ps. ext_form_parse X (fx_encode_pairs E ps) = ps)"

text \<open>A codec for the witnesses: a length before every text, in unary.\<close>

definition demo_put_text :: "rstring \<Rightarrow> rstring" where
  "demo_put_text s = replicate (length s) 1 @ 0 # s"

definition demo_take_text :: "rstring \<Rightarrow> rstring \<times> rstring" where
  "demo_take_text s =
     (let n = length (takeWhile (\<lambda>c. c = 1) s); rest = drop (Suc n) s in (take n rest, drop n rest))"

fun demo_pairs :: "nat \<Rightarrow> rstring \<Rightarrow> (rstring \<times> rstring) list" where
  "demo_pairs 0 s = []"
| "demo_pairs (Suc n) s =
     (let (k, s1) = demo_take_text s; (v, s2) = demo_take_text s1 in (k, v) # demo_pairs n s2)"

definition demo_form_ext :: ext where
  "demo_form_ext = demo_ext\<lparr>ext_form_parse := (\<lambda>s.
     let n = length (takeWhile (\<lambda>c. c = 1) s) in demo_pairs n (drop (Suc n) s))\<rparr>"

definition demo_fs_ext :: fs_ext where
  "demo_fs_ext =
     \<lparr>fx_encode_pairs = (\<lambda>ps. replicate (length ps) 1 @ 0 #
        concat (map (\<lambda>(k, v). demo_put_text k @ demo_put_text v) ps)),
      fx_roots = (\<lambda>_. None), fx_list = (\<lambda>_. None), fx_entry = (\<lambda>_. None), fx_mutation = (\<lambda>_. None),
      fx_write = (\<lambda>_. None), fx_error = (\<lambda>_. None)\<rparr>"

definition demo_location :: remote_fs_location where
  "demo_location = \<lparr>fl_root_id = lit ''home'', fl_path = lit ''a & b''\<rparr>"

section \<open>Lemmas\<close>

lemma demo_take_put: "demo_take_text (demo_put_text s @ rest) = (s, rest)"
  by (simp add: demo_take_text_def demo_put_text_def takeWhile_append Let_def)

lemma demo_pairs_encoded:
  "demo_pairs (length ps) (concat (map (\<lambda>(k, v). demo_put_text k @ demo_put_text v) ps) @ rest) = ps"
  by (induction ps) (auto simp: demo_take_put)

lemma demo_form_codec: "form_codec demo_form_ext demo_fs_ext"
  using demo_pairs_encoded [of _ "[]"]
  by (simp add: form_codec_def demo_form_ext_def demo_fs_ext_def takeWhile_append Let_def)

lemma validate_entry_location_ok:
  "validate_entry_location l = Inr u \<longleftrightarrow> location_validate l = Inr () \<and> fl_path l \<noteq> []"
  by (auto simp: validate_entry_location_def invalid_request_def res_simps)

lemma parse_query_pairs:
  "form_codec X E \<Longrightarrow> parse_query X (Some (fx_encode_pairs E ps)) = map_of (rev ps)"
  by (simp add: form_codec_def parse_query_def)

lemma location_query:
  assumes "form_codec X E" "location_validate l = Inr ()"
    and "\<And>k v. (k, v) \<in> set extra \<Longrightarrow> k \<noteq> lit ''rootId'' \<and> k \<noteq> lit ''path''"
  shows "location_from_query (parse_query X (Some (fx_encode_pairs E (location_params l @ extra)))) = Inr l"
proof -
  have "map_of (rev extra) k = None" if "k = lit ''rootId'' \<or> k = lit ''path''" for k
    using that assms(3) by (force simp: map_of_eq_None_iff)
  then have "map_of (rev extra) (lit ''rootId'') = None" "map_of (rev extra) (lit ''path'') = None" by blast+
  with assms(1,2) show ?thesis
    by (auto simp: parse_query_pairs location_params_def location_from_query_def location_new_eq map_add_def
        ok_or_def lit_def)
qed

lemma list_query_understood:
  assumes "form_codec X E" "list_request_validate r = Inr ()"
  shows "list_request (parse_query X (Some (fx_encode_pairs E (list_params r)))) = Inr r"
proof -
  let ?q = "parse_query X (Some (fx_encode_pairs E (list_params r)))"
  have valid: "location_validate (flr_location r) = Inr ()" "1 \<le> flr_limit r" "flr_limit r \<le> MAX_LIST_LIMIT"
    using assms(2) by (auto simp: list_request_validate_def res_simps)
  have loc: "location_from_query ?q = Inr (flr_location r)"
    unfolding list_params_def
    by (rule location_query [OF assms(1) valid(1)]) (auto simp: lit_def split: option.splits)
  have q: "?q (lit ''limit'') = Some (show_nat (unat (flr_limit r)))" "?q (lit ''cursor'') = flr_cursor r"
    by (auto simp: parse_query_pairs [OF assms(1)] list_params_def location_params_def lit_def split: option.split)
  have "unat (flr_limit r) < 2 ^ 16" using unsigned_less [of "flr_limit r", where ?'a = nat] by simp
  moreover have "1 \<le> unat (flr_limit r)" "unat (flr_limit r) \<le> unat MAX_LIST_LIMIT"
    using valid(2,3) by (simp_all add: word_le_nat_alt)
  ultimately have "list_limit (?q (lit ''limit'')) = Inr (flr_limit r)"
    by (simp add: q list_limit_def parse_show_nat ensure_def)
  then show ?thesis
    using loc q assms(2) by (cases r) (simp add: list_request_def Let_def)
qed

lemma bool_text_parse: "parse_bool (Some (bool_text b)) d = Inr b"
  by (auto simp: parse_bool_def bool_text_def lit_def)

lemma flagged_query:
  assumes "form_codec X E" "validate_entry_location l = Inr ()" "k \<noteq> lit ''rootId''" "k \<noteq> lit ''path''"
  shows "entry_target (parse_query X (Some (fx_encode_pairs E (location_params l @ [(k, bool_text b)])))) = Inr l"
    "parse_bool (parse_query X (Some (fx_encode_pairs E (location_params l @ [(k, bool_text b)]))) k) d = Inr b"
proof -
  have l: "location_validate l = Inr ()" "fl_path l \<noteq> []"
    using assms(2) by (auto simp: validate_entry_location_ok)
  show "entry_target (parse_query X (Some (fx_encode_pairs E (location_params l @ [(k, bool_text b)])))) = Inr l"
    using location_query [OF assms(1) l(1), of "[(k, bool_text b)]"] assms(3,4) l(2)
    by (simp add: entry_target_def require_entry_path_def ensure_def)
  show "parse_bool (parse_query X (Some (fx_encode_pairs E (location_params l @ [(k, bool_text b)]))) k) d = Inr b"
    by (simp add: parse_query_pairs [OF assms(1)] bool_text_parse)
qed

lemma collect_chunks_ok:
  "collect_chunks max_size complete body chunks = Inr r \<Longrightarrow> length body \<le> max_size \<Longrightarrow>
   r = body @ concat chunks \<and> length r \<le> max_size \<and> complete"
  by (induction chunks arbitrary: body) (fastforce simp: res_simps append_bounded_def split: if_splits)+

lemma read_loop_ok:
  "read_loop room w evs = (out, progress, Inr n) \<Longrightarrow>
   \<exists>chunks. evs = map ReadChunk chunks \<and> out = concat chunks \<and>
     (unat w + length out < 2 ^ 64 \<longrightarrow> unat n = unat w + length out)"
proof (induction room w evs arbitrary: out progress rule: read_loop.induct)
  case (4 room w chunk evs)
  let ?w = "saturating_add_u64 w (length chunk)"
  obtain out' progress' where rest: "read_loop (map_option (\<lambda>n. n - 1) room) ?w evs = (out', progress', Inr n)"
    "out = chunk @ out'" "room \<noteq> Some 0"
    using "4.prems" by (auto simp: Let_def split: if_splits prod.splits)
  then obtain chunks where ch: "evs = map ReadChunk chunks" "out' = concat chunks"
    "unat ?w + length out' < 2 ^ 64 \<longrightarrow> unat n = unat ?w + length out'"
    using "4.IH" [OF _ refl] by blast
  have "unat n = unat w + length out" if "unat w + length out < 2 ^ 64"
  proof -
    have "unat w + length chunk < 2 ^ 64" using that rest(2) by simp
    then have "unat ?w = unat w + length chunk"
      by (simp add: saturating_add_u64_def unat_word_ariths take_bit_nat_eq_self unat_of_nat)
    with ch(3) that rest(2) show ?thesis by simp
  qed
  with ch rest(2) show ?case by (intro exI [of _ "chunk # chunks"]) simp
qed auto

lemma invalid_response_ok: "invalid_response r = Inr u \<longleftrightarrow> r = Inr u" "invalid_request r' = Inr u' \<longleftrightarrow> r' = Inr u'"
  by (simp_all add: invalid_response_def invalid_request_def res_simps)

text \<open>An entry as asked for: well formed, at this place and with this name.\<close>

definition entry_is :: "remote_fs_entry \<Rightarrow> rstring \<Rightarrow> rstring \<Rightarrow> bool" where
  "entry_is e path name \<longleftrightarrow> validate_entry e None = Inr () \<and> fe_path e = path \<and> fe_name e = name"

lemma mutation_response_ok:
  "parse_mutation_response E res (child_path par name) = Inr e \<Longrightarrow> 47 \<notin> set name \<Longrightarrow> entry_is e (child_path par name) name"
  using base_name_child [of name par]
  by (auto simp: entry_is_def parse_mutation_response_def validate_exact_response_entry_def validate_entry_ok invalid_response_ok res_simps)

lemma list_response_ok:
  assumes "fsc_list E net host port lr = Inr r"
  shows "length (fls_entries r) \<le> unat (flr_limit lr) \<and> length (fls_entries r) \<le> 1000 \<and>
    distinct (map fe_path (fls_entries r)) \<and>
    (case fls_next_cursor r of Some cursor \<Rightarrow> \<not> cursor_invalid cursor | None \<Rightarrow> True) \<and>
    list_all (\<lambda>e. validate_entry e (Some (fl_path (flr_location lr))) = Inr () \<and>
      resolve root (fe_path e) = resolve root (fl_path (flr_location lr)) @ [fe_name e]) (fls_entries r)"
proof -
  have r: "list_request_validate lr = Inr ()" "length (fls_entries r) \<le> unat (flr_limit lr)"
    "check_entries (fl_path (flr_location lr)) [] (fls_entries r) = Inr ()"
    "case fls_next_cursor r of Some cursor \<Rightarrow> \<not> cursor_invalid cursor | None \<Rightarrow> True"
    using assms by (auto simp: fsc_list_def res_simps invalid_response_ok)
  then have "flr_limit lr \<le> 1000" "validate_relative_path (fl_path (flr_location lr)) = Inr ()"
    by (auto simp: list_request_validate_def location_validate_def MAX_LIST_LIMIT_def res_simps)
  moreover from this(1) have "unat (flr_limit lr) \<le> 1000" by (simp add: word_le_nat_alt)
  ultimately show ?thesis
    using r(2-4) resolve_child [of "fl_path (flr_location lr)" _ root]
    by (auto simp: list_all_iff check_entries_ok validate_entry_ok)
qed

section \<open>Properties\<close>

text \<open>
  C38. Whatever a server answers, what the client returns is well formed: a listing has at most the
  requested number of entries (never more than 1000), none twice, each valid and a direct child
  of the requested directory below the root, and a valid cursor; roots are valid and their ids
  distinct; and the entry returned for metadata, a new directory, a rename or a move is
  valid and has the place and the name that were asked for.
\<close>

theorem fs_client_results_wellformed:
  "(case fsc_list E net host port lr of Inl e \<Rightarrow> True | Inr r \<Rightarrow>
      length (fls_entries r) \<le> unat (flr_limit lr) \<and> length (fls_entries r) \<le> 1000 \<and>
      distinct (map fe_path (fls_entries r)) \<and>
      (case fls_next_cursor r of Some cursor \<Rightarrow> \<not> cursor_invalid cursor | None \<Rightarrow> True) \<and>
      list_all (\<lambda>e. validate_entry e (Some (fl_path (flr_location lr))) = Inr () \<and>
        resolve root (fe_path e) = resolve root (fl_path (flr_location lr)) @ [fe_name e]) (fls_entries r)) \<and>
   (case fsc_roots E net host port of Inl e \<Rightarrow> True | Inr rs \<Rightarrow>
      length rs \<le> 256 \<and> distinct (map fr_id rs) \<and> list_all (\<lambda>r. validate_root r = Inr ()) rs) \<and>
   (case fsc_metadata E net host port l of Inl e \<Rightarrow> True | Inr e \<Rightarrow> entry_is e (fl_path l) (base_name (fl_path l))) \<and>
   (case fsc_create_directory E net host port cr of Inl e \<Rightarrow> True | Inr e \<Rightarrow>
      entry_is e (child_path (fl_path (fcd_parent cr)) (fcd_name cr)) (fcd_name cr)) \<and>
   (case fsc_rename E net host port rr of Inl e \<Rightarrow> True | Inr e \<Rightarrow>
      entry_is e (child_path (parent_path (fl_path (frn_source rr))) (frn_new_name rr)) (frn_new_name rr)) \<and>
   (case fsc_move E net host port mr of Inl e \<Rightarrow> True | Inr e \<Rightarrow>
      case (case fmv_new_name mr of Some name \<Rightarrow> name | None \<Rightarrow> base_name (fl_path (fmv_source mr))) of name \<Rightarrow>
        entry_is e (child_path (fl_path (fmv_destination_parent mr)) name) name)"
proof -
  have roots: "length rs \<le> 256 \<and> distinct (map fr_id rs) \<and> list_all (\<lambda>r. validate_root r = Inr ()) rs"
    if "fsc_roots E net host port = Inr rs" for rs
    using that by (auto simp: fsc_roots_def res_simps invalid_response_ok check_roots_ok list_all_iff)
  have metadata: "entry_is e (fl_path l) (base_name (fl_path l))" if "fsc_metadata E net host port l = Inr e" for e
    using that by (auto simp: fsc_metadata_def entry_is_def validate_exact_response_entry_def validate_entry_ok
        invalid_response_ok res_simps)
  have create: "entry_is e (child_path (fl_path (fcd_parent cr)) (fcd_name cr)) (fcd_name cr)"
    if "fsc_create_directory E net host port cr = Inr e" for e
    using that valid_name_no_slash mutation_response_ok
    by (auto simp: fsc_create_directory_def res_simps invalid_response_ok)
  have rename: "entry_is e (child_path (parent_path (fl_path (frn_source rr))) (frn_new_name rr)) (frn_new_name rr)"
    if "fsc_rename E net host port rr = Inr e" for e
    using that valid_name_no_slash mutation_response_ok
    by (auto simp: fsc_rename_def res_simps invalid_response_ok)
  have move: "entry_is e (child_path (fl_path (fmv_destination_parent mr)) name) name"
    if "fsc_move E net host port mr = Inr e" and "name = (case fmv_new_name mr of Some n \<Rightarrow> n | None \<Rightarrow> base_name (fl_path (fmv_source mr)))"
    for e name
    using that valid_name_no_slash mutation_response_ok [of E _ "fl_path (fmv_destination_parent mr)" name e]
      base_name_no_slash [of "fl_path (fmv_source mr)"]
    by (auto simp: fsc_move_def res_simps invalid_response_ok split: option.splits)
  show ?thesis using list_response_ok roots metadata create rename move by (simp split: sum.split)
qed
text \<open>
  A read that succeeds has written exactly the chunks that arrived, in order and with none
  missing at an error or a cancellation; its result is their size, and the size the server
  announced, when it did.
\<close>

theorem fs_read_exact:
  assumes "read_to_writer E net host port target room flushed evs = (out, progress, Inr n)"
    and "length out < 2 ^ 64"
  shows "\<exists>chunks res. evs = map ReadChunk chunks \<and> out = concat chunks \<and> unat n = length out \<and>
    fsc_read E net host port target = Inr res \<and>
    (case fo_content_length res of None \<Rightarrow> True | Some k \<Rightarrow> unat k = length out)"
proof -
  obtain res where res: "fsc_read E net host port target = Inr res"
    and loop: "read_loop room 0 evs = (out, progress, Inr n)"
    and len: "case fo_content_length res of None \<Rightarrow> True | Some k \<Rightarrow> k = n"
    using assms(1) by (auto simp: read_to_writer_def res_simps Let_def split: sum.splits prod.splits if_splits option.splits)
  from read_loop_ok [OF loop] assms(2) obtain chunks where
    "evs = map ReadChunk chunks" "out = concat chunks" "unat n = length out" by auto
  with res len show ?thesis by (intro exI [of _ chunks] exI [of _ res]) (auto split: option.split)
qed

theorem fs_read_exact_witness:
  "read_to_writer demo_fs_ext (\<lambda>_. Some \<lparr>fo_status = 200, fo_content_length = Some 3, fo_chunks = [], fo_complete = True\<rparr>)
     (lit ''h'') 1 demo_location None True [ReadChunk [1, 2], ReadChunk [3]] = ([1, 2, 3], [2, 3], Inr 3) \<and>
   unat (3 :: u64) = length [1, 2, 3 :: byte]"
proof -
  let ?net = "\<lambda>_. Some \<lparr>fo_status = 200, fo_content_length = Some 3, fo_chunks = [], fo_complete = True\<rparr>"
  have "validate_entry_location demo_location = Inr ()" by code_simp
  then have read: "read_to_writer demo_fs_ext ?net (lit ''h'') 1 demo_location None True [ReadChunk [1, 2], ReadChunk [3]] =
      ([1, 2, 3], [2, 3], Inr 3)"
    by (simp add: read_to_writer_def fsc_read_def ok_or_def ensure_success_def is_success_def saturating_add_u64_def
        and_then_def)
  with fs_read_exact [OF read] show ?thesis by simp
qed

end
