(* ===== verification/FB_FsRequests.thy ===== *)
theory FB_FsRequests
  imports FB_FsClient
begin

text \<open>
  The client of the remote file system against its server: what each operation of
  \<^verbatim>\<open>client/firebox.rs\<close> sends, how this arrives as a request, and that the
  handlers of \<^verbatim>\<open>server/firebox.rs\<close> read it as the same request.
\<close>

section \<open>From the client to the server\<close>

text \<open>
  \<^verbatim>\<open>serde_json::to_vec\<close> at the three request types; what is relied on of \<^verbatim>\<open>serde\<close> is that
  the derived decoder reads back what the derived encoder of the same type has written.
\<close>

record fs_encoders =
  fenc_create :: "remote_fs_create_directory_request \<Rightarrow> byte list"
  fenc_rename :: "remote_fs_rename_request \<Rightarrow> byte list"
  fenc_move :: "remote_fs_move_request \<Rightarrow> byte list"

definition json_codec :: "fs_decoders \<Rightarrow> fs_encoders \<Rightarrow> bool" where
  "json_codec D J \<longleftrightarrow>
     (\<forall>r. fdec_create D (fenc_create J r) = Some r) \<and> (\<forall>r. fdec_rename D (fenc_rename J r) = Some r) \<and>
     (\<forall>r. fdec_move D (fenc_move J r) = Some r)"

fun payload_bytes :: "fs_encoders \<Rightarrow> fs_payload \<Rightarrow> byte list" where
  "payload_bytes J (CreateDirectoryPayload r) = fenc_create J r"
| "payload_bytes J (RenamePayload r) = fenc_rename J r"
| "payload_bytes J (MovePayload r) = fenc_move J r"
| "payload_bytes J (FsContentPayload n chunks) = concat chunks"
| "payload_bytes J NoFsPayload = []"

text \<open>
  A request as it arrives: the method, the path up to the question mark and the query behind it, and
  the bytes of the body in some frames, for a content at least its length in the header.
\<close>

definition arrives :: "ext \<Rightarrow> fs_encoders \<Rightarrow> rstring \<Rightarrow> u16 \<Rightarrow> fs_client_request \<Rightarrow> request \<Rightarrow> bool" where
  "arrives X J host port q req \<longleftrightarrow>
     rq_method req = fq_method q \<and>
     fq_url q = lit ''https://'' @ url_host host @ lit '':'' @ show_nat (unat port) @ rq_path req @
       (case rq_query req of None \<Rightarrow> [] | Some s \<Rightarrow> lit ''?'' @ s) \<and>
     63 \<notin> set (rq_path req) \<and>
     (case fq_payload q of
        FsContentPayload n chunks \<Rightarrow>
          (\<exists>v. header_get (rq_headers req) (lit ''content-length'') = Some v \<and> ext_header_text X v = Some (show_nat (unat n)))
      | payload \<Rightarrow> FrameError \<notin> set (rq_body req) \<and> body_data (rq_body req) = payload_bytes J payload)"

text \<open>The server knows the peer by its certificate and has a permit left.\<close>

definition admitted :: "fs_env_params \<Rightarrow> remote_fs_state \<Rightarrow> request_client_info \<Rightarrow> remote_fs_peer \<Rightarrow> bool" where
  "admitted P st ci peer \<longleftrightarrow>
     cert_fingerprint (fp_ext P) ci = Some (rp_fingerprint peer) \<and> rp_ip peer = ci_ip ci \<and> rf_request_slots st \<noteq> 0"

text \<open>The two limits of the server that the client does not know: of a JSON body and of a file.\<close>

fun too_large :: "remote_fs_state \<Rightarrow> fs_encoders \<Rightarrow> fs_payload \<Rightarrow> bool" where
  "too_large st J (FsContentPayload n chunks) \<longleftrightarrow> rf_max_write_size st < n"
| "too_large st J payload \<longleftrightarrow> MAX_JSON_BODY_SIZE < length (payload_bytes J payload)"

text \<open>
  The operation asks the network for \<open>q\<close> and nothing else, and its result is that of the answer.
\<close>

definition sends :: "(fs_network \<Rightarrow> ('a, fs_client_error) result) \<Rightarrow> fs_client_request \<Rightarrow> bool" where
  "sends operation q \<longleftrightarrow> (\<exists>finish. \<forall>net. operation net = and_then (ok_or (net q) FsReqwest) finish)"

text \<open>
  A request that is valid is sent, and is read as the event it stands for or refused for its
  size without an event; one that is not valid is refused by the client whatever the network does.
\<close>

definition understood ::
  "fs_env_params \<Rightarrow> remote_fs_state \<Rightarrow> request_client_info \<Rightarrow> remote_fs_peer \<Rightarrow> fs_encoders \<Rightarrow> rstring \<Rightarrow> u16 \<Rightarrow>
   (fs_network \<Rightarrow> ('a, fs_client_error) result) \<Rightarrow> fs_client_request \<Rightarrow> remote_fs_event \<Rightarrow> bool"
where
  "understood P st ci peer J host port operation q event \<longleftrightarrow>
     (if event_ok (- 1) peer event
      then sends operation q \<and>
        (\<forall>req. arrives (fp_ext P) J host port q req \<longrightarrow>
           (if too_large st J (fq_payload q)
            then handle P (Some st) req ci = (fs_error_response PayloadTooLarge, [])
            else snd (handle P (Some st) req ci) = [event]))
      else \<exists>e. \<forall>net. operation net = Inl e)"

section \<open>Lemmas\<close>

lemma collect_limited_data:
  "FrameError \<notin> set fs \<Longrightarrow> length bytes \<le> MAX_JSON_BODY_SIZE \<Longrightarrow> collect_limited bytes fs =
     (if MAX_JSON_BODY_SIZE < length bytes + length (body_data fs) then Inl PayloadTooLarge else Inr (bytes @ body_data fs))"
  by (induction bytes fs rule: collect_limited.induct) auto

lemma url_parts:
  assumes "p @ (case q of None \<Rightarrow> [] | Some s \<Rightarrow> lit ''?'' @ s) = p' @ (case q' of None \<Rightarrow> [] | Some s \<Rightarrow> lit ''?'' @ s)"
    and "63 \<notin> set p" "63 \<notin> set p'"
  shows "p' = p \<and> q' = q"
proof -
  have path: "takeWhile (\<lambda>c. c \<noteq> 63) (r @ (case u of None \<Rightarrow> [] | Some s \<Rightarrow> lit ''?'' @ s)) = r" if "63 \<notin> set r" for r u
    using that by (cases u) (auto simp: lit_def takeWhile_append takeWhile_eq_all_conv)
  have "p' = p" using path [of p q] path [of p' q'] assms by metis
  with assms(1) show ?thesis by (cases q; cases q') (auto simp: lit_def)
qed

lemma arrives_parts:
  assumes "arrives X J host port (fs_request m (endpoint_url E host port path params) payload) req" "63 \<notin> set (lit path)"
  shows "rq_method req = lit m" "rq_path req = fs_path path"
    "rq_query req = (if params = [] then None else Some (fx_encode_pairs E params))"
proof -
  let ?q = "if params = [] then None else Some (fx_encode_pairs E params)"
  have base: "FIREBOX_API_BASE @ lit path = fs_path path" by (simp add: fs_path_def FIREBOX_API_BASE_def)
  have "fs_path path @ (case ?q of None \<Rightarrow> [] | Some s \<Rightarrow> lit ''?'' @ s) =
      rq_path req @ (case rq_query req of None \<Rightarrow> [] | Some s \<Rightarrow> lit ''?'' @ s)"
    using assms(1) by (auto simp: arrives_def fs_request_def endpoint_url_def base [symmetric])
  moreover have "63 \<notin> set (fs_path path)" using assms(2) by (simp add: fs_path_def lit_def)
  ultimately have "rq_path req = fs_path path \<and> rq_query req = ?q"
    using assms(1) by (intro url_parts) (auto simp: arrives_def)
  then show "rq_path req = fs_path path" "rq_query req = ?q" by simp_all
  show "rq_method req = lit m" using assms(1) by (simp add: arrives_def fs_request_def)
qed

lemma handle_routed:
  assumes "admitted P st ci peer" "fs_route P (st\<lparr>rf_request_slots := rf_request_slots st - 1\<rparr>) req peer = (res, evs)"
  shows "handle P (Some st) req ci = (case res of Inr response \<Rightarrow> response | Inl code \<Rightarrow> fs_error_response code, evs)"
  using assms by (cases peer) (simp add: admitted_def handle_def handle_inner_def authenticated_peer_def try_acquire_request_def ok_or_def)

lemma sendsI: "(\<And>net. operation net = and_then (ok_or (net q) FsReqwest) finish) \<Longrightarrow> sends operation q"
  by (auto simp: sends_def)

lemma understoodI:
  assumes "admitted P st ci peer"
    and "\<not> event_ok (- 1) peer event \<Longrightarrow> \<exists>e. \<forall>net. operation net = Inl e"
    and "event_ok (- 1) peer event \<Longrightarrow> sends operation (fs_request m (endpoint_url E host port path params) payload)"
    and "63 \<notin> set (lit path)"
    and "\<And>req st'. event_ok (- 1) peer event \<Longrightarrow> rf_max_write_size st' = rf_max_write_size st \<Longrightarrow>
      arrives (fp_ext P) J host port (fs_request m (endpoint_url E host port path params) payload) req \<Longrightarrow>
      rq_method req = lit m \<Longrightarrow> rq_path req = fs_path path \<Longrightarrow>
      rq_query req = (if params = [] then None else Some (fx_encode_pairs E params)) \<Longrightarrow>
      (if too_large st J payload then fs_route P st' req peer = (Inl PayloadTooLarge, [])
       else snd (fs_route P st' req peer) = [event])"
  shows "understood P st ci peer J host port operation (fs_request m (endpoint_url E host port path params) payload) event"
proof (cases "event_ok (- 1) peer event")
  case True
  let ?q = "fs_request m (endpoint_url E host port path params) payload" and ?st = "st\<lparr>rf_request_slots := rf_request_slots st - 1\<rparr>"
  have "if too_large st J (fq_payload ?q) then handle P (Some st) req ci = (fs_error_response PayloadTooLarge, [])
      else snd (handle P (Some st) req ci) = [event]" if "arrives (fp_ext P) J host port ?q req" for req
  proof -
    obtain res evs where route: "fs_route P ?st req peer = (res, evs)" by fastforce
    have "if too_large st J payload then fs_route P ?st req peer = (Inl PayloadTooLarge, []) else snd (fs_route P ?st req peer) = [event]"
      using arrives_parts [OF that assms(4)] by (intro assms(5) True that) simp_all
    then show ?thesis
      using handle_routed [OF assms(1), of req res evs] route by (auto simp: fs_request_def)
  qed
  then show ?thesis using True assms(3) by (auto simp: understood_def)
qed (use assms(2) in \<open>simp add: understood_def\<close>)

lemma json_understood:
  assumes "arrives X J host port (fs_request m url payload) req" "\<forall>n chunks. payload \<noteq> FsContentPayload n chunks"
    and "decode (payload_bytes J payload) = Some r"
  shows "collect_json decode (rq_body req) = (if too_large st J payload then Inl PayloadTooLarge else Inr r)"
proof -
  have "FrameError \<notin> set (rq_body req)" "body_data (rq_body req) = payload_bytes J payload"
    using assms(1,2) by (auto simp: arrives_def fs_request_def split: fs_payload.splits)
  moreover have "too_large st J payload \<longleftrightarrow> MAX_JSON_BODY_SIZE < length (payload_bytes J payload)"
    using assms(2) by (cases payload) simp_all
  ultimately show ?thesis
    using collect_limited_data [of "rq_body req" "[]"] assms(3) by (simp add: collect_json_def ok_or_def)
qed

lemma invalid_request_simps [simp]: "invalid_request (Inr x) = Inr x" "invalid_request (Inl e) = Inl (FsInvalidRequest e)"
  by (simp_all add: invalid_request_def map_err_def)

lemma valid_target [simp]: "validate_entry_location l = Inr () \<longleftrightarrow> target_ok l"
  by (auto simp: validate_entry_location_ok target_ok_def)

lemma target_valid [simp]: "target_ok l \<Longrightarrow> validate_entry_location l = Inr ()"
  by simp

lemmas route_simps = fs_route_def handler_defs fs_path_def lit_def

lemma params_nonempty [simp]: "location_params l @ ps \<noteq> []" "location_params l \<noteq> []"
  by (simp_all add: location_params_def)

lemma target_query:
  assumes "form_codec X E" "target_ok l"
  shows "entry_target (parse_query X (Some (fx_encode_pairs E (location_params l)))) = Inr l"
  using location_query [OF assms(1), of l "[]"] assms(2)
  by (simp add: target_ok_def entry_target_def require_entry_path_def ensure_def)

lemma roots_understood:
  assumes "admitted P st ci peer"
  shows "understood P st ci peer J host port (\<lambda>net. fsc_roots E net host port)
      (fs_request ''GET'' (endpoint_url E host port ''/roots'' []) NoFsPayload) (FsRoots peer)"
proof (rule understoodI [OF assms(1), where m = "''GET''" and path = "''/roots''" and params = "[]" and payload = NoFsPayload and E = E])
  show "sends (\<lambda>net. fsc_roots E net host port) (fs_request ''GET'' (endpoint_url E host port ''/roots'' []) NoFsPayload)"
    by (rule sendsI) (simp add: fsc_roots_def)
qed (simp_all add: route_simps)

lemma list_understood:
  assumes "admitted P st ci peer"
    and "form_codec (fp_ext P) E"
  shows "understood P st ci peer J host port (\<lambda>net. fsc_list E net host port r)
      (fs_request ''GET'' (endpoint_url E host port ''/files'' (list_params r)) NoFsPayload) (FsList peer r)"
proof (rule understoodI [OF assms(1), where m = "''GET''" and path = "''/files''" and params = "list_params r" and payload = NoFsPayload and E = E])
  assume "event_ok (- 1) peer (FsList peer r)"
  then show "sends (\<lambda>net. fsc_list E net host port r) (fs_request ''GET'' (endpoint_url E host port ''/files'' (list_params r)) NoFsPayload)"
    by (intro sendsI) (simp add: fsc_list_def)
next
  assume "\<not> event_ok (- 1) peer (FsList peer r)"
  then show "\<exists>e. \<forall>net. fsc_list E net host port r = Inl e"
    by (cases "list_request_validate r") (simp_all add: fsc_list_def)
next
  fix req :: request and st'
  assume "event_ok (- 1) peer (FsList peer r)" "rq_method req = lit ''GET''" "rq_path req = fs_path ''/files''"
    "rq_query req = (if list_params r = [] then None else Some (fx_encode_pairs E (list_params r)))"
  moreover have "list_params r \<noteq> []" by (simp add: list_params_def)
  ultimately show "if too_large st J NoFsPayload then fs_route P st' req peer = (Inl PayloadTooLarge, [])
      else snd (fs_route P st' req peer) = [FsList peer r]"
    using list_query_understood [OF assms(2), of r] by (simp add: route_simps)
qed (simp add: lit_def)

lemma metadata_understood:
  assumes "admitted P st ci peer"
    and "form_codec (fp_ext P) E"
  shows "understood P st ci peer J host port (\<lambda>net. fsc_metadata E net host port l)
      (fs_request ''GET'' (endpoint_url E host port ''/files/metadata'' (location_params l)) NoFsPayload) (FsMetadata peer l)"
proof (rule understoodI [OF assms(1), where m = "''GET''" and path = "''/files/metadata''" and params = "location_params l" and payload = NoFsPayload and E = E])
  assume "event_ok (- 1) peer (FsMetadata peer l)"
  then show "sends (\<lambda>net. fsc_metadata E net host port l)
      (fs_request ''GET'' (endpoint_url E host port ''/files/metadata'' (location_params l)) NoFsPayload)"
    by (intro sendsI) (simp add: fsc_metadata_def)
next
  assume "\<not> event_ok (- 1) peer (FsMetadata peer l)"
  then show "\<exists>e. \<forall>net. fsc_metadata E net host port l = Inl e"
    by (cases "validate_entry_location l") (auto simp: fsc_metadata_def)
next
  fix req :: request and st'
  assume "event_ok (- 1) peer (FsMetadata peer l)" "rq_method req = lit ''GET''" "rq_path req = fs_path ''/files/metadata''"
    "rq_query req = (if location_params l = [] then None else Some (fx_encode_pairs E (location_params l)))"
  then show "if too_large st J NoFsPayload then fs_route P st' req peer = (Inl PayloadTooLarge, [])
      else snd (fs_route P st' req peer) = [FsMetadata peer l]"
    using target_query [OF assms(2), of l] by (simp add: route_simps)
qed (simp add: lit_def)

lemma create_understood:
  assumes "admitted P st ci peer"
    and "json_codec (fp_decoders P) J"
  shows "understood P st ci peer J host port (\<lambda>net. fsc_create_directory E net host port r)
      (fs_request ''POST'' (endpoint_url E host port ''/files/directory'' []) (CreateDirectoryPayload r)) (FsCreateDirectory peer r)"
proof (rule understoodI [OF assms(1), where m = "''POST''" and path = "''/files/directory''" and params = "[]" and payload = "CreateDirectoryPayload r" and E = E])
  assume "event_ok (- 1) peer (FsCreateDirectory peer r)"
  then show "sends (\<lambda>net. fsc_create_directory E net host port r)
      (fs_request ''POST'' (endpoint_url E host port ''/files/directory'' []) (CreateDirectoryPayload r))"
    by (intro sendsI) (simp add: fsc_create_directory_def)
next
  assume "\<not> event_ok (- 1) peer (FsCreateDirectory peer r)"
  then show "\<exists>e. \<forall>net. fsc_create_directory E net host port r = Inl e"
    by (cases "location_validate (fcd_parent r)"; cases "validate_file_name (fcd_name r)") (auto simp: fsc_create_directory_def)
next
  fix req :: request and st'
  assume "event_ok (- 1) peer (FsCreateDirectory peer r)" "rq_method req = lit ''POST''" "rq_path req = fs_path ''/files/directory''"
    "arrives (fp_ext P) J host port (fs_request ''POST'' (endpoint_url E host port ''/files/directory'' []) (CreateDirectoryPayload r)) req"
  then show "if too_large st J (CreateDirectoryPayload r) then fs_route P st' req peer = (Inl PayloadTooLarge, [])
      else snd (fs_route P st' req peer) = [FsCreateDirectory peer r]"
    using json_understood [of "fp_ext P" J host port _ _ "CreateDirectoryPayload r" req "fdec_create (fp_decoders P)" r st] assms(2)
    by (simp add: route_simps json_codec_def create_request_def)
qed (simp add: lit_def)

lemma rename_understood:
  assumes "admitted P st ci peer"
    and "json_codec (fp_decoders P) J"
  shows "understood P st ci peer J host port (\<lambda>net. fsc_rename E net host port r)
      (fs_request ''POST'' (endpoint_url E host port ''/files/rename'' []) (RenamePayload r)) (FsRename peer r)"
proof (rule understoodI [OF assms(1), where m = "''POST''" and path = "''/files/rename''" and params = "[]" and payload = "RenamePayload r" and E = E])
  assume "event_ok (- 1) peer (FsRename peer r)"
  then show "sends (\<lambda>net. fsc_rename E net host port r)
      (fs_request ''POST'' (endpoint_url E host port ''/files/rename'' []) (RenamePayload r))"
    by (intro sendsI) (simp add: fsc_rename_def)
next
  assume "\<not> event_ok (- 1) peer (FsRename peer r)"
  then show "\<exists>e. \<forall>net. fsc_rename E net host port r = Inl e"
    by (cases "validate_entry_location (frn_source r)"; cases "validate_file_name (frn_new_name r)") (auto simp: fsc_rename_def)
next
  fix req :: request and st'
  assume "event_ok (- 1) peer (FsRename peer r)" "rq_method req = lit ''POST''" "rq_path req = fs_path ''/files/rename''"
    "arrives (fp_ext P) J host port (fs_request ''POST'' (endpoint_url E host port ''/files/rename'' []) (RenamePayload r)) req"
  then show "if too_large st J (RenamePayload r) then fs_route P st' req peer = (Inl PayloadTooLarge, [])
      else snd (fs_route P st' req peer) = [FsRename peer r]"
    using json_understood [of "fp_ext P" J host port _ _ "RenamePayload r" req "fdec_rename (fp_decoders P)" r st] assms(2)
    by (simp add: route_simps json_codec_def rename_request_def target_ok_def require_entry_path_def ensure_def)
qed (simp add: lit_def)

lemma move_understood:
  assumes "admitted P st ci peer"
    and "json_codec (fp_decoders P) J"
  shows "understood P st ci peer J host port (\<lambda>net. fsc_move E net host port r)
      (fs_request ''POST'' (endpoint_url E host port ''/files/move'' []) (MovePayload r)) (FsMove peer r)"
proof (rule understoodI [OF assms(1), where m = "''POST''" and path = "''/files/move''" and params = "[]" and payload = "MovePayload r" and E = E])
  assume "event_ok (- 1) peer (FsMove peer r)"
  then show "sends (\<lambda>net. fsc_move E net host port r)
      (fs_request ''POST'' (endpoint_url E host port ''/files/move'' []) (MovePayload r))"
    by (cases "fmv_new_name r") (auto simp: fsc_move_def intro!: sendsI)
next
  assume bad: "\<not> event_ok (- 1) peer (FsMove peer r)"
  show "\<exists>e. \<forall>net. fsc_move E net host port r = Inl e"
  proof (cases "target_ok (fmv_source r) \<and> location_validate (fmv_destination_parent r) = Inr ()")
    case True
    with bad obtain name e where "fmv_new_name r = Some name" "validate_file_name name = Inl e"
      by (auto) (metis old.sum.exhaust old.unit.exhaust)
    with True show ?thesis by (simp add: fsc_move_def)
  next
    case False
    then show ?thesis
      by (cases "validate_entry_location (fmv_source r)"; cases "location_validate (fmv_destination_parent r)") (auto simp: fsc_move_def)
  qed
next
  fix req :: request and st'
  assume "event_ok (- 1) peer (FsMove peer r)" "rq_method req = lit ''POST''" "rq_path req = fs_path ''/files/move''"
    "arrives (fp_ext P) J host port (fs_request ''POST'' (endpoint_url E host port ''/files/move'' []) (MovePayload r)) req"
  then show "if too_large st J (MovePayload r) then fs_route P st' req peer = (Inl PayloadTooLarge, [])
      else snd (fs_route P st' req peer) = [FsMove peer r]"
    using json_understood [of "fp_ext P" J host port _ _ "MovePayload r" req "fdec_move (fp_decoders P)" r st] assms(2)
    by (simp add: route_simps json_codec_def move_request_def target_ok_def require_entry_path_def ensure_def split: option.split)
qed (simp add: lit_def)

lemma delete_understood:
  assumes "admitted P st ci peer"
    and "form_codec (fp_ext P) E"
  shows "understood P st ci peer J host port (\<lambda>net. fsc_delete E net host port r)
      (fs_request ''DELETE'' (endpoint_url E host port ''/files'' (delete_params r)) NoFsPayload) (FsDelete peer r)"
proof (rule understoodI [OF assms(1), where m = "''DELETE''" and path = "''/files''" and params = "delete_params r" and payload = NoFsPayload and E = E])
  assume "event_ok (- 1) peer (FsDelete peer r)"
  then show "sends (\<lambda>net. fsc_delete E net host port r)
      (fs_request ''DELETE'' (endpoint_url E host port ''/files'' (delete_params r)) NoFsPayload)"
    by (intro sendsI) (simp add: fsc_delete_def)
next
  assume "\<not> event_ok (- 1) peer (FsDelete peer r)"
  then show "\<exists>e. \<forall>net. fsc_delete E net host port r = Inl e"
    by (cases "validate_entry_location (fdl_target r)") (auto simp: fsc_delete_def)
next
  fix req :: request and st'
  have key: "lit ''recursive'' \<noteq> lit ''rootId''" "lit ''recursive'' \<noteq> lit ''path''" by (simp_all add: lit_def)
  assume ok: "event_ok (- 1) peer (FsDelete peer r)" and route: "rq_method req = lit ''DELETE''" "rq_path req = fs_path ''/files''"
    "rq_query req = (if delete_params r = [] then None else Some (fx_encode_pairs E (delete_params r)))"
  have "delete_request (parse_query (fp_ext P) (rq_query req)) = Inr r"
    using flagged_query [OF assms(2) _ key] ok route(3)
    by (cases r) (simp add: delete_request_def delete_params_def)
  then show "if too_large st J NoFsPayload then fs_route P st' req peer = (Inl PayloadTooLarge, [])
      else snd (fs_route P st' req peer) = [FsDelete peer r]"
    using route(1,2) by (simp add: route_simps)
qed (simp add: lit_def)

lemma read_understood:
  assumes "admitted P st ci peer"
    and "form_codec (fp_ext P) E"
  shows "understood P st ci peer J host port (\<lambda>net. fsc_read E net host port l)
      (fs_request ''GET'' (endpoint_url E host port ''/files/content'' (location_params l)) NoFsPayload) (FsRead peer l)"
proof (rule understoodI [OF assms(1), where m = "''GET''" and path = "''/files/content''" and params = "location_params l" and payload = NoFsPayload and E = E])
  assume "event_ok (- 1) peer (FsRead peer l)"
  then show "sends (\<lambda>net. fsc_read E net host port l)
      (fs_request ''GET'' (endpoint_url E host port ''/files/content'' (location_params l)) NoFsPayload)"
    by (intro sendsI) (simp add: fsc_read_def)
next
  assume "\<not> event_ok (- 1) peer (FsRead peer l)"
  then show "\<exists>e. \<forall>net. fsc_read E net host port l = Inl e"
    by (cases "validate_entry_location l") (auto simp: fsc_read_def)
next
  fix req :: request and st'
  assume "event_ok (- 1) peer (FsRead peer l)" "rq_method req = lit ''GET''" "rq_path req = fs_path ''/files/content''"
    "rq_query req = (if location_params l = [] then None else Some (fx_encode_pairs E (location_params l)))"
  then show "if too_large st J NoFsPayload then fs_route P st' req peer = (Inl PayloadTooLarge, [])
      else snd (fs_route P st' req peer) = [FsRead peer l]"
    using target_query [OF assms(2), of l] by (simp add: route_simps)
qed (simp add: lit_def)

text \<open>The target of a write, whether it overwrites and its size.\<close>

lemma write_request_read:
  assumes "form_codec X E" "target_ok l" "rq_query req = Some (fx_encode_pairs E (write_params l overwrite))"
    and "header_get (rq_headers req) (lit ''content-length'') = Some v" "ext_header_text X v = Some (show_nat (unat n))"
  shows "write_request X limit req =
    (if limit < n then Inl PayloadTooLarge else Inr \<lparr>fwr_target = l, fwr_size = n, fwr_overwrite = overwrite\<rparr>)"
proof -
  have key: "lit ''overwrite'' \<noteq> lit ''rootId''" "lit ''overwrite'' \<noteq> lit ''path''" by (simp_all add: lit_def)
  have "unat n < 2 ^ 64" using unsigned_less [of n, where ?'a = nat] by simp
  then have "content_length X req = Some n"
    using assms(4,5) by (simp add: content_length_def parse_show_nat)
  then show ?thesis
    using flagged_query [OF assms(1) _ key] assms(2,3)
    by (simp add: write_request_def write_params_def Let_def ok_or_def ensure_def not_less [symmetric])
qed

lemma write_understood:
  assumes "admitted P st ci peer"
    and "form_codec (fp_ext P) E"
  shows "understood P st ci peer J host port (\<lambda>net. fst (fsc_write E net False host port l n overwrite receiver content))
    (fs_request ''PUT'' (endpoint_url E host port ''/files/content'' (write_params l overwrite))
        (FsContentPayload n (map fst (upload_body receiver content))))
    (FsWrite peer \<lparr>fwr_target = l, fwr_size = n, fwr_overwrite = overwrite\<rparr>)"
    (is "understood P st ci peer J host port ?op ?q ?event")
proof (rule understoodI [OF assms(1), where m = "''PUT''" and path = "''/files/content''" and params = "write_params l overwrite"
      and payload = "FsContentPayload n (map fst (upload_body receiver content))" and E = E])
  assume "event_ok (- 1) peer ?event"
  then show "sends ?op (fs_request ''PUT'' (endpoint_url E host port ''/files/content'' (write_params l overwrite))
      (FsContentPayload n (map fst (upload_body receiver content))))"
    by (intro sendsI) (simp add: fsc_write_def Let_def)
next
  assume "\<not> event_ok (- 1) peer ?event"
  then show "\<exists>e. \<forall>net. ?op net = Inl e"
    by (cases "validate_entry_location l") (auto simp: fsc_write_def Let_def)
next
  fix req :: request and st' :: remote_fs_state
  assume ok: "event_ok (- 1) peer ?event" and st': "rf_max_write_size st' = rf_max_write_size st"
    and route: "rq_method req = lit ''PUT''" "rq_path req = fs_path ''/files/content''"
    and query: "rq_query req = (if write_params l overwrite = [] then None else Some (fx_encode_pairs E (write_params l overwrite)))"
    and arrives: "arrives (fp_ext P) J host port (fs_request ''PUT'' (endpoint_url E host port ''/files/content'' (write_params l overwrite))
      (FsContentPayload n (map fst (upload_body receiver content)))) req"
  obtain v where v: "header_get (rq_headers req) (lit ''content-length'') = Some v" "ext_header_text (fp_ext P) v = Some (show_nat (unat n))"
    using arrives by (auto simp: arrives_def fs_request_def)
  have "rq_query req = Some (fx_encode_pairs E (write_params l overwrite))" using query by (simp add: write_params_def)
  from write_request_read [OF assms(2) _ this v, of "rf_max_write_size st'"] ok
  show "if too_large st J (FsContentPayload n (map fst (upload_body receiver content)))
      then fs_route P st' req peer = (Inl PayloadTooLarge, []) else snd (fs_route P st' req peer) = [?event]"
    using route st' by (simp add: route_simps)
qed (simp add: lit_def)

section \<open>Properties\<close>

text \<open>
  C37. Client and server agree on all nine operations. Of roots, listing, metadata, new directory,
  rename, move, delete, read and write (unless cancelled), each sends exactly the request
  shown, and exactly when it is valid by the rules of the server; and however it arrives, an
  authenticated peer has it read as the same request, with the same location, names,
  flags and size, unless a JSON body exceeds 64 KiB or a file the configured size: then
  it is answered with PayloadTooLarge and the application hears nothing.
\<close>

theorem fs_requests_understood:
  assumes "form_codec (fp_ext P) E" "json_codec (fp_decoders P) J"
    and "admitted P st ci peer"
  shows
   "understood P st ci peer J host port (\<lambda>net. fsc_roots E net host port)
      (fs_request ''GET'' (endpoint_url E host port ''/roots'' []) NoFsPayload) (FsRoots peer) \<and>
    understood P st ci peer J host port (\<lambda>net. fsc_list E net host port lr)
      (fs_request ''GET'' (endpoint_url E host port ''/files'' (list_params lr)) NoFsPayload) (FsList peer lr) \<and>
    understood P st ci peer J host port (\<lambda>net. fsc_metadata E net host port l)
      (fs_request ''GET'' (endpoint_url E host port ''/files/metadata'' (location_params l)) NoFsPayload) (FsMetadata peer l) \<and>
    understood P st ci peer J host port (\<lambda>net. fsc_create_directory E net host port cr)
      (fs_request ''POST'' (endpoint_url E host port ''/files/directory'' []) (CreateDirectoryPayload cr)) (FsCreateDirectory peer cr) \<and>
    understood P st ci peer J host port (\<lambda>net. fsc_rename E net host port rr)
      (fs_request ''POST'' (endpoint_url E host port ''/files/rename'' []) (RenamePayload rr)) (FsRename peer rr) \<and>
    understood P st ci peer J host port (\<lambda>net. fsc_move E net host port mr)
      (fs_request ''POST'' (endpoint_url E host port ''/files/move'' []) (MovePayload mr)) (FsMove peer mr) \<and>
    understood P st ci peer J host port (\<lambda>net. fsc_delete E net host port dr)
      (fs_request ''DELETE'' (endpoint_url E host port ''/files'' (delete_params dr)) NoFsPayload) (FsDelete peer dr) \<and>
    understood P st ci peer J host port (\<lambda>net. fsc_read E net host port l)
      (fs_request ''GET'' (endpoint_url E host port ''/files/content'' (location_params l)) NoFsPayload) (FsRead peer l) \<and>
    understood P st ci peer J host port (\<lambda>net. fst (fsc_write E net False host port l n overwrite receiver content))
      (fs_request ''PUT'' (endpoint_url E host port ''/files/content'' (write_params l overwrite))
        (FsContentPayload n (map fst (upload_body receiver content))))
      (FsWrite peer \<lparr>fwr_target = l, fwr_size = n, fwr_overwrite = overwrite\<rparr>)"
  using roots_understood [OF assms(3)] list_understood [OF assms(3,1)] metadata_understood [OF assms(3,1)]
    create_understood [OF assms(3,2)] rename_understood [OF assms(3,2)] move_understood [OF assms(3,2)]
    delete_understood [OF assms(3,1)] read_understood [OF assms(3,1)] write_understood [OF assms(3,1)]
  by simp

text \<open>A codec for the witness: numbers in unary, every text after its length.\<close>

fun demo_numbers :: "nat \<Rightarrow> byte list \<Rightarrow> nat list" where
  "demo_numbers k [] = []"
| "demo_numbers k (b # bs) = (if b = 0 then k # demo_numbers 0 bs else demo_numbers (Suc k) bs)"

fun demo_texts :: "nat \<Rightarrow> nat list \<Rightarrow> rstring list" where
  "demo_texts (Suc n) (k # ns) = take k ns # demo_texts n (drop k ns)"
| "demo_texts n ns = []"

definition demo_write :: "rstring list \<Rightarrow> byte list" where
  "demo_write ss = concat (map (\<lambda>n. replicate n 1 @ [0]) (length ss # concat (map (\<lambda>s. length s # s) ss)))"

definition demo_parse :: "byte list \<Rightarrow> rstring list" where
  "demo_parse bs = (case demo_numbers 0 bs of n # ns \<Rightarrow> demo_texts n ns | [] \<Rightarrow> [])"

definition demo_encoders :: fs_encoders where
  "demo_encoders =
     \<lparr>fenc_create = (\<lambda>r. demo_write [fl_root_id (fcd_parent r), fl_path (fcd_parent r), fcd_name r]),
      fenc_rename = (\<lambda>r. demo_write [fl_root_id (frn_source r), fl_path (frn_source r), frn_new_name r]),
      fenc_move = (\<lambda>r. demo_write ([fl_root_id (fmv_source r), fl_path (fmv_source r),
        fl_root_id (fmv_destination_parent r), fl_path (fmv_destination_parent r),
        if fmv_overwrite r then [1] else []] @
        (case fmv_new_name r of Some name \<Rightarrow> [name] | None \<Rightarrow> [])))\<rparr>"

definition demo_json_decoders :: fs_decoders where
  "demo_json_decoders =
     \<lparr>fdec_create = (\<lambda>bs. case demo_parse bs of
        [a, b, c] \<Rightarrow> Some \<lparr>fcd_parent = \<lparr>fl_root_id = a, fl_path = b\<rparr>, fcd_name = c\<rparr> | _ \<Rightarrow> None),
      fdec_rename = (\<lambda>bs. case demo_parse bs of
        [a, b, c] \<Rightarrow> Some \<lparr>frn_source = \<lparr>fl_root_id = a, fl_path = b\<rparr>, frn_new_name = c\<rparr> | _ \<Rightarrow> None),
      fdec_move = (\<lambda>bs. case demo_parse bs of
        a # b # c # d # flag # names \<Rightarrow>
          Some \<lparr>fmv_source = \<lparr>fl_root_id = a, fl_path = b\<rparr>, fmv_destination_parent = \<lparr>fl_root_id = c, fl_path = d\<rparr>,
            fmv_new_name = (case names of [name] \<Rightarrow> Some name | _ \<Rightarrow> None), fmv_overwrite = (flag \<noteq> [])\<rparr>
      | _ \<Rightarrow> None)\<rparr>"

lemma demo_numbers_unary: "demo_numbers k (replicate n 1 @ 0 # bs) = (k + n) # demo_numbers 0 bs"
  by (induction n arbitrary: k) simp_all

lemma demo_numbers_written: "demo_numbers 0 (concat (map (\<lambda>n. replicate n 1 @ [0]) ns)) = ns"
  by (induction ns) (simp_all add: demo_numbers_unary)

lemma demo_texts_written: "demo_texts (length ss) (concat (map (\<lambda>s. length s # s) ss)) = ss"
  by (induction ss) simp_all

lemma demo_parse_write: "demo_parse (demo_write ss) = ss"
  unfolding demo_parse_def demo_write_def demo_numbers_written by (simp add: demo_texts_written)

lemma demo_json_codec: "json_codec demo_json_decoders demo_encoders"
  by (simp add: json_codec_def demo_json_decoders_def demo_encoders_def demo_parse_write split: option.split)

definition demo_fs_params :: fs_env_params where
  "demo_fs_params = \<lparr>fp_ext = demo_form_ext, fp_decoders = demo_json_decoders, fp_app = FB_RemoteFs.demo_app,
     fp_send_ok = (\<lambda>_. True), fp_taken = None\<rparr>"

definition demo_fs_client :: request_client_info where
  "demo_fs_client = \<lparr>ci_ip = ci_ip (demo_client 7), ci_cert = Some [1]\<rparr>"

definition demo_fs_peer :: remote_fs_peer where
  "demo_fs_peer = \<lparr>rp_ip = ci_ip (demo_client 7), rp_fingerprint = fingerprint_from_cert_der (ext_sha256 demo_form_ext) [1]\<rparr>"

definition demo_create :: remote_fs_create_directory_request where
  "demo_create = \<lparr>fcd_parent = demo_location, fcd_name = lit ''n''\<rparr>"

definition demo_create_http :: request where
  "demo_create_http = \<lparr>rq_method = lit ''POST'', rq_path = fs_path ''/files/directory'', rq_query = None, rq_headers = [],
     rq_body = [DataFrame (fenc_create demo_encoders demo_create)]\<rparr>"

theorem fs_requests_understood_witness:
  "snd (handle demo_fs_params (Some (remote_fs_state_new remote_fs_config_new)) demo_create_http demo_fs_client) =
     [FsCreateDirectory demo_fs_peer demo_create]"
proof -
  let ?st = "remote_fs_state_new remote_fs_config_new" and ?payload = "CreateDirectoryPayload demo_create"
  have admitted: "admitted demo_fs_params ?st demo_fs_client demo_fs_peer"
    by (simp add: admitted_def demo_fs_params_def demo_fs_client_def demo_fs_peer_def cert_fingerprint_def remote_fs_state_new_def
        remote_fs_config_new_def DEFAULT_MAX_CONCURRENT_REQUESTS_def)
  have codec: "form_codec (fp_ext demo_fs_params) demo_fs_ext" "json_codec (fp_decoders demo_fs_params) demo_encoders"
    by (simp_all add: demo_fs_params_def demo_form_codec demo_json_codec)
  have "location_validate (fcd_parent demo_create) = Inr ()" "validate_file_name (fcd_name demo_create) = Inr ()"
    by code_simp+
  then have "event_ok (- 1) demo_fs_peer (FsCreateDirectory demo_fs_peer demo_create)" by simp
  moreover have "\<not> too_large ?st demo_encoders ?payload"
    by (simp add: demo_encoders_def demo_write_def demo_create_def demo_location_def lit_def MAX_JSON_BODY_SIZE_def)
  moreover have "arrives (fp_ext demo_fs_params) demo_encoders (lit ''h'') 1
      (fs_request ''POST'' (endpoint_url demo_fs_ext (lit ''h'') 1 ''/files/directory'' []) ?payload) demo_create_http"
    by (simp add: arrives_def fs_request_def demo_create_http_def endpoint_url_def fs_path_def FIREBOX_API_BASE_def lit_def)
  moreover have "understood demo_fs_params ?st demo_fs_client demo_fs_peer demo_encoders (lit ''h'') 1
      (\<lambda>net. fsc_create_directory demo_fs_ext net (lit ''h'') 1 demo_create)
      (fs_request ''POST'' (endpoint_url demo_fs_ext (lit ''h'') 1 ''/files/directory'' []) ?payload)
      (FsCreateDirectory demo_fs_peer demo_create)"
    using fs_requests_understood [OF codec admitted] by blast
  ultimately show ?thesis by (simp add: understood_def fs_request_def)
qed
end
