(* ===== verification/FB_Rtc.thy ===== *)
theory FB_Rtc
  imports FB_SignalClient FB_Token
begin

text \<open>
  The building blocks of a transfer over WebRTC (\<^verbatim>\<open>packages/core/src/webrtc/webrtc.rs\<close>): the
  messages of the protocol, the data channel as the tasks use it, sending in chunks and
  collecting chunks, the exchange of nonces, and both sides of the PIN challenge. A task
  is sequential: it is a function of the messages the peer sends on the channel and of
  the answers of the application, to a result and the messages, statuses and errors it
  has produced. What is left of the inbox is still unread; an empty inbox is a closed
  stream. \<^verbatim>\<open>serde_json\<close>, zlib and WebRTC itself are parameters.
\<close>

section \<open>Messages\<close>

record rtc_nonce_message =
  nm_nonce :: rstring

record rtc_token_request =
  tq_token :: rstring

datatype rtc_token_response = TrOk rstring | TrPinRequired rstring | TrInvalidSignature

record rtc_pin_message =
  pm_pin :: rstring

datatype rtc_pin_receiving_response = PrOk | PrPinRequired | PrTooManyAttempts

datatype rtc_pin_sending_response = PsOk "file_dto list" | PsPinRequired | PsTooManyAttempts

datatype rtc_file_list_response =
    FlOk "(rstring, rstring) hash_map" | FlPair rstring | FlDeclined | FlInvalidSignature

datatype rtc_pair_response = PairOk rstring | PairDeclined | PairInvalidSignature

record rtc_file =
  rf_file_id :: rstring
  rf_chunks :: "byte list list"

record rtc_send_file_header_request =
  fh_id :: rstring
  fh_token :: rstring

record rtc_send_file_response =
  fr_id :: rstring
  fr_success :: bool
  fr_error :: "rstring option"

datatype rtc_status =
    RtcSdpExchanged | RtcConnected | RtcPinRequired | RtcTooManyAttempts | RtcDeclined
  | RtcSending | RtcFinished | RtcError rstring

text \<open>The texts of a \<^verbatim>\<open>RTCFileError\<close>, one constructor each.\<close>

datatype file_problem =
    NoFileToken | ChannelProblem | InvalidFileToken | UnknownFile | SizeUnavailable
  | TooManyBytes u64 u64 | NoFileHeader

record rtc_file_error =
  fe_file_id :: rstring
  fe_error :: file_problem

record pin_config =
  pc_pin :: rstring
  pc_max_tries :: u8

text \<open>The ways a task or a connection fails, one constructor for each message.\<close>

datatype rtc_error =
    JsonError | SendError | StatusReceiverGone | ExpectedString | StreamClosed
  | NonceNotBase64 | NonceInvalid | TokenNotMade | TokenRejected | PeerRejectedToken | TaskPanicked
  | PinRequestNotSent | PinNotProvided | PinNotParsed | TooManyRequests
  | UnexpectedTooManyAttempts | UnexpectedSignatureError | UnexpectedPair | NoSignatureIdentifier
  | PublicKeyNotParsed | PairNotAsked | PairNotAnswered | SelectionNotPublished | FileListNotTaken
  | ChannelNotOpened | ReceiverGone | PeerError | SignalingFailed | SdpNotBase64 | SdpNotDecompressed

section \<open>Code outside the program\<close>

text \<open>
  \<^verbatim>\<open>serde_json\<close> for every message, PEM keys, zlib. A text is its bytes.
\<close>

record rtc_ext =
  rx_enc_nonce :: "rtc_nonce_message \<Rightarrow> byte list"
  rx_dec_nonce :: "byte list \<Rightarrow> rtc_nonce_message option"
  rx_enc_token :: "rtc_token_request \<Rightarrow> byte list"
  rx_dec_token :: "byte list \<Rightarrow> rtc_token_request option"
  rx_enc_token_response :: "rtc_token_response \<Rightarrow> byte list"
  rx_dec_token_response :: "byte list \<Rightarrow> rtc_token_response option"
  rx_enc_pin :: "rtc_pin_message \<Rightarrow> byte list"
  rx_dec_pin :: "byte list \<Rightarrow> rtc_pin_message option"
  rx_enc_pin_receiving :: "rtc_pin_receiving_response \<Rightarrow> byte list"
  rx_dec_pin_receiving :: "byte list \<Rightarrow> rtc_pin_receiving_response option"
  rx_enc_pin_sending :: "rtc_pin_sending_response \<Rightarrow> byte list"
  rx_dec_pin_sending :: "byte list \<Rightarrow> rtc_pin_sending_response option"
  rx_enc_file_list :: "rtc_file_list_response \<Rightarrow> byte list"
  rx_dec_file_list :: "byte list \<Rightarrow> rtc_file_list_response option"
  rx_enc_pair :: "rtc_pair_response \<Rightarrow> byte list"
  rx_enc_header :: "rtc_send_file_header_request \<Rightarrow> byte list"
  rx_dec_header :: "byte list \<Rightarrow> rtc_send_file_header_request option"
  rx_enc_file_response :: "rtc_send_file_response \<Rightarrow> byte list"
  rx_ed :: "rstring \<Rightarrow> ((byte list \<Rightarrow> byte list \<Rightarrow> bool) \<times> byte list option) option"
  rx_rsa :: "rstring \<Rightarrow> ((byte list \<Rightarrow> byte list \<Rightarrow> bool) \<times> byte list option) option"
  rx_compress :: "rstring \<Rightarrow> byte list"
  rx_decompress :: "byte list \<Rightarrow> rstring option"

section \<open>The channel and the application\<close>

record dc_message =
  dm_is_string :: bool
  dm_data :: "byte list"

text \<open>
  \<open>io_accepts\<close> is the number of messages the channel still takes (\<open>None\<close>: it never closes),
  \<open>io_listening\<close> whether the application still receives statuses. \<open>io_offered\<close>,
  \<open>io_selection\<close> and \<open>io_files\<close> are what has been handed to the application: the file list,
  the selected ids, and the files with their data, the last one still open.
\<close>

record rtc_io =
  io_inbox :: "dc_message list"
  io_sent :: "dc_message list"
  io_accepts :: "nat option"
  io_statuses :: "rtc_status list"
  io_listening :: bool
  io_errors :: "rtc_file_error list"
  io_offered :: "file_dto list option"
  io_selection :: "rstring list option"
  io_files :: "rtc_file list"

type_synonym ('a, 's, 'e) task = "'s \<Rightarrow> ('a, 'e) result \<times> 's"

definition task_ok :: "'a \<Rightarrow> ('a, 's, 'e) task" where
  "task_ok a s = (Inr a, s)"

definition task_fail :: "'e \<Rightarrow> ('a, 's, 'e) task" where
  "task_fail e s = (Inl e, s)"

text \<open>One await after another, with the question mark operator.\<close>

definition task_then :: "('a, 's, 'e) task \<Rightarrow> ('a \<Rightarrow> ('b, 's, 'e) task) \<Rightarrow> ('b, 's, 'e) task" where
  "task_then m f s = (case m s of (Inl e, s1) \<Rightarrow> (Inl e, s1) | (Inr a, s1) \<Rightarrow> f a s1)"

text \<open>\<^verbatim>\<open>let _ = ...\<close>: the error is ignored, the effect is not.\<close>

definition task_ignore :: "(unit, 's, 'e) task \<Rightarrow> (unit, 's, 'e) task" where
  "task_ignore m s = (Inr (), snd (m s))"

definition task_result :: "('a, 'e) result \<Rightarrow> ('a, 's, 'e) task" where
  "task_result r s = (r, s)"

definition dc_send :: "dc_message \<Rightarrow> (unit, rtc_io, rtc_error) task" where
  "dc_send m io =
     (case io_accepts io of
        Some 0 \<Rightarrow> (Inl SendError, io)
      | Some (Suc n) \<Rightarrow> (Inr (), io\<lparr>io_accepts := Some n, io_sent := io_sent io @ [m]\<rparr>)
      | None \<Rightarrow> (Inr (), io\<lparr>io_sent := io_sent io @ [m]\<rparr>))"

definition text_message :: "byte list \<Rightarrow> dc_message" where
  "text_message bs = \<lparr>dm_is_string = True, dm_data = bs\<rparr>"

definition binary_message :: "byte list \<Rightarrow> dc_message" where
  "binary_message bs = \<lparr>dm_is_string = False, dm_data = bs\<rparr>"

definition send_text :: "byte list \<Rightarrow> (unit, rtc_io, rtc_error) task" where
  "send_text bs = dc_send (text_message bs)"

definition send_binary :: "byte list \<Rightarrow> (unit, rtc_io, rtc_error) task" where
  "send_binary bs = dc_send (binary_message bs)"

definition dc_recv :: "(dc_message option, rtc_io, rtc_error) task" where
  "dc_recv io =
     (case io_inbox io of [] \<Rightarrow> (Inr None, io) | m # ms \<Rightarrow> (Inr (Some m), io\<lparr>io_inbox := ms\<rparr>))"

text \<open>The next message, which has to be a text.\<close>

definition recv_text :: "(byte list, rtc_io, rtc_error) task" where
  "recv_text =
     task_then dc_recv (\<lambda>m. case m of
         None \<Rightarrow> task_fail StreamClosed
       | Some msg \<Rightarrow> if dm_is_string msg then task_ok (dm_data msg) else task_fail ExpectedString)"

definition send_status :: "rtc_status \<Rightarrow> (unit, rtc_io, rtc_error) task" where
  "send_status st io =
     (if io_listening io then (Inr (), io\<lparr>io_statuses := io_statuses io @ [st]\<rparr>)
      else (Inl StatusReceiverGone, io))"

definition send_error :: "rstring \<Rightarrow> file_problem \<Rightarrow> rtc_io \<Rightarrow> rtc_io" where
  "send_error file_id problem io =
     io\<lparr>io_errors := io_errors io @ [\<lparr>fe_file_id = file_id, fe_error = problem\<rparr>]\<rparr>"

definition parse_json :: "'a option \<Rightarrow> ('a, 's, rtc_error) task" where
  "parse_json x = task_result (ok_or x JsonError)"

section \<open>Chunks\<close>

definition CHUNK_SIZE :: nat where
  "CHUNK_SIZE = 16 * 1024"

lemma chunk_size_pos [simp]: "0 < CHUNK_SIZE"
  by (simp add: CHUNK_SIZE_def)

text \<open>The inner loop: full chunks are split off the front of the buffer.\<close>

function drain_chunks :: "(byte list \<Rightarrow> (unit, 's, 'e) task) \<Rightarrow> byte list \<Rightarrow> (byte list, 's, 'e) task" where
  "drain_chunks callback buffer s =
     (if CHUNK_SIZE \<le> length buffer then
        (case callback (take CHUNK_SIZE buffer) s of
           (Inl e, s1) \<Rightarrow> (Inl e, s1)
         | (Inr _, s1) \<Rightarrow> drain_chunks callback (drop CHUNK_SIZE buffer) s1)
      else (Inr buffer, s))"
  by pat_completeness auto
termination
proof (relation "measure (\<lambda>(callback, buffer, s). length buffer)", goal_cases)
  case (2 callback buffer s x s1 u)
  then show ?case
    using chunk_size_pos by (simp del: chunk_size_pos)
qed simp

declare drain_chunks.simps [simp del]

primrec process_loop ::
  "(byte list \<Rightarrow> (unit, 's, 'e) task) \<Rightarrow> byte list list \<Rightarrow> byte list \<Rightarrow> (unit, 's, 'e) task"
where
  "process_loop callback [] buffer = (if buffer \<noteq> [] then callback buffer else task_ok ())"
| "process_loop callback (data # rx) buffer =
     task_then (drain_chunks callback (buffer @ data)) (process_loop callback rx)"

definition process_in_chunks ::
  "(byte list \<Rightarrow> (unit, 's, 'e) task) \<Rightarrow> byte list list \<Rightarrow> (unit, 's, 'e) task"
where
  "process_in_chunks callback rx = process_loop callback rx []"

definition send_string_in_chunks :: "byte list \<Rightarrow> (unit, rtc_io, rtc_error) task" where
  "send_string_in_chunks bs = process_in_chunks send_binary [bs]"

definition delimiter :: "byte list" where
  "delimiter = [48]"

definition send_delimiter :: "(unit, rtc_io, rtc_error) task" where
  "send_delimiter = send_text delimiter"

definition is_delimiter :: "dc_message \<Rightarrow> bool" where
  "is_delimiter m \<longleftrightarrow> dm_is_string m \<and> length (dm_data m) \<le> 1"

text \<open>A long message: its chunks, then a text.\<close>

definition send_chunked :: "byte list \<Rightarrow> (unit, rtc_io, rtc_error) task" where
  "send_chunked bs = task_then (send_string_in_chunks bs) (\<lambda>_. send_delimiter)"

fun collect_text_chunks :: "dc_message list \<Rightarrow> byte list \<times> dc_message list" where
  "collect_text_chunks [] = ([], [])"
| "collect_text_chunks (m # ms) =
     (if dm_is_string m then ([], ms)
      else (let (bs, rest) = collect_text_chunks ms in (dm_data m @ bs, rest)))"

definition receive_string_from_chunks :: "(byte list, rtc_io, rtc_error) task" where
  "receive_string_from_chunks io =
     (let (bs, rest) = collect_text_chunks (io_inbox io) in (Inr bs, io\<lparr>io_inbox := rest\<rparr>))"

section \<open>Nonces\<close>

definition receive_nonce :: "ext \<Rightarrow> rtc_ext \<Rightarrow> (byte list, rtc_io, rtc_error) task" where
  "receive_nonce X E =
     task_then recv_text (\<lambda>data.
     task_then (parse_json (rx_dec_nonce E data)) (\<lambda>msg.
     task_then (task_result (ok_or (ext_base64_decode X (nm_nonce msg)) NonceNotBase64)) (\<lambda>nonce.
     task_then (task_result (ensure (validate_nonce nonce) NonceInvalid)) (\<lambda>_. task_ok nonce))))"

definition send_nonce :: "ext \<Rightarrow> rtc_ext \<Rightarrow> byte list \<Rightarrow> (unit, rtc_io, rtc_error) task" where
  "send_nonce X E nonce = send_text (rx_enc_nonce E \<lparr>nm_nonce = ext_base64_encode X nonce\<rparr>)"

section \<open>Answering a PIN challenge\<close>

datatype 'a challenge_pin_result = ChOk 'a | ChPinRequired | ChTooManyAttempts | ChParseError

definition pin_receiving_result :: "rtc_ext \<Rightarrow> byte list \<Rightarrow> unit challenge_pin_result" where
  "pin_receiving_result E data =
     (case rx_dec_pin_receiving E data of
        None \<Rightarrow> ChParseError
      | Some PrOk \<Rightarrow> ChOk ()
      | Some PrPinRequired \<Rightarrow> ChPinRequired
      | Some PrTooManyAttempts \<Rightarrow> ChTooManyAttempts)"

definition pin_sending_result :: "rtc_ext \<Rightarrow> byte list \<Rightarrow> file_dto list challenge_pin_result" where
  "pin_sending_result E data =
     (case rx_dec_pin_sending E data of
        None \<Rightarrow> ChParseError
      | Some (PsOk files) \<Rightarrow> ChOk files
      | Some PsPinRequired \<Rightarrow> ChPinRequired
      | Some PsTooManyAttempts \<Rightarrow> ChTooManyAttempts)"

text \<open>
  \<open>pins\<close> are the answers of the application to the requests for a PIN: \<open>None\<close> when it drops
  the request, and the end of the list when it takes no more requests.
\<close>

primrec handle_pin ::
  "rtc_ext \<Rightarrow> bool \<Rightarrow> (byte list \<Rightarrow> 'a challenge_pin_result) \<Rightarrow> rstring option list \<Rightarrow>
   ('a, rtc_io, rtc_error) task"
where
  "handle_pin E receive_in_chunks parse_response [] =
     task_then (send_status RtcPinRequired) (\<lambda>_. task_fail PinRequestNotSent)"
| "handle_pin E receive_in_chunks parse_response (answer # pins) =
     task_then (send_status RtcPinRequired) (\<lambda>_.
       case answer of
         None \<Rightarrow> task_fail PinNotProvided
       | Some pin \<Rightarrow>
           task_then (send_text (rx_enc_pin E \<lparr>pm_pin = pin\<rparr>)) (\<lambda>_.
           task_then (if receive_in_chunks then receive_string_from_chunks else recv_text) (\<lambda>bytes.
             case parse_response bytes of
               ChOk r \<Rightarrow> task_ok r
             | ChPinRequired \<Rightarrow> handle_pin E receive_in_chunks parse_response pins
             | ChTooManyAttempts \<Rightarrow>
                 task_then (send_status RtcTooManyAttempts) (\<lambda>_. task_fail TooManyRequests)
             | ChParseError \<Rightarrow> task_fail PinNotParsed)))"

section \<open>Posing a PIN challenge\<close>

datatype verify_pin_result = VerifyPinRequired | VerifyTooManyAttempts

lemma tries_left: "a < (b :: u8) \<Longrightarrow> unat b - unat (a + 1) < unat b - unat a"
  by unat_arith

function verify_pin_loop ::
  "rtc_ext \<Rightarrow> pin_config \<Rightarrow> (verify_pin_result \<Rightarrow> (unit, rtc_io, rtc_error) task) \<Rightarrow>
   rstring \<Rightarrow> u8 \<Rightarrow> bool \<Rightarrow> (unit, rtc_io, rtc_error) task"
where
  "verify_pin_loop E pc send_result remote_pin pin_try send_initial_notice io =
     (if remote_pin = pc_pin pc then (Inr (), io)
      else if pc_max_tries pc \<le> pin_try then
        task_then (task_ignore (send_result VerifyTooManyAttempts)) (\<lambda>_.
        task_then (send_status RtcTooManyAttempts) (\<lambda>_. task_fail TooManyRequests)) io
      else
        (case (if send_initial_notice \<or> 0 < pin_try then send_result VerifyPinRequired io else (Inr (), io)) of
           (Inl e, io1) \<Rightarrow> (Inl e, io1)
         | (Inr _, io1) \<Rightarrow>
             (case io_inbox io1 of
                [] \<Rightarrow> (Inl StreamClosed, io1)
              | msg # rest \<Rightarrow>
                  (case rx_dec_pin E (dm_data msg) of
                     None \<Rightarrow> (Inl JsonError, io1\<lparr>io_inbox := rest\<rparr>)
                   | Some pin_req \<Rightarrow>
                       verify_pin_loop E pc send_result (pm_pin pin_req) (pin_try + 1) False
                         (io1\<lparr>io_inbox := rest\<rparr>)))))"
  by pat_completeness auto
termination
  by (relation "measure (\<lambda>(E, pc, send_result, remote_pin, pin_try, notice, io).
        unat (pc_max_tries pc) - unat pin_try)") (simp_all add: tries_left not_le)

declare verify_pin_loop.simps [simp del]

definition verify_pin ::
  "rtc_ext \<Rightarrow> pin_config \<Rightarrow> bool \<Rightarrow> (verify_pin_result \<Rightarrow> (unit, rtc_io, rtc_error) task) \<Rightarrow>
   (unit, rtc_io, rtc_error) task"
where
  "verify_pin E pc send_initial_notice send_result =
     task_then (send_status RtcPinRequired) (\<lambda>_.
       verify_pin_loop E pc send_result [] 0 send_initial_notice)"

text \<open>How the sender and the receiver word the outcome of a try.\<close>

definition send_pin_sending :: "rtc_ext \<Rightarrow> verify_pin_result \<Rightarrow> (unit, rtc_io, rtc_error) task" where
  "send_pin_sending E r =
     send_chunked (rx_enc_pin_sending E
       (case r of VerifyPinRequired \<Rightarrow> PsPinRequired | VerifyTooManyAttempts \<Rightarrow> PsTooManyAttempts))"

definition send_pin_receiving :: "rtc_ext \<Rightarrow> verify_pin_result \<Rightarrow> (unit, rtc_io, rtc_error) task" where
  "send_pin_receiving E r =
     send_text (rx_enc_pin_receiving E
       (case r of VerifyPinRequired \<Rightarrow> PrPinRequired | VerifyTooManyAttempts \<Rightarrow> PrTooManyAttempts))"

section \<open>Session descriptions\<close>

definition encode_sdp :: "ext \<Rightarrow> rtc_ext \<Rightarrow> rstring \<Rightarrow> rstring" where
  "encode_sdp X E s = ext_base64_encode X (rx_compress E s)"

definition decode_sdp :: "ext \<Rightarrow> rtc_ext \<Rightarrow> rstring \<Rightarrow> (rstring, rtc_error) result" where
  "decode_sdp X E s =
     and_then (ok_or (ext_base64_decode X s) SdpNotBase64) (\<lambda>decoded.
       ok_or (rx_decompress E decoded) SdpNotDecompressed)"

end
