(* ===== verification/FB_RtcSession.thy ===== *)
theory FB_RtcSession
  imports FB_Rtc
begin

text \<open>
  The two tasks of a transfer over WebRTC and the calls around them
  (\<^verbatim>\<open>packages/core/src/webrtc/webrtc.rs\<close>: \<^verbatim>\<open>send_offer\<close>, \<^verbatim>\<open>accept_offer\<close>). Each task is
  given in its phases: nonces, tokens, PINs, the file list, the files. The configuration
  holds the arguments of the call and what the application does.
\<close>

section \<open>The sending peer\<close>

datatype pair_answer = PairReceiverGone | PairDropped | PairAnswered bool

record offer_config =
  so_opened :: bool
  so_nonce :: "byte list"
  so_signing_key :: signing_token_key
  so_expecting :: "verifying_token_key option"
  so_pin :: "pin_config option"
  so_files :: "file_dto list"
  so_pins :: "rstring option list"
  so_pair :: pair_answer
  so_takes_selection :: bool
  so_sending :: "rtc_file list"

text \<open>\<open>verify_token_nonce\<close> may panic; a panic ends the spawned task.\<close>

definition check_token ::
  "ext \<Rightarrow> verifying_token_key option \<Rightarrow> rstring \<Rightarrow> byte list \<Rightarrow> (bool, rtc_error) result"
where
  "check_token X expecting token nonce =
     (case expecting of
        None \<Rightarrow> Inr True
      | Some key \<Rightarrow> ok_or (verify_token_nonce X key token nonce) TaskPanicked)"

definition send_exchange_nonce ::
  "ext \<Rightarrow> rtc_ext \<Rightarrow> offer_config \<Rightarrow> (byte list, rtc_io, rtc_error) task"
where
  "send_exchange_nonce X E c =
     task_then (send_nonce X E (so_nonce c)) (\<lambda>_.
     task_then (receive_nonce X E) (\<lambda>remote_nonce.
       task_ok (so_nonce c @ remote_nonce)))"

fun response_token :: "rtc_token_response \<Rightarrow> rstring option" where
  "response_token (TrOk token) = Some token"
| "response_token (TrPinRequired token) = Some token"
| "response_token TrInvalidSignature = None"

definition send_exchange_token ::
  "ext \<Rightarrow> rtc_ext \<Rightarrow> offer_config \<Rightarrow> byte list \<Rightarrow> (rtc_token_response \<times> rstring, rtc_io, rtc_error) task"
where
  "send_exchange_token X E c nonce =
     task_then (task_result (ok_or (generate_token_nonce X (so_signing_key c) nonce) TokenNotMade)) (\<lambda>local_token.
     task_then (send_text (rx_enc_token E \<lparr>tq_token = local_token\<rparr>)) (\<lambda>_.
     task_then recv_text (\<lambda>data.
     task_then (parse_json (rx_dec_token_response E data)) (\<lambda>token_response.
     task_then (task_result (ok_or (response_token token_response) PeerRejectedToken)) (\<lambda>token.
     task_then (task_result (check_token X (so_expecting c) token nonce)) (\<lambda>valid.
       if valid then task_ok (token_response, token) else task_fail TokenRejected))))))"

definition send_answer_pin ::
  "rtc_ext \<Rightarrow> offer_config \<Rightarrow> rtc_token_response \<Rightarrow> (unit, rtc_io, rtc_error) task"
where
  "send_answer_pin E c token_response =
     (case token_response of
        TrPinRequired token \<Rightarrow> handle_pin E False (pin_receiving_result E) (so_pins c)
      | _ \<Rightarrow> task_ok ())"

definition send_pose_pin :: "rtc_ext \<Rightarrow> offer_config \<Rightarrow> (unit, rtc_io, rtc_error) task" where
  "send_pose_pin E c =
     (case so_pin c of
        Some pin \<Rightarrow> verify_pin E pin True (send_pin_sending E)
      | None \<Rightarrow> task_ok ())"

text \<open>A failure to send the list is told to the application before it is returned.\<close>

definition send_file_list :: "rtc_ext \<Rightarrow> offer_config \<Rightarrow> (unit, rtc_io, rtc_error) task" where
  "send_file_list E c io =
     (case send_chunked (rx_enc_pin_sending E (PsOk (so_files c))) io of
        (Inl e, io1) \<Rightarrow>
          (Inl e, snd (send_status (RtcError (lit ''Failed to send file list message'')) io1))
      | (Inr _, io1) \<Rightarrow> (Inr (), io1))"

definition receive_file_list :: "rtc_ext \<Rightarrow> (rtc_file_list_response, rtc_io, rtc_error) task" where
  "receive_file_list E =
     task_then receive_string_from_chunks (\<lambda>bytes. parse_json (rx_dec_file_list E bytes))"

text \<open>
  \<open>None\<close> is the early return without an error when the receiving peer declines. A request
  to pair is answered once; after it only the answer to the file list is expected.
\<close>

definition unexpected :: "rstring \<Rightarrow> rtc_error \<Rightarrow> ('a, rtc_io, rtc_error) task" where
  "unexpected what e = task_then (task_ignore (send_status (RtcError what))) (\<lambda>_. task_fail e)"

definition files_after_pair ::
  "rtc_file_list_response \<Rightarrow> ((rstring, rstring) hash_map option, rtc_io, rtc_error) task"
where
  "files_after_pair response =
     (case response of
        FlOk files \<Rightarrow> task_ok (Some files)
      | FlDeclined \<Rightarrow> task_then (task_ignore (send_status RtcDeclined)) (\<lambda>_. task_ok None)
      | FlInvalidSignature \<Rightarrow>
          unexpected (lit ''Invalid signature (not expected)'') UnexpectedSignatureError
      | FlPair public_key \<Rightarrow> unexpected (lit ''Unexpected pair response'') UnexpectedPair)"

definition answer_pair ::
  "ext \<Rightarrow> rtc_ext \<Rightarrow> offer_config \<Rightarrow> byte list \<Rightarrow> rstring \<Rightarrow> rstring \<Rightarrow> (unit, rtc_io, rtc_error) task"
where
  "answer_pair X E c nonce remote_token public_key =
     task_then (task_result (ok_or (extract_signature_identifier remote_token) NoSignatureIdentifier)) (\<lambda>ident.
     task_then (task_result (ok_or (parse_public_key (rx_ed E) (rx_rsa E) public_key ident) PublicKeyNotParsed)) (\<lambda>key.
     task_then (task_result (check_token X (Some key) remote_token nonce)) (\<lambda>valid.
       if \<not> valid then
         task_then (send_text (rx_enc_pair E PairInvalidSignature)) (\<lambda>_. task_fail TokenRejected)
       else (case so_pair c of
           PairReceiverGone \<Rightarrow> task_fail PairNotAsked
         | PairDropped \<Rightarrow> task_fail PairNotAnswered
         | PairAnswered yes \<Rightarrow>
             send_text (rx_enc_pair E (if yes then PairOk public_key else PairDeclined))))))"

definition await_selection ::
  "ext \<Rightarrow> rtc_ext \<Rightarrow> offer_config \<Rightarrow> byte list \<Rightarrow> rstring \<Rightarrow>
   ((rstring, rstring) hash_map option, rtc_io, rtc_error) task"
where
  "await_selection X E c nonce remote_token =
     task_then (receive_file_list E) (\<lambda>response.
       case response of
         FlPair public_key \<Rightarrow>
           task_then (answer_pair X E c nonce remote_token public_key) (\<lambda>_.
           task_then (receive_file_list E) files_after_pair)
       | _ \<Rightarrow> files_after_pair response)"

definition publish_selection ::
  "offer_config \<Rightarrow> (rstring, rstring) hash_map \<Rightarrow> (unit, rtc_io, rtc_error) task"
where
  "publish_selection c file_map =
     (if so_takes_selection c then (\<lambda>io. (Inr (), io\<lparr>io_selection := Some (map fst file_map)\<rparr>))
      else unexpected (lit ''Could not publish selection'') SelectionNotPublished)"

text \<open>One file: header, then its data in chunks; errors go to the application.\<close>

definition send_one_file ::
  "rtc_ext \<Rightarrow> (rstring, rstring) hash_map \<Rightarrow> rtc_file \<Rightarrow> rtc_io \<Rightarrow> rtc_io"
where
  "send_one_file E file_map f io =
     (case map_of file_map (rf_file_id f) of
        None \<Rightarrow> send_error (rf_file_id f) NoFileToken io
      | Some file_token \<Rightarrow>
          (case task_then (send_text (rx_enc_header E \<lparr>fh_id = rf_file_id f, fh_token = file_token\<rparr>))
                  (\<lambda>_. process_in_chunks send_binary (rf_chunks f)) io of
             (Inl e, io1) \<Rightarrow> send_error (rf_file_id f) ChannelProblem io1
           | (Inr _, io1) \<Rightarrow> io1))"

definition send_files ::
  "rtc_ext \<Rightarrow> (rstring, rstring) hash_map \<Rightarrow> rtc_file list \<Rightarrow> (unit, rtc_io, rtc_error) task"
where
  "send_files E file_map files io =
     task_then send_delimiter (\<lambda>_. task_then dc_recv (\<lambda>_. task_ok ()))
       (foldl (\<lambda>io f. send_one_file E file_map f io) io files)"

definition send_after_pins ::
  "ext \<Rightarrow> rtc_ext \<Rightarrow> offer_config \<Rightarrow> byte list \<Rightarrow> rstring \<Rightarrow> (unit, rtc_io, rtc_error) task"
where
  "send_after_pins X E c nonce remote_token =
     task_then (send_status RtcConnected) (\<lambda>_.
     task_then (send_file_list E c) (\<lambda>_.
     task_then (await_selection X E c nonce remote_token) (\<lambda>selection.
       case selection of
         None \<Rightarrow> task_ok ()
       | Some file_map \<Rightarrow>
           task_then (publish_selection c file_map) (\<lambda>_. send_files E file_map (so_sending c)))))"

definition send_authenticate ::
  "ext \<Rightarrow> rtc_ext \<Rightarrow> offer_config \<Rightarrow> (byte list \<times> rstring, rtc_io, rtc_error) task"
where
  "send_authenticate X E c =
     (if \<not> so_opened c then task_fail ChannelNotOpened
      else task_then (send_exchange_nonce X E c) (\<lambda>nonce.
           task_then (send_exchange_token X E c nonce) (\<lambda>(token_response, remote_token).
           task_then (send_answer_pin E c token_response) (\<lambda>_.
           task_then (send_pose_pin E c) (\<lambda>_. task_ok (nonce, remote_token))))))"

definition send_task :: "ext \<Rightarrow> rtc_ext \<Rightarrow> offer_config \<Rightarrow> (unit, rtc_io, rtc_error) task" where
  "send_task X E c =
     task_then (send_authenticate X E c) (\<lambda>(nonce, remote_token). send_after_pins X E c nonce remote_token)"

section \<open>The receiving peer\<close>

text \<open>
  \<open>ao_selected\<close> is what the application answers to the file list: nothing (the sender of
  the answer is dropped), a refusal, or the ids in the order of the hash set. \<open>ao_fresh\<close>
  are the random tokens, \<open>ao_takes\<close> whether the application still takes that chunk of a
  file, \<open>ao_results\<close> what it reports for each file.
\<close>

record accept_config =
  ao_channel :: bool
  ao_nonce :: "byte list"
  ao_signing_key :: signing_token_key
  ao_expecting :: "verifying_token_key option"
  ao_pin :: "pin_config option"
  ao_takes_files :: bool
  ao_selected :: "rstring list option option"
  ao_fresh :: "rstring \<Rightarrow> rstring"
  ao_pins :: "rstring option list"
  ao_takes :: "rstring \<Rightarrow> nat \<Rightarrow> bool"
  ao_results :: "rtc_send_file_response list"

definition accept_exchange_nonce ::
  "ext \<Rightarrow> rtc_ext \<Rightarrow> accept_config \<Rightarrow> (byte list, rtc_io, rtc_error) task"
where
  "accept_exchange_nonce X E c =
     task_then (receive_nonce X E) (\<lambda>remote_nonce.
     task_then (send_nonce X E (ao_nonce c)) (\<lambda>_.
       task_ok (remote_nonce @ ao_nonce c)))"

definition accept_exchange_token ::
  "ext \<Rightarrow> rtc_ext \<Rightarrow> accept_config \<Rightarrow> byte list \<Rightarrow> (unit, rtc_io, rtc_error) task"
where
  "accept_exchange_token X E c nonce =
     task_then recv_text (\<lambda>data.
     task_then (parse_json (rx_dec_token E data)) (\<lambda>request.
     task_then (task_result (check_token X (ao_expecting c) (tq_token request) nonce)) (\<lambda>valid.
       if \<not> valid then
         task_then (send_text (rx_enc_token_response E TrInvalidSignature)) (\<lambda>_. task_fail TokenRejected)
       else
         task_then (task_result (ok_or (generate_token_nonce X (ao_signing_key c) nonce) TokenNotMade)) (\<lambda>local_token.
           send_text (rx_enc_token_response E
             (case ao_pin c of Some _ \<Rightarrow> TrPinRequired local_token | None \<Rightarrow> TrOk local_token))))))"

definition accept_pose_pin :: "rtc_ext \<Rightarrow> accept_config \<Rightarrow> (unit, rtc_io, rtc_error) task" where
  "accept_pose_pin E c =
     (case ao_pin c of
        None \<Rightarrow> task_ok ()
      | Some pin \<Rightarrow>
          task_then (verify_pin E pin False (send_pin_receiving E)) (\<lambda>_.
            send_text (rx_enc_pin_receiving E PrOk)))"

definition accept_answer_pin ::
  "rtc_ext \<Rightarrow> accept_config \<Rightarrow> (file_dto list, rtc_io, rtc_error) task"
where
  "accept_answer_pin E c =
     task_then receive_string_from_chunks (\<lambda>bytes.
     task_then (parse_json (rx_dec_pin_sending E bytes)) (\<lambda>response.
       case response of
         PsOk files \<Rightarrow> task_ok files
       | PsPinRequired \<Rightarrow> handle_pin E True (pin_sending_result E) (ao_pins c)
       | PsTooManyAttempts \<Rightarrow>
           unexpected (lit ''Unexpected TooManyAttempts response'') UnexpectedTooManyAttempts))"

definition accept_authenticate ::
  "ext \<Rightarrow> rtc_ext \<Rightarrow> accept_config \<Rightarrow> (unit, rtc_io, rtc_error) task"
where
  "accept_authenticate X E c =
     (if \<not> ao_channel c then task_fail ChannelNotOpened
      else task_then (accept_exchange_nonce X E c) (\<lambda>nonce.
           task_then (accept_exchange_token X E c nonce) (\<lambda>_. accept_pose_pin E c)))"

subsection \<open>Receiving the files\<close>

record rtc_file_state =
  sf_file_id :: rstring
  sf_size :: u64
  sf_received :: u64
  sf_forwarded :: nat

text \<open>The outcome the application reports for a file, as it is sent to the peer.\<close>

fun file_result :: "rtc_send_file_response list \<Rightarrow> rstring option \<times> rtc_send_file_response list" where
  "file_result [] = (Some (lit ''Failed to receive file result''), [])"
| "file_result (r # rs) =
     (if fr_success r then None
      else Some (case fr_error r of None \<Rightarrow> lit ''Unknown error'' | Some e \<Rightarrow> e), rs)"

text \<open>A text ends the open file, if there is one: its outcome is sent to the peer.\<close>

definition end_of_file ::
  "rtc_ext \<Rightarrow> rtc_file_state option \<Rightarrow> rtc_send_file_response list \<Rightarrow>
   (rtc_send_file_response list, rtc_io, rtc_error) task"
where
  "end_of_file E st results =
     (case st of
        None \<Rightarrow> task_ok results
      | Some s \<Rightarrow>
          (let (error, rest) = file_result results in
           task_then (send_text (rx_enc_file_response E
               \<lparr>fr_id = sf_file_id s, fr_success = (error = None), fr_error = error\<rparr>)) (\<lambda>_. task_ok rest)))"

definition open_file ::
  "(rstring, rstring) hash_map \<Rightarrow> file_dto list \<Rightarrow> rtc_send_file_header_request \<Rightarrow>
   (rtc_file_state, file_problem) result"
where
  "open_file file_tokens file_list header =
     and_then (ok_or (map_of file_tokens (fh_id header)) UnknownFile) (\<lambda>entry.
     and_then (ensure (fh_token header = entry) InvalidFileToken) (\<lambda>_.
     and_then (ok_or (find (\<lambda>f. fd_id f = fh_id header) file_list) SizeUnavailable) (\<lambda>file.
       Inr \<lparr>sf_file_id = fh_id header, sf_size = fd_size file, sf_received = 0, sf_forwarded = 0\<rparr>)))"

definition hand_out_file :: "rstring \<Rightarrow> rtc_io \<Rightarrow> rtc_io" where
  "hand_out_file file_id io = io\<lparr>io_files := io_files io @ [\<lparr>rf_file_id = file_id, rf_chunks = []\<rparr>]\<rparr>"

definition forward_chunk :: "byte list \<Rightarrow> rtc_io \<Rightarrow> rtc_io" where
  "forward_chunk bs io =
     io\<lparr>io_files := butlast (io_files io) @
       [(last (io_files io))\<lparr>rf_chunks := rf_chunks (last (io_files io)) @ [bs]\<rparr>]\<rparr>"

text \<open>
  A binary message for the open file: counted first; more than announced closes the file
  with an error, and the application may have stopped taking data, which ends the task.
\<close>

definition receive_data ::
  "accept_config \<Rightarrow> rtc_file_state \<Rightarrow> byte list \<Rightarrow> (rtc_file_state option, rtc_io, rtc_error) task"
where
  "receive_data c s bs io =
     (let received = sf_received s + of_nat (length bs) in
      if sf_size s < received then
        (Inr None, send_error (sf_file_id s) (TooManyBytes (sf_size s) received) io)
      else if ao_takes c (sf_file_id s) (sf_forwarded s) then
        (Inr (Some (s\<lparr>sf_received := received, sf_forwarded := Suc (sf_forwarded s)\<rparr>)), forward_chunk bs io)
      else (Inl ReceiverGone, io))"

text \<open>The loop over the messages; a delimiter ends it only when a file is open.\<close>

fun receive_files ::
  "rtc_ext \<Rightarrow> accept_config \<Rightarrow> (rstring, rstring) hash_map \<Rightarrow> file_dto list \<Rightarrow> rtc_file_state option \<Rightarrow>
   rtc_send_file_response list \<Rightarrow> dc_message list \<Rightarrow> (unit, rtc_io, rtc_error) task"
where
  "receive_files E c file_tokens file_list st results [] io = (Inr (), io)"
| "receive_files E c file_tokens file_list st results (msg # rest) io =
     (let io0 = io\<lparr>io_inbox := rest\<rparr> in
      if dm_is_string msg then
        (case end_of_file E st results io0 of
           (Inl e, io1) \<Rightarrow> (Inl e, io1)
         | (Inr results1, io1) \<Rightarrow>
             if st \<noteq> None \<and> is_delimiter msg then (Inr (), io1)
             else (case rx_dec_header E (dm_data msg) of
                 None \<Rightarrow> (Inl JsonError, io1)
               | Some header \<Rightarrow>
                   (case open_file file_tokens file_list header of
                      Inl problem \<Rightarrow>
                        receive_files E c file_tokens file_list None results1 rest
                          (send_error (fh_id header) problem io1)
                    | Inr st1 \<Rightarrow>
                        receive_files E c file_tokens file_list (Some st1) results1 rest
                          (hand_out_file (fh_id header) io1))))
      else
        (case st of
           None \<Rightarrow>
             receive_files E c file_tokens file_list None results rest
               (send_error (lit ''unknown'') NoFileHeader io0)
         | Some s \<Rightarrow>
             (case receive_data c s (dm_data msg) io0 of
                (Inl e, io1) \<Rightarrow> (Inl e, io1)
              | (Inr st1, io1) \<Rightarrow> receive_files E c file_tokens file_list st1 results rest io1)))"

definition accept_selection ::
  "rtc_ext \<Rightarrow> accept_config \<Rightarrow> file_dto list \<Rightarrow> (unit, rtc_io, rtc_error) task"
where
  "accept_selection E c file_list =
     (case ao_selected c of
        None \<Rightarrow> task_ok ()
      | Some None \<Rightarrow> send_chunked (rx_enc_file_list E FlDeclined)
      | Some (Some selected_files) \<Rightarrow>
          (let file_tokens = map (\<lambda>file_id. (file_id, ao_fresh c file_id)) selected_files in
           task_then (send_chunked (rx_enc_file_list E (FlOk file_tokens))) (\<lambda>_ io.
             receive_files E c file_tokens file_list None (ao_results c) (io_inbox io) io)))"

definition publish_files :: "accept_config \<Rightarrow> file_dto list \<Rightarrow> (unit, rtc_io, rtc_error) task" where
  "publish_files c file_list =
     (if ao_takes_files c then (\<lambda>io. (Inr (), io\<lparr>io_offered := Some file_list\<rparr>))
      else task_fail FileListNotTaken)"

definition receive_task :: "ext \<Rightarrow> rtc_ext \<Rightarrow> accept_config \<Rightarrow> (unit, rtc_io, rtc_error) task" where
  "receive_task X E c =
     task_then (accept_authenticate X E c) (\<lambda>_.
     task_then (accept_answer_pin E c) (\<lambda>file_list.
     task_then (send_status RtcConnected) (\<lambda>_.
     task_then (publish_files c file_list) (\<lambda>_. accept_selection E c file_list))))"

section \<open>The calls around the tasks\<close>

text \<open>
  WebRTC and the signaling connection, as far as the calls see them: whether each step
  succeeds, the local description, the answer of the peer, and whether the connection is
  lost (\<open>pe_disconnected\<close>) before the task has ended. \<open>pe_closed\<close> is whether closing succeeds.
\<close>

record peer_env =
  pe_created :: bool
  pe_channel :: bool
  pe_description :: bool
  pe_local_description :: "rstring option"
  pe_signaled :: bool
  pe_answer :: "rstring option"
  pe_valid_description :: "rstring \<Rightarrow> bool"
  pe_remote_set :: bool
  pe_disconnected :: bool
  pe_closed :: bool

text \<open>What a call has done: the descriptions handed to signaling, and whether it closed the connection.\<close>

record peer_io =
  pi_signaled :: "ws_client_message list"
  pi_closed :: bool
  pi_task :: rtc_io

definition step_ok :: "bool \<Rightarrow> (unit, peer_io, rtc_error) task" where
  "step_ok b = task_result (ensure b PeerError)"

definition signal :: "bool \<Rightarrow> ws_client_message \<Rightarrow> (unit, peer_io, rtc_error) task" where
  "signal ok m io =
     (if ok then (Inr (), io\<lparr>pi_signaled := pi_signaled io @ [m]\<rparr>) else (Inl SignalingFailed, io))"

definition close_peer :: "bool \<Rightarrow> (unit, peer_io, rtc_error) task" where
  "close_peer ok io = (if ok then (Inr (), io\<lparr>pi_closed := True\<rparr>) else (Inl PeerError, io))"

definition in_task :: "('a, rtc_io, rtc_error) task \<Rightarrow> ('a, peer_io, rtc_error) task" where
  "in_task m io = (let (r, t) = m (pi_task io) in (r, io\<lparr>pi_task := t\<rparr>))"

text \<open>A status that cannot be delivered closes the connection.\<close>

definition tell_sdp_exchanged :: "bool \<Rightarrow> (unit, peer_io, rtc_error) task" where
  "tell_sdp_exchanged closed io =
     (case in_task (send_status RtcSdpExchanged) io of
        (Inl e, io1) \<Rightarrow> task_then (close_peer closed) (\<lambda>_. task_fail e) io1
      | (Inr _, io1) \<Rightarrow> (Inr (), io1))"

text \<open>
  The end of both calls: an error of the task is returned as it is; otherwise, or when the
  connection is lost first, the end is reported and the connection closed.
\<close>

definition run_to_end ::
  "peer_env \<Rightarrow> (unit, rtc_io, rtc_error) task \<Rightarrow> (unit, peer_io, rtc_error) task"
where
  "run_to_end env task =
     task_then (if pe_disconnected env then (\<lambda>io. (Inr (), snd (in_task task io))) else in_task task) (\<lambda>_.
     task_then (in_task (task_ignore (send_status RtcFinished))) (\<lambda>_. close_peer (pe_closed env)))"

definition session_offer ::
  "ext \<Rightarrow> rtc_ext \<Rightarrow> peer_env \<Rightarrow> rstring \<Rightarrow> uuid \<Rightarrow> offer_config \<Rightarrow> (unit, peer_io, rtc_error) task"
where
  "session_offer X E env session_id target_id c =
     task_then (step_ok (pe_created env)) (\<lambda>_.
     task_then (step_ok (pe_channel env)) (\<lambda>_.
     task_then (step_ok (pe_description env)) (\<lambda>_.
     task_then (task_result (ok_or (pe_local_description env) PeerError)) (\<lambda>sdp.
     task_then (signal (pe_signaled env) (send_offer session_id target_id (encode_sdp X E sdp))) (\<lambda>_.
     task_then (task_result (ok_or (pe_answer env) SignalingFailed)) (\<lambda>remote_desc.
     task_then (tell_sdp_exchanged (pe_closed env)) (\<lambda>_.
     task_then (task_result (decode_sdp X E remote_desc)) (\<lambda>answer.
     task_then (step_ok (pe_valid_description env answer \<and> pe_remote_set env)) (\<lambda>_.
       run_to_end env (send_task X E c))))))))))"

definition session_accept ::
  "ext \<Rightarrow> rtc_ext \<Rightarrow> peer_env \<Rightarrow> ws_server_sdp_message \<Rightarrow> accept_config \<Rightarrow> (unit, peer_io, rtc_error) task"
where
  "session_accept X E env offer c =
     task_then (step_ok (pe_created env)) (\<lambda>_.
     task_then (task_result (decode_sdp X E (ss_sdp offer))) (\<lambda>sdp.
     task_then (step_ok (pe_valid_description env sdp \<and> pe_remote_set env)) (\<lambda>_.
     task_then (step_ok (pe_description env)) (\<lambda>_.
     task_then (task_result (ok_or (pe_local_description env) PeerError)) (\<lambda>local_sdp.
     task_then (signal (pe_signaled env)
       (send_answer (ss_session_id offer) (cl_id (ss_peer offer)) (encode_sdp X E local_sdp))) (\<lambda>_.
     task_then (tell_sdp_exchanged (pe_closed env)) (\<lambda>_.
       run_to_end env (receive_task X E c))))))))"

end
