(* ===== verification/FB_RtcTransfer.thy ===== *)
theory FB_RtcTransfer
  imports FB_RtcSession
begin

text \<open>
  What a transfer over WebRTC achieves (\<^verbatim>\<open>packages/core/src/webrtc/webrtc.rs\<close>): the two
  tasks run against each other, each reading exactly what the other has sent, and the
  stream of file contents cut into chunks.
\<close>

section \<open>Reference descriptions\<close>

function chunks_of :: "nat \<Rightarrow> 'a list \<Rightarrow> 'a list list" where
  "chunks_of n xs = (if n = 0 \<or> xs = [] then [] else take n xs # chunks_of n (drop n xs))"
  by pat_completeness auto
termination
  by (relation "measure (\<lambda>(n, xs). length xs)") auto

declare chunks_of.simps [simp del]

primrec run_all :: "('b \<Rightarrow> (unit, 's, 'e) task) \<Rightarrow> 'b list \<Rightarrow> (unit, 's, 'e) task" where
  "run_all callback [] = task_ok ()"
| "run_all callback (x # xs) = task_then (callback x) (\<lambda>_. run_all callback xs)"

definition chunked :: "byte list \<Rightarrow> dc_message list" where
  "chunked bs = map binary_message (chunks_of CHUNK_SIZE bs) @ [text_message delimiter]"

definition start_io :: "dc_message list \<Rightarrow> rtc_io" where
  "start_io inbox = \<lparr>io_inbox = inbox, io_sent = [], io_accepts = None, io_statuses = [], io_listening = True,
     io_errors = [], io_offered = None, io_selection = None, io_files = []\<rparr>"

text \<open>
  JSON reads back what it wrote, the text of a header is longer than a delimiter and a
  delimiter is no header; URL-safe base64 decodes what it encodes.
\<close>

definition rtc_codec :: "ext \<Rightarrow> rtc_ext \<Rightarrow> bool" where
  "rtc_codec X E \<longleftrightarrow>
     (\<forall>bs. ext_base64_decode X (ext_base64_encode X bs) = Some bs) \<and>
     (\<forall>m. rx_dec_nonce E (rx_enc_nonce E m) = Some m) \<and>
     (\<forall>m. rx_dec_token E (rx_enc_token E m) = Some m) \<and>
     (\<forall>m. rx_dec_token_response E (rx_enc_token_response E m) = Some m) \<and>
     (\<forall>m. rx_dec_pin E (rx_enc_pin E m) = Some m) \<and>
     (\<forall>m. rx_dec_pin_receiving E (rx_enc_pin_receiving E m) = Some m) \<and>
     (\<forall>m. rx_dec_pin_sending E (rx_enc_pin_sending E m) = Some m) \<and>
     (\<forall>m. rx_dec_file_list E (rx_enc_file_list E m) = Some m) \<and>
     (\<forall>m. rx_dec_header E (rx_enc_header E m) = Some m \<and> 1 < length (rx_enc_header E m)) \<and>
     rx_dec_header E delimiter = None"

text \<open>The guesses that solve a challenge: wrong ones, then the PIN, within the tries.\<close>

definition solves :: "pin_config option \<Rightarrow> rstring option list \<Rightarrow> rstring list \<Rightarrow> bool" where
  "solves pin answers guesses \<longleftrightarrow>
     (case pin of
        None \<Rightarrow> guesses = []
      | Some pc \<Rightarrow>
          pc_pin pc \<noteq> [] \<and> guesses \<noteq> [] \<and> last guesses = pc_pin pc \<and> pc_pin pc \<notin> set (butlast guesses) \<and>
          length guesses \<le> unat (pc_max_tries pc) \<and> take (length guesses) answers = map Some guesses)"

text \<open>Everything the two sides need to succeed, besides the codecs.\<close>

definition keys_fit ::
  "ext \<Rightarrow> offer_config \<Rightarrow> accept_config \<Rightarrow> byte list \<Rightarrow> byte list \<Rightarrow> bool"
where
  "keys_fit X cs cr ders derr \<longleftrightarrow>
     token_suite X (so_signing_key cs) ders \<and> token_suite X (ao_signing_key cr) derr \<and>
     so_expecting cs \<in> {None, Some (to_verifying_key (ao_signing_key cr))} \<and>
     ao_expecting cr \<in> {None, Some (to_verifying_key (so_signing_key cs))}"

definition file_fits :: "file_dto list \<Rightarrow> rstring list \<Rightarrow> rtc_file \<Rightarrow> bool" where
  "file_fits offered selected f \<longleftrightarrow>
     rf_file_id f \<in> set selected \<and>
     (case find (\<lambda>d. fd_id d = rf_file_id f) offered of
        None \<Rightarrow> False
      | Some d \<Rightarrow> length (concat (rf_chunks f)) \<le> unat (fd_size d))"

definition session_ready ::
  "offer_config \<Rightarrow> accept_config \<Rightarrow> rstring list \<Rightarrow> rstring list \<Rightarrow> rstring list \<Rightarrow> bool"
where
  "session_ready cs cr guesses_s guesses_r selected \<longleftrightarrow>
     so_opened cs \<and> ao_channel cr \<and> validate_nonce (so_nonce cs) \<and> validate_nonce (ao_nonce cr) \<and>
     solves (ao_pin cr) (so_pins cs) guesses_s \<and> solves (so_pin cs) (ao_pins cr) guesses_r \<and>
     so_takes_selection cs \<and> ao_takes_files cr \<and> ao_selected cr = Some (Some selected)"

definition session_fits ::
  "offer_config \<Rightarrow> accept_config \<Rightarrow> rstring list \<Rightarrow> rstring list \<Rightarrow> rstring list \<Rightarrow> bool"
where
  "session_fits cs cr guesses_s guesses_r selected \<longleftrightarrow>
     session_ready cs cr guesses_s guesses_r selected \<and>
     ao_takes cr = (\<lambda>file_id n. True) \<and>
     so_sending cs \<noteq> [] \<and> list_all (file_fits (so_files cs) selected) (so_sending cs) \<and>
     length (ao_results cr) = length (so_sending cs) \<and> list_all fr_success (ao_results cr)"

text \<open>What a peer has received: ids with their bytes.\<close>

definition contents :: "rtc_file list \<Rightarrow> (rstring \<times> byte list) list" where
  "contents fs = map (\<lambda>f. (rf_file_id f, concat (rf_chunks f))) fs"

section \<open>Chunks\<close>

lemma chunks_of_Nil [simp]: "chunks_of n [] = []"
  by (simp add: chunks_of.simps)

lemma chunks_of_step: "0 < n \<Longrightarrow> xs \<noteq> [] \<Longrightarrow> chunks_of n xs = take n xs # chunks_of n (drop n xs)"
  by (simp add: chunks_of.simps)

lemma chunks_of_short: "xs \<noteq> [] \<Longrightarrow> length xs \<le> n \<Longrightarrow> chunks_of n xs = [xs]"
  by (cases n) (simp_all add: chunks_of.simps)

lemma concat_chunks_of: "0 < n \<Longrightarrow> concat (chunks_of n xs) = xs"
proof (induction n xs rule: chunks_of.induct)
  case (1 n xs)
  then show ?case
    by (cases "xs = []") (simp_all add: chunks_of_step)
qed

lemma task_then_ok: "m s = (Inr a, s1) \<Longrightarrow> task_then m f s = f a s1"
  by (simp add: task_then_def)

lemma task_then_err: "m s = (Inl e, s1) \<Longrightarrow> task_then m f s = (Inl e, s1)"
  by (simp add: task_then_def)

lemma task_ok_then [simp]: "task_then (task_ok a) f = f a"
  by (rule ext) (simp add: task_then_def task_ok_def)

lemma task_result_then [simp]:
  "task_then (task_result (Inr a)) f = f a" "task_then (task_result (Inl e)) f = task_fail e"
  by (auto simp: fun_eq_iff task_then_def task_result_def task_fail_def)

lemma task_then_assoc: "task_then (task_then m f) g = task_then m (\<lambda>a. task_then (f a) g)"
  by (rule ext) (simp add: task_then_def split: prod.splits sum.splits)

lemma drain_rest: "drain_chunks callback buffer s = (Inr rest, s1) \<Longrightarrow> length rest < CHUNK_SIZE"
proof (induction callback buffer s rule: drain_chunks.induct)
  case (1 callback buffer s)
  from "1.prems" show ?case
    unfolding drain_chunks.simps [of callback buffer s]
    by (auto split: if_splits prod.splits sum.splits dest: "1.IH")
qed

lemma drain_then_chunks:
  "task_then (drain_chunks callback buffer) (\<lambda>rest. run_all callback (chunks_of CHUNK_SIZE (rest @ ys))) s
     = run_all callback (chunks_of CHUNK_SIZE (buffer @ ys)) s"
proof (induction callback buffer s rule: drain_chunks.induct)
  case (1 callback buffer s)
  show ?case
  proof (cases "CHUNK_SIZE \<le> length buffer")
    case True
    moreover from this have "buffer \<noteq> []" using chunk_size_pos by fastforce
    ultimately have split: "chunks_of CHUNK_SIZE (buffer @ ys) =
        take CHUNK_SIZE buffer # chunks_of CHUNK_SIZE (drop CHUNK_SIZE buffer @ ys)"
      by (simp add: chunks_of_step)
    obtain r s1 where r: "callback (take CHUNK_SIZE buffer) s = (r, s1)"
      by (cases "callback (take CHUNK_SIZE buffer) s")
    show ?thesis
    proof (cases r)
      case (Inl e)
      then show ?thesis
        using True r by (simp add: split task_then_def drain_chunks.simps [of callback buffer s])
    next
      case (Inr u)
      then have "run_all callback (chunks_of CHUNK_SIZE (buffer @ ys)) s =
          run_all callback (chunks_of CHUNK_SIZE (drop CHUNK_SIZE buffer @ ys)) s1"
        using r by (simp add: split task_then_def)
      also have "\<dots> = task_then (drain_chunks callback (drop CHUNK_SIZE buffer))
          (\<lambda>rest. run_all callback (chunks_of CHUNK_SIZE (rest @ ys))) s1"
        using "1.IH" [OF True r [symmetric]] Inr by simp
      also have "\<dots> = task_then (drain_chunks callback buffer)
          (\<lambda>rest. run_all callback (chunks_of CHUNK_SIZE (rest @ ys))) s"
        using True r Inr by (simp add: task_then_def drain_chunks.simps [of callback buffer s])
      finally show ?thesis by simp
    qed
  next
    case False
    then show ?thesis
      by (simp add: task_then_def drain_chunks.simps [of callback buffer s])
  qed
qed

lemma process_loop_chunks:
  "length buffer < CHUNK_SIZE \<Longrightarrow>
     process_loop callback rx buffer s = run_all callback (chunks_of CHUNK_SIZE (buffer @ concat rx)) s"
proof (induction rx arbitrary: buffer s)
  case Nil
  then show ?case
    by (auto simp: chunks_of_short task_then_def task_ok_def split: prod.splits sum.splits)
next
  case (Cons data rx)
  obtain r s1 where r: "drain_chunks callback (buffer @ data) s = (r, s1)"
    by (cases "drain_chunks callback (buffer @ data) s")
  have chunks: "task_then (drain_chunks callback (buffer @ data))
      (\<lambda>rest. run_all callback (chunks_of CHUNK_SIZE (rest @ concat rx))) s
      = run_all callback (chunks_of CHUNK_SIZE (buffer @ data @ concat rx)) s"
    by (simp add: drain_then_chunks)
  show ?case
  proof (cases r)
    case (Inl e)
    then show ?thesis using chunks r by (simp add: task_then_def)
  next
    case (Inr rest)
    then have "length rest < CHUNK_SIZE" using r by (auto intro: drain_rest)
    then show ?thesis using chunks r Inr by (simp add: task_then_def Cons.IH)
  qed
qed

lemma processed_chunks:
  "process_in_chunks callback rx s = run_all callback (chunks_of CHUNK_SIZE (concat rx)) s"
  by (simp add: process_in_chunks_def process_loop_chunks)

text \<open>
  C28. Data is cut into chunks independently of how it arrives: processing a stream in
  chunks is calling the callback on the consecutive pieces of 16 KiB of its concatenation,
  the last one shorter, up to the first error.
\<close>

theorem process_in_chunks_reference:
  "process_in_chunks callback rx = run_all callback (chunks_of CHUNK_SIZE (concat rx))"
  by (rule ext) (rule processed_chunks)

section \<open>The open channel\<close>

lemma message_simps [simp]:
  "dm_is_string (text_message bs)" "dm_data (text_message bs) = bs"
  "\<not> dm_is_string (binary_message bs)" "dm_data (binary_message bs) = bs"
  by (simp_all add: text_message_def binary_message_def)

lemma send_text_open [simp]:
  "io_accepts io = None \<Longrightarrow> send_text bs io = (Inr (), io\<lparr>io_sent := io_sent io @ [text_message bs]\<rparr>)"
  by (simp add: send_text_def dc_send_def)

lemma send_chunks_open:
  "io_accepts io = None \<Longrightarrow>
     run_all send_binary cs io = (Inr (), io\<lparr>io_sent := io_sent io @ map binary_message cs\<rparr>)"
proof (induction cs arbitrary: io)
  case Nil
  show ?case by (simp add: task_ok_def)
next
  case (Cons c cs)
  then show ?case
    by (simp add: task_then_def send_binary_def dc_send_def)
qed

lemma process_in_chunks_open [simp]:
  "io_accepts io = None \<Longrightarrow>
     process_in_chunks send_binary rx io =
       (Inr (), io\<lparr>io_sent := io_sent io @ map binary_message (chunks_of CHUNK_SIZE (concat rx))\<rparr>)"
  by (simp add: processed_chunks send_chunks_open)

lemma send_chunked_open [simp]:
  "io_accepts io = None \<Longrightarrow> send_chunked bs io = (Inr (), io\<lparr>io_sent := io_sent io @ chunked bs\<rparr>)"
  by (simp add: send_chunked_def send_string_in_chunks_def send_delimiter_def task_then_def chunked_def)

lemma collect_binary [simp]:
  "collect_text_chunks (map binary_message cs @ text_message d # rest) = (concat cs, rest)"
  by (induction cs) simp_all

lemma collect_chunked [simp]: "collect_text_chunks (chunked bs @ rest) = (bs, rest)"
  by (simp add: chunked_def concat_chunks_of)

lemma receive_chunked [simp]:
  "io_inbox io = chunked bs @ rest \<Longrightarrow>
     receive_string_from_chunks io = (Inr bs, io\<lparr>io_inbox := rest\<rparr>)"
  by (simp add: receive_string_from_chunks_def)

lemma recv_text_open [simp]:
  "io_inbox io = text_message bs # rest \<Longrightarrow> recv_text io = (Inr bs, io\<lparr>io_inbox := rest\<rparr>)"
  by (simp add: recv_text_def dc_recv_def task_then_def task_ok_def)

lemma send_status_open [simp]:
  "io_listening io \<Longrightarrow> send_status st io = (Inr (), io\<lparr>io_statuses := io_statuses io @ [st]\<rparr>)"
  by (simp add: send_status_def)

section \<open>Challenges that are solved\<close>

abbreviation pin_message :: "rtc_ext \<Rightarrow> rstring \<Rightarrow> dc_message" where
  "pin_message E pin \<equiv> text_message (rx_enc_pin E \<lparr>pm_pin = pin\<rparr>)"

lemma tries_step:
  assumes "unat (t :: u8) + Suc n < unat (m :: u8)"
  shows "\<not> m \<le> t" "0 < t + 1" "unat (t + 1) = Suc (unat t)"
proof -
  show "\<not> m \<le> t" using assms by (simp add: word_le_nat_alt)
  show "0 < t + 1" "unat (t + 1) = Suc (unat t)" using assms by unat_arith+
qed

lemma verify_pin_loop_solved:
  assumes "\<forall>m. rx_dec_pin E (rx_enc_pin E m) = Some m"
    and "\<forall>io. io_accepts io = None \<longrightarrow> send VerifyPinRequired io = (Inr (), io\<lparr>io_sent := io_sent io @ M\<rparr>)"
  shows "pc_pin pc \<notin> set ws \<Longrightarrow> r \<noteq> pc_pin pc \<Longrightarrow> unat t + length ws < unat (pc_max_tries pc) \<Longrightarrow>
     io_accepts io = None \<Longrightarrow> io_inbox io = map (pin_message E) (ws @ [pc_pin pc]) @ rest \<Longrightarrow>
     verify_pin_loop E pc send r t notice io =
       (Inr (), io\<lparr>io_inbox := rest,
          io_sent := io_sent io @ (if notice \<or> 0 < t then M else []) @ concat (replicate (length ws) M)\<rparr>)"
proof (induction ws arbitrary: r t notice io)
  case Nil
  then have "\<not> pc_max_tries pc \<le> t" by (simp add: word_le_nat_alt)
  then show ?case
    using Nil assms by (simp add: verify_pin_loop.simps [of E pc send r] verify_pin_loop.simps [of E pc send "pc_pin pc"])
next
  case (Cons w ws)
  have step: "\<not> pc_max_tries pc \<le> t" "0 < t + 1" "unat (t + 1) = Suc (unat t)"
    using tries_step [of t "length ws" "pc_max_tries pc"] Cons.prems(3) by simp_all
  have wrong: "pc_pin pc \<notin> set ws" "w \<noteq> pc_pin pc" using Cons.prems(1) by auto
  have left: "unat (t + 1) + length ws < unat (pc_max_tries pc)" using Cons.prems(3) step(3) by simp
  note again = Cons.IH [OF wrong left]
  show ?case
    using Cons.prems(2,4,5) step(1,2) assms
    by (subst verify_pin_loop.simps) (simp add: again)
qed

lemma verify_pin_solved:
  assumes "\<forall>m. rx_dec_pin E (rx_enc_pin E m) = Some m"
    and "\<forall>io. io_accepts io = None \<longrightarrow> send VerifyPinRequired io = (Inr (), io\<lparr>io_sent := io_sent io @ M\<rparr>)"
    and "solves (Some pc) answers guesses" "io_accepts io = None" "io_listening io"
    and "io_inbox io = map (pin_message E) guesses @ rest"
  shows "verify_pin E pc notice send io =
     (Inr (), io\<lparr>io_inbox := rest, io_statuses := io_statuses io @ [RtcPinRequired],
        io_sent := io_sent io @ (if notice then M else []) @ concat (replicate (length guesses - 1) M)\<rparr>)"
proof -
  obtain ws where g: "guesses = ws @ [pc_pin pc]" "pc_pin pc \<notin> set ws" "pc_pin pc \<noteq> []"
      "length ws < unat (pc_max_tries pc)"
    using assms(3) by (cases guesses rule: rev_cases) (auto simp: solves_def)
  then show ?thesis
    using assms(4-6)
    by (simp add: verify_pin_def task_then_def
        verify_pin_loop_solved [where send = send and M = M and ws = ws and rest = rest, OF assms(1,2)])
qed

text \<open>The wire form of an answer to a PIN, in one text or in chunks.\<close>

definition wire :: "bool \<Rightarrow> byte list \<Rightarrow> dc_message list" where
  "wire in_chunks bs = (if in_chunks then chunked bs else [text_message bs])"

lemma receive_wire:
  "io_inbox io = wire b bs @ rest \<Longrightarrow>
     (if b then receive_string_from_chunks else recv_text) io = (Inr bs, io\<lparr>io_inbox := rest\<rparr>)"
  by (simp add: wire_def split: if_splits)

lemma handle_pin_solved:
  assumes "parse required = ChPinRequired" "parse granted = ChOk v"
  shows "io_accepts io = None \<Longrightarrow> io_listening io \<Longrightarrow>
     io_inbox io = concat (replicate (length ws) (wire b required)) @ wire b granted @ rest \<Longrightarrow>
     handle_pin E b parse (map Some (ws @ [p]) @ others) io =
       (Inr v, io\<lparr>io_inbox := rest, io_statuses := io_statuses io @ replicate (Suc (length ws)) RtcPinRequired,
          io_sent := io_sent io @ map (pin_message E) (ws @ [p])\<rparr>)"
proof (induction ws arbitrary: io)
  case Nil
  then show ?case
    using assms by (simp add: task_then_def receive_wire task_ok_def)
next
  case (Cons w ws)
  then show ?case
    using assms by (simp add: task_then_def receive_wire)
qed

section \<open>Files that arrive\<close>

definition tokens_for :: "(rstring \<Rightarrow> rstring) \<Rightarrow> rstring list \<Rightarrow> (rstring, rstring) hash_map" where
  "tokens_for fresh selected = map (\<lambda>file_id. (file_id, fresh file_id)) selected"

definition file_messages :: "rtc_ext \<Rightarrow> (rstring \<Rightarrow> rstring) \<Rightarrow> rtc_file \<Rightarrow> dc_message list" where
  "file_messages E fresh f =
     text_message (rx_enc_header E \<lparr>fh_id = rf_file_id f, fh_token = fresh (rf_file_id f)\<rparr>) #
     map binary_message (chunks_of CHUNK_SIZE (concat (rf_chunks f)))"

definition success_message :: "rtc_ext \<Rightarrow> rstring \<Rightarrow> dc_message" where
  "success_message E file_id =
     text_message (rx_enc_file_response E \<lparr>fr_id = file_id, fr_success = True, fr_error = None\<rparr>)"

definition received_file :: "rtc_file \<Rightarrow> rtc_file" where
  "received_file f =
     \<lparr>rf_file_id = rf_file_id f, rf_chunks = chunks_of CHUNK_SIZE (concat (rf_chunks f))\<rparr>"

lemma contents_received: "contents (map received_file fs) = contents fs"
  by (simp add: contents_def received_file_def concat_chunks_of comp_def)

lemma token_known: "file_id \<in> set selected \<Longrightarrow> map_of (tokens_for fresh selected) file_id = Some (fresh file_id)"
  by (induction selected) (auto simp: tokens_for_def)

lemma send_one_open:
  "io_accepts io = None \<Longrightarrow> rf_file_id f \<in> set selected \<Longrightarrow>
     send_one_file E (tokens_for fresh selected) f io = io\<lparr>io_sent := io_sent io @ file_messages E fresh f\<rparr>"
  by (simp add: send_one_file_def token_known task_then_def file_messages_def)

lemma send_each_open:
  "io_accepts io = None \<Longrightarrow> list_all (\<lambda>f. rf_file_id f \<in> set selected) fs \<Longrightarrow>
     foldl (\<lambda>io f. send_one_file E (tokens_for fresh selected) f io) io fs =
       io\<lparr>io_sent := io_sent io @ concat (map (file_messages E fresh) fs)\<rparr>"
  by (induction fs arbitrary: io) (simp_all add: send_one_open)

lemma send_files_open:
  "io_accepts io = None \<Longrightarrow> list_all (\<lambda>f. rf_file_id f \<in> set selected) fs \<Longrightarrow> io_inbox io = m # ms \<Longrightarrow>
     send_files E (tokens_for fresh selected) fs io =
       (Inr (), io\<lparr>io_sent := io_sent io @ concat (map (file_messages E fresh) fs) @ [text_message delimiter],
          io_inbox := ms\<rparr>)"
  by (simp add: send_files_def send_each_open send_delimiter_def task_then_def dc_recv_def task_ok_def)

declare receive_files.simps [simp del]

lemma received_word:
  assumes "unat (r :: u64) + n \<le> unat (m :: u64)"
  shows "unat (r + of_nat n) = unat r + n"
proof -
  have "unat r + n < 2 ^ 64" using assms unsigned_less [of m, where ?'a = nat] by simp
  then show ?thesis by (simp add: unat_word_ariths unat_of_nat)
qed

lemma receive_chunks:
  assumes "ao_takes c = (\<lambda>file_id n. True)"
  shows "unat (sf_received s) + length (concat cs) \<le> unat (sf_size s) \<Longrightarrow> io_files io = fs0 @ [f] \<Longrightarrow>
     io_inbox io = map binary_message cs @ rest \<Longrightarrow>
     \<exists>s1. receive_files E c tk offered (Some s) results (map binary_message cs @ rest) io =
       receive_files E c tk offered (Some (s1\<lparr>sf_file_id := sf_file_id s\<rparr>)) results rest
         (io\<lparr>io_inbox := rest, io_files := fs0 @ [f\<lparr>rf_chunks := rf_chunks f @ cs\<rparr>]\<rparr>)"
proof (induction cs arbitrary: s f io)
  case Nil
  have "io\<lparr>io_inbox := rest, io_files := fs0 @ [f\<lparr>rf_chunks := rf_chunks f @ []\<rparr>]\<rparr> = io"
    using Nil by (intro rtc_io.equality) simp_all
  moreover have "s\<lparr>sf_file_id := sf_file_id s\<rparr> = s" by simp
  ultimately show ?case by (metis list.simps(8) append_Nil)
next
  case (Cons b cs)
  let ?s = "s\<lparr>sf_received := sf_received s + of_nat (length b), sf_forwarded := Suc (sf_forwarded s)\<rparr>"
  let ?io = "io\<lparr>io_inbox := map binary_message cs @ rest, io_files := fs0 @ [f\<lparr>rf_chunks := rf_chunks f @ [b]\<rparr>]\<rparr>"
  have fits: "unat (sf_received s) + length b \<le> unat (sf_size s)" using Cons.prems(1) by simp
  note word = received_word [OF fits]
  then have "unat (sf_received ?s) + length (concat cs) \<le> unat (sf_size ?s)" using Cons.prems(1) by simp
  from Cons.IH [OF this, of ?io "f\<lparr>rf_chunks := rf_chunks f @ [b]\<rparr>"] obtain s1 where
    "receive_files E c tk offered (Some ?s) results (map binary_message cs @ rest) ?io =
       receive_files E c tk offered (Some (s1\<lparr>sf_file_id := sf_file_id s\<rparr>)) results rest
         (io\<lparr>io_inbox := rest, io_files := fs0 @ [f\<lparr>rf_chunks := rf_chunks f @ b # cs\<rparr>]\<rparr>)"
    by auto
  moreover have "receive_data c s b (io\<lparr>io_inbox := map binary_message cs @ rest\<rparr>) = (Inr (Some ?s), ?io)"
    using fits word Cons.prems(2) assms by (simp add: receive_data_def word_less_nat_alt forward_chunk_def)
  ultimately show ?case by (simp add: receive_files.simps) blast
qed

lemma receive_all:
  assumes takes: "ao_takes c = (\<lambda>file_id n. True)"
    and codec: "\<forall>m. rx_dec_header E (rx_enc_header E m) = Some m \<and> 1 < length (rx_enc_header E m)"
  shows "list_all (file_fits offered selected) fs \<Longrightarrow> st \<noteq> None \<or> fs \<noteq> [] \<Longrightarrow>
     length results = length fs + (if st = None then 0 else 1) \<Longrightarrow> list_all fr_success results \<Longrightarrow>
     io_accepts io = None \<Longrightarrow>
     io_inbox io = concat (map (file_messages E fresh) fs) @ [text_message delimiter] \<Longrightarrow>
     receive_files E c (tokens_for fresh selected) offered st results (io_inbox io) io =
       (Inr (), io\<lparr>io_inbox := [],
          io_sent := io_sent io @ (case st of None \<Rightarrow> [] | Some s \<Rightarrow> [success_message E (sf_file_id s)]) @
            map (\<lambda>f. success_message E (rf_file_id f)) fs,
          io_files := io_files io @ map received_file fs\<rparr>)"
proof (induction fs arbitrary: st results io)
  case Nil
  then obtain s r where "st = Some s" "results = [r]" "fr_success r"
    by (cases st; cases results) auto
  then show ?case
    using Nil by (simp add: receive_files.simps end_of_file_def task_then_def is_delimiter_def delimiter_def
        success_message_def task_ok_def)
next
  case (Cons f fs)
  let ?rest = "concat (map (file_messages E fresh) fs) @ [text_message delimiter]"
  let ?cs = "chunks_of CHUNK_SIZE (concat (rf_chunks f))"
  let ?rs = "if st = None then results else tl results"
  let ?io = "io\<lparr>io_inbox := map binary_message ?cs @ ?rest,
      io_sent := io_sent io @ (case st of None \<Rightarrow> [] | Some s \<Rightarrow> [success_message E (sf_file_id s)])\<rparr>"
  obtain d where fits: "rf_file_id f \<in> set selected" "find (\<lambda>d. fd_id d = rf_file_id f) offered = Some d"
      "length (concat (rf_chunks f)) \<le> unat (fd_size d)"
    using Cons.prems(1) by (auto simp: file_fits_def split: option.splits)
  let ?s = "\<lparr>sf_file_id = rf_file_id f, sf_size = fd_size d, sf_received = 0, sf_forwarded = 0\<rparr>"
  have ended: "end_of_file E st results (io\<lparr>io_inbox := map binary_message ?cs @ ?rest\<rparr>) = (Inr ?rs, ?io)"
    using Cons.prems(3-5) by (cases st; cases results)
      (auto simp: end_of_file_def task_ok_def task_then_def success_message_def)
  have opened: "open_file (tokens_for fresh selected) offered \<lparr>fh_id = rf_file_id f, fh_token = fresh (rf_file_id f)\<rparr> =
      Inr ?s"
    using fits(1,2) by (simp add: open_file_def token_known ok_or_def ensure_def)
  have first: "receive_files E c (tokens_for fresh selected) offered st results (io_inbox io) io =
      receive_files E c (tokens_for fresh selected) offered (Some ?s) ?rs (map binary_message ?cs @ ?rest)
        (hand_out_file (rf_file_id f) ?io)"
  proof -
    have inbox: "io_inbox io = text_message (rx_enc_header E \<lparr>fh_id = rf_file_id f, fh_token = fresh (rf_file_id f)\<rparr>) #
        map binary_message ?cs @ ?rest"
      using Cons.prems(6) by (simp add: file_messages_def [of E fresh f])
    show ?thesis
      unfolding inbox receive_files.simps(2) Let_def ended
      using codec opened by (simp add: is_delimiter_def linorder_not_le [symmetric])
  qed
  have room: "unat (sf_received ?s) + length (concat ?cs) \<le> unat (sf_size ?s)"
    using fits(3) by (simp add: concat_chunks_of)
  obtain s1 where second: "receive_files E c (tokens_for fresh selected) offered (Some ?s) ?rs (map binary_message ?cs @ ?rest)
        (hand_out_file (rf_file_id f) ?io) =
      receive_files E c (tokens_for fresh selected) offered (Some (s1\<lparr>sf_file_id := rf_file_id f\<rparr>)) ?rs ?rest
        (?io\<lparr>io_inbox := ?rest, io_files := io_files io @ [received_file f]\<rparr>)"
    using receive_chunks [OF takes room, of "hand_out_file (rf_file_id f) ?io" "io_files io"
        "\<lparr>rf_file_id = rf_file_id f, rf_chunks = []\<rparr>" ?rest E "tokens_for fresh selected" offered ?rs]
    by (auto simp: hand_out_file_def received_file_def)
  have third: "receive_files E c (tokens_for fresh selected) offered (Some (s1\<lparr>sf_file_id := rf_file_id f\<rparr>)) ?rs ?rest
        (?io\<lparr>io_inbox := ?rest, io_files := io_files io @ [received_file f]\<rparr>) = (Inr (),
      ?io\<lparr>io_inbox := [], io_sent := io_sent ?io @ success_message E (rf_file_id f) #
            map (\<lambda>f. success_message E (rf_file_id f)) fs,
        io_files := io_files io @ received_file f # map received_file fs\<rparr>)"
    using Cons.IH [of "Some (s1\<lparr>sf_file_id := rf_file_id f\<rparr>)" ?rs
        "?io\<lparr>io_inbox := ?rest, io_files := io_files io @ [received_file f]\<rparr>"] Cons.prems
    by (cases results) (auto split: if_splits)
  show ?case unfolding first second third by simp
qed

lemma receive_from_start:
  assumes "ao_takes c = (\<lambda>file_id n. True)"
    and "\<forall>m. rx_dec_header E (rx_enc_header E m) = Some m \<and> 1 < length (rx_enc_header E m)"
    and "list_all (file_fits offered selected) fs" "fs \<noteq> []" "length results = length fs"
    and "list_all fr_success results" "io_accepts io = None"
    and "io_inbox io = concat (map (file_messages E fresh) fs) @ [text_message delimiter]"
  shows "receive_files E c (tokens_for fresh selected) offered None results
       (concat (map (file_messages E fresh) fs) @ [text_message delimiter]) io =
       (Inr (), io\<lparr>io_inbox := [], io_sent := io_sent io @ map (\<lambda>f. success_message E (rf_file_id f)) fs,
          io_files := io_files io @ map received_file fs\<rparr>)"
  using receive_all [OF assms(1-3), of None results io fresh] assms(4-8) by simp

section \<open>Phase by phase\<close>

abbreviation nonce_text :: "ext \<Rightarrow> rtc_ext \<Rightarrow> byte list \<Rightarrow> dc_message" where
  "nonce_text X E nonce \<equiv> text_message (rx_enc_nonce E \<lparr>nm_nonce = ext_base64_encode X nonce\<rparr>)"

abbreviation receiving_text :: "rtc_ext \<Rightarrow> rtc_pin_receiving_response \<Rightarrow> dc_message" where
  "receiving_text E r \<equiv> text_message (rx_enc_pin_receiving E r)"

abbreviation sending_text :: "rtc_ext \<Rightarrow> rtc_pin_sending_response \<Rightarrow> dc_message list" where
  "sending_text E r \<equiv> chunked (rx_enc_pin_sending E r)"

lemma ok_or_Some [simp]: "ok_or (Some a) e = Inr a"
  by (simp add: ok_or_def)

lemma ensure_True [simp]: "ensure True e = Inr ()"
  by (simp add: ensure_def)

lemma parse_json_Some [simp]: "parse_json (Some a) = task_result (Inr a)"
  by (simp add: parse_json_def)

lemma receive_nonce_open:
  assumes "rtc_codec X E" "validate_nonce nonce" "io_inbox io = nonce_text X E nonce # rest"
  shows "receive_nonce X E io = (Inr nonce, io\<lparr>io_inbox := rest\<rparr>)"
  using assms by (simp add: receive_nonce_def rtc_codec_def task_then_ok [of recv_text] task_ok_def)

lemma send_nonce_open:
  "io_accepts io = None \<Longrightarrow> send_nonce X E nonce io = (Inr (), io\<lparr>io_sent := io_sent io @ [nonce_text X E nonce]\<rparr>)"
  by (simp add: send_nonce_def)

lemma check_own_token:
  assumes "token_suite X key der" "generate_token_nonce X key nonce = Some token"
    and "expecting \<in> {None, Some (to_verifying_key key)}"
  shows "check_token X expecting token nonce = Inr True"
  using assms(3) generated_verdict [OF assms(1,2)]
  by (auto simp: check_token_def verify_token_nonce_def is_valid_token_def)

lemma send_exchange_token_open:
  assumes "rtc_codec X E" "io_accepts io = None" "generate_token_nonce X (so_signing_key c) nonce = Some mine"
    and "io_inbox io = text_message (rx_enc_token_response E response) # rest"
    and "response_token response = Some token" "check_token X (so_expecting c) token nonce = Inr True"
  shows "send_exchange_token X E c nonce io = (Inr (response, token), io\<lparr>io_inbox := rest,
     io_sent := io_sent io @ [text_message (rx_enc_token E \<lparr>tq_token = mine\<rparr>)]\<rparr>)"
  using assms
  by (simp add: send_exchange_token_def rtc_codec_def task_then_ok [of "send_text _"] task_then_ok [of recv_text] task_ok_def)

lemma accept_exchange_token_open:
  assumes "rtc_codec X E" "io_accepts io = None" "generate_token_nonce X (ao_signing_key c) nonce = Some mine"
    and "io_inbox io = text_message (rx_enc_token E \<lparr>tq_token = token\<rparr>) # rest"
    and "check_token X (ao_expecting c) token nonce = Inr True"
  shows "accept_exchange_token X E c nonce io = (Inr (), io\<lparr>io_inbox := rest,
     io_sent := io_sent io @ [text_message (rx_enc_token_response E
       (case ao_pin c of Some _ \<Rightarrow> TrPinRequired mine | None \<Rightarrow> TrOk mine))]\<rparr>)"
  using assms
  by (simp add: accept_exchange_token_def rtc_codec_def task_then_ok [of recv_text])

text \<open>The PIN of the receiver: what it sends for the guesses, and what the sender does with it.\<close>

definition pin_replies :: "rtc_ext \<Rightarrow> pin_config option \<Rightarrow> rstring list \<Rightarrow> dc_message list" where
  "pin_replies E pin guesses =
     (case pin of None \<Rightarrow> [] | Some pc \<Rightarrow>
        concat (replicate (length guesses - 1) [receiving_text E PrPinRequired]) @ [receiving_text E PrOk])"

lemma solves_split:
  assumes "solves (Some pc) answers guesses"
  obtains ws others where "guesses = ws @ [pc_pin pc]" "answers = map Some (ws @ [pc_pin pc]) @ others"
proof
  show "guesses = butlast guesses @ [pc_pin pc]"
    using assms append_butlast_last_id [of guesses] by (simp add: solves_def)
  then show "answers = map Some (butlast guesses @ [pc_pin pc]) @ drop (length guesses) answers"
    using assms append_take_drop_id [of "length guesses" answers] by (simp add: solves_def)
qed

lemma send_answer_pin_open:
  assumes "rtc_codec X E" "solves pin (so_pins c) guesses" "io_accepts io = None" "io_listening io"
    and "io_inbox io = pin_replies E pin guesses @ rest"
    and "response = (case pin of Some _ \<Rightarrow> TrPinRequired token | None \<Rightarrow> TrOk token)"
  shows "send_answer_pin E c response io = (Inr (), io\<lparr>io_inbox := rest,
     io_statuses := io_statuses io @ replicate (length guesses) RtcPinRequired,
     io_sent := io_sent io @ map (pin_message E) guesses\<rparr>)"
proof (cases pin)
  case None
  then show ?thesis
    using assms by (simp add: send_answer_pin_def pin_replies_def solves_def task_ok_def)
next
  case (Some pc)
  then obtain ws others where g: "guesses = ws @ [pc_pin pc]" "so_pins c = map Some (ws @ [pc_pin pc]) @ others"
    using assms(2) solves_split by blast
  have parse: "pin_receiving_result E (rx_enc_pin_receiving E PrPinRequired) = ChPinRequired"
      "pin_receiving_result E (rx_enc_pin_receiving E PrOk) = ChOk ()"
    using assms(1) by (simp_all add: pin_receiving_result_def rtc_codec_def)
  show ?thesis
    using handle_pin_solved [where b = False and ws = ws and rest = rest and p = "pc_pin pc" and others = others
      and io = io and E = E, OF parse] Some g assms(3-6)
    by (simp add: send_answer_pin_def pin_replies_def wire_def)
qed

lemma accept_pose_pin_open:
  assumes "rtc_codec X E" "solves (ao_pin c) answers guesses" "io_accepts io = None" "io_listening io"
    and "io_inbox io = map (pin_message E) guesses @ rest"
  shows "accept_pose_pin E c io = (Inr (), io\<lparr>io_inbox := rest,
     io_statuses := io_statuses io @ (if ao_pin c = None then [] else [RtcPinRequired]),
     io_sent := io_sent io @ pin_replies E (ao_pin c) guesses\<rparr>)"
proof (cases "ao_pin c")
  case None
  then show ?thesis
    using assms by (simp add: accept_pose_pin_def pin_replies_def solves_def task_ok_def)
next
  case (Some pc)
  have sends: "\<forall>io. io_accepts io = None \<longrightarrow> send_pin_receiving E VerifyPinRequired io =
      (Inr (), io\<lparr>io_sent := io_sent io @ [receiving_text E PrPinRequired]\<rparr>)"
    by (simp add: send_pin_receiving_def)
  have dec: "\<forall>m. rx_dec_pin E (rx_enc_pin E m) = Some m" using assms(1) by (simp add: rtc_codec_def)
  note posed = verify_pin_solved [where notice = False and send = "send_pin_receiving E" and rest = rest,
      OF dec sends assms(2) [unfolded Some] assms(3-5)]
  show ?thesis
    using assms(3) posed by (simp add: accept_pose_pin_def Some pin_replies_def task_then_ok [of "verify_pin _ _ _ _"])
qed

text \<open>The PIN of the sender: its challenge precedes the file list.\<close>

definition pin_challenges :: "rtc_ext \<Rightarrow> pin_config option \<Rightarrow> rstring list \<Rightarrow> dc_message list" where
  "pin_challenges E pin guesses = concat (replicate (length guesses) (sending_text E PsPinRequired))"

lemma send_pose_pin_open:
  assumes "rtc_codec X E" "solves (so_pin c) answers guesses" "io_accepts io = None" "io_listening io"
    and "io_inbox io = map (pin_message E) guesses @ rest"
  shows "send_pose_pin E c io = (Inr (), io\<lparr>io_inbox := rest,
     io_statuses := io_statuses io @ (if so_pin c = None then [] else [RtcPinRequired]),
     io_sent := io_sent io @ pin_challenges E (so_pin c) guesses\<rparr>)"
proof (cases "so_pin c")
  case None
  then show ?thesis
    using assms by (simp add: send_pose_pin_def pin_challenges_def solves_def task_ok_def)
next
  case (Some pc)
  have sends: "\<forall>io. io_accepts io = None \<longrightarrow> send_pin_sending E VerifyPinRequired io =
      (Inr (), io\<lparr>io_sent := io_sent io @ sending_text E PsPinRequired\<rparr>)"
    by (simp add: send_pin_sending_def)
  have dec: "\<forall>m. rx_dec_pin E (rx_enc_pin E m) = Some m" using assms(1) by (simp add: rtc_codec_def)
  note posed = verify_pin_solved [where notice = True and send = "send_pin_sending E" and rest = rest,
      OF dec sends assms(2) [unfolded Some] assms(3-5)]
  have "guesses \<noteq> []" using assms(2) Some by (simp add: solves_def)
  then show ?thesis
    using assms(3) posed by (cases guesses) (simp_all add: send_pose_pin_def Some pin_challenges_def)
qed

lemma accept_answer_pin_open:
  assumes "rtc_codec X E" "solves pin (ao_pins c) guesses" "io_accepts io = None" "io_listening io"
    and "io_inbox io = pin_challenges E pin guesses @ sending_text E (PsOk files) @ rest"
  shows "accept_answer_pin E c io = (Inr files, io\<lparr>io_inbox := rest,
     io_statuses := io_statuses io @ replicate (length guesses) RtcPinRequired,
     io_sent := io_sent io @ map (pin_message E) guesses\<rparr>)"
proof (cases pin)
  case None
  then show ?thesis
    using assms by (simp add: accept_answer_pin_def pin_challenges_def solves_def task_ok_def rtc_codec_def
        task_then_ok [of receive_string_from_chunks])
next
  case (Some pc)
  then obtain ws others where g: "guesses = ws @ [pc_pin pc]" "ao_pins c = map Some (ws @ [pc_pin pc]) @ others"
    using assms(2) solves_split by blast
  have parse: "pin_sending_result E (rx_enc_pin_sending E PsPinRequired) = ChPinRequired"
      "pin_sending_result E (rx_enc_pin_sending E (PsOk files)) = ChOk files"
    using assms(1) by (simp_all add: pin_sending_result_def rtc_codec_def)
  let ?io = "io\<lparr>io_inbox := concat (replicate (length ws) (sending_text E PsPinRequired)) @ sending_text E (PsOk files) @ rest\<rparr>"
  have "receive_string_from_chunks io = (Inr (rx_enc_pin_sending E PsPinRequired), ?io)"
    using assms(5) g by (simp add: pin_challenges_def)
  moreover have "rx_dec_pin_sending E (rx_enc_pin_sending E PsPinRequired) = Some PsPinRequired"
    using assms(1) by (simp add: rtc_codec_def)
  ultimately show ?thesis
    using handle_pin_solved [where b = True and ws = ws and rest = rest and p = "pc_pin pc" and others = others
      and io = ?io and E = E, OF parse] g assms(3,4)
    by (simp add: accept_answer_pin_def task_then_ok [of receive_string_from_chunks] wire_def)
qed

section \<open>A whole transfer\<close>

definition sender_sends ::
  "ext \<Rightarrow> rtc_ext \<Rightarrow> offer_config \<Rightarrow> accept_config \<Rightarrow> rstring \<Rightarrow> rstring list \<Rightarrow> rstring list \<Rightarrow> dc_message list"
where
  "sender_sends X E cs cr token gs gr =
     [nonce_text X E (so_nonce cs), text_message (rx_enc_token E \<lparr>tq_token = token\<rparr>)] @
     map (pin_message E) gs @ pin_challenges E (so_pin cs) gr @ sending_text E (PsOk (so_files cs)) @
     concat (map (file_messages E (ao_fresh cr)) (so_sending cs)) @ [text_message delimiter]"

definition receiver_sends ::
  "ext \<Rightarrow> rtc_ext \<Rightarrow> offer_config \<Rightarrow> accept_config \<Rightarrow> rstring \<Rightarrow> rstring list \<Rightarrow> rstring list \<Rightarrow> rstring list \<Rightarrow>
   dc_message list"
where
  "receiver_sends X E cs cr token gs gr selected =
     [nonce_text X E (ao_nonce cr), text_message (rx_enc_token_response E
        (case ao_pin cr of Some _ \<Rightarrow> TrPinRequired token | None \<Rightarrow> TrOk token))] @
     pin_replies E (ao_pin cr) gs @ map (pin_message E) gr @
     chunked (rx_enc_file_list E (FlOk (tokens_for (ao_fresh cr) selected))) @
     map (\<lambda>f. success_message E (rf_file_id f)) (so_sending cs)"

lemma response_token_case: "response_token (case pin of Some pc \<Rightarrow> TrPinRequired t | None \<Rightarrow> TrOk t) = Some t"
  by (cases pin) simp_all

lemma tokens_ids [simp]: "map fst (tokens_for fresh selected) = selected"
  by (simp add: tokens_for_def comp_def)

lemma task_update_then: "task_then (\<lambda>io. (Inr a, g io)) f io = f a (g io)"
  by (simp add: task_then_def)

lemma sending_ids: "list_all (file_fits offered selected) fs \<Longrightarrow> list_all (\<lambda>f. rf_file_id f \<in> set selected) fs"
  by (auto simp: list_all_iff file_fits_def)

lemma sender_runs:
  assumes codec: "rtc_codec X E" and fits: "session_fits cs cr gs gr selected"
    and keys: "keys_fit X cs cr ders derr"
    and mine: "generate_token_nonce X (so_signing_key cs) (so_nonce cs @ ao_nonce cr) = Some toks"
    and other: "generate_token_nonce X (ao_signing_key cr) (so_nonce cs @ ao_nonce cr) = Some tokr"
  shows "send_task X E cs (start_io (receiver_sends X E cs cr tokr gs gr selected)) = (Inr (),
     (start_io (map (\<lambda>f. success_message E (rf_file_id f)) (tl (so_sending cs))))
       \<lparr>io_sent := sender_sends X E cs cr toks gs gr,
        io_statuses := replicate (length gs) RtcPinRequired @
          (if so_pin cs = None then [] else [RtcPinRequired]) @ [RtcConnected],
        io_selection := Some selected\<rparr>)"
proof -
  let ?io0 = "start_io (receiver_sends X E cs cr tokr gs gr selected)"
  let ?nonce = "so_nonce cs @ ao_nonce cr"
  let ?files = "concat (map (file_messages E (ao_fresh cr)) (so_sending cs))"
  obtain f fs where sending: "so_sending cs = f # fs" using fits by (cases "so_sending cs") (auto simp: session_fits_def)
  have nonce: "validate_nonce (ao_nonce cr)" and opened: "so_opened cs" "so_takes_selection cs"
    and pins: "solves (ao_pin cr) (so_pins cs) gs" "solves (so_pin cs) (ao_pins cr) gr"
    and ids: "list_all (\<lambda>f. rf_file_id f \<in> set selected) (so_sending cs)"
    using fits by (auto simp: session_fits_def session_ready_def intro: sending_ids)
  have token: "check_token X (so_expecting cs) tokr ?nonce = Inr True"
    using keys other by (intro check_own_token) (auto simp: keys_fit_def)
  have exchanged: "send_exchange_nonce X E cs ?io0 = (Inr ?nonce, ?io0\<lparr>
      io_inbox := tl (receiver_sends X E cs cr tokr gs gr selected), io_sent := [nonce_text X E (so_nonce cs)]\<rparr>)"
    using codec nonce
    by (simp add: send_exchange_nonce_def task_then_ok [of "send_nonce _ _ _"] send_nonce_open start_io_def
        task_then_ok [of "receive_nonce _ _"] receive_nonce_open receiver_sends_def task_ok_def)
  show ?thesis
    using codec opened mine token pins ids exchanged
    unfolding send_task_def send_authenticate_def
    by (simp add: task_then_assoc task_then_ok [of "send_exchange_nonce _ _ _"] receiver_sends_def start_io_def
        task_then_ok [of "send_exchange_token _ _ _ _"] send_exchange_token_open [OF codec _ mine] response_token_case
        task_then_ok [of "send_answer_pin _ _ _"] send_answer_pin_open [OF codec pins(1)]
        task_then_ok [of "send_pose_pin _ _"] send_pose_pin_open [OF codec pins(2)]
        send_after_pins_def task_then_ok [of "send_status _"] task_then_ok [of "send_file_list _ _"] send_file_list_def
        await_selection_def receive_file_list_def task_then_ok [of receive_string_from_chunks]
        rtc_codec_def files_after_pair_def publish_selection_def sending task_update_then
        send_files_open sender_sends_def)
qed

text \<open>The receiver up to the files: the answers are sent, what is left is the loop over the messages.\<close>

lemma receiver_reaches_files:
  assumes codec: "rtc_codec X E" and ready: "session_ready cs cr gs gr selected"
    and keys: "keys_fit X cs cr ders derr"
    and mine: "generate_token_nonce X (ao_signing_key cr) (so_nonce cs @ ao_nonce cr) = Some tokr"
    and other: "generate_token_nonce X (so_signing_key cs) (so_nonce cs @ ao_nonce cr) = Some toks"
  shows "receive_task X E cr (start_io (sender_sends X E cs cr toks gs gr)) =
     (let tail = concat (map (file_messages E (ao_fresh cr)) (so_sending cs)) @ [text_message delimiter]
      in receive_files E cr (tokens_for (ao_fresh cr) selected) (so_files cs) None (ao_results cr) tail
       ((start_io tail)
         \<lparr>io_sent := receiver_sends X E (cs\<lparr>so_sending := []\<rparr>) cr tokr gs gr selected,
          io_statuses := (if ao_pin cr = None then [] else [RtcPinRequired]) @
            replicate (length gr) RtcPinRequired @ [RtcConnected],
          io_offered := Some (so_files cs)\<rparr>))"
proof -
  let ?io0 = "start_io (sender_sends X E cs cr toks gs gr)"
  let ?nonce = "so_nonce cs @ ao_nonce cr"
  have nonce: "validate_nonce (so_nonce cs)" and opened: "ao_channel cr" "ao_takes_files cr"
    and chosen: "ao_selected cr = Some (Some selected)"
    and pins: "solves (ao_pin cr) (so_pins cs) gs" "solves (so_pin cs) (ao_pins cr) gr"
    using ready by (auto simp: session_ready_def)
  have token: "check_token X (ao_expecting cr) toks ?nonce = Inr True"
    using keys other by (intro check_own_token) (auto simp: keys_fit_def)
  have exchanged: "accept_exchange_nonce X E cr ?io0 = (Inr ?nonce, ?io0\<lparr>
      io_inbox := tl (sender_sends X E cs cr toks gs gr), io_sent := [nonce_text X E (ao_nonce cr)]\<rparr>)"
    using codec nonce
    by (simp add: accept_exchange_nonce_def task_then_ok [of "send_nonce _ _ _"] send_nonce_open start_io_def
        task_then_ok [of "receive_nonce _ _"] receive_nonce_open sender_sends_def task_ok_def)
  show ?thesis
    using opened mine token exchanged
    unfolding receive_task_def accept_authenticate_def
    by (simp add: task_then_assoc task_then_ok [of "accept_exchange_nonce _ _ _"] sender_sends_def start_io_def
        task_then_ok [of "accept_exchange_token _ _ _ _"] accept_exchange_token_open [OF codec _ mine]
        task_then_ok [of "accept_pose_pin _ _"] accept_pose_pin_open [OF codec pins(1)]
        task_then_ok [of "accept_answer_pin _ _"] accept_answer_pin_open [OF codec pins(2)]
        task_then_ok [of "send_status _"] publish_files_def task_update_then
        accept_selection_def chosen tokens_for_def [symmetric] task_then_ok [of "send_chunked _"]
        Let_def receiver_sends_def)
qed

lemma receiver_runs:
  assumes codec: "rtc_codec X E" and fits: "session_fits cs cr gs gr selected"
    and keys: "keys_fit X cs cr ders derr"
    and mine: "generate_token_nonce X (ao_signing_key cr) (so_nonce cs @ ao_nonce cr) = Some tokr"
    and other: "generate_token_nonce X (so_signing_key cs) (so_nonce cs @ ao_nonce cr) = Some toks"
  shows "receive_task X E cr (start_io (sender_sends X E cs cr toks gs gr)) = (Inr (), (start_io [])
       \<lparr>io_sent := receiver_sends X E cs cr tokr gs gr selected,
        io_statuses := (if ao_pin cr = None then [] else [RtcPinRequired]) @
          replicate (length gr) RtcPinRequired @ [RtcConnected],
        io_offered := Some (so_files cs), io_files := map received_file (so_sending cs)\<rparr>)"
proof -
  have ready: "session_ready cs cr gs gr selected" using fits by (simp add: session_fits_def)
  have header: "\<forall>m. rx_dec_header E (rx_enc_header E m) = Some m \<and> 1 < length (rx_enc_header E m)"
    using codec by (simp add: rtc_codec_def)
  have takes: "ao_takes cr = (\<lambda>file_id n. True)" and files: "list_all (file_fits (so_files cs) selected) (so_sending cs)"
    and nonempty: "so_sending cs \<noteq> []" and results: "length (ao_results cr) = length (so_sending cs)"
      "list_all fr_success (ao_results cr)"
    using fits by (auto simp: session_fits_def)
  show ?thesis
    using nonempty results
    unfolding receiver_reaches_files [OF codec ready keys mine other]
    by (simp add: Let_def start_io_def receive_from_start [OF takes header files] receiver_sends_def)
qed

section \<open>A concrete codec\<close>

text \<open>Lists of texts in unary: ones for a character, zero after it, two after a text.\<close>

definition demo_write :: "rstring list \<Rightarrow> byte list" where
  "demo_write ss = concat (map (\<lambda>s. concat (map (\<lambda>c. replicate c 1 @ [0]) s) @ [2]) ss)"

fun demo_read :: "nat \<Rightarrow> rstring \<Rightarrow> byte list \<Rightarrow> rstring list" where
  "demo_read n s [] = []"
| "demo_read n s (b # bs) =
     (if b = 1 then demo_read (Suc n) s bs
      else if b = 0 then demo_read 0 (s @ [n]) bs
      else s # demo_read 0 [] bs)"

definition demo_opt :: "rstring option \<Rightarrow> rstring" where
  "demo_opt x = (case x of None \<Rightarrow> [] | Some s \<Rightarrow> 1 # s)"

definition demo_unopt :: "rstring \<Rightarrow> rstring option" where
  "demo_unopt s = (case s of [] \<Rightarrow> None | _ # t \<Rightarrow> Some t)"

definition rtc_demo_file :: "file_dto \<Rightarrow> rstring list" where
  "rtc_demo_file f = [fd_id f, fd_file_name f, [unat (fd_size f)], fd_file_type f, demo_opt (fd_sha256 f),
     demo_opt (fd_preview f), demo_opt (map_option (\<lambda>m. demo_opt (fm_modified m)) (fd_metadata f)),
     demo_opt (map_option (\<lambda>m. demo_opt (fm_accessed m)) (fd_metadata f))]"

fun demo_files :: "rstring list \<Rightarrow> file_dto list" where
  "demo_files (a # b # c # d # e # f # g # h # ss) =
     \<lparr>fd_id = a, fd_file_name = b, fd_size = of_nat (hd c), fd_file_type = d, fd_sha256 = demo_unopt e,
       fd_preview = demo_unopt f,
       fd_metadata = map_option (\<lambda>m. \<lparr>fm_modified = demo_unopt m, fm_accessed = demo_unopt (tl h)\<rparr>) (demo_unopt g)\<rparr> #
     demo_files ss"
| "demo_files ss = []"

fun rtc_demo_pairs :: "rstring list \<Rightarrow> (rstring \<times> rstring) list" where
  "rtc_demo_pairs (a # b # ss) = (a, b) # rtc_demo_pairs ss"
| "rtc_demo_pairs ss = []"

definition demo_rtc :: rtc_ext where
  "demo_rtc = \<lparr>
     rx_enc_nonce = (\<lambda>m. demo_write [nm_nonce m]),
     rx_dec_nonce = (\<lambda>bs. case demo_read 0 [] bs of [s] \<Rightarrow> Some \<lparr>nm_nonce = s\<rparr> | _ \<Rightarrow> None),
     rx_enc_token = (\<lambda>m. demo_write [tq_token m]),
     rx_dec_token = (\<lambda>bs. case demo_read 0 [] bs of [s] \<Rightarrow> Some \<lparr>tq_token = s\<rparr> | _ \<Rightarrow> None),
     rx_enc_token_response = (\<lambda>m. demo_write (case m of TrOk t \<Rightarrow> [[0], t] | TrPinRequired t \<Rightarrow> [[1], t] | _ \<Rightarrow> [])),
     rx_dec_token_response = (\<lambda>bs. case demo_read 0 [] bs of
         [[k], t] \<Rightarrow> Some (if k = 0 then TrOk t else TrPinRequired t) | _ \<Rightarrow> Some TrInvalidSignature),
     rx_enc_pin = (\<lambda>m. demo_write [pm_pin m]),
     rx_dec_pin = (\<lambda>bs. case demo_read 0 [] bs of [s] \<Rightarrow> Some \<lparr>pm_pin = s\<rparr> | _ \<Rightarrow> None),
     rx_enc_pin_receiving = (\<lambda>m. demo_write (case m of PrOk \<Rightarrow> [] | PrPinRequired \<Rightarrow> [[]] | _ \<Rightarrow> [[], []])),
     rx_dec_pin_receiving = (\<lambda>bs. case demo_read 0 [] bs of [] \<Rightarrow> Some PrOk | [_] \<Rightarrow> Some PrPinRequired
         | _ \<Rightarrow> Some PrTooManyAttempts),
     rx_enc_pin_sending = (\<lambda>m. demo_write (case m of PsOk fs \<Rightarrow> [0] # concat (map rtc_demo_file fs)
         | PsPinRequired \<Rightarrow> [[1]] | _ \<Rightarrow> [])),
     rx_dec_pin_sending = (\<lambda>bs. case demo_read 0 [] bs of
         [] \<Rightarrow> Some PsTooManyAttempts
       | k # ss \<Rightarrow> Some (if k = [0] then PsOk (demo_files ss) else PsPinRequired)),
     rx_enc_file_list = (\<lambda>m. demo_write (case m of FlOk ps \<Rightarrow> [0] # concat (map (\<lambda>(a, b). [a, b]) ps)
         | FlPair k \<Rightarrow> [[1], k] | FlDeclined \<Rightarrow> [[1]] | FlInvalidSignature \<Rightarrow> [])),
     rx_dec_file_list = (\<lambda>bs. case demo_read 0 [] bs of
         [] \<Rightarrow> Some FlInvalidSignature
       | k # ss \<Rightarrow> Some (if k = [0] then FlOk (rtc_demo_pairs ss)
           else case ss of [] \<Rightarrow> FlDeclined | s # _ \<Rightarrow> FlPair s)),
     rx_enc_pair = (\<lambda>m. []),
     rx_enc_header = (\<lambda>h. demo_write [fh_id h, fh_token h]),
     rx_dec_header = (\<lambda>bs. case demo_read 0 [] bs of [a, b] \<Rightarrow> Some \<lparr>fh_id = a, fh_token = b\<rparr> | _ \<Rightarrow> None),
     rx_enc_file_response = (\<lambda>r. demo_write [fr_id r]),
     rx_ed = (\<lambda>k. None), rx_rsa = (\<lambda>k. None),
     rx_compress = concat \<circ> map (\<lambda>c. replicate c 1 @ [0]),
     rx_decompress = (\<lambda>bs. case demo_read 0 [] (bs @ [2]) of [s] \<Rightarrow> Some s | _ \<Rightarrow> None)\<rparr>"

lemma demo_read_char: "demo_read n s (replicate c 1 @ bs) = demo_read (n + c) s bs"
  by (induction c arbitrary: n) simp_all

lemma demo_read_text: "demo_read 0 s (concat (map (\<lambda>c. replicate c 1 @ [0]) t) @ 2 # bs) = (s @ t) # demo_read 0 [] bs"
  by (induction t arbitrary: s) (simp_all add: demo_read_char)

lemma demo_read_write [simp]: "demo_read 0 [] (demo_write ss) = ss"
  unfolding demo_write_def
  by (induction ss) (simp_all add: demo_read_text)

lemma demo_opt_inverse [simp]: "demo_unopt (demo_opt x) = x"
  by (simp add: demo_opt_def demo_unopt_def split: option.split)

lemma demo_files_inverse [simp]: "demo_files (concat (map rtc_demo_file fs)) = fs"
proof (induction fs)
  case (Cons f fs)
  have "map_option (\<lambda>m. \<lparr>fm_modified = demo_unopt m,
      fm_accessed = demo_unopt (tl (demo_opt (map_option (\<lambda>m. demo_opt (fm_accessed m)) (fd_metadata f))))\<rparr>)
      (map_option (\<lambda>m. demo_opt (fm_modified m)) (fd_metadata f)) = fd_metadata f"
    by (cases "fd_metadata f") (simp_all add: demo_opt_def [of "Some _"])
  then show ?case using Cons by (simp add: rtc_demo_file_def)
qed simp

lemma rtc_demo_pairs_inverse [simp]: "rtc_demo_pairs (concat (map (\<lambda>(a, b). [a, b]) ps)) = ps"
  by (induction ps) auto

lemma demo_write_length: "1 < length (demo_write [a, b])"
  by (simp add: demo_write_def)

lemma demo_rtc_codec: "rtc_codec demo_token_ext demo_rtc"
  unfolding rtc_codec_def
proof (intro conjI allI)
  show "rx_dec_token_response demo_rtc (rx_enc_token_response demo_rtc m) = Some m" for m
    by (cases m) (simp_all add: demo_rtc_def)
  show "rx_dec_pin_receiving demo_rtc (rx_enc_pin_receiving demo_rtc m) = Some m" for m
    by (cases m) (simp_all add: demo_rtc_def)
  show "rx_dec_pin_sending demo_rtc (rx_enc_pin_sending demo_rtc m) = Some m" for m
    by (cases m) (simp_all add: demo_rtc_def)
  show "rx_dec_file_list demo_rtc (rx_enc_file_list demo_rtc m) = Some m" for m
    by (cases m) (simp_all add: demo_rtc_def)
qed (simp_all add: demo_rtc_def demo_token_ext_def comp_def delimiter_def demo_write_length [simplified])

definition demo_dto :: file_dto where
  "demo_dto = \<lparr>fd_id = lit ''a'', fd_file_name = lit ''n'', fd_size = 3, fd_file_type = [], fd_sha256 = None,
     fd_preview = None, fd_metadata = None\<rparr>"

definition rtc_demo_offer :: offer_config where
  "rtc_demo_offer = \<lparr>so_opened = True, so_nonce = replicate 16 1, so_signing_key = demo_key,
     so_expecting = Some (to_verifying_key demo_key), so_pin = None, so_files = [demo_dto],
     so_pins = [Some (lit ''0''), Some (lit ''1'')], so_pair = PairDropped, so_takes_selection = True,
     so_sending = [\<lparr>rf_file_id = lit ''a'', rf_chunks = [[1, 2], [3]]\<rparr>]\<rparr>"

definition demo_accept :: accept_config where
  "demo_accept = \<lparr>ao_channel = True, ao_nonce = replicate 16 2, ao_signing_key = demo_key,
     ao_expecting = Some (to_verifying_key demo_key), ao_pin = Some \<lparr>pc_pin = lit ''1'', pc_max_tries = 3\<rparr>,
     ao_takes_files = True, ao_selected = Some (Some [lit ''a'']), ao_fresh = (\<lambda>i. i @ lit ''t''), ao_pins = [],
     ao_takes = (\<lambda>file_id n. True), ao_results = [\<lparr>fr_id = lit ''a'', fr_success = True, fr_error = None\<rparr>]\<rparr>"

lemma demo_session_fits: "session_fits rtc_demo_offer demo_accept [lit ''0'', lit ''1''] [] [lit ''a'']"
  by (simp add: session_fits_def session_ready_def rtc_demo_offer_def demo_accept_def validate_nonce_def solves_def lit_def
      file_fits_def demo_dto_def)

lemma demo_keys_fit: "keys_fit demo_token_ext rtc_demo_offer demo_accept [7] [7]"
  using demo_suite by (simp add: keys_fit_def rtc_demo_offer_def demo_accept_def)

section \<open>Theorems\<close>

text \<open>
  C8. End to end over WebRTC: when the keys and PINs fit, the application answers and some
  file is sent, the two tasks, each reading exactly what the other sends, both succeed; the
  receiver is offered exactly the announced files, the sender learns exactly the selection,
  and every file sent arrives with exactly its bytes, in order and without an error. The
  sender ends having read the outcome of a single file: those of all others stay unread.
\<close>

theorem rtc_transfer_exact:
  assumes "rtc_codec X E" "session_fits cs cr guesses_s guesses_r selected" "keys_fit X cs cr ders derr"
  shows "\<exists>ms mr. case (send_task X E cs (start_io mr), receive_task X E cr (start_io ms)) of
     ((rs, ios), (rr, ior)) \<Rightarrow>
       rs = Inr () \<and> rr = Inr () \<and> io_sent ios = ms \<and> io_sent ior = mr \<and>
       io_offered ior = Some (so_files cs) \<and> io_selection ios = Some selected \<and>
       contents (io_files ior) = contents (so_sending cs) \<and> io_errors ios = [] \<and> io_errors ior = [] \<and>
       Suc (length (io_inbox ios)) = length (so_sending cs)"
proof -
  obtain toks tokr where
    toks: "generate_token_nonce X (so_signing_key cs) (so_nonce cs @ ao_nonce cr) = Some toks" and
    tokr: "generate_token_nonce X (ao_signing_key cr) (so_nonce cs @ ao_nonce cr) = Some tokr"
    using assms(3) token_generates unfolding keys_fit_def by blast
  have some: "Suc (length (so_sending cs) - Suc 0) = length (so_sending cs)"
    using assms(2) by (cases "so_sending cs") (simp_all add: session_fits_def)
  note runs = sender_runs [OF assms toks tokr] receiver_runs [OF assms tokr toks]
  show ?thesis
    by (rule exI [of _ "sender_sends X E cs cr toks guesses_s guesses_r"],
        rule exI [of _ "receiver_sends X E cs cr tokr guesses_s guesses_r selected"])
      (unfold runs, simp add: contents_received start_io_def some)
qed

theorem rtc_transfer_exact_witness:
  "\<exists>ms mr. case (send_task demo_token_ext demo_rtc rtc_demo_offer (start_io mr),
       receive_task demo_token_ext demo_rtc demo_accept (start_io ms)) of
     ((rs, ios), (rr, ior)) \<Rightarrow>
       rs = Inr () \<and> rr = Inr () \<and> io_sent ios = ms \<and> io_sent ior = mr \<and>
       contents (io_files ior) = [(lit ''a'', [1, 2, 3])]"
proof -
  have "contents (so_sending rtc_demo_offer) = [(lit ''a'', [1, 2, 3])]"
    by (simp add: contents_def rtc_demo_offer_def)
  moreover obtain ms mr where "case (send_task demo_token_ext demo_rtc rtc_demo_offer (start_io mr),
       receive_task demo_token_ext demo_rtc demo_accept (start_io ms)) of
     ((rs, ios), (rr, ior)) \<Rightarrow>
       rs = Inr () \<and> rr = Inr () \<and> io_sent ios = ms \<and> io_sent ior = mr \<and>
       io_offered ior = Some (so_files rtc_demo_offer) \<and> io_selection ios = Some [lit ''a''] \<and>
       contents (io_files ior) = contents (so_sending rtc_demo_offer) \<and> io_errors ios = [] \<and> io_errors ior = [] \<and>
       Suc (length (io_inbox ios)) = length (so_sending rtc_demo_offer)"
    using rtc_transfer_exact [OF demo_rtc_codec demo_session_fits demo_keys_fit] by (elim exE) (rule that)
  ultimately show ?thesis
    by (intro exI [of _ ms] exI [of _ mr]) (simp split: prod.splits)
qed

end
