(* ===== verification/FB_RtcSafety.thy ===== *)
theory FB_RtcSafety
  imports FB_RtcTransfer
begin

text \<open>
  What the tasks of a WebRTC transfer guarantee against any peer
  (\<^verbatim>\<open>packages/core/src/webrtc/webrtc.rs\<close>): nothing of the files is revealed to, and
  nothing is accepted from, a peer that has not proved its key and the PIN; the guesses of
  a PIN are bounded; what is handed to the application was selected and fits its
  announced size. The failures follow: a transfer without files, and errors that leave
  the connection open.
\<close>

section \<open>Reference descriptions\<close>

text \<open>
  What the messages of a peer prove to the sender: a valid nonce, a token for both nonces
  under the expected key, and somewhere later the PIN.
\<close>

definition received_nonce :: "ext \<Rightarrow> rtc_ext \<Rightarrow> dc_message \<Rightarrow> byte list option" where
  "received_nonce X E m =
     Option.bind (rx_dec_nonce E (dm_data m)) (\<lambda>msg. ext_base64_decode X (nm_nonce msg))"

definition token_proves ::
  "ext \<Rightarrow> verifying_token_key option \<Rightarrow> rstring \<Rightarrow> byte list \<Rightarrow> bool"
where
  "token_proves X expecting token nonce =
     (case expecting of None \<Rightarrow> True | Some key \<Rightarrow> verify_token_nonce X key token nonce = Some True)"

definition pin_proved :: "rtc_ext \<Rightarrow> pin_config option \<Rightarrow> dc_message list \<Rightarrow> bool" where
  "pin_proved E pin messages =
     (case pin of
        None \<Rightarrow> True
      | Some pc \<Rightarrow> pc_pin pc = [] \<or>
          list_ex (\<lambda>m. rx_dec_pin E (dm_data m) = Some \<lparr>pm_pin = pc_pin pc\<rparr>) messages)"

definition proves_to_sender :: "ext \<Rightarrow> rtc_ext \<Rightarrow> offer_config \<Rightarrow> dc_message list \<Rightarrow> bool" where
  "proves_to_sender X E c inbox =
     (case inbox of
        nonce_msg # token_msg # rest \<Rightarrow>
          (case (received_nonce X E nonce_msg,
                 Option.bind (rx_dec_token_response E (dm_data token_msg)) response_token) of
             (Some nonce, Some token) \<Rightarrow>
               validate_nonce nonce \<and> token_proves X (so_expecting c) token (so_nonce c @ nonce) \<and>
               pin_proved E (so_pin c) rest
           | _ \<Rightarrow> False)
      | _ \<Rightarrow> False)"

definition proves_to_receiver :: "ext \<Rightarrow> rtc_ext \<Rightarrow> accept_config \<Rightarrow> dc_message list \<Rightarrow> bool" where
  "proves_to_receiver X E c inbox =
     (case inbox of
        nonce_msg # token_msg # rest \<Rightarrow>
          (case (received_nonce X E nonce_msg, rx_dec_token E (dm_data token_msg)) of
             (Some nonce, Some request) \<Rightarrow>
               validate_nonce nonce \<and>
               token_proves X (ao_expecting c) (tq_token request) (nonce @ ao_nonce c) \<and>
               pin_proved E (ao_pin c) rest
           | _ \<Rightarrow> False)
      | _ \<Rightarrow> False)"

text \<open>A file the receiver hands out: selected, announced, no larger than announced, asked for with its token.\<close>

definition file_authorised ::
  "rtc_ext \<Rightarrow> accept_config \<Rightarrow> file_dto list \<Rightarrow> rstring list \<Rightarrow> dc_message list \<Rightarrow> rtc_file \<Rightarrow> bool"
where
  "file_authorised E c offered selected inbox f \<longleftrightarrow>
     file_fits offered selected f \<and>
     list_ex (\<lambda>m. rx_dec_header E (dm_data m) =
       Some \<lparr>fh_id = rf_file_id f, fh_token = ao_fresh c (rf_file_id f)\<rparr>) inbox"

section \<open>Tasks that leave the application alone\<close>

text \<open>Reading only shortens the inbox from the front; no file and no list is handed out.\<close>

definition unseen :: "rtc_io \<Rightarrow> rtc_io \<Rightarrow> bool" where
  "unseen io io1 \<longleftrightarrow>
     suffix (io_inbox io1) (io_inbox io) \<and> io_files io1 = io_files io \<and> io_offered io1 = io_offered io"

definition quiet :: "('a, rtc_io, 'e) task \<Rightarrow> bool" where
  "quiet m \<longleftrightarrow> (\<forall>io. unseen io (snd (m io)))"

lemma unseen_refl [simp]: "unseen io io"
  by (simp add: unseen_def)

lemma unseen_trans: "unseen a b \<Longrightarrow> unseen b c \<Longrightarrow> unseen a c"
  by (auto simp: unseen_def intro: suffix_order.trans)

lemma quietD: "quiet m \<Longrightarrow> m io = (r, io1) \<Longrightarrow> unseen io io1"
  unfolding quiet_def by (metis snd_conv)

lemma quiet_then [intro!]: "quiet m \<Longrightarrow> (\<And>a. quiet (f a)) \<Longrightarrow> quiet (task_then m f)"
proof -
  assume m: "quiet m" and f: "\<And>a. quiet (f a)"
  have "unseen io (snd (task_then m f io))" for io
  proof (cases "m io")
    case (Pair r io1)
    then have "unseen io io1" using m by (rule quietD [rotated])
    then show ?thesis
      using Pair f by (auto simp: task_then_def quiet_def split: sum.split intro: unseen_trans)
  qed
  then show "quiet (task_then m f)" by (simp add: quiet_def)
qed

lemma quiet_basic [intro!, simp]:
  "quiet (task_ok a)" "quiet (task_fail e)" "quiet (task_result r)" "quiet (dc_send m)" "quiet (send_text bs)"
  "quiet (send_binary bs)" "quiet (send_status st)" "quiet dc_recv" "quiet (parse_json x)"
  by (auto simp: quiet_def unseen_def task_ok_def task_fail_def task_result_def dc_send_def send_text_def
      send_binary_def send_status_def dc_recv_def parse_json_def suffix_def split: option.split nat.split list.split)

lemma quiet_ignore [intro!]: "quiet m \<Longrightarrow> quiet (task_ignore m)"
  by (simp add: quiet_def task_ignore_def)

lemma collect_suffix: "suffix (snd (collect_text_chunks ms)) ms"
  by (induction ms) (auto simp: suffix_def split: prod.split)

lemma quiet_receive [intro!, simp]: "quiet recv_text" "quiet receive_string_from_chunks"
proof -
  show "quiet recv_text"
    unfolding recv_text_def by (auto split: option.split)
  show "quiet receive_string_from_chunks"
    using collect_suffix
    by (auto simp: quiet_def unseen_def receive_string_from_chunks_def split: prod.split) (metis snd_conv)
qed

lemma quiet_run_all: "(\<And>x. quiet (callback x)) \<Longrightarrow> quiet (run_all callback xs)"
  by (induction xs) auto

lemma quiet_chunked [intro!, simp]: "quiet (send_chunked bs)"
  unfolding send_chunked_def send_string_in_chunks_def send_delimiter_def
  by (intro quiet_then) (simp_all add: quiet_def processed_chunks quiet_run_all [unfolded quiet_def] quiet_basic [unfolded quiet_def])

lemma quiet_handle_pin [intro!]: "quiet (handle_pin E b parse pins)"
proof (induction pins)
  case Nil
  show ?case by auto
next
  case (Cons answer pins)
  then show ?case
    by (auto split: option.split challenge_pin_result.split)
qed

lemma quiet_send_pin [intro!, simp]: "quiet (send_pin_sending E r)" "quiet (send_pin_receiving E r)"
  by (auto simp: send_pin_sending_def send_pin_receiving_def)

lemma quiet_nonce [intro!, simp]: "quiet (send_nonce X E nonce)" "quiet (receive_nonce X E)"
  by (auto simp: send_nonce_def receive_nonce_def)

definition pin_given :: "rtc_ext \<Rightarrow> pin_config \<Rightarrow> dc_message list \<Rightarrow> bool" where
  "pin_given E pc messages = list_ex (\<lambda>m. rx_dec_pin E (dm_data m) = Some \<lparr>pm_pin = pc_pin pc\<rparr>) messages"

lemma pin_given_suffix: "suffix ms1 ms \<Longrightarrow> pin_given E pc ms1 \<Longrightarrow> pin_given E pc ms"
  by (auto simp: pin_given_def suffix_def)

lemma verify_pin_loop_safe:
  assumes "\<forall>r. quiet (send r)"
  shows "unseen io (snd (verify_pin_loop E pc send remote t notice io)) \<and>
    (fst (verify_pin_loop E pc send remote t notice io) = Inr () \<longrightarrow>
      remote = pc_pin pc \<or> pin_given E pc (io_inbox io))"
  using assms
proof (induction E pc send remote t notice io rule: verify_pin_loop.induct)
  case (1 E pc send remote t notice io)
  note step = verify_pin_loop.simps [of E pc send remote t notice io]
  consider (found) "remote = pc_pin pc" | (exhausted) "remote \<noteq> pc_pin pc" "pc_max_tries pc \<le> t"
    | (left) "remote \<noteq> pc_pin pc" "\<not> pc_max_tries pc \<le> t" by blast
  then show ?case
  proof cases
    case found
    then show ?thesis unfolding step by simp
  next
    case exhausted
    have "quiet (task_then (task_ignore (send VerifyTooManyAttempts)) (\<lambda>_.
        task_then (send_status RtcTooManyAttempts) (\<lambda>_. task_fail TooManyRequests)) :: (unit, rtc_io, rtc_error) task)"
      using "1.prems" by auto
    then show ?thesis
      using exhausted by (auto simp: step quiet_def task_then_def task_ignore_def task_fail_def split: sum.splits prod.splits)
  next
    case left
    obtain r io1 where sent: "(if notice \<or> 0 < t then send VerifyPinRequired io else (Inr (), io)) = (r, io1)"
      by (cases "if notice \<or> 0 < t then send VerifyPinRequired io else (Inr (), io)")
    then have u1: "unseen io io1"
      using "1.prems" by (auto split: if_splits dest: quietD)
    show ?thesis
    proof (cases r)
      case (Inl e)
      then show ?thesis using left sent u1 by (simp add: step)
    next
      case (Inr u)
      show ?thesis
      proof (cases "io_inbox io1")
        case Nil
        then show ?thesis using left sent u1 Inr by (simp add: step)
      next
        case (Cons m rest)
        then have u2: "unseen io (io1\<lparr>io_inbox := rest\<rparr>)" and sfx: "suffix (m # rest) (io_inbox io)"
          using u1 by (auto simp: unseen_def suffix_def)
        show ?thesis
        proof (cases "rx_dec_pin E (dm_data m)")
          case None
          then show ?thesis using left sent u2 Inr Cons by (simp add: step)
        next
          case (Some p)
          have eq: "verify_pin_loop E pc send remote t notice io =
              verify_pin_loop E pc send (pm_pin p) (t + 1) False (io1\<lparr>io_inbox := rest\<rparr>)"
            using left sent Inr Cons Some by (simp add: step)
          have ih: "unseen (io1\<lparr>io_inbox := rest\<rparr>) (snd (verify_pin_loop E pc send (pm_pin p) (t + 1) False (io1\<lparr>io_inbox := rest\<rparr>))) \<and>
              (fst (verify_pin_loop E pc send (pm_pin p) (t + 1) False (io1\<lparr>io_inbox := rest\<rparr>)) = Inr () \<longrightarrow>
                pm_pin p = pc_pin pc \<or> pin_given E pc rest)"
            using "1.IH" [OF left sent [symmetric] Inr Cons Some "1.prems"] by simp
          have "pin_given E pc (m # rest)" if "pm_pin p = pc_pin pc \<or> pin_given E pc rest"
            using that Some by (cases p) (auto simp: pin_given_def)
          then show ?thesis
            unfolding eq using ih u2 pin_given_suffix [OF sfx] by (auto intro: unseen_trans)
        qed
      qed
    qed
  qed
qed

lemma verify_pin_safe:
  assumes "\<forall>r. quiet (send r)"
  shows "quiet (verify_pin E pc notice send)"
    and "verify_pin E pc notice send io = (Inr (), io1) \<Longrightarrow> pc_pin pc = [] \<or> pin_given E pc (io_inbox io)"
proof -
  show "quiet (verify_pin E pc notice send)"
    unfolding verify_pin_def using verify_pin_loop_safe [OF assms] by (intro quiet_then) (simp_all add: quiet_def [of "verify_pin_loop _ _ _ _ _ _"])
  show "verify_pin E pc notice send io = (Inr (), io1) \<Longrightarrow> pc_pin pc = [] \<or> pin_given E pc (io_inbox io)"
    using verify_pin_loop_safe [OF assms, of "io\<lparr>io_statuses := io_statuses io @ [RtcPinRequired]\<rparr>" E pc "[]" 0 notice]
    by (auto simp: verify_pin_def task_then_def send_status_def split: if_splits)
qed

section \<open>What a successful handshake proves\<close>

lemma task_then_Inr: "task_then m f s = (Inr b, s2) \<longleftrightarrow> (\<exists>a s1. m s = (Inr a, s1) \<and> f a s1 = (Inr b, s2))"
  by (auto simp: task_then_def split: prod.splits sum.splits)

lemma task_ends:
  "task_ok a s = (Inr b, s2) \<longleftrightarrow> b = a \<and> s2 = s" "task_fail e s = (Inr b, s2) \<longleftrightarrow> False"
  "task_result r s = (Inr b, s2) \<longleftrightarrow> r = Inr b \<and> s2 = s"
  by (auto simp: task_ok_def task_fail_def task_result_def)

lemma recv_text_Inr:
  "recv_text io = (Inr data, io1) \<longleftrightarrow>
     (\<exists>m. io_inbox io = m # io_inbox io1 \<and> dm_is_string m \<and> data = dm_data m \<and> io1 = io\<lparr>io_inbox := io_inbox io1\<rparr>)"
  by (auto simp: recv_text_def task_then_Inr dc_recv_def task_ends split: list.splits if_splits)

lemma send_text_inbox: "send_text bs io = (r, io1) \<Longrightarrow> io_inbox io1 = io_inbox io"
  by (auto simp: send_text_def dc_send_def split: option.splits nat.splits)

lemma receive_nonce_Inr:
  "receive_nonce X E io = (Inr nonce, io1) \<Longrightarrow>
     \<exists>m. io_inbox io = m # io_inbox io1 \<and> received_nonce X E m = Some nonce \<and> validate_nonce nonce"
  by (auto simp: receive_nonce_def task_then_Inr task_ends recv_text_Inr parse_json_def res_simps received_nonce_def
      simp del: and_then_simps)

lemma send_nonce_inbox: "send_nonce X E nonce io = (r, io1) \<Longrightarrow> io_inbox io1 = io_inbox io"
  by (auto simp: send_nonce_def dest: send_text_inbox)

lemma check_token_proves: "check_token X expecting token nonce = Inr True \<longleftrightarrow> token_proves X expecting token nonce"
  by (auto simp: check_token_def token_proves_def ok_or_def split: option.splits)

lemma send_exchange_nonce_Inr:
  "send_exchange_nonce X E c io = (Inr nonce, io1) \<Longrightarrow>
     \<exists>m n. io_inbox io = m # io_inbox io1 \<and> received_nonce X E m = Some n \<and> validate_nonce n \<and> nonce = so_nonce c @ n"
  by (auto simp: send_exchange_nonce_def task_then_Inr task_ends dest!: receive_nonce_Inr send_nonce_inbox) metis

lemma send_exchange_token_Inr:
  "send_exchange_token X E c nonce io = (Inr (response, token), io1) \<Longrightarrow>
     \<exists>m. io_inbox io = m # io_inbox io1 \<and> rx_dec_token_response E (dm_data m) = Some response \<and>
       response_token response = Some token \<and> token_proves X (so_expecting c) token nonce"
  by (auto simp: send_exchange_token_def task_then_Inr task_ends recv_text_Inr parse_json_def res_simps
      check_token_proves split: if_splits dest!: send_text_inbox)

lemma pose_pin_proved:
  "send_pose_pin E c io = (Inr u, io1) \<Longrightarrow> pin_proved E (so_pin c) (io_inbox io)"
  "accept_pose_pin E d io = (Inr u, io1) \<Longrightarrow> pin_proved E (ao_pin d) (io_inbox io)"
  by (auto simp: send_pose_pin_def accept_pose_pin_def pin_proved_def task_then_Inr pin_given_def [symmetric]
      split: option.splits dest!: verify_pin_safe(2) [rotated])

lemma pin_proved_suffix: "suffix ms1 ms \<Longrightarrow> pin_proved E pin ms1 \<Longrightarrow> pin_proved E pin ms"
  by (auto simp: pin_proved_def suffix_def split: option.splits)

lemma quiet_answer_pin [intro!]: "quiet (send_answer_pin E c response)"
  by (auto simp: send_answer_pin_def split: rtc_token_response.split)

lemma send_authenticate_proves:
  assumes "send_authenticate X E c io = (Inr r, io4)"
  shows "proves_to_sender X E c (io_inbox io)"
proof -
  from assms obtain nonce io1 response token io2 u io3 v where steps:
    "send_exchange_nonce X E c io = (Inr nonce, io1)"
    "send_exchange_token X E c nonce io1 = (Inr (response, token), io2)"
    "send_answer_pin E c response io2 = (Inr u, io3)" "send_pose_pin E c io3 = (Inr v, io4)"
    by (auto simp: send_authenticate_def task_then_Inr task_ends split: if_splits)
  from quietD [OF quiet_answer_pin steps(3)] have "suffix (io_inbox io3) (io_inbox io2)"
    by (simp add: unseen_def)
  then have "pin_proved E (so_pin c) (io_inbox io2)"
    using pose_pin_proved(1) [OF steps(4)] by (rule pin_proved_suffix)
  then show ?thesis
    using send_exchange_nonce_Inr [OF steps(1)] send_exchange_token_Inr [OF steps(2)]
    by (auto simp: proves_to_sender_def)
qed

lemma accept_exchange_nonce_Inr:
  "accept_exchange_nonce X E c io = (Inr nonce, io1) \<Longrightarrow>
     \<exists>m n. io_inbox io = m # io_inbox io1 \<and> received_nonce X E m = Some n \<and> validate_nonce n \<and> nonce = n @ ao_nonce c"
  by (auto simp: accept_exchange_nonce_def task_then_Inr task_ends dest!: receive_nonce_Inr send_nonce_inbox)

lemma accept_exchange_token_Inr:
  "accept_exchange_token X E c nonce io = (Inr u, io1) \<Longrightarrow>
     \<exists>m request. io_inbox io = m # io_inbox io1 \<and> rx_dec_token E (dm_data m) = Some request \<and>
       token_proves X (ao_expecting c) (tq_token request) nonce"
  by (auto simp: accept_exchange_token_def task_then_Inr task_ends recv_text_Inr parse_json_def res_simps
      check_token_proves [symmetric] split: if_splits dest!: send_text_inbox)

lemma accept_authenticate_proves:
  assumes "accept_authenticate X E c io = (Inr r, io3)"
  shows "proves_to_receiver X E c (io_inbox io)"
proof -
  from assms obtain nonce io1 u io2 where steps:
    "accept_exchange_nonce X E c io = (Inr nonce, io1)"
    "accept_exchange_token X E c nonce io1 = (Inr u, io2)" "accept_pose_pin E c io2 = (Inr r, io3)"
    by (auto simp: accept_authenticate_def task_then_Inr task_ends split: if_splits)
  then show ?thesis
    using accept_exchange_nonce_Inr [OF steps(1)] accept_exchange_token_Inr [OF steps(2)]
      pose_pin_proved(2) [OF steps(3)]
    by (auto simp: proves_to_receiver_def)
qed

lemma quiet_accept [intro!]: "quiet (accept_authenticate X E c)"
proof -
  have "quiet (accept_exchange_nonce X E c)" "\<And>nonce. quiet (accept_exchange_token X E c nonce)"
    by (auto simp: accept_exchange_nonce_def accept_exchange_token_def)
  moreover have "quiet (accept_pose_pin E c)"
    by (auto simp: accept_pose_pin_def split: option.split intro!: verify_pin_safe(1))
  ultimately show ?thesis
    by (auto simp: accept_authenticate_def)
qed

section \<open>What is handed to the application\<close>

definition bytes_in :: "dc_message list \<Rightarrow> nat" where
  "bytes_in ms = sum_list (map (\<lambda>m. length (dm_data m)) ms)"

lemma bytes_in_simps [simp]: "bytes_in [] = 0" "bytes_in (m # ms) = length (dm_data m) + bytes_in ms"
  by (simp_all add: bytes_in_def)

text \<open>The open file is the last one handed out; its count is its bytes and cannot wrap.\<close>

definition open_file_ok ::
  "file_dto list \<Rightarrow> dc_message list \<Rightarrow> rtc_file_state option \<Rightarrow> rtc_file list \<Rightarrow> bool"
where
  "open_file_ok offered msgs st files \<longleftrightarrow>
     (case st of
        None \<Rightarrow> bytes_in msgs < 2 ^ 64
      | Some s \<Rightarrow>
          files \<noteq> [] \<and> unat (sf_received s) = length (concat (rf_chunks (last files))) \<and>
          rf_file_id (last files) = sf_file_id s \<and>
          (\<exists>d. find (\<lambda>d. fd_id d = sf_file_id s) offered = Some d \<and> fd_size d = sf_size s) \<and>
          unat (sf_received s) + bytes_in msgs < 2 ^ 64)"

lemma quiet_end_of_file: "quiet (end_of_file E st results)"
  by (auto simp: end_of_file_def split: option.split prod.split)

lemma map_of_tokens: "map_of (tokens_for fresh selected) i = (if i \<in> set selected then Some (fresh i) else None)"
  by (induction selected) (auto simp: tokens_for_def)

lemma open_file_Inr:
  "open_file (tokens_for fresh selected) offered h = Inr s \<Longrightarrow>
     fh_id h \<in> set selected \<and> fh_token h = fresh (fh_id h) \<and>
     (\<exists>d. find (\<lambda>d. fd_id d = fh_id h) offered = Some d \<and> s = \<lparr>sf_file_id = fh_id h, sf_size = fd_size d,
        sf_received = 0, sf_forwarded = 0\<rparr>)"
  by (auto simp: open_file_def map_of_tokens ok_or_def ensure_def split: if_splits option.splits)

lemma counted_word:
  assumes "unat (r :: u64) + n < 2 ^ 64"
  shows "unat (r + of_nat n) = unat r + n"
  using assms by (simp add: unat_word_ariths unat_of_nat)

lemma file_fits_chunk:
  assumes "file_fits offered selected f" "find (\<lambda>d. fd_id d = rf_file_id f) offered = Some d"
    and "length (concat (rf_chunks f)) + length b \<le> unat (fd_size d)"
  shows "file_fits offered selected (f\<lparr>rf_chunks := rf_chunks f @ [b]\<rparr>)"
  using assms by (simp add: file_fits_def)

lemma authorised_chunk:
  assumes "list_all (file_authorised E c offered selected inbox) files" "files \<noteq> []"
    and "find (\<lambda>d. fd_id d = rf_file_id (last files)) offered = Some d"
    and "length (concat (rf_chunks (last files))) + length b \<le> unat (fd_size d)"
  shows "list_all (file_authorised E c offered selected inbox)
    (butlast files @ [(last files)\<lparr>rf_chunks := rf_chunks (last files) @ [b]\<rparr>])"
  using assms file_fits_chunk [OF _ assms(3,4)]
  by (cases files rule: rev_cases) (auto simp: file_authorised_def)

lemma receive_files_authorised:
  "set msgs \<subseteq> set inbox \<Longrightarrow> list_all (file_authorised E c offered selected inbox) (io_files io) \<Longrightarrow>
     open_file_ok offered msgs st (io_files io) \<Longrightarrow>
     list_all (file_authorised E c offered selected inbox)
       (io_files (snd (receive_files E c (tokens_for (ao_fresh c) selected) offered st results msgs io))) \<and>
     io_offered (snd (receive_files E c (tokens_for (ao_fresh c) selected) offered st results msgs io)) = io_offered io"
proof (induction msgs arbitrary: st results io)
  case Nil
  then show ?case by (simp add: receive_files.simps)
next
  case (Cons m rest)
  let ?io = "io\<lparr>io_inbox := rest\<rparr>"
  let ?tk = "tokens_for (ao_fresh c) selected"
  note step = receive_files.simps(2) [of E c ?tk offered st results m rest io, unfolded Let_def]
  have sub: "set rest \<subseteq> set inbox" using Cons.prems(1) by simp
  have free: "bytes_in rest < 2 ^ 64" using Cons.prems(3) by (auto simp: open_file_ok_def split: option.splits)
  show ?case
  proof (cases "dm_is_string m")
    case True
    obtain r io1 where ended: "end_of_file E st results ?io = (r, io1)" by (cases "end_of_file E st results ?io")
    then have same: "io_files io1 = io_files io" "io_offered io1 = io_offered io"
      using quietD [OF quiet_end_of_file ended] by (simp_all add: unseen_def)
    show ?thesis
    proof (cases "\<exists>rs h. r = Inr rs \<and> \<not> (st \<noteq> None \<and> is_delimiter m) \<and> rx_dec_header E (dm_data m) = Some h")
      case False
      then show ?thesis
        using True ended same Cons.prems(2) unfolding step
        by (cases r) (auto split: option.splits)
    next
      case headed: True
      then obtain rs h where h: "r = Inr rs" "\<not> (st \<noteq> None \<and> is_delimiter m)" "rx_dec_header E (dm_data m) = Some h"
        by blast
      show ?thesis
      proof (cases "open_file ?tk offered h")
        case (Inl problem)
        then have eq: "receive_files E c ?tk offered st results (m # rest) io =
            receive_files E c ?tk offered None rs rest (send_error (fh_id h) problem io1)"
          using True ended h unfolding step by (cases st) simp_all
        show ?thesis
          unfolding eq using Cons.IH [OF sub, of "send_error (fh_id h) problem io1" None rs] Cons.prems(2) same free
          by (simp add: send_error_def open_file_ok_def)
      next
        case (Inr s)
        then have eq: "receive_files E c ?tk offered st results (m # rest) io =
            receive_files E c ?tk offered (Some s) rs rest (hand_out_file (fh_id h) io1)"
          using True ended h unfolding step by (cases st) simp_all
        note opened = open_file_Inr [OF Inr]
        have "list_ex (\<lambda>m. rx_dec_header E (dm_data m) = Some \<lparr>fh_id = fh_id h, fh_token = ao_fresh c (fh_id h)\<rparr>) inbox"
          using Cons.prems(1) h(3) opened by (cases h) (auto simp: list_ex_iff)
        then have "file_authorised E c offered selected inbox \<lparr>rf_file_id = fh_id h, rf_chunks = []\<rparr>"
          using opened by (auto simp: file_authorised_def file_fits_def)
        then show ?thesis
          unfolding eq using Cons.IH [OF sub, of "hand_out_file (fh_id h) io1" "Some s" rs] Cons.prems(2) same free opened
          by (auto simp: hand_out_file_def open_file_ok_def)
      qed
    qed
  next
    case data: False
    show ?thesis
    proof (cases st)
      case None
      then have eq: "receive_files E c ?tk offered st results (m # rest) io =
          receive_files E c ?tk offered None results rest (send_error (lit ''unknown'') NoFileHeader ?io)"
        using data unfolding step by simp
      show ?thesis
        unfolding eq using Cons.IH [OF sub, of "send_error (lit ''unknown'') NoFileHeader ?io" None results] Cons.prems(2) free
        by (simp add: send_error_def open_file_ok_def)
    next
      case (Some s)
      obtain d where ok: "io_files io \<noteq> []" "unat (sf_received s) = length (concat (rf_chunks (last (io_files io))))"
          "rf_file_id (last (io_files io)) = sf_file_id s" "find (\<lambda>d. fd_id d = sf_file_id s) offered = Some d"
          "fd_size d = sf_size s" "unat (sf_received s) + length (dm_data m) + bytes_in rest < 2 ^ 64"
        using Cons.prems(3) Some by (auto simp: open_file_ok_def add.assoc)
      then have word: "unat (sf_received s + of_nat (length (dm_data m))) = unat (sf_received s) + length (dm_data m)"
        by (intro counted_word) simp
      obtain r io1 where received: "receive_data c s (dm_data m) ?io = (r, io1)" by (cases "receive_data c s (dm_data m) ?io")
      show ?thesis
      proof (cases r)
        case (Inl e)
        then show ?thesis
          using received data Some Cons.prems(2) unfolding step
          by (auto simp: receive_data_def Let_def split: if_splits)
      next
        case (Inr st1)
        then have eq: "receive_files E c ?tk offered st results (m # rest) io =
            receive_files E c ?tk offered st1 results rest io1"
          using received data Some unfolding step by simp
        have "list_all (file_authorised E c offered selected inbox) (io_files io1) \<and>
            open_file_ok offered rest st1 (io_files io1) \<and> io_offered io1 = io_offered io"
        proof (cases "sf_size s < sf_received s + of_nat (length (dm_data m))")
          case True
          then show ?thesis
            using received Inr Cons.prems(2) free by (auto simp: receive_data_def Let_def send_error_def open_file_ok_def)
        next
          case False
          then have room: "length (concat (rf_chunks (last (io_files io)))) + length (dm_data m) \<le> unat (fd_size d)"
            using ok word by (simp add: word_less_nat_alt)
          have io1: "io1 = forward_chunk (dm_data m) ?io"
            and st1: "st1 = Some (s\<lparr>sf_received := sf_received s + of_nat (length (dm_data m)),
              sf_forwarded := Suc (sf_forwarded s)\<rparr>)"
            using False received Inr by (auto simp: receive_data_def Let_def split: if_splits)
          have "find (\<lambda>d. fd_id d = rf_file_id (last (io_files io))) offered = Some d" using ok by simp
          from authorised_chunk [OF Cons.prems(2) ok(1) this room] show ?thesis
            using ok word by (simp add: io1 st1 forward_chunk_def open_file_ok_def)
        qed
        then show ?thesis unfolding eq using Cons.IH [OF sub, of io1 st1 results] by simp
      qed
    qed
  qed
qed

lemma quiet_accept_answer_pin [intro!]: "quiet (accept_answer_pin E c)"
  by (auto simp: accept_answer_pin_def unexpected_def split: rtc_pin_sending_response.split)

text \<open>The receiver before it hands the file list out.\<close>

definition receive_prelude ::
  "ext \<Rightarrow> rtc_ext \<Rightarrow> accept_config \<Rightarrow> (file_dto list, rtc_io, rtc_error) task"
where
  "receive_prelude X E c =
     task_then (accept_authenticate X E c) (\<lambda>_.
     task_then (accept_answer_pin E c) (\<lambda>file_list.
     task_then (send_status RtcConnected) (\<lambda>_. task_ok file_list)))"

lemma receive_task_prelude:
  "receive_task X E c =
     task_then (receive_prelude X E c) (\<lambda>file_list.
     task_then (publish_files c file_list) (\<lambda>_. accept_selection E c file_list))"
  by (simp add: receive_task_def receive_prelude_def task_then_assoc)

lemma quiet_prelude: "quiet (receive_prelude X E c)"
  by (auto simp: receive_prelude_def)

lemma suffix_bytes: "suffix ms1 ms \<Longrightarrow> bytes_in ms1 \<le> bytes_in ms \<and> set ms1 \<subseteq> set ms"
  by (auto simp: suffix_def bytes_in_def)

lemma accept_selection_authorised:
  assumes "suffix (io_inbox io) inbox" "bytes_in inbox < 2 ^ 64" "io_files io = []"
  shows "(case ao_selected c of
       Some (Some selected) \<Rightarrow>
         list_all (file_authorised E c offered selected inbox) (io_files (snd (accept_selection E c offered io)))
     | _ \<Rightarrow> io_files (snd (accept_selection E c offered io)) = []) \<and>
     io_offered (snd (accept_selection E c offered io)) = io_offered io"
proof (cases "ao_selected c")
  case None
  then show ?thesis using assms by (simp add: accept_selection_def task_ok_def)
next
  case (Some answer)
  show ?thesis
  proof (cases answer)
    case None
    then show ?thesis
      using Some assms quiet_chunked unfolding quiet_def unseen_def by (simp add: accept_selection_def)
  next
    case chosen: (Some selected)
    let ?list = "rx_enc_file_list E (FlOk (tokens_for (ao_fresh c) selected))"
    obtain r io1 where sent: "send_chunked ?list io = (r, io1)" by (cases "send_chunked ?list io")
    then have u: "unseen io io1" by (rule quietD [OF quiet_chunked])
    then have sfx: "suffix (io_inbox io1) inbox" using assms(1) by (auto simp: unseen_def intro: suffix_order.trans)
    have eq: "accept_selection E c offered = task_then (send_chunked ?list)
        (\<lambda>_ io. receive_files E c (tokens_for (ao_fresh c) selected) offered None (ao_results c) (io_inbox io) io)"
      by (simp add: accept_selection_def Some chosen tokens_for_def [symmetric] Let_def)
    show ?thesis
    proof (cases r)
      case (Inl e)
      then show ?thesis using u sent assms(3) by (simp add: eq task_then_def Some chosen unseen_def)
    next
      case (Inr x)
      have "open_file_ok offered (io_inbox io1) None (io_files io1)"
        using suffix_bytes [OF sfx] assms(2) by (simp add: open_file_ok_def)
      with receive_files_authorised [of "io_inbox io1" inbox E c offered selected io1 None "ao_results c"] show ?thesis
        using Inr sent u assms(3) suffix_bytes [OF sfx] by (simp add: eq task_then_def Some chosen unseen_def)
    qed
  qed
qed

section \<open>Theorems\<close>

text \<open>
  C13. Nothing about the files leaks to an unauthenticated peer: as long as the peer has not
  proved the expected key with a token over both nonces, and the PIN of the sender if
  there is one, the sender behaves the same whatever files it offers and holds.
\<close>

theorem rtc_sender_confidential:
  assumes "\<not> proves_to_sender X E c (io_inbox io)"
  shows "send_task X E (c\<lparr>so_files := offered, so_sending := held\<rparr>) io = send_task X E c io"
proof -
  have same: "send_authenticate X E (c\<lparr>so_files := offered, so_sending := held\<rparr>) = send_authenticate X E c"
  proof -
    let ?c = "c\<lparr>so_files := offered, so_sending := held\<rparr>"
    have "send_exchange_nonce X E ?c = send_exchange_nonce X E c" "send_exchange_token X E ?c = send_exchange_token X E c"
        "send_answer_pin E ?c = send_answer_pin E c" "send_pose_pin E ?c = send_pose_pin E c"
      by (auto simp: fun_eq_iff send_exchange_nonce_def send_exchange_token_def send_answer_pin_def send_pose_pin_def
          split: rtc_token_response.split)
    then show ?thesis by (simp add: send_authenticate_def)
  qed
  obtain r io1 where auth: "send_authenticate X E c io = (r, io1)" by (cases "send_authenticate X E c io")
  then obtain e where "r = Inl e"
    using assms send_authenticate_proves [of X E c io] by (cases r) auto
  then show ?thesis
    using auth by (simp add: send_task_def task_then_def same)
qed

theorem rtc_sender_confidential_witness:
  "send_task demo_token_ext demo_rtc (rtc_demo_offer\<lparr>so_files := [], so_sending := []\<rparr>)
       (start_io [nonce_text demo_token_ext demo_rtc [1]]) =
     send_task demo_token_ext demo_rtc rtc_demo_offer (start_io [nonce_text demo_token_ext demo_rtc [1]])"
  by (rule rtc_sender_confidential) (simp add: proves_to_sender_def start_io_def)

text \<open>
  C14. A peer that has not proved the expected key and the PIN of the receiver makes it
  hand nothing to the application: no file list and no file.
\<close>

theorem rtc_receiver_authenticated:
  assumes "\<not> proves_to_receiver X E c (io_inbox io)"
  shows "io_files (snd (receive_task X E c io)) = io_files io \<and>
    io_offered (snd (receive_task X E c io)) = io_offered io \<and> \<not> is_ok (fst (receive_task X E c io))"
proof -
  obtain r io1 where auth: "accept_authenticate X E c io = (r, io1)" by (cases "accept_authenticate X E c io")
  then obtain e where "r = Inl e"
    using assms accept_authenticate_proves [of X E c io] by (cases r) auto
  then show ?thesis
    using auth quietD [OF quiet_accept auth]
    by (simp add: receive_task_def task_then_def unseen_def is_ok_def)
qed

theorem rtc_receiver_authenticated_witness:
  "io_files (snd (receive_task demo_token_ext demo_rtc demo_accept (start_io [text_message []]))) = []"
  using rtc_receiver_authenticated [of demo_token_ext demo_rtc demo_accept "start_io [text_message []]"]
  by (simp add: proves_to_receiver_def start_io_def)

text \<open>
  C9. Whatever a peer sends, every file handed to the application was selected by it, was
  asked for with the token made for it, was announced, and holds no more bytes than
  announced.
\<close>

theorem rtc_received_authorised:
  assumes "bytes_in inbox < 2 ^ 64"
  shows "case (ao_selected c, io_offered (snd (receive_task X E c (start_io inbox)))) of
      (Some (Some selected), Some offered) \<Rightarrow>
        list_all (file_authorised E c offered selected inbox) (io_files (snd (receive_task X E c (start_io inbox))))
    | _ \<Rightarrow> io_files (snd (receive_task X E c (start_io inbox))) = []"
proof -
  obtain r io1 where pre: "receive_prelude X E c (start_io inbox) = (r, io1)"
    by (cases "receive_prelude X E c (start_io inbox)")
  have u: "suffix (io_inbox io1) inbox" "io_files io1 = []" "io_offered io1 = None"
    using quietD [OF quiet_prelude pre] by (simp_all add: unseen_def start_io_def)
  show ?thesis
  proof (cases "\<exists>offered. r = Inr offered \<and> ao_takes_files c")
    case True
    then obtain offered where r: "r = Inr offered" "ao_takes_files c" by blast
    then have eq: "receive_task X E c (start_io inbox) =
        accept_selection E c offered (io1\<lparr>io_offered := Some offered\<rparr>)"
      using pre by (simp add: receive_task_prelude task_then_ok [of "receive_prelude X E c"] publish_files_def task_update_then)
    show ?thesis
      unfolding eq using accept_selection_authorised [where io = "io1\<lparr>io_offered := Some offered\<rparr>" and inbox = inbox
        and c = c and E = E and offered = offered] u assms
      by (auto split: option.splits)
  next
    case False
    then have "snd (receive_task X E c (start_io inbox)) = io1"
      using pre by (cases r) (auto simp: receive_task_prelude task_then_def publish_files_def task_fail_def)
    then show ?thesis using u by (simp split: option.split)
  qed
qed

definition demo_inbox :: "dc_message list" where
  "demo_inbox =
     [nonce_text demo_token_ext demo_rtc (replicate 16 1), text_message (rx_enc_token demo_rtc \<lparr>tq_token = []\<rparr>),
      binary_message (rx_enc_pin_sending demo_rtc (PsOk [demo_dto])), text_message delimiter,
      text_message (rx_enc_header demo_rtc \<lparr>fh_id = lit ''a'', fh_token = lit ''at''\<rparr>), binary_message [1, 2, 3]]"

lemma demo_write_bytes: "length (demo_write ss) = sum_list (map (\<lambda>s. Suc (sum_list (map Suc s))) ss)"
  by (simp add: demo_write_def length_concat comp_def)

theorem rtc_received_authorised_witness:
  "case io_offered (snd (receive_task demo_token_ext demo_rtc (demo_accept\<lparr>ao_pin := None, ao_expecting := None\<rparr>)
       (start_io demo_inbox))) of
     Some offered \<Rightarrow>
       list_all (file_authorised demo_rtc (demo_accept\<lparr>ao_pin := None, ao_expecting := None\<rparr>) offered [lit ''a''] demo_inbox)
         (io_files (snd (receive_task demo_token_ext demo_rtc (demo_accept\<lparr>ao_pin := None, ao_expecting := None\<rparr>)
           (start_io demo_inbox))))
   | None \<Rightarrow>
       io_files (snd (receive_task demo_token_ext demo_rtc (demo_accept\<lparr>ao_pin := None, ao_expecting := None\<rparr>)
         (start_io demo_inbox))) = []"
proof -
  have "bytes_in demo_inbox < 2 ^ 64"
    by (simp add: demo_inbox_def demo_rtc_def demo_write_bytes demo_token_ext_def demo_dto_def rtc_demo_file_def lit_def
        demo_opt_def delimiter_def sum_list_replicate)
  from rtc_received_authorised [OF this, where c = "demo_accept\<lparr>ao_pin := None, ao_expecting := None\<rparr>"
      and X = demo_token_ext and E = demo_rtc]
  show ?thesis by (simp add: demo_accept_def split: option.splits)
qed

text \<open>The loop of a challenge in which every answer is a guess, with the tries that are left.\<close>

lemma verify_pin_loop_decides:
  assumes "\<forall>m. rx_dec_pin E (rx_enc_pin E m) = Some m"
    and "\<forall>r io. io_accepts io = None \<longrightarrow> (\<exists>M. send r io = (Inr (), io\<lparr>io_sent := io_sent io @ M\<rparr>))"
  shows "io_accepts io = None \<Longrightarrow> io_listening io \<Longrightarrow> io_inbox io = map (pin_message E) guesses \<Longrightarrow> remote \<noteq> pc_pin pc \<Longrightarrow>
     fst (verify_pin_loop E pc send remote t notice io) =
       (if pc_pin pc \<in> set (take (unat (pc_max_tries pc) - unat t) guesses) then Inr ()
        else if unat (pc_max_tries pc) - unat t \<le> length guesses then Inl TooManyRequests else Inl StreamClosed) \<and>
     length guesses - (unat (pc_max_tries pc) - unat t)
       \<le> length (io_inbox (snd (verify_pin_loop E pc send remote t notice io)))"
proof (induction guesses arbitrary: remote t notice io)
  case Nil
  note step = verify_pin_loop.simps [of E pc send remote t notice io]
  show ?case
  proof (cases "pc_max_tries pc \<le> t")
    case True
    obtain M where "send VerifyTooManyAttempts io = (Inr (), io\<lparr>io_sent := io_sent io @ M\<rparr>)" using assms(2) Nil by blast
    then show ?thesis
      using True Nil by (simp add: step word_le_nat_alt task_then_def task_ignore_def task_fail_def)
  next
    case False
    obtain M where "send VerifyPinRequired io = (Inr (), io\<lparr>io_sent := io_sent io @ M\<rparr>)" using assms(2) Nil by blast
    then show ?thesis
      using False Nil by (simp add: step word_le_nat_alt)
  qed
next
  case (Cons g gs)
  note step = verify_pin_loop.simps [of E pc send remote t notice io]
  show ?case
  proof (cases "pc_max_tries pc \<le> t")
    case True
    obtain M where "send VerifyTooManyAttempts io = (Inr (), io\<lparr>io_sent := io_sent io @ M\<rparr>)" using assms(2) Cons by blast
    then show ?thesis
      using True Cons.prems by (simp add: step word_le_nat_alt task_then_def task_ignore_def task_fail_def)
  next
    case False
    then have t: "unat (t + 1) = Suc (unat t)" "unat t < unat (pc_max_tries pc)"
      by unat_arith+
    obtain io1 where sent: "(if notice \<or> 0 < t then send VerifyPinRequired io else (Inr (), io)) = (Inr (), io1)"
        "io_accepts io1 = None" "io_listening io1" "io_inbox io1 = pin_message E g # map (pin_message E) gs"
    proof -
      obtain M where "send VerifyPinRequired io = (Inr (), io\<lparr>io_sent := io_sent io @ M\<rparr>)" using assms(2) Cons by blast
      then show ?thesis
        using that [of "if notice \<or> 0 < t then io\<lparr>io_sent := io_sent io @ M\<rparr> else io"] Cons.prems by simp
    qed
    have eq: "verify_pin_loop E pc send remote t notice io =
        verify_pin_loop E pc send g (t + 1) False (io1\<lparr>io_inbox := map (pin_message E) gs\<rparr>)"
      using False sent assms(1) Cons.prems(4) by (simp add: step)
    show ?thesis
    proof (cases "g = pc_pin pc")
      case True
      then show ?thesis
        using t unfolding eq verify_pin_loop.simps [of E pc send g] by (simp add: take_Cons' )
    next
      case wrong: False
      have "unat (pc_max_tries pc) - unat t = Suc (unat (pc_max_tries pc) - unat (t + 1))" using t by simp
      with Cons.IH [of "io1\<lparr>io_inbox := map (pin_message E) gs\<rparr>" g "t + 1" False] show ?thesis
        using wrong sent unfolding eq by simp
    qed
  qed
qed

text \<open>
  C24. A PIN is decided by the first tries alone: the challenge is passed exactly when the PIN
  is empty or among as many guesses as tries are allowed, fails as exhausted when that many
  wrong guesses have come, and otherwise when the peer stops; later guesses stay unread.
\<close>

theorem rtc_pin_decision:
  assumes "rtc_codec X E" "send \<in> {send_pin_sending E, send_pin_receiving E}"
  shows "fst (verify_pin E pc notice send (start_io (map (pin_message E) guesses))) =
      (if pc_pin pc = [] \<or> pc_pin pc \<in> set (take (unat (pc_max_tries pc)) guesses) then Inr ()
       else if unat (pc_max_tries pc) \<le> length guesses then Inl TooManyRequests else Inl StreamClosed) \<and>
    length guesses - unat (pc_max_tries pc)
      \<le> length (io_inbox (snd (verify_pin E pc notice send (start_io (map (pin_message E) guesses)))))"
proof -
  let ?io = "(start_io (map (pin_message E) guesses))\<lparr>io_statuses := [RtcPinRequired]\<rparr>"
  have dec: "\<forall>m. rx_dec_pin E (rx_enc_pin E m) = Some m" using assms(1) by (simp add: rtc_codec_def)
  have sends: "\<forall>r io. io_accepts io = None \<longrightarrow> (\<exists>M. send r io = (Inr (), io\<lparr>io_sent := io_sent io @ M\<rparr>))"
    using assms(2) by (auto simp: send_pin_sending_def send_pin_receiving_def)
  have eq: "verify_pin E pc notice send (start_io (map (pin_message E) guesses)) = verify_pin_loop E pc send [] 0 notice ?io"
    by (simp add: verify_pin_def task_then_def start_io_def)
  show ?thesis
  proof (cases "pc_pin pc = []")
    case True
    then show ?thesis unfolding eq verify_pin_loop.simps [of E pc send "[]"] by (simp add: start_io_def)
  next
    case False
    then show ?thesis
      unfolding eq using verify_pin_loop_decides [OF dec sends, of ?io guesses "[]" pc 0 notice] by (simp add: start_io_def)
  qed
qed

theorem rtc_pin_decision_witness:
  "fst (verify_pin demo_rtc \<lparr>pc_pin = lit ''1'', pc_max_tries = 2\<rparr> False (send_pin_receiving demo_rtc)
     (start_io (map (pin_message demo_rtc) [lit ''0'', lit ''2'', lit ''1'']))) = Inl TooManyRequests"
  using rtc_pin_decision [OF demo_rtc_codec, of "send_pin_receiving demo_rtc" "\<lparr>pc_pin = lit ''1'', pc_max_tries = 2\<rparr>" False
      "[lit ''0'', lit ''2'', lit ''1'']"]
  by (simp add: lit_def)

text \<open>
  A transfer in which nothing is sent does not end well: with everything else fitting, the
  receiver takes the end of the files for the header of one and fails.
\<close>

theorem rtc_empty_transfer_fails:
  assumes "rtc_codec X E" "session_ready cs cr guesses_s guesses_r selected" "keys_fit X cs cr ders derr"
    and "so_sending cs = []" "generate_token_nonce X (so_signing_key cs) (so_nonce cs @ ao_nonce cr) = Some token"
  shows "fst (receive_task X E cr (start_io (sender_sends X E cs cr token guesses_s guesses_r))) = Inl JsonError"
proof -
  obtain tokr where tokr: "generate_token_nonce X (ao_signing_key cr) (so_nonce cs @ ao_nonce cr) = Some tokr"
    using assms(3) token_generates unfolding keys_fit_def by blast
  show ?thesis
    unfolding receiver_reaches_files [OF assms(1-3) tokr assms(5)] assms(4)
    using assms(1) by (simp add: receive_files.simps end_of_file_def task_ok_def rtc_codec_def)
qed

theorem rtc_empty_transfer_fails_witness:
  "\<exists>token. fst (receive_task demo_token_ext demo_rtc demo_accept (start_io
     (sender_sends demo_token_ext demo_rtc (rtc_demo_offer\<lparr>so_sending := []\<rparr>) demo_accept token [lit ''0'', lit ''1''] []))) =
     Inl JsonError"
proof -
  have ready: "session_ready (rtc_demo_offer\<lparr>so_sending := []\<rparr>) demo_accept [lit ''0'', lit ''1''] [] [lit ''a'']"
    using demo_session_fits by (simp add: session_fits_def session_ready_def)
  have keys: "keys_fit demo_token_ext (rtc_demo_offer\<lparr>so_sending := []\<rparr>) demo_accept [7] [7]"
    using demo_keys_fit by (simp add: keys_fit_def)
  obtain token where "generate_token_nonce demo_token_ext demo_key (so_nonce rtc_demo_offer @ ao_nonce demo_accept) = Some token"
    using token_generates [OF demo_suite] by blast
  then have "generate_token_nonce demo_token_ext (so_signing_key (rtc_demo_offer\<lparr>so_sending := []\<rparr>))
      (so_nonce (rtc_demo_offer\<lparr>so_sending := []\<rparr>) @ ao_nonce demo_accept) = Some token"
    by (simp add: rtc_demo_offer_def)
  with rtc_empty_transfer_fails [OF demo_rtc_codec ready keys] show ?thesis by auto
qed

section \<open>The end of the calls\<close>

definition pending :: "('a, peer_io, 'e) task \<Rightarrow> bool" where
  "pending m \<longleftrightarrow> (\<forall>io. pi_closed (snd (m io)) = pi_closed io \<and>
     (io_listening (pi_task io) \<longrightarrow> io_listening (pi_task (snd (m io)))))"

definition closes_on_success :: "(unit, peer_io, 'e) task \<Rightarrow> bool" where
  "closes_on_success m \<longleftrightarrow> (\<forall>io. \<not> pi_closed io \<and> io_listening (pi_task io) \<longrightarrow>
     pi_closed (snd (m io)) = is_ok (fst (m io)))"

lemma closes_after: "pending m \<Longrightarrow> (\<And>a. closes_on_success (f a)) \<Longrightarrow> closes_on_success (task_then m f)"
proof -
  assume m: "pending m" and f: "\<And>a. closes_on_success (f a)"
  have "pi_closed (snd (task_then m f io)) = is_ok (fst (task_then m f io))"
    if "\<not> pi_closed io" "io_listening (pi_task io)" for io
  proof -
    have "\<not> pi_closed (snd (m io))" "io_listening (pi_task (snd (m io)))"
      using m that by (simp_all add: pending_def)
    then show ?thesis
      using f by (cases "m io") (simp add: task_then_def closes_on_success_def is_ok_def split: sum.split)
  qed
  then show ?thesis by (simp add: closes_on_success_def)
qed

lemma pending_steps [simp]:
  "pending (task_result r)" "pending (step_ok b)" "pending (signal ok m)"
  by (simp_all add: pending_def task_result_def step_ok_def signal_def)

lemma tell_then_closes:
  "(\<And>u. closes_on_success (f u)) \<Longrightarrow> closes_on_success (task_then (tell_sdp_exchanged b) f)"
  by (simp add: closes_on_success_def task_then_def tell_sdp_exchanged_def in_task_def)

lemma run_to_end_closes: "closes_on_success (run_to_end env t)"
  by (auto simp: closes_on_success_def run_to_end_def task_then_def in_task_def task_ignore_def close_peer_def
      is_ok_def split: prod.splits sum.splits)

text \<open>
  While the application receives statuses, both calls close the peer connection exactly
  when they succeed: whatever error they return, the connection is left open.
\<close>

theorem rtc_error_leaves_open:
  assumes "\<not> pi_closed io" "io_listening (pi_task io)"
  shows "pi_closed (snd (session_offer X E env session_id target_id cs io)) =
      is_ok (fst (session_offer X E env session_id target_id cs io)) \<and>
    pi_closed (snd (session_accept X E env sdp_offer cr io)) = is_ok (fst (session_accept X E env sdp_offer cr io))"
proof -
  have "closes_on_success (session_offer X E env session_id target_id cs)"
    unfolding session_offer_def by (intro closes_after tell_then_closes run_to_end_closes) simp_all
  moreover have "closes_on_success (session_accept X E env sdp_offer cr)"
    unfolding session_accept_def by (intro closes_after tell_then_closes run_to_end_closes) simp_all
  ultimately show ?thesis using assms by (simp add: closes_on_success_def)
qed

definition rtc_demo_env :: peer_env where
  "rtc_demo_env = \<lparr>pe_created = True, pe_channel = True, pe_description = True, pe_local_description = Some (lit ''s''),
     pe_signaled = True, pe_answer = None, pe_valid_description = (\<lambda>s. True), pe_remote_set = True,
     pe_disconnected = False, pe_closed = True\<rparr>"

theorem rtc_error_leaves_open_witness:
  "\<not> pi_closed (snd (session_offer demo_token_ext demo_rtc rtc_demo_env [] 7 rtc_demo_offer
     \<lparr>pi_signaled = [], pi_closed = False, pi_task = start_io []\<rparr>))"
proof -
  let ?io = "\<lparr>pi_signaled = [], pi_closed = False, pi_task = start_io []\<rparr>"
  have "\<not> is_ok (fst (session_offer demo_token_ext demo_rtc rtc_demo_env [] 7 rtc_demo_offer ?io))"
    by (simp add: session_offer_def rtc_demo_env_def task_then_def step_ok_def task_result_def ensure_def signal_def
        ok_or_def is_ok_def task_fail_def)
  then show ?thesis
    using rtc_error_leaves_open [of ?io demo_token_ext demo_rtc rtc_demo_env "[]" 7 rtc_demo_offer] by (simp add: start_io_def)
qed

text \<open>
  The answer to a request to pair carries the key of the peer that asked: accepting it
  sends back exactly the public key that was received.
\<close>

lemma pair_answer_echoes:
  assumes "so_pair c = PairAnswered True" "answer_pair X E c nonce token public_key io = (Inr u, io1)"
  shows "io_sent io1 = io_sent io @ [text_message (rx_enc_pair E (PairOk public_key))]"
  using assms
  by (auto simp: answer_pair_def task_then_Inr task_ends send_text_def dc_send_def split: if_splits option.splits nat.splits)

end
