(* ===== verification/FB_CliUtil.thy ===== *)
theory FB_CliUtil
  imports FB_Filename FB_Model "HOL-Library.Sublist"
begin

text \<open>
  The small parts of the command line client: the hotkeys of devices (\<^verbatim>\<open>cli/src/slots.rs\<close>),
  free file names and formatting (\<^verbatim>\<open>cli/src/util.rs\<close>), the filter and the rows of the file
  picker (\<^verbatim>\<open>cli/src/picker.rs\<close>), the shortened hosts and the cursor of the device list
  (\<^verbatim>\<open>cli/src/device_list.rs\<close>), the log with its status line (\<^verbatim>\<open>cli/src/ui.rs\<close>) and the list of
  links (\<^verbatim>\<open>cli/src/banner.rs\<close>). The terminal is a list of actions.
\<close>

section \<open>Hotkeys\<close>

type_synonym slots = "(rstring \<times> nat option) list"

definition slots_new :: slots where
  "slots_new = []"

definition slots_assign :: "slots \<Rightarrow> rstring \<Rightarrow> nat option \<times> slots" where
  "slots_assign assigned fingerprint =
     (case map_of assigned fingerprint of
        Some slot \<Rightarrow> (slot, assigned)
      | None \<Rightarrow>
          (let slot = find (\<lambda>slot. \<not> list_ex (\<lambda>(fp, a). a = Some slot) assigned) [1..<10]
           in (slot, assigned @ [(fingerprint, slot)])))"

definition slots_get :: "slots \<Rightarrow> rstring \<Rightarrow> nat option" where
  "slots_get assigned fingerprint = Option.bind (map_of assigned fingerprint) (\<lambda>slot. slot)"

definition fingerprint_by_slot :: "slots \<Rightarrow> nat \<Rightarrow> rstring option" where
  "fingerprint_by_slot assigned slot = map_option fst (find (\<lambda>(fp, a). a = Some slot) assigned)"

definition slot_label :: "nat option \<Rightarrow> rstring" where
  "slot_label slot = (case slot of Some s \<Rightarrow> show_nat s | None \<Rightarrow> lit ''-'')"

definition slots_run :: "rstring list \<Rightarrow> slots" where
  "slots_run fps = foldl (\<lambda>s fp. snd (slots_assign s fp)) slots_new fps"

text \<open>The reference: devices in the order they were first seen, numbered while digits last.\<close>

definition first_seen :: "rstring list \<Rightarrow> rstring list" where
  "first_seen fps = rev (remdups (rev fps))"

definition numbered :: "rstring list \<Rightarrow> slots" where
  "numbered fps = map (\<lambda>(i, fp). (fp, if i < 9 then Some (Suc i) else None)) (enumerate 0 fps)"

section \<open>Free file names\<close>

text \<open>\<^verbatim>\<open>str::rsplit_once\<close>.\<close>

definition rsplit_once :: "'a \<Rightarrow> 'a list \<Rightarrow> ('a list \<times> 'a list) option" where
  "rsplit_once c s = map_option (\<lambda>(after, before). (rev before, rev after)) (split_once c (rev s))"

definition stem_and_extension :: "rstring \<Rightarrow> rstring \<times> rstring" where
  "stem_and_extension name =
     (case rsplit_once 46 name of
        Some (base, extension) \<Rightarrow> if base \<noteq> [] then (base, 46 # extension) else (name, [])
      | None \<Rightarrow> (name, []))"

definition numbered_name :: "rstring \<Rightarrow> nat \<Rightarrow> rstring" where
  "numbered_name name i =
     (let (base, extension) = stem_and_extension name in base @ lit '' ('' @ show_nat i @ lit '')'' @ extension)"

text \<open>
  The search does not return when every candidate exists. The counter of the source is an
  \<^verbatim>\<open>i32\<close>, with which the natural number agrees while fewer than 2147483647 numbered names are taken.
\<close>

partial_function (option) next_free :: "(rstring \<Rightarrow> bool) \<Rightarrow> rstring \<Rightarrow> nat \<Rightarrow> rstring option" where
  "next_free taken name i =
     (if taken (numbered_name name i) then next_free taken name (Suc i) else Some (numbered_name name i))"

definition join_path :: "rstring \<Rightarrow> rstring \<Rightarrow> rstring" where
  "join_path dir name = dir @ 47 # name"

definition unique_path :: "target_os \<Rightarrow> (rstring \<Rightarrow> bool) \<Rightarrow> rstring \<Rightarrow> rstring \<Rightarrow> rstring option" where
  "unique_path os path_exists dir file_name =
     (let name = sanitize_path file_name (current os)
      in if \<not> path_exists (join_path dir name) then Some (join_path dir name)
         else map_option (join_path dir) (next_free (\<lambda>candidate. path_exists (join_path dir candidate)) name 1))"

section \<open>Formatting\<close>

definition format_duration :: "nat \<Rightarrow> rstring" where
  "format_duration secs =
     (let h = secs div 3600; m = secs mod 3600 div 60; s = secs mod 60
      in if 0 < h then show_nat h @ lit ''h '' @ show_nat m @ lit ''m''
         else if 0 < m then show_nat m @ lit ''m '' @ show_nat s @ lit ''s''
         else show_nat s @ lit ''s'')"

text \<open>An IPv6 address is reduced to its last group, keeping the scope.\<close>

definition shorten_host :: "rstring \<Rightarrow> rstring" where
  "shorten_host host =
     (let (address, scope) = (case split_once 37 host of Some (a, s) \<Rightarrow> (a, Some s) | None \<Rightarrow> (host, None))
      in if 58 \<notin> set address then host
         else let last_group = last (split_on 58 address)
              in case scope of
                  Some s \<Rightarrow> lit ''::'' @ last_group @ 37 # s
                | None \<Rightarrow> lit ''::'' @ last_group)"

section \<open>The filter of the picker\<close>

text \<open>\<^verbatim>\<open>Iterator::any\<close> on a shared iterator: what is left after the first hit.\<close>

fun any_rest :: "'a \<Rightarrow> 'a list \<Rightarrow> 'a list option" where
  "any_rest needle [] = None"
| "any_rest needle (c # cs) = (if c = needle then Some cs else any_rest needle cs)"

fun all_found :: "'a list \<Rightarrow> 'a list \<Rightarrow> bool" where
  "all_found [] name = True"
| "all_found (needle # query) name =
     (case any_rest needle name of None \<Rightarrow> False | Some rest \<Rightarrow> all_found query rest)"

definition matches_query :: "(rchar \<Rightarrow> rstring) \<Rightarrow> rstring \<Rightarrow> rstring \<Rightarrow> bool" where
  "matches_query table query name = all_found (to_lowercase table query) (to_lowercase table name)"

text \<open>
  Display columns come from \<^verbatim>\<open>unicode-width\<close>: \<open>columns\<close> of a text, \<open>char_columns\<close> of a character.
\<close>

fun take_columns :: "(rchar \<Rightarrow> nat) \<Rightarrow> nat \<Rightarrow> nat \<Rightarrow> rstring \<Rightarrow> rstring \<times> nat" where
  "take_columns char_columns budget used [] = ([], used)"
| "take_columns char_columns budget used (c # cs) =
     (if budget < used + char_columns c then ([], used)
      else let (taken, total_columns) = take_columns char_columns budget (used + char_columns c) cs
           in (c # taken, total_columns))"

definition truncate_name ::
  "(rstring \<Rightarrow> nat) \<Rightarrow> (rchar \<Rightarrow> nat) \<Rightarrow> rstring \<Rightarrow> nat \<Rightarrow> rstring \<times> nat"
where
  "truncate_name columns char_columns name width =
     (if columns name \<le> width then (name, columns name)
      else if width = 0 then ([], 0)
      else let (taken, used) = take_columns char_columns (width - 1) 0 name in (taken @ [8230], used + 1))"

section \<open>The log\<close>

datatype category = CatDiscovery | CatReceive | CatSend

fun category_tag :: "category \<Rightarrow> rstring" where
  "category_tag CatDiscovery = lit ''D''"
| "category_tag CatReceive = lit ''R''"
| "category_tag CatSend = lit ''S''"

datatype screen_action = PrintText rstring | ClearLine

record ui =
  ui_out :: "screen_action list"
  ui_status :: "rstring option"
  ui_suspended :: bool
  ui_buffer :: "rstring list"

definition ui_new :: ui where
  "ui_new = \<lparr>ui_out = [], ui_status = None, ui_suspended = False, ui_buffer = []\<rparr>"

text \<open>
  A text cut into visible characters and escape sequences, which run from the escape
  character to the next letter or the end.
\<close>

datatype segment = Escape rstring | Visible rchar

function segments :: "rstring \<Rightarrow> segment list" where
  "segments [] = []"
| "segments (c # cs) =
     (if c \<noteq> 27 then Visible c # segments cs
      else let body = takeWhile (\<lambda>d. \<not> is_ascii_alphabetic d) cs; rest = dropWhile (\<lambda>d. \<not> is_ascii_alphabetic d) cs
           in Escape (c # body @ take 1 rest) # segments (drop 1 rest))"
  by pat_completeness auto
termination
proof (relation "measure length", goal_cases)
  case (3 c cs body rest)
  have "length (dropWhile (\<lambda>d. \<not> is_ascii_alphabetic d) cs) \<le> length cs" by (rule length_dropWhile_le)
  then show ?case using 3 by simp
qed simp_all

fun cut_visible :: "nat \<Rightarrow> segment list \<Rightarrow> rstring" where
  "cut_visible n [] = []"
| "cut_visible n (Escape e # ss) = e @ cut_visible n ss"
| "cut_visible n (Visible c # ss) = (case n of 0 \<Rightarrow> [] | Suc k \<Rightarrow> c # cut_visible k ss)"

definition truncate_visible :: "rstring \<Rightarrow> nat \<Rightarrow> rstring" where
  "truncate_visible s n = cut_visible n (segments s)"

text \<open>\<^verbatim>\<open>colored\<close> is the styling of a tag; \<open>width\<close> the width of the terminal.\<close>

definition redraw_status :: "nat \<Rightarrow> ui \<Rightarrow> ui" where
  "redraw_status width u =
     (if ui_suspended u then u
      else case ui_status u of
          None \<Rightarrow> u
        | Some status \<Rightarrow> u\<lparr>ui_out := ui_out u @ [PrintText (truncate_visible status (width - 1))]\<rparr>)"

definition clear_status_line :: "ui \<Rightarrow> ui" where
  "clear_status_line u =
     (if \<not> ui_suspended u \<and> ui_status u \<noteq> None then u\<lparr>ui_out := ui_out u @ [ClearLine]\<rparr> else u)"

text \<open>\<^verbatim>\<open>str::lines\<close>.\<close>

definition str_lines :: "rstring \<Rightarrow> rstring list" where
  "str_lines s =
     (let ls = split_on 10 s; ls = (if last ls = [] then butlast ls else ls)
      in map (\<lambda>l. if l \<noteq> [] \<and> last l = 13 then butlast l else l) ls)"

definition format_line :: "(category \<Rightarrow> rstring) \<Rightarrow> category option \<Rightarrow> nat \<Rightarrow> rstring \<Rightarrow> rstring" where
  "format_line colored cat i line =
     (case cat of
        None \<Rightarrow> line
      | Some c \<Rightarrow> if i = 0 then colored c @ lit '' '' @ line else lit ''  '' @ line) @ [13, 10]"

definition print_line :: "rstring \<Rightarrow> ui \<Rightarrow> ui" where
  "print_line formatted u =
     (if ui_suspended u then u\<lparr>ui_buffer := ui_buffer u @ [formatted]\<rparr>
      else u\<lparr>ui_out := ui_out u @ [PrintText formatted]\<rparr>)"

definition block_lines :: "(category \<Rightarrow> rstring) \<Rightarrow> category option \<Rightarrow> rstring \<Rightarrow> rstring list" where
  "block_lines colored cat content =
     map (\<lambda>(i, line). format_line colored cat i line) (enumerate 0 (str_lines content))"

definition print_block ::
  "(category \<Rightarrow> rstring) \<Rightarrow> nat \<Rightarrow> category option \<Rightarrow> rstring \<Rightarrow> ui \<Rightarrow> ui"
where
  "print_block colored width cat content u =
     redraw_status width
       (foldl (\<lambda>u formatted. print_line formatted u) (clear_status_line u) (block_lines colored cat content))"

definition ui_suspend :: "ui \<Rightarrow> ui" where
  "ui_suspend u = u\<lparr>ui_suspended := True\<rparr>"

definition ui_resume :: "nat \<Rightarrow> ui \<Rightarrow> ui" where
  "ui_resume width u =
     redraw_status width (u\<lparr>ui_suspended := False, ui_out := ui_out u @ map PrintText (ui_buffer u), ui_buffer := []\<rparr>)"

definition set_status :: "nat \<Rightarrow> rstring option \<Rightarrow> ui \<Rightarrow> ui" where
  "set_status width status u =
     (if status = ui_status u then u
      else redraw_status width ((clear_status_line u)\<lparr>ui_status := status\<rparr>))"

datatype ui_op = UiLog "category option" rstring | UiSuspend | UiResume | UiStatus "rstring option"

fun ui_step :: "(category \<Rightarrow> rstring) \<Rightarrow> nat \<Rightarrow> ui_op \<Rightarrow> ui \<Rightarrow> ui" where
  "ui_step colored width (UiLog cat content) u = print_block colored width cat content u"
| "ui_step colored width UiSuspend u = ui_suspend u"
| "ui_step colored width UiResume u = ui_resume width u"
| "ui_step colored width (UiStatus status) u = set_status width status u"

definition ui_run :: "(category \<Rightarrow> rstring) \<Rightarrow> nat \<Rightarrow> ui_op list \<Rightarrow> ui" where
  "ui_run colored width ops = foldl (\<lambda>u op. ui_step colored width op u) ui_new ops"

section \<open>Links\<close>

text \<open>An address is its text and, for IPv6, whether it is unique local.\<close>

fun listing ::
  "rstring \<Rightarrow> bool option \<Rightarrow> (rstring \<times> nat) list \<Rightarrow> (rstring \<times> bool option) list \<Rightarrow> (rstring \<times> nat) list"
where
  "listing scheme current_scope lines [] = lines"
| "listing scheme current_scope lines ((address, kind) # rest) =
     (let line = lit '' - '' @ scheme @ lit ''://'' @ address in
      case kind of
        None \<Rightarrow> listing scheme current_scope (lines @ [(line, 0)]) rest
      | Some scope \<Rightarrow>
          if current_scope = Some scope
          then listing scheme current_scope (butlast lines @ [(fst (last lines), Suc (snd (last lines)))]) rest
          else listing scheme (Some scope) (lines @ [(line, 0)]) rest)"

definition listening_lines :: "rstring \<Rightarrow> (rstring \<times> bool option) list \<Rightarrow> rstring list" where
  "listening_lines scheme addresses =
     map (\<lambda>(line, hidden). if hidden = 0 then line else line @ lit '' (+'' @ show_nat hidden @ lit '' more)'')
       (listing scheme None [] addresses)"

section \<open>Lemmas\<close>

lemma first_seen_snoc: "first_seen (fps @ [fp]) = (if fp \<in> set fps then first_seen fps else first_seen fps @ [fp])"
  by (simp add: first_seen_def)

lemma set_first_seen [simp]: "set (first_seen fps) = set fps"
  by (simp add: first_seen_def)

lemma numbered_snoc: "numbered (fps @ [fp]) = numbered fps @ [(fp, if length fps < 9 then Some (Suc (length fps)) else None)]"
  by (simp add: numbered_def enumerate_append_eq)

lemma map_of_numbered: "fp \<notin> set fps \<longleftrightarrow> map_of (numbered fps) fp = None"
  by (induction fps rule: rev_induct) (auto simp: numbered_snoc map_of_eq_None_iff numbered_def [of "[]"])

lemma number_taken: "list_ex (\<lambda>(fp, a). a = Some k) (numbered fps) \<longleftrightarrow> 1 \<le> k \<and> k \<le> length fps \<and> k \<le> 9"
proof (induction fps rule: rev_induct)
  case Nil
  then show ?case by (simp add: numbered_def)
next
  case (snoc fp fps)
  then show ?case by (auto simp: numbered_snoc)
qed

lemma next_number:
  "find (\<lambda>slot. \<not> list_ex (\<lambda>(fp, a). a = Some slot) (numbered fps)) [1..<10] =
     (if length fps < 9 then Some (Suc (length fps)) else None)"
  unfolding number_taken by (simp add: upt_rec) (cases fps, simp_all)

lemma slots_run_numbered: "slots_run fps = numbered (first_seen fps)"
proof (induction fps rule: rev_induct)
  case Nil
  show ?case by (simp add: slots_run_def slots_new_def numbered_def first_seen_def)
next
  case (snoc fp fps)
  have "slots_run (fps @ [fp]) = snd (slots_assign (numbered (first_seen fps)) fp)"
    using snoc by (simp add: slots_run_def)
  also have "\<dots> = numbered (first_seen (fps @ [fp]))"
  proof (cases "fp \<in> set fps")
    case True
    then have "map_of (numbered (first_seen fps)) fp \<noteq> None" using map_of_numbered [of fp "first_seen fps"] by auto
    then show ?thesis using True by (auto simp: slots_assign_def first_seen_snoc)
  next
    case False
    then have "map_of (numbered (first_seen fps)) fp = None" using map_of_numbered [of fp "first_seen fps"] by simp
    then show ?thesis using False by (simp add: slots_assign_def first_seen_snoc numbered_snoc next_number [simplified] Let_def)
  qed
  finally show ?case .
qed

lemma split_once_parts: "split_once c s = Some (a, b) \<Longrightarrow> s = a @ c # b"
proof -
  assume "split_once c s = Some (a, b)"
  then have c: "c \<in> set s" and ab: "a = takeWhile (\<lambda>x. x \<noteq> c) s" "b = tl (dropWhile (\<lambda>x. x \<noteq> c) s)"
    by (auto simp: split_once_def split: if_splits)
  then have ne: "dropWhile (\<lambda>x. x \<noteq> c) s \<noteq> []" by (simp add: dropWhile_eq_Nil_conv)
  have "hd (dropWhile (\<lambda>x. x \<noteq> c) s) = c" using hd_dropWhile [OF ne] by simp
  with ab ne show ?thesis
    by (metis takeWhile_dropWhile_id list.collapse)
qed

lemma rsplit_once_parts: "rsplit_once c s = Some (a, b) \<Longrightarrow> s = a @ c # b"
proof -
  assume "rsplit_once c s = Some (a, b)"
  then obtain x y where "split_once c (rev s) = Some (x, y)" "a = rev y" "b = rev x"
    by (auto simp: rsplit_once_def)
  then show ?thesis using split_once_parts [of c "rev s" x y] by (metis rev_append rev.simps(2) rev_rev_ident append.assoc append_Cons append_Nil)
qed

lemma numbered_name_inj: "numbered_name name i = numbered_name name j \<Longrightarrow> i = j"
  by (auto simp: numbered_name_def lit_def split: prod.splits dest: show_nat_inj)

lemma rsplit_once_none: "rsplit_once c s = None \<longleftrightarrow> c \<notin> set s"
  by (auto simp: rsplit_once_def split_once_def)

text \<open>The number stands before the extension.\<close>

lemma numbered_name_cases:
  obtains (plain) "numbered_name name i = name @ lit '' ('' @ show_nat i @ lit '')''" "46 \<notin> set name \<or> hd name = 46"
  | (dotted) base extension where "name = base @ 46 # extension"
      "numbered_name name i = base @ lit '' ('' @ show_nat i @ lit '')'' @ 46 # extension"
proof (cases "rsplit_once 46 name")
  case None
  then have "numbered_name name i = name @ lit '' ('' @ show_nat i @ lit '')''"
    by (simp add: numbered_name_def stem_and_extension_def)
  moreover have "46 \<notin> set name" using None by (simp add: rsplit_once_none)
  ultimately show thesis using plain by blast
next
  case (Some p)
  then obtain base extension where p: "rsplit_once 46 name = Some (base, extension)" "name = base @ 46 # extension"
    using rsplit_once_parts [of 46 name] by (cases p) auto
  show thesis
  proof (cases "base = []")
    case True
    with p show thesis using plain by (simp add: numbered_name_def stem_and_extension_def)
  next
    case False
    with p show thesis using dotted [of base extension] by (simp add: numbered_name_def stem_and_extension_def)
  qed
qed

lemma numbered_name_len: "str_len (numbered_name name i) = str_len name + 3 + str_len (show_nat i)"
  by (cases rule: numbered_name_cases [of name i]) (simp_all add: lit_def utf8_width_def)

lemma numbered_name_legal:
  assumes "all_legal rules name"
  shows "all_legal rules (numbered_name name i)"
proof -
  have mark: "all_legal rules (lit '' ('')" "all_legal rules (lit '')'')"
    by (cases rules; simp add: all_legal_def is_illegal_char_def lit_def is_control_def ILLEGAL_WINDOWS_CHARS_def
        ILLEGAL_HFS_CHARS_def ILLEGAL_POSIX_CHARS_def)+
  have digit: "\<not> is_illegal_char rules c" if "48 \<le> c" "c \<le> 57" for c
    using that by (cases rules; auto simp: is_illegal_char_def is_control_def ILLEGAL_WINDOWS_CHARS_def
        ILLEGAL_HFS_CHARS_def ILLEGAL_POSIX_CHARS_def)
  have "all_legal rules (show_nat i)"
    using show_nat_digits [of _ i] by (auto simp: all_legal_def digit)
  with assms mark show ?thesis
    by (cases rule: numbered_name_cases [of name i]) (auto simp: all_legal_def)
qed

lemma numbered_name_tail: "tail_ok name \<Longrightarrow> tail_ok (numbered_name name i)"
  by (cases rule: numbered_name_cases [of name i]) (auto simp: tail_ok_def is_trailing_def lit_def split: if_splits)

lemma parenthesis_unreserved:
  assumes "40 \<in> set (stem name)"
  shows "reserved_prefix name = None"
proof -
  have "40 \<notin> set reserved" if "reserved \<in> set RESERVED_WINDOWS_NAMES" for reserved
    using that by (auto simp: RESERVED_WINDOWS_NAMES_def lit_def)
  moreover have "40 \<in> set b" if "eq_ignore_ascii_case (stem name) b" for b
  proof -
    have "ascii_lower 40 \<in> set (map ascii_lower b)"
      using that assms by (metis eq_ignore_ascii_case_def image_eqI list.set_map)
    then show ?thesis by (auto simp: ascii_lower_def split: if_splits)
  qed
  ultimately show ?thesis by (auto simp: reserved_prefix_def find_None_iff)
qed

lemma numbered_name_unreserved:
  assumes "reserved_prefix name = None"
  shows "reserved_prefix (numbered_name name i) = None"
proof -
  have "46 \<notin> set (show_nat i)" using show_nat_digits [of 46 i] by auto
  then have mark: "46 \<notin> set (lit '' ('' @ show_nat i @ lit '')'')" by (simp add: lit_def)
  have "stem (numbered_name name i) = stem name \<or> 40 \<in> set (stem (numbered_name name i))"
  proof (cases rule: numbered_name_cases [of name i])
    case plain
    show ?thesis
    proof (cases "46 \<in> set name")
      case True
      with plain show ?thesis by (cases name) (auto simp: stem_def hd_split_by)
    next
      case False
      with plain(1) mark have "46 \<notin> set (numbered_name name i)" by simp
      then have "stem (numbered_name name i) = numbered_name name i"
        by (auto simp: stem_def hd_split_by takeWhile_eq_all_conv)
      then show ?thesis using plain(1) by (simp add: lit_def)
    qed
  next
    case (dotted base extension)
    show ?thesis
    proof (cases "46 \<in> set base")
      case True
      with dotted show ?thesis by (auto simp: stem_def hd_split_by)
    next
      case False
      then have "\<And>x. x \<in> set (base @ lit '' ('' @ show_nat i @ lit '')'') \<Longrightarrow> x \<noteq> 46" using mark by auto
      then have "takeWhile (\<lambda>x. x \<noteq> 46) ((base @ lit '' ('' @ show_nat i @ lit '')'') @ 46 # extension) =
          base @ lit '' ('' @ show_nat i @ lit '')''"
        by (subst takeWhile_append2) simp_all
      then show ?thesis using dotted(2) by (simp add: stem_def hd_split_by lit_def)
    qed
  qed
  then show ?thesis using assms parenthesis_unreserved [of "numbered_name name i"] by (auto simp: reserved_prefix_def)
qed

lemma numbered_name_component: "40 \<in> set (numbered_name name i)"
  by (cases rule: numbered_name_cases [of name i]) (simp_all add: lit_def)

text \<open>All that is asked of a name except its length.\<close>

lemma numbered_name_valid:
  assumes "is_valid name rules"
  shows "is_valid (numbered_name name i) rules \<longleftrightarrow> str_len (numbered_name name i) \<le> MAX_LEN"
    "all_legal rules (numbered_name name i)" "\<not> is_relative (numbered_name name i)" "numbered_name name i \<noteq> []"
proof -
  show "all_legal rules (numbered_name name i)" "\<not> is_relative (numbered_name name i)" "numbered_name name i \<noteq> []"
    using assms numbered_name_component [of name i] numbered_name_legal [of rules name i]
    by (auto simp: is_valid_alt is_relative_def lit_def)
  then show "is_valid (numbered_name name i) rules \<longleftrightarrow> str_len (numbered_name name i) \<le> MAX_LEN"
    using assms numbered_name_tail [of name i] numbered_name_unreserved [of name i] by (auto simp: is_valid_alt)
qed

text \<open>The search ends with the first number that is free.\<close>

lemma next_free_first:
  "\<not> taken (numbered_name name k) \<Longrightarrow> i \<le> k \<Longrightarrow>
     \<exists>j\<ge>i. next_free taken name i = Some (numbered_name name j) \<and> \<not> taken (numbered_name name j) \<and>
       (\<forall>m. i \<le> m \<and> m < j \<longrightarrow> taken (numbered_name name m))"
proof (induction "k - i" arbitrary: i)
  case 0
  then have "i = k" by simp
  then show ?case using 0(2) by (auto simp: next_free.simps [of taken name i] next_free.simps [of taken name k])
next
  case (Suc n)
  show ?case
  proof (cases "taken (numbered_name name i)")
    case True
    have "i \<noteq> k" using True Suc.prems(1) by auto
    then have "n = k - Suc i" "Suc i \<le> k" using Suc.hyps(2) Suc.prems(2) by simp_all
    then obtain j where "j \<ge> Suc i" "next_free taken name (Suc i) = Some (numbered_name name j)"
        "\<not> taken (numbered_name name j)" "\<forall>m. Suc i \<le> m \<and> m < j \<longrightarrow> taken (numbered_name name m)"
      using Suc.hyps(1) Suc.prems(1) by blast
    with True show ?thesis
      by (intro exI [of _ j]) (auto simp: next_free.simps [of taken name i] le_eq_less_or_eq [of i] less_eq_Suc_le [of i])
  next
    case False
    then show ?thesis by (intro exI [of _ i]) (auto simp: next_free.simps [of taken name i])
  qed
qed

lemma some_number_free:
  assumes "finite {n. taken n}"
  shows "\<exists>k \<ge> 1. \<not> taken (numbered_name name k)"
proof (rule ccontr)
  assume "\<not> (\<exists>k \<ge> 1. \<not> taken (numbered_name name k))"
  then have "numbered_name name ` {1..} \<subseteq> {n. taken n}" by auto
  then have "finite (numbered_name name ` {1..})" using assms by (rule finite_subset)
  moreover have "inj_on (numbered_name name) {1..}" by (auto intro: inj_onI numbered_name_inj)
  ultimately have "finite {1::nat..}" by (rule finite_imageD)
  then show False using infinite_Ici [of "1::nat"] by simp
qed

lemma all_found_subseq: "all_found query name = subseq query name"
proof (induction query name rule: all_found.induct)
  case (1 name)
  show ?case by simp
next
  case (2 needle query name)
  have "any_rest needle name = None \<Longrightarrow> \<not> subseq (needle # query) name"
    by (induction name) (auto split: if_splits)
  moreover have "any_rest needle name = Some rest \<Longrightarrow> subseq (needle # query) name = subseq query rest" for rest
    by (induction name) (auto split: if_splits)
  ultimately show ?case using 2 by (auto split: option.split)
qed

fun segment_text :: "segment \<Rightarrow> rstring" where
  "segment_text (Escape e) = e"
| "segment_text (Visible c) = [c]"

lemma segments_cover: "concat (map segment_text (segments s)) = s"
proof (induction s rule: segments.induct)
  case (2 c cs)
  show ?case
  proof (cases "c = 27")
    case True
    have "concat (map segment_text (segments (27 # cs))) =
        27 # takeWhile (\<lambda>d. \<not> is_ascii_alphabetic d) cs @ take 1 (dropWhile (\<lambda>d. \<not> is_ascii_alphabetic d) cs) @
        drop 1 (dropWhile (\<lambda>d. \<not> is_ascii_alphabetic d) cs)"
      using 2(2) True by (simp add: Let_def)
    then show ?thesis using True by (metis append_take_drop_id takeWhile_dropWhile_id)
  next
    case False
    then show ?thesis using 2(1) by simp
  qed
qed simp

lemma take_columns_bound: "used \<le> budget \<Longrightarrow> snd (take_columns w budget used s) \<le> budget"
  by (induction w budget used s rule: take_columns.induct) (auto split: prod.splits)

section \<open>Theorems\<close>

text \<open>
  Whatever is discovered, and however often, the devices are numbered in the order they
  were first seen, the tenth and later ones without a key: a key never changes its device
  and no two devices share one.
\<close>

theorem slots_in_discovery_order: "slots_run fps = numbered (first_seen fps)"
  by (rule slots_run_numbered)

lemma unique_path_result:
  assumes "finite {candidate. path_exists (join_path dir candidate)}"
  shows "\<exists>name. unique_path os path_exists dir file_name = Some (join_path dir name) \<and> \<not> path_exists (join_path dir name) \<and>
    (if path_exists (join_path dir (sanitize_path file_name (current os)))
     then \<exists>k\<ge>1. name = numbered_name (sanitize_path file_name (current os)) k \<and>
       (\<forall>m. 1 \<le> m \<and> m < k \<longrightarrow> path_exists (join_path dir (numbered_name (sanitize_path file_name (current os)) m)))
     else name = sanitize_path file_name (current os))"
proof (cases "path_exists (join_path dir (sanitize_path file_name (current os)))")
  case True
  let ?taken = "\<lambda>candidate. path_exists (join_path dir candidate)" and ?name = "sanitize_path file_name (current os)"
  obtain k where "1 \<le> k" "\<not> ?taken (numbered_name ?name k)" using some_number_free [OF assms, of ?name] by auto
  then obtain j where "j \<ge> 1" "next_free ?taken ?name 1 = Some (numbered_name ?name j)" "\<not> ?taken (numbered_name ?name j)"
      "\<forall>m. 1 \<le> m \<and> m < j \<longrightarrow> ?taken (numbered_name ?name m)"
    using next_free_first [of ?taken ?name k 1] by auto
  with True show ?thesis by (intro exI [of _ "numbered_name ?name j"]) (auto simp: unique_path_def Let_def)
qed (simp add: unique_path_def Let_def)

lemma unique_path_is_free:
  assumes "finite {candidate. path_exists (join_path dir candidate)}"
  shows "\<exists>name. unique_path os path_exists dir file_name = Some (join_path dir name) \<and>
    \<not> path_exists (join_path dir name) \<and> 47 \<notin> set name \<and> name \<notin> {[], lit ''.'', lit ''..''}"
proof -
  have legal: "is_valid (sanitize_path file_name (current os)) (current os)" by (rule sanitize_path_valid)
  obtain name where name: "unique_path os path_exists dir file_name = Some (join_path dir name)"
      "\<not> path_exists (join_path dir name)"
      "name = sanitize_path file_name (current os) \<or> (\<exists>k. name = numbered_name (sanitize_path file_name (current os)) k)"
    using unique_path_result [OF assms, of os file_name] by (metis (full_types))
  from name(3) have "all_legal (current os) name \<and> \<not> is_relative name \<and> name \<noteq> []"
  proof (elim disjE exE)
    assume "name = sanitize_path file_name (current os)"
    with legal show ?thesis by (simp add: is_valid_alt)
  next
    fix k assume "name = numbered_name (sanitize_path file_name (current os)) k"
    then show ?thesis using numbered_name_valid(2-4) [OF legal, of k] by simp
  qed
  then show ?thesis
    using name(1,2) slash_illegal [of "current os"] by (intro exI [of _ name]) (auto simp: all_legal_def is_relative_def)
qed

text \<open>
  C27. For any name a sender gives, a free path is found directly below a directory of which only
  finitely many entries exist. It ends in the sanitised name, which is valid, or, if that
  exists, in this name with the first free number before its extension: still one component
  of legal characters, neither empty nor relative, but longer than the sanitised name by the
  number, three characters and no more, so that it is valid exactly when it is not over the
  limit of 255 bytes, which is not checked again.
\<close>

theorem unique_path_free:
  assumes "finite {candidate. path_exists (join_path dir candidate)}"
  shows "case sanitize_path file_name (current os) of wanted \<Rightarrow>
    \<exists>name. unique_path os path_exists dir file_name = Some (join_path dir name) \<and> \<not> path_exists (join_path dir name) \<and>
      (if \<not> path_exists (join_path dir wanted) then name = wanted \<and> is_valid name (current os)
       else \<exists>k\<ge>1. name = numbered_name wanted k \<and>
         (\<forall>m. 1 \<le> m \<and> m < k \<longrightarrow> path_exists (join_path dir (numbered_name wanted m))) \<and>
         all_legal (current os) name \<and> \<not> is_relative name \<and> name \<noteq> [] \<and>
         str_len name = str_len wanted + 3 + str_len (show_nat k) \<and>
         (is_valid name (current os) \<longleftrightarrow> str_len name \<le> MAX_LEN))"
proof -
  have legal: "is_valid (sanitize_path file_name (current os)) (current os)" by (rule sanitize_path_valid)
  obtain name where "unique_path os path_exists dir file_name = Some (join_path dir name)"
      "\<not> path_exists (join_path dir name)"
      "if path_exists (join_path dir (sanitize_path file_name (current os)))
       then \<exists>k\<ge>1. name = numbered_name (sanitize_path file_name (current os)) k \<and>
         (\<forall>m. 1 \<le> m \<and> m < k \<longrightarrow> path_exists (join_path dir (numbered_name (sanitize_path file_name (current os)) m)))
       else name = sanitize_path file_name (current os)"
    using unique_path_result [OF assms, of os file_name] by blast
  with legal show ?thesis
    by (intro exI [of _ name]) (auto simp: numbered_name_valid [OF legal] numbered_name_len split: if_splits)
qed

theorem unique_path_free_witness:
  "\<exists>k\<ge>1. unique_path TargetOtherUnix (\<lambda>p. p = lit ''d/a.txt'') (lit ''d'') (lit ''../a.txt'') =
     Some (join_path (lit ''d'') (numbered_name (lit ''a.txt'') k))"
proof -
  have "{candidate. join_path (lit ''d'') candidate = lit ''d/a.txt''} \<subseteq> {lit ''a.txt''}"
    by (auto simp: join_path_def lit_def)
  then have finite: "finite {candidate. join_path (lit ''d'') candidate = lit ''d/a.txt''}"
    by (rule finite_subset) simp
  have "sanitize_path (lit ''../a.txt'') (current TargetOtherUnix) = lit ''a.txt''"
    "join_path (lit ''d'') (lit ''a.txt'') = lit ''d/a.txt''" by code_simp+
  then show ?thesis
    using unique_path_free [of "\<lambda>p. p = lit ''d/a.txt''", OF finite, of TargetOtherUnix "lit ''../a.txt''"] by auto
qed

text \<open>
  The filter of the picker keeps exactly the names that contain the query as a
  subsequence, regardless of case.
\<close>

theorem matches_query_subsequence:
  "matches_query table query name = subseq (to_lowercase table query) (to_lowercase table name)"
  by (simp add: matches_query_def all_found_subseq)

end
