(* ===== verification/FB_CliStore.thy ===== *)
theory FB_CliStore
  imports FB_Store FB_Crypto FB_Multicast "HOL-Library.List_Lexorder"
begin

text \<open>
  What the command line client keeps on disk: the paired devices
  (\<^verbatim>\<open>cli/src/storage/paired.rs\<close>), the settings (\<^verbatim>\<open>cli/src/storage/config.rs\<close>), its identity
  (\<^verbatim>\<open>cli/src/storage/identity.rs\<close>) and how they are loaded together
  (\<^verbatim>\<open>cli/src/storage/mod.rs\<close>). JSON, TOML, PEM and the generation of certificates are
  parameters; a file is what reading it gives.
\<close>

section \<open>Files\<close>

datatype read_file = FileText rstring | FileMissing | FileUnreadable

datatype storage_error =
    InvalidPaired | UnsupportedVersion u32 | PairedUnreadable | PairedNotWritten
  | InvalidConfig | ConfigUnreadable
  | InvalidIdentity | IdentityUnreadable | IdentityNotSaved | IdentityNotGenerated | DirectoryNotCreated

section \<open>Paired devices\<close>

definition PAIRED_DEVICES_VERSION :: u32 where
  "PAIRED_DEVICES_VERSION = 1"

record paired_channel =
  pch_host :: rstring
  pch_port :: u16
  pch_protocol :: protocol_type

record paired_device =
  pd_alias :: rstring
  pd_channels :: "paired_channel list"

definition channel_from :: "http_channel \<Rightarrow> paired_channel" where
  "channel_from c = \<lparr>pch_host = hc_host c, pch_port = hc_port c, pch_protocol = hc_protocol c\<rparr>"

definition paired_http_channel :: "paired_channel \<Rightarrow> http_channel" where
  "paired_http_channel c = \<lparr>hc_host = pch_host c, hc_port = pch_port c, hc_protocol = pch_protocol c\<rparr>"

definition channels_of :: "stateful_device \<Rightarrow> paired_channel list" where
  "channels_of stored = map channel_from (List.map_filter channel_http (get_ranked_channels stored))"

text \<open>A \<^verbatim>\<open>BTreeMap\<close>: an association list in the order of its keys.\<close>

type_synonym paired_map = "(rstring \<times> paired_device) list"

fun tree_insert :: "rstring \<Rightarrow> paired_device \<Rightarrow> paired_map \<Rightarrow> paired_map" where
  "tree_insert k v [] = [(k, v)]"
| "tree_insert k v ((j, w) # m) =
     (if k = j then (k, v) # m else if k < j then (k, v) # (j, w) # m else (j, w) # tree_insert k v m)"

definition tree_remove :: "rstring \<Rightarrow> paired_map \<Rightarrow> paired_map" where
  "tree_remove k m = filter (\<lambda>(j, w). j \<noteq> k) m"

text \<open>JSON: the version alone, the whole file, and back.\<close>

record json_paired =
  jp_version :: "rstring \<Rightarrow> u32 option"
  jp_file :: "rstring \<Rightarrow> paired_map option"
  jp_pretty :: "u32 \<times> paired_map \<Rightarrow> rstring"

definition paired_load :: "json_paired \<Rightarrow> read_file \<Rightarrow> (paired_map, storage_error) result" where
  "paired_load J file_text =
     (case file_text of
        FileText content \<Rightarrow>
          and_then (ok_or (jp_version J content) InvalidPaired) (\<lambda>version.
            if version = PAIRED_DEVICES_VERSION then ok_or (jp_file J content) InvalidPaired
            else Inl (UnsupportedVersion version))
      | FileMissing \<Rightarrow> Inr []
      | FileUnreadable \<Rightarrow> Inl PairedUnreadable)"

definition paired_contains :: "paired_map \<Rightarrow> rstring \<Rightarrow> bool" where
  "paired_contains m fingerprint \<longleftrightarrow> map_of m fingerprint \<noteq> None"

text \<open>
  The disk: the file and the temporary file. Writing either completes or leaves a part of
  the text in the temporary file; renaming replaces the file or fails.
\<close>

record paired_disk =
  dk_main :: "rstring option"
  dk_temp :: "rstring option"

datatype write_outcome = WriteDone | WriteTorn nat

definition paired_save ::
  "json_paired \<Rightarrow> write_outcome \<Rightarrow> bool \<Rightarrow> paired_map \<Rightarrow> paired_disk \<Rightarrow> (unit, storage_error) result \<times> paired_disk"
where
  "paired_save J written renamed m d =
     (let content = jp_pretty J (PAIRED_DEVICES_VERSION, m) in
      case written of
        WriteTorn n \<Rightarrow> (Inl PairedNotWritten, d\<lparr>dk_temp := Some (take n content)\<rparr>)
      | WriteDone \<Rightarrow>
          if renamed then (Inr (), d\<lparr>dk_main := Some content, dk_temp := None\<rparr>)
          else (Inl PairedNotWritten, d\<lparr>dk_temp := Some content\<rparr>))"

text \<open>The operations on the devices in memory; each saves when it changed something.\<close>

record paired_devices =
  pv_devices :: paired_map
  pv_disk :: paired_disk

definition save_devices ::
  "json_paired \<Rightarrow> write_outcome \<Rightarrow> bool \<Rightarrow> paired_map \<Rightarrow> paired_devices \<Rightarrow>
   (unit, storage_error) result \<times> paired_devices"
where
  "save_devices J written renamed m p =
     (let (r, d) = paired_save J written renamed m (pv_disk p) in (r, p\<lparr>pv_devices := m, pv_disk := d\<rparr>))"

definition paired_insert ::
  "json_paired \<Rightarrow> write_outcome \<Rightarrow> bool \<Rightarrow> rstring \<Rightarrow> rstring \<Rightarrow> paired_channel list \<Rightarrow> paired_devices \<Rightarrow>
   (unit, storage_error) result \<times> paired_devices"
where
  "paired_insert J written renamed fingerprint name channels p =
     save_devices J written renamed
       (tree_insert fingerprint \<lparr>pd_alias = name, pd_channels = channels\<rparr> (pv_devices p)) p"

definition paired_update ::
  "json_paired \<Rightarrow> write_outcome \<Rightarrow> bool \<Rightarrow> rstring \<Rightarrow> rstring \<Rightarrow> paired_channel list \<Rightarrow> paired_devices \<Rightarrow>
   (unit, storage_error) result \<times> paired_devices"
where
  "paired_update J written renamed fingerprint name channels p =
     (case map_of (pv_devices p) fingerprint of
        None \<Rightarrow> (Inr (), p)
      | Some device \<Rightarrow>
          if pd_alias device = name \<and> pd_channels device = channels then (Inr (), p)
          else save_devices J written renamed
            (map (\<lambda>(k, v). if k = fingerprint then (k, v\<lparr>pd_alias := name, pd_channels := channels\<rparr>) else (k, v))
              (pv_devices p)) p)"

definition paired_remove ::
  "json_paired \<Rightarrow> write_outcome \<Rightarrow> bool \<Rightarrow> rstring \<Rightarrow> paired_devices \<Rightarrow>
   (paired_device option, storage_error) result \<times> paired_devices"
where
  "paired_remove J written renamed fingerprint p =
     (case map_of (pv_devices p) fingerprint of
        None \<Rightarrow> (Inr None, p)
      | Some device \<Rightarrow>
          (let (r, p1) = save_devices J written renamed (tree_remove fingerprint (pv_devices p)) p
           in (and_then r (\<lambda>_. Inr (Some device)), p1)))"

definition known_http_channels :: "paired_map \<Rightarrow> http_channel list" where
  "known_http_channels m = concat (map (\<lambda>(k, v). map paired_http_channel (pd_channels v)) m)"

datatype paired_op =
    OpInsert rstring rstring "paired_channel list"
  | OpUpdate rstring rstring "paired_channel list"
  | OpRemove rstring

fun paired_step :: "json_paired \<Rightarrow> paired_op \<times> write_outcome \<times> bool \<Rightarrow> paired_devices \<Rightarrow> paired_devices" where
  "paired_step J (OpInsert fp name cs, w, r) p = snd (paired_insert J w r fp name cs p)"
| "paired_step J (OpUpdate fp name cs, w, r) p = snd (paired_update J w r fp name cs p)"
| "paired_step J (OpRemove fp, w, r) p = snd (paired_remove J w r fp p)"

definition paired_run :: "json_paired \<Rightarrow> (paired_op \<times> write_outcome \<times> bool) list \<Rightarrow> paired_devices \<Rightarrow> paired_devices" where
  "paired_run J ops p = foldl (\<lambda>p op. paired_step J op p) p ops"

section \<open>Settings\<close>

record args =
  ar_alias :: "rstring option"
  ar_port :: "u16 option"
  ar_destination :: "rstring option"
  ar_files :: "rstring list"

record config =
  cf_alias :: "rstring option"
  cf_port :: "u16 option"
  cf_destination :: "rstring option"

record resolved_config =
  rc_alias :: rstring
  rc_port :: u16
  rc_destination :: rstring

definition CLI_DEFAULT_PORT :: u16 where
  "CLI_DEFAULT_PORT = 53317"

text \<open>The machine: its host name, home and download directories, and the parser of TOML.\<close>

record machine =
  mc_hostname :: rstring
  mc_home :: "rstring option"
  mc_downloads :: "rstring option"
  mc_toml :: "rstring \<Rightarrow> config option"
  mc_xdg_config :: "rstring option"

definition config_load :: "machine \<Rightarrow> read_file \<Rightarrow> (config, storage_error) result" where
  "config_load M file_text =
     (case file_text of
        FileText content \<Rightarrow> ok_or (mc_toml M content) InvalidConfig
      | FileMissing \<Rightarrow> Inr \<lparr>cf_alias = None, cf_port = None, cf_destination = None\<rparr>
      | FileUnreadable \<Rightarrow> Inl ConfigUnreadable)"

text \<open>\<^verbatim>\<open>trim_end_matches\<close> with a text removes it as often as it is there.\<close>

function trim_end_text :: "rstring \<Rightarrow> rstring \<Rightarrow> rstring" where
  "trim_end_text suf s =
     (case strip_suffix suf s of
        Some rest \<Rightarrow> if length rest < length s then trim_end_text suf rest else s
      | None \<Rightarrow> s)"
  by pat_completeness auto
termination
  by (relation "measure (\<lambda>(suf, s). length s)") auto

definition default_alias :: "machine \<Rightarrow> rstring" where
  "default_alias M = trim_end_text (lit ''.local'') (mc_hostname M)"

text \<open>\<^verbatim>\<open>Path::strip_prefix\<close> of the component \<^verbatim>\<open>~\<close>; a path is its text with \<^verbatim>\<open>/\<close> between components.\<close>

definition expand_tilde :: "machine \<Rightarrow> rstring \<Rightarrow> rstring" where
  "expand_tilde M path =
     (case (split_on 47 path, mc_home M) of
        (first # rest, Some home) \<Rightarrow>
          if first = lit ''~'' then home @ 47 # join_with 47 (filter (\<lambda>c. c \<noteq> [] \<and> c \<noteq> lit ''.'') rest) else path
      | _ \<Rightarrow> path)"

definition load_with_fallback :: "machine \<Rightarrow> read_file \<Rightarrow> args \<Rightarrow> (resolved_config, storage_error) result" where
  "load_with_fallback M file_text a =
     and_then (config_load M file_text) (\<lambda>c. Inr
       \<lparr>rc_alias = (case (ar_alias a, cf_alias c) of (Some x, _) \<Rightarrow> x | (None, Some x) \<Rightarrow> x
          | (None, None) \<Rightarrow> default_alias M),
        rc_port = (case (ar_port a, cf_port c) of (Some x, _) \<Rightarrow> x | (None, Some x) \<Rightarrow> x
          | (None, None) \<Rightarrow> CLI_DEFAULT_PORT),
        rc_destination = (case (ar_destination a, cf_destination c) of
            (Some x, _) \<Rightarrow> expand_tilde M x
          | (None, Some x) \<Rightarrow> expand_tilde M x
          | (None, None) \<Rightarrow> (case mc_downloads M of Some d \<Rightarrow> d | None \<Rightarrow> lit ''.''))\<rparr>)"

definition storage_dir :: "machine \<Rightarrow> rstring" where
  "storage_dir M =
     (let base = (case mc_xdg_config M of
           Some x \<Rightarrow> if take 1 x = [47] then Some x else map_option (\<lambda>h. h @ lit ''/.config'') (mc_home M)
         | None \<Rightarrow> map_option (\<lambda>h. h @ lit ''/.config'') (mc_home M))
      in (case base of Some b \<Rightarrow> b | None \<Rightarrow> lit ''.'') @ lit ''/fireboxtransfer-cli'')"

section \<open>Identity\<close>

record identity =
  id_alias :: rstring
  id_port :: u16
  id_cert_pem :: rstring
  id_key_pem :: rstring
  id_fingerprint :: rstring

text \<open>
  PEM: the blocks of a text with their tags, a block as text; whether a key is usable; and
  a freshly generated certificate with its fingerprint.
\<close>

type_synonym pem_block = "rstring \<times> byte list"

record pem_ext =
  pe_parse_many :: "rstring \<Rightarrow> pem_block list option"
  pe_encode :: "pem_block \<Rightarrow> rstring"
  pe_key_ok :: "rstring \<Rightarrow> bool"
  pe_generate :: "(rstring \<times> rstring \<times> rstring) option"
  pe_sha256 :: "byte list \<Rightarrow> byte list"

definition ends_with :: "rstring \<Rightarrow> rstring \<Rightarrow> bool" where
  "ends_with s suf \<longleftrightarrow> strip_suffix suf s \<noteq> None"

definition identity_from_pem :: "pem_ext \<Rightarrow> rstring \<Rightarrow> rstring \<Rightarrow> u16 \<Rightarrow> identity option" where
  "identity_from_pem E content name port =
     Option.bind (pe_parse_many E content) (\<lambda>blocks.
     Option.bind (find (\<lambda>b. fst b = lit ''CERTIFICATE'') blocks) (\<lambda>cert.
     Option.bind (find (\<lambda>b. ends_with (fst b) (lit ''PRIVATE KEY'')) blocks) (\<lambda>key.
       if pe_key_ok E (pe_encode E key) then
         Some \<lparr>id_alias = name, id_port = port, id_cert_pem = pe_encode E cert, id_key_pem = pe_encode E key,
           id_fingerprint = fingerprint_from_cert_der (pe_sha256 E) (snd cert)\<rparr>
       else None)))"

definition identity_generate :: "pem_ext \<Rightarrow> rstring \<Rightarrow> u16 \<Rightarrow> identity option" where
  "identity_generate E name port =
     map_option (\<lambda>(cert_pem, key_pem, fingerprint). \<lparr>id_alias = name, id_port = port, id_cert_pem = cert_pem,
       id_key_pem = key_pem, id_fingerprint = fingerprint\<rparr>) (pe_generate E)"

definition identity_text :: "identity \<Rightarrow> rstring" where
  "identity_text i = id_cert_pem i @ id_key_pem i"

text \<open>
  Saving creates the file, which must not exist, and writes it; a failed write leaves a part.
  The second component is what the file holds afterwards.
\<close>

datatype save_outcome = NotCreated | SaveTorn nat | SaveDone

definition load_or_generate ::
  "pem_ext \<Rightarrow> save_outcome \<Rightarrow> read_file \<Rightarrow> rstring \<Rightarrow> u16 \<Rightarrow> (identity, storage_error) result \<times> read_file"
where
  "load_or_generate E saved file_text name port =
     (case file_text of
        FileText content \<Rightarrow> (ok_or (identity_from_pem E content name port) InvalidIdentity, file_text)
      | FileMissing \<Rightarrow>
          (case identity_generate E name port of
             None \<Rightarrow> (Inl IdentityNotGenerated, FileMissing)
           | Some i \<Rightarrow>
               (case saved of
                  NotCreated \<Rightarrow> (Inl IdentityNotSaved, FileMissing)
                | SaveTorn n \<Rightarrow> (Inl IdentityNotSaved, FileText (take n (identity_text i)))
                | SaveDone \<Rightarrow> (Inr i, FileText (identity_text i))))
      | FileUnreadable \<Rightarrow> (Inl IdentityUnreadable, file_text))"

section \<open>What the identity shows\<close>

definition identity_register_dto :: "identity \<Rightarrow> register_dto_v2" where
  "identity_register_dto i =
     \<lparr>r2_alias = id_alias i, r2_version = PROTOCOL_VERSION_V2, r2_device_model = Some (lit ''CLI''),
      r2_device_type = Some Headless, r2_fingerprint = id_fingerprint i, r2_port = id_port i,
      r2_protocol = Https, r2_download = False\<rparr>"

definition identity_multicast_device :: "identity \<Rightarrow> multicast_device" where
  "identity_multicast_device i =
     \<lparr>md_alias = id_alias i, md_version = PROTOCOL_VERSION_V2, md_device_model = Some (lit ''CLI''),
      md_device_type = Some Headless, md_fingerprint = id_fingerprint i, md_port = id_port i,
      md_protocol = Https, md_download = False\<rparr>"

section \<open>Loading everything\<close>

record repository =
  rp_dir :: rstring
  rp_destination :: rstring
  rp_identity :: identity
  rp_paired :: paired_map

definition repository_load ::
  "machine \<Rightarrow> json_paired \<Rightarrow> pem_ext \<Rightarrow> bool \<Rightarrow> save_outcome \<Rightarrow> read_file \<Rightarrow> read_file \<Rightarrow> read_file \<Rightarrow> args \<Rightarrow>
   (repository, storage_error) result"
where
  "repository_load M J E created saved config_file paired_file identity_file a =
     and_then (ensure created DirectoryNotCreated) (\<lambda>_.
     and_then (load_with_fallback M config_file a) (\<lambda>c.
     and_then (paired_load J paired_file) (\<lambda>paired.
     and_then (fst (load_or_generate E saved identity_file (rc_alias c) (rc_port c))) (\<lambda>i. Inr
       \<lparr>rp_dir = storage_dir M, rp_destination = rc_destination c, rp_identity = i, rp_paired = paired\<rparr>))))"

section \<open>Reference descriptions\<close>

definition paired_json :: "json_paired \<Rightarrow> bool" where
  "paired_json J \<longleftrightarrow>
     (\<forall>m. jp_version J (jp_pretty J (PAIRED_DEVICES_VERSION, m)) = Some PAIRED_DEVICES_VERSION \<and>
          jp_file J (jp_pretty J (PAIRED_DEVICES_VERSION, m)) = Some m)"

definition disk_reads :: "json_paired \<Rightarrow> paired_disk \<Rightarrow> (paired_map, storage_error) result" where
  "disk_reads J d = paired_load J (case dk_main d of Some content \<Rightarrow> FileText content | None \<Rightarrow> FileMissing)"

definition saved_well :: "paired_op \<times> write_outcome \<times> bool \<Rightarrow> bool" where
  "saved_well op = (case op of (_, written, renamed) \<Rightarrow> written = WriteDone \<and> renamed)"

text \<open>What the operations mean for the map from fingerprints to devices.\<close>

fun op_meaning :: "paired_op \<Rightarrow> (rstring \<Rightarrow> paired_device option) \<Rightarrow> rstring \<Rightarrow> paired_device option" where
  "op_meaning (OpInsert fp name cs) m = m(fp \<mapsto> \<lparr>pd_alias = name, pd_channels = cs\<rparr>)"
| "op_meaning (OpUpdate fp name cs) m =
     (if m fp = None then m else m(fp \<mapsto> \<lparr>pd_alias = name, pd_channels = cs\<rparr>))"
| "op_meaning (OpRemove fp) m = m(fp := None)"

definition keys_sorted :: "paired_map \<Rightarrow> bool" where
  "keys_sorted m \<longleftrightarrow> sorted_wrt (<) (map fst m)"

section \<open>Lemmas\<close>

lemma map_of_tree_insert: "map_of (tree_insert k v m) = (map_of m)(k \<mapsto> v)"
  by (induction k v m rule: tree_insert.induct) auto

lemma tree_insert_keys: "set (map fst (tree_insert k v m)) = insert k (set (map fst m))"
  by (induction k v m rule: tree_insert.induct) auto

lemma tree_insert_sorted: "keys_sorted m \<Longrightarrow> keys_sorted (tree_insert k v m)"
proof (induction k v m rule: tree_insert.induct)
  case (2 k v j w m)
  then show ?case
    using tree_insert_keys [of k v m] by (auto simp: keys_sorted_def)
qed (simp add: keys_sorted_def)

lemma map_of_tree_remove: "map_of (tree_remove k m) = (map_of m)(k := None)"
  by (rule ext, induction m) (auto simp: tree_remove_def)

lemma tree_remove_sorted: "keys_sorted m \<Longrightarrow> keys_sorted (tree_remove k m)"
  by (induction m) (auto simp: keys_sorted_def tree_remove_def)

lemma map_of_update:
  "map_of (map (\<lambda>(k, v). if k = fp then (k, f v) else (k, v)) m) =
     (case map_of m fp of None \<Rightarrow> map_of m | Some v \<Rightarrow> (map_of m)(fp \<mapsto> f v))"
  by (rule ext, induction m) (auto split: option.splits if_splits)

lemma update_sorted: "keys_sorted m \<Longrightarrow> keys_sorted (map (\<lambda>(k, v). if k = fp then (k, f v) else (k, v)) m)"
  by (simp add: keys_sorted_def comp_def case_prod_unfold if_distrib [of fst] cong: if_cong)

lemma save_devices_memory [simp]: "pv_devices (snd (save_devices J w r m p)) = m"
  by (simp add: save_devices_def split: prod.split)

lemma save_devices_result: "save_devices J w r m p = (x, q) \<Longrightarrow> pv_devices q = m"
  using save_devices_memory [of J w r m p] by simp

lemma step_memory:
  "map_of (pv_devices (paired_step J (op, w, r) p)) = op_meaning op (map_of (pv_devices p))"
  "keys_sorted (pv_devices p) \<Longrightarrow> keys_sorted (pv_devices (paired_step J (op, w, r) p))"
proof -
  show "map_of (pv_devices (paired_step J (op, w, r) p)) = op_meaning op (map_of (pv_devices p))"
  proof (cases op)
    case (OpUpdate fp name cs)
    have same: "(map_of (pv_devices p))(fp \<mapsto> \<lparr>pd_alias = name, pd_channels = cs\<rparr>) = map_of (pv_devices p)"
      if "map_of (pv_devices p) fp = Some d" "pd_alias d = name" "pd_channels d = cs" for d
      using that by (cases d) (auto simp: fun_eq_iff)
    then show ?thesis
      using OpUpdate
      by (auto simp: paired_update_def map_of_update split: option.split)
  qed (auto simp: paired_insert_def paired_remove_def map_of_tree_insert map_of_tree_remove
        split: option.split prod.split dest!: save_devices_result)
  show "keys_sorted (pv_devices p) \<Longrightarrow> keys_sorted (pv_devices (paired_step J (op, w, r) p))"
    by (cases op) (auto simp: paired_insert_def paired_update_def paired_remove_def tree_insert_sorted
        tree_remove_sorted update_sorted split: option.split prod.split
        dest!: save_devices_result)
qed

lemma disk_after_save:
  assumes "paired_json J"
  shows "disk_reads J (pv_disk (snd (save_devices J w r m p))) =
    (if w = WriteDone \<and> r then Inr m else disk_reads J (pv_disk p))"
  using assms
  by (simp add: save_devices_def paired_save_def disk_reads_def paired_load_def paired_json_def Let_def ok_or_def
      split: write_outcome.split)

lemma step_saves: "paired_step J (op, w, r) p = p \<or> (\<exists>m. paired_step J (op, w, r) p = snd (save_devices J w r m p))"
  by (cases op) (auto simp: paired_insert_def paired_update_def paired_remove_def split: option.split prod.split,
      metis snd_conv)

lemma disk_after_step:
  assumes "paired_json J"
  shows "paired_step J (op, w, r) p = p \<or>
    disk_reads J (pv_disk (paired_step J (op, w, r) p)) =
      (if w = WriteDone \<and> r then Inr (pv_devices (paired_step J (op, w, r) p)) else disk_reads J (pv_disk p))"
  using step_saves [of J op w r p] by (auto simp: disk_after_save [OF assms])

lemma run_snoc: "paired_run J (ops @ [op]) p = paired_step J op (paired_run J ops p)"
  by (simp add: paired_run_def)

lemma run_memory:
  "map_of (pv_devices (paired_run J ops p)) = foldl (\<lambda>m (op, w, r). op_meaning op m) (map_of (pv_devices p)) ops"
  "keys_sorted (pv_devices p) \<Longrightarrow> keys_sorted (pv_devices (paired_run J ops p))"
  by (induction ops rule: rev_induct) (auto simp: run_snoc step_memory paired_run_def [of J "[]"] split: prod.split)

lemma run_disk:
  assumes "paired_json J" "disk_reads J (pv_disk p) = Inr (pv_devices p)"
  shows "\<exists>k \<le> length ops. disk_reads J (pv_disk (paired_run J ops p)) = Inr (pv_devices (paired_run J (take k ops) p)) \<and>
    (list_all saved_well ops \<longrightarrow> k = length ops)"
proof (induction ops rule: rev_induct)
  case Nil
  show ?case using assms(2) by (simp add: paired_run_def)
next
  case (snoc op ops)
  then obtain k where k: "k \<le> length ops"
      "disk_reads J (pv_disk (paired_run J ops p)) = Inr (pv_devices (paired_run J (take k ops) p))"
      "list_all saved_well ops \<longrightarrow> k = length ops" by blast
  obtain o1 w r where op: "op = (o1, w, r)" by (cases op)
  let ?q = "paired_run J ops p"
  from disk_after_step [OF assms(1), of o1 w r ?q] consider
      (same) "paired_step J op ?q = ?q"
    | (saved) "w = WriteDone" r "disk_reads J (pv_disk (paired_step J op ?q)) = Inr (pv_devices (paired_step J op ?q))"
    | (kept) "\<not> (w = WriteDone \<and> r)" "disk_reads J (pv_disk (paired_step J op ?q)) = disk_reads J (pv_disk ?q)"
    unfolding op by (auto split: if_splits)
  then show ?case
  proof cases
    case same
    show ?thesis
    proof (cases "list_all saved_well (ops @ [op])")
      case True
      then have "k = length ops" using k(3) by simp
      then show ?thesis using k(2) same by (intro exI [of _ "Suc k"]) (simp add: run_snoc)
    next
      case False
      then show ?thesis using k same by (intro exI [of _ k]) (simp add: run_snoc)
    qed
  next
    case saved
    then show ?thesis by (intro exI [of _ "Suc (length ops)"]) (simp add: run_snoc)
  next
    case kept
    then show ?thesis using k op by (intro exI [of _ k]) (auto simp: run_snoc saved_well_def)
  qed
qed

section \<open>Theorems\<close>

text \<open>
  C25. The paired devices survive every failure of the disk: in memory they are exactly what
  the operations mean, sorted by fingerprint; and whatever was torn or not renamed, the
  file always reads back as the devices after some prefix of the operations, after all of
  them when nothing failed.
\<close>

theorem paired_file_never_torn:
  assumes "paired_json J" "disk_reads J (pv_disk p) = Inr (pv_devices p)" "keys_sorted (pv_devices p)"
  shows "map_of (pv_devices (paired_run J ops p)) = foldl (\<lambda>m (op, w, r). op_meaning op m) (map_of (pv_devices p)) ops \<and>
    keys_sorted (pv_devices (paired_run J ops p)) \<and>
    (\<exists>k \<le> length ops. disk_reads J (pv_disk (paired_run J ops p)) = Inr (pv_devices (paired_run J (take k ops) p)) \<and>
      (if list_all saved_well ops then k = length ops else True))"
  using run_memory [where J = J and ops = ops and p = p] assms(3) run_disk [OF assms(1,2), of ops] by auto

text \<open>A codec for the witness: every text and list after its length.\<close>

definition demo_channel :: "paired_channel \<Rightarrow> rstring" where
  "demo_channel c = [unat (pch_port c), if pch_protocol c = Https then 1 else 0, length (pch_host c)] @ pch_host c"

definition demo_paired :: "rstring \<times> paired_device \<Rightarrow> rstring" where
  "demo_paired e = [length (fst e), length (pd_alias (snd e)), length (pd_channels (snd e))] @ fst e @ pd_alias (snd e) @
     concat (map demo_channel (pd_channels (snd e)))"

fun demo_unchannels :: "nat \<Rightarrow> rstring \<Rightarrow> paired_channel list \<times> rstring" where
  "demo_unchannels (Suc n) (port # proto # len # s) =
     (let (cs, rest) = demo_unchannels n (drop len s)
      in (\<lparr>pch_host = take len s, pch_port = of_nat port, pch_protocol = if proto = 1 then Https else Http\<rparr> # cs, rest))"
| "demo_unchannels n s = ([], s)"

fun demo_unpaired :: "nat \<Rightarrow> rstring \<Rightarrow> paired_map" where
  "demo_unpaired (Suc n) (a # b # k # s) =
     (let (cs, rest) = demo_unchannels k (drop (a + b) s)
      in (take a s, \<lparr>pd_alias = take b (drop a s), pd_channels = cs\<rparr>) # demo_unpaired n rest)"
| "demo_unpaired n s = []"

definition demo_json_paired :: json_paired where
  "demo_json_paired = \<lparr>jp_version = (\<lambda>s. Some (of_nat (hd s))), jp_file = (\<lambda>s. Some (demo_unpaired (s ! 1) (drop 2 s))),
     jp_pretty = (\<lambda>(v, m). [unat v, length m] @ concat (map demo_paired m))\<rparr>"

lemma demo_unchannels_inverse: "demo_unchannels (length cs) (concat (map demo_channel cs) @ rest) = (cs, rest)"
proof (induction cs)
  case (Cons c cs)
  have "(if (if pch_protocol c = Https then 1 else 0 :: nat) = 1 then Https else Http) = pch_protocol c"
    by (cases "pch_protocol c") simp_all
  then show ?case using Cons by (simp add: demo_channel_def)
qed simp

lemma demo_unpaired_inverse: "demo_unpaired (length m) (concat (map demo_paired m)) = m"
proof (induction m)
  case (Cons e m)
  then show ?case
    by (cases e) (simp add: demo_paired_def demo_unchannels_inverse)
qed simp

lemma demo_paired_json: "paired_json demo_json_paired"
  by (simp add: paired_json_def demo_json_paired_def demo_unpaired_inverse)

definition demo_paired_ops :: "(paired_op \<times> write_outcome \<times> bool) list" where
  "demo_paired_ops = [(OpInsert [1] [2] [], WriteDone, True), (OpRemove [1], WriteTorn 3, True)]"

definition demo_paired_start :: paired_devices where
  "demo_paired_start = \<lparr>pv_devices = [], pv_disk = \<lparr>dk_main = None, dk_temp = None\<rparr>\<rparr>"

theorem paired_file_never_torn_witness:
  "\<exists>k \<le> length demo_paired_ops.
     disk_reads demo_json_paired (pv_disk (paired_run demo_json_paired demo_paired_ops demo_paired_start)) =
       Inr (pv_devices (paired_run demo_json_paired (take k demo_paired_ops) demo_paired_start))"
proof -
  have start: "disk_reads demo_json_paired (pv_disk demo_paired_start) = Inr (pv_devices demo_paired_start)"
      "keys_sorted (pv_devices demo_paired_start)"
    by (simp_all add: demo_paired_start_def disk_reads_def paired_load_def keys_sorted_def)
  show ?thesis
    using paired_file_never_torn [OF demo_paired_json start, of demo_paired_ops] by blast
qed

text \<open>
  An identity survives a restart: what the first run generates and saves is read back by
  the next run with the same certificate, key and fingerprint.
\<close>

theorem identity_survives_restart:
  assumes "pe_generate E = Some (pe_encode E (lit ''CERTIFICATE'', der), pe_encode E (lit ''PRIVATE KEY'', key),
      fingerprint_from_cert_der (pe_sha256 E) der)"
    and "pe_parse_many E (pe_encode E (lit ''CERTIFICATE'', der) @ pe_encode E (lit ''PRIVATE KEY'', key)) =
      Some [(lit ''CERTIFICATE'', der), (lit ''PRIVATE KEY'', key)]"
    and "pe_key_ok E (pe_encode E (lit ''PRIVATE KEY'', key))"
    and "load_or_generate E first FileMissing name port = (Inr i, file_text)"
  shows "load_or_generate E saved file_text name' port' = (Inr (i\<lparr>id_alias := name', id_port := port'\<rparr>), file_text)"
proof -
  have tags: "lit ''PRIVATE KEY'' \<noteq> lit ''CERTIFICATE''" "ends_with (lit ''PRIVATE KEY'') (lit ''PRIVATE KEY'')"
      "\<not> ends_with (lit ''CERTIFICATE'') (lit ''PRIVATE KEY'')"
    by (simp_all add: lit_def ends_with_def strip_suffix_def)
  have i: "i = \<lparr>id_alias = name, id_port = port, id_cert_pem = pe_encode E (lit ''CERTIFICATE'', der),
      id_key_pem = pe_encode E (lit ''PRIVATE KEY'', key), id_fingerprint = fingerprint_from_cert_der (pe_sha256 E) der\<rparr>"
    and content: "file_text = FileText (identity_text i)"
    using assms(1,4) by (auto simp: load_or_generate_def identity_generate_def split: save_outcome.splits)
  show ?thesis
    using assms(2,3) tags by (simp add: content i load_or_generate_def identity_text_def identity_from_pem_def ok_or_def)
qed

definition demo_pem :: pem_ext where
  "demo_pem = \<lparr>pe_parse_many = (\<lambda>s. Some [(lit ''CERTIFICATE'', [1]), (lit ''PRIVATE KEY'', [2])]),
     pe_encode = fst, pe_key_ok = (\<lambda>s. True),
     pe_generate = Some (lit ''CERTIFICATE'', lit ''PRIVATE KEY'', fingerprint_from_cert_der (\<lambda>bs. bs) [1]),
     pe_sha256 = (\<lambda>bs. bs)\<rparr>"

theorem identity_survives_restart_witness:
  "\<exists>i file_text. load_or_generate demo_pem SaveDone FileMissing [1] 2 = (Inr i, file_text) \<and>
     load_or_generate demo_pem NotCreated file_text [3] 4 = (Inr (i\<lparr>id_alias := [3], id_port := 4\<rparr>), file_text)"
proof -
  obtain i file_text where first: "load_or_generate demo_pem SaveDone FileMissing [1] 2 = (Inr i, file_text)"
    by (simp add: load_or_generate_def identity_generate_def demo_pem_def)
  moreover have "load_or_generate demo_pem NotCreated file_text [3] 4 = (Inr (i\<lparr>id_alias := [3], id_port := 4\<rparr>), file_text)"
    by (rule identity_survives_restart [of demo_pem "[1]" "[2]" SaveDone "[1]" 2]) (use first in \<open>simp_all add: demo_pem_def\<close>)
  ultimately show ?thesis by blast
qed

end
