(* ===== verification/FB_CliSend.thy ===== *)
theory FB_CliSend
  imports FB_Client FB_CliStore FB_CliUtil
begin

text \<open>
  The send task of the command line client (\<^verbatim>\<open>cli/src/send_task.rs\<close>) and the events it reports
  (\<^verbatim>\<open>cli/src/app/mod.rs\<close>): one request for the session, then one upload per accepted file, in
  the order of their names. Looking up a file the peer made up panics, which ends the task.
\<close>

section \<open>Events\<close>

datatype key_code = KeyChar rchar | KeyEsc | KeyUp | KeyDown | KeyEnter | KeyOther

record key_event =
  ke_code :: key_code
  ke_control :: bool

datatype app_event =
    KeyPressed key_event
  | ReceiveFileResult rstring rstring "(unit, rstring) result"
  | SendSessionStarted rstring u64
  | SendEnded
  | LogLine category rstring

record send_cancel =
  sc_token :: bool
  sc_by_peer :: bool

section \<open>The task\<close>

text \<open>
  \<open>se_connect\<close> is the network a client reaches; \<open>se_cancelled\<close> whether the cancellation wins
  against that request and \<open>se_by_peer\<close> what is then read of its origin; \<open>se_streamed\<close> how many
  chunks of the body a request takes. Sizes and errors are formatted elsewhere.
\<close>

record send_env =
  se_ext :: ext
  se_client_ext :: client_ext
  se_connect :: "http_client \<Rightarrow> network"
  se_cancelled :: "nat \<Rightarrow> bool"
  se_by_peer :: bool
  se_content :: "rstring \<Rightarrow> file_content"
  se_streamed :: "nat \<Rightarrow> nat"
  se_elapsed :: nat
  se_format_bytes :: "u64 \<Rightarrow> rstring"
  se_show_error :: "client_error \<Rightarrow> rstring"

datatype send_request = ReqUpload rstring rstring rstring "byte list list" | ReqCancel rstring

record send_io =
  sn_events :: "app_event list"
  sn_requests :: "send_request list"
  sn_progress :: "u64 list"

definition tell :: "app_event \<Rightarrow> send_io \<Rightarrow> send_io" where
  "tell e io = io\<lparr>sn_events := sn_events io @ [e]\<rparr>"

definition send_log :: "rstring \<Rightarrow> rstring \<Rightarrow> send_io \<Rightarrow> send_io" where
  "send_log name content = tell (LogLine CatSend (name @ lit '': '' @ content))"

definition status_reason :: "u16 \<Rightarrow> rstring option \<Rightarrow> rstring" where
  "status_reason status message =
     (if status = 401 then lit ''PIN required (not supported by the CLI)''
      else if status = 403 then lit ''Declined''
      else if status = 409 then lit ''Blocked by another session''
      else if status = 429 then lit ''Too many requests''
      else lit ''Request failed with status '' @ show_nat (unat status) @
        (case message of Some m \<Rightarrow> lit '': '' @ m | None \<Rightarrow> []))"

text \<open>The best channel, and a client that expects the fingerprint of the device over HTTPS.\<close>

definition send_connect ::
  "send_env \<Rightarrow> identity \<Rightarrow> stateful_device \<Rightarrow> (http_channel \<times> network, rstring) result"
where
  "send_connect E i device =
     and_then (ok_or (Option.bind (get_best_channel device) channel_http) (lit ''No dialable address'')) (\<lambda>http.
     and_then (map_err (\<lambda>e. lit ''Failed to create HTTP client: '' @ se_show_error E e)
       (create_reqwest_client (se_client_ext E) (id_key_pem i) (id_cert_pem i)
         (case hc_protocol http of Https \<Rightarrow> Some (dd_fingerprint (sd_device device)) | Http \<Rightarrow> None) None)) (\<lambda>client.
     Inr (http, se_connect E client)))"

definition prepare_failed :: "send_env \<Rightarrow> client_error \<Rightarrow> rstring" where
  "prepare_failed E e =
     (case e of
        Cancelled \<Rightarrow> lit ''Cancelled''
      | StatusCode status message \<Rightarrow> status_reason status message
      | _ \<Rightarrow> se_show_error E e)"

definition send_prepare ::
  "send_env \<Rightarrow> identity \<Rightarrow> http_channel \<Rightarrow> network \<Rightarrow> (rstring, file_dto) hash_map \<Rightarrow>
   (prepare_upload_response_dto_v2, rstring) result"
where
  "send_prepare E i http net files =
     and_then (map_err (prepare_failed E)
       (prepare_upload_call (se_ext E) (se_client_ext E) net (se_cancelled E 0) (hc_protocol http) (hc_host http)
         (hc_port http) None \<lparr>pu2_info = identity_register_dto i, pu2_files = files\<rparr> None)) (\<lambda>prepared.
     ok_or (pux2_response prepared) (lit ''all files were declined''))"

text \<open>What the task has once a session is open, or the reason why there is none.\<close>

definition send_agreement ::
  "send_env \<Rightarrow> identity \<Rightarrow> stateful_device \<Rightarrow> (rstring, file_dto) hash_map \<Rightarrow>
   (http_channel \<times> network \<times> prepare_upload_response_dto_v2, rstring) result"
where
  "send_agreement E i device files =
     and_then (send_connect E i device) (\<lambda>(http, net).
     and_then (send_prepare E i http net files) (\<lambda>response. Inr (http, net, response)))"

definition accepted_bytes :: "(rstring, file_dto) hash_map \<Rightarrow> prepare_upload_response_dto_v2 \<Rightarrow> u64" where
  "accepted_bytes files response =
     sum_list (map fd_size (List.map_filter (map_of files) (map fst (pur2_files response))))"

text \<open>
  Sorting compares, and so looks up, every file as soon as there are two; a file that was not
  offered makes it panic.
\<close>

definition sorted_file_ids ::
  "(rstring, file_dto) hash_map \<Rightarrow> prepare_upload_response_dto_v2 \<Rightarrow> rstring list option"
where
  "sorted_file_ids files response =
     (let file_ids = map fst (pur2_files response) in
      if 1 < length file_ids \<and> \<not> list_all (\<lambda>file_id. map_of files file_id \<noteq> None) file_ids then None
      else Some (sort_key (\<lambda>file_id. case map_of files file_id of Some f \<Rightarrow> fd_file_name f | None \<Rightarrow> []) file_ids))"

text \<open>The body with the progress over all files that goes with each chunk.\<close>

definition send_body :: "u64 \<Rightarrow> file_content \<Rightarrow> (byte list \<times> u64) list" where
  "send_body base content =
     map (\<lambda>(chunk, bytes_of_file). (chunk, base + bytes_of_file)) (upload_body None content)"

definition request_cancel :: "network \<Rightarrow> http_channel \<Rightarrow> rstring \<Rightarrow> send_io \<Rightarrow> send_io" where
  "request_cancel net http session_id io =
     (let ignored = cancel_call net (hc_protocol http) (hc_host http) (hc_port http) session_id
      in io\<lparr>sn_requests := sn_requests io @ [ReqCancel session_id]\<rparr>)"

definition plural :: "nat \<Rightarrow> rstring" where
  "plural n = (if n = 1 then [] else lit ''s'')"

definition upload_failed ::
  "send_env \<Rightarrow> rstring \<Rightarrow> http_channel \<Rightarrow> network \<Rightarrow> rstring \<Rightarrow> file_dto \<Rightarrow> nat \<Rightarrow> client_error \<Rightarrow> send_io \<Rightarrow> send_io"
where
  "upload_failed E name http net session_id f sent_files e io =
     (case e of
        Cancelled \<Rightarrow>
          if se_by_peer E
          then send_log name (lit ''Cancelled by receiver ('' @ show_nat sent_files @ lit '' file(s) sent)'') io
          else send_log name (lit ''Cancelled ('' @ show_nat sent_files @ lit '' file(s) sent)'')
            (request_cancel net http session_id io)
      | _ \<Rightarrow>
          request_cancel net http session_id
            (send_log name (lit ''Failed to upload '' @ fd_file_name f @ lit '': '' @ se_show_error E e) io))"

text \<open>The uploads; the result is whether the task returns.\<close>

fun upload_files ::
  "send_env \<Rightarrow> rstring \<Rightarrow> http_channel \<Rightarrow> network \<Rightarrow> prepare_upload_response_dto_v2 \<Rightarrow>
   (rstring, file_dto) hash_map \<Rightarrow> (rstring, rstring) hash_map \<Rightarrow> nat \<Rightarrow> u64 \<Rightarrow> rstring list \<Rightarrow> send_io \<Rightarrow> bool \<times> send_io"
where
  "upload_files E name http net response files paths sent_files sent_bytes [] io =
     (True, send_log name (lit ''Sent '' @ show_nat sent_files @ lit '' file'' @ plural sent_files @ lit '' ('' @
        se_format_bytes E sent_bytes @ lit '', took '' @ format_duration (se_elapsed E) @ lit '')'') io)"
| "upload_files E name http net response files paths sent_files sent_bytes (file_id # rest) io =
     (case (map_of (pur2_files response) file_id, map_of files file_id, map_of paths file_id) of
        (Some token, Some f, Some path) \<Rightarrow>
          (let body = send_body sent_bytes (se_content E path);
               io1 = io\<lparr>sn_requests := sn_requests io @
                   [ReqUpload (pur2_session_id response) file_id token (map fst body)],
                 sn_progress := sn_progress io @ map snd (take (se_streamed E sent_files) body)\<rparr>
           in case upload_call (se_ext E) (se_client_ext E) net (se_cancelled E (Suc sent_files)) (hc_protocol http)
                (hc_host http) (hc_port http) None (pur2_session_id response) file_id token (map fst body) of
               Inr _ \<Rightarrow>
                 upload_files E name http net response files paths (Suc sent_files) (sent_bytes + fd_size f) rest
                   (io1\<lparr>sn_progress := sn_progress io1 @ [sent_bytes + fd_size f]\<rparr>)
             | Inl e \<Rightarrow> (True, upload_failed E name http net (pur2_session_id response) f sent_files e io1))
      | _ \<Rightarrow> (False, io))"

definition send_session ::
  "send_env \<Rightarrow> rstring \<Rightarrow> http_channel \<Rightarrow> network \<Rightarrow> prepare_upload_response_dto_v2 \<Rightarrow>
   (rstring, file_dto) hash_map \<Rightarrow> (rstring, rstring) hash_map \<Rightarrow> send_io \<Rightarrow> bool \<times> send_io"
where
  "send_session E name http net response files paths io =
     (let io1 = tell (SendSessionStarted (pur2_session_id response) (accepted_bytes files response)) io;
          io2 = (if length (pur2_files response) < length files
            then send_log name (lit ''receiver accepted '' @ show_nat (length (pur2_files response)) @ lit '' of '' @
              show_nat (length files) @ lit '' files'') io1
            else io1)
      in case sorted_file_ids files response of
           None \<Rightarrow> (False, io2)
         | Some file_ids \<Rightarrow> upload_files E name http net response files paths 0 0 file_ids io2)"

definition send_inner ::
  "send_env \<Rightarrow> identity \<Rightarrow> stateful_device \<Rightarrow> (rstring, file_dto) hash_map \<Rightarrow> (rstring, rstring) hash_map \<Rightarrow>
   send_io \<Rightarrow> bool \<times> send_io"
where
  "send_inner E i device files paths io =
     (let name = dd_alias (sd_device device) in
      case send_agreement E i device files of
        Inl content \<Rightarrow> (True, send_log name content io)
      | Inr (http, net, response) \<Rightarrow> send_session E name http net response files paths io)"

definition run_send ::
  "send_env \<Rightarrow> identity \<Rightarrow> stateful_device \<Rightarrow> (rstring, file_dto) hash_map \<Rightarrow> (rstring, rstring) hash_map \<Rightarrow>
   send_io \<Rightarrow> send_io"
where
  "run_send E i device files paths io =
     (let (returned, io1) = send_inner E i device files paths io in if returned then tell SendEnded io1 else io1)"

definition send_start :: send_io where
  "send_start = \<lparr>sn_events = [], sn_requests = [], sn_progress = []\<rparr>"

section \<open>Reference description\<close>

definition only_offered :: "(rstring, file_dto) hash_map \<Rightarrow> prepare_upload_response_dto_v2 \<Rightarrow> bool" where
  "only_offered files response \<longleftrightarrow> list_all (\<lambda>(file_id, token). map_of files file_id \<noteq> None) (pur2_files response)"

definition file_token :: "prepare_upload_response_dto_v2 \<Rightarrow> rstring \<Rightarrow> rstring" where
  "file_token response file_id = the (map_of (pur2_files response) file_id)"

definition file_chunks :: "send_env \<Rightarrow> (rstring, rstring) hash_map \<Rightarrow> rstring \<Rightarrow> byte list list" where
  "file_chunks E paths file_id = into_receiver None (se_content E (the (map_of paths file_id)))"

text \<open>The upload of a file as the \<open>n\<close>-th one, and how it ends.\<close>

definition upload_of ::
  "send_env \<Rightarrow> prepare_upload_response_dto_v2 \<Rightarrow> (rstring, rstring) hash_map \<Rightarrow> rstring \<Rightarrow> send_request"
where
  "upload_of E response paths file_id =
     ReqUpload (pur2_session_id response) file_id (file_token response file_id) (file_chunks E paths file_id)"

definition outcome_of ::
  "send_env \<Rightarrow> http_channel \<Rightarrow> network \<Rightarrow> prepare_upload_response_dto_v2 \<Rightarrow> (rstring, rstring) hash_map \<Rightarrow>
   nat \<Rightarrow> rstring \<Rightarrow> (unit, client_error) result"
where
  "outcome_of E http net response paths n file_id =
     upload_call (se_ext E) (se_client_ext E) net (se_cancelled E (Suc n)) (hc_protocol http) (hc_host http)
       (hc_port http) None (pur2_session_id response) file_id (file_token response file_id) (file_chunks E paths file_id)"

text \<open>
  The requests of the uploads from the \<open>n\<close>-th on: up to the first that fails, which is followed
  by a cancel unless the receiver itself has cancelled.
\<close>

fun expected_requests ::
  "send_env \<Rightarrow> http_channel \<Rightarrow> network \<Rightarrow> prepare_upload_response_dto_v2 \<Rightarrow> (rstring, rstring) hash_map \<Rightarrow>
   nat \<Rightarrow> rstring list \<Rightarrow> send_request list"
where
  "expected_requests E http net response paths n [] = []"
| "expected_requests E http net response paths n (file_id # rest) =
     upload_of E response paths file_id #
     (case outcome_of E http net response paths n file_id of
        Inr _ \<Rightarrow> expected_requests E http net response paths (Suc n) rest
      | Inl e \<Rightarrow> if e = Cancelled \<and> se_by_peer E then [] else [ReqCancel (pur2_session_id response)])"

section \<open>Lemmas\<close>

lemma sent_chunks [simp]: "map fst (send_body base content) = into_receiver None content"
proof -
  have "map fst (send_body base content) = map fst (upload_body None content)"
    by (simp add: send_body_def comp_def case_prod_beta)
  then show ?thesis by (simp add: upload_body_def map_fst_with_progress)
qed

lemma tell_simps [simp]:
  "sn_events (tell e io) = sn_events io @ [e]" "sn_requests (tell e io) = sn_requests io"
  "sn_events (send_log name content io) = sn_events io @ [LogLine CatSend (name @ lit '': '' @ content)]"
  "sn_requests (send_log name content io) = sn_requests io"
  "sn_events (request_cancel net http session_id io) = sn_events io"
  "sn_requests (request_cancel net http session_id io) = sn_requests io @ [ReqCancel session_id]"
  by (simp_all add: tell_def send_log_def request_cancel_def)

text \<open>Events of a task that has not ended.\<close>

definition no_end :: "send_io \<Rightarrow> bool" where
  "no_end io \<longleftrightarrow> SendEnded \<notin> set (sn_events io)"

lemma no_end_simps [simp]:
  "no_end send_start" "no_end (send_log name content io) = no_end io"
  "no_end (request_cancel net http session_id io) = no_end io"
  "no_end (tell (SendSessionStarted session_id n) io) = no_end io"
  "no_end (io\<lparr>sn_requests := reqs\<rparr>) = no_end io" "no_end (io\<lparr>sn_progress := ps\<rparr>) = no_end io"
  by (simp_all add: no_end_def send_start_def send_log_def request_cancel_def tell_def)

lemma upload_failed_requests:
  "sn_requests (upload_failed E name http net session_id f n e io) =
     sn_requests io @ (if e = Cancelled \<and> se_by_peer E then [] else [ReqCancel session_id])"
  by (simp add: upload_failed_def split: client_error.split)

lemma upload_failed_no_end [simp]: "no_end (upload_failed E name http net session_id f n e io) = no_end io"
  by (simp add: upload_failed_def split: client_error.split)

lemma upload_files_no_end [simp]:
  "no_end (snd (upload_files E name http net response files paths n b ids io)) = no_end io"
  by (induction E name http net response files paths n b ids io rule: upload_files.induct)
    (simp_all add: Let_def split: option.split sum.split)

lemma uploads_reference:
  assumes "\<And>file_id. file_id \<in> set ids \<Longrightarrow>
      map_of (pur2_files response) file_id \<noteq> None \<and> map_of files file_id \<noteq> None \<and> map_of paths file_id \<noteq> None"
  shows "fst (upload_files E name http net response files paths n b ids io) \<and>
    sn_requests (snd (upload_files E name http net response files paths n b ids io)) =
      sn_requests io @ expected_requests E http net response paths n ids"
  using assms
proof (induction ids arbitrary: n b io)
  case (Cons file_id ids)
  from Cons.prems obtain token f path where known:
      "map_of (pur2_files response) file_id = Some token" "map_of files file_id = Some f" "map_of paths file_id = Some path"
    by fastforce
  from Cons show ?case
    by (simp add: known Let_def outcome_of_def upload_of_def file_token_def file_chunks_def upload_failed_requests
        split: sum.split)
qed simp

lemma unknown_panics:
  assumes "file_id \<in> set ids" "map_of files file_id = None" "length ids \<le> 1"
  shows "\<not> fst (upload_files E name http net response files paths n b ids io) \<and>
    sn_requests (snd (upload_files E name http net response files paths n b ids io)) = sn_requests io"
proof -
  from assms obtain "ids = [file_id]" by (cases ids) auto
  with assms(2) show ?thesis by (simp split: option.split)
qed

text \<open>The session on its own, when every accepted file was offered and when not.\<close>

lemma session_reference:
  assumes "map fst paths = map fst files" "only_offered files response"
  shows "fst (send_session E name http net response files paths io) \<and>
    sn_requests (snd (send_session E name http net response files paths io)) = sn_requests io @
      expected_requests E http net response paths 0
        (sort_key (\<lambda>file_id. case map_of files file_id of Some f \<Rightarrow> fd_file_name f | None \<Rightarrow> [])
          (map fst (pur2_files response)))"
proof -
  have same: "map_of paths file_id = None \<longleftrightarrow> map_of files file_id = None" for file_id
    using assms(1) by (simp add: map_of_eq_None_iff flip: set_map)
  have known: "map_of (pur2_files response) file_id \<noteq> None \<and> map_of files file_id \<noteq> None \<and> map_of paths file_id \<noteq> None"
    if "file_id \<in> set (map fst (pur2_files response))" for file_id
    using that assms(2) same by (auto simp: only_offered_def list_all_iff map_of_eq_None_iff)
  have all: "list_all (\<lambda>file_id. map_of files file_id \<noteq> None) (map fst (pur2_files response))"
    using known by (simp add: list_all_iff)
  show ?thesis
    using uploads_reference [of "sort_key (\<lambda>file_id. case map_of files file_id of Some f \<Rightarrow> fd_file_name f | None \<Rightarrow> [])
          (map fst (pur2_files response))" response files paths] known all
    by (simp add: send_session_def sorted_file_ids_def Let_def)
qed

lemma session_panics:
  assumes "\<not> only_offered files response"
  shows "\<not> fst (send_session E name http net response files paths io) \<and>
    sn_requests (snd (send_session E name http net response files paths io)) = sn_requests io"
proof -
  obtain file_id where bad: "file_id \<in> set (map fst (pur2_files response))" "map_of files file_id = None"
    using assms by (force simp: only_offered_def list_all_iff)
  then have all: "\<not> list_all (\<lambda>file_id. map_of files file_id \<noteq> None) (map fst (pur2_files response))"
    by (auto simp: list_all_iff)
  show ?thesis
  proof (cases "length (pur2_files response) \<le> 1")
    case False
    then show ?thesis using all by (simp add: send_session_def sorted_file_ids_def Let_def)
  next
    case True
    let ?ids = "sort_key (\<lambda>file_id. case map_of files file_id of Some f \<Rightarrow> fd_file_name f | None \<Rightarrow> [])
          (map fst (pur2_files response))"
    have "file_id \<in> set ?ids" "length ?ids \<le> 1" using bad(1) True by simp_all
    then show ?thesis
      using unknown_panics [of file_id ?ids files] bad(2) True
      by (simp add: send_session_def sorted_file_ids_def Let_def)
  qed
qed

lemma session_no_end [simp]:
  "no_end (snd (send_session E name http net response files paths io)) = no_end io"
  by (simp add: send_session_def Let_def split: option.split)

lemma run_send_cases:
  "run_send E i device files paths io =
     (case send_agreement E i device files of
        Inl reason \<Rightarrow> tell SendEnded (send_log (dd_alias (sd_device device)) reason io)
      | Inr (http, net, response) \<Rightarrow>
          (let (returned, io1) = send_session E (dd_alias (sd_device device)) http net response files paths io
           in if returned then tell SendEnded io1 else io1))"
  by (simp add: run_send_def send_inner_def Let_def split: sum.split prod.split)

lemma requests_of_session:
  assumes "map fst paths = map fst files" "only_offered files response"
    and "send_agreement E i device files = Inr (http, net, response)"
  shows "sn_requests (run_send E i device files paths send_start) =
    expected_requests E http net response paths 0
      (sort_key (\<lambda>file_id. case map_of files file_id of Some f \<Rightarrow> fd_file_name f | None \<Rightarrow> [])
        (map fst (pur2_files response)))"
  using session_reference [OF assms(1,2), of E "dd_alias (sd_device device)" http net send_start]
  by (simp add: run_send_cases assms(3) case_prod_beta send_start_def)

section \<open>Properties\<close>

text \<open>
  C12. The task sends exactly what was agreed: without a session nothing, and the reason is
  reported; in a session the accepted files one by one in the order of their names, each with
  its token and its content, up to the first failure, which is followed by one cancel unless
  the receiver has cancelled; and nothing at all when the receiver names a file not offered.
\<close>

theorem send_uploads_reference:
  assumes "map fst paths = map fst files"
  shows "case send_agreement E i device files of
      Inl reason \<Rightarrow>
        sn_requests (run_send E i device files paths send_start) = [] \<and>
        sn_events (run_send E i device files paths send_start) =
          [LogLine CatSend (dd_alias (sd_device device) @ lit '': '' @ reason), SendEnded]
    | Inr (http, net, response) \<Rightarrow>
        sn_requests (run_send E i device files paths send_start) =
          (if only_offered files response
           then expected_requests E http net response paths 0
             (sort_key (\<lambda>file_id. case map_of files file_id of Some f \<Rightarrow> fd_file_name f | None \<Rightarrow> [])
               (map fst (pur2_files response)))
           else [])"
proof (cases "send_agreement E i device files")
  case (Inl reason)
  then show ?thesis by (simp add: run_send_cases send_start_def)
next
  case (Inr answer)
  obtain http net response where answer: "answer = (http, net, response)" by (cases answer)
  show ?thesis
    using requests_of_session [OF assms, of response E i device http net]
      session_panics [of files response E "dd_alias (sd_device device)" http net paths send_start]
    by (simp add: run_send_cases Inr answer case_prod_beta send_start_def)
qed

definition demo_connect :: "http_client \<Rightarrow> network" where
  "demo_connect c req =
     (case cl_verifier c of
        None \<Rightarrow> demo_net req
      | Some v \<Rightarrow> if is_ok (verify_server_cert demo_keyed_ext demo_client_ext v [1, 2, 3]) then demo_net req else None)"

definition demo_send_env :: "rstring \<Rightarrow> send_env" where
  "demo_send_env file_id =
     \<lparr>se_ext = demo_keyed_ext,
      se_client_ext = demo_client_ext\<lparr>cx_prepare_upload := (\<lambda>_. Some \<lparr>pur2_session_id = lit ''s'', pur2_files = [(file_id, lit ''t'')]\<rparr>)\<rparr>,
      se_connect = demo_connect, se_cancelled = (\<lambda>_. False), se_by_peer = False,
      se_content = (\<lambda>path. ContentStream [[1, 2], [3]]), se_streamed = (\<lambda>_. 2), se_elapsed = 1,
      se_format_bytes = (\<lambda>_. []), se_show_error = (\<lambda>_. [])\<rparr>"

definition demo_identity :: identity where
  "demo_identity = \<lparr>id_alias = lit ''me'', id_port = 1, id_cert_pem = [1], id_key_pem = [2], id_fingerprint = lit ''AA''\<rparr>"

definition demo_send_peer :: "protocol_type \<Rightarrow> stateful_device" where
  "demo_send_peer protocol =
     confirm_new \<lparr>dd_alias = lit ''peer'', dd_version = [], dd_device_model = None, dd_device_type = None,
       dd_fingerprint = lit ''03'',
       dd_channel = ChannelHttp \<lparr>hc_host = lit ''h'', hc_port = 2, hc_protocol = protocol\<rparr>, dd_download = False\<rparr> 0"

definition demo_send_file :: file_dto where
  "demo_send_file = \<lparr>fd_id = lit ''f'', fd_file_name = lit ''n'', fd_size = 3, fd_file_type = [], fd_sha256 = None,
     fd_preview = None, fd_metadata = None\<rparr>"

definition demo_answer :: "rstring \<Rightarrow> prepare_upload_response_dto_v2" where
  "demo_answer file_id = \<lparr>pur2_session_id = lit ''s'', pur2_files = [(file_id, lit ''t'')]\<rparr>"

text \<open>A session is opened, with or without encryption.\<close>

lemma demo_best: "Option.bind (get_best_channel (demo_send_peer protocol)) channel_http =
    Some \<lparr>hc_host = lit ''h'', hc_port = 2, hc_protocol = protocol\<rparr>"
  by (simp add: demo_send_peer_def confirm_new_def get_best_channel_def get_ranked_channels_def)

lemma demo_verified: "verify_server_cert demo_keyed_ext demo_client_ext \<lparr>pv_expected_fingerprint = Some (lit ''03'')\<rparr> [1, 2, 3] = Inr ()"
    "verify_server_cert demo_keyed_ext demo_client_ext \<lparr>pv_expected_fingerprint = None\<rparr> [1, 2, 3] = Inr ()"
    "to_ascii_uppercase (lit ''03'') = lit ''03''"
  by code_simp+

lemma demo_session:
  "\<exists>net. send_agreement (demo_send_env file_id) demo_identity (demo_send_peer protocol) files =
     Inr (\<lparr>hc_host = lit ''h'', hc_port = 2, hc_protocol = protocol\<rparr>, net, demo_answer file_id) \<and>
     net = demo_net"
proof -
  have net: "demo_connect \<lparr>cl_verifier = Some \<lparr>pv_expected_fingerprint = fp\<rparr>, cl_identity = cert, cl_timeout = t\<rparr> = demo_net"
    if "fp \<in> {None, Some (lit ''03'')}" for fp cert t
    using that by (auto simp: fun_eq_iff demo_connect_def demo_verified is_ok_def)
  have name: "dd_fingerprint (sd_device (demo_send_peer p)) = lit ''03''" for p
    by (simp add: demo_send_peer_def confirm_new_def)
  show ?thesis
    by (cases protocol)
      (simp_all add: send_agreement_def send_connect_def demo_best name create_reqwest_client_def pinned_verifier_new_def
        demo_send_env_def demo_client_ext_def demo_identity_def ok_or_def ensure_def map_err_def demo_verified net
        send_prepare_def prepare_upload_call_def demo_net_def verify_peer_def verify_cert_from_res_def
        peer_certificate_def verify_cert_from_der_def verify_cert_from_cert_def demo_keyed_ext_def response_json_def
        response_bytes_def demo_answer_def)
qed

theorem send_uploads_reference_witness:
  "sn_requests (run_send (demo_send_env (lit ''f'')) demo_identity (demo_send_peer Http) [(lit ''f'', demo_send_file)]
     [(lit ''f'', lit ''p'')] send_start) = [ReqUpload (lit ''s'') (lit ''f'') (lit ''t'') [[1, 2], [3]]]"
proof -
  have known: "only_offered [(lit ''f'', demo_send_file)] (demo_answer (lit ''f''))"
    by (simp add: only_offered_def demo_answer_def)
  have requests: "expected_requests (demo_send_env (lit ''f'')) http demo_net (demo_answer (lit ''f'')) [(lit ''f'', lit ''p'')] 0
      (sort_key k (map fst (pur2_files (demo_answer (lit ''f''))))) =
      [ReqUpload (lit ''s'') (lit ''f'') (lit ''t'') [[1, 2], [3]]]" if "hc_protocol http = Http" for http :: http_channel and k :: "rstring \<Rightarrow> rstring"
    using that
    by (simp add: demo_answer_def demo_send_env_def upload_of_def outcome_of_def file_token_def file_chunks_def
        upload_call_def demo_net_def verify_peer_def ok_or_def)
  show ?thesis
    using send_uploads_reference [of "[(lit ''f'', lit ''p'')]" "[(lit ''f'', demo_send_file)]" "demo_send_env (lit ''f'')"
        demo_identity "demo_send_peer Http"] demo_session [of "lit ''f''" Http "[(lit ''f'', demo_send_file)]"]
    by (auto simp: known requests)
qed

text \<open>
  C39. The end of a send is reported exactly when the receiver answered only with files it was
  offered: an answer that names any other file ends the task with a panic and without the
  event the application waits for.
\<close>

theorem send_ended_iff:
  assumes "map fst paths = map fst files"
  shows "SendEnded \<in> set (sn_events (run_send E i device files paths send_start)) \<longleftrightarrow>
    (case send_agreement E i device files of
       Inl reason \<Rightarrow> True
     | Inr (http, net, response) \<Rightarrow> only_offered files response)"
proof (cases "send_agreement E i device files")
  case (Inl reason)
  then show ?thesis by (simp add: run_send_cases)
next
  case (Inr answer)
  obtain http net response where answer: "answer = (http, net, response)" by (cases answer)
  have "no_end (snd (send_session E (dd_alias (sd_device device)) http net response files paths send_start))"
    by simp
  then show ?thesis
    using session_reference [OF assms, of response E "dd_alias (sd_device device)" http net send_start]
      session_panics [of files response E "dd_alias (sd_device device)" http net paths send_start]
    by (cases "only_offered files response") (simp_all add: run_send_cases Inr answer case_prod_beta no_end_def)
qed

theorem send_ended_iff_witness:
  "SendEnded \<notin> set (sn_events (run_send (demo_send_env (lit ''x'')) demo_identity (demo_send_peer Http)
     [(lit ''f'', demo_send_file)] [(lit ''f'', lit ''p'')] send_start))"
proof -
  have unknown: "\<not> only_offered [(lit ''f'', demo_send_file)] (demo_answer (lit ''x''))"
    by (simp add: only_offered_def demo_answer_def lit_def)
  show ?thesis
    using send_ended_iff [of "[(lit ''f'', lit ''p'')]" "[(lit ''f'', demo_send_file)]" "demo_send_env (lit ''x'')"
        demo_identity "demo_send_peer Http"] demo_session [of "lit ''x''" Http "[(lit ''f'', demo_send_file)]"]
    by (auto simp: unknown)
qed

text \<open>
  Files go only to the device that was chosen: when its best channel is encrypted, nothing is
  uploaded unless the session was answered with a certificate of its fingerprint.
\<close>

theorem send_only_to_device:
  assumes "Option.bind (get_best_channel device) channel_http = Some http" "hc_protocol http = Https"
    and "\<And>c. tls_checked (se_ext E) (se_client_ext E) c (se_connect E c)"
    and "sn_requests (run_send E i device files paths send_start) \<noteq> []"
  shows "\<exists>net res der. send_connect E i device = Inr (http, net) \<and>
    net (post_request (request_url ApiV2 Https (hc_host http) (hc_port http) ''/prepare-upload'' []) json_content
      (PrepareUploadPayload \<lparr>pu2_info = identity_register_dto i, pu2_files = files\<rparr>)) = Some res \<and>
    cp_tls res = Some (Some der) \<and>
    fingerprint_from_cert_der (ext_sha256 (se_ext E)) der = to_ascii_uppercase (dd_fingerprint (sd_device device))"
proof -
  obtain http' net response where answer: "send_agreement E i device files = Inr (http', net, response)"
    using assms(4) by (auto simp: run_send_cases send_start_def split: sum.splits)
  then have connect: "send_connect E i device = Inr (http, net)" and prepare: "send_prepare E i http net files = Inr response"
    using assms(1) by (auto simp: send_agreement_def send_connect_def res_simps)
  then obtain client where client: "create_reqwest_client (se_client_ext E) (id_key_pem i) (id_cert_pem i)
      (Some (dd_fingerprint (sd_device device))) None = Inr client" and net: "net = se_connect E client"
    using assms(1,2) by (auto simp: send_connect_def res_simps)
  obtain res where res: "net (post_request (request_url ApiV2 Https (hc_host http) (hc_port http) ''/prepare-upload'' [])
      json_content (PrepareUploadPayload \<lparr>pu2_info = identity_register_dto i, pu2_files = files\<rparr>)) = Some res"
    using prepare assms(2) by (auto simp: send_prepare_def prepare_upload_call_def Let_def res_simps split: if_splits)
  obtain der where "cp_tls res = Some (Some der)"
      "fingerprint_from_cert_der (ext_sha256 (se_ext E)) der = to_ascii_uppercase (dd_fingerprint (sd_device device))"
    using pinned_response [OF client assms(3) res [unfolded net]] by auto
  with connect res show ?thesis by blast
qed

lemma demo_connect_checked: "tls_checked demo_keyed_ext demo_client_ext c (demo_connect c)"
  by (auto simp: tls_checked_def demo_connect_def demo_net_def split: if_splits)

theorem send_only_to_device_witness:
  "\<exists>net res der. send_connect (demo_send_env (lit ''f'')) demo_identity (demo_send_peer Https) =
       Inr (\<lparr>hc_host = lit ''h'', hc_port = 2, hc_protocol = Https\<rparr>, net) \<and>
     net (post_request (request_url ApiV2 Https (lit ''h'') 2 ''/prepare-upload'' []) json_content
       (PrepareUploadPayload \<lparr>pu2_info = identity_register_dto demo_identity, pu2_files = [(lit ''f'', demo_send_file)]\<rparr>)) =
       Some res \<and>
     cp_tls res = Some (Some der) \<and> fingerprint_from_cert_der (ext_sha256 demo_keyed_ext) der = lit ''03''"
proof -
  have "verify_server_cert X (demo_client_ext\<lparr>cx_prepare_upload := g\<rparr>) v der = verify_server_cert X demo_client_ext v der" for X g v der
    by (simp add: verify_server_cert_def)
  then have checked: "tls_checked (se_ext (demo_send_env (lit ''f''))) (se_client_ext (demo_send_env (lit ''f''))) c
      (se_connect (demo_send_env (lit ''f'')) c)" for c
    using demo_connect_checked [of c] by (simp add: demo_send_env_def tls_checked_def)
  have "only_offered [(lit ''f'', demo_send_file)] (demo_answer (lit ''f''))"
    by (simp add: only_offered_def demo_answer_def)
  then have "expected_requests E http net (demo_answer (lit ''f'')) paths 0
      (sort_key k (map fst (pur2_files (demo_answer (lit ''f''))))) \<noteq> []" for E http net paths and k :: "rstring \<Rightarrow> rstring"
    by (simp add: demo_answer_def)
  then have sent: "sn_requests (run_send (demo_send_env (lit ''f'')) demo_identity (demo_send_peer Https)
      [(lit ''f'', demo_send_file)] [(lit ''f'', lit ''p'')] send_start) \<noteq> []"
    using requests_of_session [of "[(lit ''f'', lit ''p'')]" "[(lit ''f'', demo_send_file)]" "demo_answer (lit ''f'')"
        "demo_send_env (lit ''f'')" demo_identity "demo_send_peer Https"]
      \<open>only_offered _ _\<close> demo_session [of "lit ''f''" Https "[(lit ''f'', demo_send_file)]"] by auto
  have names: "dd_fingerprint (sd_device (demo_send_peer Https)) = lit ''03''" "se_ext (demo_send_env (lit ''f'')) = demo_keyed_ext"
    by (simp_all add: demo_send_env_def demo_send_peer_def confirm_new_def)
  show ?thesis
    using send_only_to_device [OF demo_best _ checked sent] by (simp add: names demo_verified(3))
qed

end
