(* ===== verification/FB_CliApp.thy ===== *)
theory FB_CliApp
  imports FB_CliSend FB_Server
begin

text \<open>
  The application of the command line client (\<^verbatim>\<open>cli/src/app\<close> and the device list of
  \<^verbatim>\<open>cli/src/device_list.rs\<close>): one loop that handles keys, events of the server, of the web pages
  and of discovery, results of background tasks, and ticks. What a handler starts elsewhere
  (decisions, targets, send tasks, cancels, servers) is a list of commands; what its
  environment decides is the record \<open>app_env\<close>. The user interface is the list of operations
  on it, which \<open>ui_run\<close> of the log turns into output; the reasons of a modal or a server that
  does not open are left out of it.
\<close>

section \<open>State\<close>

record sender_target =
  tgt_host :: rstring
  tgt_port :: u16
  tgt_protocol :: protocol_type
  tgt_fingerprint :: rstring

record pending_receive =
  pnd_session_id :: rstring
  pnd_alias :: rstring
  pnd_sender :: sender_target
  pnd_files :: "(rstring, file_dto) hash_map"

record receive_session =
  rcv_session_id :: rstring
  rcv_alias :: rstring
  rcv_sender :: sender_target
  rcv_files :: "(rstring, file_dto) hash_map"
  rcv_total_bytes :: u64
  rcv_finished_files :: nat
  rcv_failed_files :: nat
  rcv_finalized_bytes :: u64
  rcv_in_progress :: "rstring list"
  rcv_ended :: "session_end_reason_v2 option"

record send_state =
  sst_session_id :: "rstring option"
  sst_alias :: rstring
  sst_host :: rstring
  sst_total_bytes :: u64
  sst_cancel :: send_cancel

datatype web_mode = WebShare "(rstring, rstring) hash_map" | WebReceive

datatype picker_target = PickDevice rstring rstring | PickWebShare

datatype picker_outcome = PickerOpen | Picked "rstring list" | PickerCancelled

datatype answer = AnswerAccept | AnswerDecline | AnswerAcceptAndPair

text \<open>The device list: its rows and the highlighted one.\<close>

record device_row =
  dr_fingerprint :: rstring
  dr_alias :: rstring
  dr_slot :: "nat option"
  dr_hosts :: "rstring list"
  dr_paired :: bool

datatype row = RowHeader rstring | RowDevice device_row | RowEmpty | RowSpacer

record device_list =
  dv_rows :: "row list"
  dv_selected :: "nat option"

datatype device_list_outcome = ListOpen | ListClosed | ListSend rstring | ListPair rstring | ListUnpair rstring

text \<open>The server that runs: encrypted, or in plain HTTP for a link; nothing when it is stopped.\<close>

datatype server_mode = ServerTls | ServerPlain web_config

datatype app_command =
    CmdDecide rstring prepare_upload_decision_v2
  | CmdTarget rstring rstring rstring
  | CmdSend stateful_device "(rstring, file_dto) hash_map" "(rstring, rstring) hash_map"
  | CmdAddDevice discovered_device
  | CmdCancelSession rstring
  | CmdNotifySender sender_target rstring
  | CmdRestart server_mode bool
  | CmdWebDecide rstring bool
  | CmdContent rstring rstring

record app =
  ap_ui :: "ui_op list"
  ap_out :: "app_command list"
  ap_server :: "server_mode option"
  ap_web :: "web_mode option"
  ap_chord_w :: bool
  ap_slots :: slots
  ap_destination :: rstring
  ap_identity :: identity
  ap_paired :: paired_devices
  ap_pending :: "pending_receive option"
  ap_receive :: "receive_session option"
  ap_send :: "send_state option"
  ap_picker :: "picker_target option"
  ap_device_list :: "device_list option"
  ap_preselected :: "rstring list"

text \<open>
  The environment of one event: the devices of the store, the outcome of saving the paired
  devices, whether the request that waits for a decision is still there, which paths exist,
  what the picker makes of a key, what stat says of a path (size, type and timestamps), fresh
  ids, whether a modal opens, whether the server starts, in plain HTTP and encrypted, its
  addresses, and formatting.
\<close>

record app_env =
  ae_store :: device_store
  ae_json :: json_paired
  ae_written :: write_outcome
  ae_renamed :: bool
  ae_waiting :: bool
  ae_os :: target_os
  ae_exists :: "rstring \<Rightarrow> bool"
  ae_picker :: picker_outcome
  ae_stat :: "rstring \<Rightarrow> (u64 \<times> rstring \<times> file_metadata option) option"
  ae_fresh :: "nat \<Rightarrow> rstring"
  ae_opens :: bool
  ae_starts_plain :: bool
  ae_starts_tls :: bool
  ae_addresses :: "(rstring \<times> bool option) list"
  ae_qr :: "rstring \<Rightarrow> rstring option"
  ae_elapsed :: nat
  ae_format_bytes :: "u64 \<Rightarrow> rstring"
  ae_show_error :: "storage_error \<Rightarrow> rstring"
  ae_status :: "receive_session option \<Rightarrow> send_state option \<Rightarrow> rstring"

definition log_line :: "category \<Rightarrow> rstring \<Rightarrow> app \<Rightarrow> app" where
  "log_line cat content s = s\<lparr>ap_ui := ap_ui s @ [UiLog (Some cat) content]\<rparr>"

definition log_plain :: "rstring \<Rightarrow> app \<Rightarrow> app" where
  "log_plain content s = s\<lparr>ap_ui := ap_ui s @ [UiLog None content]\<rparr>"

definition suspend_ui :: "app \<Rightarrow> app" where
  "suspend_ui s = s\<lparr>ap_ui := ap_ui s @ [UiSuspend]\<rparr>"

definition resume_ui :: "app \<Rightarrow> app" where
  "resume_ui s = s\<lparr>ap_ui := ap_ui s @ [UiResume]\<rparr>"

definition emit :: "app_command \<Rightarrow> app \<Rightarrow> app" where
  "emit c s = s\<lparr>ap_out := ap_out s @ [c]\<rparr>"

text \<open>The progress bars are computed with floating point numbers: \<open>ae_status\<close>.\<close>

definition render_status :: "app_env \<Rightarrow> app \<Rightarrow> app" where
  "render_status E s =
     s\<lparr>ap_ui := ap_ui s @ [UiStatus
       (if ap_receive s = None \<and> ap_send s = None then None else Some (ae_status E (ap_receive s) (ap_send s)))]\<rparr>"

definition size_sum :: "(rstring, file_dto) hash_map \<Rightarrow> u64" where
  "size_sum files = sum_list (map (\<lambda>(k, f). fd_size f) files)"

section \<open>Discovery\<close>

definition refresh_paired_channels :: "app_env \<Rightarrow> rstring \<Rightarrow> app \<Rightarrow> app" where
  "refresh_paired_channels E fingerprint s =
     (if \<not> paired_contains (pv_devices (ap_paired s)) fingerprint then s
      else case by_fingerprint (ae_store E) fingerprint of
          None \<Rightarrow> s
        | Some stored \<Rightarrow>
            (case paired_update (ae_json E) (ae_written E) (ae_renamed E) fingerprint (dd_alias (sd_device stored))
                (channels_of stored) (ap_paired s) of
               (Inr _, paired) \<Rightarrow> s\<lparr>ap_paired := paired\<rparr>
             | (Inl e, paired) \<Rightarrow>
                 log_line CatDiscovery (lit ''Could not save the paired devices: '' @ ae_show_error E e)
                   (s\<lparr>ap_paired := paired\<rparr>)))"

text \<open>A device new to the store gets a hotkey, whatever is logged of it.\<close>

definition handle_discovery :: "app_env \<Rightarrow> discovery_event \<Rightarrow> app \<Rightarrow> app" where
  "handle_discovery E event s =
     (case event of
        Updated device \<Rightarrow> refresh_paired_channels E (dd_fingerprint device) s
      | Discovered device \<Rightarrow>
          (let s1 = refresh_paired_channels E (dd_fingerprint device) s;
               (slot, assigned) = slots_assign (ap_slots s1) (dd_fingerprint device);
               s2 = s1\<lparr>ap_slots := assigned\<rparr>;
               host = (case channel_http (dd_channel device) of Some h \<Rightarrow> hc_host h | None \<Rightarrow> lit ''unknown address'')
           in if ap_web s2 = Some WebReceive then s2
              else log_line CatDiscovery
                (lit ''['' @ slot_label slot @ lit ''] '' @ dd_alias device @ lit '' ('' @ host @ lit '')'') s2))"

definition device_confirmed :: "rstring \<Rightarrow> register_dto_v2 \<Rightarrow> app \<Rightarrow> app" where
  "device_confirmed host info s =
     (if r2_fingerprint info = id_fingerprint (ap_identity s) then s
      else emit (CmdAddDevice
        \<lparr>dd_alias = r2_alias info, dd_version = r2_version info, dd_device_model = r2_device_model info,
         dd_device_type = r2_device_type info, dd_fingerprint = r2_fingerprint info,
         dd_channel = ChannelHttp \<lparr>hc_host = host, hc_port = r2_port info, hc_protocol = r2_protocol info\<rparr>,
         dd_download = r2_download info\<rparr>) s)"

section \<open>Receiving\<close>

definition receive_session_new ::
  "rstring \<Rightarrow> rstring \<Rightarrow> sender_target \<Rightarrow> (rstring, file_dto) hash_map \<Rightarrow> receive_session"
where
  "receive_session_new session_id name sender files =
     \<lparr>rcv_session_id = session_id, rcv_alias = name, rcv_sender = sender, rcv_files = files,
      rcv_total_bytes = size_sum files, rcv_finished_files = 0, rcv_failed_files = 0, rcv_finalized_bytes = 0,
      rcv_in_progress = [], rcv_ended = None\<rparr>"

definition done_bytes :: "(rstring \<Rightarrow> u64) \<Rightarrow> receive_session \<Rightarrow> u64" where
  "done_bytes progress session =
     rcv_finalized_bytes session + sum_list (map progress (rcv_in_progress session))"

text \<open>A message: a single text file that comes with its text.\<close>

definition message_of :: "(rstring, file_dto) hash_map \<Rightarrow> rstring option" where
  "message_of files =
     (case files of
        [(file_id, f)] \<Rightarrow>
          if fd_file_type f \<noteq> lit ''text'' \<and> \<not> prefix (lit ''text/'') (fd_file_type f) then None else fd_preview f
      | _ \<Rightarrow> None)"

definition MAX_LISTED_FILES :: nat where
  "MAX_LISTED_FILES = 20"

text \<open>The prompt: the largest files first, at most twenty of them.\<close>

definition prompt_text :: "app_env \<Rightarrow> web_mode option \<Rightarrow> rstring \<Rightarrow> (rstring, file_dto) hash_map \<Rightarrow> rstring" where
  "prompt_text E web name files =
     (let sorted_files = rev (sort_key fd_size (rev (map snd files)));
          listed = map (\<lambda>f. lit ''  '' @ fd_file_name f @ lit '' ('' @ ae_format_bytes E (fd_size f) @ lit '')'')
            (take MAX_LISTED_FILES sorted_files);
          omitted = (if MAX_LISTED_FILES < length sorted_files
            then [lit ''  ... and '' @ show_nat (length sorted_files - MAX_LISTED_FILES) @ lit '' more''] else []);
          question = (if web = Some WebReceive then lit ''Accept? Y/N'' else lit ''Accept? Y/N/P (P = accept and pair)'')
      in join_with 10 ([name, 10 # lit ''Files ('' @ show_nat (length files) @ lit '', '' @
           ae_format_bytes E (size_sum files) @ lit ''):''] @ listed @ omitted @ [10 # question]))"

text \<open>
  A request: a message is accepted with no file; a paired sender with all files, if the
  request still waits; anybody else has to wait for the user.
\<close>

definition handle_prepare_upload ::
  "app_env \<Rightarrow> rstring \<Rightarrow> peer_ip \<Rightarrow> register_dto_v2 \<Rightarrow> rstring option \<Rightarrow> (rstring, file_dto) hash_map \<Rightarrow> app \<Rightarrow> app"
where
  "handle_prepare_upload E session_id ip info cert_fp files s =
     (let s1 = device_confirmed (peer_ip_to_string ip) info s in
      case message_of files of
        Some message \<Rightarrow>
          log_line CatReceive (r2_alias info @ lit '': Message received'' @ 10 # message)
            (emit (CmdDecide session_id (Accept [])) s1)
      | None \<Rightarrow>
          (let sender = \<lparr>tgt_host = peer_ip_to_string ip, tgt_port = r2_port info, tgt_protocol = r2_protocol info,
                 tgt_fingerprint = (case cert_fp of Some fp \<Rightarrow> fp | None \<Rightarrow> r2_fingerprint info)\<rparr>
           in if paired_contains (pv_devices (ap_paired s1)) (tgt_fingerprint sender) then
                (let s2 = emit (CmdDecide session_id (Accept (map fst files))) s1 in
                 if ae_waiting E
                 then s2\<lparr>ap_receive := Some (receive_session_new session_id (r2_alias info) sender files)\<rparr>
                 else s2)
              else
                (log_line CatReceive (prompt_text E (ap_web s1) (r2_alias info) files) s1)
                \<lparr>ap_pending := Some \<lparr>pnd_session_id = session_id, pnd_alias = r2_alias info, pnd_sender = sender,
                  pnd_files = files\<rparr>\<rparr>))"

text \<open>The target of a file of the active session; requests for any other session are dropped.\<close>

definition handle_file_upload :: "app_env \<Rightarrow> rstring \<Rightarrow> rstring \<Rightarrow> file_dto \<Rightarrow> app \<Rightarrow> app" where
  "handle_file_upload E session_id file_id f s =
     (case ap_receive s of
        None \<Rightarrow> s
      | Some session \<Rightarrow>
          if rcv_session_id session \<noteq> session_id then s
          else
            (case unique_path (ae_os E) (ae_exists E) (ap_destination s) (fd_file_name f) of
               None \<Rightarrow> s
             | Some path \<Rightarrow>
                 emit (CmdTarget session_id file_id path)
                   (s\<lparr>ap_receive := Some (session\<lparr>rcv_in_progress :=
                     file_id # filter (\<lambda>other. other \<noteq> file_id) (rcv_in_progress session)\<rparr>)\<rparr>)))"

definition end_summary :: "app_env \<Rightarrow> receive_session \<Rightarrow> session_end_reason_v2 \<Rightarrow> rstring" where
  "end_summary E session reason =
     (case reason of
        EndFinished \<Rightarrow>
          rcv_alias session @ lit '': Received '' @ show_nat (rcv_finished_files session) @ lit '' file'' @
            plural (rcv_finished_files session) @ lit '' ('' @ ae_format_bytes E (rcv_finalized_bytes session) @
            lit '', took '' @ format_duration (ae_elapsed E) @ lit '')'' @
            (if 0 < rcv_failed_files session then lit '', '' @ show_nat (rcv_failed_files session) @ lit '' failed'' else [])
      | EndCancelled \<Rightarrow>
          rcv_alias session @ lit '': Cancelled by sender ('' @ show_nat (rcv_finished_files session) @ lit '' of '' @
            show_nat (length (rcv_files session)) @ lit '' files received)'')"

definition finish_receive_if_done :: "app_env \<Rightarrow> app \<Rightarrow> app" where
  "finish_receive_if_done E s =
     (case ap_receive s of
        None \<Rightarrow> s
      | Some session \<Rightarrow>
          (case rcv_ended session of
             None \<Rightarrow> s
           | Some reason \<Rightarrow>
               if rcv_in_progress session \<noteq> [] then s
               else render_status E (log_line CatReceive (end_summary E session reason) (s\<lparr>ap_receive := None\<rparr>))))"

definition receive_file_result :: "app_env \<Rightarrow> rstring \<Rightarrow> rstring \<Rightarrow> (unit, rstring) result \<Rightarrow> app \<Rightarrow> app" where
  "receive_file_result E session_id file_id outcome s =
     (case ap_receive s of
        None \<Rightarrow> s
      | Some session \<Rightarrow>
          if rcv_session_id session \<noteq> session_id then s
          else
            (let session1 = session\<lparr>rcv_in_progress := filter (\<lambda>other. other \<noteq> file_id) (rcv_in_progress session)\<rparr> in
             case outcome of
               Inr _ \<Rightarrow>
                 finish_receive_if_done E (s\<lparr>ap_receive := Some (session1
                   \<lparr>rcv_finished_files := Suc (rcv_finished_files session1),
                    rcv_finalized_bytes := rcv_finalized_bytes session1 +
                      (case map_of (rcv_files session1) file_id of Some f \<Rightarrow> fd_size f | None \<Rightarrow> 0)\<rparr>)\<rparr>)
             | Inl e \<Rightarrow>
                 finish_receive_if_done E (log_line CatReceive
                   (rcv_alias session1 @ lit '': Failed to receive '' @
                     (case map_of (rcv_files session1) file_id of Some f \<Rightarrow> fd_file_name f | None \<Rightarrow> file_id) @ lit '': '' @ e)
                   (s\<lparr>ap_receive := Some (session1\<lparr>rcv_failed_files := Suc (rcv_failed_files session1)\<rparr>)\<rparr>))))"

text \<open>The task that is spawned here cancels on the server and then tells the sender.\<close>

definition cancel_receive :: "app_env \<Rightarrow> app \<Rightarrow> app" where
  "cancel_receive E s =
     (case ap_receive s of
        None \<Rightarrow> s
      | Some session \<Rightarrow>
          render_status E (log_line CatReceive
            (rcv_alias session @ lit '': cancelled ('' @ show_nat (rcv_finished_files session) @ lit '' of '' @
              show_nat (length (rcv_files session)) @ lit '' files received)'')
            (emit (CmdNotifySender (rcv_sender session) (rcv_session_id session))
              (emit (CmdCancelSession (rcv_session_id session)) (s\<lparr>ap_receive := None\<rparr>)))))"

definition pair_sender :: "app_env \<Rightarrow> pending_receive \<Rightarrow> app \<Rightarrow> app" where
  "pair_sender E p s =
     (let fingerprint = tgt_fingerprint (pnd_sender p);
          channels = (case by_fingerprint (ae_store E) fingerprint of Some stored \<Rightarrow> channels_of stored | None \<Rightarrow> [])
      in case paired_insert (ae_json E) (ae_written E) (ae_renamed E) fingerprint (pnd_alias p) channels (ap_paired s) of
          (Inr _, paired) \<Rightarrow>
            log_line CatReceive (pnd_alias p @ lit '': Paired. Future requests are auto-accepted.'') (s\<lparr>ap_paired := paired\<rparr>)
        | (Inl e, paired) \<Rightarrow>
            log_line CatReceive (pnd_alias p @ lit '': Paired for this run, but saving failed: '' @ ae_show_error E e)
              (s\<lparr>ap_paired := paired\<rparr>))"

definition answer_pending :: "app_env \<Rightarrow> answer \<Rightarrow> app \<Rightarrow> app" where
  "answer_pending E ans s =
     (case ap_pending s of
        None \<Rightarrow> s
      | Some p \<Rightarrow>
          (let s1 = s\<lparr>ap_pending := None\<rparr> in
           if ans = AnswerDecline then
             log_line CatReceive (pnd_alias p @ lit '': You declined'') (emit (CmdDecide (pnd_session_id p) Decline) s1)
           else
             (let s2 = log_line CatReceive (pnd_alias p @ lit '': You accepted'') s1;
                  s3 = (if ans = AnswerAcceptAndPair \<and> ap_web s2 \<noteq> Some WebReceive then pair_sender E p s2 else s2);
                  s4 = emit (CmdDecide (pnd_session_id p) (Accept (map fst (pnd_files p)))) s3
              in if \<not> ae_waiting E then log_line CatReceive (pnd_alias p @ lit '': request already ended'') s4
                 else s4\<lparr>ap_receive := Some (receive_session_new (pnd_session_id p) (pnd_alias p) (pnd_sender p) (pnd_files p))\<rparr>)))"

definition cancel_send_by_peer :: "send_state \<Rightarrow> send_state" where
  "cancel_send_by_peer send = send\<lparr>sst_cancel := \<lparr>sc_token = True, sc_by_peer = True\<rparr>\<rparr>"

fun handle_server_event :: "app_env \<Rightarrow> server_event_v2 \<Rightarrow> app \<Rightarrow> app" where
  "handle_server_event E (EvRegister ip info) s = device_confirmed (peer_ip_to_string ip) info s"
| "handle_server_event E (EvPrepareUpload session_id ip info cert_fp files) s =
     handle_prepare_upload E session_id ip info cert_fp files s"
| "handle_server_event E (EvFileUpload session_id file_id f) s = handle_file_upload E session_id file_id f s"
| "handle_server_event E (EvSessionEnd session_id reason) s =
     (case ap_receive s of
        None \<Rightarrow> s
      | Some session \<Rightarrow>
          if rcv_session_id session \<noteq> session_id then s
          else finish_receive_if_done E (s\<lparr>ap_receive := Some (session\<lparr>rcv_ended := Some reason\<rparr>)\<rparr>))"
| "handle_server_event E (EvPrepareUploadAborted session_id) s =
     (case ap_pending s of
        None \<Rightarrow> s
      | Some p \<Rightarrow>
          if pnd_session_id p \<noteq> session_id then s
          else log_line CatReceive (pnd_alias p @ lit '': Aborted by sender'') (s\<lparr>ap_pending := None\<rparr>))"
| "handle_server_event E (EvCancelReceived ip session_id) s =
     (case ap_send s of
        None \<Rightarrow> s
      | Some send \<Rightarrow>
          if sst_session_id send = Some session_id \<and> sst_host send = peer_ip_to_string ip
          then s\<lparr>ap_send := Some (cancel_send_by_peer send)\<rparr> else s)"

section \<open>Sending\<close>

text \<open>\<^verbatim>\<open>Path::file_name\<close> of a path as text: the last component, unless there is none or it is \<^verbatim>\<open>..\<close>.\<close>

definition path_file_name :: "rstring \<Rightarrow> rstring option" where
  "path_file_name path =
     (case rev (filter (\<lambda>c. c \<noteq> [] \<and> c \<noteq> lit ''.'') (split_on 47 path)) of
        [] \<Rightarrow> None
      | c # cs \<Rightarrow> if c = lit ''..'' then None else Some c)"

fun collect_from ::
  "app_env \<Rightarrow> nat \<Rightarrow> rstring list \<Rightarrow>
   (rstring, file_dto) hash_map \<times> (rstring, rstring) hash_map \<times> u64 \<Rightarrow> app \<Rightarrow>
   ((rstring, file_dto) hash_map \<times> (rstring, rstring) hash_map \<times> u64) \<times> app"
where
  "collect_from E n [] acc s = (acc, s)"
| "collect_from E n (path # picked) (files, paths, total_bytes) s =
     (case ae_stat E path of
        None \<Rightarrow>
          collect_from E n picked (files, paths, total_bytes)
            (log_line CatSend (lit ''Skipping unreadable file: '' @ path) s)
      | Some (len, mime, timestamps) \<Rightarrow>
          (let file_id = ae_fresh E n in
           collect_from E (Suc n) picked
             (hm_insert file_id
                \<lparr>fd_id = file_id,
                 fd_file_name = (case path_file_name path of Some name \<Rightarrow> name | None \<Rightarrow> lit ''unnamed''),
                 fd_size = len, fd_file_type = mime, fd_sha256 = None, fd_preview = None, fd_metadata = timestamps\<rparr> files,
              hm_insert file_id path paths, total_bytes + len) s))"

definition collect_files ::
  "app_env \<Rightarrow> rstring list \<Rightarrow> app \<Rightarrow> ((rstring, file_dto) hash_map \<times> (rstring, rstring) hash_map \<times> u64) \<times> app"
where
  "collect_files E picked s = collect_from E 0 picked ([], [], 0) s"

definition close_device_list :: "app \<Rightarrow> app" where
  "close_device_list s =
     (case ap_device_list s of None \<Rightarrow> s | Some l \<Rightarrow> resume_ui (s\<lparr>ap_device_list := None\<rparr>))"

definition start_send :: "app_env \<Rightarrow> rstring \<Rightarrow> rstring list \<Rightarrow> app \<Rightarrow> app" where
  "start_send E fingerprint picked s =
     (if ap_send s \<noteq> None then log_line CatSend (lit ''A send is already in progress'') s
      else case by_fingerprint (ae_store E) fingerprint of
          None \<Rightarrow> s
        | Some device \<Rightarrow>
            (case Option.bind (get_best_channel device) channel_http of
               None \<Rightarrow> log_line CatSend (dd_alias (sd_device device) @ lit '': No dialable address'') s
             | Some http \<Rightarrow>
                 (let ((files, paths, total_bytes), s1) = collect_files E picked s in
                  if files = [] then log_line CatSend (lit ''No files selected'') s1
                  else emit (CmdSend device files paths)
                    (s1\<lparr>ap_send := Some \<lparr>sst_session_id = None, sst_alias = dd_alias (sd_device device),
                      sst_host = hc_host http, sst_total_bytes = total_bytes,
                      sst_cancel = \<lparr>sc_token = False, sc_by_peer = False\<rparr>\<rparr>\<rparr>))))"

text \<open>The picker takes over the screen of an open device list.\<close>

definition open_picker :: "app_env \<Rightarrow> picker_target \<Rightarrow> app \<Rightarrow> app" where
  "open_picker E target s =
     (if (case target of PickDevice fp name \<Rightarrow> True | PickWebShare \<Rightarrow> False) \<and> ap_send s \<noteq> None
      then log_line CatSend (lit ''A send is already in progress'') (close_device_list s)
      else
        (let handoff = (ap_device_list s \<noteq> None); s1 = s\<lparr>ap_device_list := None\<rparr> in
         if ae_opens E then (suspend_ui s1)\<lparr>ap_picker := Some target\<rparr>
         else log_line CatSend (lit ''Could not open the file picker'') (if handoff then resume_ui s1 else s1)))"

definition start_picking :: "app_env \<Rightarrow> nat \<Rightarrow> app \<Rightarrow> app" where
  "start_picking E slot s =
     (case Option.bind (fingerprint_by_slot (ap_slots s) slot) (by_fingerprint (ae_store E)) of
        None \<Rightarrow> log_line CatSend (lit ''No device on ['' @ show_nat slot @ lit '']'') s
      | Some device \<Rightarrow>
          if ap_preselected s \<noteq> [] then start_send E (dd_fingerprint (sd_device device)) (ap_preselected s) s
          else open_picker E (PickDevice (dd_fingerprint (sd_device device)) (dd_alias (sd_device device))) s)"

section \<open>Links for browsers\<close>

text \<open>
  Restarting stops the server that runs and starts another one, in plain HTTP for a link;
  when that fails none is left.
\<close>

definition restart_server :: "app_env \<Rightarrow> web_config option \<Rightarrow> app \<Rightarrow> bool \<times> app" where
  "restart_server E config s =
     (let mode = (case config of Some c \<Rightarrow> ServerPlain c | None \<Rightarrow> ServerTls);
          started = (case config of Some c \<Rightarrow> ae_starts_plain E | None \<Rightarrow> ae_starts_tls E)
      in (started, (emit (CmdRestart mode started) s)\<lparr>ap_server := (if started then Some mode else None)\<rparr>))"

definition restore_encrypted_server :: "app_env \<Rightarrow> app \<Rightarrow> app" where
  "restore_encrypted_server E s =
     (let (started, s1) = restart_server E None s
      in if started then s1 else log_line CatSend (lit ''Could not restore the encrypted server'') s1)"

definition web_links :: "app_env \<Rightarrow> rstring" where
  "web_links E =
     (case listening_lines (lit ''http'') (ae_addresses E) of
        [] \<Rightarrow> lit '' - (no network interface found)''
      | lines \<Rightarrow> join_with 10 lines)"

definition web_qr :: "app_env \<Rightarrow> rstring option" where
  "web_qr E = (case ae_addresses E of [] \<Rightarrow> None | (address, kind) # rest \<Rightarrow> ae_qr E (lit ''http://'' @ address))"

definition link_text :: "app_env \<Rightarrow> rstring \<Rightarrow> rstring \<Rightarrow> rstring \<Rightarrow> rstring" where
  "link_text E enabled invitation stop =
     enabled @ 10 # invitation @ 10 # web_links E @ [10] @
     (case web_qr E of Some qr \<Rightarrow> 10 # qr @ [10] | None \<Rightarrow> []) @ stop @ [10, 10]"

definition enable_web_share :: "app_env \<Rightarrow> rstring list \<Rightarrow> app \<Rightarrow> app" where
  "enable_web_share E picked s =
     (let ((files, paths, total_bytes), s1) = collect_files E picked s in
      if files = [] then log_line CatSend (lit ''No files selected'') s1
      else
        (let (started, s2) = restart_server E
             (Some \<lparr>wcf_send = Some \<lparr>wc_files = files, wc_pin = None\<rparr>, wcf_upload = False, wcf_i18n = default_web_i18n\<rparr>) s1
         in if \<not> started then
              restore_encrypted_server E (log_line CatSend (lit ''Share via link: could not restart the server'') s2)
            else log_line CatSend
              (link_text E (lit ''Share via link enabled: '' @ show_nat (length files) @ lit '' file'' @ plural (length files) @
                 lit '' ('' @ ae_format_bytes E total_bytes @ lit ''), encryption is off'')
                 (lit ''Open in a browser:'') (lit ''Press W+S again to stop sharing.''))
              (s2\<lparr>ap_web := Some (WebShare paths)\<rparr>)))"

definition disable_web :: "app_env \<Rightarrow> category \<Rightarrow> rstring \<Rightarrow> app \<Rightarrow> app" where
  "disable_web E cat feature s =
     (let (started, s1) = restart_server E None (s\<lparr>ap_web := None\<rparr>)
      in log_line cat (feature @ (if started then lit '' disabled, encryption is back on''
           else lit '' disabled, but the server could not be restarted'')) s1)"

definition toggle_web_share :: "app_env \<Rightarrow> app \<Rightarrow> app" where
  "toggle_web_share E s =
     (case ap_web s of
        Some (WebShare paths) \<Rightarrow> disable_web E CatSend (lit ''Share via link'') s
      | Some WebReceive \<Rightarrow> log_line CatSend (lit ''Receive via link is active, press W+R to stop it first'') s
      | None \<Rightarrow>
          if ap_pending s \<noteq> None \<or> ap_receive s \<noteq> None
          then log_line CatSend (lit ''Share via link: not while a receive is active (the server would restart)'') s
          else if ap_preselected s = [] then open_picker E PickWebShare s
          else enable_web_share E (ap_preselected s) s)"

definition toggle_web_receive :: "app_env \<Rightarrow> app \<Rightarrow> app" where
  "toggle_web_receive E s =
     (case ap_web s of
        Some WebReceive \<Rightarrow> disable_web E CatReceive (lit ''Receive via link'') s
      | Some (WebShare paths) \<Rightarrow> log_line CatReceive (lit ''Share via link is active, press W+S to stop it first'') s
      | None \<Rightarrow>
          if ap_pending s \<noteq> None \<or> ap_receive s \<noteq> None
          then log_line CatReceive (lit ''Receive via link: not while a receive is active (the server would restart)'') s
          else
            (let (started, s1) = restart_server E
                 (Some \<lparr>wcf_send = None, wcf_upload = True, wcf_i18n = default_web_i18n\<rparr>) s
             in if \<not> started then
                  restore_encrypted_server E (log_line CatReceive (lit ''Receive via link: could not restart the server'') s1)
                else log_line CatReceive
                  (link_text E (lit ''Receive via link enabled, encryption is off'')
                    (lit ''Open in a browser to upload files here:'') (lit ''Press W+R again to stop.''))
                  (s1\<lparr>ap_web := Some WebReceive\<rparr>)))"

text \<open>Every browser may see the shared files; content comes only while they are shared.\<close>

fun handle_web_event :: "web_send_event \<Rightarrow> app \<Rightarrow> app" where
  "handle_web_event (WePrepareDownload ip session_id user_agent) s =
     log_line CatSend (lit ''Web: '' @ peer_ip_to_string ip @ lit '' opened the shared link'' @
       (case user_agent of Some a \<Rightarrow> lit '' ('' @ a @ lit '')'' | None \<Rightarrow> []))
       (emit (CmdWebDecide session_id True) s)"
| "handle_web_event (WeFileDownload session_id file_id f) s =
     (case ap_web s of
        Some (WebShare paths) \<Rightarrow>
          (case map_of paths file_id of
             None \<Rightarrow> s
           | Some path \<Rightarrow>
               log_line CatSend (lit ''Web: '' @ session_id @ lit '' downloads '' @ fd_file_name f)
                 (emit (CmdContent session_id path) s))
      | _ \<Rightarrow> s)"

section \<open>The device list\<close>

definition list_devices :: "device_list \<Rightarrow> (nat \<times> device_row) list" where
  "list_devices l =
     List.map_filter (\<lambda>(i, r). case r of RowDevice d \<Rightarrow> Some (i, d) | _ \<Rightarrow> None) (enumerate 0 (dv_rows l))"

definition selected_device :: "device_list \<Rightarrow> device_row option" where
  "selected_device l =
     Option.bind (dv_selected l) (\<lambda>i.
       if i < length (dv_rows l) then (case dv_rows l ! i of RowDevice d \<Rightarrow> Some d | _ \<Rightarrow> None) else None)"

definition select_first_device :: "device_list \<Rightarrow> device_list" where
  "select_first_device l = l\<lparr>dv_selected := (case list_devices l of [] \<Rightarrow> None | (i, d) # rest \<Rightarrow> Some i)\<rparr>"

text \<open>New rows keep the highlight on its device, where it is still listed.\<close>

definition set_rows :: "row list \<Rightarrow> device_list \<Rightarrow> device_list" where
  "set_rows rows l =
     (let highlighted = map_option dr_fingerprint (selected_device l);
          l1 = l\<lparr>dv_rows := rows\<rparr>;
          index = Option.bind highlighted (\<lambda>fp. map_option fst (find (\<lambda>(i, d). dr_fingerprint d = fp) (list_devices l1)))
      in case index of Some i \<Rightarrow> l1\<lparr>dv_selected := Some i\<rparr> | None \<Rightarrow> select_first_device l1)"

definition device_list_new :: "row list \<Rightarrow> device_list" where
  "device_list_new rows = select_first_device \<lparr>dv_rows = rows, dv_selected = None\<rparr>"

definition move_cursor :: "int \<Rightarrow> device_list \<Rightarrow> device_list" where
  "move_cursor delta l =
     (let indices = map fst (list_devices l) in
      if indices = [] then l
      else
        (let cursor = (case Option.bind (dv_selected l) (\<lambda>selected. find (\<lambda>k. indices ! k = selected) [0..<length indices]) of
               Some k \<Rightarrow> k | None \<Rightarrow> 0)
         in l\<lparr>dv_selected := Some (indices ! nat ((int cursor + delta) mod int (length indices)))\<rparr>))"

definition list_handle_key :: "key_code \<Rightarrow> device_list \<Rightarrow> device_list_outcome \<times> device_list" where
  "list_handle_key key l =
     (case key of
        KeyEsc \<Rightarrow> (ListClosed, l)
      | KeyUp \<Rightarrow> (ListOpen, move_cursor (- 1) l)
      | KeyDown \<Rightarrow> (ListOpen, move_cursor 1 l)
      | KeyEnter \<Rightarrow>
          (case selected_device l of
             Some d \<Rightarrow> (if dr_hosts d \<noteq> [] then (ListSend (dr_fingerprint d), l) else (ListOpen, l))
           | None \<Rightarrow> (ListOpen, l))
      | KeyChar c \<Rightarrow>
          if ascii_lower c = 100 then (ListClosed, l)
          else if ascii_lower c = 112 then
            (case selected_device l of
               Some d \<Rightarrow> (if dr_paired d then ListUnpair (dr_fingerprint d) else ListPair (dr_fingerprint d), l)
             | None \<Rightarrow> (ListOpen, l))
          else (ListOpen, l)
      | KeyOther \<Rightarrow> (ListOpen, l))"

text \<open>The rows: the paired devices, then the others that were discovered.\<close>

definition channel_hosts :: "stateful_device \<Rightarrow> rstring list" where
  "channel_hosts stored = map hc_host (List.map_filter channel_http (get_ranked_channels stored))"

definition paired_row :: "app_env \<Rightarrow> app \<Rightarrow> rstring \<times> paired_device \<Rightarrow> device_row" where
  "paired_row E s entry =
     (let discovered = by_fingerprint (ae_store E) (fst entry) in
      \<lparr>dr_fingerprint = fst entry,
       dr_alias = (case discovered of Some stored \<Rightarrow> dd_alias (sd_device stored) | None \<Rightarrow> pd_alias (snd entry)),
       dr_slot = slots_get (ap_slots s) (fst entry),
       dr_hosts = (case discovered of Some stored \<Rightarrow> channel_hosts stored | None \<Rightarrow> []), dr_paired = True\<rparr>)"

definition discovered_row :: "app \<Rightarrow> stateful_device \<Rightarrow> device_row" where
  "discovered_row s stored =
     \<lparr>dr_fingerprint = dd_fingerprint (sd_device stored), dr_alias = dd_alias (sd_device stored),
      dr_slot = slots_get (ap_slots s) (dd_fingerprint (sd_device stored)), dr_hosts = channel_hosts stored,
      dr_paired = False\<rparr>"

definition section_rows :: "device_row list \<Rightarrow> row list" where
  "section_rows ds = (if ds = [] then [RowEmpty] else map RowDevice ds)"

definition device_rows :: "app_env \<Rightarrow> app \<Rightarrow> row list" where
  "device_rows E s =
     (let devices = pv_devices (ap_paired s) in
      [RowHeader (lit ''Paired'')] @ section_rows (map (paired_row E s) devices) @
      [RowSpacer, RowHeader (lit ''Discovered'')] @
      section_rows (map (discovered_row s)
        (filter (\<lambda>stored. \<not> paired_contains devices (dd_fingerprint (sd_device stored))) (ae_store E))))"

definition open_device_list :: "app_env \<Rightarrow> app \<Rightarrow> app" where
  "open_device_list E s =
     (if ae_opens E then (suspend_ui s)\<lparr>ap_device_list := Some (device_list_new (device_rows E s))\<rparr>
      else log_plain (lit ''Could not open the device list'') s)"

definition refresh_list :: "app_env \<Rightarrow> app \<Rightarrow> app" where
  "refresh_list E s =
     (case ap_device_list s of
        None \<Rightarrow> s
      | Some l \<Rightarrow> s\<lparr>ap_device_list := Some (set_rows (device_rows E s) l)\<rparr>)"

definition pair_device :: "app_env \<Rightarrow> rstring \<Rightarrow> app \<Rightarrow> app" where
  "pair_device E fingerprint s =
     (case by_fingerprint (ae_store E) fingerprint of
        None \<Rightarrow> s
      | Some stored \<Rightarrow>
          (let name = dd_alias (sd_device stored) in
           case paired_insert (ae_json E) (ae_written E) (ae_renamed E) fingerprint name (channels_of stored) (ap_paired s) of
             (Inr _, paired) \<Rightarrow>
               refresh_list E (log_line CatDiscovery (name @ lit '': Paired. Future requests are auto-accepted.'')
                 (s\<lparr>ap_paired := paired\<rparr>))
           | (Inl e, paired) \<Rightarrow>
               refresh_list E (log_line CatDiscovery
                 (name @ lit '': Paired for this run, but saving failed: '' @ ae_show_error E e) (s\<lparr>ap_paired := paired\<rparr>))))"

definition unpair_device :: "app_env \<Rightarrow> rstring \<Rightarrow> app \<Rightarrow> app" where
  "unpair_device E fingerprint s =
     (case paired_remove (ae_json E) (ae_written E) (ae_renamed E) fingerprint (ap_paired s) of
        (Inr None, paired) \<Rightarrow> refresh_list E (s\<lparr>ap_paired := paired\<rparr>)
      | (Inr (Some device), paired) \<Rightarrow>
          refresh_list E (log_line CatDiscovery (pd_alias device @ lit '': Unpaired'') (s\<lparr>ap_paired := paired\<rparr>))
      | (Inl e, paired) \<Rightarrow>
          refresh_list E (log_line CatDiscovery (lit ''Unpaired for this run, but saving failed: '' @ ae_show_error E e)
            (s\<lparr>ap_paired := paired\<rparr>)))"

text \<open>A key while the list is open; the result is whether to quit.\<close>

definition handle_device_list_key :: "app_env \<Rightarrow> key_code \<Rightarrow> app \<Rightarrow> bool \<times> app" where
  "handle_device_list_key E key s =
     (case ap_device_list s of
        None \<Rightarrow> (False, s)
      | Some l \<Rightarrow>
          (let (outcome, l1) = list_handle_key key l; s1 = s\<lparr>ap_device_list := Some l1\<rparr> in
           case outcome of
             ListOpen \<Rightarrow> (False, s1)
           | ListClosed \<Rightarrow> (ap_preselected s1 \<noteq> [], close_device_list s1)
           | ListSend fingerprint \<Rightarrow>
               (False,
                case (if ap_preselected s1 = [] then by_fingerprint (ae_store E) fingerprint else None) of
                  Some device \<Rightarrow>
                    open_picker E (PickDevice (dd_fingerprint (sd_device device)) (dd_alias (sd_device device))) s1
                | None \<Rightarrow>
                    (let s2 = close_device_list s1
                     in if ap_preselected s2 \<noteq> [] then start_send E fingerprint (ap_preselected s2) s2 else s2))
           | ListPair fingerprint \<Rightarrow> (False, pair_device E fingerprint s1)
           | ListUnpair fingerprint \<Rightarrow> (False, unpair_device E fingerprint s1)))"

section \<open>The loop\<close>

definition handle_picker_key :: "app_env \<Rightarrow> app \<Rightarrow> app" where
  "handle_picker_key E s =
     (case ap_picker s of
        None \<Rightarrow> s
      | Some target \<Rightarrow>
          (case ae_picker E of
             PickerOpen \<Rightarrow> s
           | Picked files \<Rightarrow>
               (let s1 = resume_ui (s\<lparr>ap_picker := None\<rparr>) in
                case target of
                  PickDevice fingerprint name \<Rightarrow> start_send E fingerprint files s1
                | PickWebShare \<Rightarrow> enable_web_share E files s1)
           | PickerCancelled \<Rightarrow> resume_ui (s\<lparr>ap_picker := None\<rparr>)))"

definition cancel_send :: "send_state \<Rightarrow> send_state" where
  "cancel_send send = send\<lparr>sst_cancel := (sst_cancel send)\<lparr>sc_token := True\<rparr>\<rparr>"

definition handle_ctrl_c :: "app_env \<Rightarrow> app \<Rightarrow> bool \<times> app" where
  "handle_ctrl_c E s =
     (if ap_picker s \<noteq> None then (False, resume_ui (s\<lparr>ap_picker := None\<rparr>))
      else if ap_device_list s \<noteq> None then (ap_preselected s \<noteq> [], close_device_list s)
      else
        (let s1 = (if ap_pending s \<noteq> None then answer_pending E AnswerDecline s else s);
             s2 = s1\<lparr>ap_send := map_option cancel_send (ap_send s1)\<rparr>;
             s3 = (if ap_receive s2 \<noteq> None then cancel_receive E s2 else s2)
         in (ap_pending s = None \<and> ap_send s1 = None \<and> ap_receive s2 = None, s3)))"

definition handle_key :: "app_env \<Rightarrow> key_event \<Rightarrow> app \<Rightarrow> bool \<times> app" where
  "handle_key E key s =
     (if ke_code key = KeyChar 99 \<and> ke_control key then handle_ctrl_c E (s\<lparr>ap_chord_w := False\<rparr>)
      else if ap_picker s \<noteq> None then (False, handle_picker_key E s)
      else if ap_device_list s \<noteq> None then handle_device_list_key E (ke_code key) s
      else
        (False,
         case ke_code key of
           KeyChar c \<Rightarrow>
             (let chord_w = ap_chord_w s; s1 = s\<lparr>ap_chord_w := False\<rparr>; k = ascii_lower c in
              if k = 115 \<and> chord_w then toggle_web_share E s1
              else if k = 114 \<and> chord_w then toggle_web_receive E s1
              else if k = 119 then s1\<lparr>ap_chord_w := True\<rparr>
              else if k = 121 then answer_pending E AnswerAccept s1
              else if k = 110 then answer_pending E AnswerDecline s1
              else if k = 112 then answer_pending E AnswerAcceptAndPair s1
              else if k = 100 then open_device_list E s1
              else if 49 \<le> k \<and> k \<le> 57 then start_picking E (k - 48) s1
              else s1)
         | _ \<Rightarrow> s))"

fun handle_event :: "app_env \<Rightarrow> app_event \<Rightarrow> app \<Rightarrow> bool \<times> app" where
  "handle_event E (KeyPressed key) s = handle_key E key s"
| "handle_event E (ReceiveFileResult session_id file_id outcome) s =
     (False, receive_file_result E session_id file_id outcome s)"
| "handle_event E (SendSessionStarted session_id n) s =
     (False, s\<lparr>ap_send := map_option (\<lambda>send. send\<lparr>sst_session_id := Some session_id, sst_total_bytes := n\<rparr>) (ap_send s)\<rparr>)"
| "handle_event E SendEnded s = (ap_preselected s \<noteq> [], render_status E (s\<lparr>ap_send := None\<rparr>))"
| "handle_event E (LogLine cat content) s = (False, log_line cat content s)"

definition tick :: "app_env \<Rightarrow> app \<Rightarrow> app" where
  "tick E s =
     (if ap_picker s \<noteq> None then s
      else if ap_device_list s \<noteq> None then refresh_list E s
      else render_status E s)"

datatype app_input =
    InEvent app_event
  | InServer server_event_v2
  | InWeb web_send_event
  | InDiscovery discovery_event
  | InTick

fun app_step :: "app_env \<Rightarrow> app_input \<Rightarrow> app \<Rightarrow> bool \<times> app" where
  "app_step E (InEvent event) s = handle_event E event s"
| "app_step E (InServer event) s = (False, handle_server_event E event s)"
| "app_step E (InWeb event) s = (False, handle_web_event event s)"
| "app_step E (InDiscovery event) s = (False, handle_discovery E event s)"
| "app_step E InTick s = (False, tick E s)"

text \<open>The loop ends when a handler says so.\<close>

fun app_run :: "(app_env \<times> app_input) list \<Rightarrow> app \<Rightarrow> bool \<times> app" where
  "app_run [] s = (False, s)"
| "app_run ((E, x) # inputs) s =
     (let (quit, s1) = app_step E x s in if quit then (True, s1) else app_run inputs s1)"

text \<open>The start, with an encrypted server; files given on the command line open the device list.\<close>

definition app_start :: "app_env \<Rightarrow> rstring \<Rightarrow> repository \<Rightarrow> paired_disk \<Rightarrow> rstring list \<Rightarrow> app" where
  "app_start E banner storage disk preselected =
     (let s = \<lparr>ap_ui = [], ap_out = [], ap_server = Some ServerTls, ap_web = None, ap_chord_w = False,
            ap_slots = slots_new, ap_destination = rp_destination storage, ap_identity = rp_identity storage,
            ap_paired = \<lparr>pv_devices = rp_paired storage, pv_disk = disk\<rparr>, ap_pending = None, ap_receive = None,
            ap_send = None, ap_picker = None, ap_device_list = None, ap_preselected = preselected\<rparr>
      in if preselected = [] then log_plain banner s else open_device_list E s)"

text \<open>After the loop: modals are left, the status line is removed and the server stopped.\<close>

definition app_shutdown :: "app \<Rightarrow> app" where
  "app_shutdown s =
     (let s1 = (if ap_picker s \<noteq> None then resume_ui (s\<lparr>ap_picker := None\<rparr>) else s);
          s2 = close_device_list s1
      in s2\<lparr>ap_ui := ap_ui s2 @ [UiStatus None], ap_server := None\<rparr>)"

end
