(* ===== verification/FB_CliAppFrame.thy ===== *)
theory FB_CliAppFrame
  imports FB_CliApp
begin

text \<open>
  What the handlers of the application leave alone: rewriting rules for the commands they
  emit and the fields they keep, collected in \<open>app_simps\<close>.
\<close>

section \<open>Selections of the commands\<close>

definition is_accept :: "app_command \<Rightarrow> bool" where
  "is_accept c = (case c of CmdDecide session_id (Accept ids) \<Rightarrow> ids \<noteq> [] | _ \<Rightarrow> False)"

definition is_send :: "app_command \<Rightarrow> bool" where
  "is_send c = (case c of CmdSend device files paths \<Rightarrow> True | _ \<Rightarrow> False)"

definition is_target :: "app_command \<Rightarrow> bool" where
  "is_target c = (case c of CmdTarget session_id file_id path \<Rightarrow> True | _ \<Rightarrow> False)"

definition commands :: "(app_command \<Rightarrow> bool) \<Rightarrow> app \<Rightarrow> app_command list" where
  "commands P s = filter P (ap_out s)"

named_theorems app_simps \<open>what the parts of a handler leave alone\<close>

lemma commands_quiet [app_simps]:
  "commands P (log_line cat content s) = commands P s"
  "commands P (log_plain content s) = commands P s"
  "commands P (suspend_ui s) = commands P s"
  "commands P (resume_ui s) = commands P s"
  "commands P (render_status E s) = commands P s"
  "commands P (close_device_list s) = commands P s"
  "commands P (emit c s) = commands P s @ (if P c then [c] else [])"
  by (simp_all add: commands_def log_line_def log_plain_def suspend_ui_def resume_ui_def render_status_def
      close_device_list_def emit_def split: option.split)

lemma commands_update [app_simps]:
  "commands P (s\<lparr>ap_server := x1\<rparr>) = commands P s" "commands P (s\<lparr>ap_web := x2\<rparr>) = commands P s"
  "commands P (s\<lparr>ap_chord_w := x3\<rparr>) = commands P s" "commands P (s\<lparr>ap_slots := x4\<rparr>) = commands P s"
  "commands P (s\<lparr>ap_paired := x5\<rparr>) = commands P s" "commands P (s\<lparr>ap_pending := x6\<rparr>) = commands P s"
  "commands P (s\<lparr>ap_receive := x7\<rparr>) = commands P s" "commands P (s\<lparr>ap_send := x8\<rparr>) = commands P s"
  "commands P (s\<lparr>ap_picker := x9\<rparr>) = commands P s" "commands P (s\<lparr>ap_device_list := x10\<rparr>) = commands P s"
  by (simp_all add: commands_def)

lemma collect_keeps [app_simps]:
  "commands P (snd (collect_files E picked s)) = commands P s"
proof -
  have "commands P (snd (collect_from E n picked acc s)) = commands P s" for n acc
    by (induction E n picked acc s rule: collect_from.induct) (simp_all add: app_simps Let_def split: option.split)
  then show ?thesis by (simp add: collect_files_def)
qed

lemma quiet_handlers [app_simps]:
  "commands P (refresh_paired_channels E fp s) = commands P s"
  "commands P (handle_discovery E event s) = commands P s"
  "commands P (finish_receive_if_done E s) = commands P s"
  "commands P (receive_file_result E session_id file_id outcome s) = commands P s"
  "commands P (pair_sender E p s) = commands P s"
  "commands P (open_picker E target s) = commands P s"
  "commands P (refresh_list E s) = commands P s"
  "commands P (pair_device E fp s) = commands P s"
  "commands P (unpair_device E fp s) = commands P s"
  "commands P (open_device_list E s) = commands P s"
  "commands P (tick E s) = commands P s"
proof -
  show refresh: "commands P (refresh_paired_channels E fp s) = commands P s" for fp s
    by (simp add: refresh_paired_channels_def app_simps split: option.split prod.split sum.split)
  show "commands P (handle_discovery E event s) = commands P s"
    by (simp add: handle_discovery_def Let_def app_simps refresh split: discovery_event.split prod.split)
  show finish: "commands P (finish_receive_if_done E s) = commands P s" for s
    by (simp add: finish_receive_if_done_def app_simps split: option.split)
  show "commands P (receive_file_result E session_id file_id outcome s) = commands P s"
    by (simp add: receive_file_result_def Let_def finish app_simps split: option.split sum.split)
  show "commands P (pair_sender E p s) = commands P s"
    by (simp add: pair_sender_def Let_def app_simps split: prod.split sum.split)
  show "commands P (open_picker E target s) = commands P s"
    by (simp add: open_picker_def Let_def app_simps)
  show list: "commands P (refresh_list E s) = commands P s" for s
    by (simp add: refresh_list_def app_simps split: option.split)
  show "commands P (pair_device E fp s) = commands P s"
    by (simp add: pair_device_def Let_def list app_simps split: option.split prod.split sum.split)
  show "commands P (unpair_device E fp s) = commands P s"
    by (simp add: unpair_device_def list app_simps split: option.split prod.split sum.split)
  show "commands P (open_device_list E s) = commands P s"
    by (simp add: open_device_list_def app_simps)
  show "commands P (tick E s) = commands P s"
    by (simp add: tick_def list app_simps)
qed

section \<open>What handlers leave alone\<close>

text \<open>Whether the log is held back, from the operations on the user interface alone.\<close>

definition held :: "app \<Rightarrow> bool" where
  "held s = foldl (\<lambda>b op. case op of UiSuspend \<Rightarrow> True | UiResume \<Rightarrow> False | _ \<Rightarrow> b) False (ap_ui s)"

lemma held_ui: "held s = ui_suspended (ui_run colored width (ap_ui s))"
proof -
  have step: "ui_suspended (ui_step colored width op u) =
      (case op of UiSuspend \<Rightarrow> True | UiResume \<Rightarrow> False | _ \<Rightarrow> ui_suspended u)" for op u
  proof (cases op)
    case (UiLog cat content)
    have "ui_suspended (foldl (\<lambda>u formatted. print_line formatted u) v ls) = ui_suspended v" for v ls
      by (induction ls arbitrary: v) (simp_all add: print_line_def)
    then show ?thesis by (simp add: UiLog print_block_def redraw_status_def clear_status_line_def split: option.split)
  qed (simp_all add: ui_suspend_def ui_resume_def set_status_def redraw_status_def clear_status_line_def split: option.split)
  have "foldl (\<lambda>b op. case op of UiSuspend \<Rightarrow> True | UiResume \<Rightarrow> False | _ \<Rightarrow> b) (ui_suspended u) ops =
      ui_suspended (foldl (\<lambda>u op. ui_step colored width op u) u ops)" for u ops
    by (induction ops arbitrary: u) (simp_all add: step [symmetric])
  from this [of ui_new "ap_ui s"] show ?thesis by (simp add: held_def ui_run_def ui_new_def)
qed

lemma held_ops [app_simps]:
  "held (s\<lparr>ap_ui := ap_ui s @ [op]\<rparr>) = (case op of UiSuspend \<Rightarrow> True | UiResume \<Rightarrow> False | _ \<Rightarrow> held s)"
  by (cases op) (simp_all add: held_def)

lemma held_update [app_simps]:
  "held (s\<lparr>ap_server := x1\<rparr>) = held s" "held (s\<lparr>ap_web := x2\<rparr>) = held s"
  "held (s\<lparr>ap_chord_w := x3\<rparr>) = held s" "held (s\<lparr>ap_slots := x4\<rparr>) = held s"
  "held (s\<lparr>ap_paired := x5\<rparr>) = held s" "held (s\<lparr>ap_pending := x6\<rparr>) = held s"
  "held (s\<lparr>ap_receive := x7\<rparr>) = held s" "held (s\<lparr>ap_send := x8\<rparr>) = held s"
  "held (s\<lparr>ap_picker := x9\<rparr>) = held s" "held (s\<lparr>ap_device_list := x10\<rparr>) = held s"
  "held (s\<lparr>ap_out := x11\<rparr>) = held s"
  by (simp_all add: held_def)

lemma log_frame [app_simps]:
  "ap_server (log_line cat content s) = ap_server s" "ap_web (log_line cat content s) = ap_web s"
  "ap_pending (log_line cat content s) = ap_pending s" "ap_receive (log_line cat content s) = ap_receive s"
  "ap_send (log_line cat content s) = ap_send s" "ap_picker (log_line cat content s) = ap_picker s"
  "ap_device_list (log_line cat content s) = ap_device_list s" "ap_preselected (log_line cat content s) = ap_preselected s"
  "ap_destination (log_line cat content s) = ap_destination s" "held (log_line cat content s) = held s"
  "ap_server (log_plain content s) = ap_server s" "ap_web (log_plain content s) = ap_web s"
  "ap_pending (log_plain content s) = ap_pending s" "ap_receive (log_plain content s) = ap_receive s"
  "ap_send (log_plain content s) = ap_send s" "ap_picker (log_plain content s) = ap_picker s"
  "ap_device_list (log_plain content s) = ap_device_list s" "ap_preselected (log_plain content s) = ap_preselected s"
  "ap_destination (log_plain content s) = ap_destination s" "held (log_plain content s) = held s"
  "ap_server (emit c s) = ap_server s" "ap_web (emit c s) = ap_web s"
  "ap_pending (emit c s) = ap_pending s" "ap_receive (emit c s) = ap_receive s"
  "ap_send (emit c s) = ap_send s" "ap_picker (emit c s) = ap_picker s"
  "ap_device_list (emit c s) = ap_device_list s" "ap_preselected (emit c s) = ap_preselected s"
  "ap_destination (emit c s) = ap_destination s" "held (emit c s) = held s"
  "ap_server (render_status E s) = ap_server s" "ap_web (render_status E s) = ap_web s"
  "ap_pending (render_status E s) = ap_pending s" "ap_receive (render_status E s) = ap_receive s"
  "ap_send (render_status E s) = ap_send s" "ap_picker (render_status E s) = ap_picker s"
  "ap_device_list (render_status E s) = ap_device_list s" "ap_preselected (render_status E s) = ap_preselected s"
  "ap_destination (render_status E s) = ap_destination s" "held (render_status E s) = held s"
  by (simp_all add: log_line_def log_plain_def emit_def render_status_def app_simps)

lemma screen_frame [app_simps]:
  "ap_server (suspend_ui s) = ap_server s" "ap_web (suspend_ui s) = ap_web s"
  "ap_pending (suspend_ui s) = ap_pending s" "ap_receive (suspend_ui s) = ap_receive s"
  "ap_send (suspend_ui s) = ap_send s" "ap_picker (suspend_ui s) = ap_picker s"
  "ap_device_list (suspend_ui s) = ap_device_list s" "ap_preselected (suspend_ui s) = ap_preselected s"
  "ap_destination (suspend_ui s) = ap_destination s" "ap_server (resume_ui s) = ap_server s"
  "ap_web (resume_ui s) = ap_web s" "ap_pending (resume_ui s) = ap_pending s"
  "ap_receive (resume_ui s) = ap_receive s" "ap_send (resume_ui s) = ap_send s"
  "ap_picker (resume_ui s) = ap_picker s" "ap_device_list (resume_ui s) = ap_device_list s"
  "ap_preselected (resume_ui s) = ap_preselected s" "ap_destination (resume_ui s) = ap_destination s"
  by (simp_all add: suspend_ui_def resume_ui_def)

lemma screen_held [app_simps]: "held (suspend_ui s)" "\<not> held (resume_ui s)"
  by (simp_all add: suspend_ui_def resume_ui_def held_ops)

lemma refresh_frame [app_simps]:
  "ap_server (refresh_paired_channels E fp s) = ap_server s" "ap_web (refresh_paired_channels E fp s) = ap_web s"
  "ap_pending (refresh_paired_channels E fp s) = ap_pending s" "ap_receive (refresh_paired_channels E fp s) = ap_receive s"
  "ap_send (refresh_paired_channels E fp s) = ap_send s" "ap_picker (refresh_paired_channels E fp s) = ap_picker s"
  "ap_device_list (refresh_paired_channels E fp s) = ap_device_list s" "ap_preselected (refresh_paired_channels E fp s) = ap_preselected s"
  "ap_destination (refresh_paired_channels E fp s) = ap_destination s" "held (refresh_paired_channels E fp s) = held s"
  by (simp_all add: refresh_paired_channels_def app_simps split: option.split prod.split sum.split)

lemma discovery_frame [app_simps]:
  "ap_server (handle_discovery E event s) = ap_server s" "ap_web (handle_discovery E event s) = ap_web s"
  "ap_pending (handle_discovery E event s) = ap_pending s" "ap_receive (handle_discovery E event s) = ap_receive s"
  "ap_send (handle_discovery E event s) = ap_send s" "ap_picker (handle_discovery E event s) = ap_picker s"
  "ap_device_list (handle_discovery E event s) = ap_device_list s" "ap_preselected (handle_discovery E event s) = ap_preselected s"
  "ap_destination (handle_discovery E event s) = ap_destination s" "held (handle_discovery E event s) = held s"
  by (simp_all add: handle_discovery_def Let_def app_simps split: discovery_event.split prod.split)

lemma confirmed_frame [app_simps]:
  "ap_server (device_confirmed host info s) = ap_server s" "ap_web (device_confirmed host info s) = ap_web s"
  "ap_pending (device_confirmed host info s) = ap_pending s" "ap_receive (device_confirmed host info s) = ap_receive s"
  "ap_send (device_confirmed host info s) = ap_send s" "ap_picker (device_confirmed host info s) = ap_picker s"
  "ap_device_list (device_confirmed host info s) = ap_device_list s" "ap_preselected (device_confirmed host info s) = ap_preselected s"
  "ap_destination (device_confirmed host info s) = ap_destination s" "held (device_confirmed host info s) = held s"
  by (simp_all add: device_confirmed_def app_simps)

lemma finish_frame [app_simps]:
  "ap_server (finish_receive_if_done E s) = ap_server s" "ap_web (finish_receive_if_done E s) = ap_web s"
  "ap_pending (finish_receive_if_done E s) = ap_pending s" "ap_send (finish_receive_if_done E s) = ap_send s"
  "ap_picker (finish_receive_if_done E s) = ap_picker s" "ap_device_list (finish_receive_if_done E s) = ap_device_list s"
  "ap_preselected (finish_receive_if_done E s) = ap_preselected s" "ap_destination (finish_receive_if_done E s) = ap_destination s"
  "held (finish_receive_if_done E s) = held s"
  by (simp_all add: finish_receive_if_done_def app_simps split: option.split)

lemma result_frame [app_simps]:
  "ap_server (receive_file_result E session_id file_id outcome s) = ap_server s" "ap_web (receive_file_result E session_id file_id outcome s) = ap_web s"
  "ap_pending (receive_file_result E session_id file_id outcome s) = ap_pending s" "ap_send (receive_file_result E session_id file_id outcome s) = ap_send s"
  "ap_picker (receive_file_result E session_id file_id outcome s) = ap_picker s" "ap_device_list (receive_file_result E session_id file_id outcome s) = ap_device_list s"
  "ap_preselected (receive_file_result E session_id file_id outcome s) = ap_preselected s" "ap_destination (receive_file_result E session_id file_id outcome s) = ap_destination s"
  "held (receive_file_result E session_id file_id outcome s) = held s"
  by (simp_all add: receive_file_result_def Let_def app_simps split: option.split sum.split)

lemma cancel_frame [app_simps]:
  "ap_server (cancel_receive E s) = ap_server s" "ap_web (cancel_receive E s) = ap_web s"
  "ap_pending (cancel_receive E s) = ap_pending s" "ap_send (cancel_receive E s) = ap_send s"
  "ap_picker (cancel_receive E s) = ap_picker s" "ap_device_list (cancel_receive E s) = ap_device_list s"
  "ap_preselected (cancel_receive E s) = ap_preselected s" "ap_destination (cancel_receive E s) = ap_destination s"
  "held (cancel_receive E s) = held s"
  by (simp_all add: cancel_receive_def app_simps split: option.split)

lemma pair_sender_frame [app_simps]:
  "ap_server (pair_sender E p s) = ap_server s" "ap_web (pair_sender E p s) = ap_web s"
  "ap_pending (pair_sender E p s) = ap_pending s" "ap_receive (pair_sender E p s) = ap_receive s"
  "ap_send (pair_sender E p s) = ap_send s" "ap_picker (pair_sender E p s) = ap_picker s"
  "ap_device_list (pair_sender E p s) = ap_device_list s" "ap_preselected (pair_sender E p s) = ap_preselected s"
  "ap_destination (pair_sender E p s) = ap_destination s" "held (pair_sender E p s) = held s"
  by (simp_all add: pair_sender_def Let_def app_simps split: option.split prod.split sum.split)

lemma answer_frame [app_simps]:
  "ap_server (answer_pending E ans s) = ap_server s" "ap_web (answer_pending E ans s) = ap_web s"
  "ap_send (answer_pending E ans s) = ap_send s" "ap_picker (answer_pending E ans s) = ap_picker s"
  "ap_device_list (answer_pending E ans s) = ap_device_list s" "ap_preselected (answer_pending E ans s) = ap_preselected s"
  "ap_destination (answer_pending E ans s) = ap_destination s" "held (answer_pending E ans s) = held s"
  by (simp_all add: answer_pending_def Let_def app_simps split: option.split)

lemma file_upload_frame [app_simps]:
  "ap_server (handle_file_upload E session_id file_id f s) = ap_server s" "ap_web (handle_file_upload E session_id file_id f s) = ap_web s"
  "ap_pending (handle_file_upload E session_id file_id f s) = ap_pending s" "ap_send (handle_file_upload E session_id file_id f s) = ap_send s"
  "ap_picker (handle_file_upload E session_id file_id f s) = ap_picker s" "ap_device_list (handle_file_upload E session_id file_id f s) = ap_device_list s"
  "ap_preselected (handle_file_upload E session_id file_id f s) = ap_preselected s" "ap_destination (handle_file_upload E session_id file_id f s) = ap_destination s"
  "held (handle_file_upload E session_id file_id f s) = held s"
  by (simp_all add: handle_file_upload_def app_simps split: option.split)

lemma prepare_frame [app_simps]:
  "ap_server (handle_prepare_upload E session_id ip info cert_fp files s) = ap_server s" "ap_web (handle_prepare_upload E session_id ip info cert_fp files s) = ap_web s"
  "ap_send (handle_prepare_upload E session_id ip info cert_fp files s) = ap_send s" "ap_picker (handle_prepare_upload E session_id ip info cert_fp files s) = ap_picker s"
  "ap_device_list (handle_prepare_upload E session_id ip info cert_fp files s) = ap_device_list s" "ap_preselected (handle_prepare_upload E session_id ip info cert_fp files s) = ap_preselected s"
  "ap_destination (handle_prepare_upload E session_id ip info cert_fp files s) = ap_destination s" "held (handle_prepare_upload E session_id ip info cert_fp files s) = held s"
  by (simp_all add: handle_prepare_upload_def Let_def app_simps split: option.split)

lemma server_frame [app_simps]:
  "ap_server (handle_server_event E event s) = ap_server s" "ap_web (handle_server_event E event s) = ap_web s"
  "ap_picker (handle_server_event E event s) = ap_picker s" "ap_device_list (handle_server_event E event s) = ap_device_list s"
  "ap_preselected (handle_server_event E event s) = ap_preselected s" "ap_destination (handle_server_event E event s) = ap_destination s"
  "held (handle_server_event E event s) = held s"
  by ((cases event; simp add: app_simps split: option.split)+)

lemma web_frame [app_simps]:
  "ap_server (handle_web_event wev s) = ap_server s" "ap_web (handle_web_event wev s) = ap_web s"
  "ap_pending (handle_web_event wev s) = ap_pending s" "ap_receive (handle_web_event wev s) = ap_receive s"
  "ap_send (handle_web_event wev s) = ap_send s" "ap_picker (handle_web_event wev s) = ap_picker s"
  "ap_device_list (handle_web_event wev s) = ap_device_list s" "ap_preselected (handle_web_event wev s) = ap_preselected s"
  "ap_destination (handle_web_event wev s) = ap_destination s" "held (handle_web_event wev s) = held s"
  by ((cases wev; simp add: app_simps split: option.split web_mode.split)+)

lemma close_list_frame [app_simps]:
  "ap_server (close_device_list s) = ap_server s" "ap_web (close_device_list s) = ap_web s"
  "ap_pending (close_device_list s) = ap_pending s" "ap_receive (close_device_list s) = ap_receive s"
  "ap_send (close_device_list s) = ap_send s" "ap_picker (close_device_list s) = ap_picker s"
  "ap_preselected (close_device_list s) = ap_preselected s" "ap_destination (close_device_list s) = ap_destination s"
  by (simp_all add: close_device_list_def app_simps split: option.split)

lemma collect_frame_aux:
  assumes "\<And>cat content s. f (log_line cat content s) = f s"
  shows "f (snd (collect_from E n picked acc s)) = f s"
  by (induction E n picked acc s rule: collect_from.induct) (simp_all add: assms Let_def split: option.split)

lemma collect_frame [app_simps]:
  "ap_server (snd (collect_files E picked s)) = ap_server s" "ap_web (snd (collect_files E picked s)) = ap_web s"
  "ap_pending (snd (collect_files E picked s)) = ap_pending s" "ap_receive (snd (collect_files E picked s)) = ap_receive s"
  "ap_send (snd (collect_files E picked s)) = ap_send s" "ap_picker (snd (collect_files E picked s)) = ap_picker s"
  "ap_device_list (snd (collect_files E picked s)) = ap_device_list s" "ap_preselected (snd (collect_files E picked s)) = ap_preselected s"
  "ap_destination (snd (collect_files E picked s)) = ap_destination s" "held (snd (collect_files E picked s)) = held s"
  by (simp_all add: collect_files_def collect_frame_aux app_simps)

lemma start_send_frame [app_simps]:
  "ap_server (start_send E fp picked s) = ap_server s" "ap_web (start_send E fp picked s) = ap_web s"
  "ap_pending (start_send E fp picked s) = ap_pending s" "ap_receive (start_send E fp picked s) = ap_receive s"
  "ap_picker (start_send E fp picked s) = ap_picker s" "ap_device_list (start_send E fp picked s) = ap_device_list s"
  "ap_preselected (start_send E fp picked s) = ap_preselected s" "ap_destination (start_send E fp picked s) = ap_destination s"
  "held (start_send E fp picked s) = held s"
  by (simp_all add: start_send_def case_prod_beta Let_def app_simps split: option.split)

lemma open_picker_frame [app_simps]:
  "ap_server (open_picker E target s) = ap_server s" "ap_web (open_picker E target s) = ap_web s"
  "ap_pending (open_picker E target s) = ap_pending s" "ap_receive (open_picker E target s) = ap_receive s"
  "ap_send (open_picker E target s) = ap_send s" "ap_preselected (open_picker E target s) = ap_preselected s"
  "ap_destination (open_picker E target s) = ap_destination s"
  by (simp_all add: open_picker_def Let_def app_simps)

lemma start_picking_frame [app_simps]:
  "ap_server (start_picking E slot s) = ap_server s" "ap_web (start_picking E slot s) = ap_web s"
  "ap_pending (start_picking E slot s) = ap_pending s" "ap_receive (start_picking E slot s) = ap_receive s"
  "ap_preselected (start_picking E slot s) = ap_preselected s" "ap_destination (start_picking E slot s) = ap_destination s"
  by (simp_all add: start_picking_def app_simps split: option.split)

lemma restart_frame [app_simps]:
  "ap_web (snd (restart_server E config s)) = ap_web s" "ap_pending (snd (restart_server E config s)) = ap_pending s"
  "ap_receive (snd (restart_server E config s)) = ap_receive s" "ap_send (snd (restart_server E config s)) = ap_send s"
  "ap_picker (snd (restart_server E config s)) = ap_picker s" "ap_device_list (snd (restart_server E config s)) = ap_device_list s"
  "ap_preselected (snd (restart_server E config s)) = ap_preselected s" "ap_destination (snd (restart_server E config s)) = ap_destination s"
  "held (snd (restart_server E config s)) = held s"
  by (simp_all add: restart_server_def Let_def app_simps)

lemma restore_frame [app_simps]:
  "ap_web (restore_encrypted_server E s) = ap_web s" "ap_pending (restore_encrypted_server E s) = ap_pending s"
  "ap_receive (restore_encrypted_server E s) = ap_receive s" "ap_send (restore_encrypted_server E s) = ap_send s"
  "ap_picker (restore_encrypted_server E s) = ap_picker s" "ap_device_list (restore_encrypted_server E s) = ap_device_list s"
  "ap_preselected (restore_encrypted_server E s) = ap_preselected s" "ap_destination (restore_encrypted_server E s) = ap_destination s"
  "held (restore_encrypted_server E s) = held s"
  by (simp_all add: restore_encrypted_server_def case_prod_beta app_simps)

lemma share_frame [app_simps]:
  "ap_pending (enable_web_share E picked s) = ap_pending s" "ap_receive (enable_web_share E picked s) = ap_receive s"
  "ap_send (enable_web_share E picked s) = ap_send s" "ap_picker (enable_web_share E picked s) = ap_picker s"
  "ap_device_list (enable_web_share E picked s) = ap_device_list s" "ap_preselected (enable_web_share E picked s) = ap_preselected s"
  "ap_destination (enable_web_share E picked s) = ap_destination s" "held (enable_web_share E picked s) = held s"
  by (simp_all add: enable_web_share_def case_prod_beta Let_def app_simps)

lemma disable_frame [app_simps]:
  "ap_pending (disable_web E cat feature s) = ap_pending s" "ap_receive (disable_web E cat feature s) = ap_receive s"
  "ap_send (disable_web E cat feature s) = ap_send s" "ap_picker (disable_web E cat feature s) = ap_picker s"
  "ap_device_list (disable_web E cat feature s) = ap_device_list s" "ap_preselected (disable_web E cat feature s) = ap_preselected s"
  "ap_destination (disable_web E cat feature s) = ap_destination s" "held (disable_web E cat feature s) = held s"
  by (simp_all add: disable_web_def case_prod_beta app_simps)

lemma toggle_frame [app_simps]:
  "ap_pending (toggle_web_share E s) = ap_pending s" "ap_receive (toggle_web_share E s) = ap_receive s"
  "ap_send (toggle_web_share E s) = ap_send s" "ap_preselected (toggle_web_share E s) = ap_preselected s"
  "ap_destination (toggle_web_share E s) = ap_destination s" "ap_pending (toggle_web_receive E s) = ap_pending s"
  "ap_receive (toggle_web_receive E s) = ap_receive s" "ap_send (toggle_web_receive E s) = ap_send s"
  "ap_preselected (toggle_web_receive E s) = ap_preselected s" "ap_destination (toggle_web_receive E s) = ap_destination s"
  by (simp_all add: toggle_web_share_def toggle_web_receive_def case_prod_beta Let_def app_simps split: option.split web_mode.split)

lemma refresh_list_frame [app_simps]:
  "ap_server (refresh_list E s) = ap_server s" "ap_web (refresh_list E s) = ap_web s"
  "ap_pending (refresh_list E s) = ap_pending s" "ap_receive (refresh_list E s) = ap_receive s"
  "ap_send (refresh_list E s) = ap_send s" "ap_picker (refresh_list E s) = ap_picker s"
  "ap_preselected (refresh_list E s) = ap_preselected s" "ap_destination (refresh_list E s) = ap_destination s"
  "held (refresh_list E s) = held s"
  by (simp_all add: refresh_list_def app_simps split: option.split)

lemma pair_frame [app_simps]:
  "ap_server (pair_device E fp s) = ap_server s" "ap_web (pair_device E fp s) = ap_web s"
  "ap_pending (pair_device E fp s) = ap_pending s" "ap_receive (pair_device E fp s) = ap_receive s"
  "ap_send (pair_device E fp s) = ap_send s" "ap_picker (pair_device E fp s) = ap_picker s"
  "ap_preselected (pair_device E fp s) = ap_preselected s" "ap_destination (pair_device E fp s) = ap_destination s"
  "held (pair_device E fp s) = held s" "ap_server (unpair_device E fp s) = ap_server s"
  "ap_web (unpair_device E fp s) = ap_web s" "ap_pending (unpair_device E fp s) = ap_pending s"
  "ap_receive (unpair_device E fp s) = ap_receive s" "ap_send (unpair_device E fp s) = ap_send s"
  "ap_picker (unpair_device E fp s) = ap_picker s" "ap_preselected (unpair_device E fp s) = ap_preselected s"
  "ap_destination (unpair_device E fp s) = ap_destination s" "held (unpair_device E fp s) = held s"
  by (simp_all add: pair_device_def unpair_device_def Let_def app_simps split: option.split prod.split sum.split)

lemma open_list_frame [app_simps]:
  "ap_server (open_device_list E s) = ap_server s" "ap_web (open_device_list E s) = ap_web s"
  "ap_pending (open_device_list E s) = ap_pending s" "ap_receive (open_device_list E s) = ap_receive s"
  "ap_send (open_device_list E s) = ap_send s" "ap_picker (open_device_list E s) = ap_picker s"
  "ap_preselected (open_device_list E s) = ap_preselected s" "ap_destination (open_device_list E s) = ap_destination s"
  by (simp_all add: open_device_list_def app_simps)

lemma tick_frame [app_simps]:
  "ap_server (tick E s) = ap_server s" "ap_web (tick E s) = ap_web s"
  "ap_pending (tick E s) = ap_pending s" "ap_receive (tick E s) = ap_receive s"
  "ap_send (tick E s) = ap_send s" "ap_picker (tick E s) = ap_picker s"
  "ap_preselected (tick E s) = ap_preselected s" "ap_destination (tick E s) = ap_destination s"
  "held (tick E s) = held s"
  by (simp_all add: tick_def app_simps)

end
