(* ===== verification/FB_CliAppSafety.thy ===== *)
theory FB_CliAppSafety
  imports FB_CliAppFrame
begin

text \<open>
  What holds of the application of the command line client in every run: transfers are
  accepted only by pairing or by a key pressed for them, the server is unencrypted exactly
  while a link is active, the log is held back exactly while a modal is open; and where the
  guards of single handlers fall short.
\<close>

section \<open>Accepting\<close>

lemma command_kinds [simp]:
  "is_accept (CmdDecide session_id decision) = (case decision of Accept ids \<Rightarrow> ids \<noteq> [] | Decline \<Rightarrow> False)"
  "\<not> is_accept (CmdTarget session_id file_id path)" "\<not> is_accept (CmdSend device files paths)"
  "\<not> is_accept (CmdAddDevice d)" "\<not> is_accept (CmdCancelSession session_id)" "\<not> is_accept (CmdNotifySender t session_id)"
  "\<not> is_accept (CmdRestart mode started)" "\<not> is_accept (CmdWebDecide session_id b)" "\<not> is_accept (CmdContent session_id path)"
  by (simp_all add: is_accept_def split: prepare_upload_decision_v2.split)

lemma accepts_of_handlers [app_simps]:
  "commands is_accept (device_confirmed host info s) = commands is_accept s"
  "commands is_accept (handle_file_upload E session_id file_id f s) = commands is_accept s"
  "commands is_accept (cancel_receive E s) = commands is_accept s"
  "commands is_accept (start_send E fp picked s) = commands is_accept s"
  "commands is_accept (snd (restart_server E config s)) = commands is_accept s"
  "commands is_accept (handle_web_event wev s) = commands is_accept s"
  "commands is_accept (answer_pending E AnswerDecline s) = commands is_accept s"
  by (simp_all add: device_confirmed_def handle_file_upload_def cancel_receive_def start_send_def restart_server_def
      answer_pending_def case_prod_beta Let_def app_simps split: option.split)
    (cases wev; simp add: app_simps split: option.split web_mode.split)

lemma accepts_of_links [app_simps]:
  "commands is_accept (restore_encrypted_server E s) = commands is_accept s"
  "commands is_accept (enable_web_share E picked s) = commands is_accept s"
  "commands is_accept (disable_web E cat feature s) = commands is_accept s"
  "commands is_accept (start_picking E slot s) = commands is_accept s"
proof -
  show restore: "commands is_accept (restore_encrypted_server E s) = commands is_accept s" for s
    by (simp add: restore_encrypted_server_def case_prod_beta app_simps)
  show "commands is_accept (enable_web_share E picked s) = commands is_accept s"
    by (simp add: enable_web_share_def case_prod_beta Let_def app_simps restore)
  show "commands is_accept (disable_web E cat feature s) = commands is_accept s"
    by (simp add: disable_web_def case_prod_beta app_simps)
  show "commands is_accept (start_picking E slot s) = commands is_accept s"
    by (simp add: start_picking_def app_simps split: option.split)
qed

lemma accepts_of_keys [app_simps]:
  "commands is_accept (toggle_web_share E s) = commands is_accept s"
  "commands is_accept (toggle_web_receive E s) = commands is_accept s"
  "commands is_accept (handle_picker_key E s) = commands is_accept s"
  "commands is_accept (snd (handle_device_list_key E key s)) = commands is_accept s"
  "commands is_accept (snd (handle_ctrl_c E s)) = commands is_accept s"
  by (simp_all add: toggle_web_share_def toggle_web_receive_def handle_picker_key_def handle_device_list_key_def
      handle_ctrl_c_def case_prod_beta Let_def app_simps
      split: option.split web_mode.split picker_outcome.split picker_target.split device_list_outcome.split)

text \<open>Whether a key accepts the pending request: Y or P, while no modal takes the keys.\<close>

definition says_yes :: "key_event \<Rightarrow> app \<Rightarrow> bool" where
  "says_yes key s \<longleftrightarrow>
     ap_picker s = None \<and> ap_device_list s = None \<and>
     (case ke_code key of KeyChar c \<Rightarrow> ascii_lower c \<in> {121, 112} | _ \<Rightarrow> False)"

definition sender_fingerprint :: "register_dto_v2 \<Rightarrow> rstring option \<Rightarrow> rstring" where
  "sender_fingerprint info cert_fp = (case cert_fp of Some fp \<Rightarrow> fp | None \<Rightarrow> r2_fingerprint info)"

definition auto_accepted :: "app \<Rightarrow> register_dto_v2 \<Rightarrow> rstring option \<Rightarrow> (rstring, file_dto) hash_map \<Rightarrow> bool" where
  "auto_accepted s info cert_fp files \<longleftrightarrow>
     message_of files = None \<and> paired_contains (pv_devices (ap_paired s)) (sender_fingerprint info cert_fp)"

text \<open>What one step accepts: the files of the request it answers.\<close>

definition accepts :: "app_input \<Rightarrow> app \<Rightarrow> (rstring \<times> (rstring, file_dto) hash_map) option" where
  "accepts x s =
     (case x of
        InServer (EvPrepareUpload session_id ip info cert_fp files) \<Rightarrow>
          if auto_accepted s info cert_fp files then Some (session_id, files) else None
      | InEvent (KeyPressed key) \<Rightarrow>
          if says_yes key s then map_option (\<lambda>p. (pnd_session_id p, pnd_files p)) (ap_pending s) else None
      | _ \<Rightarrow> None)"

definition accept_commands :: "(rstring \<times> (rstring, file_dto) hash_map) option \<Rightarrow> app_command list" where
  "accept_commands a =
     (case a of
        None \<Rightarrow> []
      | Some (session_id, files) \<Rightarrow> if files = [] then [] else [CmdDecide session_id (Accept (map fst files))])"

lemma confirmed_paired [simp]: "ap_paired (device_confirmed host info s) = ap_paired s"
  by (simp add: device_confirmed_def emit_def)

lemma accepts_of_prepare:
  "commands is_accept (handle_prepare_upload E session_id ip info cert_fp files s) =
     commands is_accept s @ accept_commands (if auto_accepted s info cert_fp files then Some (session_id, files) else None)"
  by (simp add: handle_prepare_upload_def auto_accepted_def sender_fingerprint_def accept_commands_def Let_def app_simps
      split: option.split)

lemma accepts_of_answer:
  "ans \<noteq> AnswerDecline \<Longrightarrow> commands is_accept (answer_pending E ans s) =
     commands is_accept s @ accept_commands (map_option (\<lambda>p. (pnd_session_id p, pnd_files p)) (ap_pending s))"
  by (simp add: answer_pending_def accept_commands_def Let_def app_simps split: option.split)

lemma step_accepts: "commands is_accept (snd (app_step E x s)) = commands is_accept s @ accept_commands (accepts x s)"
proof (cases x)
  case (InEvent event)
  show ?thesis
  proof (cases event)
    case (KeyPressed key)
    show ?thesis
      by (auto simp: InEvent KeyPressed accepts_def says_yes_def handle_key_def ascii_lower_def accepts_of_answer Let_def
          accept_commands_def app_simps split: key_code.split option.split)
  qed (simp_all add: InEvent accepts_def accept_commands_def app_simps)
next
  case (InServer event)
  show ?thesis
    by (cases event) (simp_all add: InServer accepts_def accepts_of_prepare app_simps accept_commands_def split: option.split)
qed (simp_all add: accepts_def accept_commands_def app_simps)

text \<open>
  The request a step asks the user about: an offer that is no message and whose sender is not paired.
\<close>

definition pending_request :: "rstring \<Rightarrow> peer_ip \<Rightarrow> register_dto_v2 \<Rightarrow> rstring option \<Rightarrow> (rstring, file_dto) hash_map \<Rightarrow> pending_receive" where
  "pending_request session_id ip info cert_fp files =
     \<lparr>pnd_session_id = session_id, pnd_alias = r2_alias info,
      pnd_sender = \<lparr>tgt_host = peer_ip_to_string ip, tgt_port = r2_port info, tgt_protocol = r2_protocol info,
        tgt_fingerprint = sender_fingerprint info cert_fp\<rparr>, pnd_files = files\<rparr>"

fun prompts_for :: "app_input \<Rightarrow> app \<Rightarrow> pending_receive option" where
  "prompts_for (InServer (EvPrepareUpload session_id ip info cert_fp files)) s =
     (if message_of files = None \<and> \<not> auto_accepted s info cert_fp files
      then Some (pending_request session_id ip info cert_fp files) else None)"
| "prompts_for _ s = None"

text \<open>A request that waits after a step has been asked about by this step, or waited before it.\<close>

lemma step_pending:
  assumes "ap_pending (snd (app_step E x s)) = Some p"
  shows "prompts_for x s = Some p \<or> prompts_for x s = None \<and> ap_pending s = Some p"
proof (cases x)
  case (InEvent event)
  have answer: "ap_pending (answer_pending E ans t) = None" for ans t
    by (simp add: answer_pending_def Let_def app_simps split: option.split)
  have list: "ap_pending (snd (handle_device_list_key E key t)) = ap_pending t" for key t
    by (simp add: handle_device_list_key_def case_prod_beta Let_def app_simps
        split: option.split device_list_outcome.split)
  have "ap_pending (snd (handle_event E event s)) \<in> {ap_pending s, None}"
    by (cases event)
      (auto simp: handle_key_def handle_ctrl_c_def handle_picker_key_def Let_def app_simps answer list
        split: key_code.split option.split picker_outcome.split picker_target.split)
  with assms show ?thesis by (auto simp: InEvent)
next
  case (InServer event)
  show ?thesis
  proof (cases event)
    case (EvPrepareUpload session_id ip info cert_fp files)
    have "ap_pending (handle_prepare_upload E session_id ip info cert_fp files s) =
        (case prompts_for x s of Some q \<Rightarrow> Some q | None \<Rightarrow> ap_pending s)"
      by (simp add: InServer EvPrepareUpload handle_prepare_upload_def pending_request_def sender_fingerprint_def
          auto_accepted_def Let_def app_simps split: option.split)
    with assms show ?thesis by (auto simp: InServer EvPrepareUpload split: if_splits)
  qed (use assms in \<open>auto simp: InServer app_simps split: option.splits if_splits\<close>)
qed (use assms in \<open>simp_all add: app_simps\<close>)

section \<open>Runs\<close>

lemma app_run_snoc:
  "app_run (inputs @ [(E, x)]) s =
     (if fst (app_run inputs s) then app_run inputs s else app_step E x (snd (app_run inputs s)))"
proof (induction inputs arbitrary: s)
  case Nil
  show ?case by (cases "app_step E x s") auto
next
  case (Cons input inputs)
  then show ?case by (cases input) (simp add: case_prod_beta)
qed

text \<open>An invariant of the steps holds in every run.\<close>

lemma run_invariant:
  assumes "P s" "\<And>E x t. P t \<Longrightarrow> P (snd (app_step E x t))"
  shows "P (snd (app_run inputs s))"
proof (induction inputs rule: rev_induct)
  case (snoc input inputs)
  then show ?case by (cases input) (auto simp: app_run_snoc assms(2))
qed (simp add: assms(1))

text \<open>The state in which the \<open>n\<close>-th input of a run is handled.\<close>

definition app_at :: "(app_env \<times> app_input) list \<Rightarrow> app \<Rightarrow> nat \<Rightarrow> app" where
  "app_at inputs s n = snd (app_run (take n inputs) s)"

lemma app_at_Suc:
  "n < length inputs \<Longrightarrow> inputs ! n = (E, x) \<Longrightarrow> app_at inputs s (Suc n) =
     (if fst (app_run (take n inputs) s) then app_at inputs s n else snd (app_step E x (app_at inputs s n)))"
  by (simp add: app_at_def take_Suc_conv_app_nth app_run_snoc)

lemma app_at_snoc [simp]: "n \<le> length inputs \<Longrightarrow> app_at (inputs @ later) s n = app_at inputs s n"
  by (simp add: app_at_def)

lemma app_at_0 [simp]: "app_at inputs s 0 = s"
  by (simp add: app_at_def)

lemma prompt_shown:
  assumes "prompts_for x s = Some p"
  shows "UiLog (Some CatReceive) (prompt_text E (ap_web s) (pnd_alias p) (pnd_files p)) \<in> set (ap_ui (snd (app_step E x s)))"
proof -
  obtain session_id ip info cert_fp files where x: "x = InServer (EvPrepareUpload session_id ip info cert_fp files)"
    and p: "message_of files = None" "\<not> auto_accepted s info cert_fp files" "p = pending_request session_id ip info cert_fp files"
    using assms by (cases "(x, s)" rule: prompts_for.cases) (auto split: if_splits)
  then show ?thesis
    by (simp add: handle_prepare_upload_def pending_request_def auto_accepted_def sender_fingerprint_def log_line_def
        device_confirmed_def emit_def Let_def)
qed

text \<open>The \<open>j\<close>-th input of a run is a request the user is asked about, with its prompt in the log.\<close>

definition asked :: "(app_env \<times> app_input) list \<Rightarrow> app \<Rightarrow> nat \<Rightarrow> pending_receive \<Rightarrow> bool" where
  "asked inputs s j p \<longleftrightarrow> prompts_for (snd (inputs ! j)) (app_at inputs s j) = Some p \<and>
     UiLog (Some CatReceive) (prompt_text (fst (inputs ! j)) (ap_web (app_at inputs s j)) (pnd_alias p) (pnd_files p))
       \<in> set (ap_ui (app_at inputs s (Suc j)))"

text \<open>A request that waits has been asked about, and nothing has taken its place since.\<close>

lemma pending_since:
  assumes "ap_pending s = None" "n \<le> length inputs" "\<not> fst (app_run (take n inputs) s)"
    and "ap_pending (app_at inputs s n) = Some p"
  shows "\<exists>j<n. asked inputs s j p \<and>
    (\<forall>m. j < m \<and> m < n \<longrightarrow> prompts_for (snd (inputs ! m)) (app_at inputs s m) = None \<and>
       ap_pending (app_at inputs s m) = Some p)"
  using assms(2-4)
proof (induction n)
  case (Suc n)
  obtain E x where input: "inputs ! n = (E, x)" by (cases "inputs ! n")
  have n: "n < length inputs" using Suc.prems(1) by simp
  have live: "\<not> fst (app_run (take n inputs) s)"
    using Suc.prems(2) by (auto simp: take_Suc_conv_app_nth n input app_run_snoc split: if_splits)
  then have step: "ap_pending (snd (app_step E x (app_at inputs s n))) = Some p"
    using Suc.prems(3) by (simp add: app_at_Suc [OF n input])
  show ?case
  proof (cases "prompts_for x (app_at inputs s n) = Some p")
    case True
    then have "asked inputs s n p"
      using prompt_shown [OF True, of E] by (simp add: asked_def input app_at_Suc [OF n input] live)
    then show ?thesis by (intro exI [of _ n]) auto
  next
    case False
    with step_pending [OF step] have kept: "prompts_for x (app_at inputs s n) = None" "ap_pending (app_at inputs s n) = Some p"
      by simp_all
    then obtain j where "j < n" "asked inputs s j p"
      "\<forall>m. j < m \<and> m < n \<longrightarrow> prompts_for (snd (inputs ! m)) (app_at inputs s m) = None \<and> ap_pending (app_at inputs s m) = Some p"
      using Suc.IH live n by auto
    with kept input show ?thesis by (intro exI [of _ j]) (auto simp: less_Suc_eq)
  qed
qed (use assms(1) in simp)

lemma run_accepts:
  "CmdDecide session_id (Accept ids) \<in> set (ap_out (snd (app_run inputs s))) \<Longrightarrow> ids \<noteq> [] \<Longrightarrow> ap_out s = [] \<Longrightarrow>
   \<exists>k<length inputs. \<exists>files. accepts (snd (inputs ! k)) (app_at inputs s k) = Some (session_id, files) \<and>
     ids = map fst files \<and> \<not> fst (app_run (take k inputs) s)"
proof (induction inputs rule: rev_induct)
  case (snoc input inputs)
  obtain E x where input: "input = (E, x)" by (cases input)
  have new: "CmdDecide session_id (Accept ids) \<in> set (commands is_accept (snd (app_run (inputs @ [input]) s)))"
    using snoc.prems(1,2) by (simp add: commands_def)
  show ?case
  proof (cases "CmdDecide session_id (Accept ids) \<in> set (ap_out (snd (app_run inputs s)))")
    case True
    then obtain k where "k < length inputs" "\<exists>files. accepts (snd (inputs ! k)) (app_at inputs s k) =
        Some (session_id, files) \<and> ids = map fst files \<and> \<not> fst (app_run (take k inputs) s)"
      using snoc by blast
    then show ?thesis by (intro exI [of _ k]) (simp add: nth_append)
  next
    case False
    with new have live: "\<not> fst (app_run inputs s)"
      and "CmdDecide session_id (Accept ids) \<in> set (accept_commands (accepts x (snd (app_run inputs s))))"
      by (auto simp: input app_run_snoc step_accepts split: if_splits) (simp_all add: commands_def)
    then obtain files where "accepts x (snd (app_run inputs s)) = Some (session_id, files)" "ids = map fst files"
      by (cases "accepts x (snd (app_run inputs s))") (auto simp: accept_commands_def split: if_splits)
    with live show ?thesis by (intro exI [of _ "length inputs"]) (simp add: input app_at_def)
  qed
qed simp

lemma pending_answered: "ap_pending (answer_pending E ans s) = None"
  by (simp add: answer_pending_def Let_def app_simps split: option.split)

lemma answered: "says_yes key s \<Longrightarrow> ap_pending (snd (handle_key E key s)) = None"
  by (simp add: says_yes_def handle_key_def pending_answered Let_def split: key_code.splits) (auto simp: ascii_lower_def)

lemma start_quiet [simp]:
  "ap_out (app_start E banner storage disk preselected) = []"
  "ap_pending (app_start E banner storage disk preselected) = None"
  by (simp_all add: app_start_def Let_def log_plain_def open_device_list_def suspend_ui_def)

section \<open>The screen and the server\<close>

text \<open>The log is held back exactly while one modal is open.\<close>

definition modal_ok :: "app \<Rightarrow> bool" where
  "modal_ok s \<longleftrightarrow> held s = (ap_picker s \<noteq> None \<or> ap_device_list s \<noteq> None) \<and>
     (ap_picker s = None \<or> ap_device_list s = None)"

text \<open>The server is the one of the link that is active; without one it is encrypted or stopped.\<close>

definition link_ok :: "app \<Rightarrow> bool" where
  "link_ok s =
     (case (ap_web s, ap_server s) of
        (None, None) \<Rightarrow> True
      | (None, Some ServerTls) \<Rightarrow> True
      | (Some WebReceive, Some (ServerPlain c)) \<Rightarrow> wcf_send c = None \<and> wcf_upload c
      | (Some (WebShare paths), Some (ServerPlain c)) \<Rightarrow>
          \<not> wcf_upload c \<and> (case wcf_send c of Some w \<Rightarrow> map fst (wc_files w) = map fst paths | None \<Rightarrow> False)
      | _ \<Rightarrow> False)"

definition share_picker_ok :: "app \<Rightarrow> bool" where
  "share_picker_ok s \<longleftrightarrow> (ap_picker s = Some PickWebShare \<longrightarrow> ap_web s = None)"


text \<open>The files of a share or a send and their paths have the same ids.\<close>

lemma collected_keys: "map fst (fst (fst (collect_files E picked s))) = map fst (fst (snd (fst (collect_files E picked s))))"
proof -
  have "map fst files = map fst paths \<Longrightarrow>
      map fst (fst (fst (collect_from E n picked (files, paths, b) s))) =
      map fst (fst (snd (fst (collect_from E n picked (files, paths, b) s))))" for n files paths b
  proof (induction picked arbitrary: n files paths b s)
    case (Cons path picked)
    then show ?case by (simp add: Let_def hm_insert_keys split: option.split)
  qed simp
  then show ?thesis by (simp add: collect_files_def)
qed

lemma share_link_ok: "link_ok s \<Longrightarrow> ap_web s = None \<Longrightarrow> link_ok (enable_web_share E picked s)"
  using collected_keys [of E picked s]
  by (simp add: enable_web_share_def restart_server_def restore_encrypted_server_def link_ok_def case_prod_beta Let_def
      app_simps)

lemma disable_link_ok: "link_ok (disable_web E cat feature s)"
  by (simp add: disable_web_def restart_server_def link_ok_def Let_def app_simps)

lemma link_ok_cong: "ap_web t = ap_web s \<Longrightarrow> ap_server t = ap_server s \<Longrightarrow> link_ok t = link_ok s"
  by (simp add: link_ok_def)

lemma toggle_link_ok:
  assumes "link_ok s"
  shows "link_ok (toggle_web_share E s)" "link_ok (toggle_web_receive E s)"
proof -
  show "link_ok (toggle_web_share E s)"
  proof (cases "ap_web s")
    case None
    have "link_ok (open_picker E PickWebShare s)" by (rule iffD2 [OF link_ok_cong assms]) (simp_all add: app_simps)
    with None assms show ?thesis
      by (simp add: toggle_web_share_def share_link_ok link_ok_cong [of "log_line cat content s" s for cat content] app_simps)
  next
    case (Some mode)
    with assms show ?thesis
      by (cases mode) (simp_all add: toggle_web_share_def disable_link_ok link_ok_cong [of "log_line cat content s" s for cat content] app_simps)
  qed
  show "link_ok (toggle_web_receive E s)"
  proof (cases "ap_web s")
    case None
    with assms show ?thesis
      by (simp add: toggle_web_receive_def link_ok_def restart_server_def restore_encrypted_server_def Let_def app_simps)
  next
    case (Some mode)
    with assms show ?thesis
      by (cases mode) (simp_all add: toggle_web_receive_def disable_link_ok link_ok_cong [of "log_line cat content s" s for cat content] app_simps)
  qed
qed

lemma modal_ok_cong:
  "held t = held s \<Longrightarrow> ap_picker t = ap_picker s \<Longrightarrow> (ap_device_list t = None) = (ap_device_list s = None) \<Longrightarrow>
   modal_ok t = modal_ok s"
  by (simp add: modal_ok_def)

lemma modal_ok_same [app_simps]:
  "modal_ok (log_line cat content s) = modal_ok s" "modal_ok (start_send E fp picked s) = modal_ok s"
  "modal_ok (answer_pending E ans s) = modal_ok s" "modal_ok (enable_web_share E picked s) = modal_ok s"
  "modal_ok (disable_web E cat feature s) = modal_ok s" "modal_ok (restore_encrypted_server E s) = modal_ok s"
  "modal_ok (snd (restart_server E config s)) = modal_ok s" "modal_ok (refresh_list E s) = modal_ok s"
  "modal_ok (cancel_receive E s) = modal_ok s" "modal_ok (s\<lparr>ap_chord_w := b\<rparr>) = modal_ok s"
  "modal_ok (s\<lparr>ap_send := x\<rparr>) = modal_ok s" "modal_ok (s\<lparr>ap_web := w\<rparr>) = modal_ok s" "modal_ok (s\<lparr>ap_paired := d\<rparr>) = modal_ok s"
  by (rule modal_ok_cong; simp add: app_simps refresh_list_def split: option.split)+

lemma modal_ok_screen [app_simps]:
  "modal_ok (resume_ui (s\<lparr>ap_picker := None\<rparr>)) = (ap_device_list s = None)"
  "modal_ok s \<Longrightarrow> modal_ok (close_device_list s)"
  "ap_picker s = None \<Longrightarrow> modal_ok s \<Longrightarrow> modal_ok (open_picker E target s)"
  "ap_picker s = None \<Longrightarrow> modal_ok s \<Longrightarrow> modal_ok (open_device_list E s)"
  "modal_ok s \<Longrightarrow> modal_ok (pair_device E fp s)" "modal_ok s \<Longrightarrow> modal_ok (unpair_device E fp s)"
  by (auto simp: modal_ok_def close_device_list_def open_picker_def open_device_list_def pair_device_def unpair_device_def
      refresh_list_def Let_def app_simps split: option.split prod.split sum.split)

lemma list_key_modal_ok:
  assumes "modal_ok s"
  shows "modal_ok (snd (handle_device_list_key E key s))"
proof (cases "ap_device_list s")
  case (Some l)
  have "modal_ok (s\<lparr>ap_device_list := Some l1\<rparr>)" for l1
    using assms Some by (simp add: modal_ok_def app_simps)
  moreover have "ap_picker s = None" using assms Some by (simp add: modal_ok_def)
  ultimately show ?thesis
    by (simp add: handle_device_list_key_def Some case_prod_beta Let_def app_simps
        split: device_list_outcome.split option.split)
qed (simp add: handle_device_list_key_def assms)

lemma key_modal_ok:
  assumes "modal_ok s"
  shows "modal_ok (snd (handle_key E key s))"
proof -
  have picker: "modal_ok (handle_picker_key E s)" if "ap_picker s \<noteq> None"
    using assms that
    by (simp add: handle_picker_key_def modal_ok_def [of s] Let_def app_simps split: option.split picker_outcome.split picker_target.split)
  have ctrl: "modal_ok (snd (handle_ctrl_c E (s\<lparr>ap_chord_w := False\<rparr>)))"
    using assms by (simp add: handle_ctrl_c_def Let_def app_simps) (auto simp: modal_ok_def)
  have toggles: "modal_ok (toggle_web_share E (s\<lparr>ap_chord_w := False\<rparr>))" "modal_ok (toggle_web_receive E (s\<lparr>ap_chord_w := False\<rparr>))"
      "modal_ok (start_picking E n (s\<lparr>ap_chord_w := False\<rparr>))" if "ap_picker s = None" for n
    using assms that
    by (simp_all add: toggle_web_share_def toggle_web_receive_def start_picking_def case_prod_beta Let_def app_simps
        split: option.split web_mode.split)
  show ?thesis
    using assms
    by (simp add: handle_key_def Let_def picker ctrl toggles list_key_modal_ok app_simps split: key_code.split)
qed

text \<open>Only the links change the server.\<close>

definition web_ok :: "app \<Rightarrow> bool" where
  "web_ok s \<longleftrightarrow> link_ok s \<and> share_picker_ok s"

lemma web_ok_keeps:
  "web_ok s \<Longrightarrow> ap_web t = ap_web s \<Longrightarrow> ap_server t = ap_server s \<Longrightarrow>
   (ap_picker t = Some PickWebShare \<Longrightarrow> ap_picker s = Some PickWebShare) \<Longrightarrow> web_ok t"
  by (auto simp: web_ok_def share_picker_ok_def link_ok_def)

lemma device_picker: "ap_picker (open_picker E (PickDevice fp name) s) = Some PickWebShare \<Longrightarrow> ap_picker s = Some PickWebShare"
  by (simp add: open_picker_def Let_def app_simps split: if_splits)

lemma start_picking_picker: "ap_picker (start_picking E slot s) = Some PickWebShare \<Longrightarrow> ap_picker s = Some PickWebShare"
  by (auto simp: start_picking_def app_simps split: option.splits if_splits dest: device_picker)

lemma list_key_web:
  "ap_web (snd (handle_device_list_key E key s)) = ap_web s"
  "ap_server (snd (handle_device_list_key E key s)) = ap_server s"
  "ap_picker (snd (handle_device_list_key E key s)) = Some PickWebShare \<Longrightarrow> ap_picker s = Some PickWebShare"
  by (simp_all add: handle_device_list_key_def case_prod_beta Let_def app_simps
      split: option.split device_list_outcome.split)
    (auto simp: handle_device_list_key_def case_prod_beta Let_def app_simps
      split: option.splits device_list_outcome.splits if_splits dest: device_picker)

lemma share_web_ok: "web_ok s \<Longrightarrow> ap_web s = None \<Longrightarrow> ap_picker s = None \<Longrightarrow> web_ok (enable_web_share E picked s)"
  by (simp add: web_ok_def share_link_ok share_picker_ok_def app_simps)

lemma toggle_web_ok:
  assumes "web_ok s" "ap_picker s = None"
  shows "web_ok (toggle_web_share E s)" "web_ok (toggle_web_receive E s)"
proof -
  have "ap_picker (toggle_web_share E s) = Some PickWebShare \<Longrightarrow> ap_web (toggle_web_share E s) = None"
    using assms(2)
    by (auto simp: toggle_web_share_def open_picker_def Let_def app_simps split: option.splits web_mode.splits if_splits)
  then show "web_ok (toggle_web_share E s)"
    using assms(1) by (simp add: web_ok_def toggle_link_ok share_picker_ok_def)
  have "ap_picker (toggle_web_receive E s) = None"
    using assms(2)
    by (simp add: toggle_web_receive_def case_prod_beta Let_def app_simps split: option.split web_mode.split)
  then show "web_ok (toggle_web_receive E s)"
    using assms(1) by (simp add: web_ok_def toggle_link_ok share_picker_ok_def)
qed

lemma key_web_ok:
  assumes "web_ok s"
  shows "web_ok (snd (handle_key E key s))"
proof -
  let ?s1 = "s\<lparr>ap_chord_w := False\<rparr>"
  have s1: "web_ok (s\<lparr>ap_chord_w := b\<rparr>)" for b using assms by (rule web_ok_keeps) simp_all
  have ctrl: "web_ok (snd (handle_ctrl_c E ?s1))"
    by (rule web_ok_keeps [OF assms]; simp add: handle_ctrl_c_def Let_def app_simps split: if_splits)
  have picker: "web_ok (handle_picker_key E s)"
  proof (cases "ap_picker s")
    case (Some target)
    let ?t = "resume_ui (s\<lparr>ap_picker := None\<rparr>)"
    have t: "web_ok ?t" by (rule web_ok_keeps [OF assms]) (simp_all add: app_simps)
    show ?thesis
    proof (cases "target = PickWebShare")
      case True
      then have "ap_web s = None" using assms Some by (simp add: web_ok_def share_picker_ok_def)
      with True Some t assms show ?thesis
        by (simp add: handle_picker_key_def share_web_ok Let_def app_simps split: picker_outcome.split)
    next
      case False
      then obtain fp name where target: "target = PickDevice fp name" by (cases target) auto
      show ?thesis
        by (rule web_ok_keeps [OF assms]; simp add: handle_picker_key_def Some target Let_def app_simps split: picker_outcome.splits)
    qed
  qed (simp add: handle_picker_key_def assms)
  have list: "web_ok (snd (handle_device_list_key E code s))" for code
    by (rule web_ok_keeps [OF assms]) (simp_all add: list_key_web)
  have pick: "web_ok (start_picking E n ?s1)" for n
    by (rule web_ok_keeps [OF assms]) (simp_all add: app_simps, drule start_picking_picker, simp)
  have answers: "web_ok (answer_pending E ans ?s1)" "web_ok (open_device_list E ?s1)" for ans
    by (rule web_ok_keeps [OF assms]; simp add: app_simps)+
  show ?thesis
    using assms by (simp add: handle_key_def Let_def ctrl picker list pick answers toggle_web_ok s1 split: key_code.split)
qed

definition app_ok :: "app \<Rightarrow> bool" where
  "app_ok s \<longleftrightarrow> modal_ok s \<and> web_ok s"

lemma app_ok_keeps:
  "app_ok s \<Longrightarrow> held t = held s \<Longrightarrow> ap_picker t = ap_picker s \<Longrightarrow> (ap_device_list t = None) = (ap_device_list s = None) \<Longrightarrow>
   ap_web t = ap_web s \<Longrightarrow> ap_server t = ap_server s \<Longrightarrow> app_ok t"
  using modal_ok_cong [of t s] web_ok_keeps [of s t] by (simp add: app_ok_def)

lemma step_ok: "app_ok s \<Longrightarrow> app_ok (snd (app_step E x s))"
proof -
  assume ok: "app_ok s"
  show ?thesis
  proof (cases x)
    case (InEvent event)
    show ?thesis
    proof (cases event)
      case (KeyPressed key)
      with InEvent ok show ?thesis by (simp add: app_ok_def key_modal_ok key_web_ok)
    qed (rule app_ok_keeps [OF ok]; simp add: InEvent app_simps)+
  next
    case InTick
    show ?thesis by (rule app_ok_keeps [OF ok]; simp add: InTick app_simps) (simp add: tick_def refresh_list_def app_simps split: option.split)
  qed (rule app_ok_keeps [OF ok]; simp add: app_simps)+
qed

lemma start_ok: "app_ok (app_start E banner storage disk preselected)"
  by (simp add: app_start_def app_ok_def modal_ok_def web_ok_def link_ok_def share_picker_ok_def open_device_list_def
      log_plain_def suspend_ui_def held_def Let_def)

section \<open>Targets and sends\<close>

lemma other_kinds [simp]:
  "is_target (CmdTarget session_id file_id path)" "\<not> is_target (CmdDecide session_id decision)"
  "\<not> is_target (CmdSend device files paths)" "\<not> is_target (CmdAddDevice d)" "\<not> is_target (CmdCancelSession session_id)"
  "\<not> is_target (CmdNotifySender t session_id)" "\<not> is_target (CmdRestart mode started)"
  "\<not> is_target (CmdWebDecide session_id b)" "\<not> is_target (CmdContent session_id path)"
  "is_send (CmdSend device files paths)" "\<not> is_send (CmdDecide session_id decision)"
  "\<not> is_send (CmdTarget session_id file_id path)" "\<not> is_send (CmdAddDevice d)" "\<not> is_send (CmdCancelSession session_id)"
  "\<not> is_send (CmdNotifySender t session_id)" "\<not> is_send (CmdRestart mode started)"
  "\<not> is_send (CmdWebDecide session_id b)" "\<not> is_send (CmdContent session_id path)"
  by (simp_all add: is_target_def is_send_def)

lemma kept_by_handlers [app_simps]:
  assumes "P = is_target \<or> P = is_send"
  shows "commands P (device_confirmed host info s) = commands P s"
    "commands P (cancel_receive E s) = commands P s"
    "commands P (snd (restart_server E config s)) = commands P s"
    "commands P (handle_web_event wev s) = commands P s"
    "commands P (answer_pending E ans s) = commands P s"
    "commands P (handle_prepare_upload E session_id ip info cert_fp files s) = commands P s"
proof -
  have no: "\<not> P (CmdDecide session_id decision)" "\<not> P (CmdAddDevice d)" "\<not> P (CmdCancelSession session_id)"
      "\<not> P (CmdNotifySender t session_id)" "\<not> P (CmdRestart mode started)" "\<not> P (CmdWebDecide session_id b)"
      "\<not> P (CmdContent session_id path)" for session_id decision d t mode started b path
    using assms by auto
  show confirmed: "commands P (device_confirmed host info s) = commands P s" for host info
    by (simp add: device_confirmed_def no app_simps)
  show "commands P (cancel_receive E s) = commands P s" "commands P (snd (restart_server E config s)) = commands P s"
      "commands P (answer_pending E ans s) = commands P s"
    by (simp_all add: cancel_receive_def restart_server_def answer_pending_def Let_def no app_simps split: option.split)
  show "commands P (handle_web_event wev s) = commands P s"
    by (cases wev) (simp_all add: no app_simps split: option.split web_mode.split)
  show "commands P (handle_prepare_upload E session_id ip info cert_fp files s) = commands P s"
    by (simp add: handle_prepare_upload_def Let_def no confirmed app_simps split: option.split)
qed

lemma kept_by_links [app_simps]:
  assumes "P = is_target \<or> P = is_send"
  shows "commands P (restore_encrypted_server E s) = commands P s"
    "commands P (enable_web_share E picked s) = commands P s"
    "commands P (disable_web E cat feature s) = commands P s"
    "commands P (toggle_web_share E s) = commands P s"
    "commands P (toggle_web_receive E s) = commands P s"
proof -
  show restore: "commands P (restore_encrypted_server E s) = commands P s" for s
    by (simp add: restore_encrypted_server_def case_prod_beta app_simps assms)
  show share: "commands P (enable_web_share E picked s) = commands P s" for picked
    by (simp add: enable_web_share_def case_prod_beta Let_def app_simps assms restore)
  show disable: "commands P (disable_web E cat feature s) = commands P s" for cat feature
    by (simp add: disable_web_def case_prod_beta app_simps assms)
  show "commands P (toggle_web_share E s) = commands P s" "commands P (toggle_web_receive E s) = commands P s"
    by (simp_all add: toggle_web_share_def toggle_web_receive_def case_prod_beta Let_def app_simps assms restore share disable
        split: option.split web_mode.split)
qed

text \<open>A send starts only while there is none.\<close>

lemma sending_refused:
  "ap_send s \<noteq> None \<Longrightarrow> start_send E fp picked s = log_line CatSend (lit ''A send is already in progress'') s"
  by (simp add: start_send_def)

lemma sends_of_keys:
  assumes "ap_send s \<noteq> None"
  shows "commands is_send (snd (handle_key E key s)) = commands is_send s \<and>
    ap_send (snd (handle_key E key s)) \<noteq> None \<and> (ap_preselected s = [] \<longrightarrow> \<not> fst (handle_key E key s))"
proof -
  have pick: "commands is_send (start_picking E n t) = commands is_send t \<and> ap_send (start_picking E n t) = ap_send t"
    if "ap_send t \<noteq> None" for n t
    using that by (simp add: start_picking_def sending_refused app_simps split: option.split)
  have picker: "commands is_send (handle_picker_key E s) = commands is_send s \<and> ap_send (handle_picker_key E s) = ap_send s"
    using assms by (simp add: handle_picker_key_def Let_def sending_refused app_simps
        split: option.split picker_outcome.split picker_target.split)
  have list: "commands is_send (snd (handle_device_list_key E code s)) = commands is_send s \<and>
      ap_send (snd (handle_device_list_key E code s)) = ap_send s \<and>
      (ap_preselected s = [] \<longrightarrow> \<not> fst (handle_device_list_key E code s))" for code
    using assms by (simp add: handle_device_list_key_def case_prod_beta Let_def sending_refused app_simps
        split: option.split device_list_outcome.split)
  have ctrl: "commands is_send (snd (handle_ctrl_c E t)) = commands is_send t \<and>
      ap_send (snd (handle_ctrl_c E t)) \<noteq> None \<and> (ap_preselected t = [] \<longrightarrow> \<not> fst (handle_ctrl_c E t))"
    if "ap_send t \<noteq> None" for t
    using that by (simp add: handle_ctrl_c_def Let_def app_simps)
  show ?thesis
    using assms by (simp add: handle_key_def Let_def pick picker list ctrl app_simps del: not_None_eq split: key_code.split)
qed

lemma sends_blocked:
  assumes "ap_send s \<noteq> None" "ap_preselected s = []" "x \<noteq> InEvent SendEnded"
  shows "\<not> fst (app_step E x s)" "ap_send (snd (app_step E x s)) \<noteq> None"
    "commands is_send (snd (app_step E x s)) = commands is_send s" "ap_preselected (snd (app_step E x s)) = []"
proof -
  have key: "ap_preselected (snd (handle_key E key s)) = ap_preselected s" for key
  proof -
    have "ap_preselected (snd (handle_device_list_key E code t)) = ap_preselected t" for code t
      by (simp add: handle_device_list_key_def case_prod_beta Let_def app_simps split: option.split device_list_outcome.split)
    then show ?thesis
      by (simp add: handle_key_def handle_ctrl_c_def handle_picker_key_def Let_def app_simps
          split: key_code.split option.split picker_outcome.split picker_target.split)
  qed
  have event: "\<not> fst (handle_event E event s) \<and> ap_send (snd (handle_event E event s)) \<noteq> None \<and>
      commands is_send (snd (handle_event E event s)) = commands is_send s \<and> ap_preselected (snd (handle_event E event s)) = []"
    if "event \<noteq> SendEnded" for event
    using assms(1,2) that sends_of_keys [of s E] by (cases event) (simp_all add: key app_simps)
  have server: "commands is_send (handle_server_event E ev s) = commands is_send s \<and>
      ap_send (handle_server_event E ev s) \<noteq> None" for ev
    using assms(1) by (cases ev) (simp_all add: handle_file_upload_def app_simps split: option.split)
  show "\<not> fst (app_step E x s)" "ap_send (snd (app_step E x s)) \<noteq> None"
      "commands is_send (snd (app_step E x s)) = commands is_send s" "ap_preselected (snd (app_step E x s)) = []"
    using assms event server by (cases x; auto simp: app_simps)+
qed

definition targets :: "app_env \<Rightarrow> app_input \<Rightarrow> app \<Rightarrow> app_command list" where
  "targets E x s =
     (case x of
        InServer (EvFileUpload session_id file_id f) \<Rightarrow>
          (case ap_receive s of
             None \<Rightarrow> []
           | Some r \<Rightarrow>
               if rcv_session_id r \<noteq> session_id then []
               else (case unique_path (ae_os E) (ae_exists E) (ap_destination s) (fd_file_name f) of
                   None \<Rightarrow> [] | Some path \<Rightarrow> [CmdTarget session_id file_id path]))
      | _ \<Rightarrow> [])"

lemma targets_inv:
  assumes "CmdTarget session_id file_id path \<in> set (targets E x s)"
  obtains f r where "x = InServer (EvFileUpload session_id file_id f)" "ap_receive s = Some r"
    "rcv_session_id r = session_id" "unique_path (ae_os E) (ae_exists E) (ap_destination s) (fd_file_name f) = Some path"
proof (cases x)
  case (InServer event)
  with assms that show ?thesis
    by (cases event; cases "ap_receive s") (auto simp: targets_def split: option.splits if_splits)
qed (use assms in \<open>simp_all add: targets_def\<close>)

lemma step_targets: "commands is_target (snd (app_step E x s)) = commands is_target s @ targets E x s"
proof -
  have sends: "commands is_target (start_send E fp picked t) = commands is_target t"
      "commands is_target (start_picking E n t) = commands is_target t" for fp picked n t
    by (simp_all add: start_send_def start_picking_def case_prod_beta Let_def app_simps split: option.split)
  have keys: "commands is_target (snd (handle_key E key s)) = commands is_target s" for key
  proof -
    have "commands is_target (snd (handle_device_list_key E code s)) = commands is_target s" for code
      by (simp add: handle_device_list_key_def case_prod_beta Let_def sends app_simps
          split: option.split device_list_outcome.split)
    then show ?thesis
      by (simp add: handle_key_def handle_ctrl_c_def handle_picker_key_def Let_def sends app_simps
          split: key_code.split option.split picker_outcome.split picker_target.split)
  qed
  show ?thesis
  proof (cases x)
    case (InEvent event)
    show ?thesis by (cases event) (simp_all add: InEvent targets_def keys app_simps)
  next
    case (InServer event)
    show ?thesis
      by (cases event) (simp_all add: InServer targets_def handle_file_upload_def app_simps split: option.split)
  qed (simp_all add: targets_def app_simps)
qed

section \<open>Properties\<close>

text \<open>
  C10. In every run, files are accepted by a step that accepts exactly them: it is either the
  offer itself, of a sender that is paired, or a key Y or P that no modal takes. In the second case
  the request that is accepted is the one that waits at this key: the prompt for it was shown,
  and since then it has waited without a break and the user has been asked about no other
  request; afterwards nothing waits, so that the key accepts no second request.
\<close>

theorem transfers_consented:
  assumes "CmdDecide session_id (Accept ids) \<in> set (ap_out (snd (app_run inputs (app_start E banner storage disk preselected))))"
    and "ids \<noteq> []"
  shows "case app_at inputs (app_start E banner storage disk preselected) of at \<Rightarrow>
    \<exists>k<length inputs. commands is_accept (at (Suc k)) = commands is_accept (at k) @ [CmdDecide session_id (Accept ids)] \<and>
      ((\<exists>ip info cert_fp files. snd (inputs ! k) = InServer (EvPrepareUpload session_id ip info cert_fp files) \<and>
          ids = map fst files \<and> auto_accepted (at k) info cert_fp files) \<or>
       (\<exists>key p. snd (inputs ! k) = InEvent (KeyPressed key) \<and> says_yes key (at k) \<and>
          pnd_session_id p = session_id \<and> ids = map fst (pnd_files p) \<and>
          ap_pending (at k) = Some p \<and> ap_pending (at (Suc k)) = None \<and>
          (\<exists>j<k. asked inputs (app_start E banner storage disk preselected) j p \<and>
             (\<forall>m. j < m \<and> m < k \<longrightarrow> prompts_for (snd (inputs ! m)) (at m) = None \<and> ap_pending (at m) = Some p))))"
proof -
  let ?s = "app_start E banner storage disk preselected"
  let ?at = "app_at inputs ?s"
  obtain k files where k: "k < length inputs" "ids = map fst files" "\<not> fst (app_run (take k inputs) ?s)"
      "accepts (snd (inputs ! k)) (?at k) = Some (session_id, files)"
    using run_accepts [OF assms start_quiet(1)] by blast
  obtain Ek x where input: "inputs ! k = (Ek, x)" by (cases "inputs ! k")
  have after: "?at (Suc k) = snd (app_step Ek x (?at k))" using k(1,3) by (simp add: app_at_Suc input)
  have "files \<noteq> []" using assms(2) k(2) by auto
  then have "commands is_accept (?at (Suc k)) = commands is_accept (?at k) @ [CmdDecide session_id (Accept ids)]"
    using k(2,4) by (simp add: after step_accepts input accept_commands_def)
  note emitted = this
  consider (server) ip info cert_fp where "x = InServer (EvPrepareUpload session_id ip info cert_fp files)"
        "auto_accepted (?at k) info cert_fp files"
    | (key) key p where "x = InEvent (KeyPressed key)" "says_yes key (?at k)"
        "ap_pending (?at k) = Some p" "pnd_session_id p = session_id" "pnd_files p = files"
    using k(4) by (auto simp: accepts_def input split: app_input.splits app_event.splits server_event_v2.splits if_splits)
  then show ?thesis
  proof cases
    case server
    with k(1,2) emitted input show ?thesis by (intro exI [of _ k]) auto
  next
    case key
    have "ap_pending (?at (Suc k)) = None" using key(1,2) by (simp add: after answered)
    moreover obtain j where "j < k" "asked inputs ?s j p"
        "\<forall>m. j < m \<and> m < k \<longrightarrow> prompts_for (snd (inputs ! m)) (?at m) = None \<and> ap_pending (?at m) = Some p"
      using pending_since [OF start_quiet(2) _ k(3) key(3)] k(1) by auto
    ultimately show ?thesis
      using k(1,2) emitted input key by (intro exI [of _ k]) auto
  qed
qed

definition demo_app_env :: app_env where
  "demo_app_env =
     \<lparr>ae_store = [demo_send_peer Https], ae_json = demo_json_paired, ae_written = WriteDone, ae_renamed = True,
      ae_waiting = True, ae_os = TargetOtherUnix, ae_exists = (\<lambda>path. False), ae_picker = Picked [lit ''/n''],
      ae_stat = (\<lambda>path. Some (3, lit ''text'', None)), ae_fresh = (\<lambda>n. lit ''f''), ae_opens = True,
      ae_starts_plain = True, ae_starts_tls = True, ae_addresses = [], ae_qr = (\<lambda>a. None), ae_elapsed = 1,
      ae_format_bytes = (\<lambda>n. []), ae_show_error = (\<lambda>e. []), ae_status = (\<lambda>r t. [])\<rparr>"

definition demo_storage :: "paired_map \<Rightarrow> repository" where
  "demo_storage paired =
     \<lparr>rp_dir = [], rp_destination = lit ''d'', rp_identity = demo_identity, rp_paired = paired\<rparr>"

definition demo_app :: "paired_map \<Rightarrow> app" where
  "demo_app paired = app_start demo_app_env [] (demo_storage paired) \<lparr>dk_main = None, dk_temp = None\<rparr> []"

definition demo_event :: server_event_v2 where
  "demo_event = EvPrepareUpload (lit ''s'') (ci_ip (demo_client 7)) FB_Upload.demo_register None (pu2_files demo_offer)"

definition demo_paired_map :: paired_map where
  "demo_paired_map = [(lit ''F'', \<lparr>pd_alias = lit ''A'', pd_channels = []\<rparr>)]"

definition demo_yes :: key_event where
  "demo_yes = \<lparr>ke_code = KeyChar 121, ke_control = False\<rparr>"

definition demo_asked :: "(app_env \<times> app_input) list" where
  "demo_asked = [(demo_app_env, InServer demo_event), (demo_app_env, InEvent (KeyPressed demo_yes))]"

lemma demo_accepted: "CmdDecide (lit ''s'') (Accept [lit ''a'', lit ''b'']) \<in> set (ap_out (snd (app_run demo_asked (demo_app []))))"
  by (simp add: demo_app_def demo_event_def app_start_def handle_prepare_upload_def demo_offer_def message_of_def
      paired_contains_def demo_storage_def FB_Upload.demo_register_def log_plain_def log_line_def emit_def
      device_confirmed_def demo_identity_def demo_app_env_def lit_def demo_asked_def demo_yes_def handle_key_def
      ascii_lower_def answer_pending_def Let_def)

theorem transfers_consented_witness:
  "\<exists>p. ap_pending (app_at demo_asked (demo_app []) 1) = Some p \<and> pnd_session_id p = lit ''s'' \<and>
     prompts_for (InServer demo_event) (demo_app []) = Some p"
proof -
  have "\<not> auto_accepted (demo_app []) info cert_fp files" for info cert_fp files
    by (simp add: auto_accepted_def demo_app_def app_start_def demo_storage_def paired_contains_def log_plain_def Let_def)
  then show ?thesis
    using transfers_consented [OF demo_accepted [unfolded demo_app_def]]
    by (auto simp: demo_app_def demo_asked_def less_Suc_eq asked_def)
qed

text \<open>
  In every run the log is held back exactly while the picker or the device list is open, of
  which never both are; and the server serves unencrypted exactly while a link is active,
  with the configuration of this link.
\<close>

theorem screen_and_link_consistent:
  "case snd (app_run inputs (app_start E banner storage disk preselected)) of s \<Rightarrow>
     ui_suspended (ui_run colored width (ap_ui s)) = (\<not> (ap_picker s = None \<and> ap_device_list s = None)) \<and>
     (ap_picker s = None \<or> ap_device_list s = None) \<and> link_ok s"
proof -
  let ?s = "snd (app_run inputs (app_start E banner storage disk preselected))"
  have "app_ok ?s" by (rule run_invariant [of app_ok]) (simp_all add: start_ok step_ok)
  then show ?thesis using held_ui [of ?s colored width] by (simp add: app_ok_def modal_ok_def web_ok_def)
qed

text \<open>
  A file is received only in the accepted session, into a path directly below the
  destination whose name is one component, neither empty nor relative, and where nothing exists.
\<close>

theorem received_file_path:
  assumes "CmdTarget session_id file_id path \<in> set (ap_out (snd (app_step E x s)))"
    and "CmdTarget session_id file_id path \<notin> set (ap_out s)"
    and "finite {candidate. ae_exists E (join_path (ap_destination s) candidate)}"
  shows "\<exists>f r name. x = InServer (EvFileUpload session_id file_id f) \<and> ap_receive s = Some r \<and>
    rcv_session_id r = session_id \<and> path = join_path (ap_destination s) name \<and> \<not> ae_exists E path \<and>
    47 \<notin> set name \<and> name \<notin> {[], lit ''.'', lit ''..''}"
proof -
  have "CmdTarget session_id file_id path \<in> set (commands is_target (snd (app_step E x s)))"
      "CmdTarget session_id file_id path \<notin> set (commands is_target s)"
    using assms(1,2) by (simp_all add: commands_def)
  then have "CmdTarget session_id file_id path \<in> set (targets E x s)" by (simp add: step_targets)
  then obtain f r where new: "x = InServer (EvFileUpload session_id file_id f)" "ap_receive s = Some r"
      "rcv_session_id r = session_id" "unique_path (ae_os E) (ae_exists E) (ap_destination s) (fd_file_name f) = Some path"
    by (rule targets_inv)
  moreover have "\<exists>name. path = join_path (ap_destination s) name \<and> \<not> ae_exists E path \<and> 47 \<notin> set name \<and>
      name \<notin> {[], lit ''.'', lit ''..''}"
    using unique_path_is_free [OF assms(3), of "ae_os E" "fd_file_name f"] new(4) by auto
  ultimately show ?thesis by blast
qed

text \<open>A state in which two files of a session are expected.\<close>

definition demo_receiving :: app where
  "demo_receiving = (demo_app [])\<lparr>ap_receive := Some (receive_session_new (lit ''s'') (lit ''A'')
     \<lparr>tgt_host = [], tgt_port = 1, tgt_protocol = Https, tgt_fingerprint = []\<rparr> (pu2_files demo_offer))\<rparr>"

lemma demo_receiving_simps [simp]:
  "ap_out demo_receiving = []" "ap_destination demo_receiving = lit ''d''" "ap_web demo_receiving = None"
  "map_option rcv_session_id (ap_receive demo_receiving) = Some (lit ''s'')" "ap_receive demo_receiving \<noteq> None"
  by (simp_all add: demo_receiving_def demo_app_def app_start_def demo_storage_def log_plain_def receive_session_new_def)

lemma uploads_target:
  assumes "ap_receive s = Some r" "unique_path (ae_os E) (ae_exists E) (ap_destination s) (fd_file_name f) = Some path"
  shows "ap_out (snd (app_step E (InServer (EvFileUpload (rcv_session_id r) file_id f)) s)) =
      ap_out s @ [CmdTarget (rcv_session_id r) file_id path] \<and>
    (\<exists>r'. ap_receive (snd (app_step E (InServer (EvFileUpload (rcv_session_id r) file_id f)) s)) = Some r' \<and>
      rcv_session_id r' = rcv_session_id r) \<and>
    ap_destination (snd (app_step E (InServer (EvFileUpload (rcv_session_id r) file_id f)) s)) = ap_destination s"
  using assms by (simp add: handle_file_upload_def emit_def)

theorem received_file_path_witness:
  "\<exists>path. CmdTarget (lit ''s'') (lit ''a'') path \<in>
      set (ap_out (snd (app_step demo_app_env (InServer (EvFileUpload (lit ''s'') (lit ''a'') (FB_Upload.demo_file (lit ''a'')))) demo_receiving))) \<and>
     \<not> ae_exists demo_app_env path"
proof -
  have none: "{candidate. ae_exists demo_app_env (join_path (ap_destination demo_receiving) candidate)} = {}"
    by (simp add: demo_app_env_def)
  obtain r where r: "ap_receive demo_receiving = Some r" "rcv_session_id r = lit ''s''"
    using demo_receiving_simps(4) by (cases "ap_receive demo_receiving") auto
  obtain name where "unique_path (ae_os demo_app_env) (ae_exists demo_app_env) (ap_destination demo_receiving)
      (fd_file_name (FB_Upload.demo_file (lit ''a''))) = Some name"
    using unique_path_is_free [of "ae_exists demo_app_env" "ap_destination demo_receiving" "ae_os demo_app_env"] none by auto
  from uploads_target [OF r(1) this] r(2)
  have target: "CmdTarget (lit ''s'') (lit ''a'') name \<in>
      set (ap_out (snd (app_step demo_app_env (InServer (EvFileUpload (lit ''s'') (lit ''a'') (FB_Upload.demo_file (lit ''a'')))) demo_receiving)))"
    by simp
  show ?thesis
    using received_file_path [OF target] none target by (intro exI [of _ name]) auto
qed

text \<open>
  Two files whose names mean the same local name, and whose uploads are announced before the
  first of them has been created, are given the same path: the second overwrites the first.
\<close>

theorem same_name_same_path:
  assumes "ap_receive s = Some r"
    and "sanitize_path (fd_file_name f) (current (ae_os E)) = sanitize_path (fd_file_name g) (current (ae_os E))"
    and "finite {candidate. ae_exists E (join_path (ap_destination s) candidate)}"
  shows "\<exists>path. ap_out (snd (app_run [(E, InServer (EvFileUpload (rcv_session_id r) fid f)),
      (E, InServer (EvFileUpload (rcv_session_id r) gid g))] s)) =
    ap_out s @ [CmdTarget (rcv_session_id r) fid path, CmdTarget (rcv_session_id r) gid path]"
proof -
  let ?s1 = "snd (app_step E (InServer (EvFileUpload (rcv_session_id r) fid f)) s)"
  obtain path where f: "unique_path (ae_os E) (ae_exists E) (ap_destination s) (fd_file_name f) = Some path"
    using unique_path_is_free [OF assms(3), of "ae_os E" "fd_file_name f"] by auto
  have first: "ap_out ?s1 = ap_out s @ [CmdTarget (rcv_session_id r) fid path]" "ap_destination ?s1 = ap_destination s"
    using uploads_target [OF assms(1) f] by simp_all
  obtain r1 where r1: "ap_receive ?s1 = Some r1" "rcv_session_id r1 = rcv_session_id r"
    using uploads_target [OF assms(1) f] by auto
  have "unique_path (ae_os E) (ae_exists E) (ap_destination ?s1) (fd_file_name g) = Some path"
    using f assms(2) first(2) by (simp add: unique_path_def Let_def)
  then have "ap_out (snd (app_step E (InServer (EvFileUpload (rcv_session_id r) gid g)) ?s1)) =
      ap_out ?s1 @ [CmdTarget (rcv_session_id r) gid path]"
    using uploads_target [OF r1(1)] r1(2) by simp
  then show ?thesis using first(1) by simp
qed

theorem same_name_same_path_witness:
  "\<exists>path. ap_out (snd (app_run [(demo_app_env, InServer (EvFileUpload (lit ''s'') (lit ''a'') (FB_Upload.demo_file (lit ''x/n'')))),
      (demo_app_env, InServer (EvFileUpload (lit ''s'') (lit ''b'') (FB_Upload.demo_file (lit ''y/n''))))] demo_receiving)) =
    [CmdTarget (lit ''s'') (lit ''a'') path, CmdTarget (lit ''s'') (lit ''b'') path]"
proof -
  obtain r where r: "ap_receive demo_receiving = Some r" "rcv_session_id r = lit ''s''"
    using demo_receiving_simps(4) by (cases "ap_receive demo_receiving") auto
  have same: "sanitize_path (fd_file_name (FB_Upload.demo_file (lit ''x/n''))) (current (ae_os demo_app_env)) =
      sanitize_path (fd_file_name (FB_Upload.demo_file (lit ''y/n''))) (current (ae_os demo_app_env))"
    by (simp add: sanitize_path_def is_relative_def FB_Upload.demo_file_def lit_def)
  have "finite {candidate. ae_exists demo_app_env (join_path (ap_destination demo_receiving) candidate)}"
    by (simp add: demo_app_env_def)
  from same_name_same_path [OF r(1) same this, of "lit ''a''" "lit ''b''"] r(2) show ?thesis by simp
qed

text \<open>
  A send that is never reported as ended occupies the application: whatever happens, it
  starts no other send, and no key makes it quit.
\<close>

theorem send_blocks_until_ended:
  assumes "ap_send s \<noteq> None" "ap_preselected s = []" "InEvent SendEnded \<notin> snd ` set inputs"
  shows "\<not> fst (app_run inputs s) \<and> ap_send (snd (app_run inputs s)) \<noteq> None \<and>
    commands is_send (snd (app_run inputs s)) = commands is_send s"
proof -
  have "\<not> fst (app_run inputs s) \<and> ap_send (snd (app_run inputs s)) \<noteq> None \<and>
      commands is_send (snd (app_run inputs s)) = commands is_send s \<and> ap_preselected (snd (app_run inputs s)) = []"
    using assms(3)
  proof (induction inputs rule: rev_induct)
    case (snoc input inputs)
    obtain E x where input: "input = (E, x)" by (cases input)
    with snoc have IH: "\<not> fst (app_run inputs s)" "ap_send (snd (app_run inputs s)) \<noteq> None"
        "commands is_send (snd (app_run inputs s)) = commands is_send s" "ap_preselected (snd (app_run inputs s)) = []"
        and "x \<noteq> InEvent SendEnded"
      by auto
    then show ?case using sends_blocked [OF IH(2,4)] by (simp add: input app_run_snoc del: not_None_eq)
  qed (simp add: assms(1,2) del: not_None_eq)
  then show ?thesis by blast
qed

definition demo_sending :: app where
  "demo_sending = (demo_app [])\<lparr>ap_send := Some \<lparr>sst_session_id = None, sst_alias = [], sst_host = [], sst_total_bytes = 0,
     sst_cancel = \<lparr>sc_token = False, sc_by_peer = False\<rparr>\<rparr>\<rparr>"

theorem send_blocks_until_ended_witness:
  "\<not> fst (app_run [(demo_app_env, InEvent (KeyPressed \<lparr>ke_code = KeyChar 99, ke_control = True\<rparr>))] demo_sending)"
  using send_blocks_until_ended [of demo_sending
      "[(demo_app_env, InEvent (KeyPressed \<lparr>ke_code = KeyChar 99, ke_control = True\<rparr>))]"]
  by (simp add: demo_sending_def demo_app_def app_start_def log_plain_def)

text \<open>
  C40. While a link is active the server is unencrypted, and then a paired device is only a
  name: whoever claims the fingerprint of one has all its files accepted without a prompt.
\<close>

theorem claimed_pairing_accepted:
  assumes "snd (snd (prepare_upload_begin X L decode st req (connection_client_info False addr certs) session_id)) =
      [EvPrepareUpload session_id ip info cert_fp files]"
    and "message_of files = None" "paired_contains (pv_devices (ap_paired s)) (r2_fingerprint info)"
  shows "CmdDecide session_id (Accept (map fst files)) \<in>
      set (ap_out (snd (app_step E (InServer (EvPrepareUpload session_id ip info cert_fp files)) s))) \<and>
    ap_pending (snd (app_step E (InServer (EvPrepareUpload session_id ip info cert_fp files)) s)) = ap_pending s"
proof -
  have "cert_fp = None"
    using assms(1) by (auto simp: prepare_upload_begin_def connection_client_info_def cert_fingerprint_def Let_def case_prod_beta
        split: sum.splits)
  with assms(2,3) show ?thesis
    by (auto simp: handle_prepare_upload_def Let_def emit_def app_simps)
qed

theorem claimed_pairing_accepted_witness:
  "CmdDecide (lit ''s'') (Accept [lit ''a'', lit ''b'']) \<in>
     set (ap_out (snd (app_step demo_app_env (InServer (EvPrepareUpload (lit ''s'') (from_remote_addr (SockV4 1 2))
       FB_Upload.demo_register None (pu2_files demo_offer))) (demo_app demo_paired_map))))"
proof -
  have event: "snd (snd (prepare_upload_begin demo_ext list_lru_ops (\<lambda>_. Some demo_offer) demo_v2 (demo_request [])
      (connection_client_info False (SockV4 1 2) []) (lit ''s''))) =
      [EvPrepareUpload (lit ''s'') (from_remote_addr (SockV4 1 2)) FB_Upload.demo_register None (pu2_files demo_offer)]"
    by code_simp
  have "map fst (pu2_files demo_offer) = [lit ''a'', lit ''b'']" "message_of (pu2_files demo_offer) = None"
    by (simp_all add: demo_offer_def message_of_def)
  moreover have "paired_contains (pv_devices (ap_paired (demo_app demo_paired_map))) (r2_fingerprint FB_Upload.demo_register)"
    by (simp add: demo_app_def app_start_def demo_storage_def log_plain_def paired_contains_def demo_paired_map_def
        FB_Upload.demo_register_def)
  ultimately show ?thesis
    using claimed_pairing_accepted [OF event, of "demo_app demo_paired_map" demo_app_env] by simp
qed

text \<open>
  The guard of the share link is checked when its picker opens, not when the files are
  picked: a transfer that a paired device has begun meanwhile loses its server, although
  the application goes on waiting for it.
\<close>

theorem share_restarts_active_receive:
  assumes "ap_picker s = Some PickWebShare" "ap_receive s = Some r"
    and "ae_picker E = Picked picked" "ae_starts_plain E" "ae_stat E path \<noteq> None" "path \<in> set picked"
    and "\<not> (ke_code key = KeyChar 99 \<and> ke_control key)"
  shows "\<exists>config. ap_server (snd (app_step E (InEvent (KeyPressed key)) s)) = Some (ServerPlain config) \<and>
    CmdRestart (ServerPlain config) True \<in> set (ap_out (snd (app_step E (InEvent (KeyPressed key)) s))) \<and>
    ap_receive (snd (app_step E (InEvent (KeyPressed key)) s)) = Some r"
proof -
  let ?s = "resume_ui (s\<lparr>ap_picker := None\<rparr>)"
  have keep: "fst (fst (collect_from E n ps acc t)) \<noteq> []" if "fst acc \<noteq> [] \<or> path \<in> set ps" for n ps acc t
    using that
  proof (induction ps arbitrary: n acc t)
    case (Cons p ps)
    obtain files paths b where "acc = (files, paths, b)" by (cases acc)
    with Cons assms(5) show ?case by (cases "ae_stat E p") (auto simp: Let_def hm_insert_def)
  qed simp
  have some: "fst (fst (collect_files E picked ?s)) \<noteq> []"
    unfolding collect_files_def by (rule keep) (simp add: assms(6))
  have "ap_receive (enable_web_share E picked ?s) = Some r" by (simp add: app_simps assms(2))
  then show ?thesis
    using assms some
    by (auto simp: handle_key_def handle_picker_key_def enable_web_share_def restart_server_def case_prod_beta Let_def app_simps
        log_line_def emit_def)
qed

theorem share_restarts_active_receive_witness:
  "\<exists>config. ap_server (snd (app_step demo_app_env (InEvent (KeyPressed \<lparr>ke_code = KeyOther, ke_control = False\<rparr>))
     (demo_receiving\<lparr>ap_picker := Some PickWebShare\<rparr>))) = Some (ServerPlain config)"
proof -
  obtain r where r: "ap_receive demo_receiving = Some r"
    using demo_receiving_simps(4) by (cases "ap_receive demo_receiving") auto
  then show ?thesis
    using share_restarts_active_receive [of "demo_receiving\<lparr>ap_picker := Some PickWebShare\<rparr>" r demo_app_env "[lit ''/n'']"
        "lit ''/n''" "\<lparr>ke_code = KeyOther, ke_control = False\<rparr>"]
    by (auto simp: demo_app_env_def)
qed

end
