(* ===== verification/FB_CliPicker.thy ===== *)
theory FB_CliPicker
  imports FB_CliApp
begin

text \<open>
  The file picker of the command line client (\<^verbatim>\<open>cli/src/picker.rs\<close>): a filter over the listing
  of a directory, a cursor among the entries that match, and the files picked so far. The
  explorer that lists directories is a third-party widget and a parameter; its screen is not
  modelled.
\<close>

section \<open>The explorer\<close>

record file_entry =
  fl_name :: rstring
  fl_path :: rstring
  fl_is_dir :: bool

datatype pick_key =
    PkEsc | PkUp | PkDown | PkPageUp | PkPageDown | PkHome | PkEnd | PkLeft | PkRight | PkBackspace | PkEnter
  | PkChar rchar bool
  | PkOther

text \<open>\<open>PkChar\<close> carries whether Control or Alt is held.\<close>

record 'x explorer =
  xp_files :: "'x \<Rightarrow> file_entry list"
  xp_selected_idx :: "'x \<Rightarrow> nat"
  xp_set_selected_idx :: "nat \<Rightarrow> 'x \<Rightarrow> 'x"
  xp_cwd :: "'x \<Rightarrow> rstring"
  xp_handle :: "pick_key \<Rightarrow> 'x \<Rightarrow> 'x"

text \<open>
  What the picker relies on: an index that is set is the selected one and changes nothing
  else, and a key that does not change the directory changes nothing.
\<close>

definition explorer_laws :: "'x explorer \<Rightarrow> bool" where
  "explorer_laws X \<longleftrightarrow>
     (\<forall>x i. i < length (xp_files X x) \<longrightarrow>
        xp_selected_idx X (xp_set_selected_idx X i x) = i \<and>
        xp_files X (xp_set_selected_idx X i x) = xp_files X x \<and>
        xp_cwd X (xp_set_selected_idx X i x) = xp_cwd X x) \<and>
     (\<forall>k x. xp_cwd X (xp_handle X k x) = xp_cwd X x \<longrightarrow> xp_handle X k x = x)"

section \<open>State\<close>

definition SCROLL_COUNT :: nat where "SCROLL_COUNT = 12"

record 'x picker =
  pk_target :: picker_target
  pk_explorer :: 'x
  pk_selected :: "(rstring \<times> u64) list"
  pk_query :: rstring
  pk_matches :: "nat list"
  pk_sizes :: "u64 option list"
  pk_list_state :: "nat option"

text \<open>The environment: the case table, the sizes of files, whether a directory has a parent.\<close>

record picker_env =
  pe_table :: "rchar \<Rightarrow> rstring"
  pe_size :: "rstring \<Rightarrow> u64 option"
  pe_has_parent :: "rstring \<Rightarrow> bool"

definition picker_files :: "'x explorer \<Rightarrow> 'x picker \<Rightarrow> file_entry list" where
  "picker_files X p = xp_files X (pk_explorer p)"

definition cursor :: "'x explorer \<Rightarrow> 'x picker \<Rightarrow> nat option" where
  "cursor X p =
     find (\<lambda>k. pk_matches p ! k = xp_selected_idx X (pk_explorer p)) [0..<length (pk_matches p)]"

definition picker_current :: "'x explorer \<Rightarrow> 'x picker \<Rightarrow> file_entry option" where
  "picker_current X p =
     map_option (\<lambda>_. picker_files X p ! xp_selected_idx X (pk_explorer p)) (cursor X p)"

definition current_size :: "'x explorer \<Rightarrow> 'x picker \<Rightarrow> u64 option" where
  "current_size X p =
     (let i = xp_selected_idx X (pk_explorer p) in if i < length (pk_sizes p) then pk_sizes p ! i else None)"

definition select_match :: "'x explorer \<Rightarrow> nat \<Rightarrow> 'x picker \<Rightarrow> 'x picker" where
  "select_match X k p =
     (if k < length (pk_matches p)
      then p\<lparr>pk_explorer := xp_set_selected_idx X (pk_matches p ! k) (pk_explorer p), pk_list_state := Some k\<rparr>
      else p\<lparr>pk_list_state := None\<rparr>)"

definition or_zero :: "nat option \<Rightarrow> nat" where
  "or_zero k = (case k of Some n \<Rightarrow> n | None \<Rightarrow> 0)"

definition refresh_matches :: "picker_env \<Rightarrow> 'x explorer \<Rightarrow> 'x picker \<Rightarrow> 'x picker" where
  "refresh_matches E X p =
     (let p1 = p\<lparr>pk_matches := filter (\<lambda>i. matches_query (pe_table E) (pk_query p) (fl_name (picker_files X p ! i)))
            [0..<length (picker_files X p)]\<rparr>
      in select_match X (or_zero (cursor X p1)) p1)"

definition refresh_sizes :: "picker_env \<Rightarrow> 'x explorer \<Rightarrow> 'x picker \<Rightarrow> 'x picker" where
  "refresh_sizes E X p =
     p\<lparr>pk_sizes := map (\<lambda>f. if fl_is_dir f then None else pe_size E (fl_path f)) (picker_files X p)\<rparr>"

definition select_first_entry :: "picker_env \<Rightarrow> 'x explorer \<Rightarrow> 'x picker \<Rightarrow> 'x picker" where
  "select_first_entry E X p =
     select_match X
       (if pe_has_parent E (xp_cwd X (pk_explorer p)) \<and> 1 < length (pk_matches p) then 1 else 0) p"

definition show_picker :: "picker_env \<Rightarrow> 'x explorer \<Rightarrow> picker_target \<Rightarrow> 'x \<Rightarrow> 'x picker" where
  "show_picker E X target x =
     select_first_entry E X (refresh_matches E X (refresh_sizes E X
       \<lparr>pk_target = target, pk_explorer = x, pk_selected = [], pk_query = [], pk_matches = [], pk_sizes = [],
        pk_list_state = None\<rparr>))"

section \<open>Keys\<close>

definition picker_move :: "'x explorer \<Rightarrow> int \<Rightarrow> bool \<Rightarrow> 'x picker \<Rightarrow> 'x picker" where
  "picker_move X delta wrap p =
     (if pk_matches p = [] then p
      else
        let len = int (length (pk_matches p));
            k = int (or_zero (cursor X p)) + delta
        in select_match X (nat (if wrap then k mod len else max 0 (min k (len - 1)))) p)"

definition navigate :: "picker_env \<Rightarrow> 'x explorer \<Rightarrow> pick_key \<Rightarrow> 'x picker \<Rightarrow> 'x picker" where
  "navigate E X key p =
     (let p1 = p\<lparr>pk_explorer := xp_handle X key (pk_explorer p)\<rparr>
      in if xp_cwd X (pk_explorer p1) = xp_cwd X (pk_explorer p) then p1
         else select_first_entry E X (refresh_matches E X (refresh_sizes E X (p1\<lparr>pk_query := []\<rparr>))))"

definition toggle_file :: "'x explorer \<Rightarrow> 'x picker \<Rightarrow> 'x picker" where
  "toggle_file X p =
     (case picker_current X p of
        Some f \<Rightarrow>
          if fl_is_dir f then p
          else if fl_path f \<in> fst ` set (pk_selected p)
          then p\<lparr>pk_selected := takeWhile (\<lambda>e. fst e \<noteq> fl_path f) (pk_selected p) @
                 tl (dropWhile (\<lambda>e. fst e \<noteq> fl_path f) (pk_selected p))\<rparr>
          else p\<lparr>pk_selected := pk_selected p @
                 [(fl_path f, case current_size X p of Some n \<Rightarrow> n | None \<Rightarrow> 0)]\<rparr>
      | None \<Rightarrow> p)"

definition take_selected :: "'x picker \<Rightarrow> rstring list \<times> 'x picker" where
  "take_selected p = (map fst (pk_selected p), p\<lparr>pk_selected := []\<rparr>)"

definition confirm_pick :: "picker_env \<Rightarrow> 'x explorer \<Rightarrow> 'x picker \<Rightarrow> picker_outcome \<times> 'x picker" where
  "confirm_pick E X p =
     (case picker_current X p of
        Some f \<Rightarrow>
          if fl_is_dir f then (PickerOpen, navigate E X PkEnter p)
          else let (files, p1) = take_selected p in (Picked (if files = [] then [fl_path f] else files), p1)
      | None \<Rightarrow>
          let (files, p1) = take_selected p in (if files = [] then PickerOpen else Picked files, p1))"

definition picker_key :: "picker_env \<Rightarrow> 'x explorer \<Rightarrow> pick_key \<Rightarrow> 'x picker \<Rightarrow> picker_outcome \<times> 'x picker" where
  "picker_key E X key p =
     (case key of
        PkEsc \<Rightarrow>
          if pk_query p = [] then (PickerCancelled, p)
          else (PickerOpen, refresh_matches E X (p\<lparr>pk_query := []\<rparr>))
      | PkUp \<Rightarrow> (PickerOpen, picker_move X (- 1) True p)
      | PkDown \<Rightarrow> (PickerOpen, picker_move X 1 True p)
      | PkPageUp \<Rightarrow> (PickerOpen, picker_move X (- int SCROLL_COUNT) False p)
      | PkPageDown \<Rightarrow> (PickerOpen, picker_move X (int SCROLL_COUNT) False p)
      | PkHome \<Rightarrow> (PickerOpen, select_match X 0 p)
      | PkEnd \<Rightarrow> (PickerOpen, select_match X (length (pk_matches p) - 1) p)
      | PkLeft \<Rightarrow> (PickerOpen, navigate E X PkLeft p)
      | PkRight \<Rightarrow>
          (PickerOpen,
           case picker_current X p of
             Some f \<Rightarrow> if fl_is_dir f then navigate E X PkRight p else p
           | None \<Rightarrow> p)
      | PkBackspace \<Rightarrow>
          (PickerOpen, if pk_query p = [] then p else refresh_matches E X (p\<lparr>pk_query := butlast (pk_query p)\<rparr>))
      | PkEnter \<Rightarrow> confirm_pick E X p
      | PkChar c modified \<Rightarrow>
          if c = 32 then (PickerOpen, toggle_file X p)
          else if modified then (PickerOpen, p)
          else (PickerOpen, refresh_matches E X (p\<lparr>pk_query := pk_query p @ [c]\<rparr>))
      | PkOther \<Rightarrow> (PickerOpen, p))"

text \<open>A run of keys, up to the one that closes the picker.\<close>

fun picker_run ::
  "picker_env \<Rightarrow> 'x explorer \<Rightarrow> pick_key list \<Rightarrow> 'x picker \<Rightarrow> picker_outcome \<times> 'x picker"
where
  "picker_run E X [] p = (PickerOpen, p)"
| "picker_run E X (key # keys) p =
     (case picker_key E X key p of
        (PickerOpen, p1) \<Rightarrow> picker_run E X keys p1
      | closed \<Rightarrow> closed)"

section \<open>The cursor\<close>

definition matching :: "picker_env \<Rightarrow> 'x explorer \<Rightarrow> 'x picker \<Rightarrow> nat list" where
  "matching E X p =
     filter (\<lambda>i. matches_query (pe_table E) (pk_query p) (fl_name (picker_files X p ! i))) [0..<length (picker_files X p)]"

text \<open>The entries shown are those that match, and the highlighted one is among them.\<close>

definition picker_ok :: "picker_env \<Rightarrow> 'x explorer \<Rightarrow> 'x picker \<Rightarrow> bool" where
  "picker_ok E X p \<longleftrightarrow>
     pk_matches p = matching E X p \<and>
     (case pk_list_state p of
        None \<Rightarrow> pk_matches p = []
      | Some k \<Rightarrow> k < length (pk_matches p) \<and> xp_selected_idx X (pk_explorer p) = pk_matches p ! k)"

lemma matching_distinct: "distinct (matching E X p)"
  by (simp add: matching_def)

lemma matching_bound: "i \<in> set (matching E X p) \<Longrightarrow> i < length (picker_files X p)"
  by (simp add: matching_def)

lemma select_match_ok:
  assumes laws: "explorer_laws X" and m: "pk_matches p = matching E X p" and k: "k < length (pk_matches p) \<or> pk_matches p = []"
  shows "picker_ok E X (select_match X k p)"
proof (cases "k < length (pk_matches p)")
  case True
  then have "pk_matches p ! k < length (xp_files X (pk_explorer p))"
    using matching_bound [of "pk_matches p ! k" E X p] m by (simp add: picker_files_def)
  then have "xp_selected_idx X (xp_set_selected_idx X (pk_matches p ! k) (pk_explorer p)) = pk_matches p ! k"
    "xp_files X (xp_set_selected_idx X (pk_matches p ! k) (pk_explorer p)) = xp_files X (pk_explorer p)"
    using laws by (auto simp: explorer_laws_def)
  with True m show ?thesis by (simp add: select_match_def picker_ok_def matching_def picker_files_def)
next
  case False
  with k m show ?thesis by (simp add: select_match_def picker_ok_def matching_def picker_files_def)
qed

lemma cursor_bound: "cursor X p = Some k \<Longrightarrow> k < length (pk_matches p)"
  by (auto simp: cursor_def find_Some_iff)

lemma or_zero_cursor: "or_zero (cursor X p) < length (pk_matches p) \<or> pk_matches p = []"
  using cursor_bound [of X p] by (cases "cursor X p") (auto simp: or_zero_def)

lemma refresh_matches_ok: "explorer_laws X \<Longrightarrow> picker_ok E X (refresh_matches E X p)"
  unfolding refresh_matches_def Let_def
  by (rule select_match_ok, assumption, simp add: matching_def picker_files_def) (rule or_zero_cursor)

lemma picker_ok_matches: "picker_ok E X p \<Longrightarrow> pk_matches p = matching E X p"
  by (simp add: picker_ok_def)

lemma picker_ok_state: "picker_ok E X p \<Longrightarrow> case pk_list_state p of
     None \<Rightarrow> pk_matches p = []
   | Some k \<Rightarrow> k < length (pk_matches p) \<and> xp_selected_idx X (pk_explorer p) = pk_matches p ! k"
  unfolding picker_ok_def by (rule conjunct2)

lemma select_first_entry_ok: "explorer_laws X \<Longrightarrow> picker_ok E X p \<Longrightarrow> picker_ok E X (select_first_entry E X p)"
  unfolding select_first_entry_def by (rule select_match_ok) (auto simp: picker_ok_matches)

lemma picker_move_ok: "explorer_laws X \<Longrightarrow> picker_ok E X p \<Longrightarrow> picker_ok E X (picker_move X delta wrap p)"
proof (cases "pk_matches p = []")
  case False
  assume laws: "explorer_laws X" and ok: "picker_ok E X p"
  let ?len = "int (length (pk_matches p))" and ?k = "int (or_zero (cursor X p)) + delta"
  have pos: "0 < ?len" using False by simp
  have "(if wrap then ?k mod ?len else max 0 (min ?k (?len - 1))) < ?len"
    "0 \<le> (if wrap then ?k mod ?len else max 0 (min ?k (?len - 1)))"
    using pos by auto
  then have "nat (if wrap then ?k mod ?len else max 0 (min ?k (?len - 1))) < length (pk_matches p)"
    by linarith
  then have "picker_ok E X (select_match X (nat (if wrap then ?k mod ?len else max 0 (min ?k (?len - 1)))) p)"
    by (intro select_match_ok laws) (simp_all add: picker_ok_matches [OF ok])
  with False show ?thesis by (simp add: picker_move_def Let_def)
qed (simp add: picker_move_def)

lemma navigate_ok: "explorer_laws X \<Longrightarrow> picker_ok E X p \<Longrightarrow> picker_ok E X (navigate E X key p)"
proof (cases "xp_cwd X (xp_handle X key (pk_explorer p)) = xp_cwd X (pk_explorer p)")
  case True
  assume "explorer_laws X" and ok: "picker_ok E X p"
  with True have "xp_handle X key (pk_explorer p) = pk_explorer p" by (simp add: explorer_laws_def)
  with True ok show ?thesis by (simp add: navigate_def)
qed (simp add: navigate_def Let_def select_first_entry_ok refresh_matches_ok)

lemma picker_ok_selected: "picker_ok E X (p\<lparr>pk_selected := s\<rparr>) = picker_ok E X p"
  by (simp add: picker_ok_def matching_def picker_files_def cong: option.case_cong)

lemma picker_key_ok:
  assumes laws: "explorer_laws X" and ok: "picker_ok E X p"
  shows "picker_ok E X (snd (picker_key E X key p))"
proof -
  have ends: "picker_ok E X (select_match X 0 p)" "picker_ok E X (select_match X (length (pk_matches p) - 1) p)"
    by (intro select_match_ok laws; auto simp: picker_ok_matches [OF ok])+
  show ?thesis
    using ends laws ok
    by (cases key) (auto simp: picker_key_def refresh_matches_ok picker_move_ok navigate_ok toggle_file_def confirm_pick_def
        take_selected_def picker_ok_selected split: option.splits)
qed

lemma picker_run_ok: "explorer_laws X \<Longrightarrow> picker_ok E X p \<Longrightarrow> picker_ok E X (snd (picker_run E X keys p))"
proof (induction keys arbitrary: p)
  case (Cons key keys)
  then show ?case using picker_key_ok [OF Cons.prems, of key]
    by (cases "picker_key E X key p"; cases "fst (picker_key E X key p)") auto
qed simp

lemma show_picker_ok: "explorer_laws X \<Longrightarrow> picker_ok E X (show_picker E X target x)"
  by (simp add: show_picker_def select_first_entry_ok refresh_matches_ok)

lemma picker_ok_cursor: "picker_ok E X p \<Longrightarrow> cursor X p = pk_list_state p"
proof (cases "pk_list_state p")
  case None
  assume "picker_ok E X p"
  then have "pk_matches p = []" using None picker_ok_state by fastforce
  with None show ?thesis by (simp add: cursor_def)
next
  case (Some k)
  assume ok: "picker_ok E X p"
  then have k: "k < length (pk_matches p)" "xp_selected_idx X (pk_explorer p) = pk_matches p ! k"
    using picker_ok_state [OF ok] Some by simp_all
  have d: "distinct (pk_matches p)" using ok matching_distinct by (simp add: picker_ok_def)
  have "find (\<lambda>j. pk_matches p ! j = pk_matches p ! k) [0..<length (pk_matches p)] = Some k"
    unfolding find_Some_iff using k(1) d by (auto simp: nth_eq_iff_index_eq intro!: exI [of _ k])
  with Some k show ?thesis by (simp add: cursor_def)
qed

section \<open>The files picked\<close>

text \<open>The paths toggled with the space bar, in the order of the keys.\<close>

definition toggled_by :: "'x explorer \<Rightarrow> pick_key \<Rightarrow> 'x picker \<Rightarrow> rstring list" where
  "toggled_by X key p =
     (case (key, picker_current X p) of
        (PkChar c modified, Some f) \<Rightarrow> if c = 32 \<and> \<not> fl_is_dir f then [fl_path f] else []
      | _ \<Rightarrow> [])"

fun toggled :: "picker_env \<Rightarrow> 'x explorer \<Rightarrow> pick_key list \<Rightarrow> 'x picker \<Rightarrow> rstring list" where
  "toggled E X [] p = []"
| "toggled E X (key # keys) p =
     toggled_by X key p @
     (case picker_key E X key p of (PickerOpen, p1) \<Rightarrow> toggled E X keys p1 | closed \<Rightarrow> [])"

definition odd_times :: "rstring list \<Rightarrow> rstring set" where
  "odd_times ps = {q. odd (count_list ps q)}"

definition selection_of :: "'x picker \<Rightarrow> rstring list \<Rightarrow> bool" where
  "selection_of p ps \<longleftrightarrow> distinct (map fst (pk_selected p)) \<and> fst ` set (pk_selected p) = odd_times ps"

lemma odd_times_simps [simp]: "odd_times [] = {}"
  "odd_times (ps @ [q]) = (if q \<in> odd_times ps then odd_times ps - {q} else insert q (odd_times ps))"
  by (auto simp: odd_times_def split: if_splits)

lemma remove_first:
  assumes "distinct (map fst es)"
  shows "distinct (map fst (takeWhile (\<lambda>e. fst e \<noteq> q) es @ tl (dropWhile (\<lambda>e. fst e \<noteq> q) es)))"
    and "fst ` set (takeWhile (\<lambda>e. fst e \<noteq> q) es @ tl (dropWhile (\<lambda>e. fst e \<noteq> q) es)) = fst ` set es - {q}"
proof -
  have eq: "takeWhile (\<lambda>e. fst e \<noteq> q) es @ tl (dropWhile (\<lambda>e. fst e \<noteq> q) es) = filter (\<lambda>e. fst e \<noteq> q) es"
    using assms
  proof (induction es)
    case (Cons e es)
    show ?case
    proof (cases "fst e = q")
      case True
      with Cons.prems have "\<forall>e' \<in> set es. fst e' \<noteq> q" by (force simp: image_iff)
      with True show ?thesis by simp
    next
      case False
      with Cons show ?thesis by simp
    qed
  qed simp
  show "distinct (map fst (takeWhile (\<lambda>e. fst e \<noteq> q) es @ tl (dropWhile (\<lambda>e. fst e \<noteq> q) es)))"
    unfolding eq using assms by (simp add: distinct_map_filter)
  show "fst ` set (takeWhile (\<lambda>e. fst e \<noteq> q) es @ tl (dropWhile (\<lambda>e. fst e \<noteq> q) es)) = fst ` set es - {q}"
    unfolding eq by auto
qed

lemma select_match_selected [simp]: "pk_selected (select_match X k p) = pk_selected p"
  by (simp add: select_match_def)

lemma selected_frames [simp]:
  "pk_selected (refresh_matches E X p) = pk_selected p"
  "pk_selected (refresh_sizes E X p) = pk_selected p"
  "pk_selected (select_first_entry E X p) = pk_selected p"
  "pk_selected (picker_move X d wrap p) = pk_selected p"
  by (simp_all add: refresh_matches_def refresh_sizes_def select_first_entry_def picker_move_def Let_def)

lemma navigate_selected [simp]: "pk_selected (navigate E X key p) = pk_selected p"
  by (simp add: navigate_def Let_def)

lemma toggle_file_selection:
  assumes "selection_of p ps" "picker_current X p = Some f" "\<not> fl_is_dir f"
  shows "selection_of (toggle_file X p) (ps @ [fl_path f])"
  using assms remove_first [of "pk_selected p" "fl_path f"]
  by (auto simp: selection_of_def toggle_file_def)

text \<open>A key that leaves the picker open keeps the selection, apart from the space bar.\<close>

lemma picker_key_selection:
  assumes sel: "selection_of p ps" and key: "picker_key E X key p = (PickerOpen, p1)"
  shows "selection_of p1 (ps @ toggled_by X key p)"
proof (cases "\<exists>modified. key = PkChar 32 modified")
  case True
  then show ?thesis
    using sel key toggle_file_selection [OF sel, of X]
    by (cases "picker_current X p") (auto simp: picker_key_def toggled_by_def toggle_file_def)
next
  case False
  then have "toggled_by X key p = []" by (auto simp: toggled_by_def split: pick_key.split option.split)
  moreover have "pk_selected p1 = pk_selected p"
    using key False
    by (cases key) (auto simp: picker_key_def confirm_pick_def take_selected_def split: if_splits option.splits)
  ultimately show ?thesis using sel by (simp add: selection_of_def)
qed

lemma picker_key_picks:
  assumes sel: "selection_of p ps" and key: "picker_key E X key p = (Picked files, p1)"
  shows "distinct files \<and> toggled_by X key p = [] \<and>
    (if odd_times ps = {} then \<exists>f. picker_current X p1 = Some f \<and> \<not> fl_is_dir f \<and> files = [fl_path f]
     else set files = odd_times ps)"
proof -
  have key_enter: "key = PkEnter" using key by (cases key) (auto simp: picker_key_def split: if_splits)
  have same: "picker_current X (p\<lparr>pk_selected := []\<rparr>) = picker_current X p"
    by (simp add: picker_current_def cursor_def picker_files_def)
  show ?thesis
  proof (cases "picker_current X p")
    case None
    with key key_enter sel show ?thesis
      by (auto simp: picker_key_def confirm_pick_def take_selected_def selection_of_def toggled_by_def same split: if_splits)
  next
    case (Some f)
    with key key_enter sel show ?thesis
      by (auto simp: picker_key_def confirm_pick_def take_selected_def selection_of_def toggled_by_def same split: if_splits)
  qed
qed

lemma picker_run_picks:
  "selection_of p ps \<Longrightarrow> picker_run E X keys p = (Picked files, p1) \<Longrightarrow>
   distinct files \<and>
   (if odd_times (ps @ toggled E X keys p) = {} then \<exists>f. picker_current X p1 = Some f \<and> \<not> fl_is_dir f \<and> files = [fl_path f]
    else set files = odd_times (ps @ toggled E X keys p))"
proof (induction keys arbitrary: p ps)
  case (Cons key keys)
  show ?case
  proof (cases "fst (picker_key E X key p)")
    case PickerOpen
    then obtain p2 where step: "picker_key E X key p = (PickerOpen, p2)" by (cases "picker_key E X key p") auto
    with Cons.IH [OF picker_key_selection [OF Cons.prems(1) step]] Cons.prems(2) show ?thesis by simp
  next
    case (Picked files')
    then have "picker_key E X key p = (Picked files, p1)"
      using Cons.prems(2) by (cases "picker_key E X key p") auto
    with picker_key_picks [OF Cons.prems(1) this] show ?thesis by simp
  next
    case PickerCancelled
    with Cons.prems(2) show ?thesis by (cases "picker_key E X key p") auto
  qed
qed simp

lemma show_picker_selection: "selection_of (show_picker E X target x) []"
  by (simp add: selection_of_def show_picker_def refresh_sizes_def)

section \<open>Properties\<close>

text \<open>
  After any keys the highlighted row is the entry the picker acts on, that entry matches the
  query, and nothing is highlighted exactly when no entry matches.
\<close>

theorem picker_acts_on_visible:
  assumes "explorer_laws X"
  shows "case snd (picker_run E X keys (show_picker E X target x)) of p \<Rightarrow>
    cursor X p = pk_list_state p \<and>
    (case picker_current X p of
       Some f \<Rightarrow> f \<in> set (picker_files X p) \<and> matches_query (pe_table E) (pk_query p) (fl_name f)
     | None \<Rightarrow> list_all (\<lambda>f. \<not> matches_query (pe_table E) (pk_query p) (fl_name f)) (picker_files X p))"
proof -
  let ?p = "snd (picker_run E X keys (show_picker E X target x))"
  have ok: "picker_ok E X ?p" by (intro picker_run_ok show_picker_ok assms)
  have cur: "cursor X ?p = pk_list_state ?p" by (rule picker_ok_cursor [OF ok])
  have m: "pk_matches ?p = matching E X ?p" by (rule picker_ok_matches [OF ok])
  show ?thesis
  proof (cases "pk_list_state ?p")
    case None
    then have "matching E X ?p = []" using picker_ok_state [OF ok] m by simp
    then show ?thesis using None cur
      by (auto simp: picker_current_def matching_def filter_empty_conv list_all_iff in_set_conv_nth picker_files_def)
  next
    case (Some k)
    then have k: "k < length (pk_matches ?p)" "xp_selected_idx X (pk_explorer ?p) = pk_matches ?p ! k"
      using picker_ok_state [OF ok] by simp_all
    have "pk_matches ?p ! k \<in> set (matching E X ?p)" using k(1) unfolding m by (rule nth_mem)
    then show ?thesis using Some cur k(2) by (simp add: picker_current_def matching_def)
  qed
qed

text \<open>
  The files picked are exactly those toggled an odd number of times with the space bar, each
  once; if there is none, the highlighted file alone.
\<close>

theorem picked_files_chosen:
  assumes "picker_run E X keys (show_picker E X target x) = (Picked files, p)"
  shows "distinct files \<and>
    (if odd_times (toggled E X keys (show_picker E X target x)) = {}
     then \<exists>f. picker_current X p = Some f \<and> \<not> fl_is_dir f \<and> files = [fl_path f]
     else set files = odd_times (toggled E X keys (show_picker E X target x)))"
  using picker_run_picks [OF show_picker_selection assms] by simp

text \<open>An explorer of two directories, for the witnesses.\<close>

definition demo_listed :: "string \<Rightarrow> bool \<Rightarrow> file_entry" where
  "demo_listed name dir = \<lparr>fl_name = lit name, fl_path = lit name, fl_is_dir = dir\<rparr>"

definition demo_explorer :: "(bool \<times> nat) explorer" where
  "demo_explorer =
     \<lparr>xp_files = (\<lambda>(top, i). if top then [demo_listed ''d'' True, demo_listed ''a'' False, demo_listed ''b'' False]
                        else [demo_listed ''..'' True, demo_listed ''c'' False]),
      xp_selected_idx = snd, xp_set_selected_idx = (\<lambda>i (top, j). (top, i)),
      xp_cwd = (\<lambda>(top, i). if top then lit ''/'' else lit ''/d''),
      xp_handle = (\<lambda>key (top, i). if key = PkLeft then (if top then (top, i) else (True, 0))
                     else if top \<and> i = 0 then (False, 0) else (top, i))\<rparr>"

definition demo_picker_env :: picker_env where
  "demo_picker_env = \<lparr>pe_table = (\<lambda>c. [c]), pe_size = (\<lambda>_. Some 1), pe_has_parent = (\<lambda>d. d \<noteq> lit ''/'')\<rparr>"

lemma demo_explorer_laws: "explorer_laws demo_explorer"
  by (auto simp: explorer_laws_def demo_explorer_def lit_def split: if_splits)

theorem picker_acts_on_visible_witness:
  "cursor demo_explorer (snd (picker_run demo_picker_env demo_explorer [PkChar 98 False] (show_picker demo_picker_env demo_explorer PickWebShare (True, 0)))) =
   pk_list_state (snd (picker_run demo_picker_env demo_explorer [PkChar 98 False] (show_picker demo_picker_env demo_explorer PickWebShare (True, 0))))"
  using picker_acts_on_visible [OF demo_explorer_laws, of demo_picker_env "[PkChar 98 False]" PickWebShare "(True, 0)"] by simp

theorem picked_files_chosen_witness:
  "\<exists>p. picker_run demo_picker_env demo_explorer [PkDown, PkChar 32 False, PkDown, PkEnter]
      (show_picker demo_picker_env demo_explorer PickWebShare (True, 0)) = (Picked [lit ''a''], p) \<and> distinct [lit ''a'']"
proof -
  have "fst (picker_run demo_picker_env demo_explorer [PkDown, PkChar 32 False, PkDown, PkEnter]
      (show_picker demo_picker_env demo_explorer PickWebShare (True, 0))) = Picked [lit ''a'']"
    by code_simp
  then obtain p where "picker_run demo_picker_env demo_explorer [PkDown, PkChar 32 False, PkDown, PkEnter]
      (show_picker demo_picker_env demo_explorer PickWebShare (True, 0)) = (Picked [lit ''a''], p)"
    by (cases "picker_run demo_picker_env demo_explorer [PkDown, PkChar 32 False, PkDown, PkEnter]
      (show_picker demo_picker_env demo_explorer PickWebShare (True, 0))") simp
  with picked_files_chosen [OF this] show ?thesis by blast
qed

end
