(* ===== verification/FB_AppServer.thy ===== *)
theory FB_AppServer
  imports FB_Server
begin

text \<open>
  The server as the application holds it
  (\<^verbatim>\<open>packages/localsend_isolates/rust/src/api/server.rs\<close>): events of the core carry the
  sender of a one-shot channel, the responder, on which the request waits. The bridge keeps
  the responder under the identity it tells the application and uses it when the
  application answers. A responder is a number; what becomes of it is output. Between a
  request and its answer other requests and calls take place, so a run is a list of inputs.
\<close>

section \<open>Running instances\<close>

text \<open>
  At most one server (and one discovery) may run: starting stops what an earlier isolate has
  left behind. \<open>rg_live\<close> are the instances whose stop channel has not been used,
  \<open>rg_stopping\<close> those with a stop between its two critical sections, and the next instance is
  \<open>rg_next\<close>.
\<close>

record registry =
  rg_running :: "nat option"
  rg_live :: "nat list"
  rg_stopping :: "nat list"
  rg_next :: nat

definition instance_stop :: "nat \<Rightarrow> registry \<Rightarrow> registry" where
  "instance_stop i r = r\<lparr>rg_live := removeAll i (rg_live r)\<rparr>"

definition registry_begin :: "registry \<Rightarrow> registry" where
  "registry_begin r =
     (case rg_running r of
        Some previous \<Rightarrow> instance_stop previous (r\<lparr>rg_running := None\<rparr>)
      | None \<Rightarrow> r)"

definition registry_started :: "registry \<Rightarrow> registry" where
  "registry_started r =
     r\<lparr>rg_running := Some (rg_next r), rg_live := rg_next r # rg_live r, rg_next := Suc (rg_next r)\<rparr>"

definition registry_stop :: "nat \<Rightarrow> registry \<Rightarrow> registry" where
  "registry_stop i r = (instance_stop i r)\<lparr>rg_stopping := i # rg_stopping r\<rparr>"

definition registry_forget :: "nat \<Rightarrow> registry \<Rightarrow> registry" where
  "registry_forget i r =
     (let r1 = r\<lparr>rg_stopping := remove1 i (rg_stopping r)\<rparr>
      in if rg_running r1 = Some i then r1\<lparr>rg_running := None\<rparr> else r1)"

text \<open>
  Between the two sections of a stop others may run; a start holds the lock of the registry
  throughout.
\<close>

datatype registry_op = StartOk | StartFails | StopInstance nat | StopForget nat

fun registry_step :: "registry_op \<Rightarrow> registry \<Rightarrow> registry" where
  "registry_step StartOk r = registry_started (registry_begin r)"
| "registry_step StartFails r = registry_begin r"
| "registry_step (StopInstance i) r = (if i < rg_next r then registry_stop i r else r)"
| "registry_step (StopForget i) r = (if i \<in> set (rg_stopping r) then registry_forget i r else r)"

definition no_instances :: registry where
  "no_instances = \<lparr>rg_running = None, rg_live = [], rg_stopping = [], rg_next = 0\<rparr>"

section \<open>Events for the application\<close>

record rs_remote_fs_peer =
  rsp_ip :: rstring
  rsp_certificate_fingerprint :: rstring

definition rs_peer :: "remote_fs_peer \<Rightarrow> rs_remote_fs_peer" where
  "rs_peer p = \<lparr>rsp_ip = peer_ip_to_string (rp_ip p), rsp_certificate_fingerprint = rp_fingerprint p\<rparr>"

datatype rs_server_event =
    RsRegister rstring register_dto_v2
  | RsPrepareUpload rstring rstring register_dto_v2 "rstring option" "(rstring, file_dto) hash_map"
  | RsFileUpload rstring rstring file_dto
  | RsSessionEnd rstring session_end_reason_v2
  | RsPrepareUploadAborted rstring
  | RsCancelReceived rstring rstring
  | RsWebPrepareDownload rstring rstring "rstring option"
  | RsWebFileDownload rstring rstring file_dto
  | RsShow "rstring list"
  | RsRemoteFsRoots rstring rs_remote_fs_peer
  | RsRemoteFsList rstring rs_remote_fs_peer remote_fs_list_request
  | RsRemoteFsMetadata rstring rs_remote_fs_peer remote_fs_location
  | RsRemoteFsCreateDirectory rstring rs_remote_fs_peer remote_fs_create_directory_request
  | RsRemoteFsRename rstring rs_remote_fs_peer remote_fs_rename_request
  | RsRemoteFsMove rstring rs_remote_fs_peer remote_fs_move_request
  | RsRemoteFsDelete rstring rs_remote_fs_peer remote_fs_delete_request
  | RsRemoteFsRead rstring rs_remote_fs_peer remote_fs_location
  | RsRemoteFsWrite rstring rs_remote_fs_peer remote_fs_write_request

section \<open>State\<close>

datatype pending_remote_fs_responder =
    PendRoots nat
  | PendList nat
  | PendEntry nat
  | PendDelete nat
  | PendRead nat
  | PendWrite nat u64

fun fs_responder :: "pending_remote_fs_responder \<Rightarrow> nat" where
  "fs_responder (PendRoots t) = t"
| "fs_responder (PendList t) = t"
| "fs_responder (PendEntry t) = t"
| "fs_responder (PendDelete t) = t"
| "fs_responder (PendRead t) = t"
| "fs_responder (PendWrite t n) = t"

text \<open>The channels of the core that are still open.\<close>

record event_channels =
  ec_v2 :: bool
  ec_web :: bool
  ec_internal :: bool
  ec_remote_fs :: bool

text \<open>
  \<open>hs_event_rx\<close> is what \<^verbatim>\<open>listen\<close> takes, \<open>hs_loop\<close> what its loop has; the instance itself
  is a number in the registry.
\<close>

record rs_http_server =
  hs_instance :: nat
  hs_event_rx :: "event_channels option"
  hs_loop :: "event_channels option"
  hs_decision :: "(rstring \<times> nat) option"
  hs_uploads :: "(rstring \<times> rstring, nat) hash_map"
  hs_download_decisions :: "(rstring, nat) hash_map"
  hs_downloads :: "(rstring \<times> rstring, nat) hash_map"
  hs_remote_fs :: "(rstring, pending_remote_fs_responder) hash_map"

text \<open>What is sent on a responder.\<close>

datatype rs_reply =
    ReplyDecision prepare_upload_decision_v2
  | ReplyTarget file_upload_target
  | ReplyDownload bool
  | ReplyContent file_content
  | ReplyRoots "remote_fs_root list fs_result"
  | ReplyList "remote_fs_list_response fs_result"
  | ReplyEntry "remote_fs_entry fs_result"
  | ReplyDelete "unit fs_result"
  | ReplyRead "remote_fs_read_source fs_result"
  | ReplyWrite "file_upload_target fs_result"

text \<open>
  A responder is used for a reply, used after the request has gone, or released without a
  reply, which fails the request that waits for it.
\<close>

datatype rs_output =
    Emitted rs_server_event
  | SinkError rstring
  | Replied nat rs_reply
  | Unheard nat
  | Released nat
  | Returned "(unit, rstring) result"
  | CoreCancel rstring

text \<open>
  The environment of a step: which requests have gone, whether the application still
  listens, the next request id, the platform, and what paths and descriptors lead to.
\<close>

record bridge_env =
  be_gone :: "nat \<Rightarrow> bool"
  be_sink_open :: bool
  be_uuid :: rstring
  be_android :: bool
  be_path :: "rstring \<Rightarrow> fs_env"
  be_fd :: "32 word \<Rightarrow> fs_env"
  be_path_content :: "rstring \<Rightarrow> file_content"
  be_fd_content :: "32 word \<Rightarrow> file_content"

type_synonym bridge_turn = "rs_http_server \<times> rs_output list"

section \<open>Starting\<close>

record server_params =
  spm_tls :: bool
  spm_info :: device_info
  spm_pin :: "rstring option"
  spm_verify_checksums :: bool
  spm_web :: "web_config option"
  spm_show_token :: "rstring option"
  spm_remote_fs :: "u64 option"

definition rs_http_server_new :: "nat \<Rightarrow> event_channels \<Rightarrow> rs_http_server" where
  "rs_http_server_new i channels =
     \<lparr>hs_instance = i, hs_event_rx = Some channels, hs_loop = None, hs_decision = None, hs_uploads = [],
      hs_download_decisions = [], hs_downloads = [], hs_remote_fs = []\<rparr>"

text \<open>\<open>started\<close> is the outcome of binding the port.\<close>

definition start_server_impl ::
  "(ip_addr, u32, 'c) lru_ops \<Rightarrow> (rstring, byte list, 'n) lru_ops \<Rightarrow> (unit, rstring) result \<Rightarrow>
   server_params \<Rightarrow> registry \<Rightarrow> (rs_http_server \<times> ('c, 'n) app_state, rstring) result \<times> registry"
where
  "start_server_impl L N started p r =
     (let r1 = registry_begin r in
      if spm_remote_fs p \<noteq> None \<and> \<not> spm_tls p
      then (Inl (lit ''The FireBoxTransfer filesystem API requires TLS''), r1)
      else case started of
          Inl e \<Rightarrow> (Inl e, r1)
        | Inr _ \<Rightarrow>
            (Inr (rs_http_server_new (rg_next r1)
                \<lparr>ec_v2 = True,
                 ec_web = (case spm_web p of Some w \<Rightarrow> wcf_send w \<noteq> None | None \<Rightarrow> False),
                 ec_internal = (spm_show_token p \<noteq> None),
                 ec_remote_fs = (spm_remote_fs p \<noteq> None)\<rparr>,
               app_state_new L N (spm_info p) (spm_show_token p)
                 (Some \<lparr>sc_pin = spm_pin p, sc_verify_checksums = spm_verify_checksums p\<rparr>)
                 (spm_web p)
                 (map_option (\<lambda>size. remote_fs_config_new\<lparr>fc_max_write_size := size\<rparr>) (spm_remote_fs p))),
             registry_started r1))"

section \<open>Handling events\<close>

text \<open>\<^verbatim>\<open>StreamSink::add\<close>: the event is lost when nobody listens.\<close>

definition sink_add :: "bridge_env \<Rightarrow> rs_server_event \<Rightarrow> rs_output list" where
  "sink_add E event = (if be_sink_open E then [Emitted event] else [])"

definition release_all :: "nat list \<Rightarrow> rs_output list" where
  "release_all ts = map Released ts"

definition held_at :: "'k \<Rightarrow> ('k, 'v) hash_map \<Rightarrow> 'v list" where
  "held_at k m = map snd (filter (\<lambda>(j, v). j = k) m)"

fun bridge_server_event ::
  "bridge_env \<Rightarrow> server_event_v2 \<Rightarrow> nat \<Rightarrow> rs_http_server \<Rightarrow> bridge_turn"
where
  "bridge_server_event E (EvRegister ip info) t s = (s, sink_add E (RsRegister (peer_ip_to_string ip) info))"
| "bridge_server_event E (EvPrepareUpload session_id ip info cert_fp files) t s =
     (s\<lparr>hs_decision := Some (session_id, t)\<rparr>,
      release_all (case hs_decision s of Some (_, old) \<Rightarrow> [old] | None \<Rightarrow> []) @
      sink_add E (RsPrepareUpload session_id (peer_ip_to_string ip) info cert_fp files))"
| "bridge_server_event E (EvFileUpload session_id file_id file) t s =
     (s\<lparr>hs_uploads := hm_insert (session_id, file_id) t (hs_uploads s)\<rparr>,
      release_all (held_at (session_id, file_id) (hs_uploads s)) @
      sink_add E (RsFileUpload session_id file_id file))"
| "bridge_server_event E (EvSessionEnd session_id reason) t s =
     (s\<lparr>hs_uploads := hm_retain (\<lambda>(sid, _) _. sid \<noteq> session_id) (hs_uploads s)\<rparr>,
      release_all (map snd (hm_retain (\<lambda>(sid, _) _. sid = session_id) (hs_uploads s))) @
      sink_add E (RsSessionEnd session_id reason))"
| "bridge_server_event E (EvPrepareUploadAborted session_id) t s =
     (case hs_decision s of
        Some (sid, old) \<Rightarrow>
          if sid = session_id
          then (s\<lparr>hs_decision := None\<rparr>, Released old # sink_add E (RsPrepareUploadAborted session_id))
          else (s, sink_add E (RsPrepareUploadAborted session_id))
      | None \<Rightarrow> (s, sink_add E (RsPrepareUploadAborted session_id)))"
| "bridge_server_event E (EvCancelReceived ip session_id) t s =
     (s, sink_add E (RsCancelReceived (peer_ip_to_string ip) session_id))"

fun bridge_web_event :: "bridge_env \<Rightarrow> web_send_event \<Rightarrow> nat \<Rightarrow> rs_http_server \<Rightarrow> bridge_turn" where
  "bridge_web_event E (WePrepareDownload ip session_id user_agent) t s =
     (s\<lparr>hs_download_decisions := hm_insert session_id t (hs_download_decisions s)\<rparr>,
      release_all (held_at session_id (hs_download_decisions s)) @
      sink_add E (RsWebPrepareDownload (peer_ip_to_string ip) session_id user_agent))"
| "bridge_web_event E (WeFileDownload session_id file_id file) t s =
     (s\<lparr>hs_downloads := hm_insert (session_id, file_id) t (hs_downloads s)\<rparr>,
      release_all (held_at (session_id, file_id) (hs_downloads s)) @
      sink_add E (RsWebFileDownload session_id file_id file))"

fun remote_fs_bridge :: "rstring \<Rightarrow> remote_fs_event \<Rightarrow> nat \<Rightarrow> pending_remote_fs_responder \<times> rs_server_event" where
  "remote_fs_bridge i (FsRoots peer) t = (PendRoots t, RsRemoteFsRoots i (rs_peer peer))"
| "remote_fs_bridge i (FsList peer request) t = (PendList t, RsRemoteFsList i (rs_peer peer) request)"
| "remote_fs_bridge i (FsMetadata peer target) t = (PendEntry t, RsRemoteFsMetadata i (rs_peer peer) target)"
| "remote_fs_bridge i (FsCreateDirectory peer request) t =
     (PendEntry t, RsRemoteFsCreateDirectory i (rs_peer peer) request)"
| "remote_fs_bridge i (FsRename peer request) t = (PendEntry t, RsRemoteFsRename i (rs_peer peer) request)"
| "remote_fs_bridge i (FsMove peer request) t = (PendEntry t, RsRemoteFsMove i (rs_peer peer) request)"
| "remote_fs_bridge i (FsDelete peer request) t = (PendDelete t, RsRemoteFsDelete i (rs_peer peer) request)"
| "remote_fs_bridge i (FsRead peer target) t = (PendRead t, RsRemoteFsRead i (rs_peer peer) target)"
| "remote_fs_bridge i (FsWrite peer request) t =
     (PendWrite t (fwr_size request), RsRemoteFsWrite i (rs_peer peer) request)"

definition prune_closed_remote_fs_responders ::
  "bridge_env \<Rightarrow> rs_http_server \<Rightarrow> bridge_turn"
where
  "prune_closed_remote_fs_responders E s =
     (s\<lparr>hs_remote_fs := hm_retain (\<lambda>_ r. \<not> be_gone E (fs_responder r)) (hs_remote_fs s)\<rparr>,
      release_all (map (fs_responder \<circ> snd) (hm_retain (\<lambda>_ r. be_gone E (fs_responder r)) (hs_remote_fs s))))"

definition handle_remote_fs_event ::
  "bridge_env \<Rightarrow> remote_fs_event \<Rightarrow> nat \<Rightarrow> rs_http_server \<Rightarrow> bridge_turn"
where
  "handle_remote_fs_event E event t s =
     (let request_id = be_uuid E;
          (responder, emitted) = remote_fs_bridge request_id event t;
          (s1, pruned) = prune_closed_remote_fs_responders E s
      in if DEFAULT_MAX_CONCURRENT_REQUESTS \<le> length (hs_remote_fs s1)
         then (s1, pruned @ [Released t])
         else
           let s2 = s1\<lparr>hs_remote_fs := hm_insert request_id responder (hs_remote_fs s1)\<rparr>;
               replaced = release_all (map fs_responder (held_at request_id (hs_remote_fs s1)))
           in if be_sink_open E then (s2, pruned @ replaced @ [Emitted emitted])
              else (s2\<lparr>hs_remote_fs := hm_remove request_id (hs_remote_fs s2)\<rparr>,
                    pruned @ replaced @ [Released t]))"

section \<open>The listening loop\<close>

definition bridge_listen :: "rs_http_server \<Rightarrow> bridge_turn" where
  "bridge_listen s =
     (case hs_event_rx s of
        None \<Rightarrow> (s, [SinkError (lit ''Server events already listened to'')])
      | Some channels \<Rightarrow> (s\<lparr>hs_event_rx := None, hs_loop := Some channels\<rparr>, []))"

text \<open>
  What wakes the loop: an event with its responder (unused where the event has none), the end
  of a channel, or the cleanup timer. A closed channel no longer wakes it.
\<close>

datatype wake =
    WakeV2 "(server_event_v2 \<times> nat) option"
  | WakeWeb "(web_send_event \<times> nat) option"
  | WakeInternal "rstring list option"
  | WakeRemoteFs "(remote_fs_event \<times> nat) option"
  | WakeCleanup

fun enabled :: "event_channels \<Rightarrow> wake \<Rightarrow> bool" where
  "enabled c (WakeV2 e) = ec_v2 c"
| "enabled c (WakeWeb e) = ec_web c"
| "enabled c (WakeInternal e) = ec_internal c"
| "enabled c (WakeRemoteFs e) = ec_remote_fs c"
| "enabled c WakeCleanup = ec_remote_fs c"

fun close_channel :: "wake \<Rightarrow> event_channels \<Rightarrow> event_channels" where
  "close_channel (WakeV2 None) c = c\<lparr>ec_v2 := False\<rparr>"
| "close_channel (WakeWeb None) c = c\<lparr>ec_web := False\<rparr>"
| "close_channel (WakeInternal None) c = c\<lparr>ec_internal := False\<rparr>"
| "close_channel (WakeRemoteFs None) c = c\<lparr>ec_remote_fs := False\<rparr>"
| "close_channel _ c = c"

fun handle_wake :: "bridge_env \<Rightarrow> wake \<Rightarrow> rs_http_server \<Rightarrow> bridge_turn" where
  "handle_wake E (WakeV2 (Some (event, t))) s = bridge_server_event E event t s"
| "handle_wake E (WakeWeb (Some (event, t))) s = bridge_web_event E event t s"
| "handle_wake E (WakeInternal (Some args)) s = (s, sink_add E (RsShow args))"
| "handle_wake E (WakeRemoteFs (Some (event, t))) s = handle_remote_fs_event E event t s"
| "handle_wake E WakeCleanup s = prune_closed_remote_fs_responders E s"
| "handle_wake E _ s = (s, [])"

text \<open>
  Whether the turn has used the sink and found it closed. A request that is over the limit
  emits nothing.
\<close>

fun uses_sink :: "bridge_env \<Rightarrow> wake \<Rightarrow> rs_http_server \<Rightarrow> bool" where
  "uses_sink E (WakeV2 e) s = (e \<noteq> None)"
| "uses_sink E (WakeWeb e) s = (e \<noteq> None)"
| "uses_sink E (WakeInternal e) s = (e \<noteq> None)"
| "uses_sink E (WakeRemoteFs e) s =
     (e \<noteq> None \<and> length (hs_remote_fs (fst (prune_closed_remote_fs_responders E s))) < DEFAULT_MAX_CONCURRENT_REQUESTS)"
| "uses_sink E WakeCleanup s = False"

definition all_closed :: "event_channels \<Rightarrow> bool" where
  "all_closed c \<longleftrightarrow> \<not> ec_v2 c \<and> \<not> ec_web c \<and> \<not> ec_internal c \<and> \<not> ec_remote_fs c"

definition listen_end :: "rs_http_server \<Rightarrow> bridge_turn" where
  "listen_end s =
     (s\<lparr>hs_loop := None, hs_remote_fs := []\<rparr>, release_all (map (fs_responder \<circ> snd) (hs_remote_fs s)))"

text \<open>An event that arrives when nobody receives is dropped with its responder.\<close>

fun wake_responder :: "wake \<Rightarrow> nat list" where
  "wake_responder (WakeV2 (Some (EvPrepareUpload sid ip info fp files, t))) = [t]"
| "wake_responder (WakeV2 (Some (EvFileUpload sid fid f, t))) = [t]"
| "wake_responder (WakeWeb (Some (e, t))) = [t]"
| "wake_responder (WakeRemoteFs (Some (e, t))) = [t]"
| "wake_responder _ = []"

definition listen_turn :: "bridge_env \<Rightarrow> wake \<Rightarrow> rs_http_server \<Rightarrow> bridge_turn" where
  "listen_turn E w s =
     (case hs_loop s of
        None \<Rightarrow> (s, release_all (wake_responder w))
      | Some c \<Rightarrow>
          if \<not> enabled c w then (s, release_all (wake_responder w))
          else
            let c' = close_channel w c;
                (s1, out) = handle_wake E w s
            in if uses_sink E w s \<and> \<not> be_sink_open E \<or> all_closed c'
               then let (s2, ended) = listen_end s1 in (s2, out @ ended)
               else (s1\<lparr>hs_loop := Some c'\<rparr>, out))"

section \<open>Answers of the application\<close>

definition send_reply :: "bridge_env \<Rightarrow> nat \<Rightarrow> rs_reply \<Rightarrow> string \<Rightarrow> rs_output list" where
  "send_reply E t reply ended =
     (if be_gone E t then [Unheard t, Returned (Inl (lit ended))] else [Replied t reply, Returned (Inr ())])"

definition respond_prepare_upload :: "bridge_env \<Rightarrow> rstring list option \<Rightarrow> rs_http_server \<Rightarrow> bridge_turn" where
  "respond_prepare_upload E accepted_file_ids s =
     (case hs_decision s of
        None \<Rightarrow> (s, [Returned (Inl (lit ''No pending prepare-upload request''))])
      | Some (_, decision_tx) \<Rightarrow>
          let decision = (case accepted_file_ids of Some ids \<Rightarrow> Accept ids | None \<Rightarrow> Decline)
          in (s\<lparr>hs_decision := None\<rparr>,
              send_reply E decision_tx (ReplyDecision decision) ''Prepare-upload request already ended''))"

definition resolve_upload_target ::
  "bridge_env \<Rightarrow> rstring option \<Rightarrow> 32 word option \<Rightarrow> (file_upload_target, rstring) result"
where
  "resolve_upload_target E path file_descriptor =
     (case (path, file_descriptor) of
        (Some p, None) \<Rightarrow> Inr (TargetPath (be_path E p))
      | (None, Some fd) \<Rightarrow>
          if be_android E then Inr (TargetFd (be_fd E fd))
          else Inl (lit ''File descriptors are only supported on Android'')
      | _ \<Rightarrow> Inl (lit ''Exactly one upload target must be provided''))"

definition resolve_file_content ::
  "bridge_env \<Rightarrow> rstring option \<Rightarrow> 32 word option \<Rightarrow> (file_content, rstring) result"
where
  "resolve_file_content E path file_descriptor =
     (case (path, file_descriptor) of
        (Some p, None) \<Rightarrow> Inr (be_path_content E p)
      | (None, Some fd) \<Rightarrow>
          if be_android E then Inr (be_fd_content E fd)
          else Inl (lit ''File descriptors are only supported on Android'')
      | _ \<Rightarrow> Inl (lit ''Exactly one download source must be provided''))"

text \<open>The call up to the point where it waits for the file to be received.\<close>

definition respond_file_upload ::
  "bridge_env \<Rightarrow> rstring \<Rightarrow> rstring \<Rightarrow> rstring option \<Rightarrow> 32 word option \<Rightarrow> rs_http_server \<Rightarrow> bridge_turn"
where
  "respond_file_upload E session_id file_id path file_descriptor s =
     (case map_of (hs_uploads s) (session_id, file_id) of
        None \<Rightarrow> (s, [SinkError (lit ''No pending file upload for this file'')])
      | Some target_tx \<Rightarrow>
          (s\<lparr>hs_uploads := hm_remove (session_id, file_id) (hs_uploads s)\<rparr>,
           case resolve_upload_target E path file_descriptor of
             Inl e \<Rightarrow> [Released target_tx, SinkError e]
           | Inr target \<Rightarrow>
               if be_gone E target_tx then [Unheard target_tx, SinkError (lit ''Upload request already ended'')]
               else [Replied target_tx (ReplyTarget target)]))"

definition fail_file_upload :: "rstring \<Rightarrow> rstring \<Rightarrow> rs_http_server \<Rightarrow> bridge_turn" where
  "fail_file_upload session_id file_id s =
     (s\<lparr>hs_uploads := hm_remove (session_id, file_id) (hs_uploads s)\<rparr>,
      release_all (held_at (session_id, file_id) (hs_uploads s)))"

definition respond_prepare_download :: "bridge_env \<Rightarrow> rstring \<Rightarrow> bool \<Rightarrow> rs_http_server \<Rightarrow> bridge_turn" where
  "respond_prepare_download E session_id accept s =
     (case map_of (hs_download_decisions s) session_id of
        None \<Rightarrow> (s, [Returned (Inl (lit ''No pending prepare-download request''))])
      | Some decision_tx \<Rightarrow>
          (s\<lparr>hs_download_decisions := hm_remove session_id (hs_download_decisions s)\<rparr>,
           send_reply E decision_tx (ReplyDownload accept) ''Prepare-download request already ended''))"

definition respond_file_download ::
  "bridge_env \<Rightarrow> rstring \<Rightarrow> rstring \<Rightarrow> rstring option \<Rightarrow> 32 word option \<Rightarrow> rs_http_server \<Rightarrow> bridge_turn"
where
  "respond_file_download E session_id file_id path file_descriptor s =
     (case map_of (hs_downloads s) (session_id, file_id) of
        None \<Rightarrow> (s, [Returned (Inl (lit ''No pending file download for this file''))])
      | Some content_tx \<Rightarrow>
          (s\<lparr>hs_downloads := hm_remove (session_id, file_id) (hs_downloads s)\<rparr>,
           case resolve_file_content E path file_descriptor of
             Inl e \<Rightarrow> [Released content_tx, Returned (Inl e)]
           | Inr content \<Rightarrow> send_reply E content_tx (ReplyContent content) ''Download request already ended''))"

definition fail_file_download :: "rstring \<Rightarrow> rstring \<Rightarrow> rs_http_server \<Rightarrow> bridge_turn" where
  "fail_file_download session_id file_id s =
     (s\<lparr>hs_downloads := hm_remove (session_id, file_id) (hs_downloads s)\<rparr>,
      release_all (held_at (session_id, file_id) (hs_downloads s)))"

definition bridge_cancel_session :: "rstring \<Rightarrow> rs_http_server \<Rightarrow> bridge_turn" where
  "bridge_cancel_session session_id s =
     (s\<lparr>hs_uploads := hm_retain (\<lambda>(sid, _) _. sid \<noteq> session_id) (hs_uploads s)\<rparr>,
      CoreCancel session_id #
      release_all (map snd (hm_retain (\<lambda>(sid, _) _. sid = session_id) (hs_uploads s))))"

section \<open>Answers to remote file system requests\<close>

fun is_kind :: "string \<Rightarrow> pending_remote_fs_responder \<Rightarrow> bool" where
  "is_kind kind (PendRoots _) = (kind = ''roots'')"
| "is_kind kind (PendList _) = (kind = ''list'')"
| "is_kind kind (PendEntry _) = (kind = ''entry'')"
| "is_kind kind (PendDelete _) = (kind = ''delete'')"
| "is_kind kind (PendRead _) = (kind = ''read'')"
| "is_kind kind (PendWrite _ _) = (kind = ''write'')"

definition take_remote_fs_responder ::
  "rstring \<Rightarrow> string \<Rightarrow> rs_http_server \<Rightarrow> (pending_remote_fs_responder \<times> rs_http_server, rstring) result"
where
  "take_remote_fs_responder request_id expected_kind s =
     (case map_of (hs_remote_fs s) request_id of
        None \<Rightarrow> Inl (lit ''No pending remote filesystem request'')
      | Some responder \<Rightarrow>
          if \<not> is_kind expected_kind responder
          then Inl (lit ''Wrong response type for remote filesystem request'')
          else Inr (responder, s\<lparr>hs_remote_fs := hm_remove request_id (hs_remote_fs s)\<rparr>))"

definition fs_ended :: string where "fs_ended = ''Remote filesystem request already ended''"

definition respond_fs ::
  "bridge_env \<Rightarrow> rstring \<Rightarrow> string \<Rightarrow> rs_reply \<Rightarrow> rs_http_server \<Rightarrow> bridge_turn"
where
  "respond_fs E request_id kind reply s =
     (case take_remote_fs_responder request_id kind s of
        Inl e \<Rightarrow> (s, [Returned (Inl e)])
      | Inr (responder, s1) \<Rightarrow> (s1, send_reply E (fs_responder responder) reply fs_ended))"

definition respond_remote_fs_roots where
  "respond_remote_fs_roots E request_id rs = respond_fs E request_id ''roots'' (ReplyRoots (Inr rs))"

definition respond_remote_fs_list where
  "respond_remote_fs_list E request_id response = respond_fs E request_id ''list'' (ReplyList (Inr response))"

definition respond_remote_fs_entry where
  "respond_remote_fs_entry E request_id entry = respond_fs E request_id ''entry'' (ReplyEntry (Inr entry))"

definition respond_remote_fs_delete where
  "respond_remote_fs_delete E request_id = respond_fs E request_id ''delete'' (ReplyDelete (Inr ()))"

definition respond_remote_fs_read ::
  "bridge_env \<Rightarrow> rstring \<Rightarrow> remote_fs_entry \<Rightarrow> rstring option \<Rightarrow> 32 word option \<Rightarrow> rs_http_server \<Rightarrow> bridge_turn"
where
  "respond_remote_fs_read E request_id entry path file_descriptor s =
     (case resolve_file_content E path file_descriptor of
        Inl e \<Rightarrow> (s, [Returned (Inl e)])
      | Inr content \<Rightarrow>
          respond_fs E request_id ''read'' (ReplyRead (Inr \<lparr>frs_entry = entry, frs_content = content\<rparr>)) s)"

text \<open>
  The call for a write up to the point where the target is sent, with the size its responder
  was registered with; the errors are the \<^verbatim>\<open>Failed\<close> event of the stream. The last branch
  is the \<^verbatim>\<open>unreachable!\<close> of the source.
\<close>

definition respond_remote_fs_write ::
  "bridge_env \<Rightarrow> rstring \<Rightarrow> rstring option \<Rightarrow> 32 word option \<Rightarrow> rs_http_server \<Rightarrow>
   rs_http_server \<times> rs_output list \<times> (u64, rstring) result"
where
  "respond_remote_fs_write E request_id path file_descriptor s =
     (case take_remote_fs_responder request_id ''write'' s of
        Inl e \<Rightarrow> (s, [], Inl e)
      | Inr (PendWrite target_tx expected_size, s1) \<Rightarrow>
          (case resolve_upload_target E path file_descriptor of
             Inl e \<Rightarrow> (s1, [Released target_tx], Inl e)
           | Inr target \<Rightarrow>
               if be_gone E target_tx then (s1, [Unheard target_tx], Inl (lit fs_ended))
               else (s1, [Replied target_tx (ReplyWrite (Inr target))], Inr expected_size))
      | Inr (_, s1) \<Rightarrow> (s1, [], Inl (lit ''unreachable'')))"

fun error_reply :: "pending_remote_fs_responder \<Rightarrow> remote_fs_error_code \<Rightarrow> rs_reply" where
  "error_reply (PendRoots _) e = ReplyRoots (Inl e)"
| "error_reply (PendList _) e = ReplyList (Inl e)"
| "error_reply (PendEntry _) e = ReplyEntry (Inl e)"
| "error_reply (PendDelete _) e = ReplyDelete (Inl e)"
| "error_reply (PendRead _) e = ReplyRead (Inl e)"
| "error_reply (PendWrite _ _) e = ReplyWrite (Inl e)"

definition respond_remote_fs_error ::
  "bridge_env \<Rightarrow> rstring \<Rightarrow> remote_fs_error_code \<Rightarrow> rs_http_server \<Rightarrow> bridge_turn"
where
  "respond_remote_fs_error E request_id error s =
     (case map_of (hs_remote_fs s) request_id of
        None \<Rightarrow> (s, [Returned (Inl (lit ''No pending remote filesystem request''))])
      | Some responder \<Rightarrow>
          (s\<lparr>hs_remote_fs := hm_remove request_id (hs_remote_fs s)\<rparr>,
           send_reply E (fs_responder responder) (error_reply responder error) fs_ended))"

section \<open>Runs\<close>

datatype bridge_input =
    InListen
  | InWake wake
  | CallPrepareUpload "rstring list option"
  | CallFileUpload rstring rstring "rstring option" "32 word option"
  | CallFailUpload rstring rstring
  | CallPrepareDownload rstring bool
  | CallFileDownload rstring rstring "rstring option" "32 word option"
  | CallFailDownload rstring rstring
  | CallFsRoots rstring "remote_fs_root list"
  | CallFsList rstring remote_fs_list_response
  | CallFsEntry rstring remote_fs_entry
  | CallFsDelete rstring
  | CallFsRead rstring remote_fs_entry "rstring option" "32 word option"
  | CallFsWrite rstring "rstring option" "32 word option"
  | CallFsError rstring remote_fs_error_code
  | CallCancel rstring

fun bridge_step :: "bridge_env \<Rightarrow> bridge_input \<Rightarrow> rs_http_server \<Rightarrow> bridge_turn" where
  "bridge_step E InListen s = bridge_listen s"
| "bridge_step E (InWake w) s = listen_turn E w s"
| "bridge_step E (CallPrepareUpload ids) s = respond_prepare_upload E ids s"
| "bridge_step E (CallFileUpload sid fid path fd) s = respond_file_upload E sid fid path fd s"
| "bridge_step E (CallFailUpload sid fid) s = fail_file_upload sid fid s"
| "bridge_step E (CallPrepareDownload sid accept) s = respond_prepare_download E sid accept s"
| "bridge_step E (CallFileDownload sid fid path fd) s = respond_file_download E sid fid path fd s"
| "bridge_step E (CallFailDownload sid fid) s = fail_file_download sid fid s"
| "bridge_step E (CallFsRoots i rs) s = respond_remote_fs_roots E i rs s"
| "bridge_step E (CallFsList i response) s = respond_remote_fs_list E i response s"
| "bridge_step E (CallFsEntry i entry) s = respond_remote_fs_entry E i entry s"
| "bridge_step E (CallFsDelete i) s = respond_remote_fs_delete E i s"
| "bridge_step E (CallFsRead i entry path fd) s = respond_remote_fs_read E i entry path fd s"
| "bridge_step E (CallFsWrite i path fd) s =
     (let (s1, out, _) = respond_remote_fs_write E i path fd s in (s1, out))"
| "bridge_step E (CallFsError i error) s = respond_remote_fs_error E i error s"
| "bridge_step E (CallCancel sid) s = bridge_cancel_session sid s"

fun bridge_run :: "(bridge_env \<times> bridge_input) list \<Rightarrow> rs_http_server \<Rightarrow> bridge_turn" where
  "bridge_run [] s = (s, [])"
| "bridge_run ((E, x) # xs) s =
     (let (s1, out) = bridge_step E x s; (s2, rest) = bridge_run xs s1 in (s2, out @ rest))"

end
