(* ===== verification/FB_AppServerSafety.thy ===== *)
theory FB_AppServerSafety
  imports FB_AppServer
begin

text \<open>
  What the application's side of the server keeps: every responder is held, used or released
  exactly once, and an answer reaches the request it names. The answer to a request for an
  upload names none, which is where this fails.
\<close>

section \<open>Responders\<close>

definition responders :: "rs_http_server \<Rightarrow> nat list" where
  "responders s =
     (case hs_decision s of Some (_, t) \<Rightarrow> [t] | None \<Rightarrow> []) @ map snd (hs_uploads s) @
     map snd (hs_download_decisions s) @ map snd (hs_downloads s) @ map (fs_responder \<circ> snd) (hs_remote_fs s)"

fun used_responder :: "rs_output \<Rightarrow> nat list" where
  "used_responder (Replied t r) = [t]"
| "used_responder (Unheard t) = [t]"
| "used_responder (Released t) = [t]"
| "used_responder _ = []"

definition used_responders :: "rs_output list \<Rightarrow> nat list" where
  "used_responders out = concat (map used_responder out)"

fun incoming :: "bridge_input \<Rightarrow> nat list" where
  "incoming (InWake w) = wake_responder w"
| "incoming _ = []"

definition bridge_ok :: "rs_http_server \<Rightarrow> bool" where
  "bridge_ok s \<longleftrightarrow>
     distinct (map fst (hs_uploads s)) \<and> distinct (map fst (hs_download_decisions s)) \<and>
     distinct (map fst (hs_downloads s)) \<and> distinct (map fst (hs_remote_fs s)) \<and>
     length (hs_remote_fs s) \<le> DEFAULT_MAX_CONCURRENT_REQUESTS"

lemma used_simps [simp]:
  "used_responders [] = []"
  "used_responders (x # xs) = used_responder x @ used_responders xs"
  "used_responders (xs @ ys) = used_responders xs @ used_responders ys"
  "used_responders (release_all ts) = ts"
  "used_responders (sink_add E e) = []"
  "used_responders (send_reply E t r why) = [t]"
  by (auto simp: used_responders_def release_all_def sink_add_def send_reply_def comp_def)

lemma hm_retain_mset:
  "mset (map f (hm_retain P m)) + mset (map f (hm_retain (\<lambda>k v. \<not> P k v) m)) = mset (map f m)"
  by (induction m) (auto simp: hm_retain_def)

lemma hm_remove_held:
  "mset (map (f \<circ> snd) (hm_remove k m)) + mset (map f (held_at k m)) = mset (map (f \<circ> snd) m)"
  by (induction m) (auto simp: hm_remove_def hm_retain_def held_at_def)

lemma hm_remove_insert [simp]: "hm_remove k (hm_insert k v m) = hm_remove k m"
  by (simp add: hm_insert_retain hm_remove_def hm_retain_def)

lemma held_at_lookup: "distinct (map fst m) \<Longrightarrow> map_of m k = Some v \<Longrightarrow> held_at k m = [v]"
proof (induction m)
  case (Cons e m)
  then show ?case
    by (cases e) (auto simp: held_at_def image_iff filter_empty_conv split: if_splits)
qed simp

lemma hm_remove_lookup:
  assumes "distinct (map fst m)" "map_of m k = Some v"
  shows "mset (map (f \<circ> snd) m) = add_mset (f v) (mset (map (f \<circ> snd) (hm_remove k m)))"
  using hm_remove_held [of f k m] by (simp add: held_at_lookup [OF assms])

lemma hm_insert_held:
  "mset (map (f \<circ> snd) (hm_insert k v m)) + mset (map f (held_at k m)) = add_mset (f v) (mset (map (f \<circ> snd) m))"
  using hm_remove_held [of f k m] by (simp add: hm_insert_retain)

lemmas insert_held = hm_insert_held [of id, unfolded id_comp list.map_id id_apply]
  and remove_held = hm_remove_held [of id, unfolded id_comp list.map_id id_apply]
  and remove_found = hm_remove_lookup [where f = id, unfolded id_comp id_apply]

lemma distinct_hm_remove: "distinct (map fst m) \<Longrightarrow> distinct (map fst (hm_remove k m))"
  by (simp add: hm_remove_def distinct_hm_retain)

lemma length_hm_insert: "length (hm_insert k v m) \<le> Suc (length m)"
  by (simp add: hm_insert_def)

lemma length_hm_remove: "length (hm_remove k m) \<le> length m"
  by (simp add: hm_remove_def hm_retain_def)

lemma length_hm_retain: "length (hm_retain P m) \<le> length m"
  by (simp add: hm_retain_def)

lemma bridge_new_ok: "bridge_ok (rs_http_server_new i c)" "responders (rs_http_server_new i c) = []"
  by (simp_all add: bridge_ok_def rs_http_server_new_def responders_def)


section \<open>Conservation\<close>

definition conserved :: "rs_http_server \<Rightarrow> nat list \<Rightarrow> bridge_turn \<Rightarrow> bool" where
  "conserved s ts turn \<longleftrightarrow>
     mset (responders (fst turn)) + mset (used_responders (snd turn)) = mset (responders s) + mset ts \<and>
     bridge_ok (fst turn)"

lemma conserved_idle: "bridge_ok s \<Longrightarrow> used_responders out = ts \<Longrightarrow> conserved s ts (s, out)"
  by (simp add: conserved_def)

lemma retained_sid:
  "mset (map snd (hm_retain (\<lambda>(sid, _) _. sid \<noteq> k) m)) + mset (map snd (hm_retain (\<lambda>(sid, _) _. sid = k) m)) =
   mset (map snd m)"
  for m :: "('a \<times> 'b, 'c) hash_map"
  by (induction m) (auto simp: hm_retain_def)

lemma retained_sid':
  "A + mset (map snd (hm_retain (\<lambda>(sid, _) _. sid \<noteq> k) m)) + mset (map snd (hm_retain (\<lambda>(sid, _) _. sid = k) m)) =
   A + mset (map snd m)"
  for m :: "('a \<times> 'b, 'c) hash_map"
  using retained_sid [of k m] by (simp add: add.assoc)

lemma retained_gone:
  "mset (map (fs_responder \<circ> snd) (hm_retain (\<lambda>_ r. \<not> P r) m)) +
   mset (map (fs_responder \<circ> snd) (hm_retain (\<lambda>_ r. P r) m)) = mset (map (fs_responder \<circ> snd) m)"
  by (induction m) (auto simp: hm_retain_def)

lemmas responder_simps = conserved_def bridge_ok_def responders_def distinct_hm_insert distinct_hm_retain distinct_hm_remove

lemma conserved_server:
  assumes "bridge_ok s"
  shows "conserved s (wake_responder (WakeV2 (Some (e, t)))) (bridge_server_event E e t s)"
proof (cases e)
  case (EvFileUpload sid fid f)
  then show ?thesis using assms insert_held [of "(sid, fid)" t "hs_uploads s"]
    by (simp add: responder_simps ac_simps del: mset_map)
next
  case (EvSessionEnd sid reason)
  then show ?thesis using assms retained_sid [of sid "hs_uploads s"]
    by (simp add: responder_simps ac_simps del: mset_map)
qed (use assms in \<open>auto simp: responder_simps split: option.splits\<close>)

lemma conserved_web:
  assumes "bridge_ok s"
  shows "conserved s [t] (bridge_web_event E e t s)"
proof (cases e)
  case (WePrepareDownload ip sid agent)
  then show ?thesis using assms insert_held [of sid t "hs_download_decisions s"]
    by (simp add: responder_simps ac_simps del: mset_map)
next
  case (WeFileDownload sid fid f)
  then show ?thesis using assms insert_held [of "(sid, fid)" t "hs_downloads s"]
    by (simp add: responder_simps ac_simps del: mset_map)
qed

lemma conserved_prune: "bridge_ok s \<Longrightarrow> conserved s [] (prune_closed_remote_fs_responders E s)"
  using retained_gone [of "\<lambda>r. be_gone E (fs_responder r)" "hs_remote_fs s"]
  by (simp add: responder_simps prune_closed_remote_fs_responders_def ac_simps order_trans [OF length_hm_retain] del: mset_map)

lemma bridge_responder: "fs_responder (fst (remote_fs_bridge i e t)) = t"
  by (cases e) auto

definition other_responders :: "rs_http_server \<Rightarrow> nat multiset" where
  "other_responders s = mset (case hs_decision s of Some (_, t) \<Rightarrow> [t] | None \<Rightarrow> []) + mset (map snd (hs_uploads s)) +
     mset (map snd (hs_download_decisions s)) + mset (map snd (hs_downloads s))"

lemma responders_fs:
  "mset (responders (s\<lparr>hs_remote_fs := m\<rparr>)) = other_responders s + mset (map (fs_responder \<circ> snd) m)"
  "mset (responders s) = other_responders s + mset (map (fs_responder \<circ> snd) (hs_remote_fs s))"
  "other_responders (s\<lparr>hs_remote_fs := m\<rparr>) = other_responders s"
  by (simp_all add: responders_def other_responders_def ac_simps del: mset_map)

lemma bridge_ok_fs:
  "bridge_ok s \<Longrightarrow> bridge_ok (s\<lparr>hs_remote_fs := m\<rparr>) =
   (distinct (map fst m) \<and> length m \<le> DEFAULT_MAX_CONCURRENT_REQUESTS)"
  by (simp add: bridge_ok_def)

lemma conserved_fs:
  assumes "bridge_ok s"
  shows "conserved s [t] (handle_remote_fs_event E e t s)"
proof -
  obtain r ev where bridge: "remote_fs_bridge (be_uuid E) e t = (r, ev)" by fastforce
  then have r: "fs_responder r = t" using bridge_responder [of "be_uuid E" e t] by simp
  obtain s1 out where prune: "prune_closed_remote_fs_responders E s = (s1, out)" by fastforce
  with conserved_prune [OF assms, of E]
  have kept: "mset (responders s) = mset (responders s1) + mset (used_responders out)" and ok: "bridge_ok s1"
    by (simp_all add: conserved_def)
  have fs: "distinct (map fst (hs_remote_fs s1))" "length (hs_remote_fs s1) \<le> DEFAULT_MAX_CONCURRENT_REQUESTS"
    using ok by (simp_all add: bridge_ok_def)
  show ?thesis
    unfolding conserved_def kept
    using ok fs hm_insert_held [of fs_responder "be_uuid E" r "hs_remote_fs s1"]
      hm_remove_held [of fs_responder "be_uuid E" "hs_remote_fs s1"]
      length_hm_insert [of "be_uuid E" r "hs_remote_fs s1"] length_hm_remove [of "be_uuid E" "hs_remote_fs s1"]
    by (simp add: handle_remote_fs_event_def bridge prune r Let_def responders_fs bridge_ok_fs distinct_hm_insert
        distinct_hm_remove ac_simps del: mset_map)
qed


lemma responders_loop [simp]:
  "responders (s\<lparr>hs_loop := c\<rparr>) = responders s" "bridge_ok (s\<lparr>hs_loop := c\<rparr>) = bridge_ok s"
  by (simp_all add: responders_def bridge_ok_def)

lemma conserved_wake: "bridge_ok s \<Longrightarrow> conserved s (wake_responder w) (handle_wake E w s)"
  by (cases "(E, w, s)" rule: handle_wake.cases)
    (simp_all add: conserved_web conserved_server conserved_fs conserved_prune conserved_idle del: wake_responder.simps(1,2))

lemma conserved_turn:
  assumes "bridge_ok s"
  shows "conserved s (wake_responder w) (listen_turn E w s)"
proof (cases "\<exists>c. hs_loop s = Some c \<and> enabled c w")
  case True
  obtain s1 out where turn: "handle_wake E w s = (s1, out)" by fastforce
  have "conserved s (wake_responder w) (s1, out)" using conserved_wake [OF assms, of w E] by (simp add: turn)
  then have kept: "mset (responders s) + mset (wake_responder w) = mset (responders s1) + mset (used_responders out)"
    and ok: "bridge_ok s1"
    by (simp_all add: conserved_def)
  have "mset (responders (fst (listen_end s1))) + mset (used_responders (snd (listen_end s1))) = mset (responders s1)"
    "bridge_ok (fst (listen_end s1))"
    using ok by (simp_all add: listen_end_def responders_def bridge_ok_def ac_simps del: mset_map)
  with True kept ok show ?thesis
    by (auto simp: listen_turn_def turn Let_def conserved_def ac_simps split: prod.splits)
next
  case False
  then show ?thesis using assms
    by (auto simp: listen_turn_def conserved_idle split: option.splits)
qed

lemma conserved_take:
  assumes "bridge_ok s" "take_remote_fs_responder i kind s = Inr (r, s1)"
  shows "mset (responders s) = add_mset (fs_responder r) (mset (responders s1)) \<and> bridge_ok s1"
  using assms hm_remove_lookup [of "hs_remote_fs s" i r fs_responder] length_hm_remove [of i "hs_remote_fs s"]
  by (auto simp: take_remote_fs_responder_def responders_fs bridge_ok_fs distinct_hm_remove bridge_ok_def
      simp del: mset_map split: option.splits if_splits)

lemma conserved_respond_fs: "bridge_ok s \<Longrightarrow> conserved s [] (respond_fs E i kind reply s)"
  using conserved_take [of s i kind]
  by (auto simp: respond_fs_def conserved_def split: sum.splits)

lemma take_write: "take_remote_fs_responder i ''write'' s = Inr (r, s1) \<Longrightarrow> \<exists>t n. r = PendWrite t n"
  by (cases r) (auto simp: take_remote_fs_responder_def split: option.splits if_splits)

lemma conserved_write: "bridge_ok s \<Longrightarrow> conserved s [] (bridge_step E (CallFsWrite i path fd) s)"
  using conserved_take [of s i "''write''"] take_write [of i s]
  by (auto simp: respond_remote_fs_write_def conserved_def Let_def split: sum.splits prod.splits
      pending_remote_fs_responder.splits)

lemma conserved_calls:
  assumes "bridge_ok s"
  shows "conserved s [] (respond_prepare_upload E ids s)"
    "conserved s [] (respond_file_upload E sid fid path fd s)"
    "conserved s [] (fail_file_upload sid fid s)"
    "conserved s [] (respond_prepare_download E sid accept s)"
    "conserved s [] (respond_file_download E sid fid path fd s)"
    "conserved s [] (fail_file_download sid fid s)"
    "conserved s [] (respond_remote_fs_error E i error s)"
    "conserved s [] (bridge_cancel_session sid s)"
proof -
  have ok: "distinct (map fst (hs_uploads s))" "distinct (map fst (hs_download_decisions s))"
    "distinct (map fst (hs_downloads s))" "distinct (map fst (hs_remote_fs s))"
    using assms by (simp_all add: bridge_ok_def)
  show "conserved s [] (respond_prepare_upload E ids s)"
    using assms by (auto simp: respond_prepare_upload_def responder_simps Let_def split: option.splits)
  show "conserved s [] (respond_file_upload E sid fid path fd s)"
    using assms remove_found [OF ok(1), of "(sid, fid)"]
    by (auto simp: respond_file_upload_def responder_simps simp del: mset_map split: option.splits sum.splits)
  show "conserved s [] (fail_file_upload sid fid s)"
    using assms remove_held [of "(sid, fid)" "hs_uploads s"]
    by (simp add: fail_file_upload_def responder_simps ac_simps del: mset_map)
  show "conserved s [] (respond_prepare_download E sid accept s)"
    using assms remove_found [OF ok(2), of sid]
    by (auto simp: respond_prepare_download_def responder_simps simp del: mset_map split: option.splits)
  show "conserved s [] (respond_file_download E sid fid path fd s)"
    using assms remove_found [OF ok(3), of "(sid, fid)"]
    by (auto simp: respond_file_download_def responder_simps simp del: mset_map split: option.splits sum.splits)
  show "conserved s [] (fail_file_download sid fid s)"
    using assms remove_held [of "(sid, fid)" "hs_downloads s"]
    by (simp add: fail_file_download_def responder_simps ac_simps del: mset_map)
  show "conserved s [] (respond_remote_fs_error E i error s)"
    using assms hm_remove_lookup [OF ok(4), of i _ fs_responder] length_hm_remove [of i "hs_remote_fs s"]
    by (auto simp: respond_remote_fs_error_def conserved_def responders_fs bridge_ok_fs distinct_hm_remove bridge_ok_def
        simp del: mset_map split: option.splits)
  show "conserved s [] (bridge_cancel_session sid s)"
    using assms retained_sid [of sid "hs_uploads s"]
    by (simp add: bridge_cancel_session_def responder_simps ac_simps del: mset_map)
qed

lemma conserved_listen: "bridge_ok s \<Longrightarrow> conserved s [] (bridge_listen s)"
  by (auto simp: bridge_listen_def responder_simps split: option.splits)

lemma conserved_read: "bridge_ok s \<Longrightarrow> conserved s [] (respond_remote_fs_read E i entry path fd s)"
  by (auto simp: respond_remote_fs_read_def conserved_respond_fs conserved_idle split: sum.splits)

lemma conserved_step: "bridge_ok s \<Longrightarrow> conserved s (incoming x) (bridge_step E x s)"
  by (cases x)
    (simp_all add: conserved_turn conserved_calls conserved_write conserved_respond_fs conserved_listen conserved_read
      respond_remote_fs_roots_def respond_remote_fs_list_def respond_remote_fs_entry_def respond_remote_fs_delete_def
      del: bridge_step.simps(14))

lemma conserved_run:
  "bridge_ok s \<Longrightarrow> conserved s (concat (map (\<lambda>(E, x). incoming x) inputs)) (bridge_run inputs s)"
proof (induction inputs s rule: bridge_run.induct)
  case (2 E x xs s)
  obtain s1 out where step: "bridge_step E x s = (s1, out)" by fastforce
  obtain s2 rest where run: "bridge_run xs s1 = (s2, rest)" by fastforce
  have kept: "mset (responders s1) + mset (used_responders out) = mset (responders s) + mset (incoming x)" "bridge_ok s1"
    using conserved_step [OF "2.prems", of x E] by (simp_all add: conserved_def step)
  have "mset (responders s2) + mset (used_responders rest) =
      mset (responders s1) + mset (concat (map (\<lambda>(E, x). incoming x) xs))" "bridge_ok s2"
    using "2.IH" [OF step [symmetric] refl kept(2)] kept by (simp_all add: conserved_def step run)
  then show ?case using kept(1) by (simp add: conserved_def step run del: mset_concat) (metis add.assoc add.commute)
qed (simp add: conserved_idle)


section \<open>Which request an answer reaches\<close>

fun reply_fits :: "remote_fs_event \<Rightarrow> rs_reply \<Rightarrow> bool" where
  "reply_fits (FsRoots p) (ReplyRoots r) = True"
| "reply_fits (FsList p q) (ReplyList r) = True"
| "reply_fits (FsMetadata p q) (ReplyEntry r) = True"
| "reply_fits (FsCreateDirectory p q) (ReplyEntry r) = True"
| "reply_fits (FsRename p q) (ReplyEntry r) = True"
| "reply_fits (FsMove p q) (ReplyEntry r) = True"
| "reply_fits (FsDelete p q) (ReplyDelete r) = True"
| "reply_fits (FsRead p q) (ReplyRead r) = True"
| "reply_fits (FsWrite p q) (ReplyWrite r) = True"
| "reply_fits e r = False"

fun fs_call_id :: "bridge_input \<Rightarrow> rstring option" where
  "fs_call_id (CallFsRoots i rs) = Some i"
| "fs_call_id (CallFsList i r) = Some i"
| "fs_call_id (CallFsEntry i e) = Some i"
| "fs_call_id (CallFsDelete i) = Some i"
| "fs_call_id (CallFsRead i e path fd) = Some i"
| "fs_call_id (CallFsWrite i path fd) = Some i"
| "fs_call_id (CallFsError i e) = Some i"
| "fs_call_id _ = None"

text \<open>
  The event \<open>w\<close>, told to the application in \<open>E\<close>, carried \<open>t\<close> and fits the call \<open>x\<close>: it is of its
  kind, and of the session, file or request id the call gives. The call that decides on an
  upload gives none, so that here only the kind and the decision are compared.
\<close>

definition names_request :: "bridge_env \<Rightarrow> wake \<Rightarrow> nat \<Rightarrow> bridge_input \<Rightarrow> rs_reply \<Rightarrow> bool" where
  "names_request E w t x reply =
     (case w of
        WakeV2 (Some (EvPrepareUpload sid ip info fp files, u)) \<Rightarrow>
          u = t \<and>
          (case x of
             CallPrepareUpload ids \<Rightarrow> reply = ReplyDecision (case ids of Some ids \<Rightarrow> Accept ids | None \<Rightarrow> Decline)
           | _ \<Rightarrow> False)
      | WakeV2 (Some (EvFileUpload sid fid f, u)) \<Rightarrow>
          u = t \<and> (case x of CallFileUpload a b path fd \<Rightarrow> a = sid \<and> b = fid | _ \<Rightarrow> False) \<and>
          (case reply of ReplyTarget d \<Rightarrow> True | _ \<Rightarrow> False)
      | WakeWeb (Some (WePrepareDownload ip sid agent, u)) \<Rightarrow>
          u = t \<and> (case x of CallPrepareDownload a accept \<Rightarrow> a = sid \<and> reply = ReplyDownload accept | _ \<Rightarrow> False)
      | WakeWeb (Some (WeFileDownload sid fid f, u)) \<Rightarrow>
          u = t \<and> (case x of CallFileDownload a b path fd \<Rightarrow> a = sid \<and> b = fid | _ \<Rightarrow> False) \<and>
          (case reply of ReplyContent d \<Rightarrow> True | _ \<Rightarrow> False)
      | WakeRemoteFs (Some (e, u)) \<Rightarrow>
          u = t \<and> fs_call_id x = Some (be_uuid E) \<and> reply_fits e reply
      | _ \<Rightarrow> False)"

type_synonym history = "(bridge_env \<times> bridge_input) list"

definition decision_from :: "history \<Rightarrow> (rstring \<times> nat) option \<Rightarrow> bool" where
  "decision_from h d \<longleftrightarrow>
     (\<forall>sid t. d = Some (sid, t) \<longrightarrow>
        (\<exists>E ip info fp files. (E, InWake (WakeV2 (Some (EvPrepareUpload sid ip info fp files, t)))) \<in> set h))"

definition uploads_from :: "history \<Rightarrow> (rstring \<times> rstring, nat) hash_map \<Rightarrow> bool" where
  "uploads_from h m \<longleftrightarrow>
     (\<forall>sid fid t. ((sid, fid), t) \<in> set m \<longrightarrow>
        (\<exists>E f. (E, InWake (WakeV2 (Some (EvFileUpload sid fid f, t)))) \<in> set h))"

definition download_decisions_from :: "history \<Rightarrow> (rstring, nat) hash_map \<Rightarrow> bool" where
  "download_decisions_from h m \<longleftrightarrow>
     (\<forall>sid t. (sid, t) \<in> set m \<longrightarrow>
        (\<exists>E ip agent. (E, InWake (WakeWeb (Some (WePrepareDownload ip sid agent, t)))) \<in> set h))"

definition downloads_from :: "history \<Rightarrow> (rstring \<times> rstring, nat) hash_map \<Rightarrow> bool" where
  "downloads_from h m \<longleftrightarrow>
     (\<forall>sid fid t. ((sid, fid), t) \<in> set m \<longrightarrow>
        (\<exists>E f. (E, InWake (WakeWeb (Some (WeFileDownload sid fid f, t)))) \<in> set h))"

definition remote_fs_from :: "history \<Rightarrow> (rstring, pending_remote_fs_responder) hash_map \<Rightarrow> bool" where
  "remote_fs_from h m \<longleftrightarrow>
     (\<forall>i r. (i, r) \<in> set m \<longrightarrow>
        (\<exists>E e t. (E, InWake (WakeRemoteFs (Some (e, t)))) \<in> set h \<and> be_uuid E = i \<and>
           r = fst (remote_fs_bridge i e t)))"

lemmas table_from = decision_from_def uploads_from_def download_decisions_from_def downloads_from_def remote_fs_from_def

definition held_from :: "history \<Rightarrow> rs_http_server \<Rightarrow> bool" where
  "held_from h s \<longleftrightarrow>
     decision_from h (hs_decision s) \<and> uploads_from h (hs_uploads s) \<and>
     download_decisions_from h (hs_download_decisions s) \<and> downloads_from h (hs_downloads s) \<and>
     remote_fs_from h (hs_remote_fs s)"

lemma set_hm_insert: "e \<in> set (hm_insert k v m) \<Longrightarrow> e = (k, v) \<or> e \<in> set m"
  by (auto simp: hm_insert_def)

lemma set_hm_retain: "e \<in> set (hm_retain P m) \<Longrightarrow> e \<in> set m"
  by (simp add: hm_retain_def)

lemma set_hm_remove: "e \<in> set (hm_remove k m) \<Longrightarrow> e \<in> set m"
  by (simp add: hm_remove_def set_hm_retain)

text \<open>The tables of a state are below those of another.\<close>

definition below :: "rs_http_server \<Rightarrow> rs_http_server \<Rightarrow> bool" where
  "below s' s \<longleftrightarrow>
     (hs_decision s' = None \<or> hs_decision s' = hs_decision s) \<and> set (hs_uploads s') \<subseteq> set (hs_uploads s) \<and>
     set (hs_download_decisions s') \<subseteq> set (hs_download_decisions s) \<and> set (hs_downloads s') \<subseteq> set (hs_downloads s) \<and>
     set (hs_remote_fs s') \<subseteq> set (hs_remote_fs s)"

lemma from_mono:
  assumes "set h \<subseteq> set h'"
  shows "decision_from h d \<Longrightarrow> d' = None \<or> d' = d \<Longrightarrow> decision_from h' d'"
    "uploads_from h m \<Longrightarrow> set m' \<subseteq> set m \<Longrightarrow> uploads_from h' m'"
    "download_decisions_from h n \<Longrightarrow> set n' \<subseteq> set n \<Longrightarrow> download_decisions_from h' n'"
    "downloads_from h k \<Longrightarrow> set k' \<subseteq> set k \<Longrightarrow> downloads_from h' k'"
    "remote_fs_from h f \<Longrightarrow> set f' \<subseteq> set f \<Longrightarrow> remote_fs_from h' f'"
  using assms by (simp_all only: table_from) blast+

lemma held_from_below: "held_from h s \<Longrightarrow> below s' s \<Longrightarrow> set h \<subseteq> set h' \<Longrightarrow> held_from h' s'"
  by (auto simp: held_from_def below_def elim: from_mono)

lemma from_insert:
  "(E, InWake (WakeV2 (Some (EvPrepareUpload sid ip info fp files, t)))) \<in> set h \<Longrightarrow> decision_from h (Some (sid, t))"
  "(E, InWake (WakeV2 (Some (EvFileUpload sid fid f, t)))) \<in> set h \<Longrightarrow> uploads_from h m \<Longrightarrow>
   uploads_from h (hm_insert (sid, fid) t m)"
  "(E, InWake (WakeWeb (Some (WePrepareDownload ip sid agent, t)))) \<in> set h \<Longrightarrow> download_decisions_from h n \<Longrightarrow>
   download_decisions_from h (hm_insert sid t n)"
  "(E, InWake (WakeWeb (Some (WeFileDownload sid fid f, t)))) \<in> set h \<Longrightarrow> downloads_from h m \<Longrightarrow>
   downloads_from h (hm_insert (sid, fid) t m)"
  "(E, InWake (WakeRemoteFs (Some (e, t)))) \<in> set h \<Longrightarrow> remote_fs_from h k \<Longrightarrow>
   remote_fs_from h (hm_insert (be_uuid E) (fst (remote_fs_bridge (be_uuid E) e t)) k)"
  unfolding table_from
  subgoal by blast
  subgoal by (auto dest!: set_hm_insert)
  subgoal by (auto dest!: set_hm_insert)
  subgoal by (auto dest!: set_hm_insert)
  subgoal by (auto dest!: set_hm_insert)
  done

lemma below_calls:
  "below (fst (respond_prepare_upload E ids s)) s"
  "below (fst (respond_file_upload E sid fid path fd s)) s"
  "below (fst (fail_file_upload sid fid s)) s"
  "below (fst (respond_prepare_download E sid accept s)) s"
  "below (fst (respond_file_download E sid fid path fd s)) s"
  "below (fst (fail_file_download sid fid s)) s"
  "below (fst (respond_fs E i kind reply s)) s"
  "below (fst (respond_remote_fs_read E i entry path fd s)) s"
  "below (fst (respond_remote_fs_write E i path fd s)) s"
  "below (fst (respond_remote_fs_error E i error s)) s"
  "below (fst (bridge_cancel_session sid s)) s"
  "below (fst (bridge_listen s)) s"
  "below (fst (prune_closed_remote_fs_responders E s)) s"
  "below (fst (listen_end s)) s"
  "below (s\<lparr>hs_loop := c\<rparr>) s"
  "below s s"
  by (auto simp: below_def respond_prepare_upload_def respond_file_upload_def fail_file_upload_def
      respond_prepare_download_def respond_file_download_def fail_file_download_def respond_fs_def
      respond_remote_fs_read_def respond_remote_fs_write_def respond_remote_fs_error_def bridge_cancel_session_def
      bridge_listen_def prune_closed_remote_fs_responders_def listen_end_def take_remote_fs_responder_def Let_def
      dest: set_hm_remove set_hm_retain split: option.splits sum.splits pending_remote_fs_responder.splits)

lemma below_trans: "below a b \<Longrightarrow> below b c \<Longrightarrow> below a c"
  by (auto simp: below_def)

lemma held_from_wake:
  assumes "held_from h s" "set h \<subseteq> set h'" "(E, InWake w) \<in> set h'"
  shows "held_from h' (fst (handle_wake E w s))"
proof -
  have same: "held_from h' s'" if "below s' s" for s' by (rule held_from_below [OF assms(1) that assms(2)])
  have all: "held_from h' s" by (rule same [OF below_calls(16)])
  show ?thesis
  proof (cases "(E, w, s)" rule: handle_wake.cases)
    case (1 E' event t s')
    with assms(3) all show ?thesis
      by (cases event) (auto simp: held_from_def from_insert split: option.splits
          intro: from_mono(1,2) [OF order_refl] dest: set_hm_retain)
  next
    case (2 E' event t s')
    with assms(3) all show ?thesis by (cases event) (auto simp: held_from_def intro: from_insert)
  next
    case (4 E' event t s')
    have "held_from h' (fst (prune_closed_remote_fs_responders E s))" by (rule same [OF below_calls(13)])
    with 4 assms(3) show ?thesis
      using from_insert(5) [of E event t h' "hs_remote_fs (fst (prune_closed_remote_fs_responders E s))"]
      by (auto simp: handle_remote_fs_event_def held_from_def Let_def split: prod.splits
          intro: from_mono(5) [OF order_refl] dest: set_hm_remove)
  next
    case (5 E' s')
    then show ?thesis using same [OF below_calls(13)] by simp
  qed (use all in simp_all)
qed


lemma held_from_step:
  assumes "held_from h s"
  shows "held_from (h @ [(E, x)]) (fst (bridge_step E x s))"
proof (cases "\<exists>w. x = InWake w")
  case True
  then obtain w where x: "x = InWake w" by blast
  have woken: "held_from (h @ [(E, x)]) (fst (handle_wake E w s))"
    by (rule held_from_wake [OF assms]) (auto simp: x)
  have "below (fst (listen_turn E w s)) s \<or> below (fst (listen_turn E w s)) (fst (handle_wake E w s))"
    using below_calls(14,15,16)
    by (auto simp: listen_turn_def Let_def split: option.splits prod.splits) (metis fst_conv)+
  then show ?thesis
    using held_from_below [OF assms, of "fst (listen_turn E w s)" "h @ [(E, x)]"]
      held_from_below [OF woken, of "fst (listen_turn E w s)" "h @ [(E, x)]"]
    by (auto simp: x)
next
  case False
  then have "below (fst (bridge_step E x s)) s"
    by (cases x) (simp_all add: below_calls respond_remote_fs_roots_def respond_remote_fs_list_def
        respond_remote_fs_entry_def respond_remote_fs_delete_def case_prod_unfold Let_def)
  then show ?thesis by (rule held_from_below [OF assms]) auto
qed

lemma held_from_run: "held_from h s \<Longrightarrow> held_from (h @ inputs) (fst (bridge_run inputs s))"
proof (induction inputs arbitrary: h s)
  case (Cons e inputs)
  obtain E x where e: "e = (E, x)" by fastforce
  have "held_from ((h @ [e]) @ inputs) (fst (bridge_run inputs (fst (bridge_step E x s))))"
    by (rule Cons.IH) (simp add: e held_from_step Cons.prems)
  then show ?case by (simp add: e case_prod_unfold Let_def)
qed simp

lemma held_from_new: "held_from [] (rs_http_server_new i c)"
  by (simp add: held_from_def table_from rs_http_server_new_def)

lemma no_reply_simps [simp]:
  "Replied t r \<notin> set (release_all ts)" "Replied t r \<notin> set (sink_add E e)"
  "Replied t r \<in> set (send_reply E u q why) \<longleftrightarrow> \<not> be_gone E u \<and> t = u \<and> r = q"
  by (auto simp: release_all_def sink_add_def send_reply_def)

lemma no_reply_prune: "Replied t r \<notin> set (snd (prune_closed_remote_fs_responders E s))"
  by (simp add: prune_closed_remote_fs_responders_def)

lemma no_reply_wake: "Replied t r \<notin> set (snd (handle_wake E w s))"
proof (cases "(E, w, s)" rule: handle_wake.cases)
  case (1 E' event u s')
  then show ?thesis by (cases event) (auto split: option.splits)
next
  case (2 E' event u s')
  then show ?thesis by (cases event) auto
next
  case (4 E' event u s')
  then show ?thesis using no_reply_prune [of t r E s]
    by (auto simp: handle_remote_fs_event_def Let_def split: prod.splits)
qed (auto simp: no_reply_prune)

lemma no_reply_turn: "Replied t r \<notin> set (snd (listen_turn E w s))"
  using no_reply_wake [of t r E w s] by (auto simp: listen_turn_def listen_end_def Let_def split: option.splits prod.splits)

lemma fs_reply_origin:
  assumes "remote_fs_from h (hs_remote_fs s)" "map_of (hs_remote_fs s) i = Some r"
  shows "\<exists>E' e. (E', InWake (WakeRemoteFs (Some (e, fs_responder r)))) \<in> set h \<and> be_uuid E' = i \<and>
    r = fst (remote_fs_bridge i e (fs_responder r))"
proof -
  obtain E' e u where "(E', InWake (WakeRemoteFs (Some (e, u)))) \<in> set h" "be_uuid E' = i" "r = fst (remote_fs_bridge i e u)"
    using assms map_of_SomeD unfolding remote_fs_from_def by fast
  then show ?thesis using bridge_responder by metis
qed

lemma bridge_kind: "is_kind kind (fst (remote_fs_bridge i e t)) \<Longrightarrow> 
    (kind = ''roots'' \<longrightarrow> reply_fits e (ReplyRoots a)) \<and> (kind = ''list'' \<longrightarrow> reply_fits e (ReplyList b)) \<and>
    (kind = ''entry'' \<longrightarrow> reply_fits e (ReplyEntry c)) \<and> (kind = ''delete'' \<longrightarrow> reply_fits e (ReplyDelete d)) \<and>
    (kind = ''read'' \<longrightarrow> reply_fits e (ReplyRead f)) \<and> (kind = ''write'' \<longrightarrow> reply_fits e (ReplyWrite g))"
  by (cases e) auto

lemma bridge_error_fits: "reply_fits e (error_reply (fst (remote_fs_bridge i e t)) code)"
  by (cases e) auto


text \<open>Answers to remote file system requests: the call names the request and its kind fits.\<close>

lemma respond_fs_names:
  assumes "Replied t reply \<in> set (snd (respond_fs E i kind answer s))" "remote_fs_from h (hs_remote_fs s)"
  shows "reply = answer \<and> (\<exists>E' e. (E', InWake (WakeRemoteFs (Some (e, t)))) \<in> set h \<and> be_uuid E' = i \<and>
    is_kind kind (fst (remote_fs_bridge i e t)))"
proof -
  obtain r where r: "map_of (hs_remote_fs s) i = Some r" "is_kind kind r" "t = fs_responder r" "reply = answer"
    using assms(1) by (auto simp: respond_fs_def take_remote_fs_responder_def split: option.splits if_splits)
  then show ?thesis using fs_reply_origin [OF assms(2) r(1)] by metis
qed

lemma write_kind: "is_kind ''write'' (fst (remote_fs_bridge i e t)) \<Longrightarrow> reply_fits e (ReplyWrite g)"
  by (cases e) auto

lemma respond_write_names:
  assumes "Replied t reply \<in> set (snd (bridge_step E (CallFsWrite i path fd) s))" "remote_fs_from h (hs_remote_fs s)"
  shows "\<exists>E' e. (E', InWake (WakeRemoteFs (Some (e, t)))) \<in> set h \<and> be_uuid E' = i \<and> reply_fits e reply"
proof -
  obtain r target where r: "map_of (hs_remote_fs s) i = Some r" "is_kind ''write'' r" "t = fs_responder r"
    "reply = ReplyWrite (Inr target)"
    using assms(1)
    by (auto simp: respond_remote_fs_write_def take_remote_fs_responder_def split: option.splits if_splits sum.splits
        pending_remote_fs_responder.splits) (metis fs_responder.simps(6) is_kind.simps(6))
  then show ?thesis using fs_reply_origin [OF assms(2) r(1)] write_kind by metis
qed

lemma respond_error_names:
  assumes "Replied t reply \<in> set (snd (respond_remote_fs_error E i code s))" "remote_fs_from h (hs_remote_fs s)"
  shows "\<exists>E' e. (E', InWake (WakeRemoteFs (Some (e, t)))) \<in> set h \<and> be_uuid E' = i \<and> reply_fits e reply"
proof -
  obtain r where r: "map_of (hs_remote_fs s) i = Some r" "t = fs_responder r" "reply = error_reply r code"
    using assms(1) by (auto simp: respond_remote_fs_error_def split: option.splits)
  then show ?thesis using fs_reply_origin [OF assms(2) r(1)] bridge_error_fits by metis
qed

lemma reply_names:
  assumes "held_from h s" "Replied t reply \<in> set (snd (bridge_step E x s))"
  shows "\<exists>E' w. (E', InWake w) \<in> set h \<and> names_request E' w t x reply"
proof -
  note tables = assms(1) [unfolded held_from_def]
  have fs: ?thesis if ex: "\<exists>E' e. (E', InWake (WakeRemoteFs (Some (e, t)))) \<in> set h \<and> be_uuid E' = i \<and> reply_fits e reply"
    and call: "fs_call_id x = Some i" for i
  proof -
    obtain E' e where e: "(E', InWake (WakeRemoteFs (Some (e, t)))) \<in> set h" "be_uuid E' = i" "reply_fits e reply"
      using ex by blast
    have "names_request E' (WakeRemoteFs (Some (e, t))) t x reply" using e call by (simp add: names_request_def)
    then show ?thesis using e(1) by blast
  qed
  have kind: ?thesis if reply: "Replied t reply \<in> set (snd (respond_fs E i kind answer s))"
    and call: "fs_call_id x = Some i" and fits: "\<And>e. is_kind kind (fst (remote_fs_bridge i e t)) \<Longrightarrow> reply_fits e answer"
    for i kind answer
  proof (rule fs [OF _ call])
    show "\<exists>E' e. (E', InWake (WakeRemoteFs (Some (e, t)))) \<in> set h \<and> be_uuid E' = i \<and> reply_fits e reply"
      using respond_fs_names [OF reply, of h] tables fits by blast
  qed
  show ?thesis
  proof (cases x)
    case (CallPrepareUpload ids)
    then obtain sid where "hs_decision s = Some (sid, t)"
        "reply = ReplyDecision (case ids of Some ids \<Rightarrow> Accept ids | None \<Rightarrow> Decline)"
      using assms(2) by (auto simp: respond_prepare_upload_def Let_def split: option.splits)
    then show ?thesis using tables CallPrepareUpload by (fastforce simp: decision_from_def names_request_def)
  next
    case (CallFileUpload sid fid path fd)
    then obtain target where "map_of (hs_uploads s) (sid, fid) = Some t" "reply = ReplyTarget target"
      using assms(2) by (auto simp: respond_file_upload_def split: option.splits sum.splits if_splits)
    then show ?thesis using tables CallFileUpload
      by (fastforce simp: uploads_from_def names_request_def dest: map_of_SomeD)
  next
    case (CallPrepareDownload sid accept)
    then have "map_of (hs_download_decisions s) sid = Some t" "reply = ReplyDownload accept"
      using assms(2) by (auto simp: respond_prepare_download_def split: option.splits)
    then show ?thesis using tables CallPrepareDownload
      by (fastforce simp: download_decisions_from_def names_request_def dest: map_of_SomeD)
  next
    case (CallFileDownload sid fid path fd)
    then obtain content where "map_of (hs_downloads s) (sid, fid) = Some t" "reply = ReplyContent content"
      using assms(2) by (auto simp: respond_file_download_def split: option.splits sum.splits)
    then show ?thesis using tables CallFileDownload
      by (fastforce simp: downloads_from_def names_request_def dest: map_of_SomeD)
  next
    case (CallFsRoots i rs)
    with assms(2) bridge_kind show ?thesis by (intro kind) (auto simp: respond_remote_fs_roots_def)
  next
    case (CallFsList i rs)
    with assms(2) bridge_kind show ?thesis by (intro kind) (auto simp: respond_remote_fs_list_def)
  next
    case (CallFsEntry i entry)
    with assms(2) bridge_kind show ?thesis by (intro kind) (auto simp: respond_remote_fs_entry_def)
  next
    case (CallFsDelete i)
    with assms(2) bridge_kind show ?thesis by (intro kind) (auto simp: respond_remote_fs_delete_def)
  next
    case (CallFsRead i entry path fd)
    then obtain content where "Replied t reply \<in> set (snd (respond_fs E i ''read''
        (ReplyRead (Inr \<lparr>frs_entry = entry, frs_content = content\<rparr>)) s))"
      using assms(2) by (auto simp: respond_remote_fs_read_def split: sum.splits)
    then show ?thesis by (rule kind) (use bridge_kind CallFsRead in auto)
  next
    case (CallFsWrite i path fd)
    then show ?thesis using respond_write_names [of t reply E i path fd s h] assms(2) tables
      by (intro fs [of i]) auto
  next
    case (CallFsError i code)
    then show ?thesis using respond_error_names [of t reply E i code s h] assms(2) tables by (intro fs [of i]) auto
  qed (use assms(2) no_reply_turn in \<open>auto simp: bridge_listen_def fail_file_upload_def fail_file_download_def
      bridge_cancel_session_def split: option.splits\<close>)
qed

subsection \<open>The decision that is pending\<close>

text \<open>The state in which the \<open>n\<close>-th input of a run is handled.\<close>

definition bridge_at :: "history \<Rightarrow> rs_http_server \<Rightarrow> nat \<Rightarrow> rs_http_server" where
  "bridge_at inputs s n = fst (bridge_run (take n inputs) s)"

lemma bridge_run_append:
  "fst (bridge_run (xs @ ys) s) = fst (bridge_run ys (fst (bridge_run xs s)))"
proof (induction xs arbitrary: s)
  case (Cons input xs)
  then show ?case by (cases input) (simp add: case_prod_unfold Let_def)
qed simp

lemma bridge_at_Suc:
  "n < length inputs \<Longrightarrow> inputs ! n = (E, x) \<Longrightarrow>
   bridge_at inputs s (Suc n) = fst (bridge_step E x (bridge_at inputs s n))"
  by (simp add: bridge_at_def take_Suc_conv_app_nth bridge_run_append case_prod_unfold Let_def)

lemma bridge_at_0 [simp]: "bridge_at inputs s 0 = s"
  by (simp add: bridge_at_def)

lemma decision_of_wake:
  assumes "hs_decision (fst (handle_wake E w s)) = Some (sid, t)"
  shows "hs_decision s = Some (sid, t) \<or> (\<exists>ip info fp files. w = WakeV2 (Some (EvPrepareUpload sid ip info fp files, t)))"
proof (cases "(E, w, s)" rule: handle_wake.cases)
  case (1 E' event u s')
  with assms show ?thesis by (cases event) (auto split: option.splits if_splits)
next
  case (2 E' event u s')
  with assms show ?thesis by (cases event) auto
qed (use assms in \<open>auto simp: handle_remote_fs_event_def prune_closed_remote_fs_responders_def Let_def split: prod.splits if_splits\<close>)

lemma decision_of_step:
  assumes "hs_decision (fst (bridge_step E x s)) = Some (sid, t)"
  shows "hs_decision s = Some (sid, t) \<or>
    (\<exists>ip info fp files. x = InWake (WakeV2 (Some (EvPrepareUpload sid ip info fp files, t))))"
proof (cases "\<exists>w. x = InWake w")
  case True
  then obtain w where x: "x = InWake w" by blast
  have "hs_decision (fst (listen_turn E w s)) \<in> {hs_decision s, hs_decision (fst (handle_wake E w s))}"
    by (auto simp: listen_turn_def listen_end_def Let_def split: option.splits prod.splits)
  then show ?thesis using assms decision_of_wake [of E w s sid t] by (auto simp: x)
next
  case False
  then have "below (fst (bridge_step E x s)) s"
    by (cases x) (simp_all add: below_calls respond_remote_fs_roots_def respond_remote_fs_list_def
        respond_remote_fs_entry_def respond_remote_fs_delete_def case_prod_unfold Let_def)
  then show ?thesis using assms by (auto simp: below_def)
qed

text \<open>The request whose decision is pending has been pending since it arrived.\<close>

lemma decision_since:
  assumes "hs_decision s = None" "n \<le> length inputs" "hs_decision (bridge_at inputs s n) = Some (sid, t)"
  shows "\<exists>k<n. (\<exists>E ip info fp files. inputs ! k = (E, InWake (WakeV2 (Some (EvPrepareUpload sid ip info fp files, t))))) \<and>
    (\<forall>m. k < m \<and> m \<le> n \<longrightarrow> hs_decision (bridge_at inputs s m) = Some (sid, t))"
  using assms(2,3)
proof (induction n)
  case (Suc n)
  obtain E x where input: "inputs ! n = (E, x)" by (cases "inputs ! n")
  have "hs_decision (fst (bridge_step E x (bridge_at inputs s n))) = Some (sid, t)"
    using Suc.prems by (simp add: bridge_at_Suc [OF _ input])
  from decision_of_step [OF this] show ?case
  proof
    assume "hs_decision (bridge_at inputs s n) = Some (sid, t)"
    then obtain k where "k < n" "\<exists>E ip info fp files. inputs ! k = (E, InWake (WakeV2 (Some (EvPrepareUpload sid ip info fp files, t))))"
      "\<forall>m. k < m \<and> m \<le> n \<longrightarrow> hs_decision (bridge_at inputs s m) = Some (sid, t)"
      using Suc.IH Suc.prems(1) by auto
    then show ?thesis using Suc.prems(2) by (intro exI [of _ k]) (auto simp: le_Suc_eq)
  next
    assume "\<exists>ip info fp files. x = InWake (WakeV2 (Some (EvPrepareUpload sid ip info fp files, t)))"
    then show ?thesis using Suc.prems(2) input by (intro exI [of _ n]) (auto simp: le_Suc_eq less_eq_Suc_le)
  qed
qed (use assms(1) in simp)

section \<open>Properties\<close>

text \<open>
  C16. Whatever events arrive and whatever the application calls, every responder that came with
  an event is still held or has been used or released once; no more than 64 remote file
  system requests are held.
\<close>

theorem bridge_responders_conserved:
  "case bridge_run inputs (rs_http_server_new i channels) of (s, out) \<Rightarrow>
     mset (responders s) + mset (used_responders out) = mset (concat (map (\<lambda>(E, x). incoming x) inputs)) \<and>
     length (hs_remote_fs s) \<le> DEFAULT_MAX_CONCURRENT_REQUESTS"
proof -
  have "conserved (rs_http_server_new i channels) (concat (map (\<lambda>(E, x). incoming x) inputs))
      (bridge_run inputs (rs_http_server_new i channels))"
    by (rule conserved_run) (rule bridge_new_ok)
  then show ?thesis by (simp add: conserved_def bridge_new_ok bridge_ok_def case_prod_unfold)
qed

text \<open>
  C11. An answer is sent only on the responder of an earlier event of the fitting kind. Every call
  but one gives the session, the file or the request id, and the event is of the same; the
  decision on an upload gives none and goes to the request that has been pending without a
  break since it arrived, so to none that has been aborted, answered or replaced.
\<close>

theorem answers_reach_named_request:
  assumes "Replied t reply \<in> set (snd (bridge_step E x (fst (bridge_run inputs (rs_http_server_new i channels)))))"
  shows "\<exists>k<length inputs. \<exists>E' w. inputs ! k = (E', InWake w) \<and> names_request E' w t x reply \<and>
    (\<forall>sid ip info fp files. w = WakeV2 (Some (EvPrepareUpload sid ip info fp files, t)) \<longrightarrow>
       (\<forall>m. k < m \<and> m \<le> length inputs \<longrightarrow>
          hs_decision (bridge_at inputs (rs_http_server_new i channels) m) = Some (sid, t)))"
proof (cases "\<exists>ids. x = CallPrepareUpload ids")
  case True
  let ?s = "rs_http_server_new i channels"
  obtain ids where x: "x = CallPrepareUpload ids" using True by blast
  have new: "hs_decision ?s = None" by (simp add: rs_http_server_new_def)
  obtain sid where d: "hs_decision (bridge_at inputs ?s (length inputs)) = Some (sid, t)"
    and reply: "reply = ReplyDecision (case ids of Some ids \<Rightarrow> Accept ids | None \<Rightarrow> Decline)"
    using assms by (auto simp: x bridge_at_def respond_prepare_upload_def Let_def split: option.splits)
  obtain k E' ip info fp files where k: "k < length inputs"
      "inputs ! k = (E', InWake (WakeV2 (Some (EvPrepareUpload sid ip info fp files, t))))"
      "\<forall>m. k < m \<and> m \<le> length inputs \<longrightarrow> hs_decision (bridge_at inputs ?s m) = Some (sid, t)"
    using decision_since [OF new order_refl d] by blast
  show ?thesis
    by (rule exI [of _ k], rule conjI [OF k(1)], intro exI conjI, rule k(2))
      (use k(3) in \<open>simp_all add: names_request_def x reply\<close>)
next
  case False
  have "held_from inputs (fst (bridge_run inputs (rs_http_server_new i channels)))"
    using held_from_run [OF held_from_new, of inputs i channels] by simp
  then obtain E' w where w: "(E', InWake w) \<in> set inputs" "names_request E' w t x reply"
    using reply_names [OF _ assms] by blast
  then have "\<forall>sid ip info fp files u. w \<noteq> WakeV2 (Some (EvPrepareUpload sid ip info fp files, u))"
    using False by (auto simp: names_request_def split: bridge_input.splits)
  with w show ?thesis by (metis in_set_conv_nth)
qed

definition demo_bridge_env :: "bridge_env" where
  "demo_bridge_env = \<lparr>be_gone = (\<lambda>t. False), be_sink_open = True, be_uuid = lit ''r1'', be_android = False,
     be_path = (\<lambda>p. demo_fs), be_fd = (\<lambda>d. demo_fs), be_path_content = (\<lambda>p. ContentStream []),
     be_fd_content = (\<lambda>d. ContentStream [])\<rparr>"

definition demo_channels :: event_channels where
  "demo_channels = \<lparr>ec_v2 = True, ec_web = True, ec_internal = False, ec_remote_fs = True\<rparr>"

definition demo_rfs_peer :: remote_fs_peer where
  "demo_rfs_peer = \<lparr>rp_ip = \<lparr>pip_ip = IpV4 0, pip_scope = None\<rparr>, rp_fingerprint = lit ''AB''\<rparr>"

lemmas bridge_run_simps = listen_turn_def bridge_listen_def rs_http_server_new_def all_closed_def Let_def
  handle_remote_fs_event_def prune_closed_remote_fs_responders_def DEFAULT_MAX_CONCURRENT_REQUESTS_def
  hm_retain_def hm_insert_def hm_remove_def held_at_def release_all_def sink_add_def

definition demo_bridge_inputs :: history where
  "demo_bridge_inputs =
     [(demo_bridge_env, InListen),
      (demo_bridge_env, InWake (WakeV2 (Some (EvPrepareUpload (lit ''s1'') (ci_ip (demo_client 7)) demo_register None [], 1)))),
      (demo_bridge_env, InWake (WakeRemoteFs (Some (FsRoots demo_rfs_peer, 7))))]"

theorem answers_reach_named_request_witness:
  "hs_decision (bridge_at demo_bridge_inputs (rs_http_server_new 0 demo_channels) 2) = Some (lit ''s1'', 1)"
proof -
  have "Replied 1 (ReplyDecision Decline) \<in> set (snd (bridge_step demo_bridge_env (CallPrepareUpload None)
      (fst (bridge_run demo_bridge_inputs (rs_http_server_new 0 demo_channels)))))"
    by (simp add: demo_bridge_inputs_def bridge_run_simps demo_bridge_env_def demo_channels_def
        respond_prepare_upload_def send_reply_def)
  from answers_reach_named_request [OF this] show ?thesis
    by (auto simp: demo_bridge_inputs_def less_Suc_eq numeral_eq_Suc names_request_def)
qed

text \<open>
  C34. The answer to a request for an upload names none: given for one that has ended meanwhile, it
  accepts the request that has come after it, so that files are accepted which the user
  was never asked about.
\<close>

theorem consent_reaches_successor:
  assumes "hs_loop s = Some channels" "ec_v2 channels" "be_sink_open E" "\<not> be_gone E t2"
    and "map_of files2 fid = Some f" "fid \<in> set ids"
  shows "case bridge_run
      [(E, InWake (WakeV2 (Some (EvPrepareUpload sid1 ip1 info1 fp1 files1, t1)))),
       (E, InWake (WakeV2 (Some (EvPrepareUploadAborted sid1, t0)))),
       (E, InWake (WakeV2 (Some (EvPrepareUpload sid2 ip2 info2 fp2 files2, t2)))),
       (E, CallPrepareUpload (Some ids))] s of (s', out) \<Rightarrow>
     Released t1 \<in> set out \<and> Replied t2 (ReplyDecision (Accept ids)) \<in> set out \<and> hs_decision s' = None \<and>
     map_of (accepted_files token files2 ids) fid =
       Some \<lparr>sf_dto = f, sf_token = token fid, sf_status = Pending, sf_attempts = 0\<rparr>"
proof -
  have "map_of (accepted_files token files2 ids) fid =
      Some \<lparr>sf_dto = f, sf_token = token fid, sf_status = Pending, sf_attempts = 0\<rparr>"
    using assms(5,6) by (induction files2) (auto simp: accepted_files_def split: if_splits)
  then show ?thesis using assms(1-4)
    by (simp add: listen_turn_def all_closed_def release_all_def sink_add_def respond_prepare_upload_def send_reply_def
        Let_def split: prod.splits)
qed


theorem consent_reaches_successor_witness:
  "case bridge_run
      [(demo_bridge_env, InWake (WakeV2 (Some (EvPrepareUpload (lit ''s1'') (ci_ip (demo_client 7)) demo_register None [], 1)))),
       (demo_bridge_env, InWake (WakeV2 (Some (EvPrepareUploadAborted (lit ''s1''), 0)))),
       (demo_bridge_env, InWake (WakeV2 (Some (EvPrepareUpload (lit ''s2'') (ci_ip (demo_client 8)) demo_register None
          [(lit ''a'', demo_file (lit ''a''))], 2)))),
       (demo_bridge_env, CallPrepareUpload (Some [lit ''a'']))]
      ((rs_http_server_new 0 demo_channels)\<lparr>hs_loop := Some demo_channels\<rparr>) of (s', out) \<Rightarrow>
     Released 1 \<in> set out \<and> Replied 2 (ReplyDecision (Accept [lit ''a''])) \<in> set out \<and> hs_decision s' = None \<and>
     map_of (accepted_files (\<lambda>fid. fid) [(lit ''a'', demo_file (lit ''a''))] [lit ''a'']) (lit ''a'') =
       Some \<lparr>sf_dto = demo_file (lit ''a''), sf_token = lit ''a'', sf_status = Pending, sf_attempts = 0\<rparr>"
  by (rule consent_reaches_successor [of _ demo_channels])
    (simp_all add: demo_channels_def demo_bridge_env_def)

text \<open>
  When the application stops listening, remote file system requests are released, but a
  request for an upload, an upload and a download keep waiting for an answer that cannot
  come: none of their responders is released.
\<close>

theorem lost_listener_strands_requests:
  assumes "hs_loop s = Some channels" "ec_v2 channels" "\<not> be_sink_open E"
  shows "case listen_turn E (WakeV2 (Some (EvPrepareUpload sid ip info fp files, t))) s of (s', out) \<Rightarrow>
     hs_loop s' = None \<and> hs_remote_fs s' = [] \<and>
     (\<forall>r. r \<in> snd ` set (hs_remote_fs s) \<longrightarrow> Released (fs_responder r) \<in> set out) \<and>
     hs_decision s' = Some (sid, t) \<and> hs_uploads s' = hs_uploads s \<and> hs_downloads s' = hs_downloads s \<and>
     hs_download_decisions s' = hs_download_decisions s \<and> Emitted ev \<notin> set out"
  using assms by (auto simp: listen_turn_def listen_end_def release_all_def sink_add_def Let_def)

theorem lost_listener_strands_requests_witness:
  "case listen_turn (demo_bridge_env\<lparr>be_sink_open := False\<rparr>)
       (WakeV2 (Some (EvPrepareUpload (lit ''s1'') (ci_ip (demo_client 7)) demo_register None [], 1)))
       ((rs_http_server_new 0 demo_channels)\<lparr>hs_loop := Some demo_channels, hs_remote_fs := [(lit ''r'', PendRoots 5)]\<rparr>) of
     (s', out) \<Rightarrow> Released 5 \<in> set out \<and> hs_decision s' = Some (lit ''s1'', 1)"
  using lost_listener_strands_requests [where channels = demo_channels and E = "demo_bridge_env\<lparr>be_sink_open := False\<rparr>"
      and sid = "lit ''s1''" and ip = "ci_ip (demo_client 7)" and info = demo_register and fp = None and files = "[]" and t = 1
      and s = "(rs_http_server_new 0 demo_channels)\<lparr>hs_loop := Some demo_channels, hs_remote_fs := [(lit ''r'', PendRoots 5)]\<rparr>"]
  by (auto simp: demo_channels_def case_prod_unfold)

definition registry_ok :: "registry \<Rightarrow> bool" where
  "registry_ok r \<longleftrightarrow>
     (\<forall>i \<in> set (rg_live r). rg_running r = Some i \<and> i \<notin> set (rg_stopping r)) \<and>
     (\<forall>i \<in> set (rg_live r) \<union> set (rg_stopping r). i < rg_next r)"

lemma registry_step_ok: "registry_ok r \<Longrightarrow> registry_ok (registry_step op r)"
  by (cases op; cases "rg_live r")
    (auto simp: registry_ok_def registry_started_def registry_begin_def instance_stop_def registry_stop_def
      registry_forget_def Let_def less_SucI
      split: option.splits if_splits dest: notin_set_remove1 set_remove1_subset [THEN subsetD])

text \<open>
  At most one instance has not been stopped, and it is the registered one: also when a stop is
  interleaved with starts and a start fails.
\<close>

theorem one_instance_runs:
  "case fold registry_step ops no_instances of r \<Rightarrow>
     set (rg_live r) \<subseteq> (case rg_running r of Some i \<Rightarrow> {i} | None \<Rightarrow> {})"
proof -
  have "registry_ok (fold registry_step ops no_instances)"
    by (rule fold_invariant [of ops "\<lambda>x. True"]) (simp_all add: registry_step_ok, simp add: registry_ok_def no_instances_def)
  then show ?thesis by (auto simp: registry_ok_def)
qed

end
