(* ===== verification/FB_AppClient.thy ===== *)
theory FB_AppClient
  imports FB_FsClient FB_AppServer
begin

text \<open>
  The client as the application holds it
  (\<^verbatim>\<open>packages/localsend_isolates/rust/src/api/http.rs\<close>), the streams that cross the bridge
  (\<^verbatim>\<open>stream.rs\<close>, \<^verbatim>\<open>util/bytes.rs\<close>), hashing with progress (\<^verbatim>\<open>crypto.rs\<close>) and the reports of
  the server's transfers (\<^verbatim>\<open>server.rs\<close>). A progress report is the pair of its time in
  milliseconds and the bytes so far; what reaches the application is throttled.
\<close>

section \<open>Progress\<close>

text \<open>Reports closer than 20 ms to the last emitted one are dropped, unless they are final.\<close>

fun throttle :: "(u64 \<Rightarrow> bool) \<Rightarrow> nat option \<Rightarrow> (nat \<times> u64) list \<Rightarrow> (nat \<times> u64) list" where
  "throttle final last_emit [] = []"
| "throttle final last_emit ((now, bytes) # reports) =
     (if \<not> final bytes \<and> (case last_emit of Some previous \<Rightarrow> now - previous < 20 | None \<Rightarrow> False)
      then throttle final last_emit reports
      else (now, bytes) # throttle final (Some now) reports)"

text \<open>The fraction of a size, as numerator and denominator.\<close>

definition progress_fraction :: "u64 \<Rightarrow> u64 \<Rightarrow> nat \<times> nat" where
  "progress_fraction whole bytes = (if whole = 0 then (1, 1) else (min (unat bytes) (unat whole), unat whole))"

definition reports_of :: "(nat \<Rightarrow> nat) \<Rightarrow> u64 list \<Rightarrow> (nat \<times> u64) list" where
  "reports_of clock progress = map (\<lambda>k. (clock k, progress ! k)) [0..<length progress]"

section \<open>Reports of the server's transfers\<close>

text \<open>What \<^verbatim>\<open>respond_file_upload\<close> emits once the target has been handed over; the result is what
  the core reports, or nothing when it drops the channel.\<close>

definition file_upload_events ::
  "u64 \<Rightarrow> (nat \<times> u64) list \<Rightarrow> (unit, rstring) result option \<Rightarrow> (nat \<times> nat) list \<times> rstring option"
where
  "file_upload_events file_size reports result =
     (map (progress_fraction file_size \<circ> snd) (throttle (\<lambda>written. file_size \<le> written) None reports),
      case result of
        Some (Inr _) \<Rightarrow> None
      | Some (Inl e) \<Rightarrow> Some e
      | None \<Rightarrow> Some (lit ''Upload request aborted''))"

datatype rs_write_target_event = WtProgress u64 | WtCompleted u64 | WtFailed rstring

text \<open>
  \<^verbatim>\<open>respond_remote_fs_write\<close>: the reports seen before the loop is left are throttled, those
  that are left in the channel are not.
\<close>

definition write_target_events ::
  "u64 \<Rightarrow> (nat \<times> u64) list \<Rightarrow> (unit, rstring) result option \<Rightarrow> u64 list \<Rightarrow> rs_write_target_event list"
where
  "write_target_events expected_size reports result left =
     map (WtProgress \<circ> snd) (throttle (\<lambda>written. expected_size \<le> written) None reports) @
     map WtProgress left @
     [case result of
        Some (Inr _) \<Rightarrow> WtCompleted expected_size
      | Some (Inl e) \<Rightarrow> WtFailed e
      | None \<Rightarrow> WtFailed (lit ''Remote filesystem write aborted'')]"

section \<open>Errors\<close>

datatype rs_http_client_error =
    RsStatusCode u16 "rstring option"
  | RsReqwest rstring
  | RsJson rstring
  | RsIo rstring
  | RsOther rstring

datatype rs_remote_fs_client_error =
    RsRemote u16 remote_fs_error_code rstring
  | RsFsSetup rstring
  | RsFsReqwest rstring
  | RsFsJson rstring
  | RsFsIo rstring
  | RsInvalidRequest remote_fs_error_code
  | RsInvalidResponse
  | RsCancelled
  | RsFsOther rstring

text \<open>
  The parameters of the core's client, the network of a client (whose verifier it runs), and
  the texts of errors.
\<close>

record app_client_env =
  ace_ext :: ext
  ace_client :: client_ext
  ace_fs :: fs_ext
  ace_net :: "http_client \<Rightarrow> network"
  ace_fs_net :: "http_client \<Rightarrow> fs_network"
  ace_text :: "client_error \<Rightarrow> rstring"
  ace_fs_text :: "fs_client_error \<Rightarrow> rstring"
  ace_android :: bool

fun rs_error :: "app_client_env \<Rightarrow> client_error \<Rightarrow> rs_http_client_error" where
  "rs_error A (StatusCode status message) = RsStatusCode status message"
| "rs_error A Reqwest = RsReqwest (ace_text A Reqwest)"
| "rs_error A JsonError = RsJson (ace_text A JsonError)"
| "rs_error A IoError = RsIo (ace_text A IoError)"
| "rs_error A OtherError = RsOther (ace_text A OtherError)"
| "rs_error A Cancelled = RsOther (lit ''Upload cancelled'')"

fun rs_fs_error :: "app_client_env \<Rightarrow> fs_client_error \<Rightarrow> rs_remote_fs_client_error" where
  "rs_fs_error A (FsSetup e) = RsFsSetup (ace_text A e)"
| "rs_fs_error A (FsRemote status e) = RsRemote status (fer_code e) (fer_message e)"
| "rs_fs_error A FsReqwest = RsFsReqwest (ace_fs_text A FsReqwest)"
| "rs_fs_error A FsJson = RsFsJson (ace_fs_text A FsJson)"
| "rs_fs_error A FsIo = RsFsIo (ace_fs_text A FsIo)"
| "rs_fs_error A (FsInvalidRequest code) = RsInvalidRequest code"
| "rs_fs_error A FsInvalidResponse = RsInvalidResponse"
| "rs_fs_error A FsCancelled = RsCancelled"

fun rs_error_message :: "rs_http_client_error \<Rightarrow> rstring" where
  "rs_error_message (RsStatusCode status (Some message)) = lit ''HTTP '' @ show_nat (unat status) @ lit '': '' @ message"
| "rs_error_message (RsStatusCode status None) = lit ''HTTP '' @ show_nat (unat status)"
| "rs_error_message (RsReqwest message) = message"
| "rs_error_message (RsJson message) = message"
| "rs_error_message (RsIo message) = message"
| "rs_error_message (RsOther message) = message"

section \<open>The client\<close>

record rs_http_client =
  rc_version :: client_version
  rc_inner :: http_client
  rc_remote_fs :: "http_client option"

definition create_client ::
  "app_client_env \<Rightarrow> rstring \<Rightarrow> rstring \<Rightarrow> client_version \<Rightarrow> rstring option \<Rightarrow> nat option \<Rightarrow>
   (rs_http_client, rs_http_client_error) result"
where
  "create_client A private_key cert version expected_fingerprint timeout =
     and_then (case expected_fingerprint of
         Some expected \<Rightarrow>
           and_then (map_err (\<lambda>e. RsOther (ace_fs_text A e))
             (firebox_client_new (ace_client A) private_key cert expected timeout)) (\<lambda>c. Inr (Some c))
       | None \<Rightarrow> Inr None) (\<lambda>remote_fs.
     and_then (map_err (rs_error A)
       (create_reqwest_client (ace_client A) private_key cert expected_fingerprint timeout)) (\<lambda>inner.
     Inr \<lparr>rc_version = version, rc_inner = inner, rc_remote_fs = remote_fs\<rparr>))"

definition rs_register ::
  "app_client_env \<Rightarrow> rs_http_client \<Rightarrow> protocol_type \<Rightarrow> rstring \<Rightarrow> u16 \<Rightarrow> register_dto \<Rightarrow>
   (rstring option \<times> register_response_dto, rs_http_client_error) result"
where
  "rs_register A c protocol ip port dto =
     and_then (map_err (rs_error A)
       (ls_register (ace_ext A) (ace_client A) (ace_net A (rc_inner c)) (rc_version c) protocol ip port dto)) (\<lambda>r.
     Inr (rk_public_key r, rk_body r))"

definition rs_prepare_upload ::
  "app_client_env \<Rightarrow> rs_http_client \<Rightarrow> bool \<Rightarrow> protocol_type \<Rightarrow> rstring \<Rightarrow> u16 \<Rightarrow> prepare_upload_request_dto \<Rightarrow>
   rstring option \<Rightarrow> rstring option \<Rightarrow> (prepare_upload_result, rs_http_client_error) result"
where
  "rs_prepare_upload A c cancelled protocol ip port dto public_key pin =
     map_err (rs_error A)
       (ls_prepare_upload (ace_ext A) (ace_client A) (ace_net A (rc_inner c)) (rc_version c) cancelled protocol ip port
         public_key dto pin)"

definition rs_cancel ::
  "app_client_env \<Rightarrow> rs_http_client \<Rightarrow> protocol_type \<Rightarrow> rstring \<Rightarrow> u16 \<Rightarrow> rstring \<Rightarrow> (unit, rs_http_client_error) result"
where
  "rs_cancel A c protocol ip port session_id =
     map_err (rs_error A) (ls_cancel (ace_net A (rc_inner c)) (rc_version c) protocol ip port session_id)"

text \<open>A source is a stream of the application, a path or a descriptor, given as its content.\<close>

definition resolve_upload_content ::
  "app_client_env \<Rightarrow> byte list list option \<Rightarrow> file_content option \<Rightarrow> file_content option \<Rightarrow>
   (file_content, rs_http_client_error) result"
where
  "resolve_upload_content A binary path file_descriptor =
     (case (binary, path, file_descriptor) of
        (Some chunks, None, None) \<Rightarrow> Inr (ContentStream chunks)
      | (None, Some content, None) \<Rightarrow> Inr content
      | (None, None, Some content) \<Rightarrow>
          if ace_android A then Inr content
          else Inl (RsOther (lit ''File descriptors are only supported on Android''))
      | _ \<Rightarrow> Inl (RsOther (lit ''Exactly one upload content source must be provided'')))"

datatype rs_upload_event = UpProgress "nat \<times> nat" | UpFailed rs_http_client_error

text \<open>\<open>clock\<close> gives the times of the progress reports, \<open>receiver\<close> how much the connection takes.\<close>

definition rs_upload ::
  "app_client_env \<Rightarrow> rs_http_client \<Rightarrow> bool \<Rightarrow> (nat \<Rightarrow> nat) \<Rightarrow> nat option \<Rightarrow> protocol_type \<Rightarrow> rstring \<Rightarrow> u16 \<Rightarrow>
   rstring option \<Rightarrow> rstring \<Rightarrow> rstring \<Rightarrow> rstring \<Rightarrow> byte list list option \<Rightarrow> file_content option \<Rightarrow>
   file_content option \<Rightarrow> u64 \<Rightarrow> rs_upload_event list"
where
  "rs_upload A c cancelled clock receiver protocol ip port public_key session_id file_id token binary path fd
      announced =
     (case resolve_upload_content A binary path fd of
        Inl e \<Rightarrow> [UpFailed e]
      | Inr content \<Rightarrow>
          let (result, progress) =
                ls_upload (ace_ext A) (ace_client A) (ace_net A (rc_inner c)) (rc_version c) cancelled protocol ip port
                  public_key session_id file_id token receiver content
          in map (UpProgress \<circ> progress_fraction announced \<circ> snd)
               (throttle (\<lambda>sent. announced \<le> sent) None (reports_of clock progress)) @
             (case result of Inl e \<Rightarrow> [UpFailed (rs_error A e)] | Inr _ \<Rightarrow> []))"

section \<open>The remote file system\<close>

definition require_remote_fs :: "rs_http_client \<Rightarrow> (http_client, rs_remote_fs_client_error) result" where
  "require_remote_fs c =
     ok_or (rc_remote_fs c)
       (RsFsOther (lit ''Remote filesystem requires a client pinned to the peer certificate''))"

definition with_remote_fs ::
  "app_client_env \<Rightarrow> rs_http_client \<Rightarrow> (fs_network \<Rightarrow> ('a, fs_client_error) result) \<Rightarrow>
   ('a, rs_remote_fs_client_error) result"
where
  "with_remote_fs A c call =
     and_then (require_remote_fs c) (\<lambda>pinned. map_err (rs_fs_error A) (call (ace_fs_net A pinned)))"

definition remote_fs_roots where
  "remote_fs_roots A c ip port = with_remote_fs A c (\<lambda>net. fsc_roots (ace_fs A) net ip port)"

definition remote_fs_list where
  "remote_fs_list A c ip port request = with_remote_fs A c (\<lambda>net. fsc_list (ace_fs A) net ip port request)"

definition remote_fs_metadata where
  "remote_fs_metadata A c ip port target = with_remote_fs A c (\<lambda>net. fsc_metadata (ace_fs A) net ip port target)"

definition remote_fs_create_directory where
  "remote_fs_create_directory A c ip port request =
     with_remote_fs A c (\<lambda>net. fsc_create_directory (ace_fs A) net ip port request)"

definition remote_fs_rename where
  "remote_fs_rename A c ip port request = with_remote_fs A c (\<lambda>net. fsc_rename (ace_fs A) net ip port request)"

definition remote_fs_move where
  "remote_fs_move A c ip port request = with_remote_fs A c (\<lambda>net. fsc_move (ace_fs A) net ip port request)"

definition remote_fs_delete where
  "remote_fs_delete A c ip port request = with_remote_fs A c (\<lambda>net. fsc_delete (ace_fs A) net ip port request)"

datatype rs_fs_write_event = FwProgress u64 | FwCompleted u64 | FwFailed rs_remote_fs_client_error

definition remote_fs_write ::
  "app_client_env \<Rightarrow> rs_http_client \<Rightarrow> bool \<Rightarrow> (nat \<Rightarrow> nat) \<Rightarrow> nat option \<Rightarrow> rstring \<Rightarrow> u16 \<Rightarrow> remote_fs_location \<Rightarrow>
   bool \<Rightarrow> byte list list option \<Rightarrow> file_content option \<Rightarrow> file_content option \<Rightarrow> u64 \<Rightarrow> rs_fs_write_event list"
where
  "remote_fs_write A c cancelled clock receiver ip port target overwrite binary path fd announced =
     (case resolve_upload_content A binary path fd of
        Inl e \<Rightarrow> [FwFailed (RsFsOther (rs_error_message e))]
      | Inr content \<Rightarrow>
          (case require_remote_fs c of
             Inl e \<Rightarrow> [FwFailed e]
           | Inr pinned \<Rightarrow>
               let (result, progress) =
                     fsc_write (ace_fs A) (ace_fs_net A pinned) cancelled ip port target announced overwrite
                       receiver content
               in map (FwProgress \<circ> snd)
                    (throttle (\<lambda>written. announced \<le> written) None (reports_of clock progress)) @
                  [case result of Inr n \<Rightarrow> FwCompleted n | Inl e \<Rightarrow> FwFailed (rs_fs_error A e)]))"

text \<open>
  A remote read that the application pulls chunk by chunk. \<open>rr_response\<close> is what reading the
  response will observe, until it is dropped.
\<close>

record remote_read =
  rr_content_length :: "u64 option"
  rr_response :: "read_event list option"
  rr_received :: u64

definition remote_fs_open_read ::
  "app_client_env \<Rightarrow> rs_http_client \<Rightarrow> rstring \<Rightarrow> u16 \<Rightarrow> remote_fs_location \<Rightarrow> read_event list \<Rightarrow>
   (remote_read, rs_remote_fs_client_error) result"
where
  "remote_fs_open_read A c ip port target events =
     and_then (with_remote_fs A c (\<lambda>net. fsc_read (ace_fs A) net ip port target)) (\<lambda>response.
     Inr \<lparr>rr_content_length = fo_content_length response, rr_response = Some events, rr_received = 0\<rparr>)"

definition next_chunk ::
  "app_client_env \<Rightarrow> remote_read \<Rightarrow> (byte list option, rs_remote_fs_client_error) result \<times> remote_read"
where
  "next_chunk A r =
     (case rr_response r of
        None \<Rightarrow> (Inr None, r)
      | Some (ReadCancelled # events) \<Rightarrow> (Inl RsCancelled, r\<lparr>rr_response := None\<rparr>)
      | Some (ReadError # events) \<Rightarrow> (Inl (RsFsReqwest (ace_fs_text A FsReqwest)), r\<lparr>rr_response := None\<rparr>)
      | Some (ReadChunk chunk # events) \<Rightarrow>
          let received = saturating_add_u64 (rr_received r) (length chunk) in
          if (case rr_content_length r of Some expected \<Rightarrow> expected < received | None \<Rightarrow> False)
          then (Inl RsInvalidResponse, r\<lparr>rr_received := received, rr_response := None\<rparr>)
          else (Inr (Some chunk), r\<lparr>rr_received := received, rr_response := Some events\<rparr>)
      | Some [] \<Rightarrow>
          (if (case rr_content_length r of Some expected \<Rightarrow> expected \<noteq> rr_received r | None \<Rightarrow> False)
           then Inl RsInvalidResponse else Inr None,
           r\<lparr>rr_response := None\<rparr>))"

fun pull :: "app_client_env \<Rightarrow> nat \<Rightarrow> remote_read \<Rightarrow> (byte list option, rs_remote_fs_client_error) result list" where
  "pull A 0 r = []"
| "pull A (Suc n) r = (let (res, r') = next_chunk A r in res # pull A n r')"

section \<open>Streams\<close>

definition STREAM_BUFFER_SIZE :: nat where "STREAM_BUFFER_SIZE = 1024 * 1024"

text \<open>
  \<^verbatim>\<open>buffer_receiver\<close>: chunks are collected up to 1 MiB; \<open>room\<close> is how many messages the
  receiver still takes.
\<close>

fun buffer_loop :: "nat option \<Rightarrow> byte list \<Rightarrow> byte list list \<Rightarrow> byte list list" where
  "buffer_loop room buffer [] = (if buffer \<noteq> [] \<and> room \<noteq> Some 0 then [buffer] else [])"
| "buffer_loop room buffer (data # rest) =
     (let buffer' = buffer @ data in
      if STREAM_BUFFER_SIZE \<le> length buffer'
      then if room = Some 0 then [] else buffer' # buffer_loop (map_option (\<lambda>n. n - 1) room) [] rest
      else buffer_loop room buffer' rest)"

definition buffer_receiver :: "nat option \<Rightarrow> byte list list \<Rightarrow> byte list list" where
  "buffer_receiver room chunks = buffer_loop room [] chunks"

text \<open>The sink of the application: what it has sent, until it is closed.\<close>

record dart_sink =
  ds_open :: bool
  ds_sent :: "byte list list"

definition create_stream :: dart_sink where
  "create_stream = \<lparr>ds_open = True, ds_sent = []\<rparr>"

definition dart_add :: "bool \<Rightarrow> byte list \<Rightarrow> dart_sink \<Rightarrow> (unit, rstring) result \<times> dart_sink" where
  "dart_add received data s =
     (if \<not> ds_open s then (Inl (lit ''Stream already closed''), s)
      else if received then (Inr (), s\<lparr>ds_sent := ds_sent s @ [data]\<rparr>)
      else (Inl (lit ''Failed to send data''), s))"

definition dart_close :: "dart_sink \<Rightarrow> dart_sink" where
  "dart_close s = s\<lparr>ds_open := False\<rparr>"

definition checked_add_u64 :: "u64 \<Rightarrow> nat \<Rightarrow> u64 option" where
  "checked_add_u64 a n = (if unat a + n < 2 ^ 64 then Some (a + of_nat n) else None)"

fun stream_write_loop ::
  "fs_env \<Rightarrow> u64 \<Rightarrow> nat \<Rightarrow> u64 \<Rightarrow> byte list \<Rightarrow> byte list list \<Rightarrow> (u64 \<times> byte list, rstring) result"
where
  "stream_write_loop env expected k written data [] = Inr (written, data)"
| "stream_write_loop env expected k written data (chunk # chunks) =
     (case checked_add_u64 written (length chunk) of
        None \<Rightarrow> Inl (lit ''Stream size overflow'')
      | Some written' \<Rightarrow>
          if expected < written'
          then Inl (lit ''Expected '' @ show_nat (unat expected) @ lit '' bytes, received at least '' @
                    show_nat (unat written'))
          else case fs_env.fs_write env k of
              Some e \<Rightarrow> Inl (lit ''Failed to write target file: '' @ e)
            | None \<Rightarrow> stream_write_loop env expected (Suc k) written' (data @ chunk) chunks)"

text \<open>
  The target is the file that a path or a descriptor leads to; the result is the number of
  bytes and the content of the file. A descriptor is already open.
\<close>

definition write_stream_to_target ::
  "bool \<Rightarrow> byte list list \<Rightarrow> fs_env option \<Rightarrow> fs_env option \<Rightarrow> u64 \<Rightarrow> (u64 \<times> byte list, rstring) result"
where
  "write_stream_to_target android chunks path file_descriptor expected =
     and_then (case (path, file_descriptor) of
         (Some env, None) \<Rightarrow>
           and_then (map_err (\<lambda>e. lit ''Failed to create target file: '' @ e) (fs_open env)) (\<lambda>old. Inr (env, old))
       | (None, Some env) \<Rightarrow>
           if android then Inr (env, case fs_open env of Inr old \<Rightarrow> old | Inl _ \<Rightarrow> [])
           else Inl (lit ''File descriptors are only supported on Android'')
       | _ \<Rightarrow> Inl (lit ''Exactly one write target must be provided'')) (\<lambda>(env, old).
     and_then (stream_write_loop env expected 0 0 [] chunks) (\<lambda>(written, data).
     and_then (case fs_flush env of
                 None \<Rightarrow> Inr ()
               | Some e \<Rightarrow> Inl (lit ''Failed to flush target file: '' @ e)) (\<lambda>_.
     and_then (ensure (written = expected)
                 (lit ''Expected '' @ show_nat (unat expected) @ lit '' bytes, received '' @
                  show_nat (unat written))) (\<lambda>_.
     let raw = data @ drop (length data) old
     in Inr (written, if fs_set_len env then resize (unat written) raw else raw)))))"

section \<open>Hashing\<close>

datatype rs_hash_file_event = HashProgress u64 | HashDone rstring

text \<open>A file is given by whether it can be opened and what reading it observes; \<open>partial\<close> are the
  reports of a hash that fails.\<close>

definition hash_file ::
  "(byte list \<Rightarrow> byte list) \<Rightarrow> bool \<Rightarrow> (hash_error \<Rightarrow> rstring) \<Rightarrow> (nat \<Rightarrow> nat) \<Rightarrow> (bool \<times> read_event list) option \<Rightarrow>
   (bool \<times> read_event list) option \<Rightarrow> byte list option \<Rightarrow> u64 list \<Rightarrow> rs_hash_file_event list \<times> rstring option"
where
  "hash_file sha android text clock path file_descriptor bytes partial =
     (let hash = (\<lambda>(opened, events).
        case sha256_file_content sha opened events of
          Inr (digest, progress) \<Rightarrow>
            (map (HashProgress \<circ> snd) (throttle (\<lambda>_. False) None (reports_of clock progress)) @ [HashDone digest], None)
        | Inl e \<Rightarrow> (map (HashProgress \<circ> snd) (throttle (\<lambda>_. False) None (reports_of clock partial)), Some (text e)))
      in case (path, file_descriptor, bytes) of
          (Some file, None, None) \<Rightarrow> hash file
        | (None, Some file, None) \<Rightarrow>
            if android then hash file else ([], Some (lit ''File descriptors are only supported on Android''))
        | (None, None, Some content) \<Rightarrow> ([HashDone (sha256_hex sha content)], None)
        | _ \<Rightarrow> ([], Some (lit ''Exactly one content source must be provided'')))"


section \<open>Lemmas\<close>

lemma throttle_subseq: "subseq (throttle final previous reports) reports"
  by (induction final previous reports rule: throttle.induct) (auto intro: subseq_Cons')

lemma throttle_final: "(t, b) \<in> set reports \<Longrightarrow> final b \<Longrightarrow> (t, b) \<in> set (throttle final previous reports)"
  by (induction final previous reports rule: throttle.induct) auto

text \<open>Of two emitted reports in a row, the later one is final or at least 20 ms later.\<close>

fun spaced :: "(u64 \<Rightarrow> bool) \<Rightarrow> nat option \<Rightarrow> (nat \<times> u64) list \<Rightarrow> bool" where
  "spaced final previous [] = True"
| "spaced final previous ((t, b) # reports) =
     ((final b \<or> (case previous of Some p \<Rightarrow> 20 \<le> t - p | None \<Rightarrow> True)) \<and> spaced final (Some t) reports)"

lemma throttle_spaced: "spaced final previous (throttle final previous reports)"
  by (induction final previous reports rule: throttle.induct) (auto split: option.splits)

lemma buffer_loop_concat: "concat (buffer_loop None buffer chunks) = buffer @ concat chunks"
  by (induction "None :: nat option" buffer chunks rule: buffer_loop.induct) (auto simp: Let_def)

lemma buffer_loop_sizes:
  "b \<in> set (butlast (buffer_loop room buffer chunks)) \<Longrightarrow> STREAM_BUFFER_SIZE \<le> length b"
  by (induction room buffer chunks rule: buffer_loop.induct) (auto simp: Let_def split: if_splits)

lemma buffer_loop_nonempty: "[] \<notin> set (buffer_loop room buffer chunks)"
  by (induction room buffer chunks rule: buffer_loop.induct) (auto simp: Let_def STREAM_BUFFER_SIZE_def)

lemma unat_add_u64: "unat (w :: u64) + n < 2 ^ 64 \<Longrightarrow> unat (w + of_nat n) = unat w + n"
  using unat_of_nat_u64 [of n] by (simp add: unat_word_ariths)

lemma stream_loop_agrees:
  assumes "unat w + length (concat chunks) < 2 ^ 64"
  shows "stream_write_loop env e k w d chunks = Inr (w', d') \<longleftrightarrow>
    (\<exists>q. write_loop env e k w d p chunks = Inr (w', d', q))"
  using assms
proof (induction chunks arbitrary: k w d p)
  case (Cons chunk chunks)
  have len: "unat w + length chunk < 2 ^ 64" using Cons.prems by simp
  have sum: "unat (w + of_nat (length chunk)) = unat w + length chunk"
    by (rule unat_add_u64 [OF len])
  show ?case using Cons.IH [of "w + of_nat (length chunk)"] Cons.prems len
    by (auto simp: checked_add_u64_def sum Let_def split: option.splits)
qed auto


lemma pull_ended: "rr_response r = None \<Longrightarrow> pull A n r = replicate n (Inr None)"
  by (induction n) (simp_all add: next_chunk_def)

lemma next_chunk_cases:
  "next_chunk A r = (res, r') \<Longrightarrow> (case res of Inr (Some chunk) \<Rightarrow> True | _ \<Rightarrow> rr_response r' = None)"
  by (auto simp: next_chunk_def Let_def split: option.splits list.splits read_event.splits if_splits)

lemma next_chunk_some:
  assumes "next_chunk A r = (Inr (Some chunk), r')"
  shows "\<exists>events. rr_response r = Some (ReadChunk chunk # events) \<and> rr_response r' = Some events \<and>
    rr_received r' = saturating_add_u64 (rr_received r) (length chunk) \<and> rr_content_length r' = rr_content_length r"
  using assms by (auto simp: next_chunk_def Let_def split: option.splits list.splits read_event.splits if_splits)

lemma next_chunk_none:
  assumes "next_chunk A r = (Inr None, r')" "rr_response r = Some events"
  shows "events = [] \<and> (\<forall>n. rr_content_length r = Some n \<longrightarrow> n = rr_received r)"
  using assms by (auto simp: next_chunk_def Let_def split: option.splits list.splits read_event.splits if_splits)

lemma pull_exact:
  assumes "pull A (Suc (length chunks)) r = map (Inr \<circ> Some) chunks @ [Inr None]" "rr_response r = Some events"
    and "unat (rr_received r) + length (concat chunks) < 2 ^ 64"
  shows "events = map ReadChunk chunks \<and>
    (\<forall>n. rr_content_length r = Some n \<longrightarrow> unat n = unat (rr_received r) + length (concat chunks))"
  using assms
proof (induction chunks arbitrary: r events)
  case Nil
  then show ?case using next_chunk_none [of A r _ events] by (cases "next_chunk A r") auto
next
  case (Cons chunk chunks)
  obtain r' where step: "next_chunk A r = (Inr (Some chunk), r')"
    and rest: "pull A (Suc (length chunks)) r' = map (Inr \<circ> Some) chunks @ [Inr None]"
    using Cons.prems(1) by (cases "next_chunk A r") (auto simp: Let_def)
  obtain events' where ev: "rr_response r = Some (ReadChunk chunk # events')" "rr_response r' = Some events'"
    "rr_received r' = saturating_add_u64 (rr_received r) (length chunk)" "rr_content_length r' = rr_content_length r"
    using next_chunk_some [OF step] by blast
  have received: "unat (rr_received r') = unat (rr_received r) + length chunk"
    using Cons.prems(3) unat_add_u64 [of "rr_received r" "length chunk"] by (simp add: ev(3) saturating_add_u64_def)
  show ?case
    using Cons.IH [OF rest ev(2)] Cons.prems(2,3) received ev(1,4) by auto
qed

section \<open>Properties\<close>

text \<open>
  C26. When an application pulls a remote file up to the end without an error, the chunks it got
  are the whole body, of exactly the announced length.
\<close>

theorem remote_read_exact:
  assumes "remote_fs_open_read A c ip port target events = Inr r"
    and "pull A (Suc (length chunks)) r = map (Inr \<circ> Some) chunks @ [Inr None]"
    and "length (concat chunks) < 2 ^ 64"
  shows "events = map ReadChunk chunks \<and>
    (\<forall>n. rr_content_length r = Some n \<longrightarrow> unat n = length (concat chunks))"
proof -
  have "rr_response r = Some events" "rr_received r = 0"
    using assms(1) by (auto simp: remote_fs_open_read_def res_simps)
  then show ?thesis using pull_exact [OF assms(2)] assms(3) by simp
qed

text \<open>A read that has failed looks complete to whoever asks again.\<close>

theorem failed_read_looks_complete:
  assumes "pull A (Suc n) r = Inl e # rest"
  shows "rest = replicate n (Inr None)"
proof -
  obtain r' where step: "next_chunk A r = (Inl e, r')" and rest: "rest = pull A n r'"
    using assms by (cases "next_chunk A r") (auto simp: Let_def)
  show ?thesis using next_chunk_cases [OF step] by (simp add: rest pull_ended)
qed

text \<open>
  Writing a stream to a path gives the same file as the writer of the server, and succeeds in
  the same cases.
\<close>

theorem stream_write_agrees:
  assumes "length (concat chunks) < 2 ^ 64"
  shows "write_stream_to_target android chunks (Some env) None expected = Inr (expected, content) \<longleftrightarrow>
    (\<exists>f. write_file_from_receiver env expected chunks default_timestamps = Inr f \<and> sv_content f = content)"
proof -
  have loop: "stream_write_loop env expected 0 0 [] chunks = Inr (w, d) \<longleftrightarrow>
      (\<exists>q. write_loop env expected 0 0 [] [] chunks = Inr (w, d, q))" for w d
    using assms by (intro stream_loop_agrees) simp
  show ?thesis
  proof (cases "write_loop env expected 0 0 [] [] chunks")
    case (Inl e)
    then obtain e' where "stream_write_loop env expected 0 0 [] chunks = Inl e'"
      using loop by (cases "stream_write_loop env expected 0 0 [] chunks") auto
    with Inl show ?thesis
      by (simp add: write_stream_to_target_def write_file_from_receiver_def and_then_def map_err_def split: sum.split)
  next
    case (Inr r)
    then obtain w d q where r: "r = (w, d, q)" by (cases r) auto
    with Inr loop have "stream_write_loop env expected 0 0 [] chunks = Inr (w, d)" by simp
    with Inr r show ?thesis
      by (auto simp: write_stream_to_target_def write_file_from_receiver_def and_then_def map_err_def ensure_def Let_def
          split: sum.split option.split)
  qed
qed

text \<open>
  Buffering loses and reorders nothing, and every message but the last has at least 1 MiB.
\<close>

theorem buffer_receiver_faithful:
  "concat (buffer_receiver None chunks) = concat chunks \<and> [] \<notin> set (buffer_receiver room chunks) \<and>
   list_all (\<lambda>b. STREAM_BUFFER_SIZE \<le> length b) (butlast (buffer_receiver room chunks))"
  using buffer_loop_sizes
  by (auto simp: buffer_receiver_def buffer_loop_concat buffer_loop_nonempty list_all_iff)

text \<open>
  The reports that reach the application are some of those made, in their order, with every
  final one, and no other comes within 20 ms of the one before.
\<close>

theorem progress_throttled:
  "subseq (throttle final None reports) reports \<and>
   set (filter (\<lambda>(t, b). final b) reports) \<subseteq> set (throttle final None reports) \<and>
   spaced final None (throttle final None reports)"
  using throttle_final by (auto simp: throttle_subseq throttle_spaced)

text \<open>
  A client without a pin refuses every request to a remote file system before anything is
  sent; one with a pin runs it over a client that verifies exactly this fingerprint.
\<close>

theorem remote_fs_needs_pin:
  assumes "create_client A private_key cert version expected timeout = Inr c"
  shows "case expected of
      None \<Rightarrow> with_remote_fs A c call =
        Inl (RsFsOther (lit ''Remote filesystem requires a client pinned to the peer certificate''))
    | Some fp \<Rightarrow> is_certificate_fingerprint fp \<and> rc_remote_fs c = Some (rc_inner c) \<and>
        cl_verifier (rc_inner c) = Some \<lparr>pv_expected_fingerprint = Some (to_ascii_uppercase fp)\<rparr> \<and>
        with_remote_fs A c call = map_err (rs_fs_error A) (call (ace_fs_net A (rc_inner c)))"
  using assms
  by (auto simp: create_client_def firebox_client_new_def create_reqwest_client_def pinned_verifier_new_def
      with_remote_fs_def require_remote_fs_def res_simps ok_or_def split: option.splits)


section \<open>Witnesses\<close>

definition demo_app_client :: app_client_env where
  "demo_app_client = \<lparr>ace_ext = demo_keyed_ext, ace_client = demo_client_ext, ace_fs = demo_fs_ext,
     ace_net = (\<lambda>_ _. None),
     ace_fs_net = (\<lambda>_ _. Some \<lparr>fo_status = 200, fo_content_length = Some 3, fo_chunks = [], fo_complete = True\<rparr>),
     ace_text = (\<lambda>_. []), ace_fs_text = (\<lambda>_. []), ace_android = False\<rparr>"

definition demo_pinned :: rs_http_client where
  "demo_pinned = \<lparr>rc_version = ClientV2, rc_inner = \<lparr>cl_verifier = None, cl_identity = None, cl_timeout = None\<rparr>,
     rc_remote_fs = Some \<lparr>cl_verifier = None, cl_identity = None, cl_timeout = None\<rparr>\<rparr>"

lemma demo_open_read:
  "remote_fs_open_read demo_app_client demo_pinned (lit ''h'') 1 demo_location events =
   Inr \<lparr>rr_content_length = Some 3, rr_response = Some events, rr_received = 0\<rparr>"
proof -
  have "validate_entry_location demo_location = Inr ()" by code_simp
  then show ?thesis
    by (simp add: remote_fs_open_read_def with_remote_fs_def require_remote_fs_def demo_app_client_def demo_pinned_def
        fsc_read_def ok_or_def ensure_success_def is_success_def and_then_def map_err_def)
qed

theorem remote_read_exact_witness:
  "[ReadChunk [1, 2], ReadChunk [3]] = map ReadChunk [[1, 2], [3 :: byte]] \<and> unat (3 :: u64) = length [1, 2, 3 :: byte]"
proof -
  have "pull demo_app_client (Suc (length [[1, 2], [3 :: byte]]))
      \<lparr>rr_content_length = Some 3, rr_response = Some [ReadChunk [1, 2], ReadChunk [3]], rr_received = 0\<rparr> =
      map (Inr \<circ> Some) [[1, 2], [3]] @ [Inr None]"
    by (simp add: next_chunk_def saturating_add_u64_def)
  from remote_read_exact [OF demo_open_read this] show ?thesis by simp
qed

theorem failed_read_looks_complete_witness:
  "pull demo_app_client 3 \<lparr>rr_content_length = Some 3, rr_response = Some [ReadChunk [1]], rr_received = 0\<rparr> =
     [Inr (Some [1]), Inl RsInvalidResponse, Inr None]"
proof -
  let ?r = "\<lparr>rr_content_length = Some 3, rr_response = Some [], rr_received = 1\<rparr>"
  obtain rest where rest: "pull demo_app_client (Suc 1) ?r = Inl RsInvalidResponse # rest"
    by (simp add: next_chunk_def)
  from failed_read_looks_complete [OF this] rest show ?thesis
    by (simp add: next_chunk_def saturating_add_u64_def numeral_3_eq_3 Let_def)
qed

theorem stream_write_agrees_witness:
  "write_stream_to_target False [[1], [2, 3]] (Some demo_fs) None 3 = Inr (3, [1, 2, 3])"
  using stream_write_agrees [of "[[1], [2, 3]]" False demo_fs 3 "[1, 2, 3]"]
  by (simp add: write_file_from_receiver_def demo_fs_def resize_def and_then_def ensure_def Let_def)

theorem remote_fs_needs_pin_witness:
  "\<exists>c. create_client demo_app_client [] [] ClientV2 None None = Inr c \<and>
     with_remote_fs demo_app_client c (\<lambda>net. fsc_roots demo_fs_ext net (lit ''h'') 1) =
       Inl (RsFsOther (lit ''Remote filesystem requires a client pinned to the peer certificate''))"
proof -
  obtain c where c: "create_client demo_app_client [] [] ClientV2 None None = Inr c"
    by (simp add: create_client_def demo_app_client_def create_reqwest_client_def pinned_verifier_new_def demo_client_ext_def
        ok_or_def ensure_def and_then_def map_err_def)
  from remote_fs_needs_pin [OF c, of "\<lambda>net. fsc_roots demo_fs_ext net (lit ''h'') 1"] c show ?thesis by auto
qed

end
