(* ===== verification/FB_AppDiscovery.thy ===== *)
theory FB_AppDiscovery
  imports FB_Discovery FB_AppServer
begin

text \<open>
  Discovery as the application holds it
  (\<^verbatim>\<open>packages/localsend_isolates/rust/src/api/discovery.rs\<close>): starting it through the registry
  of running instances, the loop that passes every confirmation on as the merged state of
  the device, and the scans. The channel between the discovery of \<open>FB_Discovery\<close> and the loop
  has 16 places; what the application knows is what the loop has shown it.
\<close>

section \<open>Devices for the application\<close>

record rs_discovered_device =
  rdd_alias :: rstring
  rdd_version :: rstring
  rdd_device_model :: "rstring option"
  rdd_device_type :: "device_type option"
  rdd_fingerprint :: rstring
  rdd_host :: rstring
  rdd_port :: u16
  rdd_protocol :: protocol_type
  rdd_download :: bool

record rs_device_channel =
  rdc_host :: rstring
  rdc_port :: u16
  rdc_protocol :: protocol_type

record rs_stored_device =
  rsd_alias :: rstring
  rsd_version :: rstring
  rsd_device_model :: "rstring option"
  rsd_device_type :: "device_type option"
  rsd_fingerprint :: rstring
  rsd_download :: bool
  rsd_channels :: "rs_device_channel list"

record rs_device_log =
  rdl_timestamp_millis :: u64
  rdl_kind :: device_log_kind
  rdl_channel :: rs_device_channel

fun rs_channel :: "device_channel \<Rightarrow> rs_device_channel" where
  "rs_channel (ChannelHttp http) =
     \<lparr>rdc_host = hc_host http, rdc_port = hc_port http, rdc_protocol = hc_protocol http\<rparr>"

definition to_stored_device :: "stateful_device \<Rightarrow> rs_stored_device" where
  "to_stored_device stored =
     (let device = sd_device stored
      in \<lparr>rsd_alias = dd_alias device, rsd_version = dd_version device,
          rsd_device_model = dd_device_model device, rsd_device_type = dd_device_type device,
          rsd_fingerprint = dd_fingerprint device, rsd_download = dd_download device,
          rsd_channels = map rs_channel (get_ranked_channels stored)\<rparr>)"

text \<open>A time is taken as nanoseconds since the epoch; one before it is reported as zero.\<close>

definition to_device_log :: "device_log \<Rightarrow> rs_device_log" where
  "to_device_log log =
     \<lparr>rdl_timestamp_millis = (if dl_timestamp log < 0 then 0 else word_of_int (dl_timestamp log div 10 ^ 6)),
      rdl_kind = dl_kind log, rdl_channel = rs_channel (dl_channel log)\<rparr>"

section \<open>State\<close>

text \<open>
  \<open>ad_rx\<close> is whether the receiver can still be taken, \<open>ad_loop\<close> whether the loop runs;
  \<open>ad_read\<close> of the events of the core have been received, and \<open>ad_shown\<close> went to the
  application. The loop borrows the handle, and with it the sender of its own channel, so
  that the channel does not close while the loop runs.
\<close>

record rs_discovery =
  ad_instance :: nat
  ad_core :: discovery_state
  ad_rx :: bool
  ad_loop :: bool
  ad_read :: nat
  ad_shown :: "rs_stored_device list"

definition DISCOVERY_CHANNEL_SIZE :: nat where "DISCOVERY_CHANNEL_SIZE = 16"

definition parse_ipv4 :: "rstring \<Rightarrow> 32 word option" where
  "parse_ipv4 s = (case parse_ip s of Some (IpV4 a) \<Rightarrow> Some a | _ \<Rightarrow> None)"

definition rs_discovery_new :: "nat \<Rightarrow> multicast_device \<Rightarrow> device_identity \<Rightarrow> nat \<Rightarrow> rs_discovery" where
  "rs_discovery_new i device identity timeout =
     \<lparr>ad_instance = i, ad_core = discovery_start device identity timeout (Some DISCOVERY_CHANNEL_SIZE),
      ad_rx = True, ad_loop = False, ad_read = 0, ad_shown = []\<rparr>"

definition start_discovery ::
  "rstring \<Rightarrow> multicast_device \<Rightarrow> device_identity \<Rightarrow> nat \<Rightarrow> registry \<Rightarrow> (rs_discovery, rstring) result \<times> registry"
where
  "start_discovery grp device identity timeout r =
     (case parse_ipv4 grp of
        None \<Rightarrow> (Inl (lit ''Invalid multicast group: '' @ grp), r)
      | Some _ \<Rightarrow>
          let r1 = registry_begin r
          in (Inr (rs_discovery_new (rg_next r1) device identity timeout), registry_started r1))"

section \<open>Operations\<close>

definition discovery_listen :: "rs_discovery \<Rightarrow> rstring option \<times> rs_discovery" where
  "discovery_listen s =
     (if ad_rx s then (None, s\<lparr>ad_rx := False, ad_loop := True\<rparr>)
      else (Some (lit ''Discovery events already listened to''), s))"

fun event_device :: "discovery_event \<Rightarrow> discovered_device" where
  "event_device (Discovered d) = d"
| "event_device (Updated d) = d"

text \<open>
  One turn of the loop. When the application has gone the loop ends and drops the receiver,
  so that later events have no channel.
\<close>

definition discovery_receive :: "bool \<Rightarrow> rs_discovery \<Rightarrow> rs_discovery" where
  "discovery_receive sink_open s =
     (if \<not> ad_loop s \<or> length (ds_events (ad_core s)) \<le> ad_read s then s
      else
        let core = ad_core s;
            event = ds_events core ! ad_read s;
            s1 = s\<lparr>ad_read := Suc (ad_read s),
                   ad_core := core\<lparr>ds_event_room := map_option Suc (ds_event_room core)\<rparr>\<rparr>
        in case by_fingerprint (ds_store core) (dd_fingerprint (event_device event)) of
             None \<Rightarrow> s1
           | Some stored \<Rightarrow>
               if sink_open then s1\<lparr>ad_shown := ad_shown s @ [to_stored_device stored]\<rparr>
               else s1\<lparr>ad_loop := False, ad_core := core\<lparr>ds_event_room := None\<rparr>\<rparr>)"

fun parse_interfaces :: "rstring list \<Rightarrow> (32 word list, rstring) result" where
  "parse_interfaces [] = Inr []"
| "parse_interfaces (ip # ips) =
     and_then (ok_or (parse_ipv4 ip) (lit ''Invalid interface address: '' @ ip)) (\<lambda>a.
     and_then (parse_interfaces ips) (\<lambda>rest. Inr (a # rest)))"

definition to_http_channel :: "rs_device_channel \<Rightarrow> http_channel" where
  "to_http_channel c = \<lparr>hc_host = rdc_host c, hc_port = rdc_port c, hc_protocol = rdc_protocol c\<rparr>"

text \<open>\<open>text\<close> is the \<^verbatim>\<open>Display\<close> of an error of the client.\<close>

definition rs_discover_staged ::
  "ext \<Rightarrow> client_ext \<Rightarrow> (client_error \<Rightarrow> rstring) \<Rightarrow> disc_env \<Rightarrow> (discovered_device \<times> system_time) list \<Rightarrow>
   rs_device_channel list \<Rightarrow> rstring list \<Rightarrow> u16 \<Rightarrow> protocol_type \<Rightarrow> rs_discovery \<Rightarrow>
   (unit, rstring) result \<times> rs_discovery"
where
  "rs_discover_staged X K text e meanwhile channels interface_ips port protocol s =
     (case parse_interfaces interface_ips of
        Inl msg \<Rightarrow> (Inl msg, s)
      | Inr ips \<Rightarrow>
          let (r, core) = discover_staged X K (de_net e) (de_arrange e) (de_now e) meanwhile
                (map to_http_channel channels) ips port protocol (ad_core s)
          in (map_err text r, s\<lparr>ad_core := core\<rparr>))"

definition rs_scan_subnet ::
  "ext \<Rightarrow> client_ext \<Rightarrow> (client_error \<Rightarrow> rstring) \<Rightarrow> disc_env \<Rightarrow> rstring \<Rightarrow> u16 \<Rightarrow> protocol_type \<Rightarrow> rs_discovery \<Rightarrow>
   (unit, rstring) result \<times> rs_discovery"
where
  "rs_scan_subnet X K text e interface_ip port protocol s =
     (case parse_ipv4 interface_ip of
        None \<Rightarrow> (Inl (lit ''Invalid interface address: '' @ interface_ip), s)
      | Some ip \<Rightarrow>
          let (r, core) = scan_subnet X K (de_net e) (de_arrange e) (de_now e) port protocol ip (ad_core s)
          in (and_then (map_err text r) (\<lambda>_. Inr ()), s\<lparr>ad_core := core\<rparr>))"

definition rs_confirmed :: "rs_discovered_device \<Rightarrow> discovered_device" where
  "rs_confirmed device =
     \<lparr>dd_alias = rdd_alias device, dd_version = rdd_version device, dd_device_model = rdd_device_model device,
      dd_device_type = rdd_device_type device, dd_fingerprint = rdd_fingerprint device,
      dd_channel = ChannelHttp \<lparr>hc_host = rdd_host device, hc_port = rdd_port device,
        hc_protocol = rdd_protocol device\<rparr>,
      dd_download = rdd_download device\<rparr>"

definition rs_add_device :: "rs_discovered_device \<Rightarrow> system_time \<Rightarrow> rs_discovery \<Rightarrow> rs_discovery" where
  "rs_add_device device now s = s\<lparr>ad_core := snd (add_device (rs_confirmed device) now (ad_core s))\<rparr>"

definition device_logs :: "rs_discovery \<Rightarrow> rstring \<Rightarrow> rs_device_log list" where
  "device_logs s fingerprint =
     (case by_fingerprint (ds_store (ad_core s)) fingerprint of
        None \<Rightarrow> [] | Some stored \<Rightarrow> map to_device_log (sd_logs stored))"

definition rs_set_answer_announcements :: "bool \<Rightarrow> rs_discovery \<Rightarrow> rs_discovery" where
  "rs_set_answer_announcements answer s = s\<lparr>ad_core := set_answer_announcements answer (ad_core s)\<rparr>"

section \<open>Runs\<close>

text \<open>Calls of the application, datagrams that the multicast sockets receive, turns of the loop.\<close>

datatype app_disc_op =
    AdListen
  | AdReceive bool
  | AdDatagram disc_env "byte list" socket_addr
  | AdStaged disc_env "(discovered_device \<times> system_time) list" "rs_device_channel list" "rstring list" u16 protocol_type
  | AdScan disc_env rstring u16 protocol_type
  | AdAdd rs_discovered_device system_time
  | AdAnswering bool

fun app_disc_step ::
  "ext \<Rightarrow> client_ext \<Rightarrow> (client_error \<Rightarrow> rstring) \<Rightarrow> rs_discovery \<Rightarrow> app_disc_op \<Rightarrow> rs_discovery"
where
  "app_disc_step X K text s AdListen = snd (discovery_listen s)"
| "app_disc_step X K text s (AdReceive sink_open) = discovery_receive sink_open s"
| "app_disc_step X K text s (AdDatagram e bytes source) =
     s\<lparr>ad_core := disc_step X K e (OpDatagram bytes source) (ad_core s)\<rparr>"
| "app_disc_step X K text s (AdStaged e meanwhile channels ips port protocol) =
     snd (rs_discover_staged X K text e meanwhile channels ips port protocol s)"
| "app_disc_step X K text s (AdScan e ip port protocol) = snd (rs_scan_subnet X K text e ip port protocol s)"
| "app_disc_step X K text s (AdAdd device now) = rs_add_device device now s"
| "app_disc_step X K text s (AdAnswering answer) = rs_set_answer_announcements answer s"

definition app_disc_run ::
  "ext \<Rightarrow> client_ext \<Rightarrow> (client_error \<Rightarrow> rstring) \<Rightarrow> app_disc_op list \<Rightarrow> rs_discovery \<Rightarrow> rs_discovery"
where
  "app_disc_run X K text ops s = foldl (app_disc_step X K text) s ops"

text \<open>The last state of a device that the application was shown.\<close>

definition shown_device :: "rs_stored_device list \<Rightarrow> rstring \<Rightarrow> rs_stored_device option" where
  "shown_device shown fp = find (\<lambda>d. rsd_fingerprint d = fp) (rev shown)"

section \<open>What a call adds to the store and the channel\<close>

text \<open>
  All a call does to the store and the channel is a sequence of confirmations, of which some
  have their event delivered.
\<close>

type_synonym confirmation = "(discovered_device \<times> system_time) \<times> bool"

definition delivered :: "confirmation list \<Rightarrow> discovered_device list" where
  "delivered cs = map (fst \<circ> fst) (filter snd cs)"

definition feeds :: "discovery_state \<Rightarrow> confirmation list \<Rightarrow> discovery_state \<Rightarrow> bool" where
  "feeds st cs st' \<longleftrightarrow>
     ds_store st' = foldl (\<lambda>s (d, t). snd (upsert s d t)) (ds_store st) (map fst cs) \<and>
     map event_device (ds_events st') = map event_device (ds_events st) @ delivered cs"

definition grows :: "discovery_state \<Rightarrow> discovery_state \<Rightarrow> bool" where
  "grows st st' \<longleftrightarrow> (\<exists>cs. feeds st cs st')"

lemma delivered_simps [simp]:
  "delivered [] = []"
  "delivered ((d, True) # cs) = fst d # delivered cs"
  "delivered ((d, False) # cs) = delivered cs"
  "delivered (cs @ cs') = delivered cs @ delivered cs'"
  by (simp_all add: delivered_def)

lemma feeds_trans: "feeds a cs b \<Longrightarrow> feeds b cs' c \<Longrightarrow> feeds a (cs @ cs') c"
  by (simp add: feeds_def)

lemma grows_trans [trans]: "grows a b \<Longrightarrow> grows b c \<Longrightarrow> grows a c"
  unfolding grows_def using feeds_trans by blast

lemma grows_frame: "ds_store st' = ds_store st \<Longrightarrow> ds_events st' = ds_events st \<Longrightarrow> grows st st'"
  unfolding grows_def feeds_def by (rule exI [of _ "[]"]) simp

lemma grows_refl [simp]: "grows st st"
  by (rule grows_frame) simp_all

lemma found_event: "event_device (fst (fst (upsert s d t))) = d"
  by (simp add: upsert_result)

lemma grows_found: "grows st (snd (found d t st))"
proof -
  obtain n where n: "ds_event_room st = Some (Suc n) \<or> (\<forall>n. ds_event_room st \<noteq> Some (Suc n))" by blast
  have "feeds st [((d, t), \<exists>n. ds_event_room st = Some (Suc n))] (snd (found d t st))"
    using found_event [of "ds_store st" d t]
    by (cases "ds_event_room st"; cases "the (ds_event_room st)")
      (auto simp: feeds_def found_def delivered_def Let_def split_def)
  then show ?thesis unfolding grows_def by blast
qed

lemma grows_fold_found: "grows st (fold (\<lambda>(d, t) st. snd (found d t st)) ds st)"
proof (induction ds arbitrary: st)
  case (Cons a ds)
  then show ?case using grows_trans [OF grows_found Cons.IH] by (cases a) simp
qed simp

lemma grows_probe: "grows st (snd (probe X K net client host port protocol now st))"
  by (cases rule: probe_cases [of X K net client host port protocol now st]) (simp_all add: grows_found)

lemma grows_probe_all: "grows st (snd (probe_all X K net client now hs st))"
proof (induction hs arbitrary: st)
  case (Cons h hs)
  then show ?case using grows_trans [OF grows_probe Cons.IH]
    by (simp add: split_def Let_def)
qed simp

lemma grows_known: "grows st (snd (discover_known_http_channels X K net arrange now channels st))"
  by (simp add: discover_known_http_channels_def split_def Let_def grows_probe_all split: sum.splits)

lemma scan_release_events [simp]: "ds_events (scan_release ip st) = ds_events st"
  by (simp add: scan_release_def)

lemma fold_scan_release_events [simp]: "ds_events (fold scan_release ips st) = ds_events st"
  by (induction ips arbitrary: st) simp_all

lemma grows_frames [simp]:
  "grows (st\<lparr>ds_scanning := ips\<rparr>) st' = grows st st'"
  "grows st (st'\<lparr>ds_scanning := ips\<rparr>) = grows st st'"
  "grows st (fold scan_release ips' st') = grows st st'"
  "grows st (scan_release ip st') = grows st st'"
  by (simp_all add: grows_def feeds_def)

lemma grows_scanning: "grows st (snd (probe_all X K net client now hs (st\<lparr>ds_scanning := ips\<rparr>)))"
  using grows_probe_all [of "st\<lparr>ds_scanning := ips\<rparr>"] by simp

lemma grows_scan_subnet: "grows st (snd (scan_subnet X K net arrange now port protocol ip st))"
  by (auto simp: scan_subnet_def scan_claim_def Let_def split_def grows_scanning split: sum.splits)

lemma grows_scan_subnets: "grows st (snd (scan_subnets X K net arrange now port protocol ips st))"
  by (auto simp: scan_subnets_def Let_def split_def grows_scanning split: sum.splits)

lemma grows_staged: "grows st (snd (discover_staged X K net arrange now meanwhile known ips port protocol st))"
proof -
  obtain r st1 where known: "discover_known_http_channels X K net arrange now known st = (r, st1)" by fastforce
  have "grows st st1" using grows_known [of st X K net arrange now known] known by simp
  then show ?thesis using grows_trans [OF _ grows_trans [OF grows_fold_found grows_scan_subnets]]
      grows_trans [OF _ grows_fold_found]
    by (auto simp: discover_staged_def known Let_def split: sum.splits)
qed

lemma grows_datagram: "grows st (disc_step X K e (OpDatagram bytes source) st)"
  by (auto simp: on_multicast_event_def answer_announcement_def Let_def grows_found
      split: option.splits sum.splits multicast_event.splits)

section \<open>What the application knows\<close>

text \<open>The last confirmation of a device had its event delivered.\<close>

definition last_delivered :: "rstring \<Rightarrow> confirmation list \<Rightarrow> bool" where
  "last_delivered fp cs \<longleftrightarrow>
     (let own = filter (\<lambda>((d, t), b). dd_fingerprint d = fp) cs in own \<noteq> [] \<and> snd (last own))"

text \<open>A listed device can be dialed, at every host once.\<close>

definition dialable :: "rs_stored_device \<Rightarrow> bool" where
  "dialable d \<longleftrightarrow> rsd_channels d \<noteq> [] \<and> distinct (map rdc_host (rsd_channels d))"

text \<open>
  Of the events, the first \<open>ad_read\<close> have been received. A device whose last event was
  delivered has been shown as it is stored, or one of its events is still to be received.
\<close>

definition shown_or_pending :: "confirmation list \<Rightarrow> rs_discovery \<Rightarrow> rstring \<Rightarrow> bool" where
  "shown_or_pending cs s fp \<longleftrightarrow>
     shown_device (ad_shown s) fp = map_option to_stored_device (by_fingerprint (ds_store (ad_core s)) fp) \<or>
     fp \<in> dd_fingerprint ` set (drop (ad_read s) (delivered cs))"

definition view_inv :: "confirmation list \<Rightarrow> rs_discovery \<Rightarrow> bool" where
  "view_inv cs s \<longleftrightarrow>
     ds_store (ad_core s) = store_run (map fst cs) \<and>
     map event_device (ds_events (ad_core s)) = delivered cs \<and>
     ad_read s \<le> length (delivered cs) \<and> (ad_loop s \<longrightarrow> \<not> ad_rx s) \<and>
     rsd_fingerprint ` set (ad_shown s) \<subseteq> dd_fingerprint ` set (delivered cs) \<and>
     list_all dialable (ad_shown s) \<and>
     (ad_loop s \<or> ad_rx s \<longrightarrow> (\<forall>fp. last_delivered fp cs \<longrightarrow> shown_or_pending cs s fp))"

lemma to_stored_device_fingerprint [simp]: "rsd_fingerprint (to_stored_device k) = dd_fingerprint (sd_device k)"
  by (simp add: to_stored_device_def Let_def)

lemma shown_device_snoc:
  "shown_device (shown @ [d]) fp = (if rsd_fingerprint d = fp then Some d else shown_device shown fp)"
  by (simp add: shown_device_def)

lemma by_fingerprint_Some: "by_fingerprint st fp = Some k \<Longrightarrow> k \<in> set st \<and> dd_fingerprint (sd_device k) = fp"
  by (auto simp: by_fingerprint_def find_Some_iff)

lemma rs_channel_host: "map_option hc_host (channel_http c) = Some (rdc_host (rs_channel c))"
  by (cases c) simp

lemma stored_dialable:
  assumes "device_ok k"
  shows "dialable (to_stored_device k)"
proof -
  have hosts: "(\<lambda>(c, st). map_option hc_host (channel_http c)) = Some \<circ> rdc_host \<circ> rs_channel \<circ> fst"
    by (simp add: fun_eq_iff rs_channel_host)
  have "mset (get_ranked_channels k) = mset (map fst (sd_channels k))"
    by (simp add: get_ranked_channels_def)
  then have "mset (map (rdc_host \<circ> rs_channel) (get_ranked_channels k)) = mset (map (rdc_host \<circ> rs_channel) (map fst (sd_channels k)))"
    by (metis mset_map)
  moreover have "distinct (map (rdc_host \<circ> rs_channel) (map fst (sd_channels k)))"
    using assms by (simp add: device_ok_def hosts distinct_map comp_assoc inj_on_def)
  ultimately have "distinct (map (rdc_host \<circ> rs_channel) (get_ranked_channels k))"
    by (metis mset_eq_imp_distinct_iff)
  moreover have "get_ranked_channels k \<noteq> []"
  proof -
    have "length (get_ranked_channels k) = length (sd_channels k)" by (simp add: get_ranked_channels_def)
    moreover have "sd_channels k \<noteq> []" using assms by (auto simp: device_ok_def)
    ultimately show ?thesis by auto
  qed
  ultimately show ?thesis by (simp add: dialable_def to_stored_device_def Let_def comp_def)
qed

lemma store_run_known: "by_fingerprint (store_run ds) fp \<noteq> None \<longleftrightarrow> fp \<in> (\<lambda>(d, t). dd_fingerprint d) ` set ds"
  using devices.get_run_some [of "[]" ds fp] by (simp add: store_run_def)

lemma store_run_dialable: "by_fingerprint (store_run ds) fp = Some k \<Longrightarrow> dialable (to_stored_device k)"
proof -
  assume "by_fingerprint (store_run ds) fp = Some k"
  then have "k \<in> set (store_run ds)" by (simp add: by_fingerprint_Some)
  then have "device_ok k" using store_run_ok [of ds] by (simp add: store_ok_def list_all_iff)
  then show ?thesis by (rule stored_dialable)
qed

lemma delivered_known: "d \<in> set (delivered cs) \<Longrightarrow> by_fingerprint (store_run (map fst cs)) (dd_fingerprint d) \<noteq> None"
  unfolding store_run_known by (force simp: delivered_def)

lemma last_delivered_append:
  "last_delivered fp (cs @ cs') \<Longrightarrow>
   fp \<in> dd_fingerprint ` set (delivered cs') \<or>
   last_delivered fp cs \<and> fp \<notin> (\<lambda>(d, t). dd_fingerprint d) ` set (map fst cs')"
proof (cases "filter (\<lambda>((d, t), b). dd_fingerprint d = fp) cs' = []")
  case True
  assume "last_delivered fp (cs @ cs')"
  with True show ?thesis
    unfolding last_delivered_def Let_def by (auto simp: filter_empty_conv)
next
  case False
  assume "last_delivered fp (cs @ cs')"
  then have "snd (last (filter (\<lambda>((d, t), b). dd_fingerprint d = fp) cs'))"
    using False by (simp add: last_delivered_def Let_def)
  moreover have "last (filter (\<lambda>((d, t), b). dd_fingerprint d = fp) cs') \<in> set cs'"
    "case last (filter (\<lambda>((d, t), b). dd_fingerprint d = fp) cs') of ((d, t), b) \<Rightarrow> dd_fingerprint d = fp"
    using last_in_set [OF False] by auto
  ultimately show ?thesis by (force simp: delivered_def split: prod.splits)
qed

lemma view_inv_read: "view_inv cs s \<Longrightarrow> length (ds_events (ad_core s)) = length (delivered cs)"
  unfolding view_inv_def by (metis length_map)

lemma view_inv_new: "view_inv [] (rs_discovery_new i device identity timeout)"
  by (simp add: view_inv_def rs_discovery_new_def discovery_start_def store_run_def last_delivered_def)

lemma view_inv_grows:
  assumes "view_inv cs s" "feeds (ad_core s) cs' core"
  shows "view_inv (cs @ cs') (s\<lparr>ad_core := core\<rparr>)"
proof -
  have store: "ds_store core = store_run (map fst (cs @ cs'))"
    using assms by (simp add: view_inv_def feeds_def store_run_def)
  have same: "by_fingerprint (ds_store core) fp = by_fingerprint (ds_store (ad_core s)) fp"
    if "fp \<notin> (\<lambda>(d, t). dd_fingerprint d) ` set (map fst cs')" for fp
    using devices.get_run_other [OF that] assms(2) by (simp add: feeds_def)
  have "shown_or_pending (cs @ cs') (s\<lparr>ad_core := core\<rparr>) fp"
    if "last_delivered fp (cs @ cs')" "ad_loop s \<or> ad_rx s" for fp
    using last_delivered_append [OF that(1)] that(2) assms(1) same [of fp]
    by (auto simp: shown_or_pending_def view_inv_def image_Un)
  with assms store show ?thesis by (auto simp: view_inv_def feeds_def)
qed

lemma view_inv_receive:
  assumes inv: "view_inv cs s"
  shows "view_inv cs (discovery_receive sink_open s)"
proof (cases "ad_loop s \<and> ad_read s < length (delivered cs)")
  case False
  then have "discovery_receive sink_open s = s"
    using view_inv_read [OF inv] by (auto simp: discovery_receive_def)
  with inv show ?thesis by simp
next
  case True
  let ?d = "delivered cs ! ad_read s" and ?store = "store_run (map fst cs)"
  have next_event: "event_device (ds_events (ad_core s) ! ad_read s) = ?d"
    using True inv view_inv_read [OF inv] by (metis nth_map view_inv_def)
  have pending: "drop (ad_read s) (delivered cs) = ?d # drop (Suc (ad_read s)) (delivered cs)"
    using True by (simp add: Cons_nth_drop_Suc)
  have d: "?d \<in> set (delivered cs)" using True by simp
  obtain k where k: "by_fingerprint ?store (dd_fingerprint ?d) = Some k"
    using delivered_known [OF d] by blast
  have store: "ds_store (ad_core s) = ?store" using inv by (simp add: view_inv_def)
  have core: "\<not> (\<not> ad_loop s \<or> length (ds_events (ad_core s)) \<le> ad_read s)"
    using True view_inv_read [OF inv] by simp
  show ?thesis
  proof (cases sink_open)
    case False
    with inv True core show ?thesis
      by (auto simp: discovery_receive_def Let_def next_event store k view_inv_def)
  next
    case open_sink: True
    let ?s = "discovery_receive True s"
    have s: "ad_shown ?s = ad_shown s @ [to_stored_device k]" "ad_read ?s = Suc (ad_read s)" "ad_rx ?s = ad_rx s"
      "ad_loop ?s = ad_loop s" "ds_store (ad_core ?s) = ?store" "ds_events (ad_core ?s) = ds_events (ad_core s)"
      using core by (simp_all add: discovery_receive_def Let_def next_event store k)
    have "shown_or_pending cs ?s fp" if "shown_or_pending cs s fp" for fp
      using that k pending by (auto simp: shown_or_pending_def s store shown_device_snoc by_fingerprint_Some)
    moreover have "dialable (to_stored_device k)" using k by (rule store_run_dialable)
    ultimately show ?thesis
      using inv True d k open_sink by (auto simp: view_inv_def s by_fingerprint_Some)
  qed
qed

lemma view_inv_step: "view_inv cs s \<Longrightarrow> \<exists>cs'. view_inv cs' (app_disc_step X K text s op)"
proof -
  assume inv: "view_inv cs s"
  have core: "\<exists>cs'. view_inv cs' (s\<lparr>ad_core := core\<rparr>)" if "grows (ad_core s) core" for core
    using that view_inv_grows [OF inv] unfolding grows_def by blast
  show ?thesis
  proof (cases op)
    case AdListen
    with inv show ?thesis
      by (auto simp: discovery_listen_def view_inv_def shown_or_pending_def intro!: exI [of _ cs])
  next
    case (AdReceive sink_open)
    with view_inv_receive [OF inv] show ?thesis by auto
  next
    case (AdDatagram e bytes source)
    with core [OF grows_datagram] show ?thesis by simp
  next
    case (AdStaged e meanwhile channels ips port protocol)
    with inv core [OF grows_staged] show ?thesis
      by (auto simp: rs_discover_staged_def split_def Let_def split: sum.splits)
  next
    case (AdScan e ip port protocol)
    with inv core [OF grows_scan_subnet] show ?thesis
      by (auto simp: rs_scan_subnet_def split_def Let_def split: option.splits)
  next
    case (AdAdd device now)
    with core [OF grows_found] show ?thesis by (simp add: rs_add_device_def add_device_def split_def Let_def)
  next
    case (AdAnswering answer)
    with core [OF grows_frame] show ?thesis
      by (simp add: rs_set_answer_announcements_def set_answer_announcements_def)
  qed
qed

lemma view_inv_run: "\<exists>cs. view_inv cs (app_disc_run X K text ops (rs_discovery_new i device identity timeout))"
proof (induction ops rule: rev_induct)
  case Nil
  show ?case by (rule exI [of _ "[]"]) (simp add: app_disc_run_def view_inv_new)
next
  case (snoc op ops)
  then obtain cs where "view_inv cs (app_disc_run X K text ops (rs_discovery_new i device identity timeout))" by blast
  from view_inv_step [OF this] show ?case by (simp add: app_disc_run_def)
qed

lemma by_fingerprint_member:
  "distinct (map (\<lambda>k. dd_fingerprint (sd_device k)) ks) \<Longrightarrow> k \<in> set ks \<Longrightarrow>
   by_fingerprint ks (dd_fingerprint (sd_device k)) = Some k"
  by (induction ks) (auto simp: image_iff)

lemma shown_device_None: "fp \<notin> rsd_fingerprint ` set shown \<Longrightarrow> shown_device shown fp = None"
  by (auto simp: shown_device_def find_None_iff)

section \<open>Properties\<close>

text \<open>
  C20. Everything the application is shown can be dialed, at every host once. When all events have
  been received, its view of a device is what the store holds, merged from all
  confirmations, unless the event of the last confirmation of that device was dropped.
\<close>

theorem listed_devices_current:
  assumes "app_disc_run X K text ops (rs_discovery_new i device identity timeout) = s"
    and "ad_loop s" "ad_read s = length (ds_events (ad_core s))"
  shows "\<exists>cs. ds_store (ad_core s) = store_run (map fst cs) \<and> map event_device (ds_events (ad_core s)) = delivered cs \<and>
    list_all dialable (ad_shown s) \<and>
    (\<forall>k \<in> set (ds_store (ad_core s)). last_delivered (dd_fingerprint (sd_device k)) cs \<longrightarrow>
       shown_device (ad_shown s) (dd_fingerprint (sd_device k)) = Some (to_stored_device k))"
proof -
  obtain cs where inv: "view_inv cs s" using view_inv_run [of X K "text" ops i device identity timeout] assms(1) by blast
  have all: "drop (ad_read s) (delivered cs) = []" using assms(3) view_inv_read [OF inv] by simp
  have "shown_device (ad_shown s) (dd_fingerprint (sd_device k)) = Some (to_stored_device k)"
    if "k \<in> set (store_run (map fst cs))" "last_delivered (dd_fingerprint (sd_device k)) cs" for k
    using inv assms(2) that all by_fingerprint_member [OF _ that(1)] store_run_ok [of "map fst cs"]
    by (auto simp: view_inv_def shown_or_pending_def store_ok_def)
  with inv show ?thesis by (auto simp: view_inv_def)
qed

text \<open>
  C35. A burst hides devices: while sixteen events wait, a device that is found for the first
  time is stored, but no turn of the loop shows it to the application, which has no other
  way to ask for it.
\<close>

theorem burst_hides_device:
  assumes "app_disc_run X K text ops (rs_discovery_new i own identity timeout) = s"
    and "ds_event_room (ad_core s) = Some 0"
    and "by_fingerprint (ds_store (ad_core s)) (rdd_fingerprint device) = None"
  shows "case (discovery_receive True ^^ n) (rs_add_device device now s) of s' \<Rightarrow>
    by_fingerprint (ds_store (ad_core s')) (rdd_fingerprint device) = Some (confirm_new (rs_confirmed device) now) \<and>
    shown_device (ad_shown s') (rdd_fingerprint device) = None"
proof -
  obtain cs where inv: "view_inv cs s" using view_inv_run [of X K "text" ops i own identity timeout] assms(1) by blast
  let ?cs = "cs @ [((rs_confirmed device, now), False)]"
  have fp: "dd_fingerprint (rs_confirmed device) = rdd_fingerprint device" by (simp add: rs_confirmed_def)
  have "feeds (ad_core s) [((rs_confirmed device, now), False)] (snd (found (rs_confirmed device) now (ad_core s)))"
    using assms(2) by (simp add: feeds_def found_def Let_def split_def)
  then have "view_inv ?cs (rs_add_device device now s)"
    using view_inv_grows [OF inv] by (simp add: rs_add_device_def add_device_def split_def Let_def)
  then have run: "view_inv ?cs ((discovery_receive True ^^ n) (rs_add_device device now s))"
    by (induction n) (simp_all add: view_inv_receive)
  have old: "by_fingerprint (store_run (map fst cs)) (rdd_fingerprint device) = None"
    using assms(3) inv by (simp add: view_inv_def)
  then have "by_fingerprint (store_run (map fst ?cs)) (rdd_fingerprint device) = Some (confirm_new (rs_confirmed device) now)"
    by (simp add: store_run_snoc upsert_get fp confirm_def)
  moreover have "rdd_fingerprint device \<notin> dd_fingerprint ` set (delivered ?cs)"
    using old delivered_known by force
  moreover have "rsd_fingerprint ` set (ad_shown ((discovery_receive True ^^ n) (rs_add_device device now s)))
      \<subseteq> dd_fingerprint ` set (delivered ?cs)"
    and "ds_store (ad_core ((discovery_receive True ^^ n) (rs_add_device device now s))) = store_run (map fst ?cs)"
    using run by (simp_all add: view_inv_def)
  ultimately show ?thesis by (simp only: prod.case) (blast intro: shown_device_None)
qed

definition demo_found :: "rstring \<Rightarrow> rs_discovered_device" where
  "demo_found fp = \<lparr>rdd_alias = [], rdd_version = [], rdd_device_model = None, rdd_device_type = None,
     rdd_fingerprint = fp, rdd_host = lit ''h'', rdd_port = 1, rdd_protocol = Https, rdd_download = False\<rparr>"

definition demo_discovery :: "app_disc_op list \<Rightarrow> rs_discovery" where
  "demo_discovery ops = app_disc_run demo_keyed_ext demo_client_ext (\<lambda>_. []) ops
     (rs_discovery_new 0 (ds_device demo_start) (ds_identity demo_start) 500)"

lemmas demo_discovery_simps =
  demo_discovery_def app_disc_run_def rs_discovery_new_def discovery_start_def DISCOVERY_CHANNEL_SIZE_def
  discovery_listen_def rs_add_device_def add_device_def found_def split_def Let_def demo_found_def

text \<open>Confirming the same device again and again fills the channel.\<close>

lemma demo_fill:
  assumes "ds_store (ad_core s) = [] \<or> (\<exists>k. ds_store (ad_core s) = [k] \<and> dd_fingerprint (sd_device k) = lit ''F'')"
    and "ds_event_room (ad_core s) = Some n"
  shows "ds_event_room (ad_core (foldl (app_disc_step X K text) s (replicate n (AdAdd (demo_found (lit ''F'')) 0)))) = Some 0 \<and>
    by_fingerprint (ds_store (ad_core (foldl (app_disc_step X K text) s (replicate n (AdAdd (demo_found (lit ''F'')) 0))))) (lit ''G'') = None"
  using assms
proof (induction n arbitrary: s)
  case 0
  then show ?case by (auto simp: lit_def)
next
  case (Suc n)
  let ?s = "app_disc_step X K text s (AdAdd (demo_found (lit ''F'')) 0)"
  have "rdd_fingerprint (demo_found (lit ''F'')) = lit ''F''" by (simp add: demo_found_def)
  then have "(\<exists>k. ds_store (ad_core ?s) = [k] \<and> dd_fingerprint (sd_device k) = lit ''F'') \<and> ds_event_room (ad_core ?s) = Some n"
    using Suc.prems by (auto simp: rs_add_device_def add_device_def found_def split_def Let_def rs_confirmed_def)
  with Suc.IH [of ?s] show ?case by simp
qed

theorem listed_devices_current_witness:
  "case demo_discovery [AdListen, AdAdd (demo_found (lit ''F'')) 0, AdReceive True] of s \<Rightarrow>
     ad_loop s \<and> list_all dialable (ad_shown s) \<and> length (ad_shown s) = 1"
proof -
  let ?s = "demo_discovery [AdListen, AdAdd (demo_found (lit ''F'')) 0, AdReceive True]"
  have "ad_loop ?s \<and> ad_read ?s = length (ds_events (ad_core ?s)) \<and> length (ad_shown ?s) = 1"
    by (simp add: demo_discovery_simps discovery_receive_def rs_confirmed_def confirm_new_def)
  then show ?thesis using listed_devices_current [OF demo_discovery_def [symmetric]] by auto
qed

theorem burst_hides_device_witness:
  "case (discovery_receive True ^^ 20) (rs_add_device (demo_found (lit ''G'')) 1
       (demo_discovery (AdListen # replicate 16 (AdAdd (demo_found (lit ''F'')) 0)))) of s' \<Rightarrow>
    shown_device (ad_shown s') (lit ''G'') = None"
proof -
  let ?s = "demo_discovery (AdListen # replicate 16 (AdAdd (demo_found (lit ''F'')) 0))"
  have fp: "rdd_fingerprint (demo_found (lit ''G'')) = lit ''G''" by (simp add: demo_found_def)
  have "ds_event_room (ad_core ?s) = Some 0 \<and>
      by_fingerprint (ds_store (ad_core ?s)) (rdd_fingerprint (demo_found (lit ''G''))) = None"
    using demo_fill [of "snd (discovery_listen (rs_discovery_new 0 (ds_device demo_start) (ds_identity demo_start) 500))" 16]
    unfolding fp
    by (simp add: demo_discovery_def app_disc_run_def)
      (simp add: rs_discovery_new_def discovery_start_def discovery_listen_def DISCOVERY_CHANNEL_SIZE_def)
  moreover note fp
  ultimately show ?thesis using burst_hides_device [OF demo_discovery_def [symmetric]] by metis
qed

end
