(* ===== verification/FB_AppRtc.thy ===== *)
theory FB_AppRtc
  imports FB_RtcSafety FB_AppClient
begin

text \<open>
  WebRTC transfers as the application holds them
  (\<^verbatim>\<open>packages/localsend_isolates/rust/src/api/webrtc.rs\<close>): connecting to the signaling server,
  offers and their acceptance with the keys of the application, and the controllers, whose
  ends of channels can each be taken or used once. A call to the core runs in a task of its
  own; its error becomes the last status.
\<close>

section \<open>Signaling\<close>

record proposing_client_info =
  pci_alias :: rstring
  pci_version :: rstring
  pci_device_model :: "rstring option"
  pci_device_type :: "device_type option"

definition sign_info ::
  "ext \<Rightarrow> u64 option \<Rightarrow> signing_token_key \<Rightarrow> proposing_client_info \<Rightarrow> client_info_without_id option"
where
  "sign_info X now key info =
     map_option (\<lambda>token.
       \<lparr>cw_alias = pci_alias info, cw_version = pci_version info, cw_device_model = pci_device_model info,
        cw_device_type = pci_device_type info, cw_token = token\<rparr>) (generate_token_timestamp X key now)"

text \<open>
  What \<^verbatim>\<open>connect\<close> does: it reports an error, panics with the connection, or hands the
  connection to the application and passes every message on. \<open>parse\<close> reads a private key,
  \<open>net\<close> gives for a URI the error or the frames of the socket and whether it closes.
\<close>

datatype rtc_connect_output = CoError rstring | CoPanic | CoConnection | CoMessage ws_server_message

definition rtc_connect ::
  "ext \<Rightarrow> (rstring \<Rightarrow> signing_token_key option) \<Rightarrow> (client_info_without_id \<Rightarrow> rstring) \<Rightarrow>
   (rstring \<Rightarrow> (bool \<times> ws_server_message option list, rstring) result) \<Rightarrow> u64 option \<Rightarrow> rstring \<Rightarrow>
   proposing_client_info \<Rightarrow> rstring \<Rightarrow> rtc_connect_output list"
where
  "rtc_connect X parse encode net now uri info private_key =
     (case parse private_key of
        None \<Rightarrow> [CoError (lit ''Invalid private key'')]
      | Some signing_key \<Rightarrow>
          (case sign_info X now signing_key info of
             None \<Rightarrow> [CoError (lit ''Invalid client info'')]
           | Some client_info \<Rightarrow>
               (case net (connect_uri X encode uri client_info) of
                  Inl e \<Rightarrow> [CoError e]
                | Inr (closed, frames) \<Rightarrow>
                    (case connect_wait closed frames [] of
                       Connected client messages \<Rightarrow> CoConnection # map CoMessage (messages_read frames)
                     | ConnectPanic \<Rightarrow> [CoPanic]
                     | _ \<Rightarrow> []))))"

section \<open>Offers\<close>

record expecting_public_key =
  epk_public_key :: rstring
  epk_kind :: rstring

datatype key_error = PrivateKeyInvalid | PublicKeyInvalid

text \<open>The keys are read before anything is sent.\<close>

definition session_keys ::
  "rtc_ext \<Rightarrow> (rstring \<Rightarrow> signing_token_key option) \<Rightarrow> rstring \<Rightarrow> expecting_public_key option \<Rightarrow>
   (signing_token_key \<times> verifying_token_key option, key_error) result"
where
  "session_keys E parse private_key expecting =
     and_then (ok_or (parse private_key) PrivateKeyInvalid) (\<lambda>signing_key.
     and_then (case expecting of
         Some key \<Rightarrow>
           and_then (ok_or (parse_public_key (rx_ed E) (rx_rsa E) (epk_public_key key) (epk_kind key)) PublicKeyInvalid)
             (\<lambda>k. Inr (Some k))
       | None \<Rightarrow> Inr None) (\<lambda>expected. Inr (signing_key, expected)))"

text \<open>The task around the call of the core: an error is sent as a status, if that is possible.\<close>

definition report_failure ::
  "(rtc_error \<Rightarrow> rstring) \<Rightarrow> (unit, peer_io, rtc_error) task \<Rightarrow> peer_io \<Rightarrow> peer_io"
where
  "report_failure err_text task io =
     (case task io of
        (Inr _, io1) \<Rightarrow> io1
      | (Inl e, io1) \<Rightarrow> snd (in_task (task_ignore (send_status (RtcError (err_text e)))) io1))"

text \<open>Pairing is not supported yet: a request to pair is always answered with no.\<close>

definition rs_send_offer ::
  "ext \<Rightarrow> rtc_ext \<Rightarrow> (rstring \<Rightarrow> signing_token_key option) \<Rightarrow> (rtc_error \<Rightarrow> rstring) \<Rightarrow> peer_env \<Rightarrow> rstring \<Rightarrow> uuid \<Rightarrow>
   rstring \<Rightarrow> expecting_public_key option \<Rightarrow> offer_config \<Rightarrow> peer_io \<Rightarrow> (peer_io, key_error) result"
where
  "rs_send_offer X E parse err_text env session_id target private_key expecting c io =
     and_then (session_keys E parse private_key expecting) (\<lambda>(signing_key, expected).
     Inr (report_failure err_text
       (session_offer X E env session_id target
         (c\<lparr>so_signing_key := signing_key, so_expecting := expected, so_pair := PairAnswered False\<rparr>)) io))"

definition rs_accept_offer ::
  "ext \<Rightarrow> rtc_ext \<Rightarrow> (rstring \<Rightarrow> signing_token_key option) \<Rightarrow> (rtc_error \<Rightarrow> rstring) \<Rightarrow> peer_env \<Rightarrow>
   ws_server_sdp_message \<Rightarrow> rstring \<Rightarrow> expecting_public_key option \<Rightarrow> accept_config \<Rightarrow> peer_io \<Rightarrow>
   (peer_io, key_error) result"
where
  "rs_accept_offer X E parse err_text env offer private_key expecting c io =
     and_then (session_keys E parse private_key expecting) (\<lambda>(signing_key, expected).
     Inr (report_failure err_text
       (session_accept X E env offer (c\<lparr>ao_signing_key := signing_key, ao_expecting := expected\<rparr>)) io))"

section \<open>Controllers\<close>

text \<open>
  The ends of channels a controller still has. \<open>rv_pin\<close> is the sender for the answer to the
  last request for a PIN; a later request replaces it.
\<close>

record rtc_controller =
  rv_status :: bool
  rv_files :: bool
  rv_selected :: bool
  rv_error :: bool
  rv_receiving :: bool
  rv_pin :: "nat option"

definition controller_new :: rtc_controller where
  "controller_new = \<lparr>rv_status = True, rv_files = True, rv_selected = True, rv_error = True, rv_receiving = True,
     rv_pin = None\<rparr>"

text \<open>What reaches the core: a PIN on its sender, the answer to the offered files.\<close>

datatype to_core = PinGiven nat rstring | SelectionGiven "rstring list option"

type_synonym controller_turn = "((unit, rstring) result \<times> to_core list) \<times> rtc_controller"

text \<open>\<open>gone\<close> is whether the receiver at the other end has been dropped.\<close>

definition pin_requested :: "nat \<Rightarrow> rtc_controller \<Rightarrow> controller_turn" where
  "pin_requested t s = ((Inr (), []), s\<lparr>rv_pin := Some t\<rparr>)"

definition send_pin :: "bool \<Rightarrow> rstring \<Rightarrow> rtc_controller \<Rightarrow> controller_turn" where
  "send_pin gone pin s =
     (case rv_pin s of
        None \<Rightarrow> ((Inl (lit ''Pin already sent''), []), s)
      | Some t \<Rightarrow>
          (if gone then (Inl (lit ''Pin channel closed''), []) else (Inr (), [PinGiven t pin]),
           s\<lparr>rv_pin := None\<rparr>))"

definition answer_selection :: "bool \<Rightarrow> rstring list option \<Rightarrow> rtc_controller \<Rightarrow> controller_turn" where
  "answer_selection gone answer s =
     (if \<not> rv_selected s then ((Inl (lit ''Selected files already sent''), []), s)
      else (if gone then (Inl (lit ''Selected files channel closed''), []) else (Inr (), [SelectionGiven answer]),
            s\<lparr>rv_selected := False\<rparr>))"

definition send_selection :: "bool \<Rightarrow> rstring list \<Rightarrow> rtc_controller \<Rightarrow> controller_turn" where
  "send_selection gone selection s = answer_selection gone (Some selection) s"

definition decline :: "bool \<Rightarrow> rtc_controller \<Rightarrow> controller_turn" where
  "decline gone s = answer_selection gone None s"

definition listen_status :: "rtc_controller \<Rightarrow> controller_turn" where
  "listen_status s =
     (if rv_status s then ((Inr (), []), s\<lparr>rv_status := False\<rparr>)
      else ((Inl (lit ''Status stream already listened to''), []), s))"

definition listen_files :: "bool \<Rightarrow> rtc_controller \<Rightarrow> controller_turn" where
  "listen_files gone s =
     (if \<not> rv_files s then ((Inl (lit ''Files already received''), []), s)
      else ((if gone then Inl (lit ''Files channel closed'') else Inr (), []), s\<lparr>rv_files := False\<rparr>))"

definition listen_error :: "rtc_controller \<Rightarrow> controller_turn" where
  "listen_error s =
     (if rv_error s then ((Inr (), []), s\<lparr>rv_error := False\<rparr>)
      else ((Inl (lit ''Error stream already listened to''), []), s))"

definition listen_receiving :: "rtc_controller \<Rightarrow> controller_turn" where
  "listen_receiving s =
     (if rv_receiving s then ((Inr (), []), s\<lparr>rv_receiving := False\<rparr>)
      else ((Inl (lit ''Receiving stream already listened to''), []), s))"

datatype controller_op =
    OpPinRequested nat
  | OpPin bool rstring
  | OpSelection bool "rstring list"
  | OpDecline bool
  | OpStatus
  | OpFiles bool
  | OpErrors
  | OpReceiving

fun controller_step :: "controller_op \<Rightarrow> rtc_controller \<Rightarrow> controller_turn" where
  "controller_step (OpPinRequested t) s = pin_requested t s"
| "controller_step (OpPin gone pin) s = send_pin gone pin s"
| "controller_step (OpSelection gone selection) s = send_selection gone selection s"
| "controller_step (OpDecline gone) s = decline gone s"
| "controller_step OpStatus s = listen_status s"
| "controller_step (OpFiles gone) s = listen_files gone s"
| "controller_step OpErrors s = listen_error s"
| "controller_step OpReceiving s = listen_receiving s"

fun controller_run :: "controller_op list \<Rightarrow> rtc_controller \<Rightarrow> to_core list" where
  "controller_run [] s = []"
| "controller_run (op # ops) s =
     (let ((_, out), s1) = controller_step op s in out @ controller_run ops s1)"

section \<open>Files\<close>

text \<open>
  A file of the sender: its chunks are sent after the file has been handed to the core. The
  receiver of a file can be read once, buffered.
\<close>

definition send_file :: "bool \<Rightarrow> rstring \<Rightarrow> rtc_file list \<Rightarrow> (nat, rstring) result \<times> rtc_file list" where
  "send_file gone file_id files =
     (if gone then (Inl (lit ''channel closed''), files)
      else (Inr (length files), files @ [\<lparr>rf_file_id = file_id, rf_chunks = []\<rparr>]))"

definition file_sender_send ::
  "bool \<Rightarrow> nat \<Rightarrow> byte list \<Rightarrow> rtc_file list \<Rightarrow> (unit, rstring) result \<times> rtc_file list"
where
  "file_sender_send gone k data files =
     (if gone then (Inl (lit ''channel closed''), files)
      else (Inr (), files[k := (files ! k)\<lparr>rf_chunks := rf_chunks (files ! k) @ [data]\<rparr>]))"

definition file_receiver_receive :: "bool \<Rightarrow> rtc_file \<Rightarrow> (byte list list, rstring) result" where
  "file_receiver_receive taken f =
     (if taken then Inl (lit ''File receiver listened to'') else Inr (buffer_receiver None (rf_chunks f)))"

section \<open>Lemmas\<close>

definition selections :: "to_core list \<Rightarrow> rstring list option list" where
  "selections out = concat (map (\<lambda>x. case x of SelectionGiven a \<Rightarrow> [a] | _ \<Rightarrow> []) out)"

definition pins :: "to_core list \<Rightarrow> nat list" where
  "pins out = concat (map (\<lambda>x. case x of PinGiven t p \<Rightarrow> [t] | _ \<Rightarrow> []) out)"

text \<open>The answers to the offered files that the application has tried to give.\<close>

definition choices :: "controller_op list \<Rightarrow> (bool \<times> rstring list option) list" where
  "choices ops = concat (map (\<lambda>x. case x of OpSelection gone ids \<Rightarrow> [(gone, Some ids)] | OpDecline gone \<Rightarrow> [(gone, None)]
     | _ \<Rightarrow> []) ops)"

definition requests :: "controller_op list \<Rightarrow> nat list" where
  "requests ops = concat (map (\<lambda>x. case x of OpPinRequested t \<Rightarrow> [t] | _ \<Rightarrow> []) ops)"

lemma controller_lists [simp]:
  "selections [] = []" "pins [] = []" "choices [] = []" "requests [] = []"
  "selections (SelectionGiven a # out) = a # selections out" "selections (PinGiven t p # out) = selections out"
  "pins (SelectionGiven a # out) = pins out" "pins (PinGiven t p # out) = t # pins out"
  "choices (OpSelection gone ids # ops) = (gone, Some ids) # choices ops"
  "choices (OpDecline gone # ops) = (gone, None) # choices ops"
  "requests (OpPinRequested t # ops) = t # requests ops"
  by (simp_all add: selections_def pins_def choices_def requests_def)

lemma controller_other [simp]:
  "(case op of OpSelection _ _ \<Rightarrow> False | OpDecline _ \<Rightarrow> False | _ \<Rightarrow> True) \<Longrightarrow> choices (op # ops) = choices ops"
  "(case op of OpPinRequested _ \<Rightarrow> False | _ \<Rightarrow> True) \<Longrightarrow> requests (op # ops) = requests ops"
  by (simp_all add: choices_def requests_def split: controller_op.splits)

lemmas controller_defs =
  pin_requested_def send_pin_def send_selection_def decline_def answer_selection_def listen_status_def listen_files_def
  listen_error_def listen_receiving_def

lemma selections_run:
  "selections (controller_run ops s) =
     (if rv_selected s then (case choices ops of (False, a) # _ \<Rightarrow> [a] | _ \<Rightarrow> []) else [])"
proof (induction ops arbitrary: s)
  case (Cons op ops)
  then show ?case by (cases op) (auto simp: controller_defs split: option.splits)
qed simp

lemma pins_run:
  "mset (pins (controller_run ops s)) \<subseteq># mset (case rv_pin s of Some t \<Rightarrow> [t] | None \<Rightarrow> []) + mset (requests ops)"
proof (induction ops arbitrary: s)
  case (Cons op ops)
  have grow: "A \<subseteq># B \<Longrightarrow> A \<subseteq># add_mset t B" for A B :: "nat multiset" and t
    by (metis add_mset_add_single mset_subset_eq_add_left subset_mset.order_trans)
  have grow2: "A \<subseteq># add_mset t B \<Longrightarrow> A \<subseteq># add_mset t (add_mset u B)" for A B :: "nat multiset" and t u
    using grow [of A "add_mset t B" u] by (simp add: add_mset_commute)
  show ?case
    using Cons.IH [of "snd (controller_step op s)"]
    by (cases op) (auto simp: controller_defs split_def Let_def grow grow2 split: option.splits if_splits)
qed simp

text \<open>Sending files one after the other.\<close>

definition send_all :: "(rstring \<times> byte list list) list \<Rightarrow> rtc_file list" where
  "send_all given =
     foldl (\<lambda>files (file_id, chunks).
       case send_file False file_id files of
         (Inl e, files) \<Rightarrow> files
       | (Inr k, files) \<Rightarrow> foldl (\<lambda>files c. snd (file_sender_send False k c files)) files chunks) [] given"

lemma send_chunks:
  "foldl (\<lambda>files c. snd (file_sender_send False (length files0) c files)) (files0 @ [f]) chunks =
   files0 @ [f\<lparr>rf_chunks := rf_chunks f @ chunks\<rparr>]"
  by (induction chunks arbitrary: f) (simp_all add: file_sender_send_def)

lemma send_all_files: "send_all given = map (\<lambda>(file_id, chunks). \<lparr>rf_file_id = file_id, rf_chunks = chunks\<rparr>) given"
  by (induction given rule: rev_induct) (auto simp: send_all_def send_file_def send_chunks split_def)

lemma buffered_file: "concat (buffer_receiver None chunks) = concat chunks"
  by (simp add: buffer_receiver_def buffer_loop_concat)

section \<open>Properties\<close>

text \<open>
  Whatever the application calls, the core is told an answer to the offered files at most
  once: the first one the application gives, if the core still waits for it. Each request for a
  PIN is answered at most once.
\<close>

theorem controller_answers_once:
  "selections (controller_run ops controller_new) = (case choices ops of (False, a) # _ \<Rightarrow> [a] | _ \<Rightarrow> []) \<and>
   mset (pins (controller_run ops controller_new)) \<subseteq># mset (requests ops)"
  using pins_run [of ops controller_new] by (simp add: selections_run, simp add: controller_new_def)

text \<open>
  A transfer that fails tells the application so in its last status, but leaves the
  connection open; one that succeeds adds no error and closes it.
\<close>

theorem failure_reported_connection_open:
  assumes "session_keys E parse private_key expecting = Inr (key, expected)"
    and "\<not> pi_closed io" "io_listening (pi_task io)"
    and "session_accept X E env sdp_offer (c\<lparr>ao_signing_key := key, ao_expecting := expected\<rparr>) io = (Inl e, io1)"
    and "io_listening (pi_task io1)"
  shows "\<exists>io2. rs_accept_offer X E parse err_text env sdp_offer private_key expecting c io = Inr io2 \<and>
    io_statuses (pi_task io2) = io_statuses (pi_task io1) @ [RtcError (err_text e)] \<and> \<not> pi_closed io2"
proof -
  have "\<not> pi_closed io1"
    using rtc_error_leaves_open [OF assms(2,3), of X E env "[]" 0 undefined sdp_offer
        "c\<lparr>ao_signing_key := key, ao_expecting := expected\<rparr>"] assms(4)
    by (simp add: is_ok_def)
  then show ?thesis
    using assms(1,4,5)
    by (simp add: rs_accept_offer_def report_failure_def in_task_def task_ignore_def send_status_def)
qed

text \<open>
  End to end between two applications: when keys and PINs fit, the bytes the receiving
  application reads from the buffered receivers are, file by file, the bytes the sending
  application has sent.
\<close>

theorem app_transfer_exact:
  assumes "rtc_codec X E" "session_fits cs cr guesses_s guesses_r selected" "keys_fit X cs cr ders derr"
    and "so_sending cs = send_all given"
  shows "\<exists>ms mr. case (send_task X E cs (start_io mr), receive_task X E cr (start_io ms)) of
     ((rs, ios), (rr, ior)) \<Rightarrow>
       rs = Inr () \<and> rr = Inr () \<and> io_sent ios = ms \<and> io_sent ior = mr \<and>
       map (\<lambda>f. (rf_file_id f, and_then (file_receiver_receive False f) (\<lambda>chunks. Inr (concat chunks)))) (io_files ior) =
       map (\<lambda>(file_id, chunks). (file_id, Inr (concat chunks))) given"
proof -
  obtain toks tokr where
    toks: "generate_token_nonce X (so_signing_key cs) (so_nonce cs @ ao_nonce cr) = Some toks" and
    tokr: "generate_token_nonce X (ao_signing_key cr) (so_nonce cs @ ao_nonce cr) = Some tokr"
    using assms(3) token_generates unfolding keys_fit_def by blast
  note runs = sender_runs [OF assms(1-3) toks tokr] receiver_runs [OF assms(1-3) tokr toks]
  have files: "map (\<lambda>f. (rf_file_id f, and_then (file_receiver_receive False f) (\<lambda>chunks. Inr (concat chunks))))
      (map received_file (so_sending cs)) = map (\<lambda>(file_id, chunks). (file_id, Inr (concat chunks))) given"
    by (simp add: assms(4) send_all_files received_file_def file_receiver_receive_def buffered_file concat_chunks_of
        split_def comp_def)
  show ?thesis
    by (rule exI [of _ "sender_sends X E cs cr toks guesses_s guesses_r"],
        rule exI [of _ "receiver_sends X E cs cr tokr guesses_s guesses_r selected"])
      (unfold runs, simp add: start_io_def files [simplified])
qed

definition demo_offer_sdp :: ws_server_sdp_message where
  "demo_offer_sdp = \<lparr>ss_peer = client_info_from demo_peer_info 1, ss_session_id = [], ss_sdp = []\<rparr>"

theorem failure_reported_connection_open_witness:
  "\<exists>io2. rs_accept_offer demo_token_ext demo_rtc (\<lambda>k. Some demo_key) (\<lambda>e. lit ''failed'')
       (rtc_demo_env\<lparr>pe_created := False\<rparr>) demo_offer_sdp (lit ''key'') None demo_accept
       \<lparr>pi_signaled = [], pi_closed = False, pi_task = start_io []\<rparr> = Inr io2 \<and>
     io_statuses (pi_task io2) = [RtcError (lit ''failed'')] \<and> \<not> pi_closed io2"
proof -
  let ?io = "\<lparr>pi_signaled = [], pi_closed = False, pi_task = start_io []\<rparr>"
  let ?c = "demo_accept\<lparr>ao_signing_key := demo_key, ao_expecting := None\<rparr>"
  have "session_keys demo_rtc (\<lambda>k. Some demo_key) (lit ''key'') None = Inr (demo_key, None)"
    by (simp add: session_keys_def ok_or_def)
  moreover have "session_accept demo_token_ext demo_rtc (rtc_demo_env\<lparr>pe_created := False\<rparr>) demo_offer_sdp ?c ?io = (Inl PeerError, ?io)"
    by (simp add: session_accept_def task_then_def step_ok_def task_result_def ensure_def rtc_demo_env_def
        task_fail_def)
  ultimately show ?thesis
    using failure_reported_connection_open [of demo_rtc "\<lambda>k. Some demo_key" "lit ''key''" None demo_key None ?io
        demo_token_ext "rtc_demo_env\<lparr>pe_created := False\<rparr>" demo_offer_sdp demo_accept PeerError ?io "\<lambda>e. lit ''failed''"]
    by (simp add: start_io_def)
qed

theorem app_transfer_exact_witness:
  "\<exists>ms mr. map (\<lambda>f. (rf_file_id f, and_then (file_receiver_receive False f) (\<lambda>chunks. Inr (concat chunks))))
       (io_files (snd (receive_task demo_token_ext demo_rtc demo_accept (start_io ms)))) =
     [(lit ''a'', Inr [1, 2, 3])] \<and> io_sent (snd (send_task demo_token_ext demo_rtc rtc_demo_offer (start_io mr))) = ms"
proof -
  have fit: "so_sending rtc_demo_offer = send_all (map (\<lambda>f. (rf_file_id f, rf_chunks f)) (so_sending rtc_demo_offer))"
    by (simp add: send_all_files rtc_demo_offer_def)
  have sent: "map (\<lambda>(file_id, chunks). (file_id, Inr (concat chunks) :: (byte list, rstring) result))
      (map (\<lambda>f. (rf_file_id f, rf_chunks f)) (so_sending rtc_demo_offer)) = [(lit ''a'', Inr [1, 2, 3])]"
    by (simp add: rtc_demo_offer_def)
  obtain ms mr where "case (send_task demo_token_ext demo_rtc rtc_demo_offer (start_io mr),
       receive_task demo_token_ext demo_rtc demo_accept (start_io ms)) of
     ((rs, ios), (rr, ior)) \<Rightarrow>
       rs = Inr () \<and> rr = Inr () \<and> io_sent ios = ms \<and> io_sent ior = mr \<and>
       map (\<lambda>f. (rf_file_id f, and_then (file_receiver_receive False f) (\<lambda>chunks. Inr (concat chunks)))) (io_files ior) =
       [(lit ''a'', Inr [1, 2, 3])]"
    using app_transfer_exact [OF demo_rtc_codec demo_session_fits demo_keys_fit fit] unfolding sent by (elim exE) (rule that)
  then show ?thesis by (intro exI [of _ ms] exI [of _ mr]) (simp add: split_def)
qed

end
