(* ===== verification/Spec2Isabelle.thy ===== *)
theory Spec2Isabelle
  imports FB_Prelude FB_Filename FB_Crypto FB_Net FB_Model FB_RemotePath FB_Http FB_Pin FB_Save
    FB_Upload FB_Upload_Steps FB_Web FB_RemoteFs FB_Server FB_Store
    FB_IpText FB_Utf8 FB_Signaling FB_Signaling_Steps FB_SignalClient FB_Token FB_Interface
    FB_Multicast FB_Url FB_Client FB_Discovery FB_FsClient FB_FsRequests
    FB_Rtc FB_RtcSession FB_RtcTransfer FB_RtcSafety FB_CliUtil FB_CliStore
    FB_CliSend FB_CliApp FB_CliAppFrame FB_CliAppSafety FB_CliPicker
    FB_AppServer FB_AppServerSafety FB_AppClient FB_AppDiscovery FB_AppRtc
begin

text \<open>
  A verification development for the Rust code of FireBoxTransfer: the core library
  (\<^verbatim>\<open>packages/core/src\<close> under \<^verbatim>\<open>src/\<close>), the signaling server (\<^verbatim>\<open>server/src\<close>), the command
  line client (\<^verbatim>\<open>cli/src\<close>) and the bridge to the Dart application
  (\<^verbatim>\<open>packages/localsend_isolates/rust/src\<close>). The core is a LocalSend-compatible HTTP server and client for file
  transfer on a local network, extended by a remote file system API, multicast discovery with
  a store of discovered devices, and transfers over WebRTC that peers arrange through the
  signaling server. The definitions are translated from the sources under their own names; a
  handler that awaits the application is split at the await, and what the environment
  decides (the application's answers, file system calls, the network, chunks of a body,
  dropped connections) is an input.

  \<^bold>\<open>Theories and sources.\<close>
  \<^item> \<open>FB_Prelude\<close>: Rust strings as lists of scalar values with their UTF-8 width, \<^verbatim>\<open>Result\<close> and
    the question mark operator, the lemma collections \<open>str_simps\<close> and \<open>res_simps\<close>, and the
    contract \<open>normaliser\<close>.
  \<^item> \<open>FB_Filename\<close> (\<^verbatim>\<open>util/filename.rs\<close>): sanitising names received from a peer. Interprets
    \<open>normaliser\<close>; results are legal, single path components of at most 255 bytes.
  \<^item> \<open>FB_Crypto\<close> (\<^verbatim>\<open>crypto/hash.rs\<close>, \<^verbatim>\<open>cert.rs\<close>, \<^verbatim>\<open>nonce.rs\<close>): hex, fingerprints, the hashing loop,
    the order of certificate checks. SHA-256 and X.509 are parameters.
  \<^item> \<open>FB_Net\<close> (\<^verbatim>\<open>http/server/peer_ip.rs\<close> and the \<^verbatim>\<open>Display\<close> of \<^verbatim>\<open>std::net\<close>): peer addresses and
    their text, which keys the web sessions.
  \<^item> \<open>FB_Model\<close> (\<^verbatim>\<open>model/\<close>, \<^verbatim>\<open>http/dto.rs\<close>, \<^verbatim>\<open>dto_v2.rs\<close>, \<^verbatim>\<open>state.rs\<close>): wire objects, their
    conversions, streaming of file content.
  \<^item> \<open>FB_Http\<close> (\<^verbatim>\<open>http/server/common\<close>: \<^verbatim>\<open>error.rs\<close>, \<^verbatim>\<open>response.rs\<close>, \<^verbatim>\<open>query.rs\<close>,
    \<^verbatim>\<open>collect_to_json.rs\<close>): requests, responses, errors. The record \<open>ext\<close> gathers the
    functions of third-party crates; \<open>demo_ext\<close> is an instance for the witnesses.
  \<^item> \<open>FB_Pin\<close> (\<^verbatim>\<open>common/pin.rs\<close>): the PIN check over an LRU cache. The cache is a parameter with
    the contract \<open>lru_cache\<close>; \<open>pin_table\<close> extends it with the bound on guesses. Both are
    interpreted by a list kept in order of use.
  \<^item> \<open>FB_Save\<close> (\<^verbatim>\<open>common/save.rs\<close>): writing a request body to its target, with sizes and
    checksums.
  \<^item> \<open>FB_Upload\<close> (\<^verbatim>\<open>server/v2.rs\<close>, \<^verbatim>\<open>common/session.rs\<close>, \<^verbatim>\<open>ServerHandle::cancel_v2_session\<close>): the
    upload protocol: register, prepare-upload, upload, cancel, and the drop guards.
  \<^item> \<open>FB_Upload_Steps\<close>: the same critical sections as a transition system \<open>v2_step\<close> over the
    slot, the requests in flight and the cleanup tasks; the invariant says who is
    responsible for the slot and for each file.
  \<^item> \<open>FB_Web\<close> (\<^verbatim>\<open>server/web.rs\<close>): web pages and the download API, with its transition system
    \<open>web_step\<close>.
  \<^item> \<open>FB_RemotePath\<close> (\<^verbatim>\<open>http/firebox.rs\<close>): wire types and validation of the remote file system;
    \<open>resolve\<close> is the reference meaning of a path.
  \<^item> \<open>FB_RemoteFs\<close> (\<^verbatim>\<open>server/firebox.rs\<close>): its handlers, routing and permits. The provider is
    the record of functions \<open>fs_app\<close>.
  \<^item> \<open>FB_Server\<close> (\<^verbatim>\<open>server/mod.rs\<close>, \<^verbatim>\<open>internal.rs\<close>, \<^verbatim>\<open>v3.rs\<close>, \<^verbatim>\<open>common/client_cert_verifier.rs\<close>): the
    state of the server, routing of requests, client identity, accept back-off, announced
    addresses (with the order of socket addresses as an instance of \<open>linorder\<close>).
  \<^item> \<open>FB_Store\<close> (\<^verbatim>\<open>discovery/store.rs\<close>): discovered devices, merged by fingerprint. Interprets
    the contract \<open>keyed_store\<close>.
  \<^item> \<open>FB_IpText\<close> and \<open>FB_Utf8\<close> (standard library): the parser of IP addresses, which
    with its printer interprets the contract \<open>codec\<close>, and UTF-8 with its round trip.
  \<^item> \<open>FB_Signaling\<close>, \<open>FB_Signaling_Steps\<close> (\<^verbatim>\<open>server/src\<close>): one critical section per
    definition, then the server as a transition system \<open>sig_step\<close> over rooms, connections,
    their bounded channels and the request counts; the invariants give rooms, isolation of
    network groups, limits and delivery.
  \<^item> \<open>FB_SignalClient\<close> (\<^verbatim>\<open>webrtc/signaling.rs\<close>): the client of that server, with its listener
    and callbacks, run against what the server sends.
  \<^item> \<open>FB_Token\<close> (\<^verbatim>\<open>crypto/token.rs\<close>): tokens that prove a key over a nonce or a time. The
    signature scheme is a parameter.
  \<^item> \<open>FB_Interface\<close> (\<^verbatim>\<open>util/interface.rs\<close>), \<open>FB_Multicast\<close> (\<^verbatim>\<open>multicast/\<close>): filters of network
    interfaces, the announcement burst and the receive loop of a socket.
  \<^item> \<open>FB_Url\<close>, \<open>FB_Client\<close> (\<^verbatim>\<open>http/client\<close>): URLs with scoped hosts, pinning of certificates,
    and the calls of protocol versions 2 and 3. The network is the parameter \<open>net\<close>.
  \<^item> \<open>FB_Discovery\<close> (\<^verbatim>\<open>discovery/mod.rs\<close>): probes, answers to announcements, known addresses
    and subnet scans, with the store of \<open>FB_Store\<close> and the client of \<open>FB_Client\<close>.
  \<^item> \<open>FB_FsClient\<close> (\<^verbatim>\<open>http/client/firebox.rs\<close>): the client of the remote file system.
    \<open>FB_FsRequests\<close> runs what each operation sends through the handlers of \<open>FB_RemoteFs\<close>.
  \<^item> \<open>FB_Rtc\<close>, \<open>FB_RtcSession\<close> (\<^verbatim>\<open>webrtc/webrtc.rs\<close>): messages, chunks, nonces, tokens and PINs,
    then the sending and the receiving task. \<open>FB_RtcTransfer\<close> runs both against each other,
    \<open>FB_RtcSafety\<close> shows what each guarantees against any peer.
  \<^item> \<open>FB_CliUtil\<close> (\<^verbatim>\<open>cli/src/slots.rs\<close>, \<^verbatim>\<open>util.rs\<close>, \<^verbatim>\<open>picker.rs\<close>, \<^verbatim>\<open>ui.rs\<close>, \<^verbatim>\<open>banner.rs\<close>),
    \<open>FB_CliStore\<close> (\<^verbatim>\<open>cli/src/storage\<close>), \<open>FB_CliSend\<close> (\<^verbatim>\<open>send_task.rs\<close>): hotkeys, free paths, log,
    files kept on disk, and the send task over \<open>FB_Client\<close>.
  \<^item> \<open>FB_CliApp\<close> (\<^verbatim>\<open>cli/src/app\<close>, \<^verbatim>\<open>device_list.rs\<close>): the application, one definition per handler
    of keys, events and background results. A handler emits commands; \<open>app_step\<close> composes
    them, \<open>FB_CliAppFrame\<close> says what each leaves alone, \<open>FB_CliAppSafety\<close> has the invariants
    of all runs. \<open>FB_CliPicker\<close> (\<^verbatim>\<open>picker.rs\<close>) is its file picker.
  \<^item> \<open>FB_AppServer\<close> (\<^verbatim>\<open>api/server.rs\<close> of the bridge): the server as the Dart application holds
    it. Events of \<open>FB_Upload\<close>, \<open>FB_Web\<close> and \<open>FB_RemoteFs\<close> come with a responder, kept until the
    application answers; \<open>bridge_step\<close> composes loop and calls, \<open>FB_AppServerSafety\<close> has the
    invariants of all runs and the registry of running instances.
  \<^item> \<open>FB_AppClient\<close> (\<^verbatim>\<open>api/http.rs\<close>, \<^verbatim>\<open>stream.rs\<close>, \<^verbatim>\<open>crypto.rs\<close>, \<^verbatim>\<open>util/bytes.rs\<close>): the client over
    \<open>FB_Client\<close> and \<open>FB_FsClient\<close>, throttled progress, reads pulled chunk by chunk, streams.
  \<^item> \<open>FB_AppDiscovery\<close> (\<^verbatim>\<open>api/discovery.rs\<close>): the loop between the events of \<open>FB_Discovery\<close> and the
    application, with the bounded channel between them.
  \<^item> \<open>FB_AppRtc\<close> (\<^verbatim>\<open>api/webrtc.rs\<close>): signaling and WebRTC sessions, controllers used once, files.

  \<^bold>\<open>What is shown.\<close> Authorisation: uploads need a session, an address and a token, downloads
  need consent, remote file system events need a certificate and valid paths, registering
  with a pin and WebRTC transfers need the key that was expected, the command line client
  accepts files only by pairing or by a key pressed for them. Concurrency: the session slot
  has one owner in every interleaving, is not leaked except through one window that is
  pinned down, files are started at most three times, sessions end once; the signaling server
  isolates groups. Functional correctness: what is saved is the body, a WebRTC transfer
  delivers every byte, the send task uploads the accepted files in order, listings and
  entries are checked on both sides of the remote file system, which agree on every request,
  sanitised names are legal,
  stores are the fold of their operations and survive failing writes. The bridge answers every
  request at most once and only where the call of the application fits it, and shows the application the
  stored devices as far as their events are delivered. Some theorems document
  behaviour the code does not intend, such as \<open>dropped_clear_blocks_forever\<close>,
  \<open>superseded_request_loses_session\<close>, \<open>unproved_registration_announced\<close>,
  \<open>claimed_fingerprint_hijacks\<close>, \<open>greeting_blocked_forever\<close>, \<open>rtc_empty_transfer_fails\<close>,
  \<open>send_blocks_until_ended\<close>, \<open>claimed_pairing_accepted\<close>, \<open>consent_reaches_successor\<close> and
  \<open>burst_hides_device\<close>.

  \<^bold>\<open>Bounds and termination.\<close> No definition needs fuel: loops over bodies, chunks, messages and
  file reads are recursions over the list of what arrives. The PIN loop is shown to end by
  the tries left, the search for a free file name by the finitely many names that exist.
  Integers keep their width where the code computes with them (attempt counters, sizes,
  ports, limits).

  \<^bold>\<open>Not modelled.\<close> TLS, sockets, timers and task scheduling; JSON, TOML and PEM text (decoding
  is a parameter, encoding leaves the value in the response); SHA-256, X.509, signatures,
  zlib, \<^verbatim>\<open>reqwest\<close> and the WebRTC library, which are parameters; of the command line client the
  drawing on the terminal, the third-party file explorer behind the picker, the text of sizes
  and progress that is formatted from floating point numbers, and the wiring of its tasks in
  \<^verbatim>\<open>run\<close>; of the bridge the generated file \<^verbatim>\<open>frb_generated.rs\<close>, the mirrors of data types it
  needs, and functions that only pass their arguments on (logging, cancellation, certificates).
\<close>

end
